(* ===== verification/Rust_Base.thy ===== *)
theory Rust_Base
  imports Main "HOL-Library.Word" "HOL-Library.List_Lexorder"
begin

text \<open>
  Prelude of the development: the Rust values every component shares.

  \<^item> A Rust \<open>String\<close> is a list of Unicode scalar values (\<open>ustr\<close>), so that \<open>chars()\<close>,
    \<open>trim()\<close> and the escape sequences of the JSON layer mean what they mean in the code.
    The order of \<open>String\<close> (bytewise on UTF-8) is the lexicographic order of the scalar
    values, which is the order \<open>HOL-Library.List_Lexorder\<close> gives \<open>nat list\<close>.
    A literal of the source is written \<open>lit ''...''\<close>.
  \<^item> \<open>Result\<close> (ok type first, error type second) is the sum \<open>'e + 'a\<close> with \<open>Inl\<close> the error; the operator \<open>?\<close> of the
    code is \<open>and_then\<close>.
  \<^item> Unsigned machine integers are words; the checked and saturating operations of the
    standard library are written out here once.
\<close>

section \<open>Automation collections\<close>

named_theorems result_simps \<open>elimination of the error monad\<close>
named_theorems inv_intros \<open>introduction rules for component invariants\<close>

section \<open>Results\<close>

fun and_then :: "'e + 'a \<Rightarrow> ('a \<Rightarrow> 'e + 'b) \<Rightarrow> 'e + 'b" where
  "and_then (Inl e) f = Inl e"
| "and_then (Inr x) f = f x"

definition ensure :: "bool \<Rightarrow> 'e \<Rightarrow> 'e + unit" where
  "ensure b e = (if b then Inr () else Inl e)"

fun is_ok :: "'e + 'a \<Rightarrow> bool" where
  "is_ok (Inl e) = False"
| "is_ok (Inr x) = True"

lemma and_then_Inr [result_simps]:
  "and_then r f = Inr y \<longleftrightarrow> (\<exists>x. r = Inr x \<and> f x = Inr y)"
  by (cases r) auto

lemma and_then_Inl [result_simps]:
  "and_then r f = Inl e \<longleftrightarrow> r = Inl e \<or> (\<exists>x. r = Inr x \<and> f x = Inl e)"
  by (cases r) auto

lemma ensure_Inr [simp, result_simps]: "ensure b e = Inr u \<longleftrightarrow> b"
  by (simp add: ensure_def)

lemma ensure_Inl [simp, result_simps]: "ensure b e = Inl e' \<longleftrightarrow> \<not> b \<and> e = e'"
  by (auto simp: ensure_def)

lemma ensure_True [simp]: "ensure True e = Inr ()" and ensure_False [simp]: "ensure False e = Inl e"
  by (simp_all add: ensure_def)

lemma and_then_ensure: "and_then (ensure b e) f = (if b then f () else Inl e)"
  by (simp add: ensure_def)

lemma and_then_cong [fundef_cong]:
  "r = r' \<Longrightarrow> (\<And>x. r' = Inr x \<Longrightarrow> f x = g x) \<Longrightarrow> and_then r f = and_then r' g"
  by (cases r') auto

definition map_ok :: "('a \<Rightarrow> 'b) \<Rightarrow> 'e + 'a \<Rightarrow> 'e + 'b" where
  "map_ok f r = and_then r (\<lambda>x. Inr (f x))"

lemma map_ok_simps [simp]:
  "map_ok f (Inl e) = Inl e"
  "map_ok f (Inr x) = Inr (f x)"
  by (simp_all add: map_ok_def)

lemma map_ok_Inr [result_simps]: "map_ok f r = Inr y \<longleftrightarrow> (\<exists>x. r = Inr x \<and> y = f x)"
  by (cases r) auto

lemma is_ok_iff: "is_ok r \<longleftrightarrow> (\<exists>x. r = Inr x)"
  by (cases r) auto

lemma is_ok_and_then: "is_ok (and_then r f) \<longleftrightarrow> (\<exists>x. r = Inr x \<and> is_ok (f x))"
  by (cases r) auto

lemma is_ok_ensure [simp]: "is_ok (ensure b e) \<longleftrightarrow> b"
  by (simp add: ensure_def)

text \<open>A loop of checks that stops at the first error.\<close>

fun each :: "('a \<Rightarrow> 'e + unit) \<Rightarrow> 'a list \<Rightarrow> 'e + unit" where
  "each f [] = Inr ()"
| "each f (x # xs) = and_then (f x) (\<lambda>u. each f xs)"

lemma each_Inr [simp, result_simps]: "each f xs = Inr u \<longleftrightarrow> (\<forall>x \<in> set xs. f x = Inr ())"
  by (induction xs) (auto simp: and_then_Inr)

lemma each_cong [fundef_cong]:
  "xs = ys \<Longrightarrow> (\<And>x. x \<in> set ys \<Longrightarrow> f x = g x) \<Longrightarrow> each f xs = each g ys"
  by (induction xs arbitrary: ys) auto

text \<open>A validation that collects its complaints.\<close>

definition no_problems :: "'e list \<Rightarrow> 'e list + unit" where
  "no_problems ps = (if ps = [] then Inr () else Inl ps)"

lemma no_problems_Inr [simp, result_simps]: "no_problems ps = Inr u \<longleftrightarrow> ps = []"
  by (simp add: no_problems_def)

lemma no_problems_Inl [simp, result_simps]: "no_problems ps = Inl qs \<longleftrightarrow> ps = qs \<and> ps \<noteq> []"
  by (auto simp: no_problems_def)

section \<open>Vectors\<close>

lemma set_map_filter: "y \<in> set (List.map_filter f xs) \<longleftrightarrow> (\<exists>x \<in> set xs. f x = Some y)"
  by (force simp: map_filter_def)

text \<open>Nothing of a list repeats, and nothing of it has been seen before.\<close>

definition fresh :: "'a list \<Rightarrow> 'a list \<Rightarrow> bool" where
  "fresh seen xs \<longleftrightarrow> distinct xs \<and> set xs \<inter> set seen = {}"

lemma fresh_simps [simp]: "fresh seen []" "fresh seen (x # xs) \<longleftrightarrow> x \<notin> set seen \<and> fresh (x # seen) xs"
  by (auto simp: fresh_def)

lemma fresh_append [simp]: "fresh seen (xs @ ys) \<longleftrightarrow> fresh seen xs \<and> fresh (rev xs @ seen) ys"
  by (auto simp: fresh_def)

lemma fresh_Nil: "fresh [] xs \<longleftrightarrow> distinct xs"
  by (simp add: fresh_def)

text \<open>\<open>sort(); dedup()\<close> is \<open>remdups_adj (sort xs)\<close>.\<close>

lemma sorted_remdups_adj_distinct: "sorted xs \<Longrightarrow> distinct (remdups_adj xs)"
  for xs :: "'a::linorder list"
  by (induction xs rule: remdups_adj.induct) auto

section \<open>Strings\<close>

type_synonym uchar = nat
type_synonym ustr = "uchar list"

definition lit :: "string \<Rightarrow> ustr" where
  "lit s = map of_char s"

lemma lit_inject [simp]: "lit s = lit t \<longleftrightarrow> s = t"
proof -
  have "inj (of_char :: char \<Rightarrow> nat)" by (rule inj_of_char)
  then show ?thesis by (simp add: lit_def inj_map_eq_map)
qed

lemma lit_Nil [simp]: "lit '''' = []"
  by (simp add: lit_def)

lemma lit_append: "lit (s @ t) = lit s @ lit t"
  by (simp add: lit_def)

lemma lit_eq_Nil [simp]: "lit s = [] \<longleftrightarrow> s = []"
  by (simp add: lit_def)

text \<open>A scalar value: any code point that is not a surrogate.\<close>

definition scalar :: "uchar \<Rightarrow> bool" where
  "scalar c \<longleftrightarrow> c \<le> 0x10FFFF \<and> \<not> (0xD800 \<le> c \<and> c \<le> 0xDFFF)"

definition is_ascii_digit :: "uchar \<Rightarrow> bool" where
  "is_ascii_digit c \<longleftrightarrow> 48 \<le> c \<and> c \<le> 57"

definition is_ascii_lowercase :: "uchar \<Rightarrow> bool" where
  "is_ascii_lowercase c \<longleftrightarrow> 97 \<le> c \<and> c \<le> 122"

definition is_ascii_uppercase :: "uchar \<Rightarrow> bool" where
  "is_ascii_uppercase c \<longleftrightarrow> 65 \<le> c \<and> c \<le> 90"

definition to_ascii_lower :: "uchar \<Rightarrow> uchar" where
  "to_ascii_lower c = (if is_ascii_uppercase c then c + 32 else c)"

definition is_alphanumeric :: "uchar \<Rightarrow> bool" where
  "is_alphanumeric c \<longleftrightarrow> is_ascii_digit c \<or> is_ascii_lowercase c \<or> is_ascii_uppercase c"

definition eq_ignore_ascii_case :: "ustr \<Rightarrow> ustr \<Rightarrow> bool" where
  "eq_ignore_ascii_case s t \<longleftrightarrow> map to_ascii_lower s = map to_ascii_lower t"

lemma eq_ignore_ascii_case_refl [simp]: "eq_ignore_ascii_case s s"
  by (simp add: eq_ignore_ascii_case_def)

lemma eq_ignore_ascii_case_sym: "eq_ignore_ascii_case s t \<longleftrightarrow> eq_ignore_ascii_case t s"
  by (auto simp: eq_ignore_ascii_case_def)

text \<open>\<open>char::is_control\<close> (category Cc) and \<open>char::is_whitespace\<close> (White\_Space).\<close>

definition is_control :: "uchar \<Rightarrow> bool" where
  "is_control c \<longleftrightarrow> c < 0x20 \<or> (0x7F \<le> c \<and> c \<le> 0x9F)"

definition is_whitespace :: "uchar \<Rightarrow> bool" where
  "is_whitespace c \<longleftrightarrow> (9 \<le> c \<and> c \<le> 13) \<or> c = 0x20 \<or> c = 0x85 \<or> c = 0xA0 \<or> c = 0x1680
     \<or> (0x2000 \<le> c \<and> c \<le> 0x200A) \<or> c = 0x2028 \<or> c = 0x2029 \<or> c = 0x202F \<or> c = 0x205F
     \<or> c = 0x3000"

definition trim_start :: "ustr \<Rightarrow> ustr" where
  "trim_start s = dropWhile is_whitespace s"

definition trim_end :: "ustr \<Rightarrow> ustr" where
  "trim_end s = rev (dropWhile is_whitespace (rev s))"

definition trim :: "ustr \<Rightarrow> ustr" where
  "trim s = trim_end (trim_start s)"

text \<open>The test \<open>s.trim().is_empty()\<close> the guards of the code use.\<close>

definition blank :: "ustr \<Rightarrow> bool" where
  "blank s \<longleftrightarrow> trim s = []"

lemma blank_iff: "blank s \<longleftrightarrow> (\<forall>c \<in> set s. is_whitespace c)"
  by (auto simp: blank_def trim_def trim_end_def trim_start_def dropWhile_eq_Nil_conv
      dest: set_dropWhileD)
     (metis dropWhile_eq_Nil_conv hd_dropWhile hd_in_set)

lemma blank_Nil [simp]: "blank []"
  by (simp add: blank_iff)

text \<open>Text without white space at its ends is not trimmed.\<close>

lemma trim_start_id: "s \<noteq> [] \<Longrightarrow> \<not> is_whitespace (hd s) \<Longrightarrow> trim_start s = s"
  by (cases s) (simp_all add: trim_start_def)

lemma trim_end_id: "s \<noteq> [] \<Longrightarrow> \<not> is_whitespace (last s) \<Longrightarrow> trim_end s = s"
  by (cases s rule: rev_cases) (simp_all add: trim_end_def)

text \<open>\<open>str::strip_prefix\<close> and \<open>str::rsplit_once\<close> (for a non-empty separator).\<close>

definition strip_prefix :: "ustr \<Rightarrow> ustr \<Rightarrow> ustr option" where
  "strip_prefix p s = (if take (length p) s = p then Some (drop (length p) s) else None)"

fun rsplit_once :: "ustr \<Rightarrow> ustr \<Rightarrow> (ustr \<times> ustr) option" where
  "rsplit_once sep [] = None"
| "rsplit_once sep (c # cs) = (case rsplit_once sep cs of
       Some (a, b) \<Rightarrow> Some (c # a, b)
     | None \<Rightarrow> map_option (Pair []) (strip_prefix sep (c # cs)))"

lemma strip_prefix_append [simp]: "strip_prefix p (p @ s) = Some s"
  by (simp add: strip_prefix_def)

lemma strip_prefix_Some: "strip_prefix p s = Some t \<longleftrightarrow> s = p @ t"
  by (auto simp: strip_prefix_def intro: append_take_drop_id [symmetric])
     (metis append_take_drop_id)

lemma rsplit_once_Some: "rsplit_once sep s = Some (a, b) \<Longrightarrow> s = a @ sep @ b"
  by (induction s arbitrary: a) (auto simp: strip_prefix_Some split: option.splits)

text \<open>\<open>str::strip_suffix\<close> and \<open>str::split\<close> at one character.\<close>

definition strip_suffix :: "ustr \<Rightarrow> ustr \<Rightarrow> ustr option" where
  "strip_suffix p s = map_option rev (strip_prefix (rev p) (rev s))"

lemma strip_suffix_Some: "strip_suffix p s = Some t \<longleftrightarrow> s = t @ p"
  by (auto simp: strip_suffix_def strip_prefix_Some)
     (metis rev_append rev_rev_ident)

fun split_char :: "uchar \<Rightarrow> ustr \<Rightarrow> ustr list" where
  "split_char c [] = [[]]"
| "split_char c (x # xs) = (if x = c then [] # split_char c xs
     else (case split_char c xs of [] \<Rightarrow> [[x]] | p # ps \<Rightarrow> (x # p) # ps))"

lemma split_char_nonempty [simp]: "split_char c s \<noteq> []"
  by (induction c s rule: split_char.induct) (auto split: list.splits)

lemma split_char_free: "p \<in> set (split_char c s) \<Longrightarrow> c \<notin> set p"
  by (induction c s arbitrary: p rule: split_char.induct) (auto split: list.splits if_splits)

lemma split_char_append: "split_char c (s @ c # t) = split_char c s @ split_char c t"
  by (induction c s rule: split_char.induct) (auto split: list.splits)

lemma split_char_one: "c \<notin> set s \<Longrightarrow> split_char c s = [s]"
  by (induction s) auto

text \<open>\<open>str::contains\<close> and \<open>str::split_once\<close>.\<close>

fun contains_str :: "ustr \<Rightarrow> ustr \<Rightarrow> bool" where
  "contains_str pat [] \<longleftrightarrow> pat = []"
| "contains_str pat (c # cs) \<longleftrightarrow> strip_prefix pat (c # cs) \<noteq> None \<or> contains_str pat cs"

fun split_once_str :: "ustr \<Rightarrow> ustr \<Rightarrow> (ustr \<times> ustr) option" where
  "split_once_str sep [] = (if sep = [] then Some ([], []) else None)"
| "split_once_str sep (c # cs) = (case strip_prefix sep (c # cs) of
       Some rest \<Rightarrow> Some ([], rest)
     | None \<Rightarrow> map_option (\<lambda>(a, b). (c # a, b)) (split_once_str sep cs))"

lemma split_once_str_Some: "split_once_str sep s = Some (a, b) \<Longrightarrow> s = a @ sep @ b"
  by (induction s arbitrary: a) (auto simp: strip_prefix_Some split: option.splits if_splits)

lemma strip_prefix_None: "strip_prefix p s = None \<longleftrightarrow> (\<forall>t. s \<noteq> p @ t)"
  using strip_prefix_Some [of p s] by (cases "strip_prefix p s") auto

lemma contains_str_iff: "contains_str pat s \<longleftrightarrow> (\<exists>a b. s = a @ pat @ b)"
proof (induction s)
  case (Cons c s)
  have "(\<exists>a b. c # s = a @ pat @ b) \<longleftrightarrow> (\<exists>b. c # s = pat @ b) \<or> (\<exists>a b. s = a @ pat @ b)"
    by (rule iffI) (auto simp: Cons_eq_append_conv)
  with Cons show ?case by (simp add: strip_prefix_None)
qed simp

lemma split_once_str_here: "sep \<noteq> [] \<Longrightarrow> split_once_str sep (sep @ r) = Some ([], r)"
  by (cases sep) (simp_all add: strip_prefix_def)

text \<open>A separator that does not occur before a character it lacks is found right after it.\<close>

lemma split_once_str_after:
  assumes "sep \<noteq> []" "c \<notin> set sep" "\<not> contains_str sep a"
  shows "split_once_str sep (a @ c # sep @ r) = Some (a @ [c], r)"
  using assms(3)
proof (induction a)
  case Nil
  have "strip_prefix sep (c # sep @ r) = None"
    using assms(1,2) by (cases sep) (auto simp: strip_prefix_None)
  with assms(1) show ?case by (simp add: split_once_str_here)
next
  case (Cons x a)
  have "strip_prefix sep (x # a @ c # sep @ r) = None"
  proof (rule ccontr)
    assume "strip_prefix sep (x # a @ c # sep @ r) \<noteq> None"
    then obtain t where t: "(x # a) @ c # sep @ r = sep @ t" by (auto simp: strip_prefix_None)
    show False
    proof (cases "length sep \<le> length (x # a)")
      case True
      then have "take (length sep) (x # a) = sep"
        using arg_cong [OF t, of "take (length sep)"]
        by (simp only: take_append append_eq_conv_conj) simp
      with append_take_drop_id [of "length sep" "x # a"]
      have "x # a = [] @ sep @ drop (length sep) (x # a)" by simp
      then have "contains_str sep (x # a)" unfolding contains_str_iff by blast
      with Cons.prems show False by simp
    next
      case False
      then have "c = sep ! length (x # a)"
        using arg_cong [OF t, of "\<lambda>s. s ! length (x # a)"]
        by (simp only: nth_append not_le if_True) simp
      with False assms(2) show False by auto
    qed
  qed
  with Cons show ?case by simp
qed

text \<open>\<open>str::lines\<close>: split at line feeds, no last empty line, one carriage return before a line feed dropped.\<close>

definition chomp :: "ustr \<Rightarrow> ustr" where
  "chomp l = (case strip_suffix [13] l of Some t \<Rightarrow> t | None \<Rightarrow> l)"

definition str_lines :: "ustr \<Rightarrow> ustr list" where
  "str_lines s = (let ls = split_char 10 s in
     map chomp (butlast ls) @ (if last ls = [] then [] else [last ls]))"

text \<open>Lines written with a line feed each are read back.\<close>

lemma split_lines: "list_all (\<lambda>l. 10 \<notin> set l) ls \<Longrightarrow> split_char 10 (concat (map (\<lambda>l. l @ [10]) ls)) = ls @ [[]]"
  by (induction ls) (simp_all add: split_char_append split_char_one)

lemma str_lines_concat:
  "list_all (\<lambda>l. 10 \<notin> set l \<and> last (0 # l) \<noteq> 13) ls \<Longrightarrow> str_lines (concat (map (\<lambda>l. l @ [10]) ls)) = ls"
  by (simp add: str_lines_def split_lines list_all_iff)
     (rule map_idI, auto simp: chomp_def strip_suffix_Some split: option.splits)

text \<open>\<open>str::split_inclusive('\n')\<close> and \<open>str::trim_end_matches\<close>, \<open>trim_start_matches\<close>, \<open>trim_matches\<close> for a set
  of characters.\<close>

fun split_inclusive :: "uchar \<Rightarrow> ustr \<Rightarrow> ustr list" where
  "split_inclusive c [] = []"
| "split_inclusive c (x # xs) = (if x = c then [x] # split_inclusive c xs
     else (case split_inclusive c xs of [] \<Rightarrow> [[x]] | p # ps \<Rightarrow> (x # p) # ps))"

definition trim_start_of :: "uchar list \<Rightarrow> ustr \<Rightarrow> ustr" where
  "trim_start_of cs s = dropWhile (\<lambda>c. c \<in> set cs) s"

definition trim_end_of :: "uchar list \<Rightarrow> ustr \<Rightarrow> ustr" where
  "trim_end_of cs s = rev (dropWhile (\<lambda>c. c \<in> set cs) (rev s))"

definition trim_of :: "uchar list \<Rightarrow> ustr \<Rightarrow> ustr" where
  "trim_of cs s = trim_end_of cs (trim_start_of cs s)"

definition starts_with_str :: "ustr \<Rightarrow> ustr \<Rightarrow> bool" where
  "starts_with_str p s \<longleftrightarrow> strip_prefix p s \<noteq> None"

definition ascii_lower :: "ustr \<Rightarrow> ustr" where
  "ascii_lower s = map to_ascii_lower s"

text \<open>\<open>[String]::join\<close>\<close>

fun join :: "ustr \<Rightarrow> ustr list \<Rightarrow> ustr" where
  "join sep [] = []"
| "join sep [x] = x"
| "join sep (x # y # ys) = x @ sep @ join sep (y # ys)"

lemma join_Cons: "ys \<noteq> [] \<Longrightarrow> join sep (y # ys) = y @ sep @ join sep ys"
  by (cases ys) auto

lemma join_append: "xs \<noteq> [] \<Longrightarrow> ys \<noteq> [] \<Longrightarrow> join sep (xs @ ys) = join sep xs @ sep @ join sep ys"
  by (induction xs rule: induct_list012) (auto simp: join_Cons)

lemma split_join: "xs \<noteq> [] \<Longrightarrow> \<forall>x \<in> set xs. c \<notin> set x \<Longrightarrow> split_char c (join [c] xs) = xs"
  by (induction xs rule: induct_list012) (auto simp: split_char_one split_char_append)

lemma join_split: "join [c] (split_char c s) = s"
proof (induction c s rule: split_char.induct)
  case (2 c x xs)
  then show ?case by (cases "split_char c xs" rule: remdups_adj.cases) auto
qed simp

text \<open>\<open>str::replace\<close> for a non-empty pattern; the first argument counts the characters of the
  last match that are still to be dropped.\<close>

fun replace_from :: "nat \<Rightarrow> ustr \<Rightarrow> ustr \<Rightarrow> ustr \<Rightarrow> ustr" where
  "replace_from k pat rep [] = []"
| "replace_from (Suc k) pat rep (c # cs) = replace_from k pat rep cs"
| "replace_from 0 pat rep (c # cs) =
     (if strip_prefix pat (c # cs) \<noteq> None then rep @ replace_from (length pat - 1) pat rep cs
      else c # replace_from 0 pat rep cs)"

definition str_replace :: "ustr \<Rightarrow> ustr \<Rightarrow> ustr \<Rightarrow> ustr" where
  "str_replace pat rep s = replace_from 0 pat rep s"

section \<open>Machine integers\<close>

type_synonym u32 = "32 word"
type_synonym u64 = "64 word"

definition checked_add :: "'w::len word \<Rightarrow> 'w word \<Rightarrow> 'w word option" where
  "checked_add a b = (if unat a + unat b < 2 ^ LENGTH('w) then Some (a + b) else None)"

definition saturating_add :: "'w::len word \<Rightarrow> 'w word \<Rightarrow> 'w word" where
  "saturating_add a b = (if unat a + unat b < 2 ^ LENGTH('w) then a + b else - 1)"

definition saturating_sub :: "'w::len word \<Rightarrow> 'w word \<Rightarrow> 'w word" where
  "saturating_sub a b = (if b \<le> a then a - b else 0)"

definition saturating_mul :: "u64 \<Rightarrow> u64 \<Rightarrow> u64" where
  "saturating_mul a b = (if unat a * unat b < 2 ^ 64 then a * b else - 1)"

lemma checked_add_Some:
  "checked_add a b = Some c \<Longrightarrow> unat c = unat a + unat b"
  by (auto simp: checked_add_def unat_word_ariths split: if_splits)

lemma saturating_add_nonzero: "saturating_add a (1 :: 'w::len word) \<noteq> 0"
proof (cases "unat a + unat (1 :: 'w word) < 2 ^ LENGTH('w)")
  case True
  then have "unat (a + 1) = unat a + 1"
    by (simp add: unat_word_ariths)
  then have "a + 1 \<noteq> 0" by (metis add_is_0 one_neq_zero unat_0)
  with True show ?thesis by (simp add: saturating_add_def)
qed (simp add: saturating_add_def)

lemma unat_saturating_add_1:
  "unat (saturating_add a (1 :: 'w::len word)) = min (unat a + 1) (2 ^ LENGTH('w) - 1)"
proof (cases "unat a + 1 < 2 ^ LENGTH('w)")
  case True
  then show ?thesis by (simp add: saturating_add_def unat_word_ariths)
next
  case False
  moreover have "unat a < 2 ^ LENGTH('w)" by (rule unsigned_less)
  ultimately show ?thesis by (simp add: saturating_add_def unsigned_minus_1_eq_mask mask_eq_exp_minus_1)
qed

lemma unat_saturating_mul: "unat (saturating_mul a b) = min (unat a * unat b) (2 ^ 64 - 1)"
proof (cases "unat a * unat b < 2 ^ 64")
  case True
  then have "unat (a * b) = unat a * unat b" by (simp add: unat_word_ariths)
  with True show ?thesis by (simp add: saturating_mul_def)
next
  case False
  then show ?thesis by (simp add: saturating_mul_def unsigned_minus_1_eq_mask mask_eq_exp_minus_1)
qed

section \<open>Decimal text\<close>

fun show_nat :: "nat \<Rightarrow> ustr" where
  "show_nat n = (if n < 10 then [48 + n] else show_nat (n div 10) @ [48 + n mod 10])"

declare show_nat.simps [simp del]

definition show_u64 :: "u64 \<Rightarrow> ustr" where
  "show_u64 w = show_nat (unat w)"

definition digits_value :: "ustr \<Rightarrow> nat" where
  "digits_value s = foldl (\<lambda>n c. 10 * n + (c - 48)) 0 s"

text \<open>\<open>str::parse::<u64>\<close>: an optional plus sign, digits, and no overflow.\<close>

definition parse_u64 :: "ustr \<Rightarrow> u64 option" where
  "parse_u64 s =
     (let ds = (case s of c # t \<Rightarrow> (if c = 43 then t else s) | [] \<Rightarrow> []) in
      if ds \<noteq> [] \<and> list_all is_ascii_digit ds \<and> digits_value ds < 2 ^ 64
      then Some (of_nat (digits_value ds)) else None)"

lemma show_nat_digits: "\<forall>c \<in> set (show_nat n). is_ascii_digit c"
proof (induction n rule: show_nat.induct)
  case (1 n)
  have "n mod 10 < 10" by simp
  then have last: "is_ascii_digit (48 + n mod 10)"
    unfolding is_ascii_digit_def by linarith
  show ?case
    using 1 last by (subst show_nat.simps) (auto simp: is_ascii_digit_def)
qed

lemma show_nat_nonempty [simp]: "show_nat n \<noteq> []"
  by (subst show_nat.simps) simp

lemma digits_value_show_nat [simp]: "digits_value (show_nat n) = n"
proof (induction n rule: show_nat.induct)
  case (1 n)
  show ?case
  proof (cases "n < 10")
    case True
    then show ?thesis by (subst show_nat.simps) (simp add: digits_value_def)
  next
    case False
    then have "digits_value (show_nat (n div 10)) = n div 10" using 1 by simp
    with False show ?thesis by (subst show_nat.simps) (simp add: digits_value_def)
  qed
qed

text \<open>\<open>{:0width$}\<close>: padded with zeros on the left, never cut.\<close>

definition pad_nat :: "nat \<Rightarrow> nat \<Rightarrow> ustr" where
  "pad_nat width n = replicate (width - length (show_nat n)) 48 @ show_nat n"

lemma digits_value_zeros: "digits_value (replicate k 48 @ s) = digits_value s"
  by (induction k) (simp_all add: digits_value_def)

lemma pad_nat_simps [simp]: "pad_nat w n \<noteq> []" "digits_value (pad_nat w n) = n"
  by (simp_all add: pad_nat_def digits_value_zeros)

lemma pad_nat_digits: "\<forall>c \<in> set (pad_nat w n). is_ascii_digit c"
  using show_nat_digits [of n] by (auto simp: pad_nat_def is_ascii_digit_def)

lemma show_nat_inject [simp]: "show_nat m = show_nat n \<longleftrightarrow> m = n"
  by (metis digits_value_show_nat)

lemma parse_u64_digits:
  assumes "ds \<noteq> []" "\<forall>c \<in> set ds. is_ascii_digit c"
  shows "parse_u64 ds = (if digits_value ds < 2 ^ 64 then Some (of_nat (digits_value ds)) else None)"
proof -
  obtain c t where ds: "ds = c # t" using assms by (cases ds) auto
  then have "c \<noteq> 43" using assms by (auto simp: is_ascii_digit_def)
  then show ?thesis using assms ds by (simp add: parse_u64_def list_all_iff)
qed

lemma parse_show_u64 [simp]: "parse_u64 (show_u64 w) = Some w"
proof -
  have "unat w < 2 ^ 64" using unsigned_less [of w] by simp
  then show ?thesis
    by (simp add: show_u64_def parse_u64_digits show_nat_digits)
qed

lemma show_u64_inject [simp]: "show_u64 v = show_u64 w \<longleftrightarrow> v = w"
  by (simp add: show_u64_def word_unat_eq_iff)

end
