(* ===== verification/Ordered_Map.thy ===== *)
theory Ordered_Map
  imports Rust_Base
begin

text \<open>
  \<open>BTreeMap\<close> and \<open>BTreeSet\<close> of the Rust standard library. A map is the list of its
  entries in ascending key order, which is exactly what iteration over it yields; the laws the
  components rely on are the locales \<open>keyed_store\<close> (lookup after insert and remove) and
  \<open>ordered_store\<close> (iteration order determines the map), interpreted on this model at the
  end of the theory.
\<close>

section \<open>Entry lists\<close>

lemma entries_unique:
  "sorted_wrt (<) (map fst xs) \<Longrightarrow> sorted_wrt (<) (map fst ys) \<Longrightarrow> set xs = set ys \<Longrightarrow> xs = ys"
  for xs ys :: "('k::linorder \<times> 'v) list"
proof (induction xs arbitrary: ys)
  case (Cons x xs)
  then obtain y ys' where ys: "ys = y # ys'" by (cases ys) auto
  have "x = y"
  proof (rule ccontr)
    assume "x \<noteq> y"
    with Cons.prems(3) ys have "x \<in> set ys'" "y \<in> set xs" by auto
    with Cons.prems(1,2) ys have "fst y < fst x" "fst x < fst y" by auto
    then show False by simp
  qed
  moreover have "x \<notin> set xs" "y \<notin> set ys'"
    using Cons.prems(1,2) ys by auto
  ultimately have "set xs = set ys'" using Cons.prems(3) ys by auto
  with Cons ys \<open>x = y\<close> show ?case by simp
qed simp

section \<open>The interfaces\<close>

locale keyed_store =
  fixes empty_store :: "'m"
    and get :: "'m \<Rightarrow> 'k \<Rightarrow> 'v option"
    and put :: "'k \<Rightarrow> 'v \<Rightarrow> 'm \<Rightarrow> 'm"
    and del :: "'k \<Rightarrow> 'm \<Rightarrow> 'm"
    and ok :: "'m \<Rightarrow> bool"
  assumes ok_empty: "ok empty_store"
    and ok_put: "ok m \<Longrightarrow> ok (put k v m)"
    and ok_del: "ok m \<Longrightarrow> ok (del k m)"
    and get_empty: "get empty_store k = None"
    and get_put: "ok m \<Longrightarrow> get (put k v m) j = (if j = k then Some v else get m j)"
    and get_del: "ok m \<Longrightarrow> get (del k m) j = (if j = k then None else get m j)"
begin

lemma ok_put_all: "ok m \<Longrightarrow> ok (fold (\<lambda>(k, v). put k v) kvs m)"
  by (induction kvs arbitrary: m) (auto simp: ok_put)

lemma get_put_all:
  "ok m \<Longrightarrow> get (fold (\<lambda>(k, v). put k v) kvs m) j
     = (case map_of (rev kvs) j of None \<Rightarrow> get m j | Some v \<Rightarrow> Some v)"
proof (induction kvs arbitrary: m)
  case (Cons kv kvs)
  then show ?case
    by (cases kv) (auto simp: ok_put get_put map_add_def split: option.splits)
qed simp

lemma get_collect:
  "get (fold (\<lambda>(k, v). put k v) kvs empty_store) j = map_of (rev kvs) j"
  by (auto simp: get_put_all ok_empty get_empty split: option.splits)

end

locale ordered_store = keyed_store empty_store get put del ok
  for empty_store :: "'m" and get :: "'m \<Rightarrow> 'k::linorder \<Rightarrow> 'v option" and put del ok +
  fixes entries :: "'m \<Rightarrow> ('k \<times> 'v) list"
  assumes entries_sorted: "ok m \<Longrightarrow> sorted_wrt (<) (map fst (entries m))"
    and entries_get: "ok m \<Longrightarrow> map_of (entries m) k = get m k"
    and entries_inj: "ok m \<Longrightarrow> ok m' \<Longrightarrow> entries m = entries m' \<Longrightarrow> m = m'"
begin

lemma keys_distinct: "ok m \<Longrightarrow> distinct (map fst (entries m))"
  using entries_sorted strict_sorted_iff by blast

lemma get_iff_entry: "ok m \<Longrightarrow> get m k = Some v \<longleftrightarrow> (k, v) \<in> set (entries m)"
  by (metis entries_get keys_distinct map_of_eq_Some_iff)

text \<open>Two stores that answer every lookup alike are the same store.\<close>

lemma store_ext:
  assumes "ok m" "ok m'" "\<And>k. get m k = get m' k"
  shows "m = m'"
proof -
  have "set (entries m) = set (entries m')"
    using assms by (auto simp: get_iff_entry [symmetric])
  then have "entries m = entries m'"
    by (rule entries_unique [OF entries_sorted [OF assms(1)] entries_sorted [OF assms(2)]])
  then show ?thesis using assms entries_inj by blast
qed

end

section \<open>BTreeMap\<close>

type_synonym ('k, 'v) bmap = "('k \<times> 'v) list"

abbreviation bm_empty :: "('k, 'v) bmap" where
  "bm_empty \<equiv> []"

fun bm_get :: "('k, 'v) bmap \<Rightarrow> 'k \<Rightarrow> 'v option" where
  "bm_get [] k = None"
| "bm_get ((j, v) # m) k = (if j = k then Some v else bm_get m k)"

fun bm_insert :: "'k::linorder \<Rightarrow> 'v \<Rightarrow> ('k, 'v) bmap \<Rightarrow> ('k, 'v) bmap" where
  "bm_insert k v [] = [(k, v)]"
| "bm_insert k v ((j, w) # m) =
     (if k = j then (k, v) # m
      else if k < j then (k, v) # (j, w) # m
      else (j, w) # bm_insert k v m)"

definition bm_remove :: "'k \<Rightarrow> ('k, 'v) bmap \<Rightarrow> ('k, 'v) bmap" where
  "bm_remove k m = filter (\<lambda>e. fst e \<noteq> k) m"

definition bm_keys :: "('k, 'v) bmap \<Rightarrow> 'k list" where
  "bm_keys m = map fst m"

definition bm_values :: "('k, 'v) bmap \<Rightarrow> 'v list" where
  "bm_values m = map snd m"

definition bm_ok :: "('k::linorder, 'v) bmap \<Rightarrow> bool" where
  "bm_ok m \<longleftrightarrow> sorted_wrt (<) (map fst m)"

definition bm_map :: "('v \<Rightarrow> 'w) \<Rightarrow> ('k, 'v) bmap \<Rightarrow> ('k, 'w) bmap" where
  "bm_map f m = map (\<lambda>e. (fst e, f (snd e))) m"

definition bm_of_list :: "('k::linorder \<times> 'v) list \<Rightarrow> ('k, 'v) bmap" where
  "bm_of_list kvs = fold (\<lambda>(k, v). bm_insert k v) kvs bm_empty"

lemma bm_get_map_of: "bm_get m = map_of m"
proof
  show "bm_get m k = map_of m k" for k by (induction m) auto
qed

lemma bm_ok_Nil [simp, inv_intros]: "bm_ok []"
  by (simp add: bm_ok_def)

lemma bm_ok_Cons: "bm_ok ((k, v) # m) \<longleftrightarrow> (\<forall>j \<in> fst ` set m. k < j) \<and> bm_ok m"
  by (auto simp: bm_ok_def)

lemma keys_bm_insert: "fst ` set (bm_insert k v m) = insert k (fst ` set m)"
  by (induction k v m rule: bm_insert.induct) auto

lemma bm_ok_insert [inv_intros]: "bm_ok m \<Longrightarrow> bm_ok (bm_insert k v m)"
  by (induction k v m rule: bm_insert.induct)
     (auto simp: bm_ok_Cons keys_bm_insert intro: less_trans)

lemma bm_ok_filter: "bm_ok m \<Longrightarrow> bm_ok (filter P m)"
  by (simp add: bm_ok_def sorted_wrt_filter sorted_wrt_map)

lemma bm_ok_remove [inv_intros]: "bm_ok m \<Longrightarrow> bm_ok (bm_remove k m)"
  by (simp add: bm_remove_def bm_ok_filter)

lemma bm_ok_map [simp]: "bm_ok (bm_map f m) \<longleftrightarrow> bm_ok m"
  by (simp add: bm_ok_def bm_map_def comp_def)

lemma bm_get_notin: "k \<notin> fst ` set m \<Longrightarrow> bm_get m k = None"
  by (induction m) auto

lemma bm_get_insert: "bm_get (bm_insert k v m) j = (if j = k then Some v else bm_get m j)"
  by (induction k v m rule: bm_insert.induct) auto

lemma bm_get_remove: "bm_get (bm_remove k m) j = (if j = k then None else bm_get m j)"
  by (induction m) (auto simp: bm_remove_def)

lemma bm_get_bm_map: "bm_get (bm_map f m) k = map_option f (bm_get m k)"
  by (induction m) (auto simp: bm_map_def)

lemma mem_bm_insert: "e \<in> set (bm_insert k v m) \<Longrightarrow> e = (k, v) \<or> e \<in> set m"
  by (induction k v m rule: bm_insert.induct) (auto split: if_splits)

lemma set_bm_remove: "e \<in> set (bm_remove k m) \<longleftrightarrow> e \<in> set m \<and> fst e \<noteq> k"
  by (auto simp: bm_remove_def)

text \<open>Appending the greatest key.\<close>

lemma bm_insert_snoc: "bm_ok (m @ [(k, v)]) \<Longrightarrow> bm_insert k v m = m @ [(k, v)] \<and> bm_get m k = None"
  by (induction m) (auto simp: bm_ok_def)

text \<open>\<open>get_mut\<close> and an assignment through it: the entry changes where it stands.\<close>

definition bm_modify :: "'k \<Rightarrow> ('v \<Rightarrow> 'v) \<Rightarrow> ('k, 'v) bmap \<Rightarrow> ('k, 'v) bmap" where
  "bm_modify k f m = map (\<lambda>(j, v). (j, if j = k then f v else v)) m"

lemma bm_get_modify: "bm_get (bm_modify k f m) j = (if j = k then map_option f (bm_get m j) else bm_get m j)"
  by (induction m) (auto simp: bm_modify_def)

lemma keys_bm_modify [simp]: "map fst (bm_modify k f m) = map fst m"
  by (simp add: bm_modify_def comp_def case_prod_beta)

lemma bm_ok_modify [simp]: "bm_ok (bm_modify k f m) \<longleftrightarrow> bm_ok m"
  by (simp add: bm_ok_def)

section \<open>The interpretation\<close>

interpretation btm: ordered_store bm_empty bm_get bm_insert bm_remove bm_ok "\<lambda>m. m"
proof (unfold_locales, goal_cases)
  case (7 m)
  then show ?case by (simp add: bm_ok_def)
next
  case (8 m k)
  then show ?case by (simp add: bm_get_map_of)
qed (simp_all add: bm_get_insert bm_get_remove bm_ok_insert bm_ok_remove)

lemma bm_remove_absent: "bm_get m k = None \<Longrightarrow> bm_remove k m = m"
  by (induction m) (auto simp: bm_remove_def split: if_splits)

lemma bm_reinsert: "bm_ok m \<Longrightarrow> bm_get m k = Some v \<Longrightarrow> bm_insert k v (bm_remove k m) = m"
  by (rule btm.store_ext) (auto simp: bm_get_insert bm_get_remove bm_ok_insert bm_ok_remove)

lemma bm_get_mem: "bm_get m k = Some v \<Longrightarrow> (k, v) \<in> set m"
  by (metis bm_get_map_of map_of_SomeD)

lemma bm_ok_of_list [simp, inv_intros]: "bm_ok (bm_of_list kvs)"
  unfolding bm_of_list_def by (rule btm.ok_put_all) simp

lemma bm_get_of_list: "bm_get (bm_of_list kvs) k = map_of (rev kvs) k"
  unfolding bm_of_list_def by (rule btm.get_collect)

lemma keys_put_all: "fst ` set (fold (\<lambda>(k, v). bm_insert k v) kvs m) = fst ` set kvs \<union> fst ` set m"
  by (induction kvs arbitrary: m) (simp_all add: case_prod_beta keys_bm_insert)

lemma keys_of_list: "fst ` set (bm_of_list kvs) = fst ` set kvs"
  by (simp add: bm_of_list_def keys_put_all)

lemma length_bm_card: "bm_ok m \<Longrightarrow> length m = card (fst ` set m)"
  by (metis bm_ok_def distinct_card length_map list.set_map strict_sorted_iff)

lemma bm_insert_sum:
  "bm_ok m \<Longrightarrow> sum_list (map (\<lambda>e. f (snd e)) (bm_insert k v m))
       + (case bm_get m k of None \<Rightarrow> 0 | Some w \<Rightarrow> f w)
     = sum_list (map (\<lambda>e. f (snd e)) m) + (f v :: nat)"
proof (induction k v m rule: bm_insert.induct)
  case (2 k v j w m)
  have "k < j \<Longrightarrow> bm_get m k = None"
    using "2.prems" by (intro bm_get_notin) (auto simp: bm_ok_Cons dest: less_trans)
  with 2 show ?case by (auto simp: bm_ok_Cons split: option.splits)
qed simp

section \<open>BTreeSet\<close>

text \<open>A \<open>BTreeSet\<close> collected from a list: ascending and free of duplicates.\<close>

definition bs_of_list :: "'k::linorder list \<Rightarrow> 'k list" where
  "bs_of_list xs = sort (remdups xs)"

lemma set_bs_of_list [simp]: "set (bs_of_list xs) = set xs"
  by (simp add: bs_of_list_def)

lemma bs_of_list_sorted: "sorted_wrt (<) (bs_of_list xs)"
  by (simp add: bs_of_list_def strict_sorted_iff)

lemma bs_of_list_distinct [simp]: "distinct (bs_of_list xs)"
  by (simp add: bs_of_list_def)

lemma bs_of_list_eqI: "set xs = set ys \<Longrightarrow> bs_of_list xs = bs_of_list ys"
  by (simp add: bs_of_list_def sorted_list_of_set_sort_remdups [symmetric])

text \<open>\<open>insert\<close> of a \<open>BTreeSet\<close>.\<close>

definition bs_insert :: "'k::linorder \<Rightarrow> 'k list \<Rightarrow> 'k list" where
  "bs_insert x s = (if x \<in> set s then s else insort x s)"

lemma set_bs_insert [simp]: "set (bs_insert x s) = insert x (set s)"
  by (auto simp: bs_insert_def set_insort_key)

lemma bs_insert_sorted [simp]: "sorted_wrt (<) s \<Longrightarrow> sorted_wrt (<) (bs_insert x s)"
  by (auto simp: bs_insert_def strict_sorted_iff sorted_insort distinct_insort)

end
