(* ===== verification/Glob.thy ===== *)
theory Glob
  imports Ordered_Map
begin

text \<open>
  Glob patterns (\<open>glob_scope/glob.rs\<close>): the parser \<open>Glob::parse\<close> with its index arithmetic,
  and the backtracking matcher \<open>match_here\<close>, whose slices \<open>tokens[ti..]\<close> and
  \<open>subject[si..]\<close> are the list arguments here. The language of a token list is given
  separately as an inductive relation, and the matcher is proved equivalent to it.
\<close>

section \<open>Patterns\<close>

datatype pattern_error =
    UnterminatedClass ustr nat
  | EmptyClass ustr nat

datatype token =
    Literal uchar
  | AnyChar
  | AnyRun
  | Class bool "uchar list"

record glob =
  pattern :: ustr
  tokens :: "token list"
  literal_prefix :: ustr

abbreviation slash :: uchar where "slash \<equiv> 47"
abbreviation star :: uchar where "star \<equiv> 42"
abbreviation question :: uchar where "question \<equiv> 63"
abbreviation open_bracket :: uchar where "open_bracket \<equiv> 91"
abbreviation close_bracket :: uchar where "close_bracket \<equiv> 93"
abbreviation bang :: uchar where "bang \<equiv> 33"

definition DEFAULT_BOUNDARY :: uchar where
  "DEFAULT_BOUNDARY = 45"

section \<open>The parser\<close>

text \<open>The loop of \<open>parse_class\<close>: collect members from index \<open>i\<close> up to the closing bracket.\<close>

function class_members :: "uchar list \<Rightarrow> nat \<Rightarrow> uchar list \<times> nat" where
  "class_members chars i =
     (if i < length chars \<and> chars ! i \<noteq> close_bracket
      then (case class_members chars (i + 1) of (cls, j) \<Rightarrow> (chars ! i # cls, j))
      else ([], i))"
  by pat_completeness auto
termination
  by (relation "measure (\<lambda>(chars, i). length chars - i)") auto

declare class_members.simps [simp del]

definition parse_class :: "uchar list \<Rightarrow> nat \<Rightarrow> ustr \<Rightarrow> pattern_error + uchar list \<times> bool \<times> nat" where
  "parse_class chars opn pat =
     (let i = opn + 1;
          negated = (i < length chars \<and> chars ! i = bang);
          i = (if negated then i + 1 else i);
          (cls, i) = class_members chars i
      in if length chars \<le> i then Inl (UnterminatedClass pat opn)
         else if cls = [] then Inl (EmptyClass pat opn)
         else Inr (cls, negated, i + 1))"

lemma class_members_ge: "class_members chars i = (cls, j) \<Longrightarrow> i \<le> j"
proof (induction chars i arbitrary: cls j rule: class_members.induct)
  case (1 chars i)
  then show ?case
    by (subst (asm) (2) class_members.simps) (fastforce split: if_splits prod.splits)
qed

lemma parse_class_ge: "parse_class chars opn pat = Inr (cls, negated, e) \<Longrightarrow> opn < e"
  by (auto simp: parse_class_def Let_def split: prod.splits if_splits dest: class_members_ge)

text \<open>
  The loop of \<open>Glob::parse\<close> from index \<open>i\<close>; \<open>opn\<close> is \<open>prefix_open\<close>. The result is the
  tokens pushed and the characters added to \<open>literal_prefix\<close> from there on. After a class
  the code sets \<open>i = end\<close>, which \<open>parse_class\<close> returned past the bracket, and then runs
  the \<open>i += 1\<close> of every iteration.
\<close>

function parse_from :: "ustr \<Rightarrow> uchar list \<Rightarrow> nat \<Rightarrow> bool \<Rightarrow> pattern_error + token list \<times> ustr" where
  "parse_from pat chars i opn =
     (if i < length chars then
        (let c = chars ! i in
         if c = star then
           map_ok (\<lambda>(ts, p). (AnyRun # ts, p)) (parse_from pat chars (i + 1) False)
         else if c = question then
           map_ok (\<lambda>(ts, p). (AnyChar # ts, p)) (parse_from pat chars (i + 1) False)
         else if c = open_bracket then
           and_then (parse_class chars i pat) (\<lambda>(cls, negated, e).
             map_ok (\<lambda>(ts, p). (Class negated cls # ts, p)) (parse_from pat chars (e + 1) False))
         else
           map_ok (\<lambda>(ts, p). (Literal c # ts, if opn then c # p else p))
             (parse_from pat chars (i + 1) opn))
      else Inr ([], []))"
  by pat_completeness auto
termination
  by (relation "measure (\<lambda>(pat, chars, i, opn). length chars - i)") (auto dest: parse_class_ge)

declare parse_from.simps [simp del]

definition parse :: "ustr \<Rightarrow> pattern_error + glob" where
  "parse pat = map_ok (\<lambda>(ts, p). \<lparr>pattern = pat, tokens = ts, literal_prefix = p\<rparr>)
     (parse_from pat pat 0 True)"

fun is_literal :: "token \<Rightarrow> bool" where
  "is_literal (Literal c) = True"
| "is_literal _ = False"

definition is_exact :: "glob \<Rightarrow> bool" where
  "is_exact g = list_all is_literal (tokens g)"

section \<open>The matcher\<close>

fun token_matches :: "token \<Rightarrow> uchar \<Rightarrow> bool" where
  "token_matches (Literal l) c = (l = c)"
| "token_matches AnyChar c = (c \<noteq> slash)"
| "token_matches (Class negated chars) c =
     (if c = slash then False
      else let held = list_ex (\<lambda>x. x = c) chars in if negated then \<not> held else held)"
| "token_matches AnyRun c = False"

function match_here :: "token list \<Rightarrow> uchar list \<Rightarrow> bool"
  and match_run :: "token list \<Rightarrow> uchar list \<Rightarrow> bool" where
  "match_here [] s = (s = [])"
| "match_here (t # ts) s =
     (if t = AnyRun then match_run ts s
      else (case s of [] \<Rightarrow> False | c # s' \<Rightarrow> token_matches t c \<and> match_here ts s'))"
| "match_run ts s =
     (match_here ts s \<or> (case s of [] \<Rightarrow> False | c # s' \<Rightarrow> c \<noteq> slash \<and> match_run ts s'))"
  by pat_completeness auto
termination
  by (relation "measures [\<lambda>x. case x of Inl (ts, s) \<Rightarrow> length ts | Inr (ts, s) \<Rightarrow> length ts,
        \<lambda>x. case x of Inl (ts, s) \<Rightarrow> 0 | Inr (ts, s) \<Rightarrow> Suc (length s)]") auto

declare match_run.simps [simp del]

definition matches :: "glob \<Rightarrow> ustr \<Rightarrow> bool" where
  "matches g subject = match_here (tokens g) subject"

section \<open>The language of a pattern\<close>

inductive glob_lang :: "token list \<Rightarrow> ustr \<Rightarrow> bool" where
  lang_end: "glob_lang [] []"
| lang_char: "t \<noteq> AnyRun \<Longrightarrow> token_matches t c \<Longrightarrow> glob_lang ts s \<Longrightarrow> glob_lang (t # ts) (c # s)"
| lang_run: "slash \<notin> set r \<Longrightarrow> glob_lang ts s \<Longrightarrow> glob_lang (AnyRun # ts) (r @ s)"

inductive_cases lang_Nil: "glob_lang [] s"
inductive_cases lang_Cons: "glob_lang (t # ts) s"

lemma match_run_Cons: "match_run ts (c # s) \<longleftrightarrow> match_here ts (c # s) \<or> (c \<noteq> slash \<and> match_run ts s)"
  by (subst match_run.simps) simp

lemma match_run_Nil: "match_run ts [] \<longleftrightarrow> match_here ts []"
  by (subst match_run.simps) simp

lemma match_run_sound: "match_run ts s \<Longrightarrow> \<exists>r s'. s = r @ s' \<and> slash \<notin> set r \<and> match_here ts s'"
proof (induction s)
  case (Cons c s)
  then consider "match_here ts (c # s)" | "c \<noteq> slash" "match_run ts s"
    by (auto simp: match_run_Cons)
  then show ?case
  proof cases
    case 1
    then show ?thesis by (intro exI [of _ "[]"] exI [of _ "c # s"]) simp
  next
    case 2
    with Cons.IH obtain r s' where "s = r @ s'" "slash \<notin> set r" "match_here ts s'" by blast
    with 2 have "c # s = (c # r) @ s' \<and> slash \<notin> set (c # r) \<and> match_here ts s'" by simp
    then show ?thesis by blast
  qed
qed (simp add: match_run_Nil)

lemma match_run_complete: "slash \<notin> set r \<Longrightarrow> match_here ts s \<Longrightarrow> match_run ts (r @ s)"
proof (induction r)
  case Nil
  then show ?case by (subst match_run.simps) simp
qed (simp add: match_run_Cons)

lemma match_here_lang: "match_here ts s \<longleftrightarrow> glob_lang ts s"
proof (induction ts arbitrary: s)
  case Nil
  show ?case by (auto intro: lang_end elim: lang_Nil)
next
  case (Cons t ts)
  show ?case
  proof (cases "t = AnyRun")
    case True
    have "match_run ts s \<longleftrightarrow> glob_lang (AnyRun # ts) s"
      by (auto simp: Cons.IH dest!: match_run_sound intro: lang_run elim!: lang_Cons
          intro!: match_run_complete)
    with True show ?thesis by simp
  next
    case False
    then show ?thesis
      by (cases s) (auto simp: Cons.IH intro: lang_char elim!: lang_Cons)
  qed
qed

section \<open>What a match means\<close>

lemma glob_lang_slashes:
  "glob_lang ts s \<Longrightarrow> count_list s slash = count_list ts (Literal slash)"
proof (induction rule: glob_lang.induct)
  case (lang_char t c ts s)
  from lang_char.hyps(2) have "t = Literal slash \<longleftrightarrow> c = slash"
    by (cases t) (auto split: if_splits)
  with lang_char.IH show ?case by simp
qed (auto simp: count_list_0_iff)

lemma parse_from_step:
  assumes "parse_from pat chars i opn = Inr (ts, p)" "i < length chars"
  obtains (wild) t j ts' where "\<not> is_literal t" "i < j"
      "parse_from pat chars j False = Inr (ts', p)" "ts = t # ts'"
    | (letter) ts' p' where "parse_from pat chars (i + 1) opn = Inr (ts', p')"
      "ts = Literal (chars ! i) # ts'" "p = (if opn then chars ! i # p' else p')"
proof (cases "chars ! i \<in> {star, question, open_bracket}")
  case True
  then consider "chars ! i = star" | "chars ! i = question" | "chars ! i = open_bracket"
    by blast
  then show ?thesis
  proof cases
    case 1
    with assms obtain ts' where "parse_from pat chars (i + 1) False = Inr (ts', p)" "ts = AnyRun # ts'"
      unfolding parse_from.simps [of pat chars i opn] by (auto simp: Let_def result_simps)
    then show ?thesis by (intro wild [of AnyRun "i + 1"]) auto
  next
    case 2
    with assms obtain ts' where "parse_from pat chars (i + 1) False = Inr (ts', p)" "ts = AnyChar # ts'"
      unfolding parse_from.simps [of pat chars i opn] by (auto simp: Let_def result_simps)
    then show ?thesis by (intro wild [of AnyChar "i + 1"]) auto
  next
    case 3
    with assms obtain cls negated e ts' where "parse_class chars i pat = Inr (cls, negated, e)"
        "parse_from pat chars (e + 1) False = Inr (ts', p)" "ts = Class negated cls # ts'"
      unfolding parse_from.simps [of pat chars i opn] by (auto simp: Let_def result_simps)
    then show ?thesis
      by (intro wild [of "Class negated cls" "e + 1"]) (auto dest: parse_class_ge)
  qed
next
  case False
  with assms obtain ts' p' where "parse_from pat chars (i + 1) opn = Inr (ts', p')"
      "ts = Literal (chars ! i) # ts'" "p = (if opn then chars ! i # p' else p')"
    unfolding parse_from.simps [of pat chars i opn]
    by (auto simp: Let_def result_simps)
  then show ?thesis by (rule letter)
qed

lemma parse_from_end: "\<not> i < length chars \<Longrightarrow> parse_from pat chars i opn = Inr ([], [])"
  by (subst parse_from.simps) simp

lemma parse_from_closed: "parse_from pat chars i False = Inr (ts, p) \<Longrightarrow> p = []"
proof (induction "length chars - i" arbitrary: i ts rule: less_induct)
  case less
  show ?case
  proof (cases "i < length chars")
    case True
    from less.prems True show ?thesis
    proof (cases rule: parse_from_step)
      case (wild t j ts')
      with True show ?thesis by (intro less.hyps [of j ts']) auto
    next
      case (letter ts' p')
      with True show ?thesis by (intro less.hyps [of "i + 1" ts']) auto
    qed
  next
    case False
    with less.prems show ?thesis by (simp add: parse_from_end)
  qed
qed

lemma parse_from_prefix:
  "parse_from pat chars i opn = Inr (ts, p) \<Longrightarrow> glob_lang ts s \<Longrightarrow> take (length p) s = p"
proof (induction "length chars - i" arbitrary: i ts p s rule: less_induct)
  case less
  show ?case
  proof (cases "i < length chars")
    case True
    from less.prems(1) True show ?thesis
    proof (cases rule: parse_from_step)
      case (wild t j ts')
      then have "p = []" by (blast dest: parse_from_closed)
      then show ?thesis by simp
    next
      case (letter ts' p')
      with less.prems(2) obtain s' where s: "s = chars ! i # s'" "glob_lang ts' s'"
        by (auto elim: lang_Cons)
      have "take (length p') s' = p'" using letter(1) s(2) True by (intro less.hyps) auto
      moreover have "\<not> opn \<Longrightarrow> p' = []" using letter(1) by (auto dest: parse_from_closed)
      ultimately show ?thesis using letter(3) s(1) by simp
    qed
  next
    case False
    with less.prems show ?thesis by (simp add: parse_from_end)
  qed
qed

lemma parse_from_exact:
  "parse_from pat chars i opn = Inr (ts, p) \<Longrightarrow> list_all is_literal ts
     \<Longrightarrow> ts = map Literal (drop i chars)"
proof (induction "length chars - i" arbitrary: i ts p rule: less_induct)
  case less
  show ?case
  proof (cases "i < length chars")
    case True
    from less.prems(1) True show ?thesis
    proof (cases rule: parse_from_step)
      case (wild t j ts')
      with less.prems(2) show ?thesis by simp
    next
      case (letter ts' p')
      with less.prems(2) True have "ts' = map Literal (drop (i + 1) chars)"
        by (intro less.hyps) auto
      with letter(2) True show ?thesis by (simp add: Cons_nth_drop_Suc [symmetric])
    qed
  next
    case False
    with less.prems show ?thesis by (simp add: parse_from_end)
  qed
qed

lemma glob_lang_literals: "glob_lang (map Literal w) s \<longleftrightarrow> s = w"
proof (induction w arbitrary: s)
  case Nil
  show ?case by (auto intro: lang_end elim: lang_Nil)
next
  case (Cons c w)
  have "glob_lang (Literal c # map Literal w) s \<longleftrightarrow> (\<exists>t. s = c # t \<and> glob_lang (map Literal w) t)"
    by (rule iffI, erule lang_Cons) (auto intro: lang_char)
  with Cons.IH show ?case by auto
qed

lemma parse_Inr:
  "parse pat = Inr g \<longleftrightarrow> (\<exists>ts p. parse_from pat pat 0 True = Inr (ts, p)
     \<and> g = \<lparr>pattern = pat, tokens = ts, literal_prefix = p\<rparr>)"
  by (auto simp: parse_def result_simps)

section \<open>The character after a class\<close>

lemma class_members_body:
  "close_bracket \<notin> set body \<Longrightarrow>
     class_members (xs @ body @ close_bracket # rest) (length xs) = (body, length xs + length body)"
proof (induction body arbitrary: xs)
  case Nil
  show ?case by (subst class_members.simps) simp
next
  case (Cons c body)
  from Cons.IH [of "xs @ [c]"] Cons.prems
  have "class_members (xs @ (c # body) @ close_bracket # rest) (length xs + 1)
      = (body, length xs + 1 + length body)" by simp
  with Cons.prems show ?case by (subst class_members.simps) (simp add: nth_append)
qed

lemma parse_class_body:
  assumes "close_bracket \<notin> set body" "body \<noteq> []" "hd body \<noteq> bang"
  shows "parse_class (xs @ open_bracket # body @ close_bracket # rest) (length xs) pat
    = Inr (body, False, length xs + length body + 2)"
proof -
  have "(xs @ open_bracket # body @ close_bracket # rest) ! (length xs + 1) = hd body"
    using assms(2) by (cases body) (auto simp: nth_append)
  with class_members_body [OF assms(1), of "xs @ [open_bracket]" rest] assms
  show ?thesis by (simp add: parse_class_def)
qed

lemma parse_from_plain:
  "set s \<inter> {star, question, open_bracket} = {} \<Longrightarrow>
     parse_from pat (xs @ s) (length xs) opn = Inr (map Literal s, if opn then s else [])"
proof (induction s arbitrary: xs)
  case (Cons c s)
  from Cons.IH [of "xs @ [c]"] Cons.prems
  have "parse_from pat (xs @ c # s) (length xs + 1) opn = Inr (map Literal s, if opn then s else [])"
    by simp
  with Cons.prems show ?case
    unfolding parse_from.simps [of pat "xs @ c # s" "length xs" opn] by simp
qed (simp add: parse_from_end)

lemma parse_from_class:
  assumes "close_bracket \<notin> set body" "body \<noteq> []" "hd body \<noteq> bang"
  shows "parse_from pat (open_bracket # body @ close_bracket # c # rest) 0 opn
    = map_ok (\<lambda>(ts, p). (Class False body # ts, p))
        (parse_from pat (open_bracket # body @ close_bracket # c # rest) (Suc (Suc (Suc (length body)))) False)"
  unfolding parse_from.simps [of pat "open_bracket # body @ close_bracket # c # rest" 0 opn]
  using parse_class_body [OF assms, of "[]" "c # rest" pat] by simp

section \<open>Properties\<close>

text \<open>\<open>Glob::matches\<close> decides exactly the language of the pattern's tokens: a literal and a
  class consume one character, a star any run of characters that does not cross a slash.\<close>

theorem matches_iff_glob_lang: "matches g s \<longleftrightarrow> glob_lang (tokens g) s"
  by (simp add: matches_def match_here_lang)

text \<open>A match never lets a wildcard cross a path component: a matched subject has exactly as
  many slashes as the pattern has literal slashes.\<close>

theorem matches_keeps_components:
  "matches g s \<Longrightarrow> count_list s slash = count_list (tokens g) (Literal slash)"
  by (simp add: matches_def match_here_lang glob_lang_slashes)

theorem matches_keeps_components_witness:
  "matches \<lparr>pattern = lit ''a/*'', tokens = [Literal 97, Literal slash, AnyRun],
      literal_prefix = lit ''a/''\<rparr> [97, slash, 98]
   \<and> count_list [97, slash, 98] slash = count_list [Literal 97, Literal slash, AnyRun] (Literal slash)"
proof -
  let ?g = "\<lparr>pattern = lit ''a/*'', tokens = [Literal 97, Literal slash, AnyRun],
      literal_prefix = lit ''a/''\<rparr>"
  have m: "matches ?g [97, slash, 98]"
    by (simp add: matches_def match_run_Cons match_run_Nil)
  from matches_keeps_components [OF m] m show ?thesis by simp
qed

text \<open>The literal prefix the parser records is a prefix of everything the pattern matches.\<close>

theorem literal_prefix_sound:
  assumes "parse pat = Inr g" "matches g s"
  shows "take (length (literal_prefix g)) s = literal_prefix g"
  using assms by (auto simp: parse_Inr matches_def match_here_lang dest: parse_from_prefix)

text \<open>A pattern the code calls exact matches its own text and nothing else.\<close>

theorem exact_pattern_matches_itself:
  assumes "parse pat = Inr g" "is_exact g"
  shows "matches g s \<longleftrightarrow> s = pat"
proof -
  from assms have "tokens g = map Literal pat"
    by (auto simp: parse_Inr is_exact_def dest: parse_from_exact)
  then show ?thesis by (simp add: matches_def match_here_lang glob_lang_literals)
qed

text \<open>The parser skips the character that follows a bracket class: in \<open>[abc]xrest\<close> the
  character \<open>x\<close> is dropped, whatever it is, so the pattern matches one member of the class
  followed by \<open>rest\<close> and never the text as written. (\<open>parse_class\<close> returns the index past
  the bracket, and the loop of \<open>Glob::parse\<close> adds one to it.)\<close>

theorem class_swallows_next_char:
  assumes "close_bracket \<notin> set body" "body \<noteq> []" "hd body \<noteq> bang"
    and "set rest \<inter> {star, question, open_bracket} = {}"
  shows "\<exists>g. parse (open_bracket # body @ close_bracket # x # rest) = Inr g
    \<and> (\<forall>s. matches g s \<longleftrightarrow> (\<exists>m \<in> set body. m \<noteq> slash \<and> s = m # rest))"
proof -
  let ?p = "open_bracket # body @ close_bracket # x # rest"
  have "parse_from ?p ?p (Suc (Suc (Suc (length body)))) False = Inr (map Literal rest, [])"
    using parse_from_plain [OF assms(4), of ?p "open_bracket # body @ [close_bracket, x]" False]
    by simp
  then have "parse ?p = Inr \<lparr>pattern = ?p, tokens = Class False body # map Literal rest,
      literal_prefix = []\<rparr>"
    using parse_from_class [OF assms(1-3)] by (simp add: parse_def)
  moreover have "glob_lang (Class False body # map Literal rest) s
      \<longleftrightarrow> (\<exists>m \<in> set body. m \<noteq> slash \<and> s = m # rest)" for s
    by (rule iffI, erule lang_Cons)
       (auto simp: glob_lang_literals list_ex_iff split: if_splits intro!: lang_char)
  ultimately show ?thesis by (auto simp: matches_def match_here_lang)
qed

theorem class_swallows_next_char_witness:
  "\<exists>g. parse [open_bracket, 97, 98, close_bracket, 99] = Inr g
    \<and> (\<forall>s. matches g s \<longleftrightarrow> (\<exists>m \<in> set [97, 98]. m \<noteq> slash \<and> s = [m]))"
  using class_swallows_next_char [of "[97, 98]" "[]" 99] by simp

theorem literal_prefix_sound_witness:
  "take 2 [97, slash, 98] = [97, slash :: uchar]"
proof -
  let ?g = "\<lparr>pattern = [97, slash, star], tokens = [Literal 97, Literal slash, AnyRun],
      literal_prefix = [97, slash]\<rparr>"
  have p: "parse [97, slash, star] = Inr ?g"
    by (simp add: parse_def parse_from.simps)
  have m: "matches ?g [97, slash, 98]"
    by (simp add: matches_def match_run_Cons match_run_Nil)
  from literal_prefix_sound [OF p m] show ?thesis by simp
qed

theorem exact_pattern_matches_itself_witness:
  "matches \<lparr>pattern = [97], tokens = [Literal 97], literal_prefix = [97]\<rparr> [97]"
proof -
  let ?g = "\<lparr>pattern = [97], tokens = [Literal 97], literal_prefix = [97]\<rparr>"
  have p: "parse [97] = Inr ?g"
    by (simp add: parse_def parse_from.simps)
  have e: "is_exact ?g" by (simp add: is_exact_def)
  from exact_pattern_matches_itself [OF p e] show ?thesis by simp
qed

end
