(* ===== verification/Glob_Scope.thy ===== *)
theory Glob_Scope
  imports Glob "HOL-Library.Multiset"
begin

text \<open>
  Families of names, pattern audits, pattern aggregates and scoped identifiers
  (\<open>glob_scope/family.rs\<close>, \<open>aggregate.rs\<close>, \<open>scoped_id.rs\<close>). The report lines (\<open>count_line\<close>,
  \<open>report_line\<close>, \<open>Display\<close>) only print these values and are left out.
\<close>

section \<open>Families\<close>

record ident =
  id_name :: ustr
  family :: ustr
  instance_token :: "ustr option"

definition last_component :: "ustr \<Rightarrow> ustr" where
  "last_component name = rev (takeWhile (\<lambda>c. c \<noteq> slash) (rev name))"

definition rfind :: "uchar \<Rightarrow> ustr \<Rightarrow> nat option" where
  "rfind b s = (if b \<in> set s then Some (length s - 1 - length (takeWhile (\<lambda>c. c \<noteq> b) (rev s))) else None)"

definition bare_identifier :: "ustr \<Rightarrow> ident" where
  "bare_identifier stem = \<lparr>id_name = stem, family = stem, instance_token = None\<rparr>"

definition classify :: "ustr \<Rightarrow> uchar \<Rightarrow> ident" where
  "classify name boundary =
     (let stem = last_component name in
      case rfind boundary stem of
        None \<Rightarrow> bare_identifier stem
      | Some idx \<Rightarrow>
          if idx + 1 < length stem then
            (let tail = drop (idx + 1) stem in
             if tail \<noteq> [] \<and> list_all is_ascii_digit tail
             then \<lparr>id_name = stem, family = take idx stem, instance_token = Some tail\<rparr>
             else bare_identifier stem)
          else bare_identifier stem)"

definition starts_with :: "ustr \<Rightarrow> ustr \<Rightarrow> bool" where
  "starts_with p s \<longleftrightarrow> take (length p) s = p"

record prefix_collision =
  short :: ustr
  long :: ustr
  at_boundary :: bool

definition prefix_collisions :: "ustr list \<Rightarrow> uchar \<Rightarrow> prefix_collision list" where
  "prefix_collisions names boundary =
     (let families = bs_of_list (map (\<lambda>n. family (classify n boundary)) names) in
      concat (map (\<lambda>sh. map (\<lambda>lg. \<lparr>short = sh, long = lg,
          at_boundary = (case drop (length sh) lg of [] \<Rightarrow> False | c # _ \<Rightarrow> c = boundary)\<rparr>)
        (filter (\<lambda>lg. \<not> (lg = sh \<or> \<not> starts_with sh lg)) families)) families))"

section \<open>Pattern audits\<close>

record family_group =
  group_family :: ustr
  members :: "ustr list"

record pattern_audit =
  audit_text :: ustr
  matched :: "ustr list"
  groups :: "family_group list"
  intended :: "ustr option"

datatype audit_verdict =
    NoMatch
  | Scoped ustr
  | Overbroad "ustr option" "family_group list"

fun add_to_groups :: "uchar \<Rightarrow> ustr \<Rightarrow> family_group list \<Rightarrow> family_group list" where
  "add_to_groups b name [] = [\<lparr>group_family = family (classify name b), members = [name]\<rparr>]"
| "add_to_groups b name (g # gs) =
     (if group_family g = family (classify name b)
      then g\<lparr>members := members g @ [name]\<rparr> # gs
      else g # add_to_groups b name gs)"

definition trim_end_matches :: "uchar \<Rightarrow> ustr \<Rightarrow> ustr" where
  "trim_end_matches b s = rev (dropWhile (\<lambda>c. c = b) (rev s))"

definition audit_pattern :: "glob \<Rightarrow> ustr list \<Rightarrow> uchar \<Rightarrow> pattern_audit" where
  "audit_pattern pat names boundary =
     (let hits = filter (matches pat) names;
          gs = sort_key group_family (fold (add_to_groups boundary) hits []);
          trimmed = trim_end_matches boundary (literal_prefix pat)
      in \<lparr>audit_text = pattern pat, matched = hits, groups = gs,
          intended = (if is_exact pat
            then (case gs of [] \<Rightarrow> None | g # _ \<Rightarrow> Some (group_family g))
            else map_option group_family (find (\<lambda>g. group_family g = trimmed) gs))\<rparr>)"

definition audit :: "glob \<Rightarrow> ustr list \<Rightarrow> pattern_audit" where
  "audit pat names = audit_pattern pat names DEFAULT_BOUNDARY"

definition is_over_broad :: "pattern_audit \<Rightarrow> bool" where
  "is_over_broad a \<longleftrightarrow> 1 < length (groups a)"

definition verdict :: "pattern_audit \<Rightarrow> audit_verdict" where
  "verdict a = (case groups a of
       [] \<Rightarrow> NoMatch
     | [g] \<Rightarrow> Scoped (group_family g)
     | _ \<Rightarrow> Overbroad (intended a) (filter (\<lambda>g. Some (group_family g) \<noteq> intended a) (groups a)))"

definition foreign_members :: "pattern_audit \<Rightarrow> ustr list" where
  "foreign_members a = (if \<not> is_over_broad a then []
     else concat (map members (filter (\<lambda>g. Some (group_family g) \<noteq> intended a) (groups a))))"

text \<open>The characters at position \<open>at\<close> of the members; \<open>None\<close> when a member is too short
  (the \<open>?\<close> on \<open>chars().nth(at)\<close>).\<close>

fun chars_at :: "nat \<Rightarrow> ustr list \<Rightarrow> uchar list option" where
  "chars_at at [] = Some []"
| "chars_at at (m # ms) =
     (if at < length m then map_option ((#) (m ! at)) (chars_at at ms) else None)"

definition suggestion :: "pattern_audit \<Rightarrow> ustr option" where
  "suggestion a = (if \<not> is_over_broad a then None else
     (let prefix = takeWhile (\<lambda>c. c \<noteq> star \<and> c \<noteq> question \<and> c \<noteq> open_bracket) (audit_text a);
          at = length prefix;
          mine = (\<lambda>g. Some (group_family g) = intended a)
      in case (chars_at at (concat (map members (filter mine (groups a)))),
               chars_at at (concat (map members (filter (\<lambda>g. \<not> mine g) (groups a))))) of
           (Some ics, Some fcs) \<Rightarrow>
             (let ichars = bs_of_list ics in
              if ichars = [] \<or> list_ex (\<lambda>c. c \<in> set fcs) ichars then None
              else if list_all is_ascii_digit ichars then Some (prefix @ lit ''[0-9]'' @ [star])
              else if length ichars \<le> 4
                then Some (prefix @ [open_bracket] @ ichars @ [close_bracket] @ [star])
              else None)
         | _ \<Rightarrow> None))"

section \<open>Aggregates\<close>

record pattern_count =
  count_pattern :: ustr
  count_matched :: "ustr list"
  count_weight :: u64

record double_count =
  dc_member :: ustr
  dc_patterns :: "ustr list"
  dc_weight :: u64

record aggregate_result =
  per_pattern :: "pattern_count list"
  distinct_weight :: u64
  summed_weight :: u64
  double_counted :: "double_count list"

text \<open>One inventory entry under one pattern: the two maps the inner loop updates.\<close>

type_synonym hits = "(ustr, ustr list) bmap \<times> (ustr, u64) bmap"

definition record_hit :: "glob \<Rightarrow> ustr \<times> u64 \<Rightarrow> hits \<Rightarrow> hits" where
  "record_hit pat e h =
     (if matches pat (fst e)
      then (bm_insert (fst e)
              ((case bm_get (fst h) (fst e) of None \<Rightarrow> [] | Some ps \<Rightarrow> ps) @ [pattern pat]) (fst h),
            bm_insert (fst e) (snd e) (snd h))
      else h)"

definition aggregate :: "(ustr \<times> u64) list \<Rightarrow> glob list \<Rightarrow> aggregate_result" where
  "aggregate inventory patterns =
     (let pcs = map (\<lambda>pat. let taken = filter (\<lambda>e. matches pat (fst e)) inventory in
            \<lparr>count_pattern = pattern pat, count_matched = map fst taken,
             count_weight = sum_list (map snd taken)\<rparr>) patterns;
          h = fold (\<lambda>pat. fold (record_hit pat) inventory) patterns (bm_empty, bm_empty)
      in \<lparr>per_pattern = pcs,
          distinct_weight = sum_list (bm_values (snd h)),
          summed_weight = sum_list (map count_weight pcs),
          double_counted = map (\<lambda>e. \<lparr>dc_member = fst e, dc_patterns = snd e,
              dc_weight = (case bm_get (snd h) (fst e) of None \<Rightarrow> 0 | Some w \<Rightarrow> w)\<rparr>)
            (filter (\<lambda>e. 1 < length (snd e)) (fst h))\<rparr>)"

definition distinct_count :: "aggregate_result \<Rightarrow> nat" where
  "distinct_count a = length (bm_of_list (map (\<lambda>n. (n, ())) (concat (map count_matched (per_pattern a)))))"

definition summed_count :: "aggregate_result \<Rightarrow> nat" where
  "summed_count a = sum_list (map (\<lambda>p. length (count_matched p)) (per_pattern a))"

definition is_double_counted :: "aggregate_result \<Rightarrow> bool" where
  "is_double_counted a \<longleftrightarrow> double_counted a \<noteq> []"

section \<open>Scoped identifiers\<close>

datatype scoped_id = ScopedId (scope: ustr) (id_number: u64)

datatype scope_error =
    MissingScope ustr
  | BadScope ustr
  | BadNumber ustr

datatype resolution =
    Unique scoped_id
  | Ambiguous u64 "ustr list" "scoped_id list"
  | Unknown u64

instantiation scoped_id :: linorder
begin

definition less_eq_scoped_id :: "scoped_id \<Rightarrow> scoped_id \<Rightarrow> bool" where
  "less_eq_scoped_id a b \<longleftrightarrow> scope a < scope b \<or> (scope a = scope b \<and> id_number a \<le> id_number b)"

definition less_scoped_id :: "scoped_id \<Rightarrow> scoped_id \<Rightarrow> bool" where
  "less_scoped_id a b \<longleftrightarrow> scope a < scope b \<or> (scope a = scope b \<and> id_number a < id_number b)"

instance
  by standard
     (auto simp: less_eq_scoped_id_def less_scoped_id_def intro: scoped_id.expand)

end

abbreviation SCOPE_SEPARATOR :: uchar where "SCOPE_SEPARATOR \<equiv> 35"

definition scope_char :: "uchar \<Rightarrow> bool" where
  "scope_char c \<longleftrightarrow> is_ascii_lowercase c \<or> is_ascii_uppercase c \<or> is_ascii_digit c \<or> c \<in> {46, 95, 45, 47}"

definition key :: "scoped_id \<Rightarrow> ustr" where
  "key i = scope i @ [SCOPE_SEPARATOR] @ show_u64 (id_number i)"

definition new_scoped_id :: "ustr \<Rightarrow> u64 \<Rightarrow> scope_error + scoped_id" where
  "new_scoped_id sc n =
     (if sc = [] \<or> SCOPE_SEPARATOR \<in> set sc \<or> \<not> list_all scope_char sc
      then Inl (BadScope (sc @ [SCOPE_SEPARATOR] @ show_u64 n))
      else Inr (ScopedId sc n))"

definition split_once :: "uchar \<Rightarrow> ustr \<Rightarrow> (ustr \<times> ustr) option" where
  "split_once c s = (if c \<in> set s
     then Some (takeWhile (\<lambda>x. x \<noteq> c) s, drop 1 (dropWhile (\<lambda>x. x \<noteq> c) s)) else None)"

definition parse_scoped_id :: "ustr \<Rightarrow> scope_error + scoped_id" where
  "parse_scoped_id value =
     (case split_once SCOPE_SEPARATOR value of
        None \<Rightarrow> if list_all is_ascii_digit value \<and> value \<noteq> []
                then Inl (MissingScope value) else Inl (BadScope value)
      | Some (sc, num) \<Rightarrow>
          if num = [] \<or> \<not> list_all is_ascii_digit num then Inl (BadNumber value)
          else new_scoped_id sc (case parse_u64 num of None \<Rightarrow> 0 | Some n \<Rightarrow> n))"

text \<open>\<open>ids.sort(); ids.dedup()\<close>\<close>

definition resolve_bare :: "u64 \<Rightarrow> scoped_id list \<Rightarrow> resolution" where
  "resolve_bare n known =
     (let ids = remdups_adj (sort (filter (\<lambda>i. id_number i = n) known)) in
      case ids of
        [] \<Rightarrow> Unknown n
      | [i] \<Rightarrow> Unique i
      | _ \<Rightarrow> Ambiguous n (map scope ids) ids)"

definition resolution_id :: "resolution \<Rightarrow> scoped_id option" where
  "resolution_id r = (case r of Unique i \<Rightarrow> Some i | _ \<Rightarrow> None)"

type_synonym scope_ledger = "(scoped_id \<times> ustr) list"

definition ledger_add :: "scoped_id \<Rightarrow> ustr \<Rightarrow> scope_ledger \<Rightarrow> scope_ledger" where
  "ledger_add i artifact l = l @ [(i, artifact)]"

definition artifacts_for :: "scope_ledger \<Rightarrow> u64 \<Rightarrow> (scoped_id \<times> ustr) list" where
  "artifacts_for l n = filter (\<lambda>e. id_number (fst e) = n) l"

definition note_scope :: "scoped_id \<times> ustr \<Rightarrow> (u64, ustr list) bmap \<Rightarrow> (u64, ustr list) bmap" where
  "note_scope e m =
     (let i = fst e; scopes = (case bm_get m (id_number i) of None \<Rightarrow> [] | Some ss \<Rightarrow> ss)
      in bm_insert (id_number i) (if scope i \<in> set scopes then scopes else scopes @ [scope i]) m)"

definition ambiguous_numbers :: "scope_ledger \<Rightarrow> (u64 \<times> ustr list) list" where
  "ambiguous_numbers l =
     map (\<lambda>e. (fst e, sort (snd e))) (filter (\<lambda>e. 1 < length (snd e)) (fold note_scope l bm_empty))"

definition scope_counts :: "scope_ledger \<Rightarrow> (ustr, nat) bmap" where
  "scope_counts l = fold (\<lambda>e m. bm_insert (scope (fst e))
     ((case bm_get m (scope (fst e)) of None \<Rightarrow> 0 | Some n \<Rightarrow> n) + 1) m) l bm_empty"

section \<open>Audits\<close>

lemma group_families_add:
  "set (map group_family (add_to_groups b n gs)) = insert (family (classify n b)) (set (map group_family gs))"
  by (induction b n gs rule: add_to_groups.induct) auto

lemma group_families_distinct:
  "distinct (map group_family gs) \<Longrightarrow> distinct (map group_family (add_to_groups b n gs))"
proof (induction b n gs rule: add_to_groups.induct)
  case (2 b n g gs)
  then show ?case using group_families_add [of b n gs] by auto
qed simp

definition group_pure :: "uchar \<Rightarrow> family_group \<Rightarrow> bool" where
  "group_pure b g \<longleftrightarrow> members g \<noteq> [] \<and> list_all (\<lambda>m. family (classify m b) = group_family g) (members g)"

lemma groups_pure_add:
  "list_all (group_pure b) gs \<Longrightarrow> list_all (group_pure b) (add_to_groups b n gs)"
  by (induction b n gs rule: add_to_groups.induct) (auto simp: group_pure_def)

lemma groups_members_add:
  "mset (concat (map members (add_to_groups b n gs))) = add_mset n (mset (concat (map members gs)))"
  by (induction b n gs rule: add_to_groups.induct) auto

lemma groups_fold:
  "distinct (map group_family gs) \<Longrightarrow> list_all (group_pure b) gs \<Longrightarrow>
     distinct (map group_family (fold (add_to_groups b) ns gs))
     \<and> list_all (group_pure b) (fold (add_to_groups b) ns gs)
     \<and> mset (concat (map members (fold (add_to_groups b) ns gs)))
       = mset ns + mset (concat (map members gs))"
  by (induction ns arbitrary: gs)
     (auto simp: group_families_distinct groups_pure_add groups_members_add)

lemma mset_concat_sort_key:
  "mset (concat (map f (sort_key k xs))) = mset (concat (map f xs))"
proof -
  have "mset (concat (map f ys)) = sum_mset (image_mset (\<lambda>x. mset (f x)) (mset ys))" for ys
    by (induction ys) auto
  then show ?thesis by simp
qed

lemma audit_groups:
  fixes pat names b
  defines "a \<equiv> audit_pattern pat names b"
  shows "mset (concat (map members (groups a))) = mset (matched a)"
    and "sorted_wrt (<) (map group_family (groups a))"
    and "list_all (group_pure b) (groups a)"
proof -
  let ?gs = "fold (add_to_groups b) (filter (matches pat) names) []"
  have f: "distinct (map group_family ?gs)" "list_all (group_pure b) ?gs"
      "mset (concat (map members ?gs)) = mset (filter (matches pat) names)"
    using groups_fold [of "[]" b "filter (matches pat) names"] by simp_all
  have g: "groups a = sort_key group_family ?gs" "matched a = filter (matches pat) names"
    by (simp_all add: a_def audit_pattern_def Let_def)
  show "mset (concat (map members (groups a))) = mset (matched a)"
    using f(3) by (simp add: g mset_concat_sort_key)
  show "sorted_wrt (<) (map group_family (groups a))"
    using f(1) by (simp add: g strict_sorted_iff distinct_map)
  show "list_all (group_pure b) (groups a)"
    using f(2) by (simp add: g list_all_iff)
qed

lemma in_group_iff_matched:
  "(\<exists>g \<in> set (groups (audit_pattern pat names b)). m \<in> set (members g))
     \<longleftrightarrow> m \<in> set (matched (audit_pattern pat names b))"
  using audit_groups(1) [of pat names b, THEN arg_cong [where f = set_mset]] by auto

lemma matched_audit [simp]: "matched (audit_pattern pat names b) = filter (matches pat) names"
  by (simp add: audit_pattern_def Let_def)

text \<open>The audit's verdict is exact. It is \<open>Scoped f\<close> precisely when something matched and
  every matched name belongs to the family \<open>f\<close>, and \<open>NoMatch\<close> precisely when nothing matched;
  so an over-broad verdict means that the pattern spans at least two families.\<close>

theorem audit_verdict_exact:
  "(verdict (audit_pattern pat names b) = Scoped f
      \<longleftrightarrow> filter (matches pat) names \<noteq> []
        \<and> list_all (\<lambda>n. family (classify n b) = f) (filter (matches pat) names))
   \<and> (verdict (audit_pattern pat names b) = NoMatch \<longleftrightarrow> filter (matches pat) names = [])"
proof -
  let ?a = "audit_pattern pat names b"
  note pure = audit_groups(3) [of b pat names] and srt = audit_groups(2) [of pat names b]
  note mem = in_group_iff_matched [of pat names b]
  consider "groups ?a = []" | g where "groups ?a = [g]" | g h gs where "groups ?a = g # h # gs"
    by (cases "groups ?a" rule: remdups_adj.cases) auto
  then show ?thesis
  proof cases
    case 1
    then show ?thesis using mem by (auto simp: verdict_def filter_empty_conv)
  next
    case (2 g)
    have ne: "members g \<noteq> []" and fam: "\<forall>m \<in> set (members g). family (classify m b) = group_family g"
      using pure 2 by (auto simp: group_pure_def list_all_iff)
    have eq: "set (filter (matches pat) names) = set (members g)"
      using mem 2 by auto
    then have "filter (matches pat) names \<noteq> []" using ne by (metis set_empty2)
    moreover have "list_all (\<lambda>n. family (classify n b) = f) (filter (matches pat) names)
        \<longleftrightarrow> group_family g = f"
      unfolding list_all_iff eq using fam ne by (cases "members g") auto
    ultimately show ?thesis using 2 by (simp add: verdict_def)
  next
    case (3 g h gs)
    then have "group_family g \<noteq> group_family h" using srt by auto
    moreover have "group_pure b g" "group_pure b h" using pure 3 by simp_all
    then obtain m n where "m \<in> set (members g)" "n \<in> set (members h)"
        "family (classify m b) = group_family g" "family (classify n b) = group_family h"
      unfolding group_pure_def list_all_iff by (meson hd_in_set)
    moreover from this have "m \<in> set (filter (matches pat) names)" "n \<in> set (filter (matches pat) names)"
      using mem 3 by auto
    ultimately have "\<not> list_all (\<lambda>n. family (classify n b) = f) (filter (matches pat) names)"
        "filter (matches pat) names \<noteq> []"
      unfolding list_all_iff by (metis, metis empty_iff empty_set)
    with 3 show ?thesis by (simp add: verdict_def)
  qed
qed


section \<open>Suggestions\<close>

lemma parse_eval_suggestion:
  "parse (lit ''a-[0-9]*'') = Inr \<lparr>pattern = lit ''a-[0-9]*'',
     tokens = [Literal 97, Literal 45, Class False [48, 45, 57]], literal_prefix = [97, 45]\<rparr>"
  by (simp add: lit_def parse_def parse_from.simps parse_class_def class_members.simps)

text \<open>The replacement pattern the audit suggests loses the members it is meant to keep. For the
  pattern \<open>a-*\<close> over \<open>a-1\<close>, \<open>a-b-2\<close> the audit suggests \<open>a-[0-9]*\<close>; parsed by this module that
  class holds the three characters 0, minus and 9 and the final star is skipped, so \<open>a-1\<close>, the one
  intended member, is not matched.\<close>

theorem suggestion_drops_intended_member:
  "\<exists>g g'. parse (lit ''a-*'') = Inr g
     \<and> suggestion (audit g [lit ''a-1'', lit ''a-b-2'']) = Some (lit ''a-[0-9]*'')
     \<and> parse (lit ''a-[0-9]*'') = Inr g'
     \<and> matches g (lit ''a-1'') \<and> \<not> matches g' (lit ''a-1'')"
proof -
  let ?g = "\<lparr>pattern = [97, 45, star], tokens = [Literal 97, Literal 45, AnyRun],
      literal_prefix = [97, 45]\<rparr>"
  have p: "parse [97, 45, star] = Inr ?g"
    by (simp add: parse_def parse_from.simps)
  have c: "classify [97, 45, 49] 45 = \<lparr>id_name = [97, 45, 49], family = [97], instance_token = Some [49]\<rparr>"
      "classify [97, 45, 98, 45, 50] 45
        = \<lparr>id_name = [97, 45, 98, 45, 50], family = [97, 45, 98], instance_token = Some [50]\<rparr>"
    by (simp_all add: classify_def last_component_def rfind_def is_ascii_digit_def Let_def)
  have m: "matches ?g [97, 45, 49]" "matches ?g [97, 45, 98, 45, 50]"
    by (simp_all add: matches_def match_run_Cons match_run_Nil)
  have a: "audit ?g [[97, 45, 49], [97, 45, 98, 45, 50]]
    = \<lparr>audit_text = [97, 45, star], matched = [[97, 45, 49], [97, 45, 98, 45, 50]],
       groups = [\<lparr>group_family = [97], members = [[97, 45, 49]]\<rparr>,
         \<lparr>group_family = [97, 45, 98], members = [[97, 45, 98, 45, 50]]\<rparr>],
       intended = Some [97]\<rparr>"
    using m by (simp add: audit_def audit_pattern_def DEFAULT_BOUNDARY_def c is_exact_def
        trim_end_matches_def)
  have "suggestion (audit ?g [[97, 45, 49], [97, 45, 98, 45, 50]]) = Some [97, 45, 91, 48, 45, 57, 93, 42]"
    unfolding a by (simp add: suggestion_def is_over_broad_def bs_of_list_def is_ascii_digit_def lit_def)
  moreover have "lit ''a-*'' = [97, 45, star]" "lit ''a-1'' = [97, 45, 49]"
      "lit ''a-b-2'' = [97, 45, 98, 45, 50]" "lit ''a-[0-9]*'' = [97, 45, 91, 48, 45, 57, 93, 42]"
    by (simp_all add: lit_def)
  ultimately show ?thesis
    using p m parse_eval_suggestion by (simp add: matches_def)
qed

section \<open>Aggregates\<close>

definition hit_list :: "(ustr \<times> u64) list \<Rightarrow> glob list \<Rightarrow> (glob \<times> (ustr \<times> u64)) list" where
  "hit_list inventory patterns =
     concat (map (\<lambda>pat. map (Pair pat) (filter (\<lambda>e. matches pat (fst e)) inventory)) patterns)"

lemma fold_record_hit_inner:
  "fold (record_hit pat) inventory h
     = fold (\<lambda>(p, e). record_hit p e) (map (Pair pat) (filter (\<lambda>e. matches pat (fst e)) inventory)) h"
  by (induction inventory arbitrary: h) (auto simp: record_hit_def)

lemma fold_record_hit:
  "fold (\<lambda>pat. fold (record_hit pat) inventory) patterns h
     = fold (\<lambda>(p, e). record_hit p e) (hit_list inventory patterns) h"
  by (induction patterns arbitrary: h) (simp_all add: hit_list_def fold_record_hit_inner)

definition hits_ok :: "(glob \<times> (ustr \<times> u64)) list \<Rightarrow> hits \<Rightarrow> bool" where
  "hits_ok hs h \<longleftrightarrow> bm_ok (fst h) \<and> fst ` set (fst h) = (fst \<circ> snd) ` set hs
     \<and> sum_list (map (\<lambda>e. length (snd e)) (fst h)) = length hs
     \<and> (\<forall>k ps. bm_get (fst h) k = Some ps \<longrightarrow> ps \<noteq> [])"

lemma hits_ok_record:
  assumes "hits_ok hs h" "matches p (fst e)"
  shows "hits_ok (hs @ [(p, e)]) (record_hit p e h)"
proof -
  let ?old = "case bm_get (fst h) (fst e) of None \<Rightarrow> [] | Some ps \<Rightarrow> ps"
  have "sum_list (map (\<lambda>e. length (snd e)) (bm_insert (fst e) (?old @ [pattern p]) (fst h)))
      = Suc (length hs)"
    using bm_insert_sum [of "fst h" length "fst e" "?old @ [pattern p]"] assms(1)
    by (auto simp: hits_ok_def split: option.splits)
  with assms show ?thesis
    by (auto simp: hits_ok_def record_hit_def keys_bm_insert bm_ok_insert bm_get_insert)
qed

lemma hits_ok_fold:
  "hits_ok gs h \<Longrightarrow> \<forall>(p, e) \<in> set hs. matches p (fst e) \<Longrightarrow>
     hits_ok (gs @ hs) (fold (\<lambda>(p, e). record_hit p e) hs h)"
proof (induction hs arbitrary: gs h)
  case (Cons x hs)
  obtain p e where x: "x = (p, e)" by (cases x)
  with Cons.prems have "hits_ok (gs @ [(p, e)]) (record_hit p e h)"
    by (intro hits_ok_record) auto
  from Cons.IH [OF this] Cons.prems x show ?case by simp
qed simp

lemma sum_lengths_eq_length:
  "\<forall>x \<in> set xs. 0 < f x \<Longrightarrow> sum_list (map f xs) = length xs \<longleftrightarrow> filter (\<lambda>x. 1 < f x) xs = []"
  for f :: "'a \<Rightarrow> nat"
proof (induction xs)
  case (Cons x xs)
  have "length xs \<le> sum_list (map f xs)"
    using Cons.prems sum_list_mono [of xs "\<lambda>_. 1" f] by (simp add: sum_list_triv Suc_le_eq)
  moreover have "0 < f x" using Cons.prems by simp
  ultimately show ?case using Cons by (auto simp: not_less_eq)
qed simp

text \<open>The two counts an aggregate keeps apart differ exactly when it reports a double count:
  the sum over patterns equals the number of distinct members if and only if no member is listed
  as counted by more than one pattern.\<close>

theorem double_count_explains_difference:
  "summed_count (aggregate inventory patterns) = distinct_count (aggregate inventory patterns)
     \<longleftrightarrow> \<not> is_double_counted (aggregate inventory patterns)"
proof -
  let ?hs = "hit_list inventory patterns"
  let ?h = "fold (\<lambda>pat. fold (record_hit pat) inventory) patterns (bm_empty, bm_empty) :: hits"
  have "hits_ok [] ((bm_empty, bm_empty) :: hits)" by (simp add: hits_ok_def)
  then have ok: "hits_ok ?hs ?h"
    using hits_ok_fold [of "[]" "(bm_empty, bm_empty)" ?hs]
    by (auto simp: fold_record_hit hit_list_def)
  have summed: "summed_count (aggregate inventory patterns) = length ?hs"
    by (simp add: summed_count_def aggregate_def Let_def hit_list_def length_concat comp_def)
  have "set (concat (map count_matched (per_pattern (aggregate inventory patterns)))) = (fst \<circ> snd) ` set ?hs"
    by (auto simp: aggregate_def Let_def hit_list_def image_iff)
  then have "distinct_count (aggregate inventory patterns) = card ((fst \<circ> snd) ` set ?hs)"
    by (simp add: distinct_count_def length_bm_card keys_of_list image_image)
  also have "\<dots> = length (fst ?h)"
    using ok by (simp add: hits_ok_def length_bm_card)
  finally have dist: "distinct_count (aggregate inventory patterns) = length (fst ?h)" .
  have "\<forall>x \<in> set (fst ?h). 0 < length (snd x)"
    using ok btm.get_iff_entry [of "fst ?h"] unfolding hits_ok_def by fastforce
  from sum_lengths_eq_length [OF this] ok
  have "length ?hs = length (fst ?h) \<longleftrightarrow> filter (\<lambda>e. 1 < length (snd e)) (fst ?h) = []"
    by (simp add: hits_ok_def)
  then show ?thesis
    unfolding summed dist by (simp add: is_double_counted_def aggregate_def Let_def)
qed

section \<open>Scoped identifiers\<close>

lemma split_once_app: "c \<notin> set s \<Longrightarrow> split_once c (s @ c # t) = Some (s, t)"
proof -
  assume c: "c \<notin> set s"
  have "takeWhile (\<lambda>x. x \<noteq> c) (s @ c # t) = s" "dropWhile (\<lambda>x. x \<noteq> c) (s @ c # t) = c # t"
    using c by (induction s) auto
  then show ?thesis by (simp add: split_once_def)
qed

lemma show_u64_all_digits: "list_all is_ascii_digit (show_u64 w)"
  by (simp add: show_u64_def list_all_iff show_nat_digits)

lemma new_scoped_id_Inr:
  "new_scoped_id sc n = Inr i \<longleftrightarrow> i = ScopedId sc n \<and> sc \<noteq> [] \<and> SCOPE_SEPARATOR \<notin> set sc
     \<and> list_all scope_char sc"
  by (auto simp: new_scoped_id_def)

text \<open>Parsing is inverse to printing: an identifier the constructor accepts is read back from
  its canonical key, scope and number unchanged.\<close>

theorem scoped_id_roundtrip:
  assumes "new_scoped_id sc n = Inr i"
  shows "parse_scoped_id (key i) = Inr i"
proof -
  from assms have i: "i = ScopedId sc n" "sc \<noteq> []" "SCOPE_SEPARATOR \<notin> set sc" "list_all scope_char sc"
    by (simp_all add: new_scoped_id_Inr)
  then have "split_once SCOPE_SEPARATOR (key i) = Some (sc, show_u64 n)"
    by (simp add: key_def split_once_app)
  with i assms show ?thesis
    by (simp add: parse_scoped_id_def show_u64_all_digits) (simp add: show_u64_def)
qed

theorem scoped_id_roundtrip_witness:
  "parse_scoped_id (key (ScopedId [105, 119] 14)) = Inr (ScopedId [105, 119] 14)"
proof -
  have "new_scoped_id [105, 119] 14 = Inr (ScopedId [105, 119] 14)"
    by (simp add: new_scoped_id_def scope_char_def is_ascii_lowercase_def)
  then show ?thesis by (rule scoped_id_roundtrip)
qed

text \<open>A number too large for 64 bits is not rejected: \<open>parse\<close> accepts the text and returns
  number 0 under the same scope, the identifier of a different artifact.\<close>

theorem oversized_number_becomes_zero:
  assumes "sc \<noteq> []" "list_all scope_char sc" "num \<noteq> []" "list_all is_ascii_digit num"
    and "2 ^ 64 \<le> digits_value num"
  shows "parse_scoped_id (sc @ SCOPE_SEPARATOR # num) = Inr (ScopedId sc 0)"
proof -
  have "SCOPE_SEPARATOR \<notin> set sc"
    using assms(2) by (auto simp: list_all_iff scope_char_def is_ascii_lowercase_def
        is_ascii_uppercase_def is_ascii_digit_def)
  moreover have "parse_u64 num = None"
    using assms by (simp add: parse_u64_digits list_all_iff)
  ultimately show ?thesis
    using assms by (simp add: parse_scoped_id_def split_once_app new_scoped_id_def)
qed

theorem oversized_number_becomes_zero_witness:
  "parse_scoped_id ([105, 119] @ SCOPE_SEPARATOR # [57, 57, 57, 57, 57, 57, 57, 57, 57, 57, 57, 57, 57, 57, 57, 57, 57, 57, 57, 57]) = Inr (ScopedId [105, 119] 0)"
  by (rule oversized_number_becomes_zero)
     (simp_all add: scope_char_def is_ascii_lowercase_def is_ascii_digit_def digits_value_def)

lemma distinct_set_singleton: "distinct xs \<Longrightarrow> set xs = {i} \<longleftrightarrow> xs = [i]"
  by (cases xs rule: remdups_adj.cases) auto

lemma resolve_ids:
  "set (remdups_adj (sort (filter (\<lambda>i. id_number i = n) known))) = {i \<in> set known. id_number i = n}"
  by auto

text \<open>A bare number resolves to an identifier only when it is the one known identifier with
  that number; with two or more candidates, or none, there is no winner.\<close>

lemma resolve_bare_unique:
  "resolution_id (resolve_bare n known) = Some i \<longleftrightarrow> {j \<in> set known. id_number j = n} = {i}"
proof -
  let ?ids = "remdups_adj (sort (filter (\<lambda>i. id_number i = n) known))"
  have d: "distinct ?ids" by (simp add: sorted_remdups_adj_distinct)
  have "resolution_id (resolve_bare n known) = Some i \<longleftrightarrow> ?ids = [i]"
    by (auto simp: resolve_bare_def resolution_id_def Let_def split: list.splits)
  also have "\<dots> \<longleftrightarrow> set ?ids = {i}"
    by (simp only: distinct_set_singleton [OF d])
  finally show ?thesis by (simp only: resolve_ids)
qed

end
