(* ===== verification/Step_Machine.thy ===== *)
theory Step_Machine
  imports Rust_Base
begin

text \<open>
  The contract shared by the state machines of the code: an operation takes the state and an
  event and either refuses with an error or returns the next state, and every accepted event
  keeps the component's invariant. \<open>guarded_machine\<close> states that contract and lifts it to
  whole histories; \<open>budgeted_machine\<close> adds a quantity that accepted events consume, which
  bounds how often something can happen. The conductor, the circuit breaker and the spec store
  interpret them on their own step functions.
\<close>

section \<open>Histories\<close>

text \<open>\<open>run_all\<close> stops at the first refusal (the code's \<open>?\<close>).\<close>

fun run_all :: "('s \<Rightarrow> 'e \<Rightarrow> 'err + 's) \<Rightarrow> 's \<Rightarrow> 'e list \<Rightarrow> 'err + 's" where
  "run_all step s [] = Inr s"
| "run_all step s (e # es) = and_then (step s e) (\<lambda>t. run_all step t es)"

text \<open>\<open>drive\<close> carries on after a refusal: a caller that reports the error and keeps its state.\<close>

definition settle :: "('s \<Rightarrow> 'e \<Rightarrow> 'err + 's) \<Rightarrow> 's \<Rightarrow> 'e \<Rightarrow> 's" where
  "settle step s e = (case step s e of Inl _ \<Rightarrow> s | Inr t \<Rightarrow> t)"

definition drive :: "('s \<Rightarrow> 'e \<Rightarrow> 'err + 's) \<Rightarrow> 's \<Rightarrow> 'e list \<Rightarrow> 's" where
  "drive step s es = foldl (settle step) s es"

inductive reachable :: "('s \<Rightarrow> 'e \<Rightarrow> 'err + 's) \<Rightarrow> 's \<Rightarrow> 's \<Rightarrow> bool" for step s where
  reach_start: "reachable step s s"
| reach_step: "reachable step s t \<Longrightarrow> step t e = Inr u \<Longrightarrow> reachable step s u"

lemma run_all_append:
  "run_all step s (es @ fs) = and_then (run_all step s es) (\<lambda>t. run_all step t fs)"
proof (induction es arbitrary: s)
  case (Cons e es)
  then show ?case by (cases "step s e") auto
qed simp

lemma run_all_snoc:
  "run_all step s (es @ [e]) = Inr u \<longleftrightarrow> (\<exists>t. run_all step s es = Inr t \<and> step t e = Inr u)"
  by (auto simp: run_all_append result_simps)

lemma reachable_iff_run: "reachable step s t \<longleftrightarrow> (\<exists>es. run_all step s es = Inr t)"
proof
  assume "reachable step s t"
  then show "\<exists>es. run_all step s es = Inr t"
  proof (induction rule: reachable.induct)
    case reach_start
    show ?case by (rule exI [of _ "[]"]) simp
  next
    case (reach_step t e u)
    then obtain es where "run_all step s es = Inr t" by blast
    with reach_step.hyps show ?case
      by (intro exI [of _ "es @ [e]"]) (auto simp: run_all_snoc)
  qed
next
  assume "\<exists>es. run_all step s es = Inr t"
  then obtain es where "run_all step s es = Inr t" by blast
  then show "reachable step s t"
    by (induction es arbitrary: t rule: rev_induct)
       (auto simp: run_all_snoc intro: reachable.intros)
qed

text \<open>A run that ends inside a region it starts outside of has entered the region; if a region can only
  be entered at states with a certain property, the run has passed through one.\<close>

lemma run_passes:
  assumes "run_all step s es = Inr u" "\<not> R s" "R u"
    and "\<And>s e t. step s e = Inr t \<Longrightarrow> \<not> R s \<Longrightarrow> R t \<Longrightarrow> G t"
  shows "\<exists>es1 es2 m. es = es1 @ es2 \<and> run_all step s es1 = Inr m \<and> G m \<and> run_all step m es2 = Inr u"
  using assms(1-3)
proof (induction es arbitrary: s)
  case (Cons e es)
  then obtain t where t: "step s e = Inr t" "run_all step t es = Inr u" by (auto simp: result_simps)
  show ?case
  proof (cases "R t")
    case True
    with assms(4) [OF t(1) Cons.prems(2)] t show ?thesis
      by (intro exI [of _ "[e]"] exI [of _ es] exI [of _ t]) simp
  next
    case False
    with Cons.IH [OF t(2)] Cons.prems(3) obtain es1 es2 m
      where "es = es1 @ es2" "run_all step t es1 = Inr m" "G m" "run_all step m es2 = Inr u" by blast
    with t(1) show ?thesis by (intro exI [of _ "e # es1"] exI [of _ es2] exI [of _ m]) simp
  qed
qed simp

section \<open>Machines with an invariant\<close>

locale guarded_machine =
  fixes step :: "'s \<Rightarrow> 'e \<Rightarrow> 'err + 's"
    and good :: "'s \<Rightarrow> bool"
  assumes step_good: "good s \<Longrightarrow> step s e = Inr t \<Longrightarrow> good t"
begin

lemma run_good: "good s \<Longrightarrow> run_all step s es = Inr t \<Longrightarrow> good t"
  by (induction es arbitrary: s) (auto simp: result_simps dest: step_good)

lemma settle_good: "good s \<Longrightarrow> good (settle step s e)"
  by (auto simp: settle_def step_good split: sum.splits)

lemma drive_good: "good s \<Longrightarrow> good (drive step s es)"
  by (induction es arbitrary: s) (auto simp: drive_def settle_good)

lemma reachable_good: "reachable step s t \<Longrightarrow> good s \<Longrightarrow> good t"
  by (induction rule: reachable.induct) (auto dest: step_good)

end

section \<open>Machines with a budget\<close>

text \<open>
  \<open>allowed\<close> names the events of one phase of a history (for instance: every event but a new
  selection), \<open>cost\<close> what an accepted event spends and \<open>credit\<close> what is left.
\<close>

locale budgeted_machine = guarded_machine step good
  for step :: "'s \<Rightarrow> 'e \<Rightarrow> 'err + 's" and good +
  fixes allowed :: "'e \<Rightarrow> bool"
    and cost :: "'e \<Rightarrow> nat"
    and credit :: "'s \<Rightarrow> nat"
  assumes step_credit:
    "good s \<Longrightarrow> allowed e \<Longrightarrow> step s e = Inr t \<Longrightarrow> cost e + credit t \<le> credit s"
begin

lemma run_credit:
  "good s \<Longrightarrow> list_all allowed es \<Longrightarrow> run_all step s es = Inr t
     \<Longrightarrow> sum_list (map cost es) + credit t \<le> credit s"
proof (induction es arbitrary: s)
  case (Cons e es)
  then obtain u where u: "step s e = Inr u" "run_all step u es = Inr t"
    by (auto simp: result_simps)
  with Cons have "sum_list (map cost es) + credit t \<le> credit u"
    by (auto dest: step_good)
  moreover have "cost e + credit u \<le> credit s"
    using Cons.prems u by (auto dest: step_credit)
  ultimately show ?case by simp
qed simp

lemma run_budget:
  "good s \<Longrightarrow> list_all allowed es \<Longrightarrow> run_all step s es = Inr t
     \<Longrightarrow> sum_list (map cost es) \<le> credit s"
  using run_credit by fastforce

end

section \<open>Refinement\<close>

text \<open>A machine refines a relation on abstract states when each accepted event is a move of the abstraction
  of its state; then a history is a path of moves.\<close>

locale refining_machine =
  fixes step :: "'s \<Rightarrow> 'e \<Rightarrow> 'err + 's" and abstraction :: "'s \<Rightarrow> 'a" and move :: "'a \<Rightarrow> 'a \<Rightarrow> bool"
  assumes step_moves: "step s e = Inr t \<Longrightarrow> move (abstraction s) (abstraction t)"
begin

lemma run_moves: "run_all step s es = Inr t \<Longrightarrow> move\<^sup>*\<^sup>* (abstraction s) (abstraction t)"
proof (induction es arbitrary: s)
  case (Cons e es)
  then obtain u where u: "step s e = Inr u" "run_all step u es = Inr t" by (auto simp: result_simps)
  from converse_rtranclp_into_rtranclp [of move, OF step_moves [OF u(1)] Cons.IH [OF u(2)]] show ?case .
qed simp

end

end
