(* ===== verification/Protocol.thy ===== *)
theory Protocol
  imports Ordered_Map Step_Machine
begin

text \<open>
  \<open>autospec.protocol\<close> v1 (\<open>protocol/mod.rs\<close>, \<open>protocol/negotiate.rs\<close>,
  \<open>protocol/sequence.rs\<close>): the refusal codes, version negotiation, the fail-closed envelope
  check and the per-mission sequencer.

  Sequence numbers are \<open>u64\<close> words and \<open>watermark + 1\<close> wraps, as it does in the release
  profile the workspace builds with (no \<open>overflow-checks\<close>). JSON values come from
  \<open>serde_json\<close>: the check reads them only through the accessors collected in the record
  \<open>serde\<close>, a parameter of the definitions.
\<close>

section \<open>Refusals\<close>

datatype protocol_error =
    VersionUnsupported (detail: ustr)
  | UnknownRequiredField ustr
  | MissingField string
  | InvalidField string string
  | SequenceGap (expected: u64) (got: u64)
  | SequenceConflict (expected: u64) (got: u64)
  | IdempotencyKeyReused ustr
  | IdempotencyConflict ustr
  | UnsupportedSchemaKeyword ustr ustr
  | SchemaLoad ustr ustr

fun error_code :: "protocol_error \<Rightarrow> string" where
  "error_code (VersionUnsupported _) = ''PROTOCOL_VERSION_UNSUPPORTED''"
| "error_code (UnknownRequiredField _) = ''UNKNOWN_REQUIRED_FIELD''"
| "error_code (MissingField _) = ''MISSING_FIELD''"
| "error_code (InvalidField _ _) = ''INVALID_FIELD''"
| "error_code (SequenceGap _ _) = ''SEQUENCE_GAP''"
| "error_code (SequenceConflict _ _) = ''SEQUENCE_CONFLICT''"
| "error_code (IdempotencyKeyReused _) = ''IDEMPOTENCY_KEY_REUSED''"
| "error_code (IdempotencyConflict _) = ''IDEMPOTENCY_CONFLICT''"
| "error_code (UnsupportedSchemaKeyword _ _) = ''UNSUPPORTED_SCHEMA_KEYWORD''"
| "error_code (SchemaLoad _ _) = ''SCHEMA_LOAD_FAILED''"

text \<open>\<open>Display\<close> of an error: the stable code, a colon and the detail.\<close>

fun error_text :: "protocol_error \<Rightarrow> ustr" where
  "error_text (VersionUnsupported d) =
     lit (error_code (VersionUnsupported d)) @ lit '': '' @ d"
| "error_text (UnknownRequiredField name) =
     lit (error_code (UnknownRequiredField name)) @ lit '': required extension `'' @ name
       @ lit ''` is not understood''"
| "error_text (MissingField field) =
     lit (error_code (MissingField field)) @ lit '': `'' @ lit field @ lit ''`''"
| "error_text (InvalidField field reason) =
     lit (error_code (InvalidField field reason)) @ lit '': `'' @ lit field @ lit ''` '' @ lit reason"
| "error_text (SequenceGap e g) =
     lit (error_code (SequenceGap e g)) @ lit '': expected sequence '' @ show_u64 e
       @ lit '', got '' @ show_u64 g"
| "error_text (SequenceConflict e g) =
     lit (error_code (SequenceConflict e g)) @ lit '': expected sequence '' @ show_u64 e
       @ lit '', got '' @ show_u64 g"
| "error_text (IdempotencyKeyReused k) =
     lit (error_code (IdempotencyKeyReused k)) @ lit '': key `'' @ k
       @ lit ''` was accepted at a different sequence''"
| "error_text (UnsupportedSchemaKeyword file keyword) =
     lit (error_code (UnsupportedSchemaKeyword file keyword)) @ lit '': `'' @ keyword @ lit ''` in ''
       @ file @ lit '' is outside the protocol schema subset''"
| "error_text (SchemaLoad file d) =
     lit (error_code (SchemaLoad file d)) @ lit '': '' @ file @ lit '': '' @ d"
| "error_text (IdempotencyConflict k) =
     lit (error_code (IdempotencyConflict k)) @ lit '': key `'' @ k
       @ lit ''` was redelivered with a different payload''"

section \<open>Version negotiation\<close>

definition PROTOCOL_VERSIONS :: "u32 list" where
  "PROTOCOL_VERSIONS = [1]"

text \<open>\<open>{:?}\<close> of a slice of integers: \<open>[1, 2]\<close>.\<close>

definition debug_u32s :: "u32 list \<Rightarrow> ustr" where
  "debug_u32s vs = lit ''['' @ join (lit '', '') (map (\<lambda>v. show_nat (unat v)) vs) @ lit '']''"

text \<open>\<open>Iterator::max\<close>.\<close>

definition iter_max :: "u32 list \<Rightarrow> u32 option" where
  "iter_max vs = (case vs of [] \<Rightarrow> None | v # ws \<Rightarrow> Some (fold max ws v))"

definition negotiate :: "u32 list \<Rightarrow> u32 list \<Rightarrow> protocol_error + u32" where
  "negotiate local remote =
     (if local = [] \<or> remote = []
      then Inl (VersionUnsupported (lit ''a supported_versions list is empty''))
      else if 0 \<in> set local \<or> 0 \<in> set remote
      then Inl (VersionUnsupported (lit ''a supported_versions list holds 0''))
      else case iter_max (filter (\<lambda>v. v \<in> set remote) local) of
        Some v \<Rightarrow> Inr v
      | None \<Rightarrow> Inl (VersionUnsupported (lit ''no common version in '' @ debug_u32s local
          @ lit '' and '' @ debug_u32s remote)))"

section \<open>The envelope\<close>

record envelope =
  schema :: ustr
  protocol_version :: u32
  idempotency_key :: ustr
  mission_id :: ustr
  sequence :: u64

text \<open>The accessors of \<open>serde_json::Value\<close> the check uses.\<close>

record 'v serde =
  as_object :: "'v \<Rightarrow> (ustr \<Rightarrow> 'v option) option"
  as_str :: "'v \<Rightarrow> ustr option"
  as_u64 :: "'v \<Rightarrow> u64 option"
  as_array :: "'v \<Rightarrow> 'v list option"

definition field_of :: "(ustr \<Rightarrow> 'v option) \<Rightarrow> string \<Rightarrow> protocol_error + 'v" where
  "field_of obj field = (case obj (lit field) of None \<Rightarrow> Inl (MissingField field) | Some v \<Rightarrow> Inr v)"

definition non_empty_string ::
  "'v serde \<Rightarrow> (ustr \<Rightarrow> 'v option) \<Rightarrow> string \<Rightarrow> protocol_error + ustr" where
  "non_empty_string J obj field = and_then (field_of obj field) (\<lambda>v. case as_str J v of
       Some s \<Rightarrow> if s \<noteq> [] then Inr s else Inl (InvalidField field ''must not be empty'')
     | None \<Rightarrow> Inl (InvalidField field ''must be a string''))"

definition schema_form_ok :: "ustr \<Rightarrow> bool" where
  "schema_form_ok s = (case strip_prefix (lit ''autospec.protocol.'') s of
       None \<Rightarrow> False
     | Some rest \<Rightarrow> (case rsplit_once (lit ''.v'') rest of
         None \<Rightarrow> False
       | Some (entity, version) \<Rightarrow> entity \<noteq> []
           \<and> list_all (\<lambda>c. is_ascii_lowercase c \<or> is_ascii_digit c \<or> c = 45 \<or> c = 95) entity
           \<and> version \<noteq> [] \<and> list_all is_ascii_digit version
           \<and> (case parse_u64 version of Some n \<Rightarrow> 1 \<le> n | None \<Rightarrow> False)))"

text \<open>The loop over \<open>required_extensions\<close>.\<close>

fun check_required ::
  "'v serde \<Rightarrow> ustr list \<Rightarrow> (ustr \<Rightarrow> 'v option) option \<Rightarrow> 'v list \<Rightarrow> protocol_error + unit" where
  "check_required J understood extensions [] = Inr ()"
| "check_required J understood extensions (entry # rest) = (case as_str J entry of
       None \<Rightarrow> Inl (InvalidField ''required_extensions'' ''entries must be strings'')
     | Some name \<Rightarrow>
         if name \<notin> set understood then Inl (UnknownRequiredField name)
         else if (case extensions of None \<Rightarrow> True | Some m \<Rightarrow> m name = None)
         then Inl (InvalidField ''required_extensions'' ''names a key that is absent from extensions'')
         else check_required J understood extensions rest)"

definition check_envelope :: "'v serde \<Rightarrow> 'v \<Rightarrow> ustr list \<Rightarrow> protocol_error + envelope" where
  "check_envelope J v understood =
     (case as_object J v of None \<Rightarrow> Inl (InvalidField ''$'' ''message must be a JSON object'')
      | Some obj \<Rightarrow>
        and_then (non_empty_string J obj ''schema'') (\<lambda>sch.
        and_then (ensure (schema_form_ok sch)
          (InvalidField ''schema'' ''must be autospec.protocol.<entity>.v<N>'')) (\<lambda>_.
        and_then (field_of obj ''protocol_version'') (\<lambda>pv.
        and_then (case as_u64 J pv of
            Some n \<Rightarrow> if 1 \<le> n \<and> n \<le> 4294967295 then Inr (ucast n :: u32)
              else Inl (InvalidField ''protocol_version'' ''must be an integer >= 1'')
          | None \<Rightarrow> Inl (InvalidField ''protocol_version'' ''must be an integer >= 1'')) (\<lambda>pver.
        and_then (non_empty_string J obj ''idempotency_key'') (\<lambda>ikey.
        and_then (non_empty_string J obj ''mission_id'') (\<lambda>mission.
        and_then (field_of obj ''sequence'') (\<lambda>sv.
        and_then (case as_u64 J sv of
            Some n \<Rightarrow> if 1 \<le> n then Inr n
              else Inl (InvalidField ''sequence'' ''must be an integer >= 1'')
          | None \<Rightarrow> Inl (InvalidField ''sequence'' ''must be an integer >= 1'')) (\<lambda>seq.
        and_then (field_of obj ''required_extensions'') (\<lambda>rv.
        and_then (case as_array J rv of Some xs \<Rightarrow> Inr xs
          | None \<Rightarrow> Inl (InvalidField ''required_extensions'' ''must be an array'')) (\<lambda>required.
        and_then (case obj (lit ''extensions'') of None \<Rightarrow> Inr None
          | Some e \<Rightarrow> (case as_object J e of Some m \<Rightarrow> Inr (Some m)
             | None \<Rightarrow> Inl (InvalidField ''extensions'' ''must be an object''))) (\<lambda>extensions.
        and_then (check_required J understood extensions required) (\<lambda>_.
        and_then (ensure (pver \<in> set PROTOCOL_VERSIONS)
          (VersionUnsupported (lit ''protocol_version '' @ show_nat (unat pver) @ lit '' is not in ''
             @ debug_u32s PROTOCOL_VERSIONS))) (\<lambda>_.
        Inr \<lparr>schema = sch, protocol_version = pver, idempotency_key = ikey,
             mission_id = mission, sequence = seq\<rparr>))))))))))))))"

section \<open>The sequencer\<close>

datatype accept = Applied | Duplicate

record mission_state =
  watermark :: u64
  accepted :: "(ustr, u64 \<times> ustr) bmap"

definition default_mission :: mission_state where
  "default_mission = \<lparr>watermark = 0, accepted = bm_empty\<rparr>"

record mission_sequencer =
  missions :: "(ustr, mission_state) bmap"

definition new_sequencer :: mission_sequencer where
  "new_sequencer = \<lparr>missions = bm_empty\<rparr>"

text \<open>The state of one mission as \<open>entry(..).or_default()\<close> yields it.\<close>

definition mission_entry :: "mission_sequencer \<Rightarrow> ustr \<Rightarrow> mission_state" where
  "mission_entry s m = (case bm_get (missions s) m of None \<Rightarrow> default_mission | Some st \<Rightarrow> st)"

definition set_mission :: "mission_sequencer \<Rightarrow> ustr \<Rightarrow> mission_state \<Rightarrow> mission_sequencer" where
  "set_mission s m st = s\<lparr>missions := bm_insert m st (missions s)\<rparr>"

text \<open>\<open>MissionSequencer::accept\<close>: the entry is created in any case, then judged.\<close>

definition accept_message ::
  "mission_sequencer \<Rightarrow> envelope \<Rightarrow> ustr \<Rightarrow> mission_sequencer \<times> (protocol_error + accept)" where
  "accept_message s env payload_digest =
     (let m = mission_id env; st = mission_entry s m; s = set_mission s m st in
      case bm_get (accepted st) (idempotency_key env) of
        Some (seen_at, digest) \<Rightarrow>
          if seen_at \<noteq> sequence env then (s, Inl (IdempotencyKeyReused (idempotency_key env)))
          else if digest \<noteq> payload_digest then (s, Inl (IdempotencyConflict (idempotency_key env)))
          else (s, Inr Duplicate)
      | None \<Rightarrow>
          let next = watermark st + 1 in
          if sequence env = next then
            (set_mission s m (st\<lparr>accepted := bm_insert (idempotency_key env)
                                   (sequence env, payload_digest) (accepted st),
                                 watermark := sequence env\<rparr>), Inr Applied)
          else if next < sequence env then (s, Inl (SequenceGap next (sequence env)))
          else (s, Inl (SequenceConflict next (sequence env))))"

definition resume_from :: "mission_sequencer \<Rightarrow> ustr \<Rightarrow> u64 \<Rightarrow> mission_sequencer" where
  "resume_from s m seq =
     (let st = mission_entry s m in
      set_mission s m (st\<lparr>watermark := seq, accepted := filter (\<lambda>e. fst (snd e) \<le> seq) (accepted st)\<rparr>))"

definition high_watermark :: "mission_sequencer \<Rightarrow> ustr \<Rightarrow> u64" where
  "high_watermark s m = (case bm_get (missions s) m of None \<Rightarrow> 0 | Some st \<Rightarrow> watermark st)"

lemma word_Suc_eq: "unat w = Suc (unat v) \<Longrightarrow> w = v + 1" for v w :: "'a::len word"
  by (metis of_nat_Suc of_nat_unat add.commute ucast_id)

section \<open>Frame of the sequencer\<close>

lemma mission_entry_set [simp]:
  "mission_entry (set_mission s m st) = (mission_entry s)(m := st)"
  by (rule ext) (simp add: mission_entry_def set_mission_def bm_get_insert)

lemma mission_entry_new [simp]: "mission_entry new_sequencer m = default_mission"
  by (simp add: mission_entry_def new_sequencer_def)

lemma high_watermark_entry: "high_watermark s m = watermark (mission_entry s m)"
  by (simp add: high_watermark_def mission_entry_def default_mission_def split: option.splits)

definition applied_entry :: "mission_state \<Rightarrow> envelope \<Rightarrow> ustr \<Rightarrow> mission_state" where
  "applied_entry st env d =
     st\<lparr>accepted := bm_insert (idempotency_key env) (sequence env, d) (accepted st),
        watermark := sequence env\<rparr>"

lemma accept_state:
  "mission_entry (fst (accept_message s env d)) =
     (if snd (accept_message s env d) = Inr Applied
      then (mission_entry s)(mission_id env := applied_entry (mission_entry s (mission_id env)) env d)
      else mission_entry s)"
  by (auto simp: accept_message_def Let_def applied_entry_def split: option.splits)

lemma accept_Applied:
  "snd (accept_message s env d) = Inr Applied \<longleftrightarrow>
     bm_get (accepted (mission_entry s (mission_id env))) (idempotency_key env) = None
     \<and> sequence env = watermark (mission_entry s (mission_id env)) + 1"
  by (auto simp: accept_message_def Let_def split: option.splits)

lemma accept_known:
  "bm_get (accepted (mission_entry s (mission_id env))) (idempotency_key env) = Some (q, d') \<Longrightarrow>
   snd (accept_message s env d) =
     (if q \<noteq> sequence env then Inl (IdempotencyKeyReused (idempotency_key env))
      else if d' \<noteq> d then Inl (IdempotencyConflict (idempotency_key env)) else Inr Duplicate)"
  by (simp add: accept_message_def Let_def)

section \<open>Histories of deliveries\<close>

type_synonym delivery = "envelope \<times> ustr"

fun deliver :: "mission_sequencer \<Rightarrow> delivery list \<Rightarrow> mission_sequencer" where
  "deliver s [] = s"
| "deliver s ((env, d) # ms) = deliver (fst (accept_message s env d)) ms"

lemma deliver_append: "deliver s (xs @ ys) = deliver (deliver s xs) ys"
  by (induction s xs rule: deliver.induct) auto

text \<open>The messages of mission \<open>m\<close> whose effect was applied, in order.\<close>

fun applied_log :: "ustr \<Rightarrow> mission_sequencer \<Rightarrow> delivery list \<Rightarrow> delivery list" where
  "applied_log m s [] = []"
| "applied_log m s ((env, d) # ms) =
     (if mission_id env = m \<and> snd (accept_message s env d) = Inr Applied then [(env, d)] else [])
       @ applied_log m (fst (accept_message s env d)) ms"

definition log_entry :: "delivery \<Rightarrow> ustr \<times> u64 \<times> ustr" where
  "log_entry = (\<lambda>(env, d). (idempotency_key env, sequence env, d))"

text \<open>A mission state tracks a log: positions count from 1 without gap, keys are distinct, and
  the accepted table is the log.\<close>

definition tracks :: "mission_state \<Rightarrow> delivery list \<Rightarrow> bool" where
  "tracks st log \<longleftrightarrow> map (\<lambda>e. unat (sequence (fst e))) log = [1..<Suc (length log)]
     \<and> unat (watermark st) = length log
     \<and> distinct (map (\<lambda>e. idempotency_key (fst e)) log)
     \<and> bm_ok (accepted st) \<and> bm_get (accepted st) = map_of (map log_entry log)"

lemma tracks_empty: "tracks default_mission []"
  by (simp add: tracks_def default_mission_def bm_get_map_of)

lemma log_entry_pair: "log_entry (env, d) = (idempotency_key env, sequence env, d)"
  by (simp add: log_entry_def)

lemma log_keys: "fst ` log_entry ` L = (\<lambda>e. idempotency_key (fst e)) ` L"
  by (force simp: log_entry_def)

lemma tracks_get_iff:
  assumes "tracks st log"
  shows "bm_get (accepted st) k = Some (q, d)
     \<longleftrightarrow> (\<exists>env. (env, d) \<in> set log \<and> idempotency_key env = k \<and> sequence env = q)"
proof -
  have "distinct (map fst (map log_entry log))"
    using assms by (simp add: tracks_def log_entry_def comp_def case_prod_beta)
  then show ?thesis
    using assms by (auto simp: tracks_def log_entry_def)
qed

lemma tracks_applied:
  assumes "tracks st log" and "1 \<le> sequence env"
    and "bm_get (accepted st) (idempotency_key env) = None" and "sequence env = watermark st + 1"
  shows "tracks (applied_entry st env d) (log @ [(env, d)])"
proof -
  have pos: "unat (sequence env) = Suc (length log)"
  proof -
    have "watermark st + 1 \<noteq> 0" using assms(2,4) by auto
    then have "unat (watermark st + 1) = Suc (unat (watermark st))"
      by (metis add.commute unatSuc)
    with assms show ?thesis by (simp add: tracks_def)
  qed
  have fresh: "idempotency_key env \<notin> (\<lambda>e. idempotency_key (fst e)) ` set log"
    using assms(1,3) by (auto simp: tracks_def map_of_eq_None_iff simp flip: log_keys)
  moreover have "map_of (map log_entry log) (idempotency_key env) = None"
    using assms(1,3) by (simp add: tracks_def)
  then have "map_of (map log_entry (log @ [(env, d)]))
      = (map_of (map log_entry log))(idempotency_key env \<mapsto> (sequence env, d))"
    by (auto simp: fun_eq_iff map_add_def log_entry_pair split: option.splits)
  ultimately show ?thesis
    using assms(1) pos unfolding tracks_def applied_entry_def
    by (auto simp: bm_ok_insert bm_get_insert fun_eq_iff)
qed

lemma tracks_deliver:
  assumes "list_all (\<lambda>e. 1 \<le> sequence (fst e)) hist" and "tracks (mission_entry s m) log"
  shows "tracks (mission_entry (deliver s hist) m) (log @ applied_log m s hist)"
  using assms
proof (induction hist arbitrary: s log)
  case (Cons e hist)
  obtain env d where e: "e = (env, d)" by force
  show ?case
  proof (cases "mission_id env = m \<and> snd (accept_message s env d) = Inr Applied")
    case True
    then have "tracks (mission_entry (fst (accept_message s env d)) m) (log @ [(env, d)])"
      using Cons.prems e by (auto simp: accept_state accept_Applied intro: tracks_applied)
    from Cons.IH [OF _ this] Cons.prems e True show ?thesis by simp
  next
    case False
    then have "mission_entry (fst (accept_message s env d)) m = mission_entry s m"
      by (auto simp: accept_state)
    with Cons e False show ?thesis by auto
  qed
qed simp

lemma tracks_delivered:
  "list_all (\<lambda>e. 1 \<le> sequence (fst e)) hist
     \<Longrightarrow> tracks (mission_entry (deliver new_sequencer hist) m) (applied_log m new_sequencer hist)"
  using tracks_deliver [of hist new_sequencer m "[]"] by (simp add: tracks_empty)

lemma tracks_unique: "tracks st log \<Longrightarrow> tracks st' log \<Longrightarrow> st = st'"
  by (auto simp: tracks_def word_unat_eq_iff intro!: mission_state.equality btm.store_ext)

text \<open>Delivering a log again, from scratch, applies every message of it.\<close>

lemma tracks_prefix_deliver:
  assumes "tracks st (log @ rest)" and "list_all (\<lambda>e. mission_id (fst e) = m) log"
  shows "tracks (mission_entry (deliver new_sequencer log) m) log"
proof -
  have pos: "map (\<lambda>e. unat (sequence (fst e))) (log @ rest) = [1..<Suc (length (log @ rest))]"
    and keys: "distinct (map (\<lambda>e. idempotency_key (fst e)) (log @ rest))"
    using assms(1) by (simp_all add: tracks_def del: upt_Suc)
  have "log = pre @ post \<Longrightarrow> tracks (mission_entry (deliver new_sequencer pre) m) pre" for pre post
  proof (induction pre arbitrary: post rule: rev_induct)
    case Nil
    show ?case by (simp add: tracks_empty)
  next
    case (snoc e pre)
    obtain env d where e: "e = (env, d)" by force
    let ?s = "deliver new_sequencer pre"
    have tr: "tracks (mission_entry ?s m) pre" using snoc by simp
    have m: "mission_id env = m" using assms(2) snoc.prems e by simp
    have "map (\<lambda>e. unat (sequence (fst e))) (log @ rest) ! length pre = Suc (length pre)"
      unfolding pos using snoc.prems by (simp del: upt_Suc)
    then have q: "unat (sequence env) = Suc (length pre)"
      using snoc.prems e by (simp add: nth_append)
    then have seq: "sequence env = watermark (mission_entry ?s m) + 1" "1 \<le> sequence env"
      using tr word_Suc_eq [of "sequence env" "watermark (mission_entry ?s m)"]
      by (auto simp: tracks_def word_le_nat_alt)
    have "bm_get (accepted (mission_entry ?s m)) (idempotency_key env) = None"
    proof (rule ccontr)
      assume "\<not> ?thesis"
      then obtain q' d' where "bm_get (accepted (mission_entry ?s m)) (idempotency_key env) = Some (q', d')"
        by auto
      then have "idempotency_key env \<in> (\<lambda>e. idempotency_key (fst e)) ` set pre"
        using tracks_get_iff [OF tr] by force
      then show False using keys snoc.prems e by auto
    qed
    with seq tr m show ?case
      by (simp add: deliver_append e accept_state accept_Applied tracks_applied)
  qed
  from this [of log "[]"] show ?thesis by simp
qed

lemma applied_log_mission: "(env, d) \<in> set (applied_log m s hist) \<Longrightarrow> mission_id env = m"
  by (induction m s hist rule: applied_log.induct) (auto split: if_splits)

text \<open>The part of the sequencer that belongs to one mission determines how it goes on.\<close>

lemma accept_local:
  "mission_entry s (mission_id env) = mission_entry s' (mission_id env)
     \<Longrightarrow> snd (accept_message s env d) = snd (accept_message s' env d)"
  by (simp add: accept_message_def Let_def split: option.splits)

lemma applied_log_state:
  "mission_entry s m = mission_entry s' m
     \<Longrightarrow> mission_entry (deliver s' (applied_log m s hist)) m = mission_entry (deliver s hist) m"
proof (induction hist arbitrary: s s')
  case (Cons e hist)
  obtain env d where e: "e = (env, d)" by force
  show ?case
  proof (cases "mission_id env = m \<and> snd (accept_message s env d) = Inr Applied")
    case True
    then have "snd (accept_message s' env d) = Inr Applied"
      using Cons.prems accept_local by metis
    with True Cons.prems have "mission_entry (fst (accept_message s env d)) m
        = mission_entry (fst (accept_message s' env d)) m"
      by (auto simp: accept_state)
    from Cons.IH [OF this] e True show ?thesis by simp
  next
    case False
    then have "mission_entry (fst (accept_message s env d)) m = mission_entry s' m"
      using Cons.prems by (auto simp: accept_state)
    from Cons.IH [OF this] e False show ?thesis by auto
  qed
qed simp

lemma option_eqI: "(\<And>x. a = Some x \<longleftrightarrow> b = Some x) \<Longrightarrow> a = b"
  by (cases a; cases b) auto

lemma tracks_resume:
  assumes "tracks st log" and "unat q \<le> length log"
  shows "tracks (st\<lparr>watermark := q, accepted := filter (\<lambda>e. fst (snd e) \<le> q) (accepted st)\<rparr>)
           (take (unat q) log)"
proof -
  have pos: "i < length log \<Longrightarrow> unat (sequence (fst (log ! i))) = Suc i" for i
  proof -
    assume i: "i < length log"
    then have "map (\<lambda>e. unat (sequence (fst e))) log ! i = [1..<Suc (length log)] ! i"
      using assms(1) by (simp add: tracks_def del: upt_Suc)
    with i show ?thesis by (simp del: upt_Suc)
  qed
  have inside: "e \<in> set (take (unat q) log) \<longleftrightarrow> e \<in> set log \<and> sequence (fst e) \<le> q" for e
  proof
    assume "e \<in> set (take (unat q) log)"
    then obtain i where "i < length log" "i < unat q" "e = log ! i"
      by (auto simp: in_set_conv_nth)
    then show "e \<in> set log \<and> sequence (fst e) \<le> q"
      using pos [of i] by (simp add: word_le_nat_alt)
  next
    assume e: "e \<in> set log \<and> sequence (fst e) \<le> q"
    then obtain i where i: "i < length log" "e = log ! i" by (auto simp: in_set_conv_nth)
    then have "i < unat q" using pos [of i] e by (simp add: word_le_nat_alt)
    with i assms(2) show "e \<in> set (take (unat q) log)"
      by (auto simp: in_set_conv_nth intro!: exI [of _ i])
  qed
  have st: "bm_ok (accepted st)" using assms(1) by (simp add: tracks_def)
  then have ok: "bm_ok (filter (\<lambda>e. fst (snd e) \<le> q) (accepted st))" by (rule bm_ok_filter)
  have keys: "distinct (map (\<lambda>e. idempotency_key (fst e)) (take (unat q) log))"
    using assms(1) by (simp add: tracks_def distinct_take flip: take_map)
  then have "distinct (map fst (map log_entry (take (unat q) log)))"
    by (simp add: log_entry_def comp_def case_prod_beta)
  then have logged: "map_of (map log_entry (take (unat q) log)) k = Some (p, d)
      \<longleftrightarrow> (\<exists>env. (env, d) \<in> set (take (unat q) log) \<and> idempotency_key env = k \<and> sequence env = p)"
    for k p d by (auto simp: log_entry_def)
  have "bm_get (filter (\<lambda>e. fst (snd e) \<le> q) (accepted st)) k = Some (p, d)
      \<longleftrightarrow> bm_get (accepted st) k = Some (p, d) \<and> p \<le> q" for k p d
    by (auto simp: btm.get_iff_entry [OF ok] btm.get_iff_entry [OF st])
  then have same: "bm_get (filter (\<lambda>e. fst (snd e) \<le> q) (accepted st)) k = Some (p, d)
      \<longleftrightarrow> map_of (map log_entry (take (unat q) log)) k = Some (p, d)" for k p d
    using tracks_get_iff [OF assms(1), of k p d] by (auto simp: logged inside)
  have "bm_get (filter (\<lambda>e. fst (snd e) \<le> q) (accepted st))
      = map_of (map log_entry (take (unat q) log))"
    by (intro ext option_eqI) (metis same surj_pair)
  with ok keys assms show ?thesis
    by (simp add: tracks_def min_absorb2 take_upt flip: take_map del: upt_Suc)
qed

section \<open>What the sequencer promises\<close>

text \<open>C40: effects are applied exactly once and in order. After any history of checked messages
  (the envelope check admits only sequences from 1) the applied messages of a mission carry the
  positions 1, 2, 3, ... without a gap, no idempotency key occurs twice among them, and the high
  watermark is their number; other missions, refusals and redeliveries never disturb this.\<close>

theorem sequencer_exactly_once:
  assumes "list_all (\<lambda>e. 1 \<le> sequence (fst e)) hist"
  shows "map (\<lambda>e. unat (sequence (fst e))) (applied_log m new_sequencer hist)
       = [1..<Suc (length (applied_log m new_sequencer hist))]
     \<and> distinct (map (\<lambda>e. idempotency_key (fst e)) (applied_log m new_sequencer hist))
     \<and> unat (high_watermark (deliver new_sequencer hist) m)
         = length (applied_log m new_sequencer hist)"
  using tracks_delivered [OF assms, of m] by (simp add: tracks_def high_watermark_entry del: upt_Suc)

definition sample_message :: "ustr \<Rightarrow> u64 \<Rightarrow> ustr \<Rightarrow> envelope" where
  "sample_message m n k = \<lparr>schema = lit ''autospec.protocol.event.v1'', protocol_version = 1,
     idempotency_key = k, mission_id = m, sequence = n\<rparr>"

lemmas sequencer_eval = sample_message_def new_sequencer_def accept_message_def mission_entry_def
  set_mission_def default_mission_def Let_def

theorem sequencer_exactly_once_witness:
  "(let log = applied_log [1] new_sequencer
       [(sample_message [1] 1 [7], [0]), (sample_message [1] 3 [8], [0]), (sample_message [1] 2 [8], [0])]
    in map (\<lambda>e. unat (sequence (fst e))) log = [1..<Suc (length log)])"
  using sequencer_exactly_once [of "[(sample_message [1] 1 [7], [0]), (sample_message [1] 3 [8], [0]),
      (sample_message [1] 2 [8], [0])]" "[1]"]
  by (simp add: Let_def sample_message_def del: upt_Suc)

text \<open>Redelivery is idempotent. A message whose effect was applied, delivered again at any
  later point with the same digest, is acknowledged as a duplicate; with another digest it is
  refused as a conflict. Nothing is ever applied a second time.\<close>

theorem redelivery_is_idempotent:
  assumes "list_all (\<lambda>e. 1 \<le> sequence (fst e)) hist"
    and "(env, d) \<in> set (applied_log m new_sequencer hist)"
  shows "snd (accept_message (deliver new_sequencer hist) env d') =
     (if d' = d then Inr Duplicate else Inl (IdempotencyConflict (idempotency_key env)))"
proof -
  have "mission_id env = m"
    using assms(2) by (rule applied_log_mission)
  moreover have "bm_get (accepted (mission_entry (deliver new_sequencer hist) m)) (idempotency_key env)
      = Some (sequence env, d)"
    using tracks_get_iff [OF tracks_delivered [OF assms(1)]] assms(2) by blast
  ultimately show ?thesis by (auto simp: accept_known)
qed

theorem redelivery_is_idempotent_witness:
  "snd (accept_message (deliver new_sequencer [(sample_message [1] 1 [7], [0])])
     (sample_message [1] 1 [7]) [0]) = Inr Duplicate"
proof -
  have "(sample_message [1] 1 [7], [0])
      \<in> set (applied_log [1] new_sequencer [(sample_message [1] 1 [7], [0])])"
    by (simp add: sequencer_eval)
  from redelivery_is_idempotent [OF _ this, of "[0]"] show ?thesis
    by (simp add: sample_message_def)
qed

text \<open>Resuming from a checkpoint is a rollback. After \<open>resume_from\<close> with a sequence no
  higher than the watermark, the mission is in exactly the state it had when the messages up to
  that sequence, and no later one, had been applied, so replay after the checkpoint is judged
  as the first delivery was.\<close>

theorem resume_is_rollback:
  assumes "list_all (\<lambda>e. 1 \<le> sequence (fst e)) hist"
    and "q \<le> high_watermark (deliver new_sequencer hist) m"
  shows "mission_entry (resume_from (deliver new_sequencer hist) m q) m =
     mission_entry (deliver new_sequencer (take (unat q) (applied_log m new_sequencer hist))) m"
proof -
  let ?log = "applied_log m new_sequencer hist"
  have tr: "tracks (mission_entry (deliver new_sequencer hist) m) ?log"
    using assms(1) by (rule tracks_delivered)
  have q: "unat q \<le> length ?log"
    using assms(2) tr by (simp add: high_watermark_entry tracks_def word_le_nat_alt)
  have "list_all (\<lambda>e. mission_id (fst e) = m) (take (unat q) ?log)"
    by (auto simp: list_all_iff dest!: in_set_takeD intro: applied_log_mission)
  moreover have "tracks (mission_entry (deliver new_sequencer hist) m)
      (take (unat q) ?log @ drop (unat q) ?log)"
    using tr by simp
  ultimately have "tracks (mission_entry (deliver new_sequencer (take (unat q) ?log)) m) (take (unat q) ?log)"
    using tracks_prefix_deliver by blast
  moreover have "tracks (mission_entry (resume_from (deliver new_sequencer hist) m q) m) (take (unat q) ?log)"
    using tracks_resume [OF tr q] by (simp add: resume_from_def Let_def)
  ultimately show ?thesis by (rule tracks_unique [symmetric])
qed

theorem resume_is_rollback_witness:
  "mission_entry (resume_from (deliver new_sequencer [(sample_message [1] 1 [7], [0])]) [1] 0) [1] =
   mission_entry (deliver new_sequencer []) [1]"
  using resume_is_rollback [of "[(sample_message [1] 1 [7], [0])]" 0 "[1]"]
  by (simp add: sample_message_def)

text \<open>Missions are isolated, and only applied messages count: the state of a mission after a
  history is its state after just the messages that were applied to it. Refused messages,
  redeliveries and traffic of other missions leave it unchanged.\<close>

theorem only_applied_messages_count:
  "mission_entry (deliver s hist) m = mission_entry (deliver s (applied_log m s hist)) m"
  by (simp add: applied_log_state)

section \<open>What negotiation and the envelope check promise\<close>

lemma iter_max_Some: "iter_max vs = (if vs = [] then None else Some (Max (set vs)))"
  by (cases vs) (simp_all add: iter_max_def flip: Max.set_eq_fold)

text \<open>Negotiation picks exactly the greatest version both sides list, and fails when a list
  holds the invalid version 0 or when there is no common version.\<close>

theorem negotiate_greatest_common:
  "negotiate local remote = Inr v \<longleftrightarrow>
     0 \<notin> set local \<union> set remote \<and> set local \<inter> set remote \<noteq> {} \<and> v = Max (set local \<inter> set remote)"
proof -
  have "{w \<in> set local. w \<in> set remote} = set local \<inter> set remote" by auto
  then show ?thesis
    by (auto simp: negotiate_def iter_max_Some filter_empty_conv split: option.splits)
qed

lemma non_empty_string_ok: "non_empty_string J obj field = Inr s \<Longrightarrow> s \<noteq> []"
  by (auto simp: non_empty_string_def result_simps split: option.splits if_splits)

lemma check_required_all:
  "check_required J understood extensions entries = Inr u \<Longrightarrow>
   list_all (\<lambda>e. \<exists>name m. as_str J e = Some name \<and> name \<in> set understood
     \<and> extensions = Some m \<and> m name \<noteq> None) entries"
  by (induction J understood extensions entries rule: check_required.induct)
     (auto split: option.splits if_splits)

lemma field_of_Inr: "field_of obj field = Inr v \<longleftrightarrow> obj (lit field) = Some v"
  by (simp add: field_of_def split: option.splits)

lemma check_envelope_ok:
  assumes "check_envelope J v understood = Inr env"
  obtains obj rv entries extensions where "as_object J v = Some obj"
    "obj (lit ''required_extensions'') = Some rv" "as_array J rv = Some entries"
    "extensions = (case obj (lit ''extensions'') of None \<Rightarrow> None | Some e \<Rightarrow> as_object J e)"
    "check_required J understood extensions entries = Inr ()"
    "1 \<le> sequence env" "protocol_version env \<in> set PROTOCOL_VERSIONS"
    "idempotency_key env \<noteq> []" "mission_id env \<noteq> []" "schema_form_ok (schema env)"
  using assms unfolding check_envelope_def
  by (auto simp: result_simps field_of_Inr split: option.splits if_splits
      dest!: non_empty_string_ok)

text \<open>The envelope check fails closed. A message it admits names a well-formed schema and a
  version this build reads, has a sequence of at least 1 and non-empty keys, and every entry of
  its \<open>required_extensions\<close> is an extension the reader implements and the message carries.\<close>

theorem check_envelope_fails_closed:
  assumes "check_envelope J v understood = Inr env"
  shows "1 \<le> sequence env \<and> protocol_version env \<in> set PROTOCOL_VERSIONS
    \<and> idempotency_key env \<noteq> [] \<and> mission_id env \<noteq> [] \<and> schema_form_ok (schema env)
    \<and> (\<exists>obj rv entries. as_object J v = Some obj \<and> obj (lit ''required_extensions'') = Some rv
        \<and> as_array J rv = Some entries
        \<and> list_all (\<lambda>e. \<exists>name x m. as_str J e = Some name \<and> name \<in> set understood
            \<and> obj (lit ''extensions'') = Some x \<and> as_object J x = Some m \<and> m name \<noteq> None) entries)"
proof -
  from assms obtain obj rv entries extensions where
      env: "1 \<le> sequence env" "protocol_version env \<in> set PROTOCOL_VERSIONS"
        "idempotency_key env \<noteq> []" "mission_id env \<noteq> []" "schema_form_ok (schema env)"
    and obj: "as_object J v = Some obj" "obj (lit ''required_extensions'') = Some rv"
      "as_array J rv = Some entries"
    and ext: "extensions = (case obj (lit ''extensions'') of None \<Rightarrow> None | Some e \<Rightarrow> as_object J e)"
    and req: "check_required J understood extensions entries = Inr ()"
    by (rule check_envelope_ok)
  have "list_all (\<lambda>e. \<exists>name x m. as_str J e = Some name \<and> name \<in> set understood
      \<and> obj (lit ''extensions'') = Some x \<and> as_object J x = Some m \<and> m name \<noteq> None) entries"
    using check_required_all [OF req] ext
    by (auto simp: list_all_iff split: option.splits)
  with env obj show ?thesis by blast
qed

text \<open>A message of five fields over an instance of the accessors: values are numbers that stand for
  the nodes of one document.\<close>

definition sample_document :: "nat serde" where
  "sample_document = \<lparr>
     as_object = (\<lambda>n. if n = 0 then Some (map_of [(lit ''schema'', 1), (lit ''protocol_version'', 2),
          (lit ''idempotency_key'', 3), (lit ''mission_id'', 3), (lit ''sequence'', 2),
          (lit ''required_extensions'', 4), (lit ''extensions'', 5)])
        else if n = 5 then Some (map_of [(lit ''m-1'', 6)]) else None),
     as_str = (\<lambda>n. if n = 1 then Some (lit ''autospec.protocol.event.v1'')
        else if n = 3 then Some (lit ''m-1'') else None),
     as_u64 = (\<lambda>n. if n = 2 then Some 1 else None),
     as_array = (\<lambda>n. if n = 4 then Some [3] else None)\<rparr>"

lemma sample_schema: "schema_form_ok (lit ''autospec.protocol.event.v1'')"
  by (simp add: schema_form_ok_def lit_def strip_prefix_def parse_u64_def digits_value_def
      is_ascii_lowercase_def is_ascii_digit_def)

theorem check_envelope_fails_closed_witness:
  "\<exists>env. check_envelope sample_document 0 [lit ''m-1''] = Inr env \<and> 1 \<le> sequence env"
proof -
  have "check_envelope sample_document 0 [lit ''m-1'']
      = Inr \<lparr>schema = lit ''autospec.protocol.event.v1'', protocol_version = 1,
             idempotency_key = lit ''m-1'', mission_id = lit ''m-1'', sequence = 1\<rparr>"
    by (simp add: check_envelope_def sample_document_def non_empty_string_def field_of_def
        sample_schema ensure_def PROTOCOL_VERSIONS_def)
  from this check_envelope_fails_closed [OF this] show ?thesis by blast
qed

end
