(* ===== verification/Conductor.thy ===== *)
theory Conductor
  imports Step_Machine
begin

text \<open>
  The conductor (\<open>coordination/conductor.rs\<close> with \<open>conductor/invariants.rs\<close> and the outcome
  rules of \<open>conductor/normalized.rs\<close>): the state machine that drives one repository or slice
  from scan over selection, claim and dispatch to retry, retirement or completion.

  \<open>transition\<close> consumes the state and returns the next one or an error, as in the code;
  \<open>apply_event\<close> is its \<open>match\<close>, and \<open>validate\<close> runs on every result. Texts of errors are kept;
  the debug rendering of a refused event is the event itself (\<open>InvalidEvent\<close>).
\<close>

section \<open>Data\<close>

datatype conductor_scope = Repository | Slice

datatype conductor_phase =
    Scan | Review | Select | Claim | Dispatch | DispatchRecorded | Retry | Paused
  | SliceComplete | AllDone | TierDry | AllBlockedPhase | VerifierUnavailablePhase | IdleRescan
  | ResourceParkPhase | OperatorStopPhase

definition is_terminal :: "conductor_phase \<Rightarrow> bool" where
  "is_terminal p \<longleftrightarrow> p \<in> {SliceComplete, AllDone}"

definition is_boundary :: "conductor_phase \<Rightarrow> bool" where
  "is_boundary p \<longleftrightarrow> p \<in> {TierDry, AllBlockedPhase, VerifierUnavailablePhase, IdleRescan,
     ResourceParkPhase, OperatorStopPhase}"

datatype conductor_outcome =
    Succeeded
  | Retryable ustr
  | Blocked ustr
  | AllBlocked ustr "u64 list"
  | VerifierUnavailable ustr
  | ResourcePark ustr
  | OperatorStop ustr

datatype conductor_event =
    ScanFoundWork
  | ScanEmpty
  | SafetyReviewed
  | SafetySkipped
  | Selected u64 "ustr list"
  | Claimed
  | RecordDispatch conductor_outcome
  | BeginTerminalRetirement conductor_outcome
  | BeginOwnershipRetirement
  | Reconciled
  | RetryScheduled
  | Pause ustr
  | Resume
  | RetireObsoleteSelection
  | AbandonExhausted
  | AbandonTerminal
  | AbandonOwnership

datatype conductor_error = Message string | InvalidEvent conductor_event

record conductor_state =
  repo :: ustr
  state_scope :: conductor_scope
  phase :: conductor_phase
  selected_issue :: "u64 option"
  serialization_reasons :: "ustr list"
  retry_count :: u32
  retry_limit :: u32
  last_outcome :: "conductor_outcome option"
  pause_reason :: "ustr option"
  terminal_reason :: "ustr option"
  resume_phase :: "conductor_phase option"
  blocked_backlog_cycles :: u32
  blocked_backlog_reason :: "ustr option"
  blocked_backlog_issues :: "u64 list"
  no_progress_cycles :: u32
  no_progress_reason :: "ustr option"

definition RETRY_LIMIT_EXHAUSTED :: ustr where
  "RETRY_LIMIT_EXHAUSTED = lit ''retry_limit_exhausted''"

definition TERMINAL_RETIREMENT :: ustr where
  "TERMINAL_RETIREMENT = lit ''executor_terminal_retirement''"

definition OWNERSHIP_RETIREMENT :: ustr where
  "OWNERSHIP_RETIREMENT = lit ''executor_ownership_retirement''"

definition BLOCKED_BACKLOG_THRESHOLD :: u32 where
  "BLOCKED_BACKLOG_THRESHOLD = 5"

definition MAX_NO_PROGRESS_REASON_LENGTH :: nat where
  "MAX_NO_PROGRESS_REASON_LENGTH = 256"

section \<open>Validation\<close>

definition outcome_name :: "conductor_outcome \<Rightarrow> string" where
  "outcome_name out = (case out of
       Succeeded \<Rightarrow> ''succeeded''
     | Retryable _ \<Rightarrow> ''retryable''
     | Blocked _ \<Rightarrow> ''blocked''
     | AllBlocked _ _ \<Rightarrow> ''all-blocked''
     | VerifierUnavailable _ \<Rightarrow> ''verifier-unavailable''
     | ResourcePark _ \<Rightarrow> ''resource-park''
     | OperatorStop _ \<Rightarrow> ''operator-stop'')"

definition validate_all_blocked_issues :: "u64 list \<Rightarrow> conductor_error + unit" where
  "validate_all_blocked_issues issues =
     ensure (\<not> (issues = [] \<or> 0 \<in> set issues))
       (Message ''all-blocked conductor outcome requires positive issue ids'')"

definition validate_named_outcome_reason :: "string \<Rightarrow> ustr \<Rightarrow> conductor_error + unit" where
  "validate_named_outcome_reason kind reason =
     ensure (\<not> (blank reason \<or> reason = RETRY_LIMIT_EXHAUSTED))
       (Message (kind @ '' conductor outcome has an invalid reason''))"

fun validate_outcome :: "conductor_outcome \<Rightarrow> conductor_error + unit" where
  "validate_outcome Succeeded = Inr ()"
| "validate_outcome (Retryable reason) =
     (if blank reason then Inl (Message ''retryable conductor outcome requires a reason'') else Inr ())"
| "validate_outcome (Blocked reason) =
     (if blank reason \<or> reason = RETRY_LIMIT_EXHAUSTED
      then Inl (Message ''blocked conductor outcome has an invalid reason'') else Inr ())"
| "validate_outcome (AllBlocked reason issues) =
     and_then (validate_named_outcome_reason ''all-blocked'' reason)
       (\<lambda>_. validate_all_blocked_issues issues)"
| "validate_outcome (VerifierUnavailable reason) =
     validate_named_outcome_reason (outcome_name (VerifierUnavailable reason)) reason"
| "validate_outcome (ResourcePark reason) =
     validate_named_outcome_reason (outcome_name (ResourcePark reason)) reason"
| "validate_outcome (OperatorStop reason) =
     validate_named_outcome_reason (outcome_name (OperatorStop reason)) reason"

text \<open>\<open>windows(2).any(|pair| pair[0] >= pair[1])\<close>\<close>

fun out_of_order :: "u64 list \<Rightarrow> bool" where
  "out_of_order (a # b # rest) = (b \<le> a \<or> out_of_order (b # rest))"
| "out_of_order _ = False"

definition no_progress_text_ok :: "ustr \<Rightarrow> bool" where
  "no_progress_text_ok reason \<longleftrightarrow> \<not> (blank reason \<or> MAX_NO_PROGRESS_REASON_LENGTH < length reason)"

definition validate_identity_and_outcome :: "conductor_state \<Rightarrow> conductor_error + unit" where
  "validate_identity_and_outcome s =
     and_then (ensure (\<not> blank (repo s)) (Message ''conductor state.repo must not be empty'')) (\<lambda>_.
     and_then (ensure (selected_issue s \<noteq> Some 0) (Message ''selected issue must be positive'')) (\<lambda>_.
     and_then (case last_outcome s of None \<Rightarrow> Inr () | Some out \<Rightarrow> validate_outcome out) (\<lambda>_.
     and_then (ensure (\<not> (blocked_backlog_cycles s = 0
          \<and> (blocked_backlog_reason s \<noteq> None \<or> blocked_backlog_issues s \<noteq> [])))
        (Message ''blocked backlog metadata requires a positive cycle count'')) (\<lambda>_.
     and_then (ensure (\<not> (0 \<in> set (blocked_backlog_issues s) \<or> out_of_order (blocked_backlog_issues s)))
        (Message ''blocked backlog issue ids must be positive and sorted'')) (\<lambda>_.
     and_then (ensure (\<not> (BLOCKED_BACKLOG_THRESHOLD \<le> blocked_backlog_cycles s
          \<and> phase s \<noteq> AllBlockedPhase))
        (Message ''threshold blocked backlog must be sealed as all-blocked'')) (\<lambda>_.
     (case no_progress_reason s of
        None \<Rightarrow> ensure (no_progress_cycles s = 0)
          (Message ''no-progress reason and cycle count must be recorded together'')
      | Some reason \<Rightarrow>
          if no_progress_cycles s = 0
          then Inl (Message ''no-progress reason and cycle count must be recorded together'')
          else ensure (no_progress_text_ok reason)
            (Message ''no-progress reason must contain 1..=256 characters''))))))))"

definition validate_terminal_state :: "conductor_state \<Rightarrow> conductor_error + unit" where
  "validate_terminal_state s =
     and_then (ensure ((state_scope s = Repository \<and> phase s = AllDone
            \<and> terminal_reason s = Some (lit ''repository_empty''))
         \<or> (state_scope s = Slice \<and> phase s = SliceComplete
            \<and> terminal_reason s = Some (lit ''slice_empty'')))
        (Message ''terminal conductor state has incompatible scope or reason'')) (\<lambda>_.
     ensure (\<not> (selected_issue s \<noteq> None \<or> serialization_reasons s \<noteq> [] \<or> last_outcome s \<noteq> None
         \<or> pause_reason s \<noteq> None \<or> resume_phase s \<noteq> None))
        (Message ''terminal conductor state carries active issue metadata''))"

definition validate_unselected_state :: "conductor_state \<Rightarrow> conductor_error + unit" where
  "validate_unselected_state s =
     ensure (\<not> (selected_issue s \<noteq> None \<or> serialization_reasons s \<noteq> []))
       (Message ''unselected conductor phase carries selected issue metadata'')"

definition validate_selected_state :: "conductor_state \<Rightarrow> conductor_error + unit" where
  "validate_selected_state s =
     ensure (selected_issue s \<noteq> None) (Message ''selected conductor phase requires selected issue'')"

definition validate_successful_dispatch :: "conductor_state \<Rightarrow> conductor_error + unit" where
  "validate_successful_dispatch s =
     ensure (last_outcome s = Some Succeeded)
       (Message ''recorded dispatch phase requires a successful outcome'')"

definition is_retryable :: "conductor_outcome option \<Rightarrow> bool" where
  "is_retryable out = (case out of Some (Retryable _) \<Rightarrow> True | _ \<Rightarrow> False)"

definition is_blocked :: "conductor_outcome option \<Rightarrow> bool" where
  "is_blocked out = (case out of Some (Blocked _) \<Rightarrow> True | _ \<Rightarrow> False)"

definition validate_retry_state :: "conductor_state \<Rightarrow> conductor_error + unit" where
  "validate_retry_state s =
     and_then (ensure (is_retryable (last_outcome s))
        (Message ''retry conductor phase requires a retryable outcome'')) (\<lambda>_.
     ensure (\<not> retry_limit s < retry_count s) (Message ''retry conductor phase exceeds retry limit''))"

definition validate_boundary_outcome :: "conductor_state \<Rightarrow> conductor_error + unit" where
  "validate_boundary_outcome s =
     ensure (case last_outcome s of
         None \<Rightarrow> phase s \<in> {TierDry, IdleRescan}
       | Some (AllBlocked _ _) \<Rightarrow> phase s = AllBlockedPhase
       | Some (VerifierUnavailable _) \<Rightarrow> phase s = VerifierUnavailablePhase
       | Some (ResourcePark _) \<Rightarrow> phase s = ResourceParkPhase
       | Some (OperatorStop _) \<Rightarrow> phase s = OperatorStopPhase
       | _ \<Rightarrow> False)
       (Message ''conductor boundary state has incompatible phase/outcome'')"

definition validate_boundary_state :: "conductor_state \<Rightarrow> conductor_error + unit" where
  "validate_boundary_state s =
     and_then (ensure (\<not> (selected_issue s \<noteq> None \<or> serialization_reasons s \<noteq> []
         \<or> pause_reason s \<noteq> None \<or> resume_phase s \<noteq> None))
        (Message ''conductor boundary state carries active issue metadata''))
       (\<lambda>_. validate_boundary_outcome s)"

definition validate_nonterminal_pause_metadata :: "conductor_state \<Rightarrow> conductor_error + unit" where
  "validate_nonterminal_pause_metadata s =
     ensure (\<not> (phase s \<noteq> Paused \<and> (pause_reason s \<noteq> None \<or> resume_phase s \<noteq> None)))
       (Message ''unpaused conductor state cannot carry pause metadata'')"

text \<open>\<open>validate_paused_state\<close> up to its recursive call: \<open>Inr None\<close> when the pause is one of the
  three recovery pauses and accepted, \<open>Inr (Some p)\<close> when the state resumed in phase \<open>p\<close> has to
  be valid.\<close>

definition paused_recovery :: "conductor_state \<Rightarrow> conductor_error + conductor_phase option" where
  "paused_recovery s = (case pause_reason s of
       None \<Rightarrow> Inl (Message ''paused conductor state requires pause reason'')
     | Some reason \<Rightarrow>
         if reason = TERMINAL_RETIREMENT then
           (if resume_phase s \<noteq> None \<or> selected_issue s = None
               \<or> \<not> (last_outcome s = Some Succeeded \<or> is_retryable (last_outcome s)
                     \<or> is_blocked (last_outcome s))
            then Inl (Message ''terminal retirement pause has incompatible recovery metadata'')
            else Inr None)
         else if reason = OWNERSHIP_RETIREMENT then
           (if resume_phase s \<noteq> None \<or> selected_issue s = None
            then Inl (Message ''ownership retirement pause has incompatible recovery metadata'')
            else Inr None)
         else if reason = RETRY_LIMIT_EXHAUSTED then
           (if resume_phase s \<noteq> None \<or> selected_issue s = None \<or> \<not> is_retryable (last_outcome s)
               \<or> retry_count s \<le> retry_limit s
            then Inl (Message ''exhausted retry pause has incompatible recovery metadata'')
            else Inr None)
         else case resume_phase s of
             None \<Rightarrow> Inl (Message ''paused conductor state requires resume phase'')
           | Some p \<Rightarrow>
               if is_terminal p \<or> is_boundary p \<or> p = Paused
               then Inl (Message ''paused conductor state has invalid resume phase'')
               else Inr (Some p))"

definition resumed_in :: "conductor_phase \<Rightarrow> conductor_state \<Rightarrow> conductor_state" where
  "resumed_in p s = s\<lparr>phase := p, pause_reason := None, resume_phase := None\<rparr>"

definition validate_unpaused_phase :: "conductor_state \<Rightarrow> conductor_error + unit" where
  "validate_unpaused_phase s = (case phase s of
       Scan \<Rightarrow> validate_unselected_state s
     | Review \<Rightarrow> validate_unselected_state s
     | Select \<Rightarrow> validate_unselected_state s
     | Claim \<Rightarrow> validate_selected_state s
     | Dispatch \<Rightarrow> validate_selected_state s
     | DispatchRecorded \<Rightarrow>
         and_then (validate_selected_state s) (\<lambda>_. validate_successful_dispatch s)
     | Retry \<Rightarrow> and_then (validate_selected_state s) (\<lambda>_. validate_retry_state s)
     | SliceComplete \<Rightarrow> Inl (Message ''terminal conductor phase reached nonterminal validation'')
     | AllDone \<Rightarrow> Inl (Message ''terminal conductor phase reached nonterminal validation'')
     | _ \<Rightarrow> validate_boundary_state s)"

lemma paused_recovery_Some: "paused_recovery s = Inr (Some p) \<Longrightarrow> p \<noteq> Paused \<and> \<not> is_terminal p
   \<and> \<not> is_boundary p \<and> resume_phase s = Some p"
  by (auto simp: paused_recovery_def split: option.splits if_splits)

function validate :: "conductor_state \<Rightarrow> conductor_error + unit" where
  "validate s =
     and_then (validate_identity_and_outcome s) (\<lambda>_.
       if is_terminal (phase s) then validate_terminal_state s
       else if terminal_reason s \<noteq> None
       then Inl (Message ''nonterminal conductor state cannot carry terminal reason'')
       else and_then
         (if phase s = Paused
          then (case paused_recovery s of
              Inl e \<Rightarrow> Inl e
            | Inr None \<Rightarrow> Inr ()
            | Inr (Some p) \<Rightarrow> validate (resumed_in p s))
          else validate_unpaused_phase s)
         (\<lambda>_. validate_nonterminal_pause_metadata s))"
  by pat_completeness auto

termination
  by (relation "measure (\<lambda>s. if phase s = Paused then 1 else 0)")
     (auto simp: resumed_in_def dest: paused_recovery_Some)

declare validate.simps [simp del]

section \<open>Transitions\<close>

definition new_conductor ::
  "ustr \<Rightarrow> conductor_scope \<Rightarrow> u32 \<Rightarrow> conductor_error + conductor_state" where
  "new_conductor r sc limit =
     (if blank r then Inl (Message ''conductor state.repo must not be empty'')
      else Inr \<lparr>repo = r, state_scope = sc, phase = Scan, selected_issue = None,
        serialization_reasons = [], retry_count = 0, retry_limit = limit, last_outcome = None,
        pause_reason = None, terminal_reason = None, resume_phase = None,
        blocked_backlog_cycles = 0, blocked_backlog_reason = None, blocked_backlog_issues = [],
        no_progress_cycles = 0, no_progress_reason = None\<rparr>)"

definition clear_selection :: "conductor_state \<Rightarrow> conductor_state" where
  "clear_selection s = s\<lparr>selected_issue := None, serialization_reasons := [],
     pause_reason := None, resume_phase := None\<rparr>"

definition clear_for_terminal :: "conductor_state \<Rightarrow> conductor_state" where
  "clear_for_terminal s = (clear_selection s)\<lparr>last_outcome := None\<rparr>"

definition record_empty_scan :: "conductor_state \<Rightarrow> conductor_state" where
  "record_empty_scan s = (clear_for_terminal s)\<lparr>
     phase := (case state_scope s of Repository \<Rightarrow> AllDone | Slice \<Rightarrow> SliceComplete),
     terminal_reason := Some (case state_scope s of
       Repository \<Rightarrow> lit ''repository_empty'' | Slice \<Rightarrow> lit ''slice_empty'')\<rparr>"

definition select_issue ::
  "u64 \<Rightarrow> ustr list \<Rightarrow> conductor_state \<Rightarrow> conductor_error + conductor_state" where
  "select_issue issue reasons s =
     (if issue = 0 then Inl (Message ''selected issue must be positive'')
      else Inr (s\<lparr>phase := Claim, selected_issue := Some issue, serialization_reasons := reasons,
        retry_count := 0, last_outcome := None\<rparr>))"

definition record_retryable_dispatch :: "conductor_state \<Rightarrow> conductor_error + conductor_state" where
  "record_retryable_dispatch s =
     (case checked_add (retry_count s) 1 of
        None \<Rightarrow> Inl (Message ''conductor retry count overflowed'')
      | Some n \<Rightarrow>
          if retry_limit s < n
          then Inr (s\<lparr>retry_count := n, pause_reason := Some RETRY_LIMIT_EXHAUSTED,
                 resume_phase := None, phase := Paused\<rparr>)
          else Inr (s\<lparr>retry_count := n, phase := Retry\<rparr>))"

definition record_blocked_dispatch :: "ustr \<Rightarrow> conductor_state \<Rightarrow> conductor_state" where
  "record_blocked_dispatch reason s =
     s\<lparr>pause_reason := Some reason, resume_phase := Some Claim, phase := Paused\<rparr>"

definition record_dispatch ::
  "conductor_outcome \<Rightarrow> conductor_state \<Rightarrow> conductor_error + conductor_state" where
  "record_dispatch out s =
     and_then (validate_outcome out) (\<lambda>_.
       let s = s\<lparr>last_outcome := Some out\<rparr> in
       case out of
         Succeeded \<Rightarrow> Inr (s\<lparr>phase := DispatchRecorded\<rparr>)
       | Retryable _ \<Rightarrow> record_retryable_dispatch s
       | Blocked reason \<Rightarrow> Inr (record_blocked_dispatch reason s)
       | AllBlocked reason _ \<Rightarrow> Inr (record_blocked_dispatch reason s)
       | VerifierUnavailable reason \<Rightarrow> Inr (record_blocked_dispatch reason s)
       | ResourcePark reason \<Rightarrow> Inr (record_blocked_dispatch reason s)
       | OperatorStop reason \<Rightarrow> Inr (record_blocked_dispatch reason s))"

definition can_abandon_exhausted :: "conductor_state \<Rightarrow> bool" where
  "can_abandon_exhausted s \<longleftrightarrow> phase s = Paused \<and> pause_reason s = Some RETRY_LIMIT_EXHAUSTED"

definition can_abandon_terminal :: "conductor_state \<Rightarrow> bool" where
  "can_abandon_terminal s \<longleftrightarrow> phase s = Paused
     \<and> (pause_reason s = Some TERMINAL_RETIREMENT \<or> pause_reason s = Some RETRY_LIMIT_EXHAUSTED
        \<or> is_blocked (last_outcome s))"

definition begin_terminal_retirement ::
  "conductor_outcome \<Rightarrow> conductor_state \<Rightarrow> conductor_error + conductor_state" where
  "begin_terminal_retirement out s =
     and_then
       (if phase s = Dispatch then record_dispatch out s
        else if phase s \<noteq> DispatchRecorded \<or> last_outcome s \<noteq> Some out
        then Inl (Message ''terminal retirement does not match the recorded dispatch outcome'')
        else Inr s)
       (\<lambda>s. if phase s = Retry then Inr s
        else if phase s \<noteq> DispatchRecorded \<and> \<not> can_abandon_terminal s
        then Inl (Message ''finalized dispatch did not reach a terminal conductor state'')
        else Inr (s\<lparr>phase := Paused, pause_reason := Some TERMINAL_RETIREMENT,
               resume_phase := None\<rparr>))"

definition begin_ownership_retirement :: "conductor_state \<Rightarrow> conductor_state" where
  "begin_ownership_retirement s =
     s\<lparr>phase := Paused, pause_reason := Some OWNERSHIP_RETIREMENT, resume_phase := None\<rparr>"

definition reconcile_success :: "conductor_state \<Rightarrow> conductor_error + conductor_state" where
  "reconcile_success s =
     (if last_outcome s \<noteq> Some Succeeded
      then Inl (Message ''only a recorded successful outcome can reconcile'')
      else Inr ((clear_selection s)\<lparr>phase := Scan\<rparr>))"

definition pause :: "ustr \<Rightarrow> conductor_state \<Rightarrow> conductor_error + conductor_state" where
  "pause reason s =
     (if blank reason then Inl (Message ''pause reason must not be empty'')
      else if reason = RETRY_LIMIT_EXHAUSTED
      then Inl (Message ''retry exhaustion is recorded only from a dispatch outcome'')
      else Inr (s\<lparr>resume_phase := Some (phase s), pause_reason := Some reason, phase := Paused\<rparr>))"

definition resume :: "conductor_state \<Rightarrow> conductor_error + conductor_state" where
  "resume s = (case resume_phase s of
       None \<Rightarrow> Inl (Message ''paused conductor state requires explicit recovery'')
     | Some p \<Rightarrow> Inr (s\<lparr>resume_phase := None, phase := p, pause_reason := None\<rparr>))"

definition abandon_exhausted :: "conductor_state \<Rightarrow> conductor_state" where
  "abandon_exhausted s = (clear_selection s)\<lparr>phase := Scan\<rparr>"

definition guarded ::
  "conductor_event \<Rightarrow> bool \<Rightarrow> conductor_error + conductor_state \<Rightarrow> conductor_error + conductor_state" where
  "guarded e g r = (if g then r else Inl (InvalidEvent e))"

fun apply_event :: "conductor_state \<Rightarrow> conductor_event \<Rightarrow> conductor_error + conductor_state" where
  "apply_event s ScanFoundWork =
     guarded ScanFoundWork (phase s = Scan) (Inr (s\<lparr>phase := Review\<rparr>))"
| "apply_event s ScanEmpty = guarded ScanEmpty (phase s = Scan) (Inr (record_empty_scan s))"
| "apply_event s SafetyReviewed =
     guarded SafetyReviewed (phase s = Review) (Inr (s\<lparr>phase := Select\<rparr>))"
| "apply_event s SafetySkipped =
     guarded SafetySkipped (phase s = Review) (Inr (s\<lparr>phase := Scan\<rparr>))"
| "apply_event s (Selected issue reasons) =
     guarded (Selected issue reasons) (phase s = Select) (select_issue issue reasons s)"
| "apply_event s Claimed = guarded Claimed (phase s = Claim) (Inr (s\<lparr>phase := Dispatch\<rparr>))"
| "apply_event s (RecordDispatch out) =
     guarded (RecordDispatch out) (phase s = Dispatch) (record_dispatch out s)"
| "apply_event s (BeginTerminalRetirement out) =
     guarded (BeginTerminalRetirement out) (phase s \<in> {Dispatch, DispatchRecorded})
       (begin_terminal_retirement out s)"
| "apply_event s BeginOwnershipRetirement =
     guarded BeginOwnershipRetirement (phase s \<in> {Dispatch, DispatchRecorded})
       (Inr (begin_ownership_retirement s))"
| "apply_event s Reconciled = guarded Reconciled (phase s = DispatchRecorded) (reconcile_success s)"
| "apply_event s RetryScheduled =
     guarded RetryScheduled (phase s = Retry) (Inr (s\<lparr>phase := Claim\<rparr>))"
| "apply_event s (Pause reason) =
     guarded (Pause reason) (\<not> is_terminal (phase s) \<and> phase s \<noteq> Paused) (pause reason s)"
| "apply_event s Resume = guarded Resume (phase s = Paused) (resume s)"
| "apply_event s RetireObsoleteSelection =
     guarded RetireObsoleteSelection (phase s = Paused \<and> selected_issue s \<noteq> None)
       (Inr (abandon_exhausted s))"
| "apply_event s AbandonExhausted =
     guarded AbandonExhausted (can_abandon_exhausted s) (Inr (abandon_exhausted s))"
| "apply_event s AbandonTerminal =
     guarded AbandonTerminal (can_abandon_terminal s) (Inr (abandon_exhausted s))"
| "apply_event s AbandonOwnership =
     guarded AbandonOwnership (phase s = Dispatch
         \<or> (phase s = Paused \<and> pause_reason s = Some OWNERSHIP_RETIREMENT))
       (Inr (abandon_exhausted s))"

definition checked :: "conductor_error + conductor_state \<Rightarrow> conductor_error + conductor_state" where
  "checked r = and_then r (\<lambda>s. and_then (validate s) (\<lambda>_. Inr s))"

definition transition :: "conductor_state \<Rightarrow> conductor_event \<Rightarrow> conductor_error + conductor_state" where
  "transition s e = checked (apply_event s e)"

section \<open>Governors\<close>

definition record_no_progress_cycle ::
  "ustr \<Rightarrow> conductor_state \<Rightarrow> conductor_error + conductor_state" where
  "record_no_progress_cycle reason s =
     (if \<not> no_progress_text_ok reason
      then Inl (Message ''no-progress reason must contain 1..=256 characters'')
      else checked (Inr (s\<lparr>no_progress_cycles :=
             (if no_progress_reason s = Some reason then saturating_add (no_progress_cycles s) 1 else 1),
           no_progress_reason := Some reason\<rparr>)))"

definition clear_no_progress_diagnostic :: "conductor_state \<Rightarrow> conductor_error + conductor_state" where
  "clear_no_progress_diagnostic s =
     checked (Inr (s\<lparr>no_progress_cycles := 0, no_progress_reason := None\<rparr>))"

definition record_blocked_backlog_cycle ::
  "ustr \<Rightarrow> u64 list \<Rightarrow> conductor_state \<Rightarrow> conductor_error + conductor_state" where
  "record_blocked_backlog_cycle reason issues s =
     (if blank reason \<or> 0 \<in> set issues
      then Inl (Message ''blocked backlog requires a non-empty reason and positive issue ids'')
      else
        let issues = remdups_adj (sort issues);
            same = (blocked_backlog_reason s = Some reason \<and> blocked_backlog_issues s = issues);
            s = (if \<not> same \<and> phase s = AllBlockedPhase then s\<lparr>phase := Scan, last_outcome := None\<rparr> else s);
            s = s\<lparr>blocked_backlog_cycles :=
                    (if same then saturating_add (blocked_backlog_cycles s) 1 else 1),
                  blocked_backlog_reason := Some reason, blocked_backlog_issues := issues\<rparr>;
            s = (if BLOCKED_BACKLOG_THRESHOLD \<le> blocked_backlog_cycles s
                 then (clear_selection s)\<lparr>phase := AllBlockedPhase,
                        last_outcome := Some (AllBlocked reason issues)\<rparr>
                 else s)
        in checked (Inr s))"

definition clear_blocked_backlog_governor :: "conductor_state \<Rightarrow> conductor_error + conductor_state" where
  "clear_blocked_backlog_governor s =
     (let s = s\<lparr>blocked_backlog_cycles := 0, blocked_backlog_reason := None, blocked_backlog_issues := []\<rparr>;
          s = (if phase s = AllBlockedPhase then s\<lparr>phase := Scan, last_outcome := None\<rparr> else s)
      in checked (Inr s))"

section \<open>Normalised state lines\<close>

fun phase_name :: "conductor_phase \<Rightarrow> string" where
  "phase_name Scan = ''scan''"
| "phase_name Review = ''review''"
| "phase_name Select = ''select''"
| "phase_name Claim = ''claim''"
| "phase_name Dispatch = ''dispatch''"
| "phase_name DispatchRecorded = ''dispatch-recorded''"
| "phase_name Retry = ''retry''"
| "phase_name Paused = ''paused''"
| "phase_name SliceComplete = ''slice-complete''"
| "phase_name AllDone = ''all-done''"
| "phase_name TierDry = ''tier-dry''"
| "phase_name AllBlockedPhase = ''all-blocked''"
| "phase_name VerifierUnavailablePhase = ''verifier-unavailable''"
| "phase_name IdleRescan = ''idle-rescan''"
| "phase_name ResourceParkPhase = ''resource-park''"
| "phase_name OperatorStopPhase = ''operator-stop''"

fun outcome_reason :: "conductor_outcome \<Rightarrow> ustr option" where
  "outcome_reason Succeeded = None"
| "outcome_reason (Retryable reason) = Some reason"
| "outcome_reason (Blocked reason) = Some reason"
| "outcome_reason (AllBlocked reason _) = Some reason"
| "outcome_reason (VerifierUnavailable reason) = Some reason"
| "outcome_reason (ResourcePark reason) = Some reason"
| "outcome_reason (OperatorStop reason) = Some reason"

definition affected_issues :: "conductor_outcome \<Rightarrow> u64 list" where
  "affected_issues out = (case out of AllBlocked _ issues \<Rightarrow> issues | _ \<Rightarrow> [])"

fun recommended_next_step :: "conductor_outcome \<Rightarrow> string" where
  "recommended_next_step Succeeded = ''scan for the next issue''"
| "recommended_next_step (Retryable _) = ''retry the selected issue''"
| "recommended_next_step (Blocked _) = ''resume or unblock the selected issue''"
| "recommended_next_step (AllBlocked _ _) = ''promote or unblock affected issues''"
| "recommended_next_step (VerifierUnavailable _) = ''retry verifier or park without mutation''"
| "recommended_next_step (ResourcePark _) = ''wait for resource budget or operator resume''"
| "recommended_next_step (OperatorStop _) = ''wait for operator resume''"

fun recommended_next_step_for_phase :: "conductor_phase \<Rightarrow> string" where
  "recommended_next_step_for_phase Scan = ''scan for ready issues''"
| "recommended_next_step_for_phase Review = ''review safety for the ready queue''"
| "recommended_next_step_for_phase Select = ''select the next ready issue''"
| "recommended_next_step_for_phase Claim = ''claim the selected issue''"
| "recommended_next_step_for_phase Dispatch = ''dispatch the selected issue''"
| "recommended_next_step_for_phase DispatchRecorded = ''reconcile the executor result''"
| "recommended_next_step_for_phase Retry = ''schedule a retry''"
| "recommended_next_step_for_phase Paused = ''wait for resume''"
| "recommended_next_step_for_phase SliceComplete = ''no next step''"
| "recommended_next_step_for_phase AllDone = ''no next step''"
| "recommended_next_step_for_phase TierDry = ''advance waterfall to the next tier''"
| "recommended_next_step_for_phase AllBlockedPhase = ''promote or unblock affected issues''"
| "recommended_next_step_for_phase VerifierUnavailablePhase =
     ''retry verifier or park without mutation''"
| "recommended_next_step_for_phase IdleRescan = ''sleep until the next rescan interval''"
| "recommended_next_step_for_phase ResourceParkPhase =
     ''wait for resource budget or operator resume''"
| "recommended_next_step_for_phase OperatorStopPhase = ''wait for operator resume''"

definition current_normalized_outcome :: "conductor_state \<Rightarrow> conductor_outcome option" where
  "current_normalized_outcome s =
     (if phase s = Scan \<and> no_progress_reason s \<noteq> None then None else last_outcome s)"

definition normalized_state :: "conductor_state \<Rightarrow> string" where
  "normalized_state s = (case current_normalized_outcome s of
       Some out \<Rightarrow> outcome_name out | None \<Rightarrow> phase_name (phase s))"

definition affected_issues_for_state :: "conductor_state \<Rightarrow> conductor_outcome option \<Rightarrow> u64 list" where
  "affected_issues_for_state s out =
     (let issues = (case out of Some out \<Rightarrow> affected_issues out | None \<Rightarrow> []) in
      if issues \<noteq> [] then issues
      else (case selected_issue s of Some issue \<Rightarrow> [issue] | None \<Rightarrow> []))"

definition mutation_allowed_for_state :: "conductor_state \<Rightarrow> conductor_outcome option \<Rightarrow> bool" where
  "mutation_allowed_for_state s out =
     (if (case out of Some (AllBlocked _ _) \<Rightarrow> True | Some (VerifierUnavailable _) \<Rightarrow> True
          | Some (ResourcePark _) \<Rightarrow> True | Some (OperatorStop _) \<Rightarrow> True | _ \<Rightarrow> False)
      then False
      else phase s \<in> {Claim, Dispatch, DispatchRecorded})"

definition issue_list :: "u64 list \<Rightarrow> ustr" where
  "issue_list issues = (if issues = [] then lit ''none''
     else join (lit '','') (map (\<lambda>i. lit ''#'' @ show_u64 i) issues))"

record state_line =
  line_cycle :: u64
  line_state :: string
  line_tier :: string
  line_action :: string
  line_reason :: ustr
  line_issues :: "u64 list"
  line_mutation_allowed :: bool
  line_next :: string

definition normalized_state_line :: "state_line \<Rightarrow> ustr" where
  "normalized_state_line l =
     lit ''cycle '' @ show_u64 (line_cycle l) @ lit '': '' @ lit (line_state l)
     @ lit ''; tier='' @ lit (line_tier l) @ lit ''; action='' @ lit (line_action l)
     @ lit ''; reason='' @ line_reason l @ lit ''; affected issues='' @ issue_list (line_issues l)
     @ lit ''; mutation_allowed='' @ lit (if line_mutation_allowed l then ''true'' else ''false'')
     @ lit ''; next='' @ lit (line_next l)"

definition or_else :: "'a option \<Rightarrow> 'a option \<Rightarrow> 'a option" where
  "or_else a b = (case a of Some x \<Rightarrow> Some x | None \<Rightarrow> b)"

definition cycle_line :: "u64 \<Rightarrow> conductor_state \<Rightarrow> state_line" where
  "cycle_line cycle s =
     (let out = current_normalized_outcome s;
          first = (if out = None \<and> phase s = Scan then no_progress_reason s else None);
          reason = or_else first (or_else (Option.bind out outcome_reason)
             (or_else (pause_reason s) (terminal_reason s)))
      in \<lparr>line_cycle = cycle, line_state = normalized_state s, line_tier = ''none'',
          line_action = phase_name (phase s),
          line_reason = (case reason of Some r \<Rightarrow> r | None \<Rightarrow> lit ''none''),
          line_issues = affected_issues_for_state s out,
          line_mutation_allowed = mutation_allowed_for_state s out,
          line_next = (case out of Some out \<Rightarrow> recommended_next_step out
             | None \<Rightarrow> recommended_next_step_for_phase (phase s))\<rparr>)"

definition normalized_state_for_cycle :: "u64 \<Rightarrow> conductor_state \<Rightarrow> ustr" where
  "normalized_state_for_cycle cycle s = normalized_state_line (cycle_line cycle s)"

end
