(* ===== verification/Conductor_Safety.thy ===== *)
theory Conductor_Safety
  imports Conductor
begin

text \<open>
  What the conductor guarantees: the state kept between events is always valid, a selection is
  retried at most \<open>retry_limit + 1\<close> times, pause and resume are inverse, terminal states are
  final, and the blocked-backlog governor seals after exactly five identical cycles.
\<close>

section \<open>Elimination of the transition function\<close>

lemma guarded_Inr [simp]: "guarded e g r = Inr t \<longleftrightarrow> g \<and> r = Inr t"
  by (simp add: guarded_def)

lemma checked_Inr [simp]: "checked r = Inr t \<longleftrightarrow> r = Inr t \<and> validate t = Inr ()"
  by (auto simp: checked_def result_simps)

lemma transition_Inr: "transition s e = Inr t \<longleftrightarrow> apply_event s e = Inr t \<and> validate t = Inr ()"
  by (simp add: transition_def)

lemma record_retryable_Inr:
  "record_retryable_dispatch s = Inr t \<longleftrightarrow>
     (\<exists>n. checked_add (retry_count s) 1 = Some n
        \<and> (retry_limit s < n
             \<and> t = s\<lparr>retry_count := n, pause_reason := Some RETRY_LIMIT_EXHAUSTED,
                      resume_phase := None, phase := Paused\<rparr>
           \<or> n \<le> retry_limit s \<and> t = s\<lparr>retry_count := n, phase := Retry\<rparr>))"
  by (auto simp: record_retryable_dispatch_def not_less split: option.splits)

lemmas transition_steps = select_issue_def record_dispatch_def record_retryable_Inr
  record_blocked_dispatch_def begin_terminal_retirement_def begin_ownership_retirement_def
  reconcile_success_def pause_def resume_def abandon_exhausted_def clear_selection_def
  clear_for_terminal_def record_empty_scan_def Let_def

section \<open>Validity\<close>

definition identity_ok :: "conductor_state \<Rightarrow> bool" where
  "identity_ok s \<longleftrightarrow> validate_identity_and_outcome s = Inr ()"

lemma identity_ok_iff:
  "identity_ok s \<longleftrightarrow> \<not> blank (repo s) \<and> selected_issue s \<noteq> Some 0
     \<and> (case last_outcome s of None \<Rightarrow> True | Some out \<Rightarrow> validate_outcome out = Inr ())
     \<and> (blocked_backlog_cycles s = 0 \<longrightarrow> blocked_backlog_reason s = None \<and> blocked_backlog_issues s = [])
     \<and> 0 \<notin> set (blocked_backlog_issues s) \<and> \<not> out_of_order (blocked_backlog_issues s)
     \<and> (phase s \<noteq> AllBlockedPhase \<longrightarrow> blocked_backlog_cycles s < BLOCKED_BACKLOG_THRESHOLD)
     \<and> (case no_progress_reason s of None \<Rightarrow> no_progress_cycles s = 0
        | Some r \<Rightarrow> no_progress_cycles s \<noteq> 0 \<and> no_progress_text_ok r)"
  by (auto simp: identity_ok_def validate_identity_and_outcome_def result_simps not_le
      split: option.splits)

lemma validate_terminal:
  "is_terminal (phase s) \<Longrightarrow> validate s = Inr () \<longleftrightarrow> identity_ok s \<and> validate_terminal_state s = Inr ()"
  by (subst validate.simps) (auto simp: identity_ok_def result_simps)

lemma validate_unpaused:
  "\<not> is_terminal (phase s) \<Longrightarrow> phase s \<noteq> Paused \<Longrightarrow> validate s = Inr () \<longleftrightarrow>
     identity_ok s \<and> terminal_reason s = None \<and> validate_unpaused_phase s = Inr ()
     \<and> pause_reason s = None \<and> resume_phase s = None"
  by (subst validate.simps)
     (auto simp: identity_ok_def result_simps validate_nonterminal_pause_metadata_def)

lemma validate_paused:
  "phase s = Paused \<Longrightarrow> validate s = Inr () \<longleftrightarrow>
     identity_ok s \<and> terminal_reason s = None
     \<and> (\<exists>r. paused_recovery s = Inr r
          \<and> (case r of None \<Rightarrow> True | Some p \<Rightarrow> validate (resumed_in p s) = Inr ()))"
  by (subst validate.simps)
     (auto simp: identity_ok_def result_simps validate_nonterminal_pause_metadata_def is_terminal_def
       split: sum.splits option.splits)

lemma validate_identity: "validate s = Inr () \<Longrightarrow> identity_ok s"
  by (subst (asm) validate.simps) (auto simp: identity_ok_def result_simps)

lemma validate_pause_fields:
  "validate s = Inr () \<Longrightarrow> phase s \<noteq> Paused \<Longrightarrow> pause_reason s = None \<and> resume_phase s = None"
  by (cases "is_terminal (phase s)")
     (auto simp: validate_terminal validate_unpaused validate_terminal_state_def result_simps)

section \<open>The retry budget\<close>

text \<open>The phase the conductor works in: where it would resume to, when it is paused.\<close>

definition home :: "conductor_state \<Rightarrow> conductor_phase" where
  "home s = (case resume_phase s of Some p \<Rightarrow> p | None \<Rightarrow> phase s)"

definition active :: "conductor_phase \<Rightarrow> bool" where
  "active p \<longleftrightarrow> p \<in> {Claim, Dispatch, DispatchRecorded, Retry}"

definition sound :: "conductor_state \<Rightarrow> bool" where
  "sound s \<longleftrightarrow> validate s = Inr () \<and> (active (home s) \<longrightarrow> retry_count s \<le> retry_limit s)"

lemma home_unpaused: "validate s = Inr () \<Longrightarrow> phase s \<noteq> Paused \<Longrightarrow> home s = phase s"
  by (simp add: home_def validate_pause_fields)

lemma new_conductor_sound: "new_conductor r sc limit = Inr s \<Longrightarrow> sound s"
  by (auto simp: new_conductor_def sound_def home_def active_def validate_unpaused is_terminal_def
      identity_ok_iff validate_unpaused_phase_def validate_unselected_state_def
      BLOCKED_BACKLOG_THRESHOLD_def split: if_splits)

definition within :: "conductor_state \<Rightarrow> bool" where
  "within s \<longleftrightarrow> (active (home s) \<longrightarrow> retry_count s \<le> retry_limit s)"

lemma record_dispatch_within:
  assumes "record_dispatch out s = Inr t" "retry_count s \<le> retry_limit s" "resume_phase s = None"
  shows "within t"
  using assms
  by (cases out) (auto simp: record_dispatch_def Let_def result_simps record_blocked_dispatch_def
      record_retryable_Inr within_def home_def active_def not_less split: if_splits)

lemma begin_terminal_within:
  assumes "begin_terminal_retirement out s = Inr t" "retry_count s \<le> retry_limit s"
    and "resume_phase s = None"
  shows "within t"
proof -
  obtain u where u: "(if phase s = Dispatch then record_dispatch out s else Inr s) = Inr u"
    and t: "t = u \<or> t = u\<lparr>phase := Paused, pause_reason := Some TERMINAL_RETIREMENT, resume_phase := None\<rparr>"
    using assms(1) by (auto simp: begin_terminal_retirement_def result_simps split: if_splits)
  have "within u"
    using u assms(2,3) by (auto simp: within_def split: if_splits dest: record_dispatch_within)
  with t show ?thesis by (auto simp: within_def home_def active_def)
qed

lemma apply_event_within:
  assumes "sound s" and ev: "apply_event s e = Inr t"
  shows "within t"
proof -
  have w: "active (home s) \<Longrightarrow> retry_count s \<le> retry_limit s"
    and un: "phase s \<noteq> Paused \<Longrightarrow> resume_phase s = None" "phase s \<noteq> Paused \<Longrightarrow> home s = phase s"
    using assms(1) by (auto simp: sound_def home_def dest: validate_pause_fields)
  show ?thesis
  proof (cases e)
    case (RecordDispatch out)
    with ev w un show ?thesis
      by (auto simp: active_def intro: record_dispatch_within)
  next
    case (BeginTerminalRetirement out)
    with ev w un show ?thesis
      by (auto simp: active_def intro: begin_terminal_within)
  next
    case (Pause reason)
    with ev w un show ?thesis
      by (auto simp: pause_def within_def home_def split: if_splits)
  next
    case Resume
    with ev w show ?thesis
      by (auto simp: resume_def within_def home_def split: option.splits)
  qed (use ev w un in \<open>auto simp: within_def home_def active_def transition_steps
      split: if_splits conductor_scope.splits\<close>)
qed

interpretation conductor: guarded_machine transition sound
  by unfold_locales (metis transition_Inr sound_def within_def apply_event_within)

fun retry_cost :: "conductor_event \<Rightarrow> nat" where
  "retry_cost (RecordDispatch (Retryable _)) = 1"
| "retry_cost (BeginTerminalRetirement (Retryable _)) = 1"
| "retry_cost _ = 0"

fun is_selection :: "conductor_event \<Rightarrow> bool" where
  "is_selection (Selected _ _) = True"
| "is_selection _ = False"

definition retry_credit :: "conductor_state \<Rightarrow> nat" where
  "retry_credit s = Suc (unat (retry_limit s)) - unat (retry_count s)"

lemma record_dispatch_count:
  "record_dispatch out s = Inr t \<Longrightarrow> retry_limit t = retry_limit s
     \<and> unat (retry_count t) = unat (retry_count s) + retry_cost (RecordDispatch out)"
  by (cases out) (auto simp: record_dispatch_def Let_def result_simps record_blocked_dispatch_def
      record_retryable_Inr dest: checked_add_Some)

lemma dispatch_recorded_succeeded:
  "validate s = Inr () \<Longrightarrow> phase s = DispatchRecorded \<Longrightarrow> last_outcome s = Some Succeeded"
  by (simp add: validate_unpaused is_terminal_def validate_unpaused_phase_def result_simps
      validate_successful_dispatch_def)

lemma begin_terminal_count:
  assumes "begin_terminal_retirement out s = Inr t" "validate s = Inr ()"
  shows "retry_limit t = retry_limit s
    \<and> unat (retry_count t) = unat (retry_count s) + retry_cost (BeginTerminalRetirement out)"
proof (cases "phase s = Dispatch")
  case True
  with assms(1) obtain u where "record_dispatch out s = Inr u"
    "retry_limit t = retry_limit u" "retry_count t = retry_count u"
    by (auto simp: begin_terminal_retirement_def result_simps split: if_splits)
  moreover have "retry_cost (BeginTerminalRetirement out) = retry_cost (RecordDispatch out)"
    by (cases out) auto
  ultimately show ?thesis using record_dispatch_count by simp
next
  case False
  with assms have "out = Succeeded" "retry_limit t = retry_limit s" "retry_count t = retry_count s"
    using dispatch_recorded_succeeded [of s]
    by (auto simp: begin_terminal_retirement_def result_simps split: if_splits)
  then show ?thesis by simp
qed

lemma apply_event_count:
  assumes "apply_event s e = Inr t" "validate s = Inr ()" "\<not> is_selection e"
  shows "retry_limit t = retry_limit s \<and> unat (retry_count t) = unat (retry_count s) + retry_cost e"
proof (cases e)
  case (RecordDispatch out)
  with assms show ?thesis by (auto dest: record_dispatch_count)
next
  case (BeginTerminalRetirement out)
  with assms show ?thesis by (auto dest: begin_terminal_count)
next
  case (Pause reason)
  with assms show ?thesis by (auto simp: pause_def split: if_splits)
next
  case Resume
  with assms show ?thesis by (auto simp: resume_def split: option.splits)
qed (use assms in \<open>auto simp: transition_steps split: if_splits\<close>)

lemma retry_cost_phase:
  "apply_event s e = Inr t \<Longrightarrow> validate s = Inr () \<Longrightarrow> 0 < retry_cost e \<Longrightarrow> phase s = Dispatch"
  by (cases e rule: retry_cost.cases)
     (auto simp: begin_terminal_retirement_def result_simps split: if_splits
       dest: dispatch_recorded_succeeded)

interpretation retries: budgeted_machine transition sound "\<lambda>e. \<not> is_selection e" retry_cost retry_credit
proof
  fix s e t
  assume s: "sound s" and e: "\<not> is_selection e" and tr: "transition s e = Inr t"
  then have ev: "apply_event s e = Inr t" and v: "validate s = Inr ()"
    by (simp_all add: transition_Inr sound_def)
  have "unat (retry_count s) \<le> unat (retry_limit s)" if "0 < retry_cost e"
    using retry_cost_phase [OF ev v that] s v home_unpaused [of s]
    by (simp add: sound_def active_def word_le_nat_alt)
  moreover have "retry_cost e \<le> 1" by (cases e rule: retry_cost.cases) auto
  ultimately show "retry_cost e + retry_credit t \<le> retry_credit s"
    using apply_event_count [OF ev v e] by (cases "retry_cost e = 0") (auto simp: retry_credit_def)
qed

lemma select_issue_credit:
  "transition s (Selected issue reasons) = Inr t \<Longrightarrow> retry_credit t = Suc (unat (retry_limit s))"
  by (auto simp: transition_Inr select_issue_def retry_credit_def split: if_splits)

lemma is_selection_iff: "is_selection e \<longleftrightarrow> (\<exists>issue reasons. e = Selected issue reasons)"
  by (cases e) auto

lemma transition_limit:
  assumes "sound s" "transition s e = Inr t"
  shows "retry_limit t = retry_limit s"
proof (cases "is_selection e")
  case True
  with assms show ?thesis
    by (auto simp: is_selection_iff transition_Inr select_issue_def split: if_splits)
next
  case False
  with assms show ?thesis
    using apply_event_count by (auto simp: transition_Inr sound_def)
qed

lemma run_limit: "sound s \<Longrightarrow> run_all transition s es = Inr t \<Longrightarrow> retry_limit t = retry_limit s"
proof (induction es arbitrary: s)
  case (Cons e es)
  then obtain u where "transition s e = Inr u" "run_all transition u es = Inr t"
    by (auto simp: result_simps)
  with Cons show ?case using conductor.step_good transition_limit by metis
qed simp

text \<open>C1: the retry budget of one selection. However the events after a selection interleave
  (pauses, resumes, retirements, new scans), as long as no new selection is made at most
  \<open>retry_limit + 1\<close> retryable dispatch outcomes are accepted: the last of them exhausts the
  selection.\<close>

theorem retries_per_selection:
  assumes "new_conductor r sc limit = Inr s"
    and "run_all transition s (before @ Selected issue reasons # after) = Inr t"
    and "list_all (\<lambda>e. \<not> is_selection e) after"
  shows "sum_list (map retry_cost after) \<le> unat limit + 1"
proof -
  from assms(2) obtain u v where run: "run_all transition s before = Inr u"
      "transition u (Selected issue reasons) = Inr v" "run_all transition v after = Inr t"
    by (auto simp: run_all_append result_simps)
  have s: "sound s" "retry_limit s = limit"
    using assms(1) new_conductor_sound by (auto simp: new_conductor_def split: if_splits)
  have u: "sound u" "retry_limit u = limit"
    using run(1) s conductor.run_good run_limit by auto
  have "sound v" using u(1) run(2) by (rule conductor.step_good)
  from retries.run_budget [OF this assms(3) run(3)] show ?thesis
    using select_issue_credit [OF run(2)] u by simp
qed

text \<open>A history for the witnesses: select issue 7 and dispatch it twice.\<close>

definition sample_conductor :: "u32 \<Rightarrow> conductor_state" where
  "sample_conductor limit = \<lparr>repo = [97], state_scope = Slice, phase = Scan, selected_issue = None,
     serialization_reasons = [], retry_count = 0, retry_limit = limit, last_outcome = None,
     pause_reason = None, terminal_reason = None, resume_phase = None,
     blocked_backlog_cycles = 0, blocked_backlog_reason = None, blocked_backlog_issues = [],
     no_progress_cycles = 0, no_progress_reason = None\<rparr>"

lemma sample_conductor_new: "new_conductor [97] Slice limit = Inr (sample_conductor limit)"
  by (simp add: new_conductor_def sample_conductor_def blank_iff is_whitespace_def)

lemma sample_conductor_valid: "sound (sample_conductor limit)"
  using sample_conductor_new new_conductor_sound by blast

lemmas validate_eval = validate_unpaused validate_paused validate_terminal is_terminal_def
  is_boundary_def identity_ok_iff validate_unpaused_phase_def validate_unselected_state_def
  validate_selected_state_def validate_successful_dispatch_def validate_retry_state_def
  BLOCKED_BACKLOG_THRESHOLD_def is_retryable_def is_blocked_def paused_recovery_def resumed_in_def

lemmas conductor_eval = sample_conductor_def transition_Inr result_simps validate_eval
  blank_iff is_whitespace_def transition_steps checked_add_def

theorem retries_per_selection_witness:
  "sum_list (map retry_cost [Claimed, RecordDispatch (Retryable [97])]) \<le> unat (0 :: u32) + 1"
proof -
  have "\<exists>t. run_all transition (sample_conductor 0) ([ScanFoundWork, SafetyReviewed] @ Selected 7 []
      # [Claimed, RecordDispatch (Retryable [97])]) = Inr t"
    by (simp add: conductor_eval RETRY_LIMIT_EXHAUSTED_def TERMINAL_RETIREMENT_def
       OWNERSHIP_RETIREMENT_def)
  then obtain t where t: "run_all transition (sample_conductor 0) ([ScanFoundWork, SafetyReviewed]
      @ Selected 7 [] # [Claimed, RecordDispatch (Retryable [97])]) = Inr t"
    by blast
  show ?thesis by (rule retries_per_selection [OF sample_conductor_new t]) simp
qed

section \<open>Completion\<close>

lemma terminal_refuses: "is_terminal (phase s) \<Longrightarrow> transition s e = Inl (InvalidEvent e)"
  by (cases e) (auto simp: transition_def checked_def guarded_def is_terminal_def
      can_abandon_exhausted_def can_abandon_terminal_def)

lemma record_dispatch_phase:
  "record_dispatch out s = Inr t \<Longrightarrow> phase t \<in> {DispatchRecorded, Retry, Paused}"
  by (cases out) (auto simp: record_dispatch_def Let_def result_simps record_blocked_dispatch_def
      record_retryable_Inr)

lemma begin_terminal_phase:
  assumes "begin_terminal_retirement out s = Inr t"
  shows "phase t \<in> {Retry, Paused}"
proof -
  obtain u where "t = u \<and> phase u = Retry
      \<or> t = u\<lparr>phase := Paused, pause_reason := Some TERMINAL_RETIREMENT, resume_phase := None\<rparr>"
    using assms by (auto simp: begin_terminal_retirement_def result_simps split: if_splits)
  then show ?thesis by auto
qed

lemma resume_phase_working:
  assumes "validate s = Inr ()" "phase s = Paused" "resume_phase s = Some p"
  shows "\<not> is_terminal p \<and> \<not> is_boundary p \<and> p \<noteq> Paused
    \<and> validate (resumed_in p s) = Inr ()"
  using assms by (auto simp: validate_paused paused_recovery_def split: option.splits if_splits)

lemma terminal_event:
  assumes "apply_event s e = Inr t" "validate s = Inr ()"
  shows "is_terminal (phase t) \<longleftrightarrow> e = ScanEmpty"
proof (cases e)
  case (RecordDispatch out)
  with assms(1) show ?thesis by (auto simp: is_terminal_def dest: record_dispatch_phase)
next
  case (BeginTerminalRetirement out)
  with assms(1) show ?thesis by (auto simp: is_terminal_def dest: begin_terminal_phase)
next
  case (Pause reason)
  with assms(1) show ?thesis by (auto simp: is_terminal_def pause_def split: if_splits)
next
  case Resume
  with assms show ?thesis
    using resume_phase_working by (auto simp: resume_def split: option.splits)
qed (use assms in \<open>auto simp: transition_steps is_terminal_def split: if_splits conductor_scope.splits\<close>)

text \<open>The conductor completes only from an empty scan, and completion is final. An accepted event
  leads to a terminal phase exactly when it is \<open>ScanEmpty\<close>; the state reached carries no
  selection and no pause, and refuses every further event.\<close>

theorem completion_is_final:
  assumes "sound s" and "transition s e = Inr t"
  shows "(is_terminal (phase t) \<longleftrightarrow> e = ScanEmpty)
    \<and> (e = ScanEmpty \<longrightarrow> selected_issue t = None \<and> pause_reason t = None
         \<and> transition t e' = Inl (InvalidEvent e'))"
proof -
  have v: "validate s = Inr ()" and ev: "apply_event s e = Inr t" and t: "validate t = Inr ()"
    using assms by (auto simp: sound_def transition_Inr)
  have "is_terminal (phase t) \<longleftrightarrow> e = ScanEmpty"
    using terminal_event [OF ev v] by simp
  moreover have "transition t e' = Inl (InvalidEvent e')" if "is_terminal (phase t)"
    using that terminal_refuses by blast
  ultimately show ?thesis
    using t by (auto simp: validate_terminal validate_terminal_state_def result_simps)
qed

theorem completion_is_final_witness:
  "\<exists>t. transition (sample_conductor 0) ScanEmpty = Inr t \<and> is_terminal (phase t)"
proof -
  have "\<exists>t. transition (sample_conductor 0) ScanEmpty = Inr t"
    by (simp add: conductor_eval validate_terminal_state_def)
  then obtain t where t: "transition (sample_conductor 0) ScanEmpty = Inr t" by blast
  with completion_is_final [OF sample_conductor_valid t] show ?thesis by blast
qed

section \<open>Pause and resume\<close>

text \<open>Resuming undoes pausing: whenever a pause is accepted, the paused state accepts \<open>Resume\<close>
  and returns to the very state that was paused, selection, retry count and outcome included.\<close>

theorem pause_resume_roundtrip:
  assumes "sound s" and "transition s (Pause reason) = Inr t"
  shows "transition t Resume = Inr s"
proof -
  have v: "validate s = Inr ()" and p: "phase s \<noteq> Paused"
    and t: "t = s\<lparr>resume_phase := Some (phase s), pause_reason := Some reason, phase := Paused\<rparr>"
    using assms by (auto simp: sound_def transition_Inr pause_def split: if_splits)
  have "t\<lparr>resume_phase := None, phase := phase s, pause_reason := None\<rparr> = s"
    using validate_pause_fields [OF v p] by (simp add: t)
  with v show ?thesis by (simp add: transition_Inr resume_def t)
qed

theorem pause_resume_roundtrip_witness:
  "\<exists>t. transition (sample_conductor 0) (Pause [98]) = Inr t
     \<and> transition t Resume = Inr (sample_conductor 0)"
proof -
  have "\<exists>t. transition (sample_conductor 0) (Pause [98]) = Inr t"
    by (simp add: conductor_eval) (simp add: RETRY_LIMIT_EXHAUSTED_def TERMINAL_RETIREMENT_def
        OWNERSHIP_RETIREMENT_def lit_def)
  then obtain t where t: "transition (sample_conductor 0) (Pause [98]) = Inr t" by blast
  with pause_resume_roundtrip [OF sample_conductor_valid t] show ?thesis by blast
qed

section \<open>Ownership of the selection\<close>

lemma record_dispatch_selection: "record_dispatch out s = Inr t \<Longrightarrow> selected_issue t = selected_issue s"
  by (cases out) (auto simp: record_dispatch_def Let_def result_simps record_blocked_dispatch_def
      record_retryable_Inr)

lemma begin_terminal_selection:
  assumes "begin_terminal_retirement out s = Inr t"
  shows "selected_issue t = selected_issue s"
proof -
  obtain u where "(if phase s = Dispatch then record_dispatch out s else Inr s) = Inr u"
    "selected_issue t = selected_issue u"
    using assms by (auto simp: begin_terminal_retirement_def result_simps split: if_splits)
  then show ?thesis by (auto split: if_splits dest: record_dispatch_selection)
qed

lemma unselected_phase:
  "validate s = Inr () \<Longrightarrow> phase s \<in> {Scan, Review, Select} \<Longrightarrow> selected_issue s = None"
  by (auto simp: validate_unpaused is_terminal_def validate_unpaused_phase_def
      validate_unselected_state_def)

definition releases :: "conductor_event \<Rightarrow> bool" where
  "releases e \<longleftrightarrow> e \<in> {Reconciled, RetireObsoleteSelection, AbandonExhausted, AbandonTerminal,
     AbandonOwnership}"

text \<open>A selected issue is never swapped or lost silently: an accepted event keeps the selected
  issue, except that reconciliation, retirement and abandonment release it and \<open>Selected\<close>, which
  is accepted only when nothing is selected, sets it.\<close>

theorem selection_is_owned:
  assumes "sound s" and "transition s e = Inr t"
  shows "selected_issue t = (if releases e then None
           else case e of Selected issue _ \<Rightarrow> Some issue | _ \<Rightarrow> selected_issue s)
    \<and> (is_selection e \<longrightarrow> selected_issue s = None)"
proof -
  have v: "validate s = Inr ()" and ev: "apply_event s e = Inr t"
    using assms by (auto simp: sound_def transition_Inr)
  note un = unselected_phase [OF v]
  show ?thesis
  proof (cases e)
    case (RecordDispatch out)
    with ev show ?thesis by (auto simp: releases_def dest: record_dispatch_selection)
  next
    case (BeginTerminalRetirement out)
    with ev show ?thesis by (auto simp: releases_def dest: begin_terminal_selection)
  next
    case (Pause reason)
    with ev show ?thesis by (auto simp: releases_def pause_def split: if_splits)
  next
    case Resume
    with ev show ?thesis by (auto simp: releases_def resume_def split: option.splits)
  qed (use ev un in \<open>auto simp: releases_def transition_steps split: if_splits\<close>)
qed

theorem selection_is_owned_witness:
  "\<exists>t. transition (sample_conductor 0) ScanFoundWork = Inr t \<and> selected_issue t = None"
proof -
  have "\<exists>t. transition (sample_conductor 0) ScanFoundWork = Inr t"
    by (simp add: conductor_eval)
  then obtain t where t: "transition (sample_conductor 0) ScanFoundWork = Inr t" by blast
  with selection_is_owned [OF sample_conductor_valid t] show ?thesis
    by (simp add: releases_def sample_conductor_def)
qed

section \<open>Mutation\<close>

text \<open>The conductor reports that mutation is allowed only while it holds a positive selected issue
  that it is claiming, dispatching or reconciling; the line names that issue as affected, and
  no paused, blocked, parked or finished state allows mutation.\<close>

theorem mutation_needs_selection:
  assumes "sound s" and "line_mutation_allowed (cycle_line cycle s)"
  shows "phase s \<in> {Claim, Dispatch, DispatchRecorded} \<and> pause_reason s = None
    \<and> terminal_reason s = None
    \<and> (\<exists>issue. selected_issue s = Some issue \<and> 0 < issue
         \<and> line_issues (cycle_line cycle s) = [issue])"
proof -
  have p: "phase s \<in> {Claim, Dispatch, DispatchRecorded}"
    and out: "\<And>r is. current_normalized_outcome s \<noteq> Some (AllBlocked r is)"
    using assms(2) by (auto simp: cycle_line_def mutation_allowed_for_state_def Let_def
        split: if_splits option.splits conductor_outcome.splits)
  then have v: "identity_ok s" "terminal_reason s = None" "pause_reason s = None" "selected_issue s \<noteq> None"
    using assms(1) by (auto simp: sound_def validate_unpaused is_terminal_def
        validate_unpaused_phase_def validate_selected_state_def result_simps)
  then obtain issue where i: "selected_issue s = Some issue" "issue \<noteq> 0"
    by (auto simp: identity_ok_iff)
  have "line_issues (cycle_line cycle s) = [issue]"
    using out i by (auto simp: cycle_line_def Let_def affected_issues_for_state_def affected_issues_def
        split: option.splits conductor_outcome.splits)
  with p v i show ?thesis by (auto simp: word_gt_0)
qed

theorem mutation_needs_selection_witness:
  "\<exists>t issue. transition ((sample_conductor 0)\<lparr>phase := Claim, selected_issue := Some 7\<rparr>) Claimed = Inr t
     \<and> selected_issue t = Some issue \<and> 0 < issue"
proof -
  let ?s = "(sample_conductor 0)\<lparr>phase := Claim, selected_issue := Some 7\<rparr>"
  have "sound ?s"
    by (simp add: sound_def conductor_eval home_def)
  moreover have "\<exists>t. transition ?s Claimed = Inr t \<and> line_mutation_allowed (cycle_line 1 t)"
    by (simp add: conductor_eval cycle_line_def mutation_allowed_for_state_def
        current_normalized_outcome_def)
  ultimately show ?thesis
    using mutation_needs_selection [of _ 1] conductor.step_good by blast
qed

section \<open>No wedged states\<close>

text \<open>An event the conductor accepts in each phase it works in, and a way to the next scan.\<close>

definition next_event :: "conductor_state \<Rightarrow> conductor_event" where
  "next_event s = (case phase s of
       Scan \<Rightarrow> ScanFoundWork
     | Review \<Rightarrow> SafetyReviewed
     | Select \<Rightarrow> Selected 1 []
     | Claim \<Rightarrow> Claimed
     | Dispatch \<Rightarrow> RecordDispatch Succeeded
     | DispatchRecorded \<Rightarrow> Reconciled
     | Retry \<Rightarrow> RetryScheduled
     | _ \<Rightarrow> if resume_phase s \<noteq> None then Resume else RetireObsoleteSelection)"

definition steps_to_scan :: "conductor_state \<Rightarrow> nat" where
  "steps_to_scan s = (case phase s of
       Review \<Rightarrow> 5 | Select \<Rightarrow> 4 | Claim \<Rightarrow> 3 | Dispatch \<Rightarrow> 2 | DispatchRecorded \<Rightarrow> 1 | Retry \<Rightarrow> 4
     | Paused \<Rightarrow> 6 | _ \<Rightarrow> 0)"

definition working :: "conductor_state \<Rightarrow> bool" where
  "working s \<longleftrightarrow> \<not> is_terminal (phase s) \<and> \<not> is_boundary (phase s)"

lemma identity_ok_move:
  assumes "identity_ok s" "phase s \<noteq> AllBlockedPhase"
    "repo t = repo s" "selected_issue t \<noteq> Some 0"
    "last_outcome t \<in> {None, Some Succeeded, last_outcome s}"
    "blocked_backlog_cycles t = blocked_backlog_cycles s"
    "blocked_backlog_reason t = blocked_backlog_reason s"
    "blocked_backlog_issues t = blocked_backlog_issues s"
    "no_progress_cycles t = no_progress_cycles s" "no_progress_reason t = no_progress_reason s"
  shows "identity_ok t"
  using assms by (auto simp: identity_ok_iff split: option.splits)

lemma unpaused_parts:
  assumes "validate s = Inr ()" "working s" "phase s \<noteq> Paused"
  shows "identity_ok s" "terminal_reason s = None" "pause_reason s = None" "resume_phase s = None"
    "validate_unpaused_phase s = Inr ()" "phase s \<noteq> AllBlockedPhase"
  using assms by (auto simp: working_def validate_unpaused is_boundary_def)

lemma abandon_valid:
  assumes "identity_ok s" "terminal_reason s = None" "phase s \<noteq> AllBlockedPhase"
  shows "validate (abandon_exhausted s) = Inr ()"
proof -
  have "identity_ok (abandon_exhausted s)"
    by (rule identity_ok_move [OF assms(1,3)]) (simp_all add: abandon_exhausted_def clear_selection_def)
  with assms(2) show ?thesis
    by (simp add: validate_unpaused abandon_exhausted_def clear_selection_def is_terminal_def
        validate_unpaused_phase_def validate_unselected_state_def)
qed

lemma paused_without_resume:
  assumes "validate s = Inr ()" "phase s = Paused" "resume_phase s = None"
  shows "selected_issue s \<noteq> None"
  using assms by (auto simp: validate_paused paused_recovery_def split: if_splits option.splits)

lemma progress_paused:
  assumes "validate s = Inr ()" "phase s = Paused"
  shows "\<exists>t. transition s (next_event s) = Inr t \<and> working t \<and> steps_to_scan t < steps_to_scan s"
proof (cases "resume_phase s")
  case None
  have "validate (abandon_exhausted s) = Inr ()"
    using assms by (intro abandon_valid) (auto simp: validate_paused)
  with None assms paused_without_resume [OF assms None] show ?thesis
    by (simp add: transition_Inr next_event_def)
       (simp add: abandon_exhausted_def clear_selection_def working_def is_terminal_def
         is_boundary_def steps_to_scan_def)
next
  case (Some p)
  have p: "\<not> is_terminal p" "\<not> is_boundary p" "p \<noteq> Paused" "validate (resumed_in p s) = Inr ()"
    using resume_phase_working [OF assms Some] by auto
  have "steps_to_scan (resumed_in p s) < 6"
    using p by (cases p) (simp_all add: steps_to_scan_def resumed_in_def)
  moreover have "s\<lparr>resume_phase := None, phase := p, pause_reason := None\<rparr> = resumed_in p s"
    by (simp add: resumed_in_def)
  ultimately show ?thesis
    using Some assms p
    by (simp add: transition_Inr next_event_def resume_def)
       (simp add: working_def steps_to_scan_def resumed_in_def)
qed

lemma progress_step:
  assumes "validate s = Inr ()" "working s" "phase s \<noteq> Scan"
  shows "\<exists>t. transition s (next_event s) = Inr t \<and> working t \<and> steps_to_scan t < steps_to_scan s"
proof (cases "phase s = Paused")
  case True
  with assms(1) show ?thesis by (rule progress_paused)
next
  case False
  note parts = unpaused_parts [OF assms(1,2) False]
  let ?t = "case phase s of
       Review \<Rightarrow> s\<lparr>phase := Select\<rparr>
     | Select \<Rightarrow> s\<lparr>phase := Claim, selected_issue := Some 1, serialization_reasons := [],
         retry_count := 0, last_outcome := None\<rparr>
     | Claim \<Rightarrow> s\<lparr>phase := Dispatch\<rparr>
     | Dispatch \<Rightarrow> s\<lparr>last_outcome := Some Succeeded, phase := DispatchRecorded\<rparr>
     | DispatchRecorded \<Rightarrow> abandon_exhausted s
     | _ \<Rightarrow> s\<lparr>phase := Claim\<rparr>"
  have p: "phase s \<in> {Review, Select, Claim, Dispatch, DispatchRecorded, Retry}"
    using assms(2,3) False by (cases "phase s") (auto simp: working_def is_terminal_def is_boundary_def)
  have sel: "selected_issue s \<noteq> Some 0" using parts(1) by (simp add: identity_ok_iff)
  have "identity_ok ?t"
    by (rule identity_ok_move [OF parts(1,6)])
       (use p sel in \<open>auto simp: abandon_exhausted_def clear_selection_def\<close>)
  then have "validate ?t = Inr ()"
    using p parts by (auto simp: validate_unpaused is_terminal_def validate_unpaused_phase_def
        validate_unselected_state_def validate_selected_state_def validate_successful_dispatch_def
        result_simps abandon_exhausted_def clear_selection_def)
  moreover have "apply_event s (next_event s) = Inr ?t"
    using p parts(5) by (auto simp: next_event_def select_issue_def record_dispatch_def
        reconcile_success_def abandon_exhausted_def validate_unpaused_phase_def result_simps
        validate_successful_dispatch_def)
  moreover have "working ?t \<and> steps_to_scan ?t < steps_to_scan s"
    using p by (auto simp: working_def is_terminal_def is_boundary_def steps_to_scan_def
        abandon_exhausted_def clear_selection_def)
  ultimately show ?thesis by (auto simp: transition_Inr)
qed



section \<open>The blocked-backlog governor\<close>

lemma out_of_order_iff: "out_of_order xs \<longleftrightarrow> \<not> sorted_wrt (<) xs"
proof (induction xs rule: out_of_order.induct)
  case (1 a b rest)
  have "a < b \<Longrightarrow> \<forall>x \<in> set rest. b < x \<Longrightarrow> \<forall>x \<in> set rest. a < x"
    by (metis order.strict_trans)
  with 1 show ?case by (auto simp: not_le)
qed simp_all

definition normal_issues :: "u64 list \<Rightarrow> u64 list" where
  "normal_issues issues = remdups_adj (sort issues)"

lemma normal_issues_simps [simp]:
  "set (normal_issues issues) = set issues" "\<not> out_of_order (normal_issues issues)"
  "normal_issues issues = [] \<longleftrightarrow> issues = []"
  using sorted_remdups_adj_distinct [of "sort issues"]
  by (auto simp: normal_issues_def out_of_order_iff strict_sorted_iff simp flip: set_empty)

fun cycle_count :: "nat \<Rightarrow> u32" where
  "cycle_count 0 = 0"
| "cycle_count (Suc n) = saturating_add (cycle_count n) 1"

lemma unat_cycle_count: "unat (cycle_count n) = min n (2 ^ 32 - 1)"
  by (induction n) (auto simp: unat_saturating_add_1)

lemma cycle_count_threshold: "BLOCKED_BACKLOG_THRESHOLD \<le> cycle_count n \<longleftrightarrow> 5 \<le> n"
  by (auto simp: BLOCKED_BACKLOG_THRESHOLD_def word_le_nat_alt unat_cycle_count)

text \<open>The state after \<open>n\<close> identical blocked cycles.\<close>

definition blocked_after :: "ustr \<Rightarrow> u64 list \<Rightarrow> conductor_state \<Rightarrow> nat \<Rightarrow> conductor_state" where
  "blocked_after reason issues s n =
     (let t = s\<lparr>blocked_backlog_cycles := cycle_count n, blocked_backlog_reason := Some reason,
                blocked_backlog_issues := normal_issues issues\<rparr>
      in if 5 \<le> n then (clear_selection t)\<lparr>phase := AllBlockedPhase,
            last_outcome := Some (AllBlocked reason (normal_issues issues))\<rparr> else t)"

lemma blocked_after_valid:
  assumes "validate s = Inr ()" "phase s = Scan" "\<not> blank reason" "reason \<noteq> RETRY_LIMIT_EXHAUSTED"
    and "issues \<noteq> []" "0 \<notin> set issues" "0 < n"
  shows "validate (blocked_after reason issues s n) = Inr ()"
proof -
  have s: "identity_ok s" "terminal_reason s = None" "selected_issue s = None"
      "serialization_reasons s = []" "pause_reason s = None" "resume_phase s = None"
    using assms(1,2) by (auto simp: validate_unpaused is_terminal_def validate_unpaused_phase_def
        validate_unselected_state_def)
  have c: "cycle_count n \<noteq> 0"
    using assms(7) unat_cycle_count [of n] by (auto simp: unat_eq_0 [symmetric])
  have "identity_ok (blocked_after reason issues s n)"
    using s(1) assms c cycle_count_threshold [of n]
    by (auto simp: identity_ok_iff blocked_after_def Let_def clear_selection_def
        validate_named_outcome_reason_def validate_all_blocked_issues_def split: option.splits)
  then show ?thesis
    using s assms(2) by (auto simp: blocked_after_def Let_def clear_selection_def validate_unpaused
        is_terminal_def validate_unpaused_phase_def validate_unselected_state_def
        validate_boundary_state_def validate_boundary_outcome_def result_simps)
qed

lemma blocked_after_Suc:
  assumes "validate s = Inr ()" "phase s = Scan" "\<not> blank reason" "reason \<noteq> RETRY_LIMIT_EXHAUSTED"
    and "issues \<noteq> []" "0 \<notin> set issues" "0 < n"
  shows "record_blocked_backlog_cycle reason issues (blocked_after reason issues s n)
    = Inr (blocked_after reason issues s (Suc n))"
proof -
  have "validate (blocked_after reason issues s (Suc n)) = Inr ()"
    using assms by (intro blocked_after_valid) auto
  moreover have "BLOCKED_BACKLOG_THRESHOLD \<le> saturating_add (cycle_count n) 1 \<longleftrightarrow> 5 \<le> Suc n"
    using cycle_count_threshold [of "Suc n"] by simp
  ultimately show ?thesis
    using assms(3,6)
    by (auto simp: record_blocked_backlog_cycle_def blocked_after_def Let_def clear_selection_def
        normal_issues_def split del: if_split split: if_split)
qed

text \<open>The blocked-backlog governor seals at exactly the fifth identical cycle: repeating one
  blocked cycle from a scan keeps scanning for the first four reports and is all-blocked, naming
  the issues in order, from the fifth on; the count saturates instead of wrapping.\<close>

theorem governor_seals_at_five:
  assumes "sound s" "phase s = Scan" "blocked_backlog_cycles s = 0"
    and "\<not> blank reason" "reason \<noteq> RETRY_LIMIT_EXHAUSTED" "issues \<noteq> []" "0 \<notin> set issues"
  shows "\<exists>t. run_all (\<lambda>s _. record_blocked_backlog_cycle reason issues s) s (replicate (Suc n) ()) = Inr t
    \<and> unat (blocked_backlog_cycles t) = min (Suc n) (2 ^ 32 - 1)
    \<and> phase t = (if Suc n < 5 then Scan else AllBlockedPhase)
    \<and> last_outcome t = (if Suc n < 5 then last_outcome s
                        else Some (AllBlocked reason (remdups_adj (sort issues))))"
proof -
  let ?step = "\<lambda>s _. record_blocked_backlog_cycle reason issues s"
  have v: "validate s = Inr ()" using assms(1) by (simp add: sound_def)
  have "blocked_backlog_reason s = None"
    using validate_identity [OF v] assms(3) by (simp add: identity_ok_iff)
  moreover have "validate (blocked_after reason issues s 1) = Inr ()"
    using v assms by (intro blocked_after_valid) auto
  moreover have "saturating_add 0 1 = (1 :: u32)" by (simp add: saturating_add_def)
  ultimately have first: "record_blocked_backlog_cycle reason issues s = Inr (blocked_after reason issues s 1)"
    using assms by (simp add: record_blocked_backlog_cycle_def blocked_after_def Let_def
        normal_issues_def word_le_nat_alt BLOCKED_BACKLOG_THRESHOLD_def)
  have "run_all ?step s (replicate (Suc n) ()) = Inr (blocked_after reason issues s (Suc n))"
  proof (induction n)
    case 0
    show ?case by (simp add: first)
  next
    case (Suc n)
    have "replicate (Suc (Suc n)) () = replicate (Suc n) () @ [()]"
      by (simp flip: replicate_append_same)
    with Suc show ?case
      using blocked_after_Suc [OF v assms(2,4,5,6,7)] by (simp only: run_all_snoc) auto
  qed
  moreover have "unat (blocked_backlog_cycles (blocked_after reason issues s (Suc n))) = min (Suc n) (2 ^ 32 - 1)"
    using unat_cycle_count [of "Suc n"] by (simp add: blocked_after_def Let_def clear_selection_def)
  ultimately show ?thesis
    using assms(2) by (auto simp: blocked_after_def Let_def clear_selection_def normal_issues_def)
qed

theorem governor_seals_at_five_witness:
  "\<exists>t. run_all (\<lambda>s _. record_blocked_backlog_cycle [97] [7] s) (sample_conductor 0) (replicate (Suc 4) ()) = Inr t
    \<and> phase t = AllBlockedPhase"
proof -
  have "phase (sample_conductor 0) = Scan" "blocked_backlog_cycles (sample_conductor 0) = 0"
    "\<not> blank [97]" "[97] \<noteq> RETRY_LIMIT_EXHAUSTED"
    by (simp_all add: sample_conductor_def blank_iff is_whitespace_def RETRY_LIMIT_EXHAUSTED_def lit_def)
  from governor_seals_at_five [OF sample_conductor_valid this, of "[7]" 4]
  obtain t where "run_all (\<lambda>s _. record_blocked_backlog_cycle [97] [7] s) (sample_conductor 0)
      (replicate (Suc 4) ()) = Inr t" "phase t = (if Suc 4 < 5 then Scan else AllBlockedPhase)"
    by fastforce
  moreover have "\<not> Suc 4 < 5" by simp
  ultimately show ?thesis by metis
qed

end
