(* ===== verification/Json.thy ===== *)
theory Json
  imports Ordered_Map
begin

text \<open>
  The JSON reader of the state documents (\<open>state/json.rs\<close>) and the string writer next to it
  (\<open>escape_json_string\<close> of \<open>state/mod.rs\<close>).

  The parser of the code holds the input and a byte index; here its state is the input that is
  left, and an error that reports a position carries the input left at that point, from which
  \<open>json_error_text\<close> computes the byte index of the message. The recursion has a depth bound,
  \<open>parse_json\<close> passes one more than the length of the input, and \<open>parse_value_fine\<close> shows that
  this bound is never reached. Printed documents are trees (\<open>jdoc\<close>) that keep the order of their
  keys, printed with the escapes of a writer; in the locale \<open>string_escape\<close> every printed tree is
  read back, and each writer of the code that escapes soundly interprets it.
\<close>

section \<open>Values and their accessors\<close>

datatype json = JNull | JBool bool | JNumber ustr | JString ustr | JArray "json list"
  | JObject "(ustr \<times> json) list"

fun into_object :: "json \<Rightarrow> ustr \<Rightarrow> ustr + (ustr, json) bmap" where
  "into_object (JObject m) ctx = Inr m"
| "into_object _ ctx = Inl (ctx @ lit '' must be a JSON object'')"

fun into_array :: "json \<Rightarrow> ustr \<Rightarrow> ustr + json list" where
  "into_array (JArray vs) ctx = Inr vs"
| "into_array _ ctx = Inl (ctx @ lit '' must be a JSON array'')"

fun into_number :: "json \<Rightarrow> ustr \<Rightarrow> ustr + u64" where
  "into_number (JNumber s) ctx = (case parse_u64 s of Some n \<Rightarrow> Inr n
     | None \<Rightarrow> Inl (ctx @ lit '' must be a non-negative JSON number''))"
| "into_number _ ctx = Inl (ctx @ lit '' must be a JSON number'')"

fun into_bool :: "json \<Rightarrow> ustr \<Rightarrow> ustr + bool" where
  "into_bool (JBool b) ctx = Inr b"
| "into_bool _ ctx = Inl (ctx @ lit '' must be a JSON boolean'')"

text \<open>\<open>str::parse::<i64>\<close>: a sign, digits, and a value that fits.\<close>

definition parse_i64 :: "ustr \<Rightarrow> 64 word option" where
  "parse_i64 s =
     (let neg = (take 1 s = [45]); ds = (if take 1 s = [45] \<or> take 1 s = [43] then drop 1 s else s);
          n = digits_value ds in
      if ds \<noteq> [] \<and> list_all is_ascii_digit ds \<and> (if neg then n \<le> 2 ^ 63 else n < 2 ^ 63)
      then Some (if neg then - of_nat n else of_nat n) else None)"

fun into_signed_number :: "json \<Rightarrow> ustr \<Rightarrow> ustr + 64 word" where
  "into_signed_number (JNumber s) ctx = (case parse_i64 s of Some n \<Rightarrow> Inr n
     | None \<Rightarrow> Inl (ctx @ lit '' must be a signed JSON number''))"
| "into_signed_number _ ctx = Inl (ctx @ lit '' must be a JSON number'')"

fun into_string :: "json \<Rightarrow> ustr \<Rightarrow> ustr + ustr" where
  "into_string (JString s) ctx = Inr s"
| "into_string _ ctx = Inl (ctx @ lit '' must be a JSON string'')"

fun into_optional_string :: "json \<Rightarrow> ustr \<Rightarrow> ustr + ustr option" where
  "into_optional_string JNull ctx = Inr None"
| "into_optional_string (JString s) ctx = Inr (Some s)"
| "into_optional_string _ ctx = Inl (ctx @ lit '' must be a JSON string or null'')"

section \<open>Errors\<close>

text \<open>\<open>OutOfFuel\<close> is the only constructor the code does not have.\<close>

datatype json_error =
    TrailingJson ustr | UnexpectedToken ustr | UnexpectedEnd | DuplicateKey ustr
  | LeadingZero ustr | InvalidNumber ustr | UnterminatedString | ControlCharacter ustr
  | UnterminatedEscape | InvalidEscape ustr | HighSurrogateAlone | HighSurrogateUnpaired
  | InvalidSurrogatePair | UnexpectedLowSurrogate | InvalidUnicodeEscape | IncompleteUnicodeEscape
  | InvalidHexDigits ustr | ExpectedLiteral ustr ustr | ExpectedByte uchar ustr | OutOfFuel

definition len_utf8 :: "uchar \<Rightarrow> nat" where
  "len_utf8 c = (if c < 0x80 then 1 else if c < 0x800 then 2 else if c < 0x10000 then 3 else 4)"

definition byte_len :: "ustr \<Rightarrow> nat" where
  "byte_len s = sum_list (map len_utf8 s)"

definition at_byte :: "ustr \<Rightarrow> ustr \<Rightarrow> ustr" where
  "at_byte input rest = lit '' at byte '' @ show_nat (byte_len input - byte_len rest)"

fun json_error_text :: "ustr \<Rightarrow> json_error \<Rightarrow> ustr" where
  "json_error_text input (TrailingJson r) = lit ''unexpected trailing JSON'' @ at_byte input r"
| "json_error_text input (UnexpectedToken r) = lit ''unexpected JSON token'' @ at_byte input r"
| "json_error_text input UnexpectedEnd = lit ''unexpected end of JSON input''"
| "json_error_text input (DuplicateKey k) = lit ''duplicate JSON object key: '' @ k"
| "json_error_text input (LeadingZero r) = lit ''leading zero in JSON number'' @ at_byte input r"
| "json_error_text input (InvalidNumber r) = lit ''invalid JSON number'' @ at_byte input r"
| "json_error_text input UnterminatedString = lit ''unterminated JSON string''"
| "json_error_text input (ControlCharacter r) =
     lit ''control character in JSON string'' @ at_byte input r"
| "json_error_text input UnterminatedEscape = lit ''unterminated JSON escape sequence''"
| "json_error_text input (InvalidEscape r) = lit ''invalid JSON escape sequence'' @ at_byte input r"
| "json_error_text input HighSurrogateAlone =
     lit ''high surrogate must be followed immediately by a low surrogate''"
| "json_error_text input HighSurrogateUnpaired =
     lit ''high surrogate must be followed by a low surrogate''"
| "json_error_text input InvalidSurrogatePair = lit ''invalid surrogate pair in JSON string''"
| "json_error_text input UnexpectedLowSurrogate = lit ''unexpected low surrogate in JSON string''"
| "json_error_text input InvalidUnicodeEscape = lit ''invalid Unicode escape in JSON string''"
| "json_error_text input IncompleteUnicodeEscape =
     lit ''incomplete Unicode escape in JSON string''"
| "json_error_text input (InvalidHexDigits r) = lit ''invalid Unicode escape'' @ at_byte input r"
| "json_error_text input (ExpectedLiteral l r) = lit ''expected '' @ l @ at_byte input r"
| "json_error_text input (ExpectedByte b r) = lit ''expected '' @ [b] @ at_byte input r"
| "json_error_text input OutOfFuel = []"

section \<open>The scanner\<close>

definition json_space :: "uchar \<Rightarrow> bool" where
  "json_space c \<longleftrightarrow> c = 32 \<or> c = 10 \<or> c = 13 \<or> c = 9"

definition skip_whitespace :: "ustr \<Rightarrow> ustr" where
  "skip_whitespace s = dropWhile json_space s"

fun consume_byte :: "uchar \<Rightarrow> ustr \<Rightarrow> ustr option" where
  "consume_byte b [] = None"
| "consume_byte b (c # s) = (if c = b then Some s else None)"

definition expect_byte :: "uchar \<Rightarrow> ustr \<Rightarrow> json_error + ustr" where
  "expect_byte b s = (let s = skip_whitespace s in
     case consume_byte b s of Some t \<Rightarrow> Inr t | None \<Rightarrow> Inl (ExpectedByte b s))"

definition consume_literal :: "ustr \<Rightarrow> ustr \<Rightarrow> json_error + ustr" where
  "consume_literal l s = (case strip_prefix l s of Some t \<Rightarrow> Inr t | None \<Rightarrow> Inl (ExpectedLiteral l s))"

text \<open>\<open>str::get(start..start + n)\<close>: fails beyond the end and inside a character.\<close>

fun take_bytes :: "nat \<Rightarrow> ustr \<Rightarrow> (ustr \<times> ustr) option" where
  "take_bytes 0 s = Some ([], s)"
| "take_bytes (Suc n) [] = None"
| "take_bytes (Suc n) (c # s) = (if len_utf8 c \<le> Suc n
     then map_option (\<lambda>(a, b). (c # a, b)) (take_bytes (Suc n - len_utf8 c) s) else None)"

definition is_ascii_hexdigit :: "uchar \<Rightarrow> bool" where
  "is_ascii_hexdigit c \<longleftrightarrow> is_ascii_digit c \<or> (97 \<le> c \<and> c \<le> 102) \<or> (65 \<le> c \<and> c \<le> 70)"

definition hex_value :: "uchar \<Rightarrow> nat" where
  "hex_value c = (if is_ascii_digit c then c - 48 else if 97 \<le> c then c - 87 else c - 55)"

definition parse_hex_code_unit :: "ustr \<Rightarrow> json_error + nat \<times> ustr" where
  "parse_hex_code_unit s = (case take_bytes 4 s of
       None \<Rightarrow> Inl IncompleteUnicodeEscape
     | Some (ds, t) \<Rightarrow> if list_all is_ascii_hexdigit ds
         then Inr (foldl (\<lambda>n c. 16 * n + hex_value c) 0 ds, t) else Inl (InvalidHexDigits s))"

definition parse_unicode_escape :: "ustr \<Rightarrow> json_error + uchar \<times> ustr" where
  "parse_unicode_escape s = and_then (parse_hex_code_unit s) (\<lambda>(first, s).
     if 0xD800 \<le> first \<and> first \<le> 0xDBFF then
       (case consume_byte 92 s of None \<Rightarrow> Inl HighSurrogateAlone
        | Some s \<Rightarrow> (case consume_byte 117 s of None \<Rightarrow> Inl HighSurrogateAlone
          | Some s \<Rightarrow> and_then (parse_hex_code_unit s) (\<lambda>(second, s).
              if \<not> (0xDC00 \<le> second \<and> second \<le> 0xDFFF) then Inl HighSurrogateUnpaired
              else let cp = 0x10000 + ((first - 0xD800) * 1024 + (second - 0xDC00)) in
                if scalar cp then Inr (cp, s) else Inl InvalidSurrogatePair)))
     else if 0xDC00 \<le> first \<and> first \<le> 0xDFFF then Inl UnexpectedLowSurrogate
     else if scalar first then Inr (first, s) else Inl InvalidUnicodeEscape)"

definition parse_escape_sequence :: "ustr \<Rightarrow> json_error + uchar \<times> ustr" where
  "parse_escape_sequence s = (case s of
       [] \<Rightarrow> Inl UnterminatedEscape
     | c # t \<Rightarrow>
         if c = 34 then Inr (34, t) else if c = 92 then Inr (92, t) else if c = 47 then Inr (47, t)
         else if c = 98 then Inr (8, t) else if c = 102 then Inr (12, t)
         else if c = 110 then Inr (10, t) else if c = 114 then Inr (13, t)
         else if c = 116 then Inr (9, t) else if c = 117 then parse_unicode_escape t
         else Inl (InvalidEscape t))"

lemma take_bytes_length: "take_bytes n s = Some (a, t) \<Longrightarrow> length t \<le> length s"
  by (induction n s arbitrary: a t rule: take_bytes.induct)
     (fastforce split: if_splits)+

lemma consume_byte_Some: "consume_byte b s = Some t \<longleftrightarrow> s = b # t"
  by (cases s) auto

lemma parse_hex_length: "parse_hex_code_unit s = Inr (n, t) \<Longrightarrow> length t \<le> length s"
  by (auto simp: parse_hex_code_unit_def dest: take_bytes_length split: option.splits if_splits)

lemma parse_unicode_length: "parse_unicode_escape s = Inr (c, t) \<Longrightarrow> length t \<le> length s"
  by (fastforce simp: parse_unicode_escape_def result_simps consume_byte_Some Let_def
      dest: parse_hex_length split: option.splits if_splits)

lemma parse_escape_length: "parse_escape_sequence s = Inr (c, t) \<Longrightarrow> length t \<le> length s"
  by (auto simp: parse_escape_sequence_def dest: parse_unicode_length split: list.splits if_splits)

function parse_chars :: "ustr \<Rightarrow> json_error + ustr \<times> ustr" where
  "parse_chars [] = Inl UnterminatedString"
| "parse_chars (c # s) =
     (if c = 34 then Inr ([], s)
      else if c = 92 then and_then (parse_escape_sequence s) (\<lambda>(e, t).
        map_ok (\<lambda>(a, r). (e # a, r)) (parse_chars t))
      else if is_control c then Inl (ControlCharacter s)
      else map_ok (\<lambda>(a, r). (c # a, r)) (parse_chars s))"
  by pat_completeness auto
termination
  by (relation "measure length") (auto dest: parse_escape_length)

definition parse_string :: "ustr \<Rightarrow> json_error + ustr \<times> ustr" where
  "parse_string s = and_then (expect_byte 34 s) parse_chars"

definition starts_with_digit :: "ustr \<Rightarrow> bool" where
  "starts_with_digit s \<longleftrightarrow> (case s of [] \<Rightarrow> False | c # _ \<Rightarrow> is_ascii_digit c)"

definition parse_number :: "ustr \<Rightarrow> json_error + json \<times> ustr" where
  "parse_number s =
     (let t = (case consume_byte 45 s of Some t \<Rightarrow> t | None \<Rightarrow> s);
          upto = (\<lambda>u. (JNumber (take (length s - length u) s), u)) in
      case consume_byte 48 t of
        Some u \<Rightarrow> if starts_with_digit u then Inl (LeadingZero s) else Inr (upto u)
      | None \<Rightarrow> if starts_with_digit t then Inr (upto (dropWhile is_ascii_digit t))
                else Inl (InvalidNumber s))"

section \<open>The parser\<close>

text \<open>The loops of \<open>parse_object\<close> and \<open>parse_array\<close>, with the parser of a value as argument.\<close>

fun parse_members :: "(ustr \<Rightarrow> json_error + json \<times> ustr) \<Rightarrow> nat \<Rightarrow> (ustr, json) bmap \<Rightarrow> ustr
    \<Rightarrow> json_error + json \<times> ustr" where
  "parse_members f 0 values s = Inl OutOfFuel"
| "parse_members f (Suc n) values s =
     and_then (parse_string (skip_whitespace s)) (\<lambda>(key, s).
     and_then (expect_byte 58 (skip_whitespace s)) (\<lambda>s.
     and_then (f s) (\<lambda>(v, s).
       if bm_get values key \<noteq> None then Inl (DuplicateKey key)
       else let values = bm_insert key v values; s = skip_whitespace s in
         case consume_byte 125 s of
           Some s \<Rightarrow> Inr (JObject values, s)
         | None \<Rightarrow> and_then (expect_byte 44 s) (parse_members f n values))))"

fun parse_elements :: "(ustr \<Rightarrow> json_error + json \<times> ustr) \<Rightarrow> nat \<Rightarrow> json list \<Rightarrow> ustr
    \<Rightarrow> json_error + json \<times> ustr" where
  "parse_elements f 0 values s = Inl OutOfFuel"
| "parse_elements f (Suc n) values s =
     and_then (f s) (\<lambda>(v, s).
       let values = values @ [v]; s = skip_whitespace s in
         case consume_byte 93 s of
           Some s \<Rightarrow> Inr (JArray values, s)
         | None \<Rightarrow> and_then (expect_byte 44 s) (parse_elements f n values))"

fun parse_value :: "nat \<Rightarrow> ustr \<Rightarrow> json_error + json \<times> ustr" where
  "parse_value 0 s = Inl OutOfFuel"
| "parse_value (Suc n) s =
     (let s = skip_whitespace s in
      case s of
        [] \<Rightarrow> Inl UnexpectedEnd
      | c # _ \<Rightarrow>
          if c = 123 then and_then (expect_byte 123 s) (\<lambda>s. let s = skip_whitespace s in
            case consume_byte 125 s of Some s \<Rightarrow> Inr (JObject bm_empty, s)
            | None \<Rightarrow> parse_members (parse_value n) n bm_empty s)
          else if c = 91 then and_then (expect_byte 91 s) (\<lambda>s. let s = skip_whitespace s in
            case consume_byte 93 s of Some s \<Rightarrow> Inr (JArray [], s)
            | None \<Rightarrow> parse_elements (parse_value n) n [] s)
          else if c = 34 then map_ok (\<lambda>(a, r). (JString a, r)) (parse_string s)
          else if c = 110 then map_ok (Pair JNull) (consume_literal (lit ''null'') s)
          else if c = 116 then map_ok (Pair (JBool True)) (consume_literal (lit ''true'') s)
          else if c = 102 then map_ok (Pair (JBool False)) (consume_literal (lit ''false'') s)
          else if c = 45 \<or> is_ascii_digit c then parse_number s
          else Inl (UnexpectedToken s))"

definition parse_json :: "ustr \<Rightarrow> json_error + json" where
  "parse_json input = and_then (parse_value (Suc (length input)) input) (\<lambda>(v, s).
     let s = skip_whitespace s in if s \<noteq> [] then Inl (TrailingJson s) else Inr v)"

section \<open>The depth bound is never reached\<close>

definition fine :: "ustr \<Rightarrow> json_error + 'a \<times> ustr \<Rightarrow> bool" where
  "fine s r = (case r of Inl e \<Rightarrow> e \<noteq> OutOfFuel | Inr (_, t) \<Rightarrow> length t < length s)"

lemma fine_simps [simp]:
  "fine s (Inl e) \<longleftrightarrow> e \<noteq> OutOfFuel"
  "fine s (Inr (x, t)) \<longleftrightarrow> length t < length s"
  by (simp_all add: fine_def)

lemma fine_mono: "fine s r \<Longrightarrow> length s \<le> length s' \<Longrightarrow> fine s' r"
  by (auto simp: fine_def split: sum.splits)

lemma fine_map_ok: "fine s (map_ok (\<lambda>(a, t). (g a, t)) r) \<longleftrightarrow> fine s r"
  by (cases r) auto

lemma fine_map_ok_Pair: "fine s (map_ok (\<lambda>(a, t). (g a, t)) r)" if "fine s r"
  using that by (simp add: fine_map_ok)

lemma skip_whitespace_length [simp]: "length (skip_whitespace s) \<le> length s"
  by (simp add: skip_whitespace_def length_dropWhile_le)

lemma expect_byte_cases:
  obtains e where "expect_byte b s = Inl e" "e \<noteq> OutOfFuel"
  | t where "expect_byte b s = Inr t" "length t < length s"
proof (cases "consume_byte b (skip_whitespace s)")
  case None
  then show ?thesis using that(1) by (simp add: expect_byte_def)
next
  case (Some t)
  then have "length t < length s"
    using skip_whitespace_length [of s] by (auto simp: consume_byte_Some)
  with Some show ?thesis using that(2) by (simp add: expect_byte_def)
qed

lemma hex_not_fuel: "parse_hex_code_unit s \<noteq> Inl OutOfFuel"
  by (simp add: parse_hex_code_unit_def split: option.splits prod.splits)

lemma unicode_not_fuel: "parse_unicode_escape s \<noteq> Inl OutOfFuel"
  by (auto simp: parse_unicode_escape_def result_simps hex_not_fuel Let_def
      split: option.splits if_splits)

lemma escape_not_fuel: "parse_escape_sequence s \<noteq> Inl OutOfFuel"
  by (auto simp: parse_escape_sequence_def unicode_not_fuel split: list.splits)

lemma parse_chars_fine: "fine s (parse_chars s)"
proof (induction s rule: parse_chars.induct)
  case (2 c s)
  have "fine (c # s) (parse_chars s)" if "c \<noteq> 34" "c \<noteq> 92" "\<not> is_control c"
    by (rule fine_mono [OF 2(2)]) (use that in auto)
  moreover have "fine (c # s) (and_then (parse_escape_sequence s) (\<lambda>(e, t).
      map_ok (\<lambda>(a, r). (e # a, r)) (parse_chars t)))" if "c \<noteq> 34" "c = 92"
  proof (cases "parse_escape_sequence s")
    case (Inl e)
    then show ?thesis using escape_not_fuel by auto
  next
    case (Inr x)
    obtain e t where x: "x = (e, t)" by (cases x)
    have "fine (c # s) (parse_chars t)"
      by (rule fine_mono [OF 2(1) [OF that Inr x [symmetric]]]) (use parse_escape_length [of s e t] Inr x in auto)
    with Inr x show ?thesis by (simp add: fine_map_ok)
  qed
  ultimately show ?case by (simp add: fine_map_ok)
qed simp

lemma parse_string_fine: "fine s (parse_string s)"
proof (cases rule: expect_byte_cases [of 34 s])
  case (2 t)
  then show ?thesis
    using fine_mono [OF parse_chars_fine [of t], of s] by (simp add: parse_string_def)
qed (simp add: parse_string_def)

lemma parse_number_fine:
  "starts_with_digit s \<or> take 1 s = [45] \<Longrightarrow> fine s (parse_number s)"
  by (cases s; cases "tl s") (auto simp: parse_number_def starts_with_digit_def Let_def
      length_dropWhile_le less_Suc_eq_le intro: le_SucI)

lemma fine_and_then:
  assumes "fine s r" "\<And>x t. r = Inr (x, t) \<Longrightarrow> length t < length s \<Longrightarrow> fine s (g (x, t))"
  shows "fine s (and_then r g)"
proof (cases r)
  case (Inr y)
  obtain x t where "y = (x, t)" by (cases y)
  with assms Inr show ?thesis by simp
qed (use assms in simp)

lemma fine_if: "(b \<Longrightarrow> fine s x) \<Longrightarrow> (\<not> b \<Longrightarrow> fine s y) \<Longrightarrow> fine s (if b then x else y)"
  by simp

lemma fine_expect:
  assumes "\<And>t. length t < length s \<Longrightarrow> fine s' (g t)"
  shows "fine s' (and_then (expect_byte b s) g)"
  using assms by (cases rule: expect_byte_cases [of b s]) auto

lemma parse_elements_fine:
  assumes f: "\<And>s. length s < k \<Longrightarrow> fine s (f s)"
  shows "length s < k \<Longrightarrow> length s < n \<Longrightarrow> fine s (parse_elements f n vs s)"
proof (induction n arbitrary: vs s)
  case (Suc n)
  have "fine s (case consume_byte 93 (skip_whitespace t) of Some u \<Rightarrow> Inr (JArray ws, u)
      | None \<Rightarrow> and_then (expect_byte 44 (skip_whitespace t)) (parse_elements f n ws))"
    if "length t < length s" for t ws
  proof (cases "consume_byte 93 (skip_whitespace t)")
    case None
    have "fine s (and_then (expect_byte 44 (skip_whitespace t)) (parse_elements f n ws))"
    proof (rule fine_expect)
      fix u :: ustr assume "length u < length (skip_whitespace t)"
      then have u: "length u < length s" using that skip_whitespace_length [of t] by linarith
      show "fine s (parse_elements f n ws u)"
        by (rule fine_mono [OF Suc.IH]) (use u Suc.prems in auto)
    qed
    with None show ?thesis by simp
  next
    case (Some u)
    then show ?thesis
      using that skip_whitespace_length [of t] by (auto simp: consume_byte_Some)
  qed
  with f [OF Suc.prems(1)] show ?case
    by (auto intro!: fine_and_then simp: Let_def)
qed simp

lemma parse_members_fine:
  assumes f: "\<And>s. length s < k \<Longrightarrow> fine s (f s)"
  shows "length s < k \<Longrightarrow> length s < n \<Longrightarrow> fine s (parse_members f n m s)"
proof (induction n arbitrary: m s)
  case (Suc n)
  have tail: "fine s (case consume_byte 125 (skip_whitespace t) of Some u \<Rightarrow> Inr (JObject m', u)
      | None \<Rightarrow> and_then (expect_byte 44 (skip_whitespace t)) (parse_members f n m'))"
    if "length t < length s" for t m'
  proof (cases "consume_byte 125 (skip_whitespace t)")
    case None
    have "fine s (and_then (expect_byte 44 (skip_whitespace t)) (parse_members f n m'))"
    proof (rule fine_expect)
      fix u :: ustr assume "length u < length (skip_whitespace t)"
      then have u: "length u < length s" using that skip_whitespace_length [of t] by linarith
      show "fine s (parse_members f n m' u)"
        by (rule fine_mono [OF Suc.IH]) (use u Suc.prems in auto)
    qed
    with None show ?thesis by simp
  next
    case (Some u)
    then show ?thesis
      using that skip_whitespace_length [of t] by (auto simp: consume_byte_Some)
  qed
  have value_fine: "fine s (f t)" if "length t < length s" for t
    by (rule fine_mono [OF f]) (use that Suc.prems in auto)
  have key: "fine s (parse_string (skip_whitespace s))"
    by (rule fine_mono [OF parse_string_fine]) simp
  show ?case unfolding parse_members.simps
  proof (rule fine_and_then [OF key], unfold split_conv, rule fine_expect)
    fix k and t u :: ustr assume t: "length t < length s" and u: "length u < length (skip_whitespace t)"
    have u: "length u < length s" using t u skip_whitespace_length [of t] by linarith
    show "fine s (and_then (f u) (\<lambda>(v, s). if bm_get m k \<noteq> None then Inl (DuplicateKey k)
        else let values = bm_insert k v m; s = skip_whitespace s in
          case consume_byte 125 s of Some s \<Rightarrow> Inr (JObject values, s)
          | None \<Rightarrow> and_then (expect_byte 44 s) (parse_members f n values)))"
      by (rule fine_and_then [OF value_fine [OF u]]) (simp add: Let_def tail)
  qed
qed simp

lemma fine_literal:
  assumes "l \<noteq> []"
  shows "fine s (map_ok (Pair v) (consume_literal l s))"
  using assms by (auto simp: consume_literal_def strip_prefix_Some split: option.splits)

lemma parse_value_fine: "length s < n \<Longrightarrow> fine s (parse_value n s)"
proof (induction n arbitrary: s)
  case (Suc n)
  let ?s = "skip_whitespace s"
  have obj: "fine ?s (case consume_byte 125 (skip_whitespace t) of Some u \<Rightarrow> Inr (JObject [], u)
      | None \<Rightarrow> parse_members (parse_value n) n [] (skip_whitespace t))"
    and arr: "fine ?s (case consume_byte 93 (skip_whitespace t) of Some u \<Rightarrow> Inr (JArray [], u)
      | None \<Rightarrow> parse_elements (parse_value n) n [] (skip_whitespace t))"
    if t: "length t < length ?s" for t
  proof -
    have le: "length (skip_whitespace t) < length ?s" "length (skip_whitespace t) < n"
      using t Suc.prems skip_whitespace_length [of t] skip_whitespace_length [of s] by linarith+
    have "fine ?s (parse_members (parse_value n) n [] (skip_whitespace t))"
      by (rule fine_mono [OF parse_members_fine [where k = n]]) (use Suc.IH le in auto)
    then show "fine ?s (case consume_byte 125 (skip_whitespace t) of Some u \<Rightarrow> Inr (JObject [], u)
        | None \<Rightarrow> parse_members (parse_value n) n [] (skip_whitespace t))"
      using le by (auto simp: consume_byte_Some split: option.splits)
    have "fine ?s (parse_elements (parse_value n) n [] (skip_whitespace t))"
      by (rule fine_mono [OF parse_elements_fine [where k = n]]) (use Suc.IH le in auto)
    then show "fine ?s (case consume_byte 93 (skip_whitespace t) of Some u \<Rightarrow> Inr (JArray [], u)
        | None \<Rightarrow> parse_elements (parse_value n) n [] (skip_whitespace t))"
      using le by (auto simp: consume_byte_Some split: option.splits)
  qed
  have "fine ?s (parse_value (Suc n) s)"
  proof (cases "?s")
    case (Cons c u)
    have num: "fine ?s (parse_number ?s)" if "c = 45 \<or> is_ascii_digit c"
      by (rule parse_number_fine) (use that Cons in \<open>auto simp: starts_with_digit_def\<close>)
    have o1: "fine ?s (and_then (expect_byte 123 ?s) (\<lambda>s. let s = skip_whitespace s in
            case consume_byte 125 s of Some s \<Rightarrow> Inr (JObject bm_empty, s)
            | None \<Rightarrow> parse_members (parse_value n) n bm_empty s))"
      by (rule fine_expect) (simp add: Let_def obj)
    have a1: "fine ?s (and_then (expect_byte 91 ?s) (\<lambda>s. let s = skip_whitespace s in
            case consume_byte 93 s of Some s \<Rightarrow> Inr (JArray [], s)
            | None \<Rightarrow> parse_elements (parse_value n) n [] s))"
      by (rule fine_expect) (simp add: Let_def arr)
    have s1: "fine ?s (map_ok (\<lambda>(a, r). (JString a, r)) (parse_string ?s))"
      by (rule fine_map_ok_Pair) (rule parse_string_fine)
    note all = num o1 a1 s1 fine_literal [of "lit ''null''" ?s JNull]
      fine_literal [of "lit ''true''" ?s "JBool True"] fine_literal [of "lit ''false''" ?s "JBool False"]
    show ?thesis unfolding parse_value.simps Let_def [of ?s]
      unfolding Cons list.case by (intro fine_if; (rule all [unfolded Cons] | simp); simp)
  qed simp
  then show ?case by (rule fine_mono) simp
qed simp


section \<open>Printed documents\<close>

text \<open>
  A number is printed in decimal, a string escaped between quotes, and an object keeps the order
  its keys are written in. \<open>json_of\<close> is the value the reader is to return.
\<close>

datatype jdoc = DNull | DBool bool | DNumber nat | DString ustr | DArray "jdoc list"
  | DObject "(ustr \<times> jdoc) list"

definition hex_digit :: "nat \<Rightarrow> uchar" where
  "hex_digit n = (if n < 10 then 48 + n else 87 + n)"

text \<open>\<open>{:04x}\<close> of a value below \<open>0x10000\<close>\<close>

definition hex4 :: "nat \<Rightarrow> ustr" where
  "hex4 n = [hex_digit (n div 4096), hex_digit (n div 256 mod 16), hex_digit (n div 16 mod 16),
     hex_digit (n mod 16)]"

definition escape_json_char :: "uchar \<Rightarrow> ustr" where
  "escape_json_char c =
     (if c = 34 then [92, 34] else if c = 92 then [92, 92] else if c = 8 then [92, 98]
      else if c = 12 then [92, 102] else if c = 10 then [92, 110] else if c = 13 then [92, 114]
      else if c = 9 then [92, 116] else if is_control c then [92, 117] @ hex4 c else [c])"

definition escape_json_string :: "ustr \<Rightarrow> ustr" where
  "escape_json_string s = concat (map escape_json_char s)"

definition json_quote :: "(uchar \<Rightarrow> ustr) \<Rightarrow> ustr \<Rightarrow> ustr" where
  "json_quote esc s = [34] @ concat (map esc s) @ [34]"

definition show_bool :: "bool \<Rightarrow> ustr" where
  "show_bool b = (if b then lit ''true'' else lit ''false'')"

fun render :: "(uchar \<Rightarrow> ustr) \<Rightarrow> jdoc \<Rightarrow> ustr" where
  "render esc DNull = lit ''null''"
| "render esc (DBool b) = show_bool b"
| "render esc (DNumber n) = show_nat n"
| "render esc (DString s) = json_quote esc s"
| "render esc (DArray ds) = [91] @ join [44] (map (render esc) ds) @ [93]"
| "render esc (DObject kds) =
     [123] @ join [44] (map (\<lambda>(k, d). json_quote esc k @ [58] @ render esc d) kds) @ [125]"

fun json_of :: "jdoc \<Rightarrow> json" where
  "json_of DNull = JNull"
| "json_of (DBool b) = JBool b"
| "json_of (DNumber n) = JNumber (show_nat n)"
| "json_of (DString s) = JString s"
| "json_of (DArray ds) = JArray (map json_of ds)"
| "json_of (DObject kds) = JObject (bm_of_list (map (\<lambda>(k, d). (k, json_of d)) kds))"

fun distinct_keys :: "jdoc \<Rightarrow> bool" where
  "distinct_keys (DArray ds) \<longleftrightarrow> list_all distinct_keys ds"
| "distinct_keys (DObject kds) \<longleftrightarrow> distinct (map fst kds) \<and> list_all (\<lambda>(k, d). distinct_keys d) kds"
| "distinct_keys _ \<longleftrightarrow> True"

subsection \<open>Strings are read back\<close>

lemma hex_digit_value: "n < 16 \<Longrightarrow> is_ascii_hexdigit (hex_digit n) \<and> hex_value (hex_digit n) = n"
  by (auto simp: hex_digit_def is_ascii_hexdigit_def hex_value_def is_ascii_digit_def)

lemma hex_digit_ascii: "n < 16 \<Longrightarrow> len_utf8 (hex_digit n) = 1"
  by (simp add: hex_digit_def len_utf8_def)

lemma parse_hex4: "n < 256 \<Longrightarrow> parse_hex_code_unit (hex4 n @ r) = Inr (n, r)"
proof -
  assume n: "n < 256"
  define h l where "h = n div 16" and "l = n mod 16"
  have hl: "h < 16" "l < 16" "n = 16 * h + l" using n by (simp_all add: h_def l_def)
  have hex: "hex4 n = [hex_digit 0, hex_digit 0, hex_digit h, hex_digit l]"
    using n hl(1) by (simp add: hex4_def h_def l_def)
  have "take_bytes 4 (hex4 n @ r) = Some (hex4 n, r)"
    using hl(1,2) hex_digit_ascii [of 0] hex_digit_ascii [of h] hex_digit_ascii [of l]
    by (simp add: hex eval_nat_numeral)
  then show ?thesis
    using hex_digit_value [of 0] hex_digit_value [OF hl(1)] hex_digit_value [OF hl(2)]
    by (simp add: parse_hex_code_unit_def hex) (simp add: hl(3))
qed

lemma parse_control_escape:
  "is_control c \<Longrightarrow> parse_escape_sequence ([117] @ hex4 c @ r) = Inr (c, r)"
  by (auto simp: parse_escape_sequence_def parse_unicode_escape_def parse_hex4 is_control_def
      scalar_def)

lemma skip_no_space: "s \<noteq> [] \<Longrightarrow> \<not> json_space (hd s) \<Longrightarrow> skip_whitespace s = s"
  by (cases s) (simp_all add: skip_whitespace_def)

lemma expect_byte_here: "\<not> json_space b \<Longrightarrow> expect_byte b (b # s) = Inr s"
  by (simp add: expect_byte_def skip_no_space)

subsection \<open>Trees are read back\<close>

text \<open>What may follow a value: the end, a comma or a closing bracket.\<close>

definition value_end :: "ustr \<Rightarrow> bool" where
  "value_end r \<longleftrightarrow> r = [] \<or> hd r \<in> {44, 93, 125}"


lemma value_end_simps [simp]:
  "value_end []" "value_end (44 # r)" "value_end (93 # r)" "value_end (125 # r)"
  by (simp_all add: value_end_def)

lemma value_end_no_digit: "value_end r \<Longrightarrow> dropWhile is_ascii_digit r = r \<and> \<not> starts_with_digit r"
  by (cases r) (auto simp: value_end_def is_ascii_digit_def starts_with_digit_def)

lemma show_nat_hd: "is_ascii_digit (hd (show_nat n))"
  using show_nat_digits [of n] by (cases "show_nat n") auto

lemma show_nat_zero: "hd (show_nat n) = 48 \<longleftrightarrow> n = 0"
proof (induction n rule: show_nat.induct)
  case (1 n)
  show ?case
    by (cases "n < 10") (use 1 in \<open>auto simp: show_nat.simps [of n] div_eq_0_iff\<close>)
qed

lemma parse_show_nat: "value_end r \<Longrightarrow> parse_number (show_nat n @ r) = Inr (JNumber (show_nat n), r)"
proof -
  assume r: "value_end r"
  obtain c t where ct: "show_nat n = c # t" by (cases "show_nat n") auto
  have c: "is_ascii_digit c" "c = 48 \<longleftrightarrow> n = 0" using show_nat_hd [of n] show_nat_zero [of n] ct by simp_all
  have ds: "dropWhile is_ascii_digit (show_nat n @ r) = r"
    using show_nat_digits [of n] value_end_no_digit [OF r] by (simp add: dropWhile_append2)
  have c45: "c \<noteq> 45" using c(1) by (auto simp: is_ascii_digit_def)
  show ?thesis
  proof (cases "n = 0")
    case True
    then have "show_nat n = [48]" by (simp add: show_nat.simps)
    with value_end_no_digit [OF r] show ?thesis by (simp add: parse_number_def)
  next
    case False
    then have "consume_byte 48 (show_nat n @ r) = None" "consume_byte 45 (show_nat n @ r) = None"
      using c c45 ct by simp_all
    moreover have "starts_with_digit (show_nat n @ r)" using c(1) ct by (simp add: starts_with_digit_def)
    ultimately show ?thesis using ds by (simp add: parse_number_def)
  qed
qed

lemma render_hd: "render esc d \<noteq> [] \<and> \<not> json_space (hd (render esc d)) \<and> hd (render esc d) \<noteq> 93"
proof (cases d)
  case (DNumber n)
  then show ?thesis using show_nat_hd [of n] by (auto simp: json_space_def is_ascii_digit_def)
qed (auto simp: json_space_def json_quote_def show_bool_def lit_def)

lemma parse_elements_render:
  assumes "\<And>d r. d \<in> set ds \<Longrightarrow> value_end r \<Longrightarrow> f (render esc d @ r) = Inr (json_of d, r)"
    and "ds \<noteq> []" "length ds \<le> n"
  shows "parse_elements f n vs (join [44] (map (render esc) ds) @ 93 # r) = Inr (JArray (vs @ map json_of ds), r)"
  using assms
proof (induction ds arbitrary: n vs)
  case (Cons d ds)
  obtain k where n: "n = Suc k" using Cons.prems(3) by (cases n) auto
  show ?case
  proof (cases ds)
    case Nil
    then show ?thesis using Cons.prems(1) [of d "93 # r"] n by (simp add: skip_no_space json_space_def)
  next
    case (Cons e es)
    let ?rest = "join [44] (map (render esc) ds) @ 93 # r"
    have "f (render esc d @ 44 # ?rest) = Inr (json_of d, 44 # ?rest)" using Cons.prems(1) by simp
    moreover have "parse_elements f k (vs @ [json_of d]) ?rest
        = Inr (JArray ((vs @ [json_of d]) @ map json_of ds), r)"
      by (rule Cons.IH) (use Cons.prems n Cons in auto)
    ultimately show ?thesis
      using Cons n by (simp add: skip_no_space json_space_def expect_byte_here)
  qed
qed simp

lemma length_join:
  "(\<And>x. x \<in> set xs \<Longrightarrow> x \<noteq> []) \<Longrightarrow> length xs \<le> length (join sep xs)"
proof (induction sep xs rule: join.induct)
  case (3 sep x y ys)
  then have "length (y # ys) \<le> length (join sep (y # ys))" "x \<noteq> []" by auto
  then show ?case by (cases x) auto
qed (auto simp: Suc_le_eq)

lemma length_join_mem: "x \<in> set xs \<Longrightarrow> length x \<le> length (join sep xs)"
  by (induction sep xs rule: join.induct) auto

lemma hd_join: "xs \<noteq> [] \<Longrightarrow> hd xs \<noteq> [] \<Longrightarrow> hd (join sep xs @ r) = hd (hd xs) \<and> join sep xs \<noteq> []"
  by (cases "(sep, xs)" rule: join.cases) auto

lemma parse_value_start:
  assumes "\<not> json_space c"
  shows "skip_whitespace (c # s) = c # s"
  using assms by (simp add: skip_no_space)

lemma parse_value_array:
  assumes f: "\<And>d r. d \<in> set ds \<Longrightarrow> value_end r \<Longrightarrow> parse_value n (render esc d @ r) = Inr (json_of d, r)"
    and len: "length ds \<le> n"
  shows "parse_value (Suc n) (render esc (DArray ds) @ r) = Inr (json_of (DArray ds), r)"
proof (cases "ds = []")
  case True
  then show ?thesis by (simp add: parse_value_start json_space_def expect_byte_here)
next
  case False
  let ?body = "join [44] (map (render esc) ds) @ 93 # r"
  have hd: "hd ?body = hd (render esc (hd ds))" "?body \<noteq> []"
    using False hd_join [of "map (render esc) ds" "[44]"] render_hd by (simp_all add: hd_map)
  have skip: "skip_whitespace ?body = ?body"
    by (rule skip_no_space) (use hd render_hd in simp_all)
  have "consume_byte 93 ?body = None"
    using hd render_hd [of esc "hd ds"] by (cases ?body) auto
  moreover have "parse_elements (parse_value n) n [] ?body = Inr (JArray (map json_of ds), r)"
    using parse_elements_render [of ds "parse_value n" esc n "[]" r] f False len by simp
  ultimately show ?thesis
    by (simp add: parse_value_start json_space_def expect_byte_here skip)
qed

lemma parse_value_literal:
  "parse_value (Suc n) (lit ''null'' @ r) = Inr (JNull, r)"
  "parse_value (Suc n) (lit ''true'' @ r) = Inr (JBool True, r)"
  "parse_value (Suc n) (lit ''false'' @ r) = Inr (JBool False, r)"
  by (simp_all add: lit_def parse_value_start json_space_def consume_literal_def strip_prefix_def)

lemma parse_value_number: "value_end r \<Longrightarrow> parse_value (Suc n) (show_nat k @ r) = Inr (JNumber (show_nat k), r)"
proof -
  assume "value_end r"
  moreover obtain c t where ct: "show_nat k = c # t" by (cases "show_nat k") auto
  moreover have "is_ascii_digit c" using show_nat_hd [of k] ct by simp
  moreover from this have "\<not> json_space c" "c \<notin> {123, 91, 34, 110, 116, 102}"
    by (auto simp: is_ascii_digit_def json_space_def)
  ultimately show ?thesis using parse_show_nat [of r k] by (simp add: parse_value_start)
qed

text \<open>The keys and names a writer prints between plain quotes.\<close>

definition plain_char :: "uchar \<Rightarrow> bool" where
  "plain_char c \<longleftrightarrow> 32 \<le> c \<and> c < 127 \<and> c \<noteq> 34 \<and> c \<noteq> 92"

definition plain_text :: "string \<Rightarrow> bool" where
  "plain_text k = list_all (\<lambda>c. plain_char (of_char c)) k"

definition json_field :: "string \<Rightarrow> ustr" where
  "json_field k = [34] @ lit k @ [34, 58]"

lemma punctuation:
  "lit ''{'' = [123]" "lit ''}'' = [125]" "lit ''['' = [91]" "lit '']'' = [93]" "lit '','' = [44]"
  by (simp_all add: lit_def)

definition optional_doc :: "ustr option \<Rightarrow> jdoc" where
  "optional_doc v = (case v of None \<Rightarrow> DNull | Some s \<Rightarrow> DString s)"

definition number_doc :: "u64 \<Rightarrow> jdoc" where
  "number_doc n = DNumber (unat n)"

lemma parse_u64_show_nat [simp]: "parse_u64 (show_nat (unat n)) = Some n" for n :: u64
  using parse_show_u64 [of n] by (simp add: show_u64_def)

definition optional_number_doc :: "u64 option \<Rightarrow> jdoc" where
  "optional_number_doc v = (case v of None \<Rightarrow> DNull | Some n \<Rightarrow> number_doc n)"

lemma into_number_doc: "into_number (json_of (number_doc n)) ctx = Inr n"
  by (simp add: number_doc_def)

lemma optional_back: "into_optional_string (json_of (optional_doc v)) ctx = Inr v"
  by (simp add: optional_doc_def split: option.splits)

lemma render_number: "render esc (number_doc n) = show_u64 n"
  by (simp add: number_doc_def show_u64_def)

text \<open>
  What a writer has to know about its escapes: the reader takes an escaped character for that
  character. Every writer that does is read back.
\<close>

locale string_escape =
  fixes esc :: "uchar \<Rightarrow> ustr"
  assumes read_escaped:
    "r \<noteq> [] \<Longrightarrow> parse_chars (esc c @ r) = map_ok (\<lambda>(a, r). (c # a, r)) (parse_chars r)"
    and plain_escape: "plain_char c \<Longrightarrow> esc c = [c]"
begin

lemma escape_plain_text: "plain_text k \<Longrightarrow> concat (map esc (lit k)) = lit k"
  by (induction k) (simp_all add: plain_text_def lit_def plain_escape)

lemma quoted_key: "plain_text k \<Longrightarrow> json_quote esc (lit k) @ 58 # r = json_field k @ r"
  by (simp add: json_quote_def json_field_def escape_plain_text)

lemma quoted_text: "plain_text k \<Longrightarrow> json_quote esc (lit k) = [34] @ lit k @ [34]"
  by (simp add: json_quote_def escape_plain_text)

lemma parse_escaped: "parse_chars (concat (map esc s) @ 34 # r) = Inr (s, r)"
  by (induction s) (simp_all add: read_escaped)

lemma parse_json_quote: "parse_string (json_quote esc s @ r) = Inr (s, r)"
  using parse_escaped [of s r]
  by (simp add: parse_string_def json_quote_def expect_byte_here json_space_def)

lemma parse_members_render:
  assumes "\<And>k d r. (k, d) \<in> set kds \<Longrightarrow> value_end r \<Longrightarrow> f (render esc d @ r) = Inr (json_of d, r)"
    and "kds \<noteq> []" "length kds \<le> n" "distinct (map fst kds)"
    and "\<And>k. k \<in> fst ` set kds \<Longrightarrow> bm_get m k = None"
  shows "parse_members f n m (join [44] (map (\<lambda>(k, d). json_quote esc k @ [58] @ render esc d) kds) @ 125 # r)
     = Inr (JObject (fold (\<lambda>(k, v). bm_insert k v) (map (\<lambda>(k, d). (k, json_of d)) kds) m), r)"
  using assms
proof (induction kds arbitrary: n m)
  case (Cons kd kds)
  obtain j where n: "n = Suc j" using Cons.prems(3) by (cases n) auto
  obtain k d where kd: "kd = (k, d)" by (cases kd)
  have quote: "skip_whitespace (json_quote esc k @ s) = json_quote esc k @ s" for s
    by (rule skip_no_space) (simp_all add: json_quote_def json_space_def)
  have fresh: "bm_get m k = None" using Cons.prems(5) kd by simp
  have val: "f (render esc d @ s) = Inr (json_of d, s)" if "value_end s" for s
    by (rule Cons.prems(1) [of k]) (simp_all add: kd that)
  show ?case
  proof (cases kds)
    case Nil
    then show ?thesis using n kd fresh
      by (simp add: quote parse_json_quote val skip_no_space json_space_def expect_byte_here Let_def)
  next
    case (Cons e es)
    let ?rest = "join [44] (map (\<lambda>(k, d). json_quote esc k @ [58] @ render esc d) kds) @ 125 # r"
    have "parse_members f j (bm_insert k (json_of d) m) ?rest = Inr (JObject
        (fold (\<lambda>(k, v). bm_insert k v) (map (\<lambda>(k, d). (k, json_of d)) kds) (bm_insert k (json_of d) m)), r)"
      by (rule Cons.IH) (use Cons.prems n kd Cons in \<open>auto simp: bm_get_insert\<close>)
    then show ?thesis using Cons n kd fresh
      by (simp add: quote parse_json_quote val skip_no_space json_space_def expect_byte_here)
  qed
qed simp

lemma parse_value_object:
  assumes f: "\<And>k d r. (k, d) \<in> set kds \<Longrightarrow> value_end r \<Longrightarrow> parse_value n (render esc d @ r) = Inr (json_of d, r)"
    and len: "length kds \<le> n" and dist: "distinct (map fst kds)"
  shows "parse_value (Suc n) (render esc (DObject kds) @ r) = Inr (json_of (DObject kds), r)"
proof (cases "kds = []")
  case True
  then show ?thesis by (simp add: parse_value_start json_space_def expect_byte_here bm_of_list_def)
next
  case False
  let ?body = "join [44] (map (\<lambda>(k, d). json_quote esc k @ [58] @ render esc d) kds) @ 125 # r"
  have "hd (map (\<lambda>(k, d). json_quote esc k @ [58] @ render esc d) kds) = 34 # tl (hd (map (\<lambda>(k, d). json_quote esc k @ [58] @ render esc d) kds))"
    using False by (cases kds) (auto simp: json_quote_def)
  then have hd: "hd ?body = 34" "?body \<noteq> []"
    using False hd_join [of "map (\<lambda>(k, d). json_quote esc k @ [58] @ render esc d) kds" "[44]" "125 # r"]
    by (metis (lifting) list.discI list.map_disc_iff list.sel(1), simp)
  have skip: "skip_whitespace ?body = ?body"
    by (rule skip_no_space) (use hd in \<open>simp_all add: json_space_def\<close>)
  have "consume_byte 125 ?body = None"
    using hd by (cases ?body) auto
  moreover have "parse_members (parse_value n) n [] ?body = Inr (json_of (DObject kds), r)"
    using parse_members_render [of kds "parse_value n" n "[]" r] f False len dist
    by (simp add: bm_of_list_def)
  ultimately show ?thesis using skip
    by (simp add: parse_value_start json_space_def expect_byte_here Let_def)
qed

lemma parse_value_string: "parse_value (Suc n) (json_quote esc s @ r) = Inr (JString s, r)"
  using parse_json_quote [of s r] by (simp add: json_quote_def parse_value_start json_space_def)

lemma parse_value_render:
  "distinct_keys d \<Longrightarrow> value_end r \<Longrightarrow> length (render esc d) < n
     \<Longrightarrow> parse_value n (render esc d @ r) = Inr (json_of d, r)"
proof (induction d arbitrary: n r)
  case (DArray ds)
  obtain m where n: "n = Suc m" "length (join [44] (map (render esc) ds)) < m"
    using DArray.prems(3) by (cases n) auto
  have mem: "length (render esc d) < m" if "d \<in> set ds" for d
    using n(2) length_join_mem [of "render esc d" "map (render esc) ds" "[44]"] that by simp
  have "length ds \<le> m"
    using n(2) length_join [of "map (render esc) ds" "[44]"] render_hd by force
  then show ?case unfolding n(1)
    by (intro parse_value_array) (use DArray.IH DArray.prems(1) mem in \<open>auto simp: list_all_iff\<close>)
next
  case (DObject kds)
  let ?m = "\<lambda>(k, d). json_quote esc k @ [58] @ render esc d"
  obtain m where n: "n = Suc m" "length (join [44] (map ?m kds)) < m"
    using DObject.prems(3) by (cases n) auto
  have mem: "length (render esc d) < m" if "(k, d) \<in> set kds" for k d
    using n(2) length_join_mem [of "?m (k, d)" "map ?m kds" "[44]"] that by force
  have "length kds \<le> m"
    using n(2) length_join [of "map ?m kds" "[44]"] by force
  then show ?case unfolding n(1)
    by (intro parse_value_object) (use DObject.IH DObject.prems(1) mem in \<open>fastforce simp: list_all_iff\<close>)+
next
  case DNull
  then show ?case by (cases n) (simp_all add: parse_value_literal del: parse_value.simps(2))
next
  case (DBool b)
  then show ?case
    by (cases n) (simp_all add: parse_value_literal show_bool_def del: parse_value.simps(2))
next
  case (DNumber k)
  then show ?case by (cases n) (simp_all add: parse_value_number del: parse_value.simps(2))
next
  case (DString k)
  then show ?case by (cases n) (simp_all add: parse_value_string del: parse_value.simps(2))
qed

text \<open>Every printed document is read back, up to the order and the text of its parts.\<close>

lemma parse_json_render: "distinct_keys d \<Longrightarrow> parse_json (render esc d) = Inr (json_of d)"
  using parse_value_render [of d "[]" "Suc (length (render esc d))"]
  by (simp add: parse_json_def skip_whitespace_def)

end

text \<open>The writer of \<open>state/mod.rs\<close> is one.\<close>

interpretation state_text: string_escape escape_json_char
proof
  fix r :: ustr and c assume "r \<noteq> []"
  then show "parse_chars (escape_json_char c @ r) = map_ok (\<lambda>(a, r). (c # a, r)) (parse_chars r)"
    using parse_control_escape [of c r]
    by (auto simp: escape_json_char_def parse_escape_sequence_def)
qed (simp add: escape_json_char_def plain_char_def is_control_def)

text \<open>The depth bound the reader starts with is never used up: for every input, well formed or
  not, it returns a value or one of the errors of the code.\<close>

theorem parse_json_decides: "parse_json input \<noteq> Inl OutOfFuel"
  using parse_value_fine [of input "Suc (length input)"]
  by (auto simp: parse_json_def fine_def result_simps Let_def split: sum.splits if_splits)

end
