(* ===== verification/Autospec_Error.thy ===== *)
theory Autospec_Error
  imports Rust_Base
begin

text \<open>
  The error type of the core crate (\<open>error.rs\<close>), its text, and the conversions \<open>?\<close> applies between
  it and plain messages.
\<close>

datatype autospec_error =
    ValidationError ustr
  | ParseError ustr ustr
  | StateError ustr ustr
  | SchemaError ustr ustr
  | InvariantError ustr
  | IoError ustr ustr ustr
  | OtherError ustr

fun error_display :: "autospec_error \<Rightarrow> ustr" where
  "error_display (ValidationError m) = lit ''validation: '' @ m"
| "error_display (ParseError ctx m) = lit ''parse error in '' @ ctx @ lit '': '' @ m"
| "error_display (StateError ent m) = lit ''state error for '' @ ent @ lit '': '' @ m"
| "error_display (SchemaError n ver) = lit ''unsupported '' @ n @ lit '' schema: '' @ ver"
| "error_display (InvariantError m) = lit ''invariant violation: '' @ m"
| "error_display (IoError op p src) = lit ''failed to '' @ op @ lit '' '' @ p @ lit '': '' @ src"
| "error_display (OtherError m) = m"

fun map_err :: "('e \<Rightarrow> 'f) \<Rightarrow> 'e + 'a \<Rightarrow> 'f + 'a" where
  "map_err f (Inl e) = Inl (f e)"
| "map_err f (Inr x) = Inr x"

text \<open>\<open>From<String> for AutospecError\<close> and \<open>From<AutospecError> for String\<close>\<close>

definition lift_message :: "ustr + 'a \<Rightarrow> autospec_error + 'a" where
  "lift_message r = map_err OtherError r"

definition lower_error :: "autospec_error + 'a \<Rightarrow> ustr + 'a" where
  "lower_error r = map_err error_display r"

lemma map_err_Inr [simp, result_simps]: "map_err f r = Inr x \<longleftrightarrow> r = Inr x"
  by (cases r) auto

lemma lift_message_Inr [simp, result_simps]: "lift_message r = Inr x \<longleftrightarrow> r = Inr x"
  by (simp add: lift_message_def)

lemma lower_error_Inr [simp, result_simps]: "lower_error r = Inr x \<longleftrightarrow> r = Inr x"
  by (simp add: lower_error_def)

lemma lift_message_simps [simp]: "lift_message (Inr x) = Inr x" "lower_error (Inr x) = Inr x"
  by simp_all

text \<open>A message survives the way into an error and back.\<close>

lemma lower_lift: "lower_error (lift_message r) = r"
  by (cases r) (simp_all add: lower_error_def lift_message_def)

end
