(* ===== verification/Conductor_Store.thy ===== *)
theory Conductor_Store
  imports Conductor_Safety Json Autospec_Error
begin

text \<open>
  The JSON form of the conductor state (\<open>coordination/conductor/persistence.rs\<close>): the writer
  \<open>to_json\<close>, the reader \<open>parse_json\<close> with its defaults for fields older documents lack, and the
  proof that every state the conductor can reach is read back.

  Messages of the reader are kept as text; an error of the validation is the error value of
  \<open>Conductor\<close> (\<open>Invalid\<close>).
\<close>

section \<open>Names\<close>

definition CONDUCTOR_SCHEMA :: u64 where
  "CONDUCTOR_SCHEMA = 1"

fun scope_text :: "conductor_scope \<Rightarrow> string" where
  "scope_text Repository = ''repository''"
| "scope_text Slice = ''slice''"

definition parse_scope :: "ustr \<Rightarrow> ustr + conductor_scope" where
  "parse_scope value =
     (if value = lit ''repository'' then Inr Repository else if value = lit ''slice'' then Inr Slice
      else Inl (lit ''unknown conductor scope: '' @ value))"

fun phase_text :: "conductor_phase \<Rightarrow> string" where
  "phase_text Scan = ''scan''"
| "phase_text Review = ''review''"
| "phase_text Select = ''select''"
| "phase_text Claim = ''claim''"
| "phase_text Dispatch = ''dispatch''"
| "phase_text DispatchRecorded = ''dispatch_recorded''"
| "phase_text Retry = ''retry''"
| "phase_text Paused = ''paused''"
| "phase_text SliceComplete = ''slice_complete''"
| "phase_text AllDone = ''all_done''"
| "phase_text TierDry = ''tier_dry''"
| "phase_text AllBlockedPhase = ''all_blocked''"
| "phase_text VerifierUnavailablePhase = ''verifier_unavailable''"
| "phase_text IdleRescan = ''idle_rescan''"
| "phase_text ResourceParkPhase = ''resource_park''"
| "phase_text OperatorStopPhase = ''operator_stop''"

definition parse_phase :: "ustr \<Rightarrow> ustr + conductor_phase" where
  "parse_phase value =
     (if value = lit ''scan'' then Inr Scan else if value = lit ''review'' then Inr Review
      else if value = lit ''select'' then Inr Select else if value = lit ''claim'' then Inr Claim
      else if value = lit ''dispatch'' then Inr Dispatch
      else if value = lit ''dispatch_recorded'' then Inr DispatchRecorded
      else if value = lit ''retry'' then Inr Retry else if value = lit ''paused'' then Inr Paused
      else if value = lit ''slice_complete'' then Inr SliceComplete
      else if value = lit ''all_done'' then Inr AllDone
      else if value = lit ''tier_dry'' then Inr TierDry
      else if value = lit ''all_blocked'' then Inr AllBlockedPhase
      else if value = lit ''verifier_unavailable'' then Inr VerifierUnavailablePhase
      else if value = lit ''idle_rescan'' then Inr IdleRescan
      else if value = lit ''resource_park'' then Inr ResourceParkPhase
      else if value = lit ''operator_stop'' then Inr OperatorStopPhase
      else Inl (lit ''unknown conductor phase: '' @ value))"

section \<open>The writer\<close>

definition escape_conductor_char :: "uchar \<Rightarrow> ustr" where
  "escape_conductor_char c =
     (if c = 34 then [92, 34] else if c = 92 then [92, 92] else if c = 10 then [92, 110]
      else if c = 13 then [92, 114] else if c = 9 then [92, 116]
      else if is_control c then [92, 117] @ hex4 c else [c])"

definition escape_conductor_json :: "ustr \<Rightarrow> ustr" where
  "escape_conductor_json s = concat (map escape_conductor_char s)"

definition quoted_json :: "ustr \<Rightarrow> ustr" where
  "quoted_json s = [34] @ escape_conductor_json s @ [34]"

definition optional_string_json :: "ustr option \<Rightarrow> ustr" where
  "optional_string_json v = (case v of None \<Rightarrow> lit ''null'' | Some s \<Rightarrow> quoted_json s)"

definition optional_number_json :: "u64 option \<Rightarrow> ustr" where
  "optional_number_json v = (case v of None \<Rightarrow> lit ''null'' | Some n \<Rightarrow> show_u64 n)"

definition outcome_object :: "string \<Rightarrow> ustr \<Rightarrow> ustr" where
  "outcome_object kind reason = lit ''{'' @ json_field ''kind'' @ [34] @ lit kind @ [34] @ lit '',''
     @ json_field ''reason'' @ quoted_json reason @ lit ''}''"

fun outcome_to_json :: "conductor_outcome \<Rightarrow> ustr" where
  "outcome_to_json Succeeded = lit ''{'' @ json_field ''kind'' @ [34] @ lit ''succeeded'' @ [34]
     @ lit '','' @ json_field ''reason'' @ lit ''null'' @ lit ''}''"
| "outcome_to_json (Retryable reason) = outcome_object ''retryable'' reason"
| "outcome_to_json (Blocked reason) = outcome_object ''blocked'' reason"
| "outcome_to_json (AllBlocked reason issues) = lit ''{'' @ json_field ''kind'' @ [34]
     @ lit ''all_blocked'' @ [34] @ lit '','' @ json_field ''reason'' @ quoted_json reason @ lit '',''
     @ json_field ''issues'' @ lit ''['' @ join (lit '','') (map show_u64 issues) @ lit '']'' @ lit ''}''"
| "outcome_to_json (VerifierUnavailable reason) = outcome_object ''verifier_unavailable'' reason"
| "outcome_to_json (ResourcePark reason) = outcome_object ''resource_park'' reason"
| "outcome_to_json (OperatorStop reason) = outcome_object ''operator_stop'' reason"

definition conductor_to_json :: "conductor_state \<Rightarrow> ustr" where
  "conductor_to_json s = lit ''{''
     @ json_field ''schema'' @ show_u64 CONDUCTOR_SCHEMA @ lit '',''
     @ json_field ''repo'' @ quoted_json (repo s) @ lit '',''
     @ json_field ''scope'' @ [34] @ lit (scope_text (state_scope s)) @ [34] @ lit '',''
     @ json_field ''phase'' @ [34] @ lit (phase_text (phase s)) @ [34] @ lit '',''
     @ json_field ''state'' @ [34] @ lit (normalized_state s) @ [34] @ lit '',''
     @ json_field ''selected_issue'' @ optional_number_json (selected_issue s) @ lit '',''
     @ json_field ''serialization_reasons'' @ lit ''[''
     @ join (lit '','') (map quoted_json (serialization_reasons s)) @ lit '']'' @ lit '',''
     @ json_field ''retry_count'' @ show_nat (unat (retry_count s)) @ lit '',''
     @ json_field ''retry_limit'' @ show_nat (unat (retry_limit s)) @ lit '',''
     @ json_field ''last_outcome''
     @ (case last_outcome s of None \<Rightarrow> lit ''null'' | Some out \<Rightarrow> outcome_to_json out) @ lit '',''
     @ json_field ''pause_reason'' @ optional_string_json (pause_reason s) @ lit '',''
     @ json_field ''terminal_reason'' @ optional_string_json (terminal_reason s) @ lit '',''
     @ json_field ''resume_phase''
     @ (case resume_phase s of None \<Rightarrow> lit ''null'' | Some p \<Rightarrow> [34] @ lit (phase_text p) @ [34])
     @ lit '','' @ json_field ''no_progress_cycles'' @ show_nat (unat (no_progress_cycles s)) @ lit '',''
     @ json_field ''no_progress_reason'' @ optional_string_json (no_progress_reason s) @ lit '',''
     @ json_field ''blocked_backlog_cycles'' @ show_nat (unat (blocked_backlog_cycles s)) @ lit '',''
     @ json_field ''blocked_backlog_reason'' @ optional_string_json (blocked_backlog_reason s)
     @ lit '','' @ json_field ''blocked_backlog_issues'' @ lit ''[''
     @ join (lit '','') (map show_u64 (blocked_backlog_issues s)) @ lit '']'' @ lit ''}''"

section \<open>The reader\<close>

datatype conductor_load_error = LoadMessage ustr | Invalid conductor_error

fun say :: "ustr + 'a \<Rightarrow> conductor_load_error + 'a" where
  "say (Inl m) = Inl (LoadMessage m)"
| "say (Inr x) = Inr x"

fun valid_or :: "conductor_error + 'a \<Rightarrow> conductor_load_error + 'a" where
  "valid_or (Inl e) = Inl (Invalid e)"
| "valid_or (Inr x) = Inr x"

definition require_only_keys :: "(ustr, json) bmap \<Rightarrow> string list \<Rightarrow> string \<Rightarrow> ustr + unit" where
  "require_only_keys object expected ctx =
     (case find (\<lambda>key. key \<notin> set (map lit expected)) (bm_keys object) of
        Some key \<Rightarrow> Inl (lit ''unexpected '' @ lit ctx @ lit '' field: '' @ key)
      | None \<Rightarrow> Inr ())"

definition take_required ::
  "(ustr, json) bmap \<Rightarrow> string \<Rightarrow> string \<Rightarrow> ustr + json \<times> (ustr, json) bmap" where
  "take_required object key ctx = (case bm_get object (lit key) of
       Some v \<Rightarrow> Inr (v, bm_remove (lit key) object)
     | None \<Rightarrow> Inl (lit ''missing '' @ lit ctx @ lit '' field: '' @ lit key))"

text \<open>\<open>object.remove(key)\<close>\<close>

definition take_optional :: "(ustr, json) bmap \<Rightarrow> string \<Rightarrow> json option \<times> (ustr, json) bmap" where
  "take_optional object key = (bm_get object (lit key), bm_remove (lit key) object)"

definition optional_number :: "json \<Rightarrow> string \<Rightarrow> ustr + u64 option" where
  "optional_number v ctx = (case v of JNull \<Rightarrow> Inr None | _ \<Rightarrow> map_ok Some (into_number v (lit ctx)))"

definition optional_string :: "json option \<Rightarrow> string \<Rightarrow> ustr + ustr option" where
  "optional_string v ctx = (case v of None \<Rightarrow> Inr None
     | Some v \<Rightarrow> map_ok (\<lambda>t. if t = Some [] then None else t) (into_optional_string v (lit ctx)))"

fun parse_reasons :: "nat \<Rightarrow> json list \<Rightarrow> ustr + ustr list" where
  "parse_reasons k [] = Inr []"
| "parse_reasons k (v # vs) =
     and_then (into_string v (lit ''conductor state.serialization_reasons['' @ show_nat k @ lit '']''))
       (\<lambda>r. map_ok (Cons r) (parse_reasons (Suc k) vs))"

definition parse_serialization_reasons :: "json \<Rightarrow> ustr + ustr list" where
  "parse_serialization_reasons v =
     and_then (into_array v (lit ''conductor state.serialization_reasons'')) (parse_reasons 0)"

fun parse_issue_numbers :: "string \<Rightarrow> nat \<Rightarrow> json list \<Rightarrow> ustr + u64 list" where
  "parse_issue_numbers ctx k [] = Inr []"
| "parse_issue_numbers ctx k (v # vs) =
     (let at = lit ctx @ lit ''['' @ show_nat k @ lit '']'' in
      and_then (into_number v at) (\<lambda>n.
        if n = 0 then Inl (at @ lit '' must be positive'')
        else map_ok (Cons n) (parse_issue_numbers ctx (Suc k) vs)))"

definition optional_issues :: "json option \<Rightarrow> string \<Rightarrow> ustr + u64 list" where
  "optional_issues v ctx = (case v of None \<Rightarrow> Inr []
     | Some v \<Rightarrow> and_then (into_array v (lit ctx)) (parse_issue_numbers ctx 0))"

definition optional_phase :: "json \<Rightarrow> string \<Rightarrow> ustr + conductor_phase option" where
  "optional_phase v ctx = (case v of JNull \<Rightarrow> Inr None
     | _ \<Rightarrow> and_then (into_string v (lit ctx)) (\<lambda>t. map_ok Some (parse_phase t)))"

definition outcome_of :: "ustr \<Rightarrow> ustr option \<Rightarrow> u64 list \<Rightarrow> ustr + conductor_outcome" where
  "outcome_of kind reason issues =
     (case reason of
        None \<Rightarrow> if kind = lit ''succeeded'' then Inr Succeeded
                else Inl (lit ''invalid conductor outcome'')
      | Some r \<Rightarrow>
          if r = [] then Inl (lit ''invalid conductor outcome'')
          else if kind = lit ''retryable'' then Inr (Retryable r)
          else if kind = lit ''blocked'' then Inr (Blocked r)
          else if kind = lit ''all_blocked'' then Inr (AllBlocked r issues)
          else if kind = lit ''verifier_unavailable'' then Inr (VerifierUnavailable r)
          else if kind = lit ''resource_park'' then Inr (ResourcePark r)
          else if kind = lit ''operator_stop'' then Inr (OperatorStop r)
          else Inl (lit ''invalid conductor outcome''))"

definition parse_outcome :: "json \<Rightarrow> conductor_load_error + conductor_outcome" where
  "parse_outcome v =
     (let ctx = ''conductor outcome'' in
      and_then (say (into_object v (lit ctx))) (\<lambda>m.
      and_then (say (require_only_keys m [''kind'', ''reason'', ''issues''] ctx)) (\<lambda>u.
      and_then (say (take_required m ''kind'' ctx)) (\<lambda>(v, m).
      and_then (say (into_string v (lit ''conductor outcome.kind''))) (\<lambda>kind.
      and_then (say (take_required m ''reason'' ctx)) (\<lambda>(v, m).
      and_then (say (into_optional_string v (lit ''conductor outcome.reason''))) (\<lambda>reason.
      and_then (say (optional_issues (fst (take_optional m ''issues'')) ''conductor outcome.issues'')) (\<lambda>issues.
      and_then (say (outcome_of kind reason issues)) (\<lambda>out.
      and_then (valid_or (validate_outcome out)) (\<lambda>u. Inr out))))))))))"

definition optional_outcome :: "json \<Rightarrow> conductor_load_error + conductor_outcome option" where
  "optional_outcome v = (case v of JNull \<Rightarrow> Inr None | _ \<Rightarrow> map_ok Some (parse_outcome v))"

text \<open>\<open>u32::try_from\<close>\<close>

definition narrow_u32 :: "string \<Rightarrow> u64 \<Rightarrow> ustr + u32" where
  "narrow_u32 ctx n = (if unat n < 2 ^ 32 then Inr (ucast n) else Inl (lit ctx @ lit '' exceeds u32''))"

definition required_u32 :: "json \<Rightarrow> string \<Rightarrow> ustr + u32" where
  "required_u32 v ctx = and_then (into_number v (lit ctx)) (narrow_u32 ctx)"

definition optional_u32 :: "json option \<Rightarrow> string \<Rightarrow> ustr + u32" where
  "optional_u32 v ctx = (case v of None \<Rightarrow> Inr 0 | Some v \<Rightarrow> required_u32 v ctx)"

definition conductor_keys :: "string list" where
  "conductor_keys = [''schema'', ''repo'', ''scope'', ''phase'', ''state'', ''selected_issue'',
     ''serialization_reasons'', ''retry_count'', ''retry_limit'', ''last_outcome'', ''pause_reason'',
     ''terminal_reason'', ''resume_phase'', ''no_progress_cycles'', ''no_progress_reason'',
     ''blocked_backlog_cycles'', ''blocked_backlog_reason'', ''blocked_backlog_issues'']"

definition legacy_blocked_scan :: "ustr \<Rightarrow> conductor_state \<Rightarrow> bool" where
  "legacy_blocked_scan normalized s \<longleftrightarrow> normalized = lit ''blocked'' \<and> phase s = Scan
     \<and> selected_issue s = None \<and> no_progress_reason s \<noteq> None \<and> is_blocked (last_outcome s)"

definition check_normalized :: "ustr option \<Rightarrow> conductor_state \<Rightarrow> ustr + unit" where
  "check_normalized normalized s = (case normalized of None \<Rightarrow> Inr ()
     | Some n \<Rightarrow> ensure (n = lit (normalized_state s) \<or> legacy_blocked_scan n s)
         (lit ''conductor state normalized state does not match phase/outcome''))"

definition parse_conductor :: "ustr \<Rightarrow> conductor_load_error + conductor_state" where
  "parse_conductor input =
     (let ctx = ''conductor state'' in
      and_then (say (map_err (json_error_text input) (parse_json input))) (\<lambda>value.
      and_then (say (into_object value (lit ctx))) (\<lambda>m.
      and_then (say (require_only_keys m conductor_keys ctx)) (\<lambda>u.
      and_then (say (take_required m ''schema'' ctx)) (\<lambda>(v, m).
      and_then (say (into_number v (lit ''conductor state.schema''))) (\<lambda>schema.
      if schema \<noteq> CONDUCTOR_SCHEMA
      then Inl (LoadMessage (lit ''unsupported conductor state schema: '' @ show_u64 schema))
      else and_then (say (take_required m ''repo'' ctx)) (\<lambda>(v, m).
      and_then (say (into_string v (lit ''conductor state.repo''))) (\<lambda>repo.
      if blank repo then Inl (LoadMessage (lit ''conductor state.repo must not be empty''))
      else and_then (say (take_required m ''scope'' ctx)) (\<lambda>(v, m).
      and_then (say (and_then (into_string v (lit ''conductor state.scope'')) parse_scope)) (\<lambda>sc.
      and_then (say (take_required m ''phase'' ctx)) (\<lambda>(v, m).
      and_then (say (and_then (into_string v (lit ''conductor state.phase'')) parse_phase)) (\<lambda>ph.
      case take_optional m ''state'' of (v, m) \<Rightarrow>
      and_then (say (optional_string v ''conductor state.state'')) (\<lambda>normalized.
      and_then (say (take_required m ''selected_issue'' ctx)) (\<lambda>(v, m).
      and_then (say (optional_number v ''conductor state.selected_issue'')) (\<lambda>selected.
      if selected = Some 0
      then Inl (LoadMessage (lit ''conductor state.selected_issue must be positive''))
      else and_then (say (take_required m ''serialization_reasons'' ctx)) (\<lambda>(v, m).
      and_then (say (parse_serialization_reasons v)) (\<lambda>reasons.
      and_then (say (take_required m ''retry_count'' ctx)) (\<lambda>(v, m).
      and_then (say (required_u32 v ''conductor state.retry_count'')) (\<lambda>count.
      and_then (say (take_required m ''retry_limit'' ctx)) (\<lambda>(v, m).
      and_then (say (required_u32 v ''conductor state.retry_limit'')) (\<lambda>limit.
      and_then (say (take_required m ''last_outcome'' ctx)) (\<lambda>(v, m).
      and_then (optional_outcome v) (\<lambda>out.
      and_then (say (take_required m ''pause_reason'' ctx)) (\<lambda>(v, m).
      and_then (say (into_optional_string v (lit ''conductor state.pause_reason''))) (\<lambda>pause.
      and_then (say (take_required m ''terminal_reason'' ctx)) (\<lambda>(v, m).
      and_then (say (into_optional_string v (lit ''conductor state.terminal_reason''))) (\<lambda>term.
      and_then (say (take_required m ''resume_phase'' ctx)) (\<lambda>(v, m).
      and_then (say (optional_phase v ''conductor state.resume_phase'')) (\<lambda>resumed.
      case take_optional m ''no_progress_cycles'' of (v, m) \<Rightarrow>
      and_then (say (optional_u32 v ''conductor state.no_progress_cycles'')) (\<lambda>np_cycles.
      case take_optional m ''no_progress_reason'' of (v, m) \<Rightarrow>
      and_then (say (optional_string v ''conductor state.no_progress_reason'')) (\<lambda>np_reason.
      case take_optional m ''blocked_backlog_cycles'' of (v, m) \<Rightarrow>
      and_then (say (optional_u32 v ''conductor state.blocked_backlog_cycles'')) (\<lambda>bb_cycles.
      case take_optional m ''blocked_backlog_reason'' of (v, m) \<Rightarrow>
      and_then (say (optional_string v ''conductor state.blocked_backlog_reason'')) (\<lambda>bb_reason.
      case take_optional m ''blocked_backlog_issues'' of (v, m) \<Rightarrow>
      and_then (say (optional_issues v ''conductor state.blocked_backlog_issues'')) (\<lambda>bb_issues.
      let s = \<lparr>repo = repo, state_scope = sc, phase = ph, selected_issue = selected,
               serialization_reasons = reasons, retry_count = count, retry_limit = limit,
               last_outcome = out, pause_reason = pause, terminal_reason = term, resume_phase = resumed,
               blocked_backlog_cycles = bb_cycles, blocked_backlog_reason = bb_reason,
               blocked_backlog_issues = bb_issues, no_progress_cycles = np_cycles,
               no_progress_reason = np_reason\<rparr> in
      and_then (valid_or (validate s)) (\<lambda>u.
      and_then (say (check_normalized normalized s)) (\<lambda>u. Inr s))))))))))))))))))))))))))))))))))))"

section \<open>The printed tree\<close>

interpretation conductor_text: string_escape escape_conductor_char
proof
  fix r :: ustr and c assume "r \<noteq> []"
  then show "parse_chars (escape_conductor_char c @ r) = map_ok (\<lambda>(a, r). (c # a, r)) (parse_chars r)"
    using parse_control_escape [of c r]
    by (auto simp: escape_conductor_char_def parse_escape_sequence_def)
qed (simp add: escape_conductor_char_def plain_char_def is_control_def)

definition name_doc :: "string \<Rightarrow> jdoc" where
  "name_doc k = DString (lit k)"

definition u32_doc :: "u32 \<Rightarrow> jdoc" where
  "u32_doc n = DNumber (unat n)"

definition kind_of :: "conductor_outcome \<Rightarrow> string" where
  "kind_of out = (case out of Succeeded \<Rightarrow> ''succeeded'' | Retryable _ \<Rightarrow> ''retryable''
     | Blocked _ \<Rightarrow> ''blocked'' | AllBlocked _ _ \<Rightarrow> ''all_blocked''
     | VerifierUnavailable _ \<Rightarrow> ''verifier_unavailable'' | ResourcePark _ \<Rightarrow> ''resource_park''
     | OperatorStop _ \<Rightarrow> ''operator_stop'')"

definition outcome_doc :: "conductor_outcome \<Rightarrow> jdoc" where
  "outcome_doc out = DObject ([(lit ''kind'', name_doc (kind_of out)),
     (lit ''reason'', optional_doc (outcome_reason out))]
     @ (case out of AllBlocked _ issues \<Rightarrow> [(lit ''issues'', DArray (map number_doc issues))] | _ \<Rightarrow> []))"

definition conductor_doc :: "conductor_state \<Rightarrow> jdoc" where
  "conductor_doc s = DObject [
     (lit ''schema'', number_doc CONDUCTOR_SCHEMA),
     (lit ''repo'', DString (repo s)),
     (lit ''scope'', name_doc (scope_text (state_scope s))),
     (lit ''phase'', name_doc (phase_text (phase s))),
     (lit ''state'', name_doc (normalized_state s)),
     (lit ''selected_issue'', optional_number_doc (selected_issue s)),
     (lit ''serialization_reasons'', DArray (map DString (serialization_reasons s))),
     (lit ''retry_count'', u32_doc (retry_count s)),
     (lit ''retry_limit'', u32_doc (retry_limit s)),
     (lit ''last_outcome'', case last_outcome s of None \<Rightarrow> DNull | Some out \<Rightarrow> outcome_doc out),
     (lit ''pause_reason'', optional_doc (pause_reason s)),
     (lit ''terminal_reason'', optional_doc (terminal_reason s)),
     (lit ''resume_phase'', case resume_phase s of None \<Rightarrow> DNull | Some p \<Rightarrow> name_doc (phase_text p)),
     (lit ''no_progress_cycles'', u32_doc (no_progress_cycles s)),
     (lit ''no_progress_reason'', optional_doc (no_progress_reason s)),
     (lit ''blocked_backlog_cycles'', u32_doc (blocked_backlog_cycles s)),
     (lit ''blocked_backlog_reason'', optional_doc (blocked_backlog_reason s)),
     (lit ''blocked_backlog_issues'', DArray (map number_doc (blocked_backlog_issues s)))]"

lemma plain_phase: "plain_text (phase_text p)"
  by (cases p) (simp_all add: plain_text_def plain_char_def)

lemma plain_phase_name: "plain_text (phase_name p)"
  by (cases p) (simp_all add: plain_text_def plain_char_def)

lemma plain_scope: "plain_text (scope_text sc)"
  by (cases sc) (simp_all add: plain_text_def plain_char_def)

lemma plain_outcome_name: "plain_text (outcome_name out)" "plain_text (kind_of out)"
  by (cases out; simp add: outcome_name_def kind_of_def plain_text_def plain_char_def)+

lemma plain_normalized: "plain_text (normalized_state s)"
  by (simp add: normalized_state_def plain_outcome_name plain_phase_name split: option.splits)

lemma plain_keys: "list_all plain_text conductor_keys"
  by (simp add: conductor_keys_def plain_text_def plain_char_def)

lemmas conductor_plain = plain_keys [unfolded conductor_keys_def, simplified]
  plain_phase plain_scope plain_outcome_name plain_normalized

lemma render_name: "plain_text k \<Longrightarrow> render escape_conductor_char (name_doc k) = [34] @ lit k @ [34]"
  by (simp add: name_doc_def conductor_text.quoted_text)

lemma render_string: "render escape_conductor_char (DString t) = quoted_json t"
  by (simp add: quoted_json_def json_quote_def escape_conductor_json_def)

lemma render_optional_string:
  "render escape_conductor_char (optional_doc v) = optional_string_json v"
  by (simp add: optional_doc_def optional_string_json_def render_string del: render.simps(4)
      split: option.splits)

lemma render_optional_number:
  "render escape_conductor_char (optional_number_doc v) = optional_number_json v"
  by (simp add: optional_number_doc_def optional_number_json_def render_number split: option.splits)

lemma render_u32: "render escape_conductor_char (u32_doc n) = show_nat (unat n)"
  by (simp add: u32_doc_def)

lemma plain_outcome_keys: "plain_text ''kind''" "plain_text ''reason''" "plain_text ''issues''"
  "plain_text ''succeeded''" "plain_text ''retryable''" "plain_text ''blocked''"
  "plain_text ''all_blocked''" "plain_text ''verifier_unavailable''" "plain_text ''resource_park''"
  "plain_text ''operator_stop''"
  by (simp_all add: plain_text_def plain_char_def)

lemma render_outcome: "render escape_conductor_char (outcome_doc out) = outcome_to_json out"
  by (cases out) (simp_all add: outcome_doc_def outcome_object_def kind_of_def render_name
      render_optional_string optional_string_json_def render_number comp_def punctuation
      conductor_text.quoted_key plain_outcome_keys)

lemma render_conductor: "render escape_conductor_char (conductor_doc s) = conductor_to_json s"
proof -
  have out: "render escape_conductor_char (case last_outcome s of None \<Rightarrow> DNull | Some out \<Rightarrow> outcome_doc out)
      = (case last_outcome s of None \<Rightarrow> lit ''null'' | Some out \<Rightarrow> outcome_to_json out)"
    by (simp add: render_outcome split: option.splits)
  have ph: "render escape_conductor_char (case resume_phase s of None \<Rightarrow> DNull | Some p \<Rightarrow> name_doc (phase_text p))
      = (case resume_phase s of None \<Rightarrow> lit ''null'' | Some p \<Rightarrow> [34] @ lit (phase_text p) @ [34])"
    by (simp add: render_name plain_phase split: option.splits)
  show ?thesis
    by (simp add: conductor_doc_def conductor_to_json_def out ph render_name render_string
        render_optional_string render_optional_number render_u32 render_number comp_def punctuation
        conductor_text.quoted_key conductor_plain del: render.simps(4))
qed

section \<open>The reader on the printed tree\<close>

lemma say_Inr [simp, result_simps]: "say r = Inr x \<longleftrightarrow> r = Inr x"
  by (cases r) auto

lemma valid_or_Inr [simp, result_simps]: "valid_or r = Inr x \<longleftrightarrow> r = Inr x"
  by (cases r) auto

lemma parse_scope_text [simp]: "parse_scope (lit (scope_text sc)) = Inr sc"
  by (cases sc) (simp_all add: parse_scope_def)

lemma parse_phase_text [simp]: "parse_phase (lit (phase_text p)) = Inr p"
  by (cases p) (simp_all add: parse_phase_def)

lemma required_u32_doc [simp]: "required_u32 (json_of (u32_doc n)) ctx = Inr n"
proof -
  define w where "w = (of_nat (unat n) :: u64)"
  have n: "unat n < 2 ^ 32" using unsigned_less [of n] by simp
  then have w: "unat w = unat n" unfolding w_def by (subst unat_of_nat) simp
  then have "(ucast w :: u32) = n"
    using n by (simp add: word_unat_eq_iff unsigned_ucast_eq take_bit_eq_mod)
  moreover have "parse_u64 (show_nat (unat n)) = Some w"
    using n by (simp add: parse_u64_digits show_nat_digits w_def)
  ultimately show ?thesis using n w by (simp add: required_u32_def u32_doc_def narrow_u32_def)
qed

lemma optional_number_back [simp]: "optional_number (json_of (optional_number_doc v)) ctx = Inr v"
  by (simp add: optional_number_def optional_number_doc_def number_doc_def split: option.splits)

lemma optional_string_back:
  "v \<noteq> Some [] \<Longrightarrow> optional_string (Some (json_of (optional_doc v))) ctx = Inr v"
  by (simp add: optional_string_def optional_back)

lemma parse_reasons_back [simp]: "parse_reasons k (map JString rs) = Inr rs"
  by (induction rs arbitrary: k) simp_all

lemma parse_issue_numbers_back [simp]:
  "0 \<notin> set ns \<Longrightarrow> parse_issue_numbers ctx k (map (json_of \<circ> number_doc) ns) = Inr ns"
  by (induction ns arbitrary: k) (simp_all add: number_doc_def Let_def)

lemma only_keys_ok:
  "set (map fst m) \<subseteq> set (map lit expected) \<Longrightarrow> require_only_keys m expected ctx = Inr ()"
  by (auto simp: require_only_keys_def bm_keys_def find_None_iff split: option.splits)

lemma optional_phase_back [simp]:
  "optional_phase (json_of (case v of None \<Rightarrow> DNull | Some p \<Rightarrow> name_doc (phase_text p))) ctx = Inr v"
  by (simp add: optional_phase_def name_doc_def split: option.splits)

lemma validated_reason: "validate_outcome out = Inr () \<Longrightarrow> outcome_reason out \<noteq> Some []"
  by (cases out) (auto simp: validate_named_outcome_reason_def result_simps split: if_splits)

lemma parse_outcome_doc: "validate_outcome out = Inr () \<Longrightarrow> parse_outcome (json_of (outcome_doc out)) = Inr out"
proof -
  assume v: "validate_outcome out = Inr ()"
  have issues: "0 \<notin> set ns" if "out = AllBlocked r ns" for r ns
    using v that by (auto simp: validate_all_blocked_issues_def result_simps)
  define m where "m = bm_of_list (map (\<lambda>(k, d). (k, json_of d)) ([(lit ''kind'', name_doc (kind_of out)),
     (lit ''reason'', optional_doc (outcome_reason out))]
     @ (case out of AllBlocked _ issues \<Rightarrow> [(lit ''issues'', DArray (map number_doc issues))] | _ \<Rightarrow> [])))"
  have keys: "require_only_keys m [''kind'', ''reason'', ''issues''] ctx = Inr ()" for ctx
    by (rule only_keys_ok) (cases out; simp add: m_def keys_of_list)
  have iss: "optional_issues (bm_get m (lit ''issues'')) ctx = Inr (affected_issues out)" for ctx
    using issues by (cases out) (simp_all add: m_def bm_get_of_list optional_issues_def affected_issues_def)
  have again: "outcome_of (lit (kind_of out)) (outcome_reason out) (affected_issues out) = Inr out"
    using validated_reason [OF v] by (cases out) (auto simp: outcome_of_def kind_of_def affected_issues_def)
  have get: "bm_get m (lit ''kind'') = Some (JString (lit (kind_of out)))"
    "bm_get m (lit ''reason'') = Some (json_of (optional_doc (outcome_reason out)))"
    by (simp_all add: m_def bm_get_of_list name_doc_def split: conductor_outcome.splits)
  have "parse_outcome (JObject m) = Inr out"
    using v unfolding parse_outcome_def Let_def
    by (simp add: keys get take_required_def take_optional_def bm_get_remove iss again optional_back)
  then show ?thesis by (simp add: outcome_doc_def m_def)
qed

lemma optional_outcome_back:
  "(case v of None \<Rightarrow> True | Some out \<Rightarrow> validate_outcome out = Inr ()) \<Longrightarrow>
     optional_outcome (json_of (case v of None \<Rightarrow> DNull | Some out \<Rightarrow> outcome_doc out)) = Inr v"
proof (cases v)
  case (Some out)
  assume "case v of None \<Rightarrow> True | Some out \<Rightarrow> validate_outcome out = Inr ()"
  then have "parse_outcome (json_of (outcome_doc out)) = Inr out"
    using Some by (intro parse_outcome_doc) simp
  moreover have "\<exists>m. json_of (outcome_doc out) = JObject m" by (simp add: outcome_doc_def)
  ultimately show ?thesis using Some by (auto simp: optional_outcome_def)
qed (simp add: optional_outcome_def)

lemma distinct_leaf_docs:
  "distinct_keys (number_doc n)" "distinct_keys (name_doc k)" "distinct_keys (u32_doc m)"
  "distinct_keys (optional_doc v)" "distinct_keys (optional_number_doc w)"
  by (simp_all add: number_doc_def name_doc_def u32_doc_def optional_doc_def optional_number_doc_def
      split: option.splits)

lemma distinct_outcome_doc: "distinct_keys (outcome_doc out)"
  by (cases out) (simp_all add: outcome_doc_def distinct_leaf_docs list_all_iff)

lemma distinct_conductor_doc: "distinct_keys (conductor_doc s)"
proof -
  have "distinct_keys (case last_outcome s of None \<Rightarrow> DNull | Some out \<Rightarrow> outcome_doc out)"
    by (simp add: distinct_outcome_doc split: option.splits)
  moreover have "distinct_keys (case resume_phase s of None \<Rightarrow> DNull | Some p \<Rightarrow> name_doc (phase_text p))"
    by (simp add: distinct_leaf_docs split: option.splits)
  ultimately show ?thesis by (simp add: conductor_doc_def distinct_leaf_docs list_all_iff)
qed

text \<open>The texts a written state must not contain: the reader takes an empty text for none.\<close>

definition storable :: "conductor_state \<Rightarrow> bool" where
  "storable s \<longleftrightarrow> validate s = Inr () \<and> blocked_backlog_reason s \<noteq> Some []"

lemma normalized_not_empty: "normalized_state s \<noteq> []"
proof -
  have "phase_name p \<noteq> []" for p by (cases p) simp_all
  moreover have "outcome_name out \<noteq> []" for out by (cases out) (simp_all add: outcome_name_def)
  ultimately show ?thesis by (simp add: normalized_state_def split: option.splits)
qed

lemma conductor_eta:
  "\<lparr>repo = repo s, state_scope = state_scope s, phase = phase s, selected_issue = selected_issue s,
     serialization_reasons = serialization_reasons s, retry_count = retry_count s,
     retry_limit = retry_limit s, last_outcome = last_outcome s, pause_reason = pause_reason s,
     terminal_reason = terminal_reason s, resume_phase = resume_phase s,
     blocked_backlog_cycles = blocked_backlog_cycles s,
     blocked_backlog_reason = blocked_backlog_reason s,
     blocked_backlog_issues = blocked_backlog_issues s, no_progress_cycles = no_progress_cycles s,
     no_progress_reason = no_progress_reason s\<rparr> = (s :: conductor_state)"
  by (cases s) simp

lemma parse_conductor_doc:
  assumes ok: "storable s"
  shows "parse_conductor (conductor_to_json s) = Inr s"
proof -
  define m where "m = bm_of_list (case conductor_doc s of DObject kds \<Rightarrow> map (\<lambda>(k, d). (k, json_of d)) kds | _ \<Rightarrow> [])"
  have "json_of (conductor_doc s) = JObject m" by (simp add: m_def conductor_doc_def)
  then have json: "parse_json (conductor_to_json s) = Inr (JObject m)"
    using conductor_text.parse_json_render [OF distinct_conductor_doc, of s]
    by (simp add: render_conductor)
  have keys: "require_only_keys m conductor_keys ctx = Inr ()" for ctx
    by (rule only_keys_ok) (simp add: m_def conductor_doc_def conductor_keys_def keys_of_list)
  have get:
    "bm_get m (lit ''schema'') = Some (json_of (number_doc CONDUCTOR_SCHEMA))"
    "bm_get m (lit ''repo'') = Some (JString (repo s))"
    "bm_get m (lit ''scope'') = Some (JString (lit (scope_text (state_scope s))))"
    "bm_get m (lit ''phase'') = Some (JString (lit (phase_text (phase s))))"
    "bm_get m (lit ''state'') = Some (json_of (optional_doc (Some (lit (normalized_state s)))))"
    "bm_get m (lit ''selected_issue'') = Some (json_of (optional_number_doc (selected_issue s)))"
    "bm_get m (lit ''serialization_reasons'') = Some (JArray (map JString (serialization_reasons s)))"
    "bm_get m (lit ''retry_count'') = Some (json_of (u32_doc (retry_count s)))"
    "bm_get m (lit ''retry_limit'') = Some (json_of (u32_doc (retry_limit s)))"
    "bm_get m (lit ''last_outcome'') = Some (json_of (case last_outcome s of None \<Rightarrow> DNull | Some out \<Rightarrow> outcome_doc out))"
    "bm_get m (lit ''pause_reason'') = Some (json_of (optional_doc (pause_reason s)))"
    "bm_get m (lit ''terminal_reason'') = Some (json_of (optional_doc (terminal_reason s)))"
    "bm_get m (lit ''resume_phase'') = Some (json_of (case resume_phase s of None \<Rightarrow> DNull | Some p \<Rightarrow> name_doc (phase_text p)))"
    "bm_get m (lit ''no_progress_cycles'') = Some (json_of (u32_doc (no_progress_cycles s)))"
    "bm_get m (lit ''no_progress_reason'') = Some (json_of (optional_doc (no_progress_reason s)))"
    "bm_get m (lit ''blocked_backlog_cycles'') = Some (json_of (u32_doc (blocked_backlog_cycles s)))"
    "bm_get m (lit ''blocked_backlog_reason'') = Some (json_of (optional_doc (blocked_backlog_reason s)))"
    "bm_get m (lit ''blocked_backlog_issues'') = Some (JArray (map (json_of \<circ> number_doc) (blocked_backlog_issues s)))"
    by (simp_all add: m_def conductor_doc_def bm_get_of_list name_doc_def optional_doc_def comp_def)
  have v: "validate s = Inr ()" "blocked_backlog_reason s \<noteq> Some []" using ok by (simp_all add: storable_def)
  then have idn: "\<not> blank (repo s)" "selected_issue s \<noteq> Some 0" "0 \<notin> set (blocked_backlog_issues s)"
    "case last_outcome s of None \<Rightarrow> True | Some out \<Rightarrow> validate_outcome out = Inr ()"
    "no_progress_reason s \<noteq> Some []"
    using validate_identity [of s] by (auto simp: identity_ok_iff no_progress_text_ok_def)
  have norm: "check_normalized (Some (lit (normalized_state s))) s = Inr ()"
    by (simp add: check_normalized_def)
  show ?thesis
    unfolding parse_conductor_def Let_def
    by (simp add: json keys get take_required_def take_optional_def bm_get_remove idn v
        optional_string_back optional_back optional_outcome_back normalized_not_empty norm
        parse_serialization_reasons_def optional_u32_def optional_issues_def into_number_doc conductor_eta)
qed

section \<open>Histories with persistence\<close>

text \<open>Everything that changes a conductor between two saves: its events and its governors.\<close>

datatype conductor_op =
    Apply conductor_event
  | NoProgress ustr
  | ClearNoProgress
  | BlockedCycle ustr "u64 list"
  | ClearBlocked

fun conductor_step :: "conductor_state \<Rightarrow> conductor_op \<Rightarrow> conductor_error + conductor_state" where
  "conductor_step s (Apply e) = transition s e"
| "conductor_step s (NoProgress reason) = record_no_progress_cycle reason s"
| "conductor_step s ClearNoProgress = clear_no_progress_diagnostic s"
| "conductor_step s (BlockedCycle reason issues) = record_blocked_backlog_cycle reason issues s"
| "conductor_step s ClearBlocked = clear_blocked_backlog_governor s"

lemma record_dispatch_backlog:
  "record_dispatch out s = Inr t \<Longrightarrow> blocked_backlog_reason t = blocked_backlog_reason s"
  by (auto simp: record_dispatch_def record_retryable_dispatch_def record_blocked_dispatch_def Let_def
      result_simps split: conductor_outcome.splits option.splits if_splits)

lemma apply_event_backlog:
  "apply_event s e = Inr t \<Longrightarrow> blocked_backlog_reason t = blocked_backlog_reason s"
proof (cases e)
  case (BeginTerminalRetirement out)
  assume "apply_event s e = Inr t"
  with BeginTerminalRetirement show ?thesis
    by (auto simp: begin_terminal_retirement_def result_simps record_dispatch_backlog split: if_splits)
qed (auto simp: record_empty_scan_def clear_for_terminal_def clear_selection_def select_issue_def
      record_dispatch_backlog begin_ownership_retirement_def reconcile_success_def pause_def resume_def
      abandon_exhausted_def split: if_splits option.splits)

lemma conductor_step_storable: "storable s \<Longrightarrow> conductor_step s op = Inr t \<Longrightarrow> storable t"
proof (cases op)
  case (BlockedCycle reason issues)
  assume "conductor_step s op = Inr t"
  with BlockedCycle show ?thesis
    by (auto simp: storable_def record_blocked_backlog_cycle_def Let_def clear_selection_def split: if_splits)
qed (auto simp: storable_def transition_Inr apply_event_backlog record_no_progress_cycle_def
      clear_no_progress_diagnostic_def clear_blocked_backlog_governor_def Let_def split: if_splits)

interpretation conductor_saves: guarded_machine conductor_step storable
  by unfold_locales (rule conductor_step_storable)

lemma new_conductor_storable: "new_conductor r sc limit = Inr s \<Longrightarrow> storable s"
  using new_conductor_sound [of r sc limit s]
  by (auto simp: storable_def sound_def new_conductor_def split: if_splits)

text \<open>C22: after any history of events and governor calls from a new conductor, the state is valid and
  the document it is saved as is read back as exactly that state.\<close>

theorem conductor_history_reads_back:
  "new_conductor r sc limit = Inr s \<Longrightarrow> run_all conductor_step s ops = Inr t
     \<Longrightarrow> validate t = Inr () \<and> parse_conductor (conductor_to_json t) = Inr t"
  using conductor_saves.run_good [OF new_conductor_storable, of r sc limit s ops t]
  by (simp add: parse_conductor_doc) (simp add: storable_def)

theorem conductor_history_reads_back_witness:
  "\<exists>t. run_all conductor_step (sample_conductor 0) [NoProgress [97], Apply ScanFoundWork] = Inr t
     \<and> validate t = Inr () \<and> parse_conductor (conductor_to_json t) = Inr t"
proof -
  have "\<exists>t. run_all conductor_step (sample_conductor 0) [NoProgress [97], Apply ScanFoundWork] = Inr t"
    by (simp add: conductor_eval record_no_progress_cycle_def no_progress_text_ok_def
        MAX_NO_PROGRESS_REASON_LENGTH_def)
  then obtain t where t: "run_all conductor_step (sample_conductor 0) [NoProgress [97], Apply ScanFoundWork] = Inr t"
    by blast
  with conductor_history_reads_back [OF sample_conductor_new t] show ?thesis by blast
qed

lemma optional_string_not_empty: "optional_string v ctx = Inr r \<Longrightarrow> r \<noteq> Some []"
  by (auto simp: optional_string_def result_simps split: option.splits if_splits)

lemma parse_conductor_storable: "parse_conductor input = Inr s \<Longrightarrow> storable s"
  by (auto simp: parse_conductor_def Let_def result_simps take_optional_def storable_def
      dest: optional_string_not_empty split: if_splits)

text \<open>A saved document the reader accepts, of whatever layout or age, gives a valid state, and
  saving that state and reading it again gives it back.\<close>

theorem loaded_conductor_resaves:
  "parse_conductor input = Inr s \<Longrightarrow>
     validate s = Inr () \<and> parse_conductor (conductor_to_json s) = Inr s"
  using parse_conductor_storable [of input s] by (simp add: parse_conductor_doc) (simp add: storable_def)

theorem loaded_conductor_resaves_witness:
  "validate (sample_conductor 3) = Inr ()
     \<and> parse_conductor (conductor_to_json (sample_conductor 3)) = Inr (sample_conductor 3)"
  by (rule loaded_conductor_resaves [OF parse_conductor_doc [OF new_conductor_storable [OF sample_conductor_new]]])

end
