(* ===== verification/Circuit_Breaker.thy ===== *)
theory Circuit_Breaker
  imports Ordered_Map Step_Machine
begin

text \<open>
  The per-worker outcome state and circuit breaker of the gateway (\<open>circuit_breaker.rs\<close>).

  A \<open>Duration\<close> is its number of nanoseconds, at most \<open>DURATION_MAX\<close>; its saturating operations are
  written out and the doubling of the back-off, which panics on overflow, is the result
  \<open>Inl DurationOverflow\<close>. Counters are \<open>u64\<close> words. The queue of recent outcomes is the list
  of its elements. The percentage line (floating point) is left out.
\<close>

section \<open>Durations\<close>

type_synonym duration = nat

definition DURATION_MAX :: duration where
  "DURATION_MAX = (2 ^ 64 - 1) * 10 ^ 9 + 999999999"

definition dur_add :: "duration \<Rightarrow> duration \<Rightarrow> duration" where
  "dur_add a b = min (a + b) DURATION_MAX"

definition as_secs :: "duration \<Rightarrow> nat" where
  "as_secs d = d div 10 ^ 9"

definition subsec_millis :: "duration \<Rightarrow> nat" where
  "subsec_millis d = d mod 10 ^ 9 div 10 ^ 6"

definition pad2 :: "nat \<Rightarrow> ustr" where
  "pad2 n = (if n < 10 then lit ''0'' else []) @ show_nat n"

definition fmt_dur :: "duration \<Rightarrow> ustr" where
  "fmt_dur d = (let secs = as_secs d; ms = subsec_millis d in
     if 3600 \<le> secs then show_nat (secs div 3600) @ lit ''h'' @ pad2 (secs mod 3600 div 60) @ lit ''m''
     else if 60 \<le> secs then show_nat (secs div 60) @ lit ''m'' @ pad2 (secs mod 60) @ lit ''s''
     else if 0 < secs then show_nat secs @ lit ''s''
     else show_nat ms @ lit ''ms'')"

section \<open>Data\<close>

datatype probe_outcome = Answered | TimedOut

datatype liveness_verdict = Healthy | Wedged | Unknown

datatype outcome = Completed | Failed

datatype circuit_state = Closed | Open | HalfOpen

datatype open_reason =
    ConsecutiveFailures u64
  | Stuck duration u64
  | ProbeFailed

record transition_entry =
  t_worker :: ustr
  t_from :: circuit_state
  t_to :: circuit_state
  t_at :: duration
  t_reason :: "open_reason option"

record breaker_config =
  failure_threshold :: u64
  peer_failure_threshold :: u64
  stuck_timeout :: duration
  backoff_initial :: duration
  backoff_max :: duration
  history_len :: nat
  peer_window :: duration

definition default_config :: breaker_config where
  "default_config = \<lparr>failure_threshold = 5, peer_failure_threshold = 2,
     stuck_timeout = 120 * 10 ^ 9, backoff_initial = 30 * 10 ^ 9, backoff_max = 600 * 10 ^ 9,
     history_len = 16, peer_window = 60 * 10 ^ 9\<rparr>"

record worker_capability =
  slots :: u32
  context_window :: u64
  quantisation :: ustr

definition fits :: "worker_capability \<Rightarrow> u64 \<Rightarrow> bool" where
  "fits c requested \<longleftrightarrow> requested \<le> context_window c"

record restore_state =
  state :: circuit_state
  state_since :: duration
  backoff :: duration
  consecutive_failures :: u64
  last_success :: "duration option"
  in_flight :: u64
  in_flight_since :: "duration option"
  last_token :: "duration option"
  recent :: "outcome list"
  total_completed :: u64
  total_failed :: u64
  transitions :: "transition_entry list"

text \<open>The worker has the fields of its snapshot (\<open>RestoreState\<close>) and these.\<close>

record worker_outcome = restore_state +
  worker :: ustr
  model :: ustr
  capability :: worker_capability
  cfg :: breaker_config
  probe_active :: bool

datatype exclusion =
    CircuitOpen duration duration
  | ProbeInFlight
  | DoesNotFit u64 u64

datatype routing_decision = Route | Probe | Excluded exclusion

datatype breaker_panic = DurationOverflow

section \<open>Creation and restart\<close>

definition new_worker ::
  "ustr \<Rightarrow> ustr \<Rightarrow> worker_capability \<Rightarrow> breaker_config \<Rightarrow> duration \<Rightarrow> worker_outcome" where
  "new_worker w m cap c now = \<lparr>state = Closed, state_since = now, backoff = backoff_initial c,
     consecutive_failures = 0, last_success = None, in_flight = 0, in_flight_since = None,
     last_token = None, recent = [], total_completed = 0, total_failed = 0, transitions = [],
     worker = w, model = m, capability = cap, cfg = c, probe_active = False\<rparr>"

definition snapshot :: "worker_outcome \<Rightarrow> restore_state" where
  "snapshot s = restore_state.truncate s"

definition restore ::
  "ustr \<Rightarrow> ustr \<Rightarrow> worker_capability \<Rightarrow> breaker_config \<Rightarrow> restore_state \<Rightarrow> worker_outcome" where
  "restore w m cap c snap = restore_state.extend snap
     \<lparr>worker = w, model = m, capability = cap, cfg = c, probe_active = False\<rparr>"

section \<open>Events\<close>

definition switch ::
  "duration \<Rightarrow> circuit_state \<Rightarrow> open_reason option \<Rightarrow> worker_outcome \<Rightarrow> worker_outcome \<times> transition_entry" where
  "switch now to reason s =
     (let t = \<lparr>t_worker = worker s, t_from = state s, t_to = to, t_at = now, t_reason = reason\<rparr>;
          s = s\<lparr>state := to, state_since := now\<rparr>;
          s = (if to = Open
               then s\<lparr>backoff := (if reason = Some ProbeFailed then backoff s else backoff_initial (cfg s))\<rparr>
               else s);
          s = (if to = Closed then s\<lparr>probe_active := False\<rparr> else s)
      in (s\<lparr>transitions := transitions s @ [t]\<rparr>, t))"

definition request_started :: "duration \<Rightarrow> worker_outcome \<Rightarrow> worker_outcome" where
  "request_started now s =
     (let s = (if in_flight s = 0 then s\<lparr>in_flight_since := Some now\<rparr> else s)
      in s\<lparr>in_flight := in_flight s + 1\<rparr>)"

definition token :: "duration \<Rightarrow> worker_outcome \<Rightarrow> worker_outcome" where
  "token now s = s\<lparr>last_token := Some now\<rparr>"

text \<open>\<open>push_back\<close> and the loop that drops from the front down to \<open>history_len\<close>.\<close>

definition push_recent :: "outcome \<Rightarrow> worker_outcome \<Rightarrow> worker_outcome" where
  "push_recent out s =
     (let xs = recent s @ [out] in s\<lparr>recent := drop (length xs - history_len (cfg s)) xs\<rparr>)"

definition leave_flight :: "outcome \<Rightarrow> worker_outcome \<Rightarrow> worker_outcome" where
  "leave_flight out s =
     (let s = s\<lparr>in_flight := saturating_sub (in_flight s) 1\<rparr>;
          s = (if in_flight s = 0 then s\<lparr>in_flight_since := None\<rparr> else s)
      in push_recent out s)"

definition request_finished ::
  "duration \<Rightarrow> outcome \<Rightarrow> worker_outcome \<Rightarrow> breaker_panic + worker_outcome" where
  "request_finished now out s =
     (let s = leave_flight out s
      in case out of
        Completed \<Rightarrow>
          (let s = s\<lparr>last_success := Some now, consecutive_failures := 0,
                     total_completed := total_completed s + 1\<rparr>
           in Inr (if state s = HalfOpen \<and> probe_active s
                   then fst (switch now Closed None
                          (s\<lparr>probe_active := False, backoff := backoff_initial (cfg s)\<rparr>))
                   else s))
      | Failed \<Rightarrow>
          (let s = s\<lparr>consecutive_failures := consecutive_failures s + 1,
                     total_failed := total_failed s + 1\<rparr>
           in if state s = HalfOpen \<and> probe_active s
              then (if DURATION_MAX < backoff s * 2 then Inl DurationOverflow
                    else Inr (fst (switch now Open (Some ProbeFailed)
                      (s\<lparr>probe_active := False, backoff := min (backoff s * 2) (backoff_max (cfg s))\<rparr>))))
              else Inr s))"

definition probe_timeout :: "duration \<Rightarrow> worker_outcome \<Rightarrow> worker_outcome" where
  "probe_timeout now s = push_recent Failed
     (s\<lparr>consecutive_failures := consecutive_failures s + 1, total_failed := total_failed s + 1\<rparr>)"

definition send_probe :: "duration \<Rightarrow> worker_outcome \<Rightarrow> worker_outcome \<times> bool" where
  "send_probe now s =
     (if state s \<noteq> HalfOpen \<or> probe_active s then (s, False)
      else (request_started now (s\<lparr>probe_active := True\<rparr>), True))"

section \<open>Decisions\<close>

definition routing_decision :: "worker_outcome \<Rightarrow> routing_decision" where
  "routing_decision s = (case state s of
       Closed \<Rightarrow> Route
     | Open \<Rightarrow> Excluded (CircuitOpen (state_since s) (dur_add (state_since s) (backoff s)))
     | HalfOpen \<Rightarrow> if probe_active s then Excluded ProbeInFlight else Probe)"

definition is_live :: "duration \<Rightarrow> duration \<Rightarrow> worker_outcome \<Rightarrow> bool" where
  "is_live now window s = (case last_success s of None \<Rightarrow> False | Some at \<Rightarrow> now - at \<le> window)"

definition no_token_for :: "duration \<Rightarrow> worker_outcome \<Rightarrow> duration option" where
  "no_token_for now s =
     (if in_flight s = 0 then None
      else Some (now - (case last_token s of Some t \<Rightarrow> t
        | None \<Rightarrow> (case in_flight_since s of Some t \<Rightarrow> t | None \<Rightarrow> now))))"

definition stuck :: "duration \<Rightarrow> worker_outcome \<Rightarrow> duration option" where
  "stuck now s = (case no_token_for now s of None \<Rightarrow> None
     | Some d \<Rightarrow> if stuck_timeout (cfg s) \<le> d then Some d else None)"

definition state_age :: "duration \<Rightarrow> worker_outcome \<Rightarrow> duration" where
  "state_age now s = now - state_since s"

definition open_condition :: "duration \<Rightarrow> bool \<Rightarrow> worker_outcome \<Rightarrow> open_reason option" where
  "open_condition now peers s =
     (let threshold = (if peers then peer_failure_threshold (cfg s) else failure_threshold (cfg s)) in
      if threshold \<le> consecutive_failures s then Some (ConsecutiveFailures (consecutive_failures s))
      else case stuck now s of Some d \<Rightarrow> Some (Stuck d (in_flight s)) | None \<Rightarrow> None)"

definition tick :: "duration \<Rightarrow> bool \<Rightarrow> worker_outcome \<Rightarrow> worker_outcome \<times> transition_entry list" where
  "tick now peers s = (case state s of
       Closed \<Rightarrow> (case open_condition now peers s of
           None \<Rightarrow> (s, [])
         | Some reason \<Rightarrow> (let (s', t) = switch now Open (Some reason) s in (s', [t])))
     | Open \<Rightarrow>
         if dur_add (state_since s) (backoff s) \<le> now
         then (let (s', t) = switch now HalfOpen None s in (s', [t]))
         else (s, [])
     | HalfOpen \<Rightarrow> (s, []))"

definition liveness :: "probe_outcome option \<Rightarrow> duration \<Rightarrow> worker_outcome \<Rightarrow> liveness_verdict" where
  "liveness probe now s =
     (if 0 < in_flight s then (case stuck now s of Some _ \<Rightarrow> Wedged | None \<Rightarrow> Healthy)
      else (case probe of Some Answered \<Rightarrow> Healthy | _ \<Rightarrow> Unknown))"

section \<open>Report lines\<close>

definition state_label :: "circuit_state \<Rightarrow> ustr" where
  "state_label c = (case c of Closed \<Rightarrow> lit ''closed'' | Open \<Rightarrow> lit ''open'' | HalfOpen \<Rightarrow> lit ''half-open'')"

definition reason_label :: "open_reason \<Rightarrow> ustr" where
  "reason_label r = (case r of
       ConsecutiveFailures count \<Rightarrow> show_u64 count @ lit '' consecutive failures''
     | Stuck d n \<Rightarrow> lit ''stuck: '' @ show_u64 n @ lit '' in-flight, no progress for '' @ fmt_dur d
     | ProbeFailed \<Rightarrow> lit ''half-open probe failed'')"

definition transition_line :: "transition_entry \<Rightarrow> ustr" where
  "transition_line t = t_worker t @ lit '': '' @ state_label (t_from t) @ lit '' -> ''
     @ state_label (t_to t) @ lit '' at '' @ fmt_dur (t_at t)
     @ (case t_reason t of Some r \<Rightarrow> lit '' ('' @ reason_label r @ lit '')'' | None \<Rightarrow> [])"

definition verdict_label :: "liveness_verdict \<Rightarrow> ustr" where
  "verdict_label v = (case v of Healthy \<Rightarrow> lit ''healthy'' | Wedged \<Rightarrow> lit ''wedged'' | Unknown \<Rightarrow> lit ''unknown'')"

definition exclusion_label :: "duration \<Rightarrow> exclusion \<Rightarrow> ustr" where
  "exclusion_label now ex = (case ex of
       CircuitOpen since reopens_at \<Rightarrow> lit ''circuit open for '' @ fmt_dur (now - since)
         @ lit '' (reopens in '' @ fmt_dur (reopens_at - now) @ lit '')''
     | ProbeInFlight \<Rightarrow> lit ''half-open probe in flight''
     | DoesNotFit window requested \<Rightarrow> lit ''cannot fit: context '' @ show_u64 window
         @ lit '' < requested '' @ show_u64 requested)"

definition liveness_line :: "probe_outcome option \<Rightarrow> duration \<Rightarrow> worker_outcome \<Rightarrow> ustr" where
  "liveness_line probe now s =
     worker s @ lit '' ['' @ model s @ lit '']: '' @ verdict_label (liveness probe now s)
     @ (case liveness probe now s of
          Healthy \<Rightarrow>
            if 0 < in_flight s
            then lit '' (busy: '' @ show_u64 (in_flight s) @ lit '' in-flight, no token for ''
              @ (case no_token_for now s of Some d \<Rightarrow> fmt_dur d | None \<Rightarrow> lit ''0s'') @ lit '')''
            else lit '' (idle, probe answered)''
        | Wedged \<Rightarrow> lit '' ('' @ show_u64 (in_flight s) @ lit '' in-flight, no token for ''
            @ (case no_token_for now s of Some d \<Rightarrow> fmt_dur d | None \<Rightarrow> []) @ lit '')''
        | Unknown \<Rightarrow> lit '' ('' @ (if probe = Some TimedOut
              then lit ''probe timed out, no in-flight work to sample''
              else lit ''no probe on record, no in-flight work to sample'')
            @ [32, 8212, 32] @ lit ''resolve with a progress sample before acting)'')"

section \<open>The fleet\<close>

record fleet =
  workers :: "(ustr, worker_outcome) bmap"

definition new_fleet :: fleet where
  "new_fleet = \<lparr>workers = bm_empty\<rparr>"

definition register :: "worker_outcome \<Rightarrow> fleet \<Rightarrow> fleet" where
  "register w f = f\<lparr>workers := bm_insert (worker w) w (workers f)\<rparr>"

definition fleet_get :: "fleet \<Rightarrow> ustr \<Rightarrow> worker_outcome option" where
  "fleet_get f w = bm_get (workers f) w"

definition peers_healthy :: "fleet \<Rightarrow> ustr \<Rightarrow> ustr \<Rightarrow> duration \<Rightarrow> bool" where
  "peers_healthy f m except now \<longleftrightarrow> list_ex (\<lambda>w. model w = m \<and> worker w \<noteq> except
     \<and> is_live now (peer_window (cfg w)) w) (bm_values (workers f))"

definition fleet_tick :: "duration \<Rightarrow> fleet \<Rightarrow> fleet \<times> transition_entry list" where
  "fleet_tick now f =
     (let flags = map (\<lambda>w. (worker w, peers_healthy f (model w) (worker w) now)) (bm_values (workers f));
          ticked = map (\<lambda>(id, w). (id, tick now
            (case find (\<lambda>x. fst x = id) flags of Some x \<Rightarrow> snd x | None \<Rightarrow> False) w)) (workers f)
      in (f\<lparr>workers := map (\<lambda>(id, r). (id, fst r)) ticked\<rparr>, concat (map (\<lambda>(id, r). snd r) ticked)))"

definition routing_label :: "u64 option \<Rightarrow> duration \<Rightarrow> worker_outcome \<Rightarrow> ustr" where
  "routing_label requested now w = (case routing_decision w of
       Route \<Rightarrow> (case requested of
           Some tokens \<Rightarrow> if \<not> fits (capability w) tokens
             then lit ''excluded: ''
               @ exclusion_label now (DoesNotFit (context_window (capability w)) tokens)
             else lit ''route''
         | None \<Rightarrow> lit ''route'')
     | Probe \<Rightarrow> lit ''probe (half-open)''
     | Excluded ex \<Rightarrow> lit ''excluded: '' @ exclusion_label now ex)"

definition routing_report :: "fleet \<Rightarrow> ustr \<Rightarrow> u64 option \<Rightarrow> duration \<Rightarrow> ustr" where
  "routing_report f m requested now =
     (let ws = filter (\<lambda>w. model w = m) (bm_values (workers f)) in
      if ws = [] then m @ lit '': no workers registered''
      else m @ lit '': '' @ join (lit ''; '')
        (map (\<lambda>w. worker w @ lit '' '' @ routing_label requested now w) ws))"

definition liveness_report :: "fleet \<Rightarrow> (ustr, probe_outcome) bmap \<Rightarrow> duration \<Rightarrow> ustr" where
  "liveness_report f probes now =
     (let ws = bm_values (workers f);
          count = (\<lambda>v. length (filter (\<lambda>w. liveness (bm_get probes (worker w)) now w = v) ws))
      in join [10] (map (\<lambda>w. liveness_line (bm_get probes (worker w)) now w) ws
        @ [lit ''FLEET healthy='' @ show_nat (count Healthy) @ lit '' wedged='' @ show_nat (count Wedged)
           @ lit '' unknown='' @ show_nat (count Unknown)]))"

end
