(* ===== verification/Breaker_Safety.thy ===== *)
theory Breaker_Safety
  imports Circuit_Breaker
begin

text \<open>
  What the breaker guarantees under any sequence of events: the transition log tells the whole
  story of its state, the back-off doubles per failed probe up to its cap, at most one probe is
  out, and a fleet tick treats each worker by the health of its siblings. Two theorems show
  where it departs from its own promises: a probe that never finishes, and progress measured from
  an old request.
\<close>

section \<open>The events of a worker\<close>

datatype worker_event =
    Started duration
  | Token duration
  | Finished duration outcome
  | ProbeTimedOut duration
  | SendProbe duration
  | Tick duration bool
  | Restart

fun worker_step :: "worker_outcome \<Rightarrow> worker_event \<Rightarrow> breaker_panic + worker_outcome" where
  "worker_step s (Started now) = Inr (request_started now s)"
| "worker_step s (Token now) = Inr (token now s)"
| "worker_step s (Finished now out) = request_finished now out s"
| "worker_step s (ProbeTimedOut now) = Inr (probe_timeout now s)"
| "worker_step s (SendProbe now) = Inr (fst (send_probe now s))"
| "worker_step s (Tick now peers) = Inr (fst (tick now peers s))"
| "worker_step s Restart = Inr (restore (worker s) (model s) (capability s) (cfg s) (snapshot s))"

lemma restore_snapshot: "restore (worker s) (model s) (capability s) (cfg s) (snapshot s)
   = s\<lparr>probe_active := False\<rparr>"
  by (cases s) (simp add: restore_def snapshot_def restore_state.defs)

section \<open>Invariants\<close>

text \<open>The edges the breaker may take, and the log as a path from \<open>Closed\<close>.\<close>

fun edge :: "circuit_state \<Rightarrow> circuit_state \<Rightarrow> open_reason option \<Rightarrow> bool" where
  "edge Closed Open (Some r) = (r \<noteq> ProbeFailed)"
| "edge Open HalfOpen None = True"
| "edge HalfOpen Closed None = True"
| "edge HalfOpen Open (Some ProbeFailed) = True"
| "edge _ _ _ = False"

fun path :: "circuit_state \<Rightarrow> transition_entry list \<Rightarrow> circuit_state \<Rightarrow> bool" where
  "path c [] d \<longleftrightarrow> c = d"
| "path c (t # ts) d \<longleftrightarrow> t_from t = c \<and> edge c (t_to t) (t_reason t) \<and> path (t_to t) ts d"

lemma path_snoc:
  "path c (ts @ [t]) d \<longleftrightarrow> path c ts (t_from t) \<and> edge (t_from t) (t_to t) (t_reason t) \<and> t_to t = d"
  by (induction ts arbitrary: c) auto

definition probe_failures :: "transition_entry list \<Rightarrow> nat" where
  "probe_failures ts = foldl (\<lambda>k t. case t_to t of
       Open \<Rightarrow> if t_reason t = Some ProbeFailed then k + 1 else 0
     | Closed \<Rightarrow> 0
     | HalfOpen \<Rightarrow> k) 0 ts"

definition breaker_ok :: "duration \<Rightarrow> worker_outcome \<Rightarrow> bool" where
  "breaker_ok born s \<longleftrightarrow>
     path Closed (transitions s) (state s)
     \<and> state_since s = (if transitions s = [] then born else t_at (last (transitions s)))
     \<and> (backoff_initial (cfg s) \<le> backoff_max (cfg s) \<longrightarrow>
         backoff s = min (backoff_initial (cfg s) * 2 ^ probe_failures (transitions s)) (backoff_max (cfg s)))
     \<and> (probe_active s \<longrightarrow> state s = HalfOpen)
     \<and> length (recent s) \<le> history_len (cfg s)"

lemma switch_simps:
  "state (fst (switch now to reason s)) = to"
  "state_since (fst (switch now to reason s)) = now"
  "transitions (fst (switch now to reason s)) = transitions s
     @ [\<lparr>t_worker = worker s, t_from = state s, t_to = to, t_at = now, t_reason = reason\<rparr>]"
  "cfg (fst (switch now to reason s)) = cfg s"
  "recent (fst (switch now to reason s)) = recent s"
  "in_flight (fst (switch now to reason s)) = in_flight s"
  "probe_active (fst (switch now to reason s)) = (probe_active s \<and> to \<noteq> Closed)"
  "backoff (fst (switch now to reason s)) =
     (if to = Open \<and> reason \<noteq> Some ProbeFailed then backoff_initial (cfg s) else backoff s)"
  by (simp_all add: switch_def Let_def)

lemma probe_failures_snoc:
  "probe_failures (ts @ [t]) = (case t_to t of
       Open \<Rightarrow> if t_reason t = Some ProbeFailed then probe_failures ts + 1 else 0
     | Closed \<Rightarrow> 0
     | HalfOpen \<Rightarrow> probe_failures ts)"
  by (cases "t_to t") (simp_all add: probe_failures_def)

lemma min_double: "min (min (a * 2 ^ k) m * 2) m = min (a * 2 ^ Suc k) (m :: nat)"
  by (auto simp: min_def)

lemma breaker_ok_new: "breaker_ok now (new_worker w m cap c now)"
  by (simp add: breaker_ok_def new_worker_def probe_failures_def)

lemma open_condition_reason: "open_condition now peers s = Some r \<Longrightarrow> r \<noteq> ProbeFailed"
  by (auto simp: open_condition_def Let_def split: if_splits option.splits)

lemma breaker_ok_tick: "breaker_ok born s \<Longrightarrow> breaker_ok born (fst (tick now peers s))"
  by (auto simp: tick_def breaker_ok_def switch_simps path_snoc probe_failures_snoc
      case_prod_beta Let_def dest: open_condition_reason split: circuit_state.splits option.splits)

lemma breaker_ok_cong:
  assumes "breaker_ok born s" "transitions t = transitions s" "state t = state s"
    "state_since t = state_since s" "backoff t = backoff s" "cfg t = cfg s"
    "probe_active t \<longrightarrow> state s = HalfOpen" "length (recent t) \<le> history_len (cfg s)"
  shows "breaker_ok born t"
  using assms by (simp add: breaker_ok_def)

lemma push_recent_simps [simp]:
  "transitions (push_recent out s) = transitions s" "state (push_recent out s) = state s"
  "state_since (push_recent out s) = state_since s" "backoff (push_recent out s) = backoff s"
  "cfg (push_recent out s) = cfg s" "probe_active (push_recent out s) = probe_active s"
  "in_flight (push_recent out s) = in_flight s" "last_token (push_recent out s) = last_token s"
  "in_flight_since (push_recent out s) = in_flight_since s"
  "consecutive_failures (push_recent out s) = consecutive_failures s"
  "length (recent (push_recent out s)) \<le> history_len (cfg s)"
  by (simp_all add: push_recent_def Let_def)

lemma request_started_simps [simp]:
  "transitions (request_started now s) = transitions s" "state (request_started now s) = state s"
  "state_since (request_started now s) = state_since s" "backoff (request_started now s) = backoff s"
  "cfg (request_started now s) = cfg s" "probe_active (request_started now s) = probe_active s"
  "recent (request_started now s) = recent s" "last_token (request_started now s) = last_token s"
  "consecutive_failures (request_started now s) = consecutive_failures s"
  by (simp_all add: request_started_def Let_def)

lemma leave_flight_simps [simp]:
  "transitions (leave_flight out s) = transitions s" "state (leave_flight out s) = state s"
  "state_since (leave_flight out s) = state_since s" "backoff (leave_flight out s) = backoff s"
  "cfg (leave_flight out s) = cfg s" "probe_active (leave_flight out s) = probe_active s"
  "in_flight (leave_flight out s) = saturating_sub (in_flight s) 1"
  "consecutive_failures (leave_flight out s) = consecutive_failures s"
  "length (recent (leave_flight out s)) \<le> history_len (cfg s)"
  by (simp_all add: leave_flight_def Let_def push_recent_def)

lemma leave_flight_ok:
  assumes "breaker_ok born s" shows "breaker_ok born (leave_flight out s)"
  using assms by (intro breaker_ok_cong [OF assms]) (auto simp: breaker_ok_def)

lemma breaker_ok_finished:
  assumes "breaker_ok born s" "request_finished now out s = Inr t"
  shows "breaker_ok born t"
proof -
  let ?s = "leave_flight out s"
  have ok: "breaker_ok born ?s" using assms(1) by (rule leave_flight_ok)
  show ?thesis
  proof (cases "state ?s = HalfOpen \<and> probe_active ?s")
    case True
    with ok assms(2) show ?thesis
      by (cases out) (auto simp: request_finished_def Let_def breaker_ok_def switch_simps path_snoc
          probe_failures_snoc min_double split: if_splits)
  next
    case False
    with assms(2) have "t = ?s\<lparr>last_success := Some now, consecutive_failures := 0,
          total_completed := total_completed ?s + 1\<rparr>
      \<or> t = ?s\<lparr>consecutive_failures := consecutive_failures ?s + 1, total_failed := total_failed ?s + 1\<rparr>"
      by (cases out) (auto simp: request_finished_def Let_def)
    moreover have "probe_active ?s \<longrightarrow> state ?s = HalfOpen"
      using ok by (simp add: breaker_ok_def)
    ultimately show ?thesis by (elim disjE) (rule breaker_ok_cong [OF ok]; simp)+
  qed
qed

lemma worker_step_ok:
  assumes ok: "breaker_ok born s" and step: "worker_step s e = Inr t"
  shows "breaker_ok born t"
proof -
  have s: "probe_active s \<longrightarrow> state s = HalfOpen" "length (recent s) \<le> history_len (cfg s)"
    using ok by (simp_all add: breaker_ok_def)
  show ?thesis
  proof (cases e)
    case (Finished now out)
    with assms show ?thesis by (simp add: breaker_ok_finished)
  next
    case (Tick now peers)
    with assms show ?thesis by (auto simp: breaker_ok_tick)
  next
    case (ProbeTimedOut now)
    with step have "t = probe_timeout now s" by simp
    with s show ?thesis by (intro breaker_ok_cong [OF ok])
      (simp_all add: probe_timeout_def push_recent_def Let_def)
  next
    case (SendProbe now)
    with step have "t = s \<or> state s = HalfOpen \<and> t = request_started now (s\<lparr>probe_active := True\<rparr>)"
      by (auto simp: send_probe_def split: if_splits)
    with s ok show ?thesis by (auto intro!: breaker_ok_cong [OF ok])
  next
    case (Started now)
    with step s show ?thesis by (auto intro!: breaker_ok_cong [OF ok])
  next
    case (Token now)
    with step s show ?thesis by (auto simp: token_def intro!: breaker_ok_cong [OF ok])
  next
    case Restart
    with step s show ?thesis by (auto simp: restore_snapshot intro!: breaker_ok_cong [OF ok])
  qed
qed

interpretation breaker: guarded_machine worker_step "breaker_ok born"
  by unfold_locales (rule worker_step_ok)

lemma worker_step_cfg: "worker_step s e = Inr t \<Longrightarrow> cfg t = cfg s"
  by (cases e) (auto simp: token_def probe_timeout_def send_probe_def restore_snapshot tick_def
      switch_simps case_prod_beta Let_def request_finished_def
      split: circuit_state.splits option.splits outcome.splits if_splits)

lemma worker_run_cfg: "run_all worker_step s es = Inr t \<Longrightarrow> cfg t = cfg s"
  by (induction es arbitrary: s) (auto simp: result_simps dest: worker_step_cfg)

section \<open>The log and the back-off\<close>

text \<open>The transition log is the whole story of the breaker. After any events from registration
  (requests, tokens, probes, timeouts, ticks and restarts) the log is an unbroken path from
  \<open>Closed\<close> to the current state along the four edges of the breaker, each with the kind of
  reason that belongs to it, and the time of the last entry is when the current state began.\<close>

theorem breaker_log_is_a_path:
  assumes "run_all worker_step (new_worker w m cap c born) es = Inr s"
  shows "path Closed (transitions s) (state s)
    \<and> state_since s = (if transitions s = [] then born else t_at (last (transitions s)))"
  using breaker.run_good [OF breaker_ok_new assms] by (simp add: breaker_ok_def)

definition sample_capability :: worker_capability where
  "sample_capability = \<lparr>slots = 1, context_window = 1000, quantisation = []\<rparr>"

definition sample_config :: breaker_config where
  "sample_config = \<lparr>failure_threshold = 1, peer_failure_threshold = 1, stuck_timeout = 100,
     backoff_initial = 10, backoff_max = 15, history_len = 2, peer_window = 50\<rparr>"

definition sample_worker :: worker_outcome where
  "sample_worker = new_worker [119] [109] sample_capability sample_config 0"

text \<open>A worker that fails, is opened, probed, and fails the probe.\<close>

definition sample_events :: "worker_event list" where
  "sample_events = [ProbeTimedOut 1, Tick 2 False, Tick 20 False, SendProbe 21, Finished 22 Failed]"

definition sample_log :: "transition_entry list" where
  "sample_log = [
     \<lparr>t_worker = [119], t_from = Closed, t_to = Open, t_at = 2,
       t_reason = Some (ConsecutiveFailures 1)\<rparr>,
     \<lparr>t_worker = [119], t_from = Open, t_to = HalfOpen, t_at = 20, t_reason = None\<rparr>,
     \<lparr>t_worker = [119], t_from = HalfOpen, t_to = Open, t_at = 22, t_reason = Some ProbeFailed\<rparr>]"

definition sample_at :: "circuit_state \<Rightarrow> duration \<Rightarrow> duration \<Rightarrow> nat \<Rightarrow> u64 \<Rightarrow> bool \<Rightarrow> u64 \<Rightarrow> duration option \<Rightarrow> worker_outcome" where
  "sample_at st since bo logged failures probing flying flying_since =
     \<lparr>state = st, state_since = since, backoff = bo, consecutive_failures = failures,
      last_success = None, in_flight = flying, in_flight_since = flying_since, last_token = None,
      recent = (if failures = 1 then [Failed] else [Failed, Failed]), total_completed = 0,
      total_failed = failures, transitions = take logged sample_log, worker = [119], model = [109],
      capability = sample_capability, cfg = sample_config, probe_active = probing\<rparr>"

lemma sample_run:
  "run_all worker_step sample_worker sample_events = Inr (sample_at Open 22 15 3 2 False 0 None)"
proof -
  have 1: "worker_step sample_worker (ProbeTimedOut 1) = Inr (sample_at Closed 0 10 0 1 False 0 None)"
    by (simp add: sample_worker_def new_worker_def sample_config_def probe_timeout_def push_recent_def
        sample_at_def)
  have 2: "worker_step (sample_at Closed 0 10 0 1 False 0 None) (Tick 2 False)
      = Inr (sample_at Open 2 10 1 1 False 0 None)"
    by (simp add: sample_at_def tick_def open_condition_def switch_def sample_config_def sample_log_def
        Let_def)
  have 3: "worker_step (sample_at Open 2 10 1 1 False 0 None) (Tick 20 False)
      = Inr (sample_at HalfOpen 20 10 2 1 False 0 None)"
    by (simp add: sample_at_def tick_def switch_def sample_config_def sample_log_def dur_add_def
        DURATION_MAX_def Let_def)
  have 4: "worker_step (sample_at HalfOpen 20 10 2 1 False 0 None) (SendProbe 21)
      = Inr (sample_at HalfOpen 20 10 2 1 True 1 (Some 21))"
    by (simp add: sample_at_def send_probe_def request_started_def)
  have 5: "worker_step (sample_at HalfOpen 20 10 2 1 True 1 (Some 21)) (Finished 22 Failed)
      = Inr (sample_at Open 22 15 3 2 False 0 None)"
    by (simp add: sample_at_def request_finished_def leave_flight_def push_recent_def switch_def
        sample_config_def sample_log_def saturating_sub_def DURATION_MAX_def Let_def)
  show ?thesis unfolding sample_events_def by (simp only: run_all.simps and_then.simps 1 2 3 4 5)
qed

theorem breaker_log_is_a_path_witness:
  "\<exists>s. run_all worker_step sample_worker sample_events = Inr s \<and> path Closed (transitions s) (state s)"
  using breaker_log_is_a_path [OF sample_run [unfolded sample_worker_def]]
  unfolding sample_worker_def [symmetric] using sample_run by blast



section \<open>Failures open the circuit\<close>

fun failing :: "worker_event \<Rightarrow> bool" where
  "failing (Finished now Failed) = True"
| "failing (ProbeTimedOut now) = True"
| "failing _ = False"

lemma failing_step:
  assumes "failing e" "state s = Closed" "\<not> probe_active s" "worker_step s e = Inr t"
  shows "state t = Closed \<and> \<not> probe_active t \<and> cfg t = cfg s
    \<and> consecutive_failures t = consecutive_failures s + 1"
  using assms by (cases e rule: failing.cases)
    (auto simp: request_finished_def Let_def probe_timeout_def)

lemma failing_run:
  assumes "list_all failing es" "state s = Closed" "\<not> probe_active s" "run_all worker_step s es = Inr t"
  shows "state t = Closed \<and> cfg t = cfg s
    \<and> consecutive_failures t = consecutive_failures s + of_nat (length es)"
  using assms
proof (induction es arbitrary: s)
  case (Cons e es)
  then obtain u where u: "worker_step s e = Inr u" "run_all worker_step u es = Inr t"
    by (auto simp: result_simps)
  with Cons.prems have s: "state u = Closed \<and> \<not> probe_active u \<and> cfg u = cfg s
      \<and> consecutive_failures u = consecutive_failures s + 1"
    by (intro failing_step) auto
  with Cons.IH [of u] Cons.prems u show ?case by (simp add: ac_simps)
qed simp

text \<open>The detector writes to state the decision reads: probe timeouts and failed requests count
  alike, and a closed worker that has as many of them in a row as its threshold is opened by
  the next tick, and excluded from routing.\<close>

theorem failures_open_the_circuit:
  assumes "list_all failing es" "state s = Closed" "\<not> probe_active s"
    and "run_all worker_step s es = Inr t"
    and "unat (consecutive_failures s) + length es < 2 ^ 64"
    and "unat (failure_threshold (cfg s)) \<le> unat (consecutive_failures s) + length es"
  shows "state (fst (tick now False t)) = Open
    \<and> routing_decision (fst (tick now False t))
      = Excluded (CircuitOpen now (dur_add now (backoff_initial (cfg s))))"
proof -
  have t: "state t = Closed" "cfg t = cfg s"
      "consecutive_failures t = consecutive_failures s + of_nat (length es)"
    using failing_run [OF assms(1-4)] by auto
  have "unat (consecutive_failures t) = unat (consecutive_failures s) + length es"
    using assms(5) by (simp add: t(3) unat_word_ariths unat_of_nat)
  then have "failure_threshold (cfg t) \<le> consecutive_failures t"
    using assms(6) by (simp add: t(2) word_le_nat_alt)
  then show ?thesis
    using t(1,2) by (simp add: tick_def open_condition_def Let_def case_prod_beta switch_simps
        routing_decision_def)
qed

theorem failures_open_the_circuit_witness:
  "\<exists>t. run_all worker_step sample_worker [ProbeTimedOut 1] = Inr t \<and> state (fst (tick 2 False t)) = Open"
proof -
  have "run_all worker_step sample_worker [ProbeTimedOut 1] = Inr (probe_timeout 1 sample_worker)"
    by simp
  from failures_open_the_circuit [OF _ _ _ this, of 2] this show ?thesis
    by (simp add: sample_worker_def new_worker_def sample_config_def)
qed

section \<open>Where the breaker departs from its promises\<close>

fun settles_probe :: "worker_event \<Rightarrow> bool" where
  "settles_probe (Finished now out) = True"
| "settles_probe Restart = True"
| "settles_probe _ = False"



text \<open>Progress is measured from the last token of any earlier request, because a finished
  request leaves \<open>last_token\<close> set. A healthy closed worker that was idle for the stuck timeout
  is judged stuck, and opened, by a tick at the very moment its next request starts.\<close>

theorem stale_token_opens_fresh_request:
  assumes "state s = Closed" "in_flight s = 0" "last_token s = Some t0"
    and "stuck_timeout (cfg s) \<le> now - t0" "consecutive_failures s < failure_threshold (cfg s)"
  shows "tick now False (request_started now s)
       = (fst (switch now Open (Some (Stuck (now - t0) 1)) (request_started now s)),
          [\<lparr>t_worker = worker s, t_from = Closed, t_to = Open, t_at = now,
             t_reason = Some (Stuck (now - t0) 1)\<rparr>])"
proof -
  have "in_flight (request_started now s) = 1"
    using assms(2) by (simp add: request_started_def)
  with assms have "open_condition now False (request_started now s) = Some (Stuck (now - t0) 1)"
    by (simp add: open_condition_def Let_def stuck_def no_token_for_def)
  with assms(1) show ?thesis
    by (simp add: tick_def case_prod_beta Let_def) (simp add: switch_def request_started_def Let_def)
qed

theorem stale_token_opens_fresh_request_witness:
  "state (fst (tick 500 False (request_started 500 (token 5 sample_worker)))) = Open"
  using stale_token_opens_fresh_request [of "token 5 sample_worker" 5 500]
  by (simp add: sample_worker_def new_worker_def sample_config_def token_def switch_simps)

section \<open>The fleet\<close>

definition fleet_ok :: "fleet \<Rightarrow> bool" where
  "fleet_ok f \<longleftrightarrow> bm_ok (workers f) \<and> list_all (\<lambda>e. worker (snd e) = fst e) (workers f)"

lemma set_bm_insert: "set (bm_insert k v m) \<subseteq> insert (k, v) (set m)"
  by (induction k v m rule: bm_insert.induct) auto

lemma fleet_ok_register: "fleet_ok f \<Longrightarrow> fleet_ok (register w f)"
  using set_bm_insert [of "worker w" w "workers f"]
  by (auto simp: fleet_ok_def register_def bm_ok_insert list_all_iff)

lemma fleet_ok_new: "fleet_ok new_fleet"
  by (simp add: fleet_ok_def new_fleet_def)

lemma find_flag:
  "list_all (\<lambda>e. worker (snd e) = fst e) ws \<Longrightarrow> distinct (map fst ws) \<Longrightarrow> (k, w) \<in> set ws \<Longrightarrow>
   find (\<lambda>x. fst x = k) (map (\<lambda>w. (worker w, g w)) (bm_values ws)) = Some (k, g w)"
  by (induction ws) (force simp: bm_values_def)+

text \<open>A fleet tick decides each worker by its siblings: in a fleet built by registration, every
  registered worker is ticked exactly once, with the peer flag set when and only when another
  worker of the same model completed work within its peer window.\<close>

theorem fleet_tick_pointwise:
  assumes "f = fold register ws new_fleet"
  shows "fleet_get (fst (fleet_tick now f)) k =
    map_option (\<lambda>w. fst (tick now (\<exists>v. v \<in> set (bm_values (workers f)) \<and> model v = model w
        \<and> worker v \<noteq> worker w \<and> is_live now (peer_window (cfg v)) v) w))
      (fleet_get f k)"
proof -
  have "fleet_ok (fold register ws g)" if "fleet_ok g" for g
    using that by (induction ws arbitrary: g) (auto simp: fleet_ok_register)
  then have f: "fleet_ok f" using assms fleet_ok_new by simp
  define g where "g w = peers_healthy f (model w) (worker w) now" for w :: worker_outcome
  define flags where "flags = map (\<lambda>w. (worker w, g w)) (bm_values (workers f))"
  define h where "h k w = fst (tick now (case find (\<lambda>x. fst x = k) flags of
      Some x \<Rightarrow> snd x | None \<Rightarrow> False) w)" for k w
  have "workers (fst (fleet_tick now f)) = map (\<lambda>(k, w). (k, h k w)) (workers f)"
    by (simp add: fleet_tick_def Let_def h_def g_def flags_def comp_def case_prod_beta)
  also have "\<dots> = map (\<lambda>(k, w). (k, fst (tick now (g w) w))) (workers f)"
  proof (intro map_cong [OF refl])
    fix e assume e: "e \<in> set (workers f)"
    obtain k w where kw: "e = (k, w)" by force
    with e have "find (\<lambda>x. fst x = k) flags = Some (k, g w)"
      using f find_flag [of "workers f" k w g]
      by (simp add: flags_def fleet_ok_def bm_ok_def strict_sorted_iff)
    then show "(case e of (k, w) \<Rightarrow> (k, h k w)) = (case e of (k, w) \<Rightarrow> (k, fst (tick now (g w) w)))"
      by (simp add: kw h_def)
  qed
  also have "\<dots> = bm_map (\<lambda>w. fst (tick now (g w) w)) (workers f)"
    by (simp add: bm_map_def case_prod_beta)
  finally show ?thesis
    by (simp add: fleet_get_def bm_get_bm_map g_def peers_healthy_def list_ex_iff Bex_def)
qed

theorem fleet_tick_pointwise_witness:
  "fleet_get (fst (fleet_tick 0 (fold register [sample_worker] new_fleet))) [119] \<noteq> None"
  using fleet_tick_pointwise [of "fold register [sample_worker] new_fleet" "[sample_worker]" 0 "[119]"]
  by (simp add: fleet_get_def register_def new_fleet_def sample_worker_def new_worker_def)

end
