(* ===== verification/Dispatch_Eligibility.thy ===== *)
theory Dispatch_Eligibility
  imports Ordered_Map
begin

text \<open>
  Dispatch eligibility and the worklist reconciler (\<open>coordination/dispatch_eligibility.rs\<close>), the
  withdrawal of silent issues (\<open>coordination/withdrawal.rs\<close>) and review routing
  (\<open>coordination/review_routing.rs\<close>). The issue record is the one of
  \<open>coordination/ready_queue.rs\<close>.
\<close>

section \<open>Issues and the policy\<close>

record remote_issue =
  number :: u64
  title :: ustr
  body :: ustr
  labels :: "ustr list"
  author :: ustr
  closed :: bool

record dispatch_policy =
  current :: ustr
  retired :: "ustr list"

definition DISPATCH_ELIGIBILITY_LABEL :: ustr where
  "DISPATCH_ELIGIBILITY_LABEL = lit ''auto-implement''"

definition default_policy :: dispatch_policy where
  "default_policy = \<lparr>current = DISPATCH_ELIGIBILITY_LABEL, retired = []\<rparr>"

record reconcile_report =
  added :: "u64 list"
  removed :: "u64 list"
  kept :: "u64 list"
  updated_worklist :: "u64 list"

datatype reconcile_error_kind =
    InvalidPolicy ustr
  | StrandedIssues "u64 list"

record reconcile_error =
  kind :: reconcile_error_kind
  failed_report :: "reconcile_report option"

definition invalid_policy :: "ustr \<Rightarrow> reconcile_error" where
  "invalid_policy reason = \<lparr>kind = InvalidPolicy reason, failed_report = None\<rparr>"

definition new_policy :: "ustr \<Rightarrow> ustr list \<Rightarrow> reconcile_error + dispatch_policy" where
  "new_policy cur ret =
     (if cur = [] then Inl (invalid_policy (lit ''current selector is empty''))
      else if list_ex (\<lambda>l. eq_ignore_ascii_case l cur) ret
      then Inl (invalid_policy (lit ''current selector `'' @ cur
             @ lit ''` also appears among retired selectors''))
      else Inr \<lparr>current = cur, retired = ret\<rparr>)"

definition has_label :: "ustr list \<Rightarrow> ustr \<Rightarrow> bool" where
  "has_label ls l \<longleftrightarrow> list_ex (\<lambda>c. eq_ignore_ascii_case c l) ls"

definition retired_match :: "dispatch_policy \<Rightarrow> ustr list \<Rightarrow> ustr option" where
  "retired_match p ls = find (has_label ls) (retired p)"

datatype eligibility_verdict = Eligible | Ineligible | Stranded ustr

definition evaluate_dispatch_eligibility :: "remote_issue \<Rightarrow> dispatch_policy \<Rightarrow> eligibility_verdict" where
  "evaluate_dispatch_eligibility i p =
     (if closed i then Ineligible
      else if has_label (labels i) (current p) then Eligible
      else case retired_match p (labels i) of Some r \<Rightarrow> Stranded r | None \<Rightarrow> Ineligible)"

definition is_dispatch_eligible :: "remote_issue \<Rightarrow> dispatch_policy \<Rightarrow> bool" where
  "is_dispatch_eligible i p \<longleftrightarrow> evaluate_dispatch_eligibility i p = Eligible"

definition is_stranded :: "eligibility_verdict \<Rightarrow> bool" where
  "is_stranded v = (case v of Stranded _ \<Rightarrow> True | _ \<Rightarrow> False)"

section \<open>Reconciliation\<close>

record reconcile_input =
  tracker_issues :: "remote_issue list"
  worklist :: "u64 list"
  policy :: dispatch_policy

definition deduplicate_issues :: "remote_issue list \<Rightarrow> (u64, remote_issue) bmap" where
  "deduplicate_issues issues = fold (\<lambda>i m. case bm_get m (number i) of
       Some _ \<Rightarrow> m | None \<Rightarrow> bm_insert (number i) i m) issues bm_empty"

text \<open>The loop over the worklist: numbers seen before are skipped.\<close>

fun split_worklist ::
  "u64 list \<Rightarrow> u64 list \<Rightarrow> u64 list \<times> u64 list \<Rightarrow> u64 list \<Rightarrow> u64 list \<times> (u64 list \<times> u64 list)" where
  "split_worklist eligible seen (kp, rm) [] = (seen, (kp, rm))"
| "split_worklist eligible seen (kp, rm) (n # ns) =
     (if n \<in> set seen then split_worklist eligible seen (kp, rm) ns
      else if n \<in> set eligible then split_worklist eligible (n # seen) (kp @ [n], rm) ns
      else split_worklist eligible (n # seen) (kp, n # rm) ns)"

definition reconcile :: "reconcile_input \<Rightarrow> reconcile_error + reconcile_report" where
  "reconcile inp =
     (let tracker = bm_values (deduplicate_issues (tracker_issues inp));
          verdicts = map (\<lambda>i. (number i, evaluate_dispatch_eligibility i (policy inp))) tracker;
          eligible = bs_of_list (map fst (filter (\<lambda>v. snd v = Eligible) verdicts));
          stranded = map fst (filter (\<lambda>v. is_stranded (snd v)) verdicts);
          (seen, (kp, rm)) = split_worklist eligible [] ([], []) (worklist inp);
          new = filter (\<lambda>n. n \<notin> set seen) eligible;
          report = \<lparr>added = new, removed = bs_of_list rm, kept = kp, updated_worklist = kp @ new\<rparr>
      in if stranded = [] then Inr report
         else Inl \<lparr>kind = StrandedIssues stranded, failed_report = Some report\<rparr>)"

section \<open>Reports\<close>

definition changed :: "reconcile_report \<Rightarrow> bool" where
  "changed r \<longleftrightarrow> added r \<noteq> [] \<or> removed r \<noteq> []"

definition numbers_or_none :: "u64 list \<Rightarrow> ustr" where
  "numbers_or_none ns = (if ns = [] then lit ''none''
     else join (lit '' '') (map (\<lambda>n. lit ''#'' @ show_u64 n) ns))"

definition summary :: "reconcile_report \<Rightarrow> ustr" where
  "summary r =
     (if changed r
      then lit ''dispatch-reconciler: added '' @ numbers_or_none (added r) @ lit '', removed ''
        @ numbers_or_none (removed r) @ lit '', kept '' @ show_nat (length (kept r))
      else lit ''dispatch-reconciler: no changes; kept '' @ show_nat (length (kept r)))"

definition report_suffix :: "reconcile_report option \<Rightarrow> ustr" where
  "report_suffix r = (case r of Some r \<Rightarrow> lit ''; '' @ summary r | None \<Rightarrow> [])"

definition error_message :: "reconcile_error \<Rightarrow> ustr" where
  "error_message e = (case kind e of
       InvalidPolicy reason \<Rightarrow> lit ''dispatch-reconciler: ERROR: invalid policy: '' @ reason
     | StrandedIssues issues \<Rightarrow> lit ''dispatch-reconciler: ERROR: '' @ show_nat (length issues)
         @ lit '' issue(s) stranded on a retired selector and not the current one: ''
         @ numbers_or_none issues @ report_suffix (failed_report e))"

section \<open>Withdrawal and review routing\<close>

datatype withdrawal_decision = KeepDispatch nat | Withdrawn nat

definition WITHDRAWAL_THRESHOLD :: nat where
  "WITHDRAWAL_THRESHOLD = 2"

definition withdrawn :: "withdrawal_decision \<Rightarrow> bool" where
  "withdrawn d = (case d of Withdrawn _ \<Rightarrow> True | _ \<Rightarrow> False)"

definition from_trailing_streak :: "nat \<Rightarrow> withdrawal_decision" where
  "from_trailing_streak streak =
     (if WITHDRAWAL_THRESHOLD \<le> streak then Withdrawn streak else KeepDispatch streak)"

definition dispatch_withdrawal :: "bool list \<Rightarrow> withdrawal_decision" where
  "dispatch_withdrawal zero_output =
     from_trailing_streak (length (takeWhile (\<lambda>z. z) (rev zero_output)))"

definition REVIEW_ROUTING_THRESHOLD :: nat where
  "REVIEW_ROUTING_THRESHOLD = 2"

datatype review_routing = Redispatch nat | Review nat

definition route_review :: "nat \<Rightarrow> review_routing" where
  "route_review streak =
     (if REVIEW_ROUTING_THRESHOLD \<le> streak then Review streak else Redispatch streak)"

section \<open>The tracker as a set\<close>

text \<open>The first issue with a number wins.\<close>

definition tracked :: "reconcile_input \<Rightarrow> u64 \<Rightarrow> remote_issue option" where
  "tracked inp n = find (\<lambda>i. number i = n) (tracker_issues inp)"

definition eligible_numbers :: "reconcile_input \<Rightarrow> u64 set" where
  "eligible_numbers inp =
     {n. \<exists>i. tracked inp n = Some i \<and> is_dispatch_eligible i (policy inp)}"

definition stranded_numbers :: "reconcile_input \<Rightarrow> u64 set" where
  "stranded_numbers inp =
     {n. \<exists>i. tracked inp n = Some i \<and> is_stranded (evaluate_dispatch_eligibility i (policy inp))}"

text \<open>The report of a run, whether it failed or not.\<close>

definition report_of :: "reconcile_error + reconcile_report \<Rightarrow> reconcile_report option" where
  "report_of r = (case r of Inr rep \<Rightarrow> Some rep | Inl e \<Rightarrow> failed_report e)"

definition dedup_step :: "remote_issue \<Rightarrow> (u64, remote_issue) bmap \<Rightarrow> (u64, remote_issue) bmap" where
  "dedup_step i m = (case bm_get m (number i) of Some _ \<Rightarrow> m | None \<Rightarrow> bm_insert (number i) i m)"

lemma dedup_fold:
  "bm_ok m \<Longrightarrow> bm_ok (fold dedup_step issues m)
     \<and> bm_get (fold dedup_step issues m) n
       = (case bm_get m n of Some i \<Rightarrow> Some i | None \<Rightarrow> find (\<lambda>i. number i = n) issues)"
proof (induction issues arbitrary: m)
  case (Cons i issues)
  have "bm_ok (dedup_step i m)"
    using Cons.prems by (simp add: dedup_step_def bm_ok_insert split: option.splits)
  from Cons.IH [OF this] show ?case
    by (auto simp: dedup_step_def bm_get_insert split: option.splits)
qed (simp split: option.splits)

lemma deduplicate_issues_fold: "deduplicate_issues issues = fold dedup_step issues bm_empty"
  by (simp add: deduplicate_issues_def dedup_step_def [abs_def])

lemma dedup_values:
  "i \<in> set (bm_values (deduplicate_issues issues)) \<longleftrightarrow> find (\<lambda>j. number j = number i) issues = Some i"
proof -
  let ?m = "deduplicate_issues issues"
  have ok: "bm_ok ?m" and get: "\<And>n. bm_get ?m n = find (\<lambda>j. number j = n) issues"
    using dedup_fold [of "[]" issues] by (simp_all add: deduplicate_issues_fold)
  have "i \<in> set (bm_values ?m) \<longleftrightarrow> (\<exists>n. bm_get ?m n = Some i)"
    by (force simp: bm_values_def btm.get_iff_entry [OF ok])
  then show ?thesis
    by (auto simp: get find_Some_iff)
qed

lemma split_worklist_sets:
  "split_worklist el seen (kp, rm) ns = (seen', (kp', rm')) \<Longrightarrow>
     set seen' = set seen \<union> set ns
   \<and> set kp' = set kp \<union> {n \<in> set ns. n \<notin> set seen \<and> n \<in> set el}
   \<and> set rm' = set rm \<union> {n \<in> set ns. n \<notin> set seen \<and> n \<notin> set el}"
proof (induction ns arbitrary: seen kp rm)
  case (Cons n ns)
  consider "n \<in> set seen" | "n \<notin> set seen" "n \<in> set el" | "n \<notin> set seen" "n \<notin> set el" by blast
  then show ?case
    by cases (use Cons.prems in \<open>auto dest!: Cons.IH\<close>)
qed simp

lemma split_worklist_distinct:
  "split_worklist el seen (kp, rm) ns = (seen', (kp', rm')) \<Longrightarrow> distinct kp \<Longrightarrow> set kp \<subseteq> set seen
     \<Longrightarrow> distinct kp'"
proof (induction ns arbitrary: seen kp rm)
  case (Cons n ns)
  consider "n \<in> set seen" | "n \<notin> set seen" "n \<in> set el" | "n \<notin> set seen" "n \<notin> set el" by blast
  then show ?case
  proof cases
    case 2
    with Cons.prems have "distinct (kp @ [n])" "set (kp @ [n]) \<subseteq> set (n # seen)" by auto
    with Cons.IH 2 Cons.prems(1) show ?thesis by simp
  next
    case 3
    with Cons.prems have "set kp \<subseteq> set (n # seen)" by auto
    with Cons.IH 3 Cons.prems(1,2) show ?thesis by simp
  qed (use Cons in auto)
qed simp

lemma split_worklist_all:
  "distinct ns \<Longrightarrow> set ns \<subseteq> set el \<Longrightarrow> set ns \<inter> set seen = {} \<Longrightarrow>
     split_worklist el seen (kp, rm) ns = (rev ns @ seen, (kp @ ns, rm))"
  by (induction ns arbitrary: seen kp) auto

section \<open>The reconciler\<close>

definition eligible_list :: "reconcile_input \<Rightarrow> u64 list" where
  "eligible_list inp = bs_of_list (map fst (filter (\<lambda>v. snd v = Eligible)
     (map (\<lambda>i. (number i, evaluate_dispatch_eligibility i (policy inp)))
       (bm_values (deduplicate_issues (tracker_issues inp))))))"

lemma set_selected:
  "set (map fst (filter (\<lambda>v. P (snd v)) (map (\<lambda>i. (f i, g i)) xs))) = f ` {i \<in> set xs. P (g i)}"
  by (induction xs) auto

lemma set_eligible_list: "set (eligible_list inp) = eligible_numbers inp"
proof -
  have "set (eligible_list inp) = number ` {i \<in> set (bm_values (deduplicate_issues (tracker_issues inp))).
      is_dispatch_eligible i (policy inp)}"
    unfolding eligible_list_def set_bs_of_list is_dispatch_eligible_def
    by (rule set_selected [of "\<lambda>v. v = Eligible"])
  also have "\<dots> = eligible_numbers inp"
    by (auto simp: dedup_values eligible_numbers_def tracked_def image_iff find_Some_iff)
  finally show ?thesis .
qed

lemma reconcile_report:
  obtains seen kp rm where
    "split_worklist (eligible_list inp) [] ([], []) (worklist inp) = (seen, (kp, rm))"
    "report_of (reconcile inp) = Some \<lparr>added = filter (\<lambda>n. n \<notin> set seen) (eligible_list inp),
       removed = bs_of_list rm, kept = kp,
       updated_worklist = kp @ filter (\<lambda>n. n \<notin> set seen) (eligible_list inp)\<rparr>"
proof -
  obtain seen kp rm where sp: "split_worklist (eligible_list inp) [] ([], []) (worklist inp) = (seen, (kp, rm))"
    by (metis surj_pair)
  then show thesis
    by (intro that [OF sp]) (simp add: reconcile_def Let_def report_of_def flip: eligible_list_def)
qed

text \<open>Reconciliation makes the worklist the set of eligible issues. Whether the run fails or
  not, its report keeps exactly the listed eligible issues, adds exactly the missing ones,
  removes exactly the listed ineligible ones, and the updated worklist holds every eligible
  issue once.\<close>

theorem reconcile_makes_worklist_eligible:
  "\<exists>r. report_of (reconcile inp) = Some r
     \<and> set (kept r) = set (worklist inp) \<inter> eligible_numbers inp
     \<and> set (added r) = eligible_numbers inp - set (worklist inp)
     \<and> set (removed r) = set (worklist inp) - eligible_numbers inp
     \<and> set (updated_worklist r) = eligible_numbers inp \<and> distinct (updated_worklist r)"
proof -
  obtain seen kp rm where sp: "split_worklist (eligible_list inp) [] ([], []) (worklist inp) = (seen, (kp, rm))"
    and rep: "report_of (reconcile inp) = Some \<lparr>added = filter (\<lambda>n. n \<notin> set seen) (eligible_list inp),
       removed = bs_of_list rm, kept = kp,
       updated_worklist = kp @ filter (\<lambda>n. n \<notin> set seen) (eligible_list inp)\<rparr>"
    by (rule reconcile_report)
  have sets: "set seen = set (worklist inp)" "set kp = set (worklist inp) \<inter> eligible_numbers inp"
      "set rm = set (worklist inp) - eligible_numbers inp"
    using split_worklist_sets [OF sp] by (auto simp: set_eligible_list)
  have "distinct kp" using split_worklist_distinct [OF sp] by simp
  moreover have "distinct (eligible_list inp)" by (simp add: eligible_list_def)
  ultimately show ?thesis
    using sets by (auto simp: rep set_eligible_list)
qed

lemma report_properties:
  assumes "report_of (reconcile inp) = Some r"
  shows "set (updated_worklist r) = eligible_numbers inp" "distinct (updated_worklist r)"
proof -
  obtain seen kp rm where sp: "split_worklist (eligible_list inp) [] ([], []) (worklist inp) = (seen, (kp, rm))"
    and rep: "report_of (reconcile inp) = Some \<lparr>added = filter (\<lambda>n. n \<notin> set seen) (eligible_list inp),
       removed = bs_of_list rm, kept = kp,
       updated_worklist = kp @ filter (\<lambda>n. n \<notin> set seen) (eligible_list inp)\<rparr>"
    by (rule reconcile_report)
  have r: "updated_worklist r = kp @ filter (\<lambda>n. n \<notin> set seen) (eligible_list inp)"
    using rep assms by simp
  have sets: "set seen = set (worklist inp)" "set kp = set (worklist inp) \<inter> eligible_numbers inp"
    using split_worklist_sets [OF sp] by (auto simp: set_eligible_list)
  have d: "distinct kp" "distinct (eligible_list inp)"
    using split_worklist_distinct [OF sp] by (simp_all add: eligible_list_def)
  show "set (updated_worklist r) = eligible_numbers inp" "distinct (updated_worklist r)"
    using sets d by (auto simp: r set_eligible_list)
qed

text \<open>Reconciliation is idempotent: a second run over its own worklist, with the tracker
  unchanged, adds and removes nothing and returns the same worklist in the same order.\<close>

theorem reconcile_idempotent:
  assumes "report_of (reconcile inp) = Some r"
  shows "report_of (reconcile (inp\<lparr>worklist := updated_worklist r\<rparr>))
    = Some \<lparr>added = [], removed = [], kept = updated_worklist r, updated_worklist = updated_worklist r\<rparr>"
proof -
  let ?inp = "inp\<lparr>worklist := updated_worklist r\<rparr>"
  have el: "eligible_list ?inp = eligible_list inp" by (simp add: eligible_list_def)
  have r: "set (updated_worklist r) = set (eligible_list inp)" "distinct (updated_worklist r)"
    using report_properties [OF assms] by (simp_all add: set_eligible_list)
  obtain seen kp rm where
    sp: "split_worklist (eligible_list ?inp) [] ([], []) (worklist ?inp) = (seen, (kp, rm))"
    and rep: "report_of (reconcile ?inp) = Some \<lparr>added = filter (\<lambda>n. n \<notin> set seen) (eligible_list ?inp),
       removed = bs_of_list rm, kept = kp,
       updated_worklist = kp @ filter (\<lambda>n. n \<notin> set seen) (eligible_list ?inp)\<rparr>"
    by (rule reconcile_report)
  have "seen = rev (updated_worklist r)" "kp = updated_worklist r" "rm = []"
    using sp split_worklist_all [OF r(2), of "eligible_list inp" "[]" "[]" "[]"] r(1) el by auto
  moreover have "filter (\<lambda>n. n \<notin> set (updated_worklist r)) (eligible_list inp) = []"
    using r(1) by simp
  ultimately show ?thesis
    unfolding rep by (simp add: el bs_of_list_def del: filter_False)
qed

definition sample_issue :: "u64 \<Rightarrow> ustr \<Rightarrow> remote_issue" where
  "sample_issue n l = \<lparr>number = n, title = [], body = [], labels = [l], author = [], closed = False\<rparr>"

theorem reconcile_idempotent_witness:
  "\<exists>r :: reconcile_report. report_of (reconcile \<lparr>tracker_issues = [sample_issue 3 (lit ''auto-implement'')],
      worklist = updated_worklist r, policy = default_policy\<rparr>)
    = Some \<lparr>added = [], removed = [], kept = updated_worklist r, updated_worklist = updated_worklist r\<rparr>"
proof -
  let ?inp = "\<lparr>tracker_issues = [sample_issue 3 (lit ''auto-implement'')], worklist = [9],
      policy = default_policy\<rparr>"
  obtain r where "report_of (reconcile ?inp) = Some r"
    by (rule reconcile_report) blast
  from reconcile_idempotent [OF this] show ?thesis by (intro exI [of _ r]) simp
qed

text \<open>A retired selector is never skipped silently: a run succeeds exactly when no open issue of
  the tracker carries a retired selector without the current one; otherwise it fails and names
  exactly those issues.\<close>

theorem reconcile_fails_on_stranded:
  "(case reconcile inp of
      Inr _ \<Rightarrow> stranded_numbers inp = {}
    | Inl e \<Rightarrow> \<exists>ns. kind e = StrandedIssues ns \<and> set ns = stranded_numbers inp \<and> ns \<noteq> [])"
proof -
  let ?stranded = "map fst (filter (\<lambda>v. is_stranded (snd v))
     (map (\<lambda>i. (number i, evaluate_dispatch_eligibility i (policy inp)))
       (bm_values (deduplicate_issues (tracker_issues inp)))))"
  have "set ?stranded = number ` {i \<in> set (bm_values (deduplicate_issues (tracker_issues inp))).
      is_stranded (evaluate_dispatch_eligibility i (policy inp))}"
    by (rule set_selected [of is_stranded])
  also have "\<dots> = stranded_numbers inp"
    by (auto simp: dedup_values stranded_numbers_def tracked_def image_iff find_Some_iff)
  finally have "set ?stranded = stranded_numbers inp" .
  then show ?thesis
    by (auto simp: reconcile_def Let_def simp del: set_map set_filter split: prod.splits)
qed

lemma takeWhile_at_False: "takeWhile (\<lambda>z. z) (xs @ False # ys) = takeWhile (\<lambda>z. z) xs"
  by (induction xs) auto

lemma takeWhile_all_True: "takeWhile (\<lambda>z. z) (replicate k True) = replicate k True"
  by (induction k) auto

text \<open>Withdrawal looks only at the present: whatever happened up to and including a run that
  produced output, the verdict is that of the runs after it alone, so no number of earlier
  failures withdraws an issue that has succeeded since.\<close>

theorem withdrawal_ignores_the_past:
  "dispatch_withdrawal (before @ False # after) = dispatch_withdrawal after
   \<and> withdrawn (dispatch_withdrawal (before @ False # replicate k True)) = (2 \<le> k)"
  by (simp add: dispatch_withdrawal_def takeWhile_at_False from_trailing_streak_def withdrawn_def
      WITHDRAWAL_THRESHOLD_def takeWhile_all_True)

end
