(* ===== verification/Digraph.thy ===== *)
theory Digraph
  imports Rust_Base
begin

text \<open>
  Dependency graphs, for every component that orders work: topological orders, chains of
  dependencies and cycles, and the layers in which the nodes of a graph become ready. A graph is
  given by its nodes and a function \<open>deps\<close> from a node to the nodes it depends on.

  The locale \<open>digraph\<close> states what the components promise of such a graph (finitely many nodes,
  dependencies between nodes only); its lemmas say when peeling off ready nodes takes all of them
  and that the layers measure the longest chains.
\<close>

section \<open>Topological orders and chains\<close>

fun topo :: "('a \<Rightarrow> 'a set) \<Rightarrow> 'a set \<Rightarrow> 'a list \<Rightarrow> bool" where
  "topo deps seen [] \<longleftrightarrow> True"
| "topo deps seen (x # xs) \<longleftrightarrow> deps x \<subseteq> seen \<and> topo deps (insert x seen) xs"

lemma topo_append: "topo deps seen (xs @ ys) \<longleftrightarrow> topo deps seen xs \<and> topo deps (seen \<union> set xs) ys"
  by (induction xs arbitrary: seen) auto

text \<open>A dependency path runs from a spec to something it depends on.\<close>

abbreviation chain :: "('a \<Rightarrow> 'a set) \<Rightarrow> 'a list \<Rightarrow> bool" where
  "chain deps \<equiv> successively (\<lambda>a b. b \<in> deps a)"

definition dependency_cycle :: "('a \<Rightarrow> 'a set) \<Rightarrow> 'a list \<Rightarrow> bool" where
  "dependency_cycle deps c \<longleftrightarrow> chain deps c \<and> 2 \<le> length c \<and> hd c = last c"

lemma topo_earlier:
  "topo deps {} (xs @ x # ys) \<Longrightarrow> deps x \<subseteq> set xs"
  by (simp add: topo_append)

lemma topo_chain_within:
  "topo deps {} xs \<Longrightarrow> chain deps (y # zs) \<Longrightarrow> y \<in> set xs \<Longrightarrow> set (y # zs) \<subseteq> set xs"
proof (induction zs arbitrary: y)
  case (Cons z zs)
  obtain us vs where xs: "xs = us @ y # vs" using Cons.prems(3) by (auto dest: split_list)
  then have "z \<in> set xs" using Cons.prems topo_earlier by fastforce
  with Cons show ?case by auto
qed simp

lemma topo_no_cycle:
  assumes "topo deps {} xs" "dependency_cycle deps c"
  shows "hd c \<notin> set xs"
proof
  assume "hd c \<in> set xs"
  then obtain us vs where xs: "xs = us @ hd c # vs" "hd c \<notin> set us" by (auto dest: split_list_first)
  obtain y zs where c: "c = hd c # y # zs"
    using assms(2) by (cases c rule: remdups_adj.cases) (auto simp: dependency_cycle_def)
  have ch: "chain deps (hd c # y # zs)" using assms(2) c by (simp add: dependency_cycle_def)
  then have "y \<in> set us" using topo_earlier assms(1) xs by fastforce
  moreover have "topo deps {} us" using assms(1) xs by (simp add: topo_append)
  ultimately have "set (y # zs) \<subseteq> set us" using topo_chain_within ch by fastforce
  moreover have "last c = hd c" using assms(2) by (simp add: dependency_cycle_def)
  then have "hd c \<in> set (y # zs)" using c by (metis last_ConsR last_in_set list.distinct(1))
  ultimately show False using xs by auto
qed

lemma chain_append_one: "chain deps (c @ [x]) \<longleftrightarrow> chain deps c \<and> (c = [] \<or> x \<in> deps (last c))"
  by (auto simp: successively_append_iff)

section \<open>Nodes that are ready\<close>

text \<open>What is ready once the nodes of \<open>D\<close> are done.\<close>

definition ready :: "('a \<Rightarrow> 'a set) \<Rightarrow> 'a set \<Rightarrow> 'a set \<Rightarrow> 'a set" where
  "ready deps N D = {x \<in> N. deps x \<subseteq> D}"

text \<open>The layers of a graph: each holds what has just become ready.\<close>

fun layered :: "('a \<Rightarrow> 'a set) \<Rightarrow> 'a set \<Rightarrow> 'a set \<Rightarrow> 'a list list \<Rightarrow> bool" where
  "layered deps N D [] \<longleftrightarrow> True"
| "layered deps N D (w # ws) \<longleftrightarrow> set w = ready deps N D - D \<and> layered deps N (D \<union> set w) ws"

lemma layered_snoc:
  "layered deps N D (ws @ [w]) \<longleftrightarrow>
     layered deps N D ws \<and> set w = ready deps N (D \<union> set (concat ws)) - (D \<union> set (concat ws))"
  by (induction ws arbitrary: D) (auto simp: Un_assoc)

lemma layered_nodes: "layered deps N D ws \<Longrightarrow> set (concat ws) \<subseteq> N"
  by (induction ws arbitrary: D) (auto simp: ready_def)

lemma layered_distinct:
  "layered deps N {} ws \<Longrightarrow> \<forall>w \<in> set ws. distinct w \<Longrightarrow> distinct (concat ws)"
  by (induction ws rule: rev_induct) (auto simp: layered_snoc)

lemma layered_nth:
  "layered deps N D ws \<Longrightarrow> i < length ws \<Longrightarrow>
     set (ws ! i) = ready deps N (D \<union> set (concat (take i ws))) - (D \<union> set (concat (take i ws)))"
proof (induction ws arbitrary: D i)
  case (Cons w ws)
  show ?case
  proof (cases i)
    case 0
    with Cons.prems show ?thesis by simp
  next
    case (Suc j)
    from Cons.prems Suc have "layered deps N (D \<union> set w) ws" "j < length ws"
      unfolding layered.simps by auto
    from Cons.IH [OF this] show ?thesis by (simp add: Suc Un_assoc)
  qed
qed simp

lemma in_layers: "y \<in> set (concat (take i ws)) \<longleftrightarrow> (\<exists>j < min i (length ws). y \<in> set (ws ! j))"
proof (induction ws arbitrary: i)
  case (Cons w ws)
  show ?case
  proof (cases i)
    case (Suc k)
    have "(\<exists>j < min i (length (w # ws)). y \<in> set ((w # ws) ! j))
        \<longleftrightarrow> y \<in> set w \<or> (\<exists>j < min k (length ws). y \<in> set (ws ! j))"
      by (auto simp: Suc less_Suc_eq_0_disj)
    with Cons.IH [of k] show ?thesis by (simp add: Suc)
  qed simp
qed simp

lemma layered_before:
  assumes "layered deps N {} ws" "i < length ws" "x \<in> set (ws ! i)" "y \<in> deps x"
  shows "\<exists>j < i. y \<in> set (ws ! j)"
proof -
  have "y \<in> set (concat (take i ws))"
    using layered_nth [OF assms(1,2)] assms(3,4) by (auto simp: ready_def)
  then show ?thesis using in_layers [of y i ws] by auto
qed

lemma layered_needs_previous:
  assumes "layered deps N {} ws" "Suc i < length ws" "x \<in> set (ws ! Suc i)"
  shows "\<exists>y \<in> deps x. y \<in> set (ws ! i)"
proof (rule ccontr)
  let ?D = "set (concat (take i ws))"
  assume no: "\<not> ?thesis"
  have split: "set (concat (take (Suc i) ws)) = ?D \<union> set (ws ! i)"
    using assms(2) by (simp add: take_Suc_conv_app_nth)
  have x: "x \<in> N" "deps x \<subseteq> ?D \<union> set (ws ! i)" "x \<notin> ?D" "x \<notin> set (ws ! i)"
    using layered_nth [OF assms(1,2)] assms(3) unfolding split by (simp_all add: ready_def)
  then have "deps x \<subseteq> ?D" using no by blast
  with x have "x \<in> set (ws ! i)"
    using layered_nth [OF assms(1), of i] assms(2) by (simp add: ready_def)
  with x show False by blast
qed

text \<open>Layers by depth: a depth that every dependency decreases and some dependency decreases by one.\<close>

definition depth_of :: "('a \<Rightarrow> 'a set) \<Rightarrow> 'a set \<Rightarrow> ('a \<Rightarrow> nat) \<Rightarrow> bool" where
  "depth_of deps N d \<longleftrightarrow> (\<forall>x \<in> N. deps x \<subseteq> N \<and> (\<forall>y \<in> deps x. d y < d x)
     \<and> (d x = 0 \<or> (\<exists>y \<in> deps x. Suc (d y) = d x)))"

lemma ready_at_depth:
  assumes "depth_of deps N d"
  shows "ready deps N {x \<in> N. d x < i} = {x \<in> N. d x \<le> i}"
proof (intro set_eqI iffI)
  fix x assume x: "x \<in> ready deps N {x \<in> N. d x < i}"
  then have "x \<in> N" "deps x \<subseteq> {x \<in> N. d x < i}" by (auto simp: ready_def)
  moreover from this assms have "d x = 0 \<or> (\<exists>y \<in> deps x. Suc (d y) = d x)" by (simp add: depth_of_def)
  ultimately show "x \<in> {x \<in> N. d x \<le> i}" by auto
next
  fix x assume "x \<in> {x \<in> N. d x \<le> i}"
  then have x: "x \<in> N" "d x \<le> i" by auto
  moreover from x(1) assms have "deps x \<subseteq> N" "\<forall>y \<in> deps x. d y < d x" by (simp_all add: depth_of_def)
  ultimately show "x \<in> ready deps N {x \<in> N. d x < i}" by (auto simp: ready_def)
qed

lemma depth_layered:
  assumes "depth_of deps N d" "\<And>i. i < length ws \<Longrightarrow> set (ws ! i) = {x \<in> N. d x = i}"
  shows "layered deps N {} ws \<and> set (concat ws) = {x \<in> N. d x < length ws}"
  using assms(2)
proof (induction ws rule: rev_induct)
  case (snoc w ws)
  have "set (ws ! i) = {x \<in> N. d x = i}" if "i < length ws" for i
    using snoc.prems [of i] that by (simp add: nth_append)
  then have IH: "layered deps N {} ws" "set (concat ws) = {x \<in> N. d x < length ws}"
    using snoc.IH by blast+
  have w: "set w = {x \<in> N. d x = length ws}" using snoc.prems [of "length ws"] by simp
  have "set w = ready deps N (set (concat ws)) - set (concat ws)"
    unfolding IH(2) ready_at_depth [OF assms(1)] w by auto
  with IH(1) have "layered deps N {} (ws @ [w])" by (simp only: layered_snoc Un_empty_left simp_thms)
  moreover have "set (concat (ws @ [w])) = set (concat ws) \<union> set w" by auto
  then have "set (concat (ws @ [w])) = {x \<in> N. d x < length (ws @ [w])}"
    unfolding IH(2) w by (auto simp: less_Suc_eq)
  ultimately show ?case by blast
qed simp

lemma depth_of_insert:
  assumes "depth_of deps N d" "deps x \<subseteq> N" "x \<notin> N"
    and "(\<forall>y \<in> deps x. d y < n) \<and> (n = 0 \<or> (\<exists>y \<in> deps x. Suc (d y) = n))"
  shows "depth_of deps (insert x N) (d(x := n))"
proof -
  have "y \<noteq> x" if "y \<in> deps z" "z \<in> insert x N" for y z
    using that assms(1-3) by (auto simp: depth_of_def)
  then have eq: "(d(x := n)) y = d y" if "y \<in> deps z" "z \<in> insert x N" for y z
    using that by auto
  show ?thesis
    unfolding depth_of_def
  proof (intro ballI)
    fix z assume z: "z \<in> insert x N"
    show "deps z \<subseteq> insert x N \<and> (\<forall>y \<in> deps z. (d(x := n)) y < (d(x := n)) z)
        \<and> ((d(x := n)) z = 0 \<or> (\<exists>y \<in> deps z. Suc ((d(x := n)) y) = (d(x := n)) z))"
    proof (cases "z = x")
      case True
      with assms(2,4) eq [OF _ z] show ?thesis by auto
    next
      case False
      with z have "z \<in> N" by simp
      with assms(1) have "deps z \<subseteq> N \<and> (\<forall>y \<in> deps z. d y < d z) \<and> (d z = 0 \<or> (\<exists>y \<in> deps z. Suc (d y) = d z))"
        by (simp add: depth_of_def)
      with False eq [OF _ z] show ?thesis by auto
    qed
  qed
qed

lemma depth_of_cong: "(\<And>x. x \<in> N \<Longrightarrow> d x = e x) \<Longrightarrow> depth_of deps N d \<Longrightarrow> depth_of deps N e"
  unfolding depth_of_def by (metis subsetD)

lemma depth_inhabited:
  assumes "depth_of deps N d" "x \<in> N" "i \<le> d x"
  shows "\<exists>y \<in> N. d y = i"
  using assms(2,3)
proof (induction "d x" arbitrary: x rule: less_induct)
  case (less x)
  show ?case
  proof (cases "d x = i")
    case False
    have "deps x \<subseteq> N" "d x = 0 \<or> (\<exists>y \<in> deps x. Suc (d y) = d x)"
      using assms(1) less.prems(1) by (simp_all add: depth_of_def)
    then obtain y where "y \<in> N" "Suc (d y) = d x" using False less.prems(2) by auto
    with less.hyps [of y] less.prems False show ?thesis by auto
  qed (use less.prems in blast)
qed

text \<open>Layers are the same in every copy of a graph, and a complete layering is unique.\<close>

lemma layered_image:
  assumes "inj_on f N" "\<And>x. x \<in> N \<Longrightarrow> deps x \<subseteq> N" "\<And>x. x \<in> N \<Longrightarrow> deps' (f x) = f ` deps x"
  shows "D \<subseteq> N \<Longrightarrow> set (concat ws) \<subseteq> N \<Longrightarrow>
    layered deps' (f ` N) (f ` D) (map (map f) ws) \<longleftrightarrow> layered deps N D ws"
proof (induction ws arbitrary: D)
  case (Cons w ws)
  have sub: "f ` A \<subseteq> f ` D \<longleftrightarrow> A \<subseteq> D" if "A \<subseteq> N" for A
    using inj_on_image_mem_iff [OF assms(1)] that Cons.prems(1) by blast
  have "ready deps' (f ` N) (f ` D) = f ` {x \<in> N. f ` deps x \<subseteq> f ` D}"
    using assms(3) by (auto simp: ready_def)
  also have "{x \<in> N. f ` deps x \<subseteq> f ` D} = ready deps N D"
    using sub assms(2) by (auto simp only: ready_def)
  finally have "ready deps' (f ` N) (f ` D) = f ` ready deps N D" .
  moreover have "f ` ready deps N D - f ` D = f ` (ready deps N D - D)"
    using inj_on_image_set_diff [OF assms(1), of "ready deps N D" D] Cons.prems(1) by (auto simp: ready_def)
  moreover have "f ` set w = f ` (ready deps N D - D) \<longleftrightarrow> set w = ready deps N D - D"
    using inj_on_image_eq_iff [OF assms(1), of "set w" "ready deps N D - D"] Cons.prems(2) by (auto simp: ready_def)
  moreover have "f ` D \<union> f ` set w = f ` (D \<union> set w)" by (simp add: image_Un)
  ultimately show ?case using Cons.IH [of "D \<union> set w"] Cons.prems by simp
qed simp

lemma layered_unique:
  "layered deps N D ws \<Longrightarrow> layered deps N D vs \<Longrightarrow> D \<union> set (concat ws) = N \<Longrightarrow> D \<union> set (concat vs) = N
     \<Longrightarrow> [] \<notin> set ws \<Longrightarrow> [] \<notin> set vs \<Longrightarrow> map set ws = map set vs"
proof (induction ws arbitrary: D vs)
  case Nil
  have "vs = []"
  proof (cases vs)
    case (Cons v vs')
    have "set v = ready deps N D - D" using Nil.prems(2) Cons by simp
    moreover have "D = N" using Nil.prems(3) by simp
    ultimately have "set v = {}" by (auto simp only: ready_def)
    then have "v = []" by simp
    with Nil.prems(6) Cons show ?thesis by simp
  qed simp
  then show ?case by simp
next
  case (Cons w ws)
  have w: "set w = ready deps N D - D" "w \<noteq> []" using Cons.prems(1,5) by auto
  have "vs \<noteq> []"
  proof
    assume "vs = []"
    then have "D = N" using Cons.prems(4) by simp
    with w(1) have "set w = {}" by (auto simp only: ready_def)
    with w(2) show False by simp
  qed
  then obtain v vs' where vs: "vs = v # vs'" by (cases vs) simp
  with Cons.prems(2) w(1) have "set v = set w" by simp
  have "map set ws = map set vs'"
  proof (rule Cons.IH)
    show "layered deps N (D \<union> set w) ws" "layered deps N (D \<union> set w) vs'"
      using Cons.prems(1,2) unfolding vs layered.simps \<open>set v = set w\<close> by blast+
    show "D \<union> set w \<union> set (concat ws) = N" "D \<union> set w \<union> set (concat vs') = N"
      using Cons.prems(3,4) vs \<open>set v = set w\<close> by (simp_all add: Un_assoc)
  qed (use Cons.prems vs in auto)
  with vs \<open>set v = set w\<close> show ?case by simp
qed

section \<open>Finite graphs\<close>

locale digraph =
  fixes N :: "'a set" and deps :: "'a \<Rightarrow> 'a set"
  assumes finite_nodes: "finite N"
    and deps_nodes: "x \<in> N \<Longrightarrow> deps x \<subseteq> N"
begin

lemma ready_nodes: "ready deps N D \<subseteq> N"
  by (auto simp: ready_def)

text \<open>A set of nodes that each depend on another of them holds a cycle.\<close>

lemma unready_cycle:
  assumes R: "R \<subseteq> N" "R \<noteq> {}" "\<And>x. x \<in> R \<Longrightarrow> deps x \<inter> R \<noteq> {}"
  shows "\<exists>c. dependency_cycle deps c \<and> set c \<subseteq> R"
proof -
  have ex: "\<exists>c. chain deps c \<and> set c \<subseteq> R \<and> length c = Suc n" for n
  proof (induction n)
    case 0
    from R(2) obtain x where "x \<in> R" by blast
    then show ?case by (intro exI [of _ "[x]"]) simp
  next
    case (Suc n)
    then obtain c where c: "chain deps c" "set c \<subseteq> R" "length c = Suc n" by blast
    then have "last c \<in> R" by (metis last_in_set length_0_conv nat.distinct(1) subsetD)
    then obtain y where "y \<in> deps (last c)" "y \<in> R" using R(3) by blast
    with c show ?case by (intro exI [of _ "c @ [y]"]) (simp add: chain_append_one)
  qed
  obtain c where c: "chain deps c" "set c \<subseteq> R" "length c = Suc (card N)" using ex by blast
  have "\<not> distinct c"
  proof
    assume "distinct c"
    then have "card (set c) = Suc (card N)" using c(3) by (simp add: distinct_card)
    moreover have "card (set c) \<le> card N" using c(2) R(1) finite_nodes by (intro card_mono) auto
    ultimately show False by simp
  qed
  then obtain us x vs ws where d: "c = us @ [x] @ vs @ [x] @ ws" by (metis not_distinct_decomp)
  then have "c = us @ ((x # vs @ [x]) @ ws)" by simp
  then have "chain deps (x # vs @ [x])" using c(1) successively_append_iff by metis
  then have "dependency_cycle deps (x # vs @ [x])" by (simp add: dependency_cycle_def)
  moreover have "set (x # vs @ [x]) \<subseteq> R" using c(2) d by auto
  ultimately show ?thesis by blast
qed

text \<open>When nothing more becomes ready, all nodes are done or the rest holds a cycle.\<close>

lemma stuck_cycle:
  assumes "D \<subseteq> N" "ready deps N D \<subseteq> D" "D \<noteq> N"
  shows "\<exists>c. dependency_cycle deps c \<and> set c \<subseteq> N - D"
proof (rule unready_cycle)
  show "deps x \<inter> (N - D) \<noteq> {}" if "x \<in> N - D" for x
    using that assms(2) deps_nodes [of x] by (auto simp: ready_def)
qed (use assms in auto)

lemma layered_done_no_cycle:
  assumes "layered deps N {} ws" "set (concat ws) = N"
  shows "\<nexists>c. dependency_cycle deps c \<and> set c \<subseteq> N"
proof
  assume "\<exists>c. dependency_cycle deps c \<and> set c \<subseteq> N"
  then obtain c where c: "dependency_cycle deps c" "set c \<subseteq> N" by blast
  have drop: "\<exists>i < n. last c \<in> set (ws ! i) \<and> i < length ws"
    if "chain deps (x # zs)" "n < length ws" "x \<in> set (ws ! n)" "last c = last zs" "zs \<noteq> []" for x zs n
    using that
  proof (induction zs arbitrary: x n)
    case (Cons z zs)
    from Cons.prems have "z \<in> deps x" by simp
    then obtain j where j: "j < n" "z \<in> set (ws ! j)"
      using layered_before assms(1) Cons.prems(2,3) by metis
    show ?case
    proof (cases "zs = []")
      case True
      with Cons.prems j show ?thesis by auto
    next
      case False
      have "\<exists>i < j. last c \<in> set (ws ! i) \<and> i < length ws"
        using Cons.IH [of z j] Cons.prems j False by auto
      with j show ?thesis by (meson less_trans)
    qed
  qed simp
  obtain y zs where y: "c = hd c # y # zs"
    using c(1) by (cases c rule: remdups_adj.cases) (auto simp: dependency_cycle_def)
  have least: "False" if "n < length ws" "hd c \<in> set (ws ! n)" for n
    using that
  proof (induction n rule: less_induct)
    case (less n)
    have "chain deps (hd c # (y # zs))" using c(1) y by (simp add: dependency_cycle_def)
    then have "\<exists>i < n. last c \<in> set (ws ! i) \<and> i < length ws"
      using drop [of "hd c" "y # zs" n] less.prems y by (metis last_ConsR list.distinct(1))
    moreover have "last c = hd c" using c(1) by (simp add: dependency_cycle_def)
    ultimately show False using less.IH by auto
  qed
  have "hd c \<in> set c" using y by (metis list.set_intros(1))
  then have "hd c \<in> set (concat ws)" using c(2) assms(2) by blast
  then obtain w where "w \<in> set ws" "hd c \<in> set w" by auto
  then show False using least by (metis in_set_conv_nth)
qed

text \<open>The layer of a node is the length of the longest chain that starts at it.\<close>

lemma layer_bounds_chain:
  "layered deps N {} ws \<Longrightarrow> i < length ws \<Longrightarrow> x \<in> set (ws ! i) \<Longrightarrow> chain deps (x # zs)
     \<Longrightarrow> length (x # zs) \<le> Suc i"
proof (induction zs arbitrary: x i)
  case (Cons z zs)
  then have "z \<in> deps x" by simp
  then obtain j where j: "j < i" "z \<in> set (ws ! j)"
    using layered_before Cons.prems by metis
  with Cons have "length (z # zs) \<le> Suc j" by auto
  with j show ?case by simp
qed simp

lemma layer_reaches_chain:
  "layered deps N {} ws \<Longrightarrow> i < length ws \<Longrightarrow> x \<in> set (ws ! i)
     \<Longrightarrow> \<exists>zs. chain deps (x # zs) \<and> set (x # zs) \<subseteq> N \<and> length (x # zs) = Suc i"
proof (induction i arbitrary: x)
  case 0
  then have "x \<in> N" using layered_nodes by fastforce
  then show ?case by (intro exI [of _ "[]"]) simp
next
  case (Suc i)
  then obtain y where y: "y \<in> deps x" "y \<in> set (ws ! i)" using layered_needs_previous by metis
  with Suc obtain zs where zs: "chain deps (y # zs)" "set (y # zs) \<subseteq> N" "length (y # zs) = Suc i"
    by (meson Suc_lessD)
  have "x \<in> N" using Suc.prems layered_nodes by fastforce
  with y zs show ?case by (intro exI [of _ "y # zs"]) simp
qed

lemma longest_chain:
  assumes "layered deps N {} ws" "set (concat ws) = N" "[] \<notin> set ws"
  shows "(\<exists>c. chain deps c \<and> set c \<subseteq> N \<and> length c = length ws)
     \<and> (\<nexists>c. chain deps c \<and> set c \<subseteq> N \<and> length ws < length c)"
proof
  show "\<exists>c. chain deps c \<and> set c \<subseteq> N \<and> length c = length ws"
  proof (cases ws rule: rev_cases)
    case Nil
    then show ?thesis by (intro exI [of _ "[]"]) simp
  next
    case (snoc us w)
    then obtain x where "x \<in> set (ws ! length us)" using assms(3) by (cases w) auto
    with layer_reaches_chain [OF assms(1), of "length us" x] snoc show ?thesis by (metis length_append_singleton lessI)
  qed
  show "\<nexists>c. chain deps c \<and> set c \<subseteq> N \<and> length ws < length c"
  proof
    assume "\<exists>c. chain deps c \<and> set c \<subseteq> N \<and> length ws < length c"
    then obtain c where c: "chain deps c" "set c \<subseteq> N" "length ws < length c" by blast
    then obtain x zs where x: "c = x # zs" by (cases c) auto
    with c assms(2) have "x \<in> set (concat ws)" by auto
    then obtain i where "i < length ws" "x \<in> set (ws ! i)" by (metis UnionE in_set_conv_nth set_concat imageE)
    with layer_bounds_chain [OF assms(1)] c x show False by fastforce
  qed
qed

end

end
