(* ===== verification/Dfs.thy ===== *)
theory Dfs
  imports Digraph
begin

text \<open>
  The depth-first topological sort the components share. Each has its own function and its own state;
  the locale \<open>depth_first\<close> states what they have in common: how a visit unfolds, what entering and
  leaving a node does to the marks, the stack and the order, and which error names a cycle. Inside
  it the sort is proved correct once, within any depth greater than the number of nodes.
\<close>

datatype visit_state = Visiting | Visited

text \<open>A loop that visits one node after the other and stops at the first error.\<close>

fun visit_each :: "('a \<Rightarrow> 's \<Rightarrow> 'e + 's) \<Rightarrow> 'a list \<Rightarrow> 's \<Rightarrow> 'e + 's" where
  "visit_each f [] s = Inr s"
| "visit_each f (x # xs) s = and_then (f x s) (visit_each f xs)"

text \<open>\<open>iter().position\<close>\<close>

fun position :: "'a \<Rightarrow> 'a list \<Rightarrow> nat option" where
  "position x [] = None"
| "position x (y # ys) = (if y = x then Some 0 else map_option Suc (position x ys))"

lemma position_Some: "x \<in> set xs \<Longrightarrow> \<exists>i. position x xs = Some i \<and> i < length xs \<and> xs ! i = x"
  by (induction xs) fastforce+

text \<open>The part of the stack from \<open>x\<close> on, closed by \<open>x\<close> again.\<close>

definition stack_cycle :: "'a \<Rightarrow> 'a list \<Rightarrow> 'a list" where
  "stack_cycle x stk = drop (case position x stk of Some i \<Rightarrow> i | None \<Rightarrow> 0) stk @ [x]"

lemma stack_cycle_real:
  assumes "x \<in> set stk" "chain deps (stk @ [x])"
  shows "dependency_cycle deps (stack_cycle x stk) \<and> hd (stack_cycle x stk) = x
    \<and> set (stack_cycle x stk) \<subseteq> set stk"
proof -
  obtain i where i: "position x stk = Some i" "i < length stk" "stk ! i = x"
    using position_Some [OF assms(1)] by blast
  have "stk @ [x] = take i stk @ (drop i stk @ [x])" by simp
  then have "chain deps (drop i stk @ [x])"
    using assms(2) successively_append_iff [of _ "take i stk" "drop i stk @ [x]"] by metis
  moreover have "hd (drop i stk @ [x]) = x" using i by (simp add: hd_append hd_drop_conv_nth)
  moreover have "set (drop i stk @ [x]) \<subseteq> set stk" using assms(1) set_drop_subset [of i stk] by auto
  ultimately show ?thesis
    using i(1,2) by (simp add: stack_cycle_def dependency_cycle_def)
qed

locale depth_first = digraph N "\<lambda>x. set (succs x)"
  for N :: "'a set" and succs :: "'a \<Rightarrow> 'a list" +
  fixes visit :: "nat \<Rightarrow> 'a \<Rightarrow> 's \<Rightarrow> 'e + 's"
    and mark :: "'s \<Rightarrow> 'a \<Rightarrow> visit_state option"
    and stack :: "'s \<Rightarrow> 'a list"
    and order :: "'s \<Rightarrow> 'a list"
    and enter :: "'a \<Rightarrow> 's \<Rightarrow> 's"
    and leave :: "'a \<Rightarrow> 's \<Rightarrow> 's"
    and refuse :: "'a \<Rightarrow> 'a list \<Rightarrow> 'e"
  assumes visit_Suc: "x \<in> N \<Longrightarrow> visit (Suc n) x s = (case mark s x of
          Some Visited \<Rightarrow> Inr s
        | Some Visiting \<Rightarrow> Inl (refuse x (stack s))
        | None \<Rightarrow> and_then (visit_each (visit n) (succs x) (enter x s)) (\<lambda>s. Inr (leave x s)))"
    and enter: "mark s x = None \<Longrightarrow> mark (enter x s) y = (if y = x then Some Visiting else mark s y)"
      "stack (enter x s) = stack s @ [x]" "order (enter x s) = order s"
    and leave: "mark (leave x s) y = (if y = x then Some Visited else mark s y)"
      "stack (leave x s) = butlast (stack s)" "order (leave x s) = order s @ [x]"
begin

abbreviation deps :: "'a \<Rightarrow> 'a set" where
  "deps x \<equiv> set (succs x)"

definition sound :: "'s \<Rightarrow> bool" where
  "sound s \<longleftrightarrow> distinct (order s) \<and> distinct (stack s)
     \<and> set (order s) \<union> set (stack s) \<subseteq> N \<and> set (order s) \<inter> set (stack s) = {}
     \<and> (\<forall>x. mark s x = (if x \<in> set (stack s) then Some Visiting
           else if x \<in> set (order s) then Some Visited else None))
     \<and> topo deps {} (order s) \<and> chain deps (stack s)"

definition cyclic_refusal :: "'e \<Rightarrow> bool" where
  "cyclic_refusal e \<longleftrightarrow> (\<exists>x stk. e = refuse x stk \<and> x \<in> set stk \<and> set stk \<subseteq> N \<and> chain deps (stk @ [x]))"

definition post :: "'s \<Rightarrow> 'a set \<Rightarrow> 'e + 's \<Rightarrow> bool" where
  "post s xs r = (case r of
       Inr t \<Rightarrow> sound t \<and> stack t = stack s \<and> set (order s) \<subseteq> set (order t) \<and> xs \<subseteq> set (order t)
     | Inl e \<Rightarrow> cyclic_refusal e)"

lemma visit_each_post:
  assumes "\<And>x s. x \<in> set xs \<Longrightarrow> sound s \<Longrightarrow> stack s = stk \<Longrightarrow> post s {x} (f x s)"
    and "sound s" "stack s = stk"
  shows "post s (set xs) (visit_each f xs s)"
  using assms
proof (induction xs arbitrary: s)
  case Nil
  then show ?case by (simp add: post_def)
next
  case (Cons x xs)
  have fx: "post s {x} (f x s)" using Cons.prems by simp
  show ?case
  proof (cases "f x s")
    case (Inl e)
    with fx show ?thesis by (simp add: post_def)
  next
    case (Inr t)
    with fx Cons.prems(3) have t: "sound t" "stack t = stk" "set (order s) \<subseteq> set (order t)"
      "x \<in> set (order t)" by (simp_all add: post_def)
    have "post t (set xs) (visit_each f xs t)"
      using Cons.IH Cons.prems(1) t(1,2) by simp
    with Inr t Cons.prems(3) show ?thesis by (auto simp: post_def split: sum.splits)
  qed
qed

lemma sound_enter:
  assumes "sound s" "mark s x = None" "x \<in> N" "chain deps (stack s @ [x])"
  shows "sound (enter x s)"
  using assms enter(1) [OF assms(2)] by (auto simp: sound_def enter(2,3) split: if_splits)

lemma sound_leave:
  assumes "sound s" "stack s = stk @ [x]" "deps x \<subseteq> set (order s)"
  shows "sound (leave x s)"
  using assms by (auto simp: sound_def leave topo_append successively_append_iff)

lemma stack_bound: "sound s \<Longrightarrow> length (stack s) \<le> card N"
  using finite_nodes by (metis sound_def card_mono distinct_card le_sup_iff)

lemma visit_post:
  "sound s \<Longrightarrow> x \<in> N \<Longrightarrow> chain deps (stack s @ [x]) \<Longrightarrow> card N < n + length (stack s)
     \<Longrightarrow> post s {x} (visit n x s)"
proof (induction n arbitrary: x s)
  case 0
  then show ?case using stack_bound by fastforce
next
  case (Suc n)
  have m: "mark s x = (if x \<in> set (stack s) then Some Visiting
      else if x \<in> set (order s) then Some Visited else None)"
    using Suc.prems(1) by (simp add: sound_def)
  consider (visiting) "x \<in> set (stack s)" | (visited) "x \<notin> set (stack s)" "x \<in> set (order s)"
    | (fresh) "x \<notin> set (stack s)" "x \<notin> set (order s)" by blast
  then show ?case
  proof cases
    case visiting
    moreover have "set (stack s) \<subseteq> N" using Suc.prems(1) by (simp add: sound_def)
    ultimately show ?thesis
      using m Suc.prems(2,3) by (auto simp: visit_Suc post_def cyclic_refusal_def)
  next
    case visited
    with m Suc.prems(1,2) show ?thesis by (simp add: visit_Suc post_def)
  next
    case fresh
    with m have none: "mark s x = None" by simp
    have ok: "sound (enter x s)" using sound_enter [OF Suc.prems(1) none Suc.prems(2,3)] .
    have each: "post (enter x s) (deps x) (visit_each (visit n) (succs x) (enter x s))"
    proof (rule visit_each_post [OF _ ok refl])
      fix y t assume y: "y \<in> deps x" and t: "sound t" "stack t = stack (enter x s)"
      have "y \<in> N" using y deps_nodes [OF Suc.prems(2)] by blast
      moreover have "chain deps (stack t @ [y])"
        using Suc.prems(3) y t(2) by (simp add: successively_append_iff enter)
      ultimately show "post t {y} (visit n y t)"
        using Suc.IH [OF t(1)] t(2) Suc.prems(4) by (simp add: enter)
    qed
    show ?thesis
    proof (cases "visit_each (visit n) (succs x) (enter x s)")
      case (Inl e)
      with each none Suc.prems(2) show ?thesis by (simp add: visit_Suc post_def)
    next
      case (Inr t)
      with each have t: "sound t" "stack t = stack s @ [x]" "set (order s) \<subseteq> set (order t)"
        "deps x \<subseteq> set (order t)" by (simp_all add: post_def enter)
      from sound_leave [OF t(1,2,4)] t Inr none Suc.prems(2) show ?thesis
        by (auto simp: visit_Suc post_def leave)
    qed
  qed
qed

text \<open>A whole sort: from a state in which nothing is marked, over all roots. It never runs out of depth;
  it yields a topological order that holds the roots, or refuses a real cycle.\<close>

lemma sort_post:
  assumes "order s = []" "stack s = []" "\<And>x. mark s x = None" "set roots \<subseteq> N" "card N < n"
  shows "post s (set roots) (visit_each (visit n) roots s)"
proof -
  have "sound s" using assms(1-3) by (simp add: sound_def)
  with assms(2,4,5) show ?thesis
    by (intro visit_each_post [where stk = "[]"]) (auto intro!: visit_post)
qed

lemma sort_order:
  assumes "order s = []" "stack s = []" "\<And>x. mark s x = None" "set roots \<subseteq> N" "card N < n"
    and "visit_each (visit n) roots s = Inr t"
  shows "distinct (order t) \<and> set roots \<subseteq> set (order t) \<and> set (order t) \<subseteq> N
    \<and> topo (\<lambda>x. set (succs x)) {} (order t)"
  using sort_post [OF assms(1-5)] assms(6) by (simp add: post_def sound_def)

lemma sort_refusal:
  assumes "order s = []" "stack s = []" "\<And>x. mark s x = None" "set roots \<subseteq> N" "card N < n"
    and "visit_each (visit n) roots s = Inl e"
  shows "\<exists>x stk. e = refuse x stk \<and> dependency_cycle (\<lambda>x. set (succs x)) (stack_cycle x stk)
    \<and> hd (stack_cycle x stk) = x \<and> x \<in> N \<and> set (stack_cycle x stk) \<subseteq> N"
proof -
  have "cyclic_refusal e" using sort_post [OF assms(1-5)] assms(6) by (simp add: post_def)
  then obtain x stk where r: "e = refuse x stk" "x \<in> set stk" "set stk \<subseteq> N" "chain deps (stk @ [x])"
    by (auto simp: cyclic_refusal_def)
  from stack_cycle_real [OF r(2,4)] r show ?thesis by blast
qed

end

end
