(* ===== verification/Spec_Order.thy ===== *)
theory Spec_Order
  imports Ordered_Map Dfs
begin

text \<open>
  Specs and their execution order (\<open>spec/model.rs\<close>, \<open>graph/order.rs\<close>): identifier and version
  checks, the JSON text of a spec, and the depth-first topological sort with cycle reporting.

  The recursion of \<open>visit\<close> has a depth bound as first argument; \<open>execution_order\<close> passes one more
  than the number of specs, and the theorems show that this depth is never exhausted.
\<close>

section \<open>The model of a spec\<close>

datatype spec_status = Ready | Completed | Blocked | Deferred | Superseded

definition status_text :: "spec_status \<Rightarrow> string" where
  "status_text s = (case s of Ready \<Rightarrow> ''ready'' | Completed \<Rightarrow> ''completed'' | Blocked \<Rightarrow> ''blocked''
     | Deferred \<Rightarrow> ''deferred'' | Superseded \<Rightarrow> ''superseded'')"

record spec_metadata =
  spec_id :: ustr
  title :: ustr
  version :: ustr
  status :: spec_status
  objective :: ustr
  dependencies :: "ustr list"
  acceptance_criteria :: "ustr list"
  validation_command :: ustr
  blocking_gates :: "ustr list"
  files_to_touch :: "ustr list"
  run_budget :: ustr

text \<open>\<open>split_once('-')\<close>\<close>

fun split_dash :: "ustr \<Rightarrow> (ustr \<times> ustr) option" where
  "split_dash [] = None"
| "split_dash (c # cs) = (if c = 45 then Some ([], cs)
     else map_option (\<lambda>(a, b). (c # a, b)) (split_dash cs))"

definition is_valid_spec_id :: "ustr \<Rightarrow> bool" where
  "is_valid_spec_id value = (case strip_prefix (lit ''v'') value of
       None \<Rightarrow> False
     | Some rest \<Rightarrow> (case split_dash rest of
         None \<Rightarrow> False
       | Some (ver, slug) \<Rightarrow> ver \<noteq> [] \<and> list_all is_ascii_digit ver \<and> slug \<noteq> []
           \<and> list_all (\<lambda>c. is_ascii_lowercase c \<or> is_ascii_digit c \<or> c = 45) slug))"

definition new_spec_id :: "ustr \<Rightarrow> ustr + ustr" where
  "new_spec_id value = (if is_valid_spec_id value then Inr value else Inl value)"

text \<open>The test on \<open>len() > 1\<close> counts bytes; a value that starts with \<open>V\<close> and has only digits after
  it has as many bytes as characters.\<close>

definition new_spec_version :: "ustr \<Rightarrow> ustr + ustr" where
  "new_spec_version value =
     (if take 1 value = lit ''V'' \<and> 1 < length value \<and> list_all is_ascii_digit (drop 1 value)
      then Inr value else Inl value)"

fun escape_char :: "uchar \<Rightarrow> ustr" where
  "escape_char c =
     (if c = 34 then [92, 34] else if c = 92 then [92, 92] else if c = 10 then [92, 110]
      else if c = 13 then [92, 114] else if c = 9 then [92, 116] else [c])"

definition escape_spec_json :: "ustr \<Rightarrow> ustr" where
  "escape_spec_json s = concat (map escape_char s)"

definition quoted :: "ustr \<Rightarrow> ustr" where
  "quoted s = [34] @ escape_spec_json s @ [34]"

definition json_string_array :: "ustr list \<Rightarrow> ustr" where
  "json_string_array vs = lit ''['' @ join (lit '','') (map quoted vs) @ lit '']''"

definition json_key :: "string \<Rightarrow> ustr" where
  "json_key k = [34] @ lit k @ [34] @ lit '':''"

definition spec_to_json :: "spec_metadata \<Rightarrow> ustr" where
  "spec_to_json s = lit ''{''
     @ json_key ''id'' @ quoted (spec_id s) @ lit '',''
     @ json_key ''title'' @ quoted (title s) @ lit '',''
     @ json_key ''version'' @ quoted (version s) @ lit '',''
     @ json_key ''status'' @ [34] @ lit (status_text (status s)) @ [34] @ lit '',''
     @ json_key ''objective'' @ quoted (objective s) @ lit '',''
     @ json_key ''dependencies'' @ json_string_array (dependencies s) @ lit '',''
     @ json_key ''acceptance_criteria'' @ json_string_array (acceptance_criteria s) @ lit '',''
     @ json_key ''validation_command'' @ quoted (validation_command s) @ lit '',''
     @ json_key ''blocking_gates'' @ json_string_array (blocking_gates s) @ lit '',''
     @ json_key ''files_to_touch'' @ json_string_array (files_to_touch s) @ lit '',''
     @ json_key ''run_budget'' @ quoted (run_budget s) @ lit ''}''"

section \<open>Errors of the graph\<close>

datatype graph_error_kind = MissingDependency | Cycle

record graph_error =
  error_kind :: graph_error_kind
  error_spec :: "ustr option"
  error_dependency :: "ustr option"
  cycle :: "ustr list"
  message :: ustr

text \<open>How a run can stop without a result: an error of the code, a panic, or the depth bound of the
  model.\<close>

datatype dfs_stop = Refused graph_error | Panicked | OutOfDepth

section \<open>The depth-first order\<close>

record dfs =
  states :: "(ustr, visit_state) bmap"
  stack :: "ustr list"
  order :: "ustr list"

definition cycle_error :: "ustr \<Rightarrow> ustr list \<Rightarrow> graph_error" where
  "cycle_error x stk =
     (let start = (case position x stk of Some i \<Rightarrow> i | None \<Rightarrow> 0);
          cyc = drop start stk @ [x]
      in \<lparr>error_kind = Cycle, error_spec = Some x, error_dependency = None, cycle = cyc,
          message = lit ''dependency cycle detected: '' @ join (lit '' -> '') cyc\<rparr>)"

fun visit :: "nat \<Rightarrow> (ustr, spec_metadata) bmap \<Rightarrow> ustr \<Rightarrow> dfs \<Rightarrow> dfs_stop + dfs" where
  "visit 0 by_id x d = Inl OutOfDepth"
| "visit (Suc n) by_id x d =
     (case bm_get (states d) x of
        Some Visited \<Rightarrow> Inr d
      | Some Visiting \<Rightarrow> Inl (Refused (cycle_error x (stack d)))
      | None \<Rightarrow>
          let d = d\<lparr>states := bm_insert x Visiting (states d), stack := stack d @ [x]\<rparr> in
          case bm_get by_id x of
            None \<Rightarrow> Inl Panicked
          | Some spec \<Rightarrow>
              and_then (visit_each (visit n by_id) (bs_of_list (dependencies spec)) d) (\<lambda>d.
                Inr (d\<lparr>stack := butlast (stack d), states := bm_insert x Visited (states d),
                       order := order d @ [x]\<rparr>)))"

definition root_rank :: "ustr \<Rightarrow> u64" where
  "root_rank ver = (case parse_u64 (dropWhile (\<lambda>c. c = 86) ver) of Some n \<Rightarrow> n | None \<Rightarrow> - 1)"

text \<open>Pairs in the lexicographic order of Rust tuples.\<close>

definition stable_roots :: "spec_metadata list \<Rightarrow> ustr list" where
  "stable_roots specs = map snd (sort_key fst (sort_key snd
     (map (\<lambda>s. (root_rank (version s), spec_id s)) specs)))"

definition specs_by_id :: "spec_metadata list \<Rightarrow> (ustr, spec_metadata) bmap" where
  "specs_by_id specs = bm_of_list (map (\<lambda>s. (spec_id s, s)) specs)"

definition missing_error :: "ustr \<Rightarrow> ustr \<Rightarrow> graph_error" where
  "missing_error s dep = \<lparr>error_kind = MissingDependency, error_spec = Some s,
     error_dependency = Some dep, cycle = [],
     message = s @ lit '' depends on missing '' @ dep\<rparr>"

definition first_missing :: "spec_metadata list \<Rightarrow> (ustr \<times> ustr) option" where
  "first_missing specs = find (\<lambda>(s, dep). bm_get (specs_by_id specs) dep = None)
     (concat (map (\<lambda>s. map (Pair (spec_id s)) (dependencies s)) specs))"

definition execution_order :: "spec_metadata list \<Rightarrow> dfs_stop + ustr list" where
  "execution_order specs =
     (case first_missing specs of
        Some (s, dep) \<Rightarrow> Inl (Refused (missing_error s dep))
      | None \<Rightarrow> map_ok order
          (visit_each (visit (Suc (length specs)) (specs_by_id specs)) (stable_roots specs)
            \<lparr>states = bm_empty, stack = [], order = []\<rparr>))"

section \<open>The search as a depth-first sort\<close>

definition deps_of :: "(ustr, spec_metadata) bmap \<Rightarrow> ustr \<Rightarrow> ustr set" where
  "deps_of by_id x = (case bm_get by_id x of Some s \<Rightarrow> set (dependencies s) | None \<Rightarrow> {})"

definition ids_of :: "(ustr, spec_metadata) bmap \<Rightarrow> ustr set" where
  "ids_of by_id = fst ` set by_id"

lemma ids_of_get: "x \<in> ids_of by_id \<longleftrightarrow> (\<exists>s. bm_get by_id x = Some s)"
  by (induction by_id) (auto simp: ids_of_def)

definition closed_specs :: "(ustr, spec_metadata) bmap \<Rightarrow> bool" where
  "closed_specs by_id \<longleftrightarrow> bm_ok by_id \<and> (\<forall>x. deps_of by_id x \<subseteq> ids_of by_id)"

text \<open>The specs the sort ranges over; \<open>execution_order\<close> runs it only when no dependency is missing.\<close>

definition sorted_specs :: "(ustr, spec_metadata) bmap \<Rightarrow> ustr set" where
  "sorted_specs by_id = (if closed_specs by_id then ids_of by_id else {})"

definition spec_succs :: "(ustr, spec_metadata) bmap \<Rightarrow> ustr \<Rightarrow> ustr list" where
  "spec_succs by_id x = (case bm_get by_id x of Some s \<Rightarrow> bs_of_list (dependencies s) | None \<Rightarrow> [])"

lemma set_spec_succs [simp]: "set (spec_succs by_id x) = deps_of by_id x"
  by (cases "bm_get by_id x") (simp_all add: spec_succs_def deps_of_def)

lemma visit_spec:
  assumes "x \<in> sorted_specs by_id"
  shows "visit (Suc n) by_id x d = (case bm_get (states d) x of
          Some Visited \<Rightarrow> Inr d
        | Some Visiting \<Rightarrow> Inl (Refused (cycle_error x (stack d)))
        | None \<Rightarrow> and_then (visit_each (visit n by_id) (spec_succs by_id x)
              (d\<lparr>states := bm_insert x Visiting (states d), stack := stack d @ [x]\<rparr>))
            (\<lambda>d. Inr (d\<lparr>stack := butlast (stack d), states := bm_insert x Visited (states d),
               order := order d @ [x]\<rparr>)))"
proof -
  obtain spec where "bm_get by_id x = Some spec"
    using assms by (auto simp: sorted_specs_def ids_of_get split: if_splits)
  then show ?thesis by (simp add: spec_succs_def split: option.splits visit_state.splits)
qed

interpretation spec_sort: depth_first "sorted_specs by_id" "spec_succs by_id" "\<lambda>n. visit n by_id"
    "\<lambda>d. bm_get (states d)" stack order
    "\<lambda>x d. d\<lparr>states := bm_insert x Visiting (states d), stack := stack d @ [x]\<rparr>"
    "\<lambda>x d. d\<lparr>stack := butlast (stack d), states := bm_insert x Visited (states d), order := order d @ [x]\<rparr>"
    "\<lambda>x stk. Refused (cycle_error x stk)"
  for by_id
proof (unfold_locales, goal_cases)
  case (3 x n s)
  then show ?case by (rule visit_spec)
qed (auto simp: sorted_specs_def closed_specs_def ids_of_def bm_get_insert split: if_splits)

lemma cycle_error_simps:
  "error_kind (cycle_error x stk) = Cycle" "cycle (cycle_error x stk) = stack_cycle x stk"
  by (simp_all add: cycle_error_def stack_cycle_def Let_def)

section \<open>The execution order\<close>

lemma specs_by_id_get: "bm_get (specs_by_id specs) x = Some s \<Longrightarrow> s \<in> set specs \<and> spec_id s = x"
  by (auto simp: specs_by_id_def bm_get_of_list dest!: map_of_SomeD)

lemma specs_by_id_ids: "ids_of (specs_by_id specs) = spec_id ` set specs"
  by (simp add: ids_of_def specs_by_id_def keys_of_list image_image)

lemma set_stable_roots: "set (stable_roots specs) = spec_id ` set specs"
  by (simp add: stable_roots_def image_image)

lemma no_missing:
  assumes "first_missing specs = None" "s \<in> set specs" "dep \<in> set (dependencies s)"
  shows "bm_get (specs_by_id specs) dep \<noteq> None"
proof
  assume "bm_get (specs_by_id specs) dep = None"
  moreover have "(spec_id s, dep) \<in> set (concat (map (\<lambda>s. map (Pair (spec_id s)) (dependencies s)) specs))"
    using assms(2,3) by auto
  ultimately show False
    using assms(1) unfolding first_missing_def find_None_iff by blast
qed

lemma first_missing_None:
  assumes "first_missing specs = None"
  shows "closed_specs (specs_by_id specs)"
proof -
  have "deps_of (specs_by_id specs) x \<subseteq> ids_of (specs_by_id specs)" for x
  proof
    fix dep assume "dep \<in> deps_of (specs_by_id specs) x"
    then obtain s where "s \<in> set specs" "dep \<in> set (dependencies s)"
      by (auto simp: deps_of_def dest: specs_by_id_get split: option.splits)
    then have "bm_get (specs_by_id specs) dep \<noteq> None"
      by (rule no_missing [OF assms])
    then show "dep \<in> ids_of (specs_by_id specs)" by (simp add: ids_of_get)
  qed
  then show ?thesis by (simp add: closed_specs_def specs_by_id_def)
qed

lemma first_missing_Some:
  assumes "first_missing specs = Some (x, dep)"
  shows "\<exists>s. s \<in> set specs \<and> spec_id s = x \<and> dep \<in> set (dependencies s) \<and> dep \<notin> spec_id ` set specs"
proof -
  obtain s where "s \<in> set specs" "spec_id s = x" "dep \<in> set (dependencies s)"
    "bm_get (specs_by_id specs) dep = None"
    using assms by (auto simp: first_missing_def find_Some_iff dest!: nth_mem)
  moreover from this have "dep \<notin> spec_id ` set specs"
    using ids_of_get [of dep "specs_by_id specs"] by (simp add: specs_by_id_ids)
  ultimately show ?thesis by blast
qed

definition empty_search :: dfs where
  "empty_search = \<lparr>states = bm_empty, stack = [], order = []\<rparr>"

lemma empty_search_simps [simp]:
  "order empty_search = []" "stack empty_search = []" "bm_get (states empty_search) x = None"
  by (simp_all add: empty_search_def)

lemma sort_range:
  assumes "first_missing specs = None"
  shows "sorted_specs (specs_by_id specs) = spec_id ` set specs"
    "card (sorted_specs (specs_by_id specs)) < Suc (length specs)"
proof -
  show nodes: "sorted_specs (specs_by_id specs) = spec_id ` set specs"
    using first_missing_None [OF assms] by (simp add: sorted_specs_def specs_by_id_ids)
  have "card (spec_id ` set specs) \<le> card (set specs)" by (rule card_image_le) simp
  also have "\<dots> \<le> length specs" by (rule card_length)
  finally show "card (sorted_specs (specs_by_id specs)) < Suc (length specs)" by (simp add: nodes)
qed

lemma execution_order_sort:
  assumes "first_missing specs = None"
  shows "execution_order specs = map_ok order
    (visit_each (visit (Suc (length specs)) (specs_by_id specs)) (stable_roots specs) empty_search)"
  using assms by (simp add: execution_order_def empty_search_def del: visit.simps)

lemma order_is_topological:
  assumes "execution_order specs = Inr ids"
  shows "distinct ids" "set ids = spec_id ` set specs" "topo (deps_of (specs_by_id specs)) {} ids"
proof -
  have none: "first_missing specs = None"
    using assms by (simp add: execution_order_def split: option.splits prod.splits)
  obtain d where d: "visit_each (visit (Suc (length specs)) (specs_by_id specs)) (stable_roots specs)
      empty_search = Inr d" "ids = order d"
    using assms unfolding execution_order_sort [OF none] by (auto simp: map_ok_Inr)
  have roots: "set (stable_roots specs) \<subseteq> sorted_specs (specs_by_id specs)"
    by (simp add: set_stable_roots sort_range [OF none])
  from spec_sort.sort_order [OF _ _ _ this sort_range(2) [OF none] d(1)]
  show "distinct ids" "set ids = spec_id ` set specs" "topo (deps_of (specs_by_id specs)) {} ids"
    by (auto simp: d(2) set_stable_roots sort_range(1) [OF none])
qed


definition sample_spec :: "ustr \<Rightarrow> ustr \<Rightarrow> ustr list \<Rightarrow> spec_metadata" where
  "sample_spec i v deps = \<lparr>spec_id = i, title = [], version = v, status = Ready, objective = [],
     dependencies = deps, acceptance_criteria = [], validation_command = [], blocking_gates = [],
     files_to_touch = [], run_budget = []\<rparr>"


lemma dfs_order_no_cycle:
  assumes "execution_order specs = Inr ids" "dependency_cycle (deps_of (specs_by_id specs)) c"
  shows "hd c \<notin> spec_id ` set specs"
  using topo_no_cycle [OF _ assms(2)] order_is_topological [OF assms(1)] by metis

text \<open>The order is decided completely, within the depth the model gives it and without a panic.
  It exists exactly when every dependency is a spec and no spec depends on itself through others;
  otherwise the error names a dependency that is really missing, or a cycle whose steps are
  really dependencies.\<close>

theorem execution_order_decides:
  "(case execution_order specs of
      Inr ids \<Rightarrow> (\<nexists>s dep. s \<in> set specs \<and> dep \<in> set (dependencies s) \<and> dep \<notin> spec_id ` set specs)
        \<and> (\<nexists>c. dependency_cycle (deps_of (specs_by_id specs)) c \<and> hd c \<in> spec_id ` set specs)
    | Inl (Refused e) \<Rightarrow> (case error_kind e of
        MissingDependency \<Rightarrow> \<exists>s dep. s \<in> set specs \<and> error_spec e = Some (spec_id s)
          \<and> error_dependency e = Some dep \<and> dep \<in> set (dependencies s) \<and> dep \<notin> spec_id ` set specs
      | Cycle \<Rightarrow> dependency_cycle (deps_of (specs_by_id specs)) (cycle e)
          \<and> hd (cycle e) \<in> spec_id ` set specs)
    | Inl _ \<Rightarrow> False)"
proof (cases "first_missing specs")
  case (Some p)
  then obtain x dep where "first_missing specs = Some (x, dep)" by (cases p) auto
  then show ?thesis
    using first_missing_Some [of specs x dep] by (auto simp: execution_order_def missing_error_def)
next
  case None
  show ?thesis
  proof (cases "execution_order specs")
    case (Inl e)
    then have run: "visit_each (visit (Suc (length specs)) (specs_by_id specs)) (stable_roots specs)
        empty_search = Inl e"
      unfolding execution_order_sort [OF None] by (auto simp: map_ok_def and_then_Inl)
    have roots: "set (stable_roots specs) \<subseteq> sorted_specs (specs_by_id specs)"
      by (simp add: set_stable_roots sort_range [OF None])
    from spec_sort.sort_refusal [OF _ _ _ this sort_range(2) [OF None] run] obtain x stk
      where "e = Refused (cycle_error x stk)" "hd (stack_cycle x stk) = x"
        "dependency_cycle (deps_of (specs_by_id specs)) (stack_cycle x stk)"
        "x \<in> spec_id ` set specs" unfolding sort_range(1) [OF None] by auto
    with Inl show ?thesis by (simp add: cycle_error_simps)
  next
    case (Inr ids)
    have "dep \<in> spec_id ` set specs" if "s \<in> set specs" "dep \<in> set (dependencies s)" for s dep
      using no_missing [OF None that] ids_of_get [of dep "specs_by_id specs"]
      by (simp add: specs_by_id_ids)
    moreover have "\<nexists>c. dependency_cycle (deps_of (specs_by_id specs)) c \<and> hd c \<in> spec_id ` set specs"
      using dfs_order_no_cycle [OF Inr] by blast
    ultimately show ?thesis using Inr by auto
  qed
qed

end
