(* ===== verification/Spec_State.thy ===== *)
theory Spec_State
  imports Spec_Order Json Autospec_Error Step_Machine
begin

text \<open>
  The spec state store (\<open>state/mod.rs\<close>, \<open>state/parse.rs\<close>): spec lifecycles, the decomposition of
  parent issues into children, the validation both share, the JSON document and its reader.

  An operation that takes \<open>&mut self\<close> returns the store it leaves behind together with its
  result, so that what an error leaves in the store is part of the model.
\<close>

section \<open>Lifecycles\<close>

datatype spec_run_state = Planned | Ready | Running | Passed | Failed | Blocked | Deferred | Superseded

definition run_state_text :: "spec_run_state \<Rightarrow> string" where
  "run_state_text s = (case s of Planned \<Rightarrow> ''planned'' | Ready \<Rightarrow> ''ready'' | Running \<Rightarrow> ''running''
     | Passed \<Rightarrow> ''passed'' | Failed \<Rightarrow> ''failed'' | Blocked \<Rightarrow> ''blocked'' | Deferred \<Rightarrow> ''deferred''
     | Superseded \<Rightarrow> ''superseded'')"

definition parse_run_state :: "ustr \<Rightarrow> autospec_error + spec_run_state" where
  "parse_run_state value =
     (if value = lit ''planned'' then Inr Planned else if value = lit ''ready'' then Inr Ready
      else if value = lit ''running'' then Inr Running else if value = lit ''passed'' then Inr Passed
      else if value = lit ''failed'' then Inr Failed else if value = lit ''blocked'' then Inr Blocked
      else if value = lit ''deferred'' then Inr Deferred
      else if value = lit ''superseded'' then Inr Superseded
      else Inl (ParseError (lit ''spec run state'') (lit ''unknown spec run state: '' @ value)))"

record spec_lifecycle =
  spec_id :: ustr
  state :: spec_run_state
  deferred_reason :: "ustr option"
  superseded_by :: "ustr option"

definition new_lifecycle :: "ustr \<Rightarrow> spec_lifecycle" where
  "new_lifecycle k = \<lparr>spec_id = k, state = Planned, deferred_reason = None, superseded_by = None\<rparr>"

definition is_allowed_transition :: "spec_run_state \<Rightarrow> spec_run_state \<Rightarrow> bool" where
  "is_allowed_transition current next = ((current, next) \<in> {
     (Planned, Ready), (Planned, Deferred), (Planned, Superseded), (Ready, Running),
     (Ready, Deferred), (Ready, Superseded), (Running, Passed), (Running, Failed),
     (Running, Blocked), (Failed, Running), (Blocked, Ready)})"

definition transition_to :: "spec_lifecycle \<Rightarrow> spec_run_state \<Rightarrow> autospec_error + spec_lifecycle" where
  "transition_to lc next =
     (if is_allowed_transition (state lc) next then Inr (lc\<lparr>state := next\<rparr>)
      else Inl (StateError (spec_id lc) (lit ''invalid transition from ''
        @ lit (run_state_text (state lc)) @ lit '' to '' @ lit (run_state_text next))))"

definition mark_deferred :: "spec_lifecycle \<Rightarrow> ustr \<Rightarrow> autospec_error + spec_lifecycle" where
  "mark_deferred lc reason =
     (if blank reason then Inl (InvariantError (lit ''deferred reason is required''))
      else and_then (transition_to lc Deferred) (\<lambda>lc. Inr (lc\<lparr>deferred_reason := Some reason\<rparr>)))"

definition mark_superseded :: "spec_lifecycle \<Rightarrow> ustr \<Rightarrow> autospec_error + spec_lifecycle" where
  "mark_superseded lc replacement =
     (if \<not> is_valid_spec_id replacement
      then Inl (ValidationError (lit ''invalid replacement spec id: '' @ replacement))
      else and_then (transition_to lc Superseded) (\<lambda>lc. Inr (lc\<lparr>superseded_by := Some replacement\<rparr>)))"

section \<open>Parent issues and the store\<close>

datatype parent_issue_status = PendingChildren | QuarantinedParentDecomposed | CompleteButStale | Closed

definition parent_status_text :: "parent_issue_status \<Rightarrow> string" where
  "parent_status_text s = (case s of PendingChildren \<Rightarrow> ''children pending''
     | QuarantinedParentDecomposed \<Rightarrow> ''quarantined-parent-decomposed''
     | CompleteButStale \<Rightarrow> ''complete but stale'' | Closed \<Rightarrow> ''closed'')"

record parent_issue_update =
  updated_parent :: u64
  comment_body :: ustr

record parent_decomposition_extension =
  extended_parent :: u64
  extended_children :: "u64 list"
  added_children :: "u64 list"
  extension_comment :: ustr
  extension_changed :: bool

record parent_issue_terminal_action =
  terminal_parent :: u64
  completion_text :: ustr

record child_issue_record =
  issue :: u64
  terminal :: bool

record parent_issue_record =
  parent_issue :: u64
  child_issues :: "child_issue_record list"
  quarantined_parent :: bool
  decomposition_comment_posted :: bool
  parent_closed :: bool

record parent_issue_counts =
  pending_children :: nat
  quarantined_parent_decomposed :: nat
  complete_but_stale :: nat
  closed_parents :: nat

record spec_state_store =
  records :: "(ustr, spec_lifecycle) bmap"
  parent_issues :: "(u64, parent_issue_record) bmap"

definition new_store :: spec_state_store where
  "new_store = \<lparr>records = bm_empty, parent_issues = bm_empty\<rparr>"

definition all_terminal :: "parent_issue_record \<Rightarrow> bool" where
  "all_terminal r = list_all terminal (child_issues r)"

definition parent_status :: "parent_issue_record \<Rightarrow> parent_issue_status" where
  "parent_status r =
     (if parent_closed r then Closed else if all_terminal r then CompleteButStale
      else if quarantined_parent r then QuarantinedParentDecomposed else PendingChildren)"

definition child_numbers :: "parent_issue_record \<Rightarrow> u64 list" where
  "child_numbers r = map issue (child_issues r)"

section \<open>Validation\<close>

definition validate_lifecycle ::
  "(ustr, spec_lifecycle) bmap \<Rightarrow> ustr \<times> spec_lifecycle \<Rightarrow> ustr + unit" where
  "validate_lifecycle rs e =
     (let (k, lc) = e in
      if k \<noteq> spec_id lc then Inl (lit ''state record key does not match spec id: '' @ k)
      else if \<not> is_valid_spec_id k then Inl (lit ''invalid spec id: '' @ k)
      else case state lc of
        Deferred \<Rightarrow>
          if (case deferred_reason lc of None \<Rightarrow> True | Some r \<Rightarrow> blank r)
          then Inl (lit ''deferred spec '' @ k @ lit '' requires a deferred reason'')
          else ensure (superseded_by lc = None)
            (lit ''deferred spec '' @ k @ lit '' cannot include a superseded-by reference'')
      | Superseded \<Rightarrow> (case superseded_by lc of
          None \<Rightarrow> Inl (lit ''superseded spec '' @ k @ lit '' requires a replacement spec id'')
        | Some r \<Rightarrow>
            if \<not> is_valid_spec_id r then Inl (lit ''superseded spec '' @ k
              @ lit '' has invalid replacement spec id: '' @ r)
            else if r = k then Inl (lit ''superseded spec '' @ k @ lit '' cannot replace itself'')
            else if bm_get rs r = None then Inl (lit ''superseded spec '' @ k
              @ lit '' references missing replacement: '' @ r)
            else ensure (deferred_reason lc = None)
              (lit ''superseded spec '' @ k @ lit '' cannot include a deferred reason''))
      | _ \<Rightarrow> ensure (deferred_reason lc = None \<and> superseded_by lc = None)
          (lit (run_state_text (state lc)) @ lit '' spec '' @ k
            @ lit '' cannot include deferred or superseded metadata''))"

definition validate_records :: "(ustr, spec_lifecycle) bmap \<Rightarrow> ustr + unit" where
  "validate_records rs = each (validate_lifecycle rs) rs"

definition issue_ref :: "u64 \<Rightarrow> ustr" where
  "issue_ref n = lit ''#'' @ show_u64 n"

fun validate_children :: "u64 \<Rightarrow> u64 set \<Rightarrow> u64 list \<Rightarrow> ustr + unit" where
  "validate_children p seen [] = Inr ()"
| "validate_children p seen (n # ns) =
     (if n = 0 then Inl (lit ''parent issue '' @ issue_ref p @ lit '' has a non-positive child issue'')
      else if n = p then Inl (lit ''parent issue '' @ issue_ref p @ lit '' cannot be its own child'')
      else if n \<in> seen
      then Inl (lit ''parent issue '' @ issue_ref p @ lit '' has duplicate child issue '' @ issue_ref n)
      else validate_children p (insert n seen) ns)"

definition validate_parent_record :: "parent_issue_record \<Rightarrow> ustr + unit" where
  "validate_parent_record r =
     (let p = parent_issue r in
      if p = 0 then Inl (lit ''parent issue number must be positive'')
      else if child_issues r = []
      then Inl (lit ''parent issue '' @ issue_ref p @ lit '' requires at least one child issue'')
      else and_then (validate_children p {} (child_numbers r)) (\<lambda>u.
        ensure (\<not> (parent_closed r \<and> \<not> all_terminal r))
          (lit ''parent issue '' @ issue_ref p @ lit '' is closed before all child issues are terminal'')))"

definition validate_parent_entry :: "u64 \<times> parent_issue_record \<Rightarrow> ustr + unit" where
  "validate_parent_entry e =
     (if fst e \<noteq> parent_issue (snd e)
      then Inl (lit ''parent issue record key does not match issue number: '' @ issue_ref (fst e))
      else validate_parent_record (snd e))"

definition validate_parent_records :: "(u64, parent_issue_record) bmap \<Rightarrow> ustr + unit" where
  "validate_parent_records ps = each validate_parent_entry ps"

section \<open>Comments\<close>

definition issue_list :: "u64 list \<Rightarrow> ustr \<Rightarrow> ustr" where
  "issue_list cs separator = join separator (map issue_ref cs)"

definition format_bullet_issue_list :: "u64 list \<Rightarrow> ustr" where
  "format_bullet_issue_list cs = lit ''- '' @ issue_list cs ([10] @ lit ''- '')"

definition decomposition_comment :: "u64 \<Rightarrow> u64 list \<Rightarrow> bool \<Rightarrow> ustr" where
  "decomposition_comment p cs quarantined =
     lit ''<!-- autospec-parent-decomposition:begin -->'' @ [10]
     @ lit ''Parent issue '' @ issue_ref p @ lit '' was decomposed into child implementation issues:'' @ [10]
     @ format_bullet_issue_list cs
     @ (if quarantined then [10] @ lit ''State: `quarantined-parent-decomposed`.'' else []) @ [10]
     @ lit ''<!-- autospec-parent-decomposition:end -->''"

definition extension_decomposition_comment :: "u64 \<Rightarrow> u64 list \<Rightarrow> bool \<Rightarrow> ustr" where
  "extension_decomposition_comment p cs quarantined =
     str_replace ([10] @ lit ''<!-- autospec-parent-decomposition:end -->'')
       ([10] @ lit ''State: `append-only-parent-extension`.'' @ [10]
        @ lit ''<!-- autospec-parent-decomposition:end -->'')
       (decomposition_comment p cs quarantined)"

definition completion_summary :: "u64 \<Rightarrow> u64 list \<Rightarrow> ustr" where
  "completion_summary p cs =
     lit ''<!-- autospec-parent-complete:begin -->'' @ [10]
     @ lit ''All child implementation issues for parent '' @ issue_ref p
     @ lit '' reached a terminal state:'' @ [10]
     @ format_bullet_issue_list cs @ [10, 10]
     @ lit ''Closing parent issue automatically.'' @ [10]
     @ lit ''<!-- autospec-parent-complete:end -->''"

section \<open>Operations of the store\<close>

definition insert_lifecycle ::
  "spec_state_store \<Rightarrow> spec_lifecycle \<Rightarrow> spec_state_store \<times> (autospec_error + unit)" where
  "insert_lifecycle s lc =
     (if bm_get (records s) (spec_id lc) \<noteq> None
      then (s, Inl (StateError (spec_id lc) (lit ''duplicate spec id: '' @ spec_id lc)))
      else let candidate = bm_insert (spec_id lc) lc (records s) in
        case lift_message (validate_records candidate) of
          Inl e \<Rightarrow> (s, Inl e)
        | Inr u \<Rightarrow> (s\<lparr>records := candidate\<rparr>, Inr ()))"

definition get_lifecycle :: "spec_state_store \<Rightarrow> ustr \<Rightarrow> spec_lifecycle option" where
  "get_lifecycle s k = bm_get (records s) k"

definition lifecycles :: "spec_state_store \<Rightarrow> spec_lifecycle list" where
  "lifecycles s = bm_values (records s)"

text \<open>The check both decomposition operations run over the numbers they are given.\<close>

fun check_child_numbers :: "u64 \<Rightarrow> u64 set \<Rightarrow> u64 list \<Rightarrow> autospec_error + unit" where
  "check_child_numbers p seen [] = Inr ()"
| "check_child_numbers p seen (n # ns) =
     (if n = 0 then Inl (OtherError (lit ''child issue number must be positive''))
      else if n = p
      then Inl (InvariantError (lit ''parent issue '' @ issue_ref p @ lit '' cannot be its own child''))
      else if n \<in> seen then Inl (OtherError (lit ''duplicate child issue '' @ issue_ref n))
      else check_child_numbers p (insert n seen) ns)"

definition open_child :: "u64 \<Rightarrow> child_issue_record" where
  "open_child n = \<lparr>issue = n, terminal = False\<rparr>"

definition record_parent_decomposition ::
  "spec_state_store \<Rightarrow> u64 \<Rightarrow> u64 list \<Rightarrow> bool
    \<Rightarrow> spec_state_store \<times> (autospec_error + parent_issue_update)" where
  "record_parent_decomposition s p cs quarantined =
     (if p = 0 then (s, Inl (OtherError (lit ''parent issue number must be positive'')))
      else if cs = []
      then (s, Inl (OtherError (lit ''parent issue decomposition requires at least one child issue'')))
      else if bm_get (parent_issues s) p \<noteq> None
      then (s, Inl (StateError (lit ''parent'')
             (lit ''parent issue '' @ issue_ref p @ lit '' is already decomposed'')))
      else case check_child_numbers p {} cs of
        Inl e \<Rightarrow> (s, Inl e)
      | Inr u \<Rightarrow>
          let r = \<lparr>parent_issue = p, child_issues = map open_child cs, quarantined_parent = quarantined,
                   decomposition_comment_posted = True, parent_closed = False\<rparr> in
          case lift_message (validate_parent_record r) of
            Inl e \<Rightarrow> (s, Inl e)
          | Inr u \<Rightarrow> (s\<lparr>parent_issues := bm_insert p r (parent_issues s)\<rparr>,
              Inr \<lparr>updated_parent = p,
                comment_body = decomposition_comment p (child_numbers r) (quarantined_parent r)\<rparr>))"

definition sync_parent_decomposition ::
  "spec_state_store \<Rightarrow> u64 \<Rightarrow> u64 list \<Rightarrow> bool
    \<Rightarrow> spec_state_store \<times> (autospec_error + parent_issue_update)" where
  "sync_parent_decomposition s p cs quarantined =
     (let previous = bm_get (parent_issues s) p;
          (t, r) = record_parent_decomposition (s\<lparr>parent_issues := bm_remove p (parent_issues s)\<rparr>)
                     p cs quarantined in
      case r of
        Inr update \<Rightarrow> (t, Inr update)
      | Inl e \<Rightarrow> ((case previous of None \<Rightarrow> t
                  | Some old \<Rightarrow> t\<lparr>parent_issues := bm_insert p old (parent_issues t)\<rparr>), Inl e))"

definition owner_of :: "spec_state_store \<Rightarrow> u64 \<Rightarrow> u64 \<Rightarrow> parent_issue_record option" where
  "owner_of s p n = find (\<lambda>r. parent_issue r \<noteq> p \<and> n \<in> set (child_numbers r))
     (bm_values (parent_issues s))"

definition check_unowned :: "spec_state_store \<Rightarrow> u64 \<Rightarrow> u64 \<Rightarrow> autospec_error + unit" where
  "check_unowned s p n = (case owner_of s p n of None \<Rightarrow> Inr ()
     | Some r \<Rightarrow> Inl (StateError (lit ''child'') (lit ''child issue '' @ issue_ref n
         @ lit '' is already linked to parent '' @ issue_ref (parent_issue r))))"

definition extend_parent_decomposition ::
  "spec_state_store \<Rightarrow> u64 \<Rightarrow> u64 list
    \<Rightarrow> spec_state_store \<times> (autospec_error + parent_decomposition_extension)" where
  "extend_parent_decomposition s p cs =
     (case bm_get (parent_issues s) p of
        None \<Rightarrow> (s, Inl (OtherError (lit ''parent issue '' @ issue_ref p @ lit '' is not tracked'')))
      | Some r \<Rightarrow>
          let existing = child_numbers r; added = drop (length existing) cs;
              changed = (added \<noteq> []) in
          if length cs < length existing \<or> take (length existing) cs \<noteq> existing
          then (s, Inl (StateError (lit ''parent'') (lit ''parent issue '' @ issue_ref p
                 @ lit '' extension must preserve the ordered child prefix'')))
          else case and_then (check_child_numbers p {} cs) (\<lambda>u. each (check_unowned s p) added) of
            Inl e \<Rightarrow> (s, Inl e)
          | Inr u \<Rightarrow>
              let r' = r\<lparr>child_issues := child_issues r @ map open_child added, parent_closed := False\<rparr>;
                  t = (if changed then s\<lparr>parent_issues := bm_insert p r' (parent_issues s)\<rparr> else s) in
              (t, and_then (if changed then lift_message (validate_parent_record r') else Inr ()) (\<lambda>u.
                 Inr \<lparr>extended_parent = p, extended_children = cs, added_children = added,
                      extension_comment = extension_decomposition_comment p cs (quarantined_parent r),
                      extension_changed = changed\<rparr>)))"

definition complete_child :: "u64 \<Rightarrow> parent_issue_record \<Rightarrow> parent_issue_record" where
  "complete_child n r = r\<lparr>child_issues :=
     map (\<lambda>c. if issue c = n then c\<lparr>terminal := True\<rparr> else c) (child_issues r)\<rparr>"

text \<open>The loop marks and validates record after record and stops at the first refusal.\<close>

fun complete_children :: "u64 \<Rightarrow> (u64, parent_issue_record) bmap
    \<Rightarrow> (u64, parent_issue_record) bmap \<times> (autospec_error + bool)" where
  "complete_children n [] = ([], Inr False)"
| "complete_children n ((k, r) # ps) =
     (let r' = complete_child n r; matched = (n \<in> set (child_numbers r)) in
      case lift_message (validate_parent_record r') of
        Inl e \<Rightarrow> ((k, r') # ps, Inl e)
      | Inr u \<Rightarrow> (let (ps', res) = complete_children n ps in
          ((k, r') # ps', map_ok (\<lambda>m. matched \<or> m) res)))"

definition terminal_action :: "parent_issue_record \<Rightarrow> parent_issue_terminal_action" where
  "terminal_action r = \<lparr>terminal_parent = parent_issue r,
     completion_text = completion_summary (parent_issue r) (child_numbers r)\<rparr>"

definition parent_issue_terminal_actions :: "spec_state_store \<Rightarrow> parent_issue_terminal_action list" where
  "parent_issue_terminal_actions s =
     map terminal_action (filter (\<lambda>r. parent_status r = CompleteButStale) (bm_values (parent_issues s)))"

definition record_child_terminal ::
  "spec_state_store \<Rightarrow> u64 \<Rightarrow> spec_state_store \<times> (autospec_error + parent_issue_terminal_action list)" where
  "record_child_terminal s n =
     (if n = 0 then (s, Inl (OtherError (lit ''child issue number must be positive'')))
      else let (ps, res) = complete_children n (parent_issues s); t = s\<lparr>parent_issues := ps\<rparr> in
        (t, and_then res (\<lambda>matched. if \<not> matched
             then Inl (StateError (lit ''child'') (lit ''child issue '' @ issue_ref n
                    @ lit '' is not linked to a parent issue''))
             else Inr (parent_issue_terminal_actions t))))"

definition record_parent_closed ::
  "spec_state_store \<Rightarrow> u64 \<Rightarrow> spec_state_store \<times> (autospec_error + unit)" where
  "record_parent_closed s p =
     (case bm_get (parent_issues s) p of
        None \<Rightarrow> (s, Inl (OtherError (lit ''parent issue '' @ issue_ref p @ lit '' is not tracked'')))
      | Some r \<Rightarrow>
          if \<not> all_terminal r
          then (s, Inl (StateError (lit ''parent'') (lit ''parent issue '' @ issue_ref p
                 @ lit '' cannot close while child issues are pending'')))
          else let r' = r\<lparr>parent_closed := True\<rparr> in
            (s\<lparr>parent_issues := bm_insert p r' (parent_issues s)\<rparr>, lift_message (validate_parent_record r')))"

section \<open>Queries\<close>

definition parent_issue_status_of :: "spec_state_store \<Rightarrow> u64 \<Rightarrow> parent_issue_status option" where
  "parent_issue_status_of s p = map_option parent_status (bm_get (parent_issues s) p)"

definition parent_issue_children :: "spec_state_store \<Rightarrow> u64 \<Rightarrow> u64 list option" where
  "parent_issue_children s p = map_option child_numbers (bm_get (parent_issues s) p)"

definition parent_issue_numbers :: "spec_state_store \<Rightarrow> u64 list" where
  "parent_issue_numbers s = bm_keys (parent_issues s)"

definition parent_issue_update_of :: "spec_state_store \<Rightarrow> u64 \<Rightarrow> parent_issue_update option" where
  "parent_issue_update_of s p = map_option (\<lambda>r. \<lparr>updated_parent = p,
     comment_body = decomposition_comment p (child_numbers r) (quarantined_parent r)\<rparr>)
     (bm_get (parent_issues s) p)"

definition parent_issue_terminal_action_of ::
  "spec_state_store \<Rightarrow> u64 \<Rightarrow> parent_issue_terminal_action option" where
  "parent_issue_terminal_action_of s p = (case bm_get (parent_issues s) p of
     None \<Rightarrow> None
   | Some r \<Rightarrow> if all_terminal r
       then Some \<lparr>terminal_parent = p, completion_text = completion_summary p (child_numbers r)\<rparr>
       else None)"

definition count_parent :: "parent_issue_counts \<Rightarrow> parent_issue_record \<Rightarrow> parent_issue_counts" where
  "count_parent c r = (case parent_status r of
     PendingChildren \<Rightarrow> c\<lparr>pending_children := pending_children c + 1\<rparr>
   | QuarantinedParentDecomposed \<Rightarrow>
       c\<lparr>quarantined_parent_decomposed := quarantined_parent_decomposed c + 1\<rparr>
   | CompleteButStale \<Rightarrow> c\<lparr>complete_but_stale := complete_but_stale c + 1\<rparr>
   | Closed \<Rightarrow> c\<lparr>closed_parents := closed_parents c + 1\<rparr>)"

definition parent_issue_counts_of :: "spec_state_store \<Rightarrow> parent_issue_counts" where
  "parent_issue_counts_of s = foldl count_parent
     \<lparr>pending_children = 0, quarantined_parent_decomposed = 0, complete_but_stale = 0, closed_parents = 0\<rparr>
     (bm_values (parent_issues s))"

definition parent_issue_status_lines :: "spec_state_store \<Rightarrow> ustr list" where
  "parent_issue_status_lines s = map (\<lambda>r. issue_ref (parent_issue r) @ lit '': ''
     @ lit (parent_status_text (parent_status r)) @ lit '' ('' @ issue_list (child_numbers r) (lit '', '')
     @ lit '')'') (bm_values (parent_issues s))"

section \<open>The document\<close>

definition STATE_SCHEMA_VERSION :: u64 where
  "STATE_SCHEMA_VERSION = 1"

definition optional_json_string :: "ustr option \<Rightarrow> ustr" where
  "optional_json_string v = (case v of Some s \<Rightarrow> [34] @ escape_json_string s @ [34] | None \<Rightarrow> lit ''null'')"

definition lifecycle_to_json :: "spec_lifecycle \<Rightarrow> ustr" where
  "lifecycle_to_json lc = lit ''{''
     @ json_field ''spec_id'' @ [34] @ escape_json_string (spec_id lc) @ [34] @ lit '',''
     @ json_field ''state'' @ [34] @ lit (run_state_text (state lc)) @ [34] @ lit '',''
     @ json_field ''deferred_reason'' @ optional_json_string (deferred_reason lc) @ lit '',''
     @ json_field ''superseded_by'' @ optional_json_string (superseded_by lc) @ lit ''}''"

definition child_to_json :: "child_issue_record \<Rightarrow> ustr" where
  "child_to_json c = lit ''{'' @ json_field ''issue'' @ show_u64 (issue c) @ lit '',''
     @ json_field ''terminal'' @ show_bool (terminal c) @ lit ''}''"

definition parent_to_json :: "parent_issue_record \<Rightarrow> ustr" where
  "parent_to_json r = lit ''{'' @ json_field ''parent_issue'' @ show_u64 (parent_issue r) @ lit '',''
     @ json_field ''child_issues'' @ lit ''['' @ join (lit '','') (map child_to_json (child_issues r))
     @ lit '']'' @ lit '','' @ json_field ''quarantined_parent'' @ show_bool (quarantined_parent r)
     @ lit '','' @ json_field ''decomposition_comment_posted''
     @ show_bool (decomposition_comment_posted r) @ lit '',''
     @ json_field ''parent_closed'' @ show_bool (parent_closed r) @ lit ''}''"

definition store_to_json :: "spec_state_store \<Rightarrow> autospec_error + ustr" where
  "store_to_json s =
     and_then (lift_message (validate_records (records s))) (\<lambda>u.
     and_then (lift_message (validate_parent_records (parent_issues s))) (\<lambda>u.
       Inr (lit ''{'' @ json_field ''schema'' @ show_u64 STATE_SCHEMA_VERSION @ lit '',''
         @ json_field ''specs'' @ lit ''['' @ join (lit '','') (map lifecycle_to_json (bm_values (records s)))
         @ lit '']'' @ lit '','' @ json_field ''parent_issues'' @ lit ''[''
         @ join (lit '','') (map parent_to_json (bm_values (parent_issues s))) @ lit '']'' @ lit ''}'')))"

section \<open>Its reader\<close>

definition take_required ::
  "(ustr, json) bmap \<Rightarrow> string \<Rightarrow> string \<Rightarrow> ustr + json \<times> (ustr, json) bmap" where
  "take_required object key ctx = (case bm_get object (lit key) of
       Some v \<Rightarrow> Inr (v, bm_remove (lit key) object)
     | None \<Rightarrow> Inl (lit ''missing '' @ lit key @ lit '' in '' @ lit ctx))"

definition require_only_keys :: "(ustr, json) bmap \<Rightarrow> string list \<Rightarrow> string \<Rightarrow> ustr + unit" where
  "require_only_keys object expected ctx = each (\<lambda>key. ensure (key \<in> set (map lit expected))
     (lit ''unknown key '' @ key @ lit '' in '' @ lit ctx)) (bm_keys object)"

definition parse_lifecycle :: "json \<Rightarrow> ustr + spec_lifecycle" where
  "parse_lifecycle value =
     (let ctx = ''spec lifecycle record'' in
      and_then (into_object value (lit ctx)) (\<lambda>m.
      and_then (require_only_keys m [''spec_id'', ''state'', ''deferred_reason'', ''superseded_by''] ctx) (\<lambda>u.
      and_then (take_required m ''spec_id'' ctx) (\<lambda>(v, m).
      and_then (into_string v (lit ''spec_id'')) (\<lambda>k.
      and_then (take_required m ''state'' ctx) (\<lambda>(v, m).
      and_then (into_string v (lit ''state'')) (\<lambda>text.
      and_then (lower_error (parse_run_state text)) (\<lambda>st.
      and_then (take_required m ''deferred_reason'' ctx) (\<lambda>(v, m).
      and_then (into_optional_string v (lit ''deferred_reason'')) (\<lambda>reason.
      and_then (take_required m ''superseded_by'' ctx) (\<lambda>(v, m).
      and_then (into_optional_string v (lit ''superseded_by'')) (\<lambda>by.
        Inr \<lparr>spec_id = k, state = st, deferred_reason = reason, superseded_by = by\<rparr>))))))))))))"

definition parse_child_issue_record :: "json \<Rightarrow> ustr + child_issue_record" where
  "parse_child_issue_record value =
     (let ctx = ''child issue record'' in
      and_then (into_object value (lit ctx)) (\<lambda>m.
      and_then (require_only_keys m [''issue'', ''terminal''] ctx) (\<lambda>u.
      and_then (take_required m ''issue'' ctx) (\<lambda>(v, m).
      and_then (into_number v (lit ''issue'')) (\<lambda>n.
      and_then (take_required m ''terminal'' ctx) (\<lambda>(v, m).
      and_then (into_bool v (lit ''terminal'')) (\<lambda>t.
        Inr \<lparr>issue = n, terminal = t\<rparr>)))))))"

fun collect_ok :: "('a \<Rightarrow> 'e + 'b) \<Rightarrow> 'a list \<Rightarrow> 'e + 'b list" where
  "collect_ok f [] = Inr []"
| "collect_ok f (x # xs) = and_then (f x) (\<lambda>y. map_ok (Cons y) (collect_ok f xs))"

definition parse_parent_issue_record :: "json \<Rightarrow> ustr + parent_issue_record" where
  "parse_parent_issue_record value =
     (let ctx = ''parent issue record'' in
      and_then (into_object value (lit ctx)) (\<lambda>m.
      and_then (require_only_keys m [''parent_issue'', ''child_issues'', ''quarantined_parent'',
        ''decomposition_comment_posted'', ''parent_closed''] ctx) (\<lambda>u.
      and_then (take_required m ''parent_issue'' ctx) (\<lambda>(v, m).
      and_then (into_number v (lit ''parent_issue'')) (\<lambda>p.
      and_then (take_required m ''child_issues'' ctx) (\<lambda>(v, m).
      and_then (into_array v (lit ''child_issues'')) (\<lambda>vs.
      and_then (collect_ok parse_child_issue_record vs) (\<lambda>cs.
      and_then (take_required m ''quarantined_parent'' ctx) (\<lambda>(v, m).
      and_then (into_bool v (lit ''quarantined_parent'')) (\<lambda>q.
      and_then (take_required m ''decomposition_comment_posted'' ctx) (\<lambda>(v, m).
      and_then (into_bool v (lit ''decomposition_comment_posted'')) (\<lambda>d.
      and_then (take_required m ''parent_closed'' ctx) (\<lambda>(v, m).
      and_then (into_bool v (lit ''parent_closed'')) (\<lambda>c.
        Inr \<lparr>parent_issue = p, child_issues = cs, quarantined_parent = q,
             decomposition_comment_posted = d, parent_closed = c\<rparr>))))))))))))))"

fun load_lifecycles :: "(ustr, spec_lifecycle) bmap \<Rightarrow> json list \<Rightarrow> ustr + (ustr, spec_lifecycle) bmap" where
  "load_lifecycles m [] = Inr m"
| "load_lifecycles m (v # vs) = and_then (parse_lifecycle v) (\<lambda>lc.
     if bm_get m (spec_id lc) \<noteq> None then Inl (lit ''duplicate spec id: '' @ spec_id lc)
     else load_lifecycles (bm_insert (spec_id lc) lc m) vs)"

fun load_parents :: "(u64, parent_issue_record) bmap \<Rightarrow> json list \<Rightarrow> ustr + (u64, parent_issue_record) bmap" where
  "load_parents m [] = Inr m"
| "load_parents m (v # vs) = and_then (parse_parent_issue_record v) (\<lambda>r.
     if bm_get m (parent_issue r) \<noteq> None then Inl (lit ''duplicate parent issue: '' @ issue_ref (parent_issue r))
     else load_parents (bm_insert (parent_issue r) r m) vs)"

definition parse_store :: "ustr \<Rightarrow> ustr + spec_state_store" where
  "parse_store document =
     (let ctx = ''spec state document'' in
      and_then (map_err (json_error_text document) (parse_json document)) (\<lambda>value.
      and_then (into_object value (lit ctx)) (\<lambda>root.
      and_then (require_only_keys root [''schema'', ''specs'', ''parent_issues''] ctx) (\<lambda>u.
      and_then (take_required root ''schema'' ctx) (\<lambda>(v, root).
      and_then (into_number v (lit ''schema'')) (\<lambda>schema.
      if schema \<noteq> STATE_SCHEMA_VERSION
      then Inl (lit ''unsupported spec state schema: '' @ show_u64 schema)
      else and_then (take_required root ''specs'' ctx) (\<lambda>(v, root).
      and_then (into_array v (lit ''specs'')) (\<lambda>rs.
      and_then (case bm_get root (lit ''parent_issues'') of None \<Rightarrow> Inr []
                | Some v \<Rightarrow> into_array v (lit ''parent_issues'')) (\<lambda>ps.
      and_then (load_lifecycles bm_empty rs) (\<lambda>records.
      and_then (load_parents bm_empty ps) (\<lambda>parents.
      and_then (validate_records records) (\<lambda>u.
      and_then (validate_parent_records parents) (\<lambda>u.
        Inr \<lparr>records = records, parent_issues = parents\<rparr>)))))))))))))"

section \<open>What the validation accepts\<close>

definition good_children :: "u64 \<Rightarrow> u64 list \<Rightarrow> bool" where
  "good_children p cs \<longleftrightarrow> distinct cs \<and> 0 \<notin> set cs \<and> p \<notin> set cs"

definition parent_ok :: "parent_issue_record \<Rightarrow> bool" where
  "parent_ok r \<longleftrightarrow> parent_issue r \<noteq> 0 \<and> child_issues r \<noteq> []
     \<and> good_children (parent_issue r) (child_numbers r) \<and> (parent_closed r \<longrightarrow> all_terminal r)"

lemma validate_children_Inr:
  "validate_children p seen cs = Inr u \<longleftrightarrow> good_children p cs \<and> set cs \<inter> seen = {}"
  by (induction cs arbitrary: seen) (auto simp: good_children_def)

lemma check_child_numbers_Inr:
  "check_child_numbers p seen cs = Inr u \<longleftrightarrow> good_children p cs \<and> set cs \<inter> seen = {}"
  by (induction cs arbitrary: seen) (auto simp: good_children_def)

lemma validate_parent_record_Inr: "validate_parent_record r = Inr u \<longleftrightarrow> parent_ok r"
  by (auto simp: validate_parent_record_def parent_ok_def Let_def result_simps validate_children_Inr)

lemma validate_parent_records_Inr:
  "validate_parent_records ps = Inr u \<longleftrightarrow> (\<forall>e \<in> set ps. fst e = parent_issue (snd e) \<and> parent_ok (snd e))"
  by (auto simp: validate_parent_records_def validate_parent_entry_def validate_parent_record_Inr)

definition store_ok :: "spec_state_store \<Rightarrow> bool" where
  "store_ok s \<longleftrightarrow> bm_ok (records s) \<and> bm_ok (parent_issues s)
     \<and> validate_records (records s) = Inr () \<and> validate_parent_records (parent_issues s) = Inr ()"

definition parents_ok :: "(u64, parent_issue_record) bmap \<Rightarrow> bool" where
  "parents_ok ps \<longleftrightarrow> bm_ok ps \<and> validate_parent_records ps = Inr ()"

lemma store_ok_parents: "store_ok s \<Longrightarrow> parents_ok (parent_issues s)"
  by (simp add: store_ok_def parents_ok_def)

lemma store_ok_set_parents: "store_ok s \<Longrightarrow> parents_ok ps \<Longrightarrow> store_ok (s\<lparr>parent_issues := ps\<rparr>)"
  by (simp add: store_ok_def parents_ok_def)

lemma parents_ok_insert:
  "parents_ok ps \<Longrightarrow> parent_issue r = p \<Longrightarrow> parent_ok r \<Longrightarrow> parents_ok (bm_insert p r ps)"
  by (auto simp: parents_ok_def bm_ok_insert validate_parent_records_Inr dest!: mem_bm_insert)

lemma parents_ok_remove: "parents_ok ps \<Longrightarrow> parents_ok (bm_remove p ps)"
  by (auto simp: parents_ok_def bm_ok_remove validate_parent_records_Inr set_bm_remove)

lemma parents_ok_get:
  "parents_ok ps \<Longrightarrow> bm_get ps p = Some r \<Longrightarrow> parent_issue r = p \<and> parent_ok r"
  using bm_get_mem [of ps p r] by (fastforce simp: parents_ok_def validate_parent_records_Inr)

section \<open>Operations keep the store valid and are undone by their errors\<close>

text \<open>\<open>atomic s (t, r)\<close>: the store left behind is valid, and it is the old one after an error.\<close>

definition atomic :: "spec_state_store \<Rightarrow> spec_state_store \<times> ('e + 'a) \<Rightarrow> bool" where
  "atomic s tr \<longleftrightarrow> store_ok (fst tr) \<and> (is_ok (snd tr) \<or> fst tr = s)"

lemma atomic_unchanged [intro, simp]: "store_ok s \<Longrightarrow> atomic s (s, r)"
  by (simp add: atomic_def)

lemma atomic_Inr [simp]: "atomic s (t, Inr x) \<longleftrightarrow> store_ok t"
  by (simp add: atomic_def)

lemma insert_lifecycle_atomic: "store_ok s \<Longrightarrow> atomic s (insert_lifecycle s lc)"
  by (auto simp: insert_lifecycle_def Let_def store_ok_def bm_ok_insert split: sum.splits)

lemma record_decomposition_result:
  assumes "parents_ok (parent_issues s)"
  shows "record_parent_decomposition s p cs q =
    (if p \<noteq> 0 \<and> cs \<noteq> [] \<and> bm_get (parent_issues s) p = None \<and> good_children p cs
     then (s\<lparr>parent_issues := bm_insert p \<lparr>parent_issue = p, child_issues = map open_child cs,
            quarantined_parent = q, decomposition_comment_posted = True, parent_closed = False\<rparr> (parent_issues s)\<rparr>,
          Inr \<lparr>updated_parent = p, comment_body = decomposition_comment p cs q\<rparr>)
     else (s, snd (record_parent_decomposition s p cs q)))"
proof -
  have nums: "child_numbers \<lparr>parent_issue = p, child_issues = map open_child cs, quarantined_parent = q,
     decomposition_comment_posted = True, parent_closed = False\<rparr> = cs"
    by (simp add: child_numbers_def open_child_def comp_def)
  show ?thesis
  proof (cases "check_child_numbers p {} cs")
    case (Inl e)
    then have "\<not> good_children p cs" using check_child_numbers_Inr [of p "{}" cs "()"] by simp
    with Inl show ?thesis by (simp add: record_parent_decomposition_def)
  next
    case (Inr u)
    then have good: "good_children p cs" using check_child_numbers_Inr [of p "{}" cs u] by simp
    show ?thesis
    proof (cases "p \<noteq> 0 \<and> cs \<noteq> [] \<and> bm_get (parent_issues s) p = None")
      case True
      have "validate_parent_record \<lparr>parent_issue = p, child_issues = map open_child cs,
          quarantined_parent = q, decomposition_comment_posted = True, parent_closed = False\<rparr> = Inr ()"
        using True good nums by (simp add: validate_parent_record_Inr parent_ok_def)
      with True good Inr nums show ?thesis by (simp add: record_parent_decomposition_def Let_def)
    qed (auto simp: record_parent_decomposition_def)
  qed
qed

lemma open_record_ok:
  "p \<noteq> 0 \<Longrightarrow> cs \<noteq> [] \<Longrightarrow> good_children p cs \<Longrightarrow> parent_ok \<lparr>parent_issue = p,
     child_issues = map open_child cs, quarantined_parent = q, decomposition_comment_posted = True,
     parent_closed = False\<rparr>"
  by (simp add: parent_ok_def child_numbers_def open_child_def comp_def)

lemma record_decomposition_atomic:
  assumes "store_ok s"
  shows "atomic s (record_parent_decomposition s p cs q)"
  by (subst record_decomposition_result [OF store_ok_parents [OF assms]])
     (use assms in \<open>auto intro!: store_ok_set_parents parents_ok_insert store_ok_parents open_record_ok\<close>)

lemma sync_decomposition_atomic:
  assumes ok: "store_ok s"
  shows "atomic s (sync_parent_decomposition s p cs q)"
proof -
  let ?s = "s\<lparr>parent_issues := bm_remove p (parent_issues s)\<rparr>"
  have "store_ok ?s" using ok by (intro store_ok_set_parents parents_ok_remove store_ok_parents)
  then have at: "atomic ?s (record_parent_decomposition ?s p cs q)"
    by (rule record_decomposition_atomic)
  obtain t r where tr: "record_parent_decomposition ?s p cs q = (t, r)" by fastforce
  show ?thesis
  proof (cases r)
    case (Inl e)
    then have t: "t = ?s" using at tr by (simp add: atomic_def)
    show ?thesis
    proof (cases "bm_get (parent_issues s) p")
      case None
      then show ?thesis using ok Inl t tr by (simp add: sync_parent_decomposition_def bm_remove_absent)
    next
      case (Some old)
      then have "bm_insert p old (bm_remove p (parent_issues s)) = parent_issues s"
        using ok by (intro bm_reinsert) (simp_all add: store_ok_def)
      with ok Inl t tr Some show ?thesis by (simp add: sync_parent_decomposition_def)
    qed
  next
    case (Inr x)
    then show ?thesis using at tr by (simp add: sync_parent_decomposition_def atomic_def)
  qed
qed

lemma extend_decomposition_atomic:
  assumes ok: "store_ok s"
  shows "atomic s (extend_parent_decomposition s p cs)"
proof (cases "bm_get (parent_issues s) p")
  case None
  then show ?thesis using ok by (simp add: extend_parent_decomposition_def)
next
  case (Some r)
  let ?old = "child_numbers r" and ?added = "drop (length (child_numbers r)) cs"
  let ?r = "r\<lparr>child_issues := child_issues r @ map open_child ?added, parent_closed := False\<rparr>"
  have r: "parent_issue r = p" "parent_ok r"
    using parents_ok_get [OF store_ok_parents [OF ok] Some] by simp_all
  show ?thesis
  proof (cases "length cs < length ?old \<or> take (length ?old) cs \<noteq> ?old \<or>
      \<not> is_ok (and_then (check_child_numbers p {} cs) (\<lambda>u. each (check_unowned s p) ?added))")
    case True
    then show ?thesis using ok Some
      by (cases "and_then (check_child_numbers p {} cs) (\<lambda>u. each (check_unowned s p) ?added)")
         (auto simp: extend_parent_decomposition_def Let_def)
  next
    case False
    then obtain u where u: "and_then (check_child_numbers p {} cs) (\<lambda>u. each (check_unowned s p) ?added) = Inr u"
      by (auto simp: is_ok_iff)
    then have good: "good_children p cs" by (auto simp: result_simps check_child_numbers_Inr)
    have "child_numbers ?r = take (length ?old) cs @ ?added"
      using False by (simp add: child_numbers_def open_child_def comp_def)
    then have "child_numbers ?r = cs" by simp
    then have r': "parent_ok ?r" using r good by (simp add: parent_ok_def)
    then have "validate_parent_record ?r = Inr ()" by (simp add: validate_parent_record_Inr)
    moreover have "store_ok (s\<lparr>parent_issues := bm_insert p ?r (parent_issues s)\<rparr>)"
      using ok r r' by (intro store_ok_set_parents parents_ok_insert store_ok_parents) simp_all
    ultimately show ?thesis using False ok Some u
      by (simp add: extend_parent_decomposition_def Let_def)
  qed
qed

lemma complete_child_ok: "parent_ok r \<Longrightarrow> parent_ok (complete_child n r)"
proof -
  assume r: "parent_ok r"
  have "child_numbers (complete_child n r) = child_numbers r"
    by (simp add: child_numbers_def complete_child_def comp_def if_distrib cong: if_cong)
  moreover have "all_terminal r \<Longrightarrow> all_terminal (complete_child n r)"
    by (auto simp: all_terminal_def complete_child_def list_all_iff)
  ultimately show ?thesis using r by (simp add: parent_ok_def complete_child_def)
qed

lemma complete_child_key: "parent_issue (complete_child n r) = parent_issue r"
  by (simp add: complete_child_def)

lemma complete_children_result:
  assumes "\<forall>e \<in> set ps. parent_ok (snd e)"
  shows "complete_children n ps = (bm_map (complete_child n) ps,
    Inr (\<exists>e \<in> set ps. n \<in> set (child_numbers (snd e))))"
  using assms
proof (induction n ps rule: complete_children.induct)
  case (2 n k r ps)
  then have "validate_parent_record (complete_child n r) = Inr ()"
    by (simp add: validate_parent_record_Inr complete_child_ok)
  with 2 show ?case by (simp add: Let_def bm_map_def)
qed (simp add: bm_map_def)

lemma complete_child_absent: "n \<notin> set (child_numbers r) \<Longrightarrow> complete_child n r = r"
proof -
  assume n: "n \<notin> set (child_numbers r)"
  have "map (\<lambda>c. if issue c = n then c\<lparr>terminal := True\<rparr> else c) (child_issues r) = child_issues r"
    by (rule map_idI) (use n in \<open>auto simp: child_numbers_def\<close>)
  then show ?thesis by (simp add: complete_child_def)
qed

lemma record_child_terminal_atomic:
  assumes ok: "store_ok s"
  shows "atomic s (record_child_terminal s n)"
proof -
  let ?ps = "parent_issues s"
  have all: "\<forall>e \<in> set ?ps. fst e = parent_issue (snd e) \<and> parent_ok (snd e)"
    using ok by (simp add: store_ok_def validate_parent_records_Inr)
  then have res: "complete_children n ?ps = (bm_map (complete_child n) ?ps,
      Inr (\<exists>e \<in> set ?ps. n \<in> set (child_numbers (snd e))))"
    by (intro complete_children_result) simp
  have "parents_ok (bm_map (complete_child n) ?ps)"
    using ok all by (auto simp: parents_ok_def store_ok_def validate_parent_records_Inr bm_map_def
        complete_child_ok complete_child_key bm_ok_map [unfolded bm_map_def])
  then have t: "store_ok (s\<lparr>parent_issues := bm_map (complete_child n) ?ps\<rparr>)"
    using ok by (rule store_ok_set_parents [rotated])
  show ?thesis
  proof (cases "\<exists>e \<in> set ?ps. n \<in> set (child_numbers (snd e))")
    case True
    then show ?thesis using ok t by (simp add: record_child_terminal_def res Let_def)
  next
    case False
    have "bm_map (complete_child n) ?ps = ?ps"
      unfolding bm_map_def by (rule map_idI) (use False complete_child_absent in auto)
    with False ok show ?thesis by (simp add: record_child_terminal_def res)
  qed
qed

lemma record_parent_closed_atomic:
  assumes ok: "store_ok s"
  shows "atomic s (record_parent_closed s p)"
proof (cases "bm_get (parent_issues s) p")
  case None
  then show ?thesis using ok by (simp add: record_parent_closed_def)
next
  case (Some r)
  have r: "parent_issue r = p" "parent_ok r"
    using parents_ok_get [OF store_ok_parents [OF ok] Some] by simp_all
  show ?thesis
  proof (cases "all_terminal r")
    case True
    then have r': "parent_ok (r\<lparr>parent_closed := True\<rparr>)"
      using r by (simp add: parent_ok_def all_terminal_def child_numbers_def)
    then have "validate_parent_record (r\<lparr>parent_closed := True\<rparr>) = Inr ()"
      by (simp add: validate_parent_record_Inr)
    moreover have "store_ok (s\<lparr>parent_issues := bm_insert p (r\<lparr>parent_closed := True\<rparr>) (parent_issues s)\<rparr>)"
      using ok r r' by (intro store_ok_set_parents parents_ok_insert store_ok_parents) simp_all
    ultimately show ?thesis using ok True Some by (simp add: record_parent_closed_def Let_def)
  qed (use ok Some in \<open>simp add: record_parent_closed_def\<close>)
qed

section \<open>Histories of the store\<close>

datatype store_op =
    Insert spec_lifecycle
  | RecordDecomposition u64 "u64 list" bool
  | SyncDecomposition u64 "u64 list" bool
  | ExtendDecomposition u64 "u64 list"
  | ChildTerminal u64
  | ParentClosed u64

definition forget :: "spec_state_store \<times> (autospec_error + 'a) \<Rightarrow> spec_state_store \<times> (autospec_error + unit)" where
  "forget tr = (fst tr, map_ok (\<lambda>x. ()) (snd tr))"

fun apply_op :: "spec_state_store \<Rightarrow> store_op \<Rightarrow> spec_state_store \<times> (autospec_error + unit)" where
  "apply_op s (Insert lc) = insert_lifecycle s lc"
| "apply_op s (RecordDecomposition p cs q) = forget (record_parent_decomposition s p cs q)"
| "apply_op s (SyncDecomposition p cs q) = forget (sync_parent_decomposition s p cs q)"
| "apply_op s (ExtendDecomposition p cs) = forget (extend_parent_decomposition s p cs)"
| "apply_op s (ChildTerminal n) = forget (record_child_terminal s n)"
| "apply_op s (ParentClosed p) = record_parent_closed s p"

lemma is_ok_map_ok [simp]: "is_ok (map_ok f r) \<longleftrightarrow> is_ok r"
  by (cases r) auto

lemma atomic_forget [simp]: "atomic s (forget tr) \<longleftrightarrow> atomic s tr"
  by (simp add: atomic_def forget_def)

lemma apply_op_atomic: "store_ok s \<Longrightarrow> atomic s (apply_op s op)"
  by (cases op) (simp_all add: insert_lifecycle_atomic record_decomposition_atomic
      sync_decomposition_atomic extend_decomposition_atomic record_child_terminal_atomic
      record_parent_closed_atomic)

text \<open>The machine of the store: its error carries the store the operation leaves behind.\<close>

definition store_step :: "spec_state_store \<Rightarrow> store_op \<Rightarrow> (spec_state_store \<times> autospec_error) + spec_state_store" where
  "store_step s op = (case apply_op s op of (t, Inr u) \<Rightarrow> Inr t | (t, Inl e) \<Rightarrow> Inl (t, e))"

definition run_ops :: "spec_state_store \<Rightarrow> store_op list \<Rightarrow> spec_state_store" where
  "run_ops s ops = foldl (\<lambda>s op. fst (apply_op s op)) s ops"

interpretation spec_store: guarded_machine store_step store_ok
proof
  fix s op t assume "store_ok s" "store_step s op = Inr t"
  then show "store_ok t"
    using apply_op_atomic [of s op] by (auto simp: store_step_def atomic_def split: prod.splits sum.splits)
qed

lemma settle_is_apply: "store_ok s \<Longrightarrow> fst (apply_op s op) = settle store_step s op"
  using apply_op_atomic [of s op]
  by (auto simp: settle_def store_step_def atomic_def split: prod.splits sum.splits)

lemma run_ops_drive: "store_ok s \<Longrightarrow> run_ops s ops = drive store_step s ops"
proof (induction ops arbitrary: s)
  case (Cons op ops)
  then show ?case
    by (simp add: run_ops_def drive_def settle_is_apply spec_store.settle_good)
qed (simp add: run_ops_def drive_def)

lemma new_store_ok: "store_ok new_store"
  by (simp add: store_ok_def new_store_def validate_records_def validate_parent_records_def)

lemma run_ops_ok: "store_ok (run_ops new_store ops)"
  by (simp add: run_ops_drive new_store_ok spec_store.drive_good)

text \<open>On a valid store every operation leaves a valid store behind, and an operation that returns
  an error leaves the store exactly as it was, the operations that change it before they
  validate included.\<close>

theorem store_operations_are_atomic:
  "store_ok s \<Longrightarrow> apply_op s op = (t, r) \<Longrightarrow> store_ok t \<and> (is_ok r \<or> t = s)"
  using apply_op_atomic [of s op] by (simp add: atomic_def)

lemma store_operations_are_atomic_witness:
  "\<exists>t r. apply_op new_store (SyncDecomposition 2 [3, 3] True) = (t, r) \<and> \<not> is_ok r \<and> t = new_store"
proof -
  obtain t r where tr: "apply_op new_store (SyncDecomposition 2 [3, 3] True) = (t, r)" by fastforce
  have "\<not> is_ok (snd (apply_op new_store (SyncDecomposition 2 [3, 3] True)))"
    by (simp add: forget_def sync_parent_decomposition_def record_parent_decomposition_def new_store_def
        bm_remove_def)
  then have "\<not> is_ok r" using tr by simp
  with store_operations_are_atomic [OF new_store_ok tr] tr show ?thesis by blast
qed

section \<open>Two owners of a child\<close>

lemma find_Some_mem: "x \<in> set xs \<Longrightarrow> P x \<Longrightarrow> \<exists>y. find P xs = Some y \<and> P y"
  by (induction xs) auto

lemma owner_of_mem:
  "bm_get (parent_issues s) k = Some r \<Longrightarrow> parent_issue r \<noteq> p \<Longrightarrow> n \<in> set (child_numbers r)
     \<Longrightarrow> owner_of s p n \<noteq> None"
  using find_Some_mem [of r "bm_values (parent_issues s)" "\<lambda>r. parent_issue r \<noteq> p \<and> n \<in> set (child_numbers r)"]
    bm_get_mem [of "parent_issues s" k r]
  by (force simp: owner_of_def bm_values_def)

text \<open>Recording a decomposition does not look at other parents: a child that one parent already
  owns is accepted as the child of a second one, although extending the second parent by the same
  child is refused.\<close>

theorem record_accepts_owned_child:
  assumes "store_ok s" "bm_get (parent_issues s) p = Some r" "n \<in> set (child_numbers r)"
    and "bm_get (parent_issues s) q = None" "q \<noteq> 0" "q \<noteq> n"
  shows "\<exists>t u. record_parent_decomposition s q [n] b = (t, Inr u)
     \<and> parent_issue_children t q = Some [n] \<and> parent_issue_children t p = Some (child_numbers r)
     \<and> \<not> is_ok (check_unowned s q n)"
proof -
  have r: "parent_issue r = p" "n \<noteq> 0"
    using parents_ok_get [OF store_ok_parents [OF assms(1)] assms(2)] assms(3)
    by (auto simp: parent_ok_def good_children_def)
  have pq: "p \<noteq> q" using assms(2,4) by auto
  have good: "good_children q [n]" using assms r by (auto simp: good_children_def)
  have "owner_of s q n \<noteq> None"
    using owner_of_mem [OF assms(2), of q n] r pq assms(3) by simp
  then have "\<not> is_ok (check_unowned s q n)" by (auto simp: check_unowned_def)
  moreover have "parent_issue_children (s\<lparr>parent_issues := bm_insert q \<lparr>parent_issue = q,
        child_issues = map open_child [n], quarantined_parent = b, decomposition_comment_posted = True,
        parent_closed = False\<rparr> (parent_issues s)\<rparr>) = (\<lambda>k. if k = q then Some [n] else parent_issue_children s k)"
    by (auto simp: parent_issue_children_def bm_get_insert child_numbers_def open_child_def)
  moreover have "parent_issue_children s p = Some (child_numbers r)"
    using assms(2) by (simp add: parent_issue_children_def)
  ultimately show ?thesis
    using record_decomposition_result [OF store_ok_parents [OF assms(1)], of q "[n]" b] assms good pq
    by simp
qed

definition owned_store :: spec_state_store where
  "owned_store = \<lparr>records = bm_empty, parent_issues = [(2, \<lparr>parent_issue = 2,
     child_issues = [open_child 5], quarantined_parent = False, decomposition_comment_posted = True,
     parent_closed = False\<rparr>)]\<rparr>"

lemma owned_store_ok: "store_ok owned_store"
  by (simp add: store_ok_def owned_store_def validate_records_def validate_parent_records_Inr
      parent_ok_def good_children_def child_numbers_def open_child_def bm_ok_def)

lemma record_accepts_owned_child_witness:
  "\<exists>t u. record_parent_decomposition owned_store 3 [5] False = (t, Inr u)
     \<and> parent_issue_children t 3 = Some [5] \<and> parent_issue_children t 2 = Some [5]
     \<and> \<not> is_ok (check_unowned owned_store 3 5)"
  using record_accepts_owned_child [OF owned_store_ok, of 2 _ 5 3 False]
  by (simp add: owned_store_def child_numbers_def open_child_def)

section \<open>The document is read back\<close>

definition lifecycle_doc :: "spec_lifecycle \<Rightarrow> jdoc" where
  "lifecycle_doc lc = DObject [(lit ''spec_id'', DString (spec_id lc)),
     (lit ''state'', DString (lit (run_state_text (state lc)))),
     (lit ''deferred_reason'', optional_doc (deferred_reason lc)),
     (lit ''superseded_by'', optional_doc (superseded_by lc))]"

definition child_doc :: "child_issue_record \<Rightarrow> jdoc" where
  "child_doc c = DObject [(lit ''issue'', number_doc (issue c)), (lit ''terminal'', DBool (terminal c))]"

definition parent_doc :: "parent_issue_record \<Rightarrow> jdoc" where
  "parent_doc r = DObject [(lit ''parent_issue'', number_doc (parent_issue r)),
     (lit ''child_issues'', DArray (map child_doc (child_issues r))),
     (lit ''quarantined_parent'', DBool (quarantined_parent r)),
     (lit ''decomposition_comment_posted'', DBool (decomposition_comment_posted r)),
     (lit ''parent_closed'', DBool (parent_closed r))]"

definition store_doc :: "spec_state_store \<Rightarrow> jdoc" where
  "store_doc s = DObject [(lit ''schema'', number_doc STATE_SCHEMA_VERSION),
     (lit ''specs'', DArray (map lifecycle_doc (bm_values (records s)))),
     (lit ''parent_issues'', DArray (map parent_doc (bm_values (parent_issues s))))]"

subsection \<open>The writers print these trees\<close>

lemma plain_names:
  "plain_text ''spec_id''" "plain_text ''state''" "plain_text ''deferred_reason''"
  "plain_text ''superseded_by''" "plain_text ''issue''" "plain_text ''terminal''"
  "plain_text ''parent_issue''" "plain_text ''child_issues''" "plain_text ''quarantined_parent''"
  "plain_text ''decomposition_comment_posted''" "plain_text ''parent_closed''" "plain_text ''schema''"
  "plain_text ''specs''" "plain_text ''parent_issues''" "plain_text (run_state_text st)"
  by (simp_all add: plain_text_def plain_char_def run_state_text_def split: spec_run_state.splits)

lemmas quoted_keys = plain_names state_text.quoted_key

lemma render_optional: "render escape_json_char (optional_doc v) = optional_json_string v"
  by (simp add: optional_doc_def optional_json_string_def json_quote_def escape_json_string_def split: option.splits)

lemma render_lifecycle: "render escape_json_char (lifecycle_doc lc) = lifecycle_to_json lc"
  by (simp add: lifecycle_doc_def lifecycle_to_json_def quoted_keys render_optional punctuation
      state_text.quoted_text)
     (simp add: json_quote_def json_field_def escape_json_string_def)

lemma render_child: "render escape_json_char (child_doc c) = child_to_json c"
  by (simp add: child_doc_def child_to_json_def quoted_keys render_number punctuation)

lemma render_parent: "render escape_json_char (parent_doc r) = parent_to_json r"
  by (simp add: parent_doc_def parent_to_json_def quoted_keys render_number punctuation comp_def render_child)

lemma store_to_json_render:
  "store_ok s \<Longrightarrow> store_to_json s = Inr (render escape_json_char (store_doc s))"
  by (simp add: store_ok_def store_to_json_def store_doc_def quoted_keys render_number punctuation
      comp_def render_lifecycle render_parent)

subsection \<open>The reader takes them apart\<close>

lemma require_only_keys_ok:
  "set (map fst m) \<subseteq> set (map lit expected) \<Longrightarrow> require_only_keys m expected ctx = Inr ()"
  by (auto simp: require_only_keys_def bm_keys_def)

lemma parse_run_state_text: "parse_run_state (lit (run_state_text st)) = Inr st"
  by (cases st) (simp_all add: run_state_text_def parse_run_state_def)

lemma parse_lifecycle_doc: "parse_lifecycle (json_of (lifecycle_doc lc)) = Inr lc"
  by (simp add: parse_lifecycle_def lifecycle_doc_def require_only_keys_ok keys_of_list take_required_def
      bm_get_of_list bm_get_remove parse_run_state_text optional_back)

lemma parse_child_doc: "parse_child_issue_record (json_of (child_doc c)) = Inr c"
  by (simp add: parse_child_issue_record_def child_doc_def require_only_keys_ok keys_of_list
      take_required_def bm_get_of_list bm_get_remove number_doc_def)

lemma collect_child_docs: "collect_ok parse_child_issue_record (map (json_of \<circ> child_doc) cs) = Inr cs"
  by (induction cs) (simp_all add: parse_child_doc)

lemma parse_parent_doc: "parse_parent_issue_record (json_of (parent_doc r)) = Inr r"
  by (simp add: parse_parent_issue_record_def parent_doc_def require_only_keys_ok keys_of_list
      take_required_def bm_get_of_list bm_get_remove number_doc_def collect_child_docs)

lemma load_lifecycles_docs:
  "bm_ok (m @ rs) \<Longrightarrow> \<forall>e \<in> set rs. fst e = spec_id (snd e)
     \<Longrightarrow> load_lifecycles m (map (json_of \<circ> lifecycle_doc) (map snd rs)) = Inr (m @ rs)"
proof (induction rs arbitrary: m)
  case (Cons e rs)
  then have "bm_ok (m @ [e])" by (simp add: bm_ok_def sorted_wrt_append)
  with Cons.prems bm_insert_snoc [of m "spec_id (snd e)" "snd e"]
  have "bm_insert (spec_id (snd e)) (snd e) m = m @ [e] \<and> bm_get m (spec_id (snd e)) = None"
    by (cases e) simp
  with Cons.IH [of "m @ [e]"] Cons.prems show ?case by (simp add: parse_lifecycle_doc)
qed simp

lemma load_parents_docs:
  "bm_ok (m @ rs) \<Longrightarrow> \<forall>e \<in> set rs. fst e = parent_issue (snd e)
     \<Longrightarrow> load_parents m (map (json_of \<circ> parent_doc) (map snd rs)) = Inr (m @ rs)"
proof (induction rs arbitrary: m)
  case (Cons e rs)
  then have "bm_ok (m @ [e])" by (simp add: bm_ok_def sorted_wrt_append)
  with Cons.prems bm_insert_snoc [of m "parent_issue (snd e)" "snd e"]
  have "bm_insert (parent_issue (snd e)) (snd e) m = m @ [e] \<and> bm_get m (parent_issue (snd e)) = None"
    by (cases e) simp
  with Cons.IH [of "m @ [e]"] Cons.prems show ?case by (simp add: parse_parent_doc)
qed simp

lemma validate_lifecycle_key: "validate_lifecycle rs e = Inr () \<Longrightarrow> fst e = spec_id (snd e)"
  by (cases e) (simp add: validate_lifecycle_def split: if_splits)

lemma distinct_store_doc: "distinct_keys (store_doc s)"
  by (simp add: store_doc_def list_all_iff lifecycle_doc_def parent_doc_def child_doc_def
      optional_doc_def number_doc_def split: option.splits)

lemma parse_store_doc:
  assumes ok: "store_ok s"
  shows "parse_store (render escape_json_char (store_doc s)) = Inr s"
proof -
  have rs: "load_lifecycles bm_empty (map (json_of \<circ> lifecycle_doc) (bm_values (records s))) = Inr (records s)"
    using ok load_lifecycles_docs [of "[]" "records s"] validate_lifecycle_key [of "records s"]
    by (auto simp add: store_ok_def validate_records_def bm_values_def)
  have ps: "load_parents bm_empty (map (json_of \<circ> parent_doc) (bm_values (parent_issues s))) = Inr (parent_issues s)"
    using ok load_parents_docs [of "[]" "parent_issues s"]
    by (simp add: store_ok_def validate_parent_records_Inr bm_values_def)
  have "parse_json (render escape_json_char (store_doc s)) = Inr (json_of (store_doc s))"
    by (rule state_text.parse_json_render [OF distinct_store_doc])
  then show ?thesis using ok rs ps
    by (simp add: parse_store_def store_doc_def require_only_keys_ok keys_of_list take_required_def
        bm_get_of_list bm_get_remove number_doc_def store_ok_def)
qed

text \<open>C39: after any history of operations on a new store, failed ones included, the store can be
  written, and reading the document back gives exactly that store.\<close>

theorem saved_store_reads_back:
  "\<exists>doc. store_to_json (run_ops new_store ops) = Inr doc \<and> parse_store doc = Inr (run_ops new_store ops)"
  by (simp add: store_to_json_render run_ops_ok parse_store_doc)

lemma load_lifecycles_ok: "load_lifecycles m vs = Inr m' \<Longrightarrow> bm_ok m \<Longrightarrow> bm_ok m'"
  by (induction m vs rule: load_lifecycles.induct) (auto simp: result_simps bm_ok_insert split: if_splits)

lemma load_parents_ok: "load_parents m vs = Inr m' \<Longrightarrow> bm_ok m \<Longrightarrow> bm_ok m'"
  by (induction m vs rule: load_parents.induct) (auto simp: result_simps bm_ok_insert split: if_splits)

lemma parse_store_ok: "parse_store document = Inr s \<Longrightarrow> store_ok s"
  by (auto simp: parse_store_def Let_def result_simps store_ok_def split: if_splits
      dest!: load_lifecycles_ok load_parents_ok)

text \<open>A document the reader accepts, however it is laid out, gives a valid store, and writing that
  store and reading it again gives the same store.\<close>

theorem loaded_store_resaves:
  "parse_store document = Inr s \<Longrightarrow>
     store_ok s \<and> (\<exists>doc. store_to_json s = Inr doc \<and> parse_store doc = Inr s)"
  by (simp add: parse_store_ok store_to_json_render parse_store_doc)

lemma loaded_store_resaves_witness:
  "store_ok owned_store \<and> (\<exists>doc. store_to_json owned_store = Inr doc \<and> parse_store doc = Inr owned_store)"
  by (rule loaded_store_resaves [OF parse_store_doc [OF owned_store_ok]])

end
