(* ===== verification/Issue_Metadata.thy ===== *)
theory Issue_Metadata
  imports Rust_Base
begin

text \<open>
  What a planned issue declares (\<open>graph/metadata.rs\<close>): the surfaces it owns, its concurrency
  metadata, the reason codes of dependencies, normalised paths and the overlap of two ownerships.
\<close>

record owned_surface =
  path :: ustr
  symbols :: "ustr list"

record ownership =
  exclusive :: "owned_surface list"
  shared_read :: "owned_surface list"
  shared_write :: "owned_surface list"

record concurrency_metadata =
  parallel_safe :: bool
  conflict_domains :: "ustr list"

datatype dependency_reason =
    ConsumesNewInterface
  | ConsumesNewType
  | ConsumesNewSchema
  | ConsumesMigration
  | ConsumesGeneratedArtifact
  | RequiresStructuralMigration
  | RequiresNewProtocol
  | VerificationRequiresPredecessor
  | ExternalPrerequisite

definition ALL_REASONS :: "dependency_reason list" where
  "ALL_REASONS = [ConsumesNewInterface, ConsumesNewType, ConsumesNewSchema, ConsumesMigration,
     ConsumesGeneratedArtifact, RequiresStructuralMigration, RequiresNewProtocol,
     VerificationRequiresPredecessor, ExternalPrerequisite]"

fun reason_text :: "dependency_reason \<Rightarrow> string" where
  "reason_text ConsumesNewInterface = ''consumes-new-interface''"
| "reason_text ConsumesNewType = ''consumes-new-type''"
| "reason_text ConsumesNewSchema = ''consumes-new-schema''"
| "reason_text ConsumesMigration = ''consumes-migration''"
| "reason_text ConsumesGeneratedArtifact = ''consumes-generated-artifact''"
| "reason_text RequiresStructuralMigration = ''requires-structural-migration''"
| "reason_text RequiresNewProtocol = ''requires-new-protocol''"
| "reason_text VerificationRequiresPredecessor = ''verification-requires-predecessor''"
| "reason_text ExternalPrerequisite = ''external-prerequisite''"

text \<open>The section sign of the message is the character U+00A7.\<close>

definition reason_of_text :: "ustr \<Rightarrow> ustr + dependency_reason" where
  "reason_of_text code =
     (if code = lit ''consumes-new-interface'' then Inr ConsumesNewInterface
      else if code = lit ''consumes-new-type'' then Inr ConsumesNewType
      else if code = lit ''consumes-new-schema'' then Inr ConsumesNewSchema
      else if code = lit ''consumes-migration'' then Inr ConsumesMigration
      else if code = lit ''consumes-generated-artifact'' then Inr ConsumesGeneratedArtifact
      else if code = lit ''requires-structural-migration'' then Inr RequiresStructuralMigration
      else if code = lit ''requires-new-protocol'' then Inr RequiresNewProtocol
      else if code = lit ''verification-requires-predecessor'' then Inr VerificationRequiresPredecessor
      else if code = lit ''external-prerequisite'' then Inr ExternalPrerequisite
      else Inl (lit ''unsupported dependency reason code: '' @ code @ lit '' (see spec '' @ [167]
             @ lit ''12)''))"

section \<open>Paths\<close>

fun normal_segments :: "ustr list \<Rightarrow> ustr list \<Rightarrow> ustr list" where
  "normal_segments segments [] = segments"
| "normal_segments segments (s # ss) =
     (if s = [] \<or> s = lit ''.'' then normal_segments segments ss
      else if s = lit ''..'' then normal_segments (butlast segments) ss
      else normal_segments (segments @ [s]) ss)"

definition normalize_path :: "ustr \<Rightarrow> ustr" where
  "normalize_path raw = join (lit ''/'') (normal_segments [] (split_char 47 raw))"

definition glob_covers :: "ustr \<Rightarrow> ustr \<Rightarrow> bool" where
  "glob_covers glob p = (case strip_suffix (lit ''/**'') glob of
       None \<Rightarrow> False
     | Some base \<Rightarrow> base \<noteq> [] \<and> strip_prefix (base @ lit ''/'') p \<noteq> None)"

definition paths_overlap :: "ustr \<Rightarrow> ustr \<Rightarrow> bool" where
  "paths_overlap a b \<longleftrightarrow> a = b \<or> glob_covers a b \<or> glob_covers b a"

definition surfaces_overlap :: "owned_surface \<Rightarrow> owned_surface \<Rightarrow> bool" where
  "surfaces_overlap a b \<longleftrightarrow> paths_overlap (normalize_path (path a)) (normalize_path (path b))
     \<or> list_ex (\<lambda>sa. list_ex (\<lambda>sb. sa = sb) (symbols b)) (symbols a)"

definition all_surfaces :: "ownership \<Rightarrow> owned_surface list" where
  "all_surfaces own = exclusive own @ shared_read own @ shared_write own"

definition overlaps :: "ownership \<Rightarrow> ownership \<Rightarrow> bool" where
  "overlaps a b \<longleftrightarrow> list_ex (\<lambda>sa. list_ex (surfaces_overlap sa) (all_surfaces b)) (all_surfaces a)"

section \<open>What normalisation achieves\<close>

text \<open>A proper segment names something: it is not empty, not a dot or two, and has no slash.\<close>

definition proper :: "ustr \<Rightarrow> bool" where
  "proper s \<longleftrightarrow> s \<noteq> [] \<and> s \<noteq> lit ''.'' \<and> s \<noteq> lit ''..'' \<and> 47 \<notin> set s"

definition segments_of :: "ustr \<Rightarrow> ustr list" where
  "segments_of raw = normal_segments [] (split_char 47 raw)"

lemma list_all_butlast: "list_all P xs \<Longrightarrow> list_all P (butlast xs)"
  by (metis in_set_butlastD list_all_iff)

lemma normal_segments_proper:
  "list_all proper segments \<Longrightarrow> \<forall>s \<in> set ss. 47 \<notin> set s \<Longrightarrow> list_all proper (normal_segments segments ss)"
proof (induction segments ss rule: normal_segments.induct)
  case (2 segments s ss)
  then show ?case by (simp add: list_all_butlast) (simp add: proper_def)
qed simp

lemma segments_proper: "list_all proper (segments_of raw)"
  by (simp add: segments_of_def normal_segments_proper split_char_free)

lemma normal_segments_id: "list_all proper ss \<Longrightarrow> normal_segments segments ss = segments @ ss"
  by (induction segments ss rule: normal_segments.induct) (auto simp: proper_def)

lemma slash_lit: "lit ''/'' = [47]"
  by (simp add: lit_def of_char_def)

lemma split_normal:
  "split_char 47 (normalize_path raw) = (if segments_of raw = [] then [[]] else segments_of raw)"
  using segments_proper [of raw]
  by (auto simp: normalize_path_def segments_of_def [symmetric] slash_lit list_all_iff proper_def
      intro: split_join)

lemma segments_normal [simp]: "segments_of (normalize_path raw) = segments_of raw"
  using segments_proper [of raw]
  by (auto simp: segments_of_def [of "normalize_path raw"] split_normal normal_segments_id)

lemma normalize_idempotent: "normalize_path (normalize_path raw) = normalize_path raw"
  using segments_normal [of raw] by (simp add: normalize_path_def segments_of_def)

lemma normal_eq_iff: "normalize_path a = normalize_path b \<longleftrightarrow> segments_of a = segments_of b"
  by (metis normalize_path_def segments_normal segments_of_def)

text \<open>The directory a glob names, when its last segment is the double star.\<close>

definition covers :: "ustr list \<Rightarrow> ustr list \<Rightarrow> bool" where
  "covers g p \<longleftrightarrow> (\<exists>base rest. base \<noteq> [] \<and> rest \<noteq> [] \<and> g = base @ [lit ''**''] \<and> p = base @ rest)"

lemma glob_covers_iff:
  "glob_covers (normalize_path g) (normalize_path p) \<longleftrightarrow> covers (segments_of g) (segments_of p)"
proof
  assume "glob_covers (normalize_path g) (normalize_path p)"
  then obtain base rest where b: "normalize_path g = base @ lit ''/**''" "base \<noteq> []"
    "normalize_path p = (base @ lit ''/'') @ rest"
    by (auto simp: glob_covers_def strip_suffix_Some strip_prefix_Some split: option.splits)
  have lit3: "lit ''/**'' = 47 # lit ''**''" by (simp add: lit_def of_char_def)
  have star: "split_char 47 (lit ''**'') = [lit ''**'']" by (simp add: lit_def of_char_def)
  have g: "split_char 47 (normalize_path g) = split_char 47 base @ [lit ''**'']"
    unfolding b(1) lit3 split_char_append star ..
  have p: "split_char 47 (normalize_path p) = split_char 47 base @ split_char 47 rest"
    unfolding b(3) slash_lit by (simp add: split_char_append)
  have "segments_of g = split_char 47 base @ [lit ''**'']"
    using g split_normal [of g] by (auto split: if_splits simp: Cons_eq_append_conv)
  moreover have "segments_of p = split_char 47 base @ split_char 47 rest"
    using p split_normal [of p] by (auto split: if_splits simp: Cons_eq_append_conv)
  ultimately show "covers (segments_of g) (segments_of p)"
    unfolding covers_def by (meson split_char_nonempty)
next
  assume "covers (segments_of g) (segments_of p)"
  then obtain base rest where b: "base \<noteq> []" "rest \<noteq> []" "segments_of g = base @ [lit ''**'']"
    "segments_of p = base @ rest" by (auto simp: covers_def)
  have "list_all proper base" using segments_proper [of g] b(3) by simp
  then have "join [47] base \<noteq> []"
    using b(1) by (cases base rule: remdups_adj.cases) (auto simp: proper_def)
  moreover have "normalize_path g = join [47] base @ lit ''/**''"
    unfolding normalize_path_def segments_of_def [symmetric] b(3) slash_lit
    using b(1) by (simp add: join_append) (simp add: lit_def of_char_def)
  moreover have "normalize_path p = (join [47] base @ lit ''/'') @ join [47] rest"
    unfolding normalize_path_def segments_of_def [symmetric] b(4) slash_lit
    using b(1,2) by (simp add: join_append)
  ultimately show "glob_covers (normalize_path g) (normalize_path p)"
    by (simp add: glob_covers_def strip_suffix_Some [THEN iffD2, OF refl] del: append_assoc)
qed

text \<open>Two issues overlap exactly when they declare a common symbol, or one normalised path equals
  the other or lies inside the directory the other names with a trailing double star. Segments of
  a normalised path are never empty, \<open>.\<close> or \<open>..\<close>, so no declared path leaves the repository.\<close>

theorem ownership_overlap_exact:
  "(overlaps a b \<longleftrightarrow> (\<exists>x y. x \<in> set (all_surfaces a) \<and> y \<in> set (all_surfaces b)
       \<and> ((\<exists>s. s \<in> set (symbols x) \<and> s \<in> set (symbols y)) \<or> segments_of (path x) = segments_of (path y)
          \<or> covers (segments_of (path x)) (segments_of (path y))
          \<or> covers (segments_of (path y)) (segments_of (path x)))))
     \<and> list_all proper (segments_of raw) \<and> normalize_path (normalize_path raw) = normalize_path raw"
proof -
  have "surfaces_overlap x y \<longleftrightarrow> (\<exists>s. s \<in> set (symbols x) \<and> s \<in> set (symbols y))
      \<or> segments_of (path x) = segments_of (path y) \<or> covers (segments_of (path x)) (segments_of (path y))
      \<or> covers (segments_of (path y)) (segments_of (path x))" for x y
    unfolding surfaces_overlap_def paths_overlap_def glob_covers_iff normal_eq_iff list_ex_iff by blast
  then have "overlaps a b \<longleftrightarrow> (\<exists>x y. x \<in> set (all_surfaces a) \<and> y \<in> set (all_surfaces b)
       \<and> ((\<exists>s. s \<in> set (symbols x) \<and> s \<in> set (symbols y)) \<or> segments_of (path x) = segments_of (path y)
          \<or> covers (segments_of (path x)) (segments_of (path y))
          \<or> covers (segments_of (path y)) (segments_of (path x))))"
    unfolding overlaps_def list_ex_iff by blast
  then show ?thesis by (simp only: segments_proper normalize_idempotent)
qed

lemma overlaps_sym: "overlaps a b \<longleftrightarrow> overlaps b a"
proof -
  have "surfaces_overlap x y \<longleftrightarrow> surfaces_overlap y x" for x y
    by (auto simp: surfaces_overlap_def paths_overlap_def list_ex_iff)
  then show ?thesis by (auto simp: overlaps_def list_ex_iff)
qed

lemma reason_reads_back: "reason_of_text (lit (reason_text r)) = Inr r"
  by (cases r) (simp_all add: reason_of_text_def)

lemma all_reasons_complete: "set ALL_REASONS = UNIV" and all_reasons_distinct: "distinct ALL_REASONS"
proof -
  show "set ALL_REASONS = UNIV"
    using dependency_reason.exhaust by (auto simp: ALL_REASONS_def)
  show "distinct ALL_REASONS" by (simp add: ALL_REASONS_def)
qed

end
