(* ===== verification/Issue_Dag.thy ===== *)
theory Issue_Dag
  imports Spec_Order Issue_Metadata Step_Machine
begin

text \<open>
  The graph of planned issues (\<open>graph/issue_dag.rs\<close>): adjacency over the known identifiers, cycle
  detection, execution waves and the critical path. What they decide is proved in \<open>Issue_Waves\<close>.

  The loops of the code are total here, with a measure each. An \<open>expect\<close> that would fail and a
  degree that would fall below zero are the value \<open>Panicked\<close>.
\<close>

record planned_issue =
  issue_id :: ustr
  issue_title :: ustr
  issue_ownership :: ownership
  concurrency :: concurrency_metadata

record dependency_edge =
  predecessor :: ustr
  successor :: ustr
  reason :: dependency_reason
  artifact :: "ustr option"

record issue_graph =
  issues :: "planned_issue list"
  hard_edges :: "dependency_edge list"

record topology =
  successors :: "(ustr, ustr list) bmap"
  predecessors :: "(ustr, ustr list) bmap"

section \<open>Adjacency\<close>

text \<open>One edge of the loop; an edge with an unknown end is skipped, and one that is already there adds
  no second predecessor.\<close>

definition add_edge :: "ustr list \<Rightarrow> topology \<Rightarrow> dependency_edge \<Rightarrow> dfs_stop + topology" where
  "add_edge known t e =
     (if predecessor e \<notin> set known \<or> successor e \<notin> set known then Inr t
      else case bm_get (successors t) (predecessor e) of
        None \<Rightarrow> Inl Panicked
      | Some ss \<Rightarrow>
          if successor e \<in> set ss then Inr t
          else case bm_get (predecessors t) (successor e) of
            None \<Rightarrow> Inl Panicked
          | Some ps \<Rightarrow> Inr
              \<lparr>successors = bm_modify (predecessor e) (bs_insert (successor e)) (successors t),
               predecessors = bm_modify (successor e) (\<lambda>ps. ps @ [predecessor e]) (predecessors t)\<rparr>)"

definition known_ids :: "issue_graph \<Rightarrow> ustr list" where
  "known_ids g = bs_of_list (map issue_id (issues g))"

definition topology_of :: "issue_graph \<Rightarrow> dfs_stop + topology" where
  "topology_of g =
     (let known = known_ids g; empty = map (\<lambda>k. (k, [])) known in
      map_ok (\<lambda>t. t\<lparr>predecessors := bm_map sort (predecessors t)\<rparr>)
        (run_all (add_edge known) \<lparr>successors = empty, predecessors = empty\<rparr> (hard_edges g)))"

definition root_count :: "issue_graph \<Rightarrow> dfs_stop + nat" where
  "root_count g = map_ok (\<lambda>t. length (filter (\<lambda>ps. ps = []) (bm_values (predecessors t)))) (topology_of g)"

definition leaf_count :: "issue_graph \<Rightarrow> dfs_stop + nat" where
  "leaf_count g = map_ok (\<lambda>t. length (filter (\<lambda>ss. ss = []) (bm_values (successors t)))) (topology_of g)"

text \<open>\<open>succs.get(id).into_iter().flatten()\<close>\<close>

definition listed :: "(ustr, ustr list) bmap \<Rightarrow> ustr \<Rightarrow> ustr list" where
  "listed m x = (case bm_get m x of None \<Rightarrow> [] | Some xs \<Rightarrow> xs)"

section \<open>Peeling by indegree\<close>

text \<open>The inner loop both traversals share: each successor loses one open predecessor, and those that
  reach zero are returned in the order they do.\<close>

fun release :: "ustr list \<Rightarrow> (ustr, nat) bmap \<Rightarrow> dfs_stop + (ustr, nat) bmap \<times> ustr list" where
  "release [] deg = Inr (deg, [])"
| "release (s # ss) deg = (case bm_get deg s of
       None \<Rightarrow> Inl Panicked
     | Some d \<Rightarrow>
         if d = 0 then Inl Panicked
         else and_then (release ss (bm_modify s (\<lambda>d. d - 1) deg)) (\<lambda>(deg, zs).
           Inr (deg, if d = 1 then s # zs else zs)))"

definition degree_sum :: "(ustr, nat) bmap \<Rightarrow> nat" where
  "degree_sum deg = sum_list (map snd deg)"

lemma degree_sum_modify:
  "bm_get deg s = Some d \<Longrightarrow> 0 < d \<Longrightarrow> degree_sum (bm_modify s (\<lambda>d. d - 1) deg) < degree_sum deg"
proof (induction deg)
  case (Cons e deg)
  obtain j v where e: "e = (j, v)" by (cases e)
  have le: "degree_sum (bm_modify s (\<lambda>d. d - 1) deg) \<le> degree_sum deg" for deg
    unfolding degree_sum_def bm_modify_def by (induction deg) (auto intro: add_mono)
  show ?case
  proof (cases "j = s")
    case True
    with Cons.prems e have "v = d" by simp
    with le [of deg] True e Cons.prems(2) show ?thesis by (simp add: degree_sum_def bm_modify_def)
  next
    case False
    with Cons e show ?thesis by (simp add: degree_sum_def bm_modify_def)
  qed
qed simp

lemma release_measure:
  "release ss deg = Inr (deg', zs) \<Longrightarrow> degree_sum deg' + length zs \<le> degree_sum deg"
proof (induction ss arbitrary: deg zs)
  case (Cons s ss)
  then obtain d where d: "bm_get deg s = Some d" "0 < d" by (auto split: option.splits if_splits)
  with Cons.prems obtain ys where ys: "release ss (bm_modify s (\<lambda>d. d - 1) deg) = Inr (deg', ys)"
    "zs = (if d = 1 then s # ys else ys)" by (auto simp: result_simps)
  with Cons.IH [OF ys(1)] degree_sum_modify [OF d] show ?case by auto
qed simp

fun release_wave ::
  "(ustr, ustr list) bmap \<Rightarrow> ustr list \<Rightarrow> (ustr, nat) bmap \<Rightarrow> dfs_stop + (ustr, nat) bmap \<times> ustr list" where
  "release_wave succs [] deg = Inr (deg, [])"
| "release_wave succs (x # xs) deg =
     and_then (release (listed succs x) deg) (\<lambda>(deg, zs).
     and_then (release_wave succs xs deg) (\<lambda>(deg, ys). Inr (deg, zs @ ys)))"

lemma release_wave_measure:
  "release_wave succs xs deg = Inr (deg', zs) \<Longrightarrow> degree_sum deg' + length zs \<le> degree_sum deg"
proof (induction xs arbitrary: deg zs)
  case (Cons x xs)
  then obtain d1 z1 z2 where r: "release (listed succs x) deg = Inr (d1, z1)"
    "release_wave succs xs d1 = Inr (deg', z2)" "zs = z1 @ z2" by (auto simp: result_simps)
  from release_measure [OF r(1)] Cons.IH [OF r(2)] r(3) show ?case by simp
qed simp

text \<open>The queue of \<open>detect_cycle\<close>.\<close>

function peel ::
  "(ustr, ustr list) bmap \<Rightarrow> ustr list \<Rightarrow> (ustr, nat) bmap \<Rightarrow> dfs_stop + (ustr, nat) bmap" where
  "peel succs [] deg = Inr deg"
| "peel succs (x # queue) deg = (case release (listed succs x) deg of
       Inl e \<Rightarrow> Inl e
     | Inr (deg', zs) \<Rightarrow> peel succs (queue @ zs) deg')"
  by pat_completeness auto
termination
  by (relation "measure (\<lambda>(succs, queue, deg). degree_sum deg + length queue)")
     (auto dest: release_measure)

lemma length_bs_of_list: "length (bs_of_list xs) \<le> length xs"
  by (simp add: bs_of_list_def length_remdups_leq)

text \<open>The waves.\<close>

function wave_loop ::
  "(ustr, ustr list) bmap \<Rightarrow> ustr list \<Rightarrow> (ustr, nat) bmap \<Rightarrow> ustr list list
     \<Rightarrow> dfs_stop + ustr list list" where
  "wave_loop succs current deg waves =
     (if current = [] then Inr waves
      else case release_wave succs current deg of
        Inl e \<Rightarrow> Inl e
      | Inr (deg', next) \<Rightarrow> wave_loop succs (bs_of_list next) deg' (waves @ [current]))"
  by pat_completeness auto

termination
proof (relation "measure (\<lambda>(succs, current, deg, waves). degree_sum deg + length current)", goal_cases)
  case (2 succs current deg waves p deg' "next")
  then have "degree_sum deg' + length next \<le> degree_sum deg"
    using release_wave_measure by simp
  moreover have "length (bs_of_list next) \<le> length next" by (rule length_bs_of_list)
  ultimately show ?case using 2 by (cases current) auto
qed simp

declare wave_loop.simps [simp del]

definition indegrees :: "topology \<Rightarrow> (ustr, nat) bmap" where
  "indegrees t = bm_map length (predecessors t)"

definition zero_ids :: "(ustr, nat) bmap \<Rightarrow> ustr list" where
  "zero_ids deg = map fst (filter (\<lambda>e. snd e = 0) deg)"

section \<open>Cycle detection\<close>

text \<open>The constants \<open>VISITING\<close> and \<open>DONE\<close>; a node without a mark is \<open>UNSEEN\<close>.\<close>

datatype mark = VISITING | DONE

lemma unseen_insert:
  "s \<in> set xs \<Longrightarrow> bm_get state s = None \<Longrightarrow>
     length (filter (\<lambda>x. bm_get (bm_insert s m state) x = None) xs)
       < length (filter (\<lambda>x. bm_get state x = None) xs)"
proof (induction xs)
  case (Cons x xs)
  have "length (filter (\<lambda>x. bm_get (bm_insert s m state) x = None) xs)
      \<le> length (filter (\<lambda>x. bm_get state x = None) xs)"
    by (induction xs) (auto simp: bm_get_insert)
  with Cons show ?case by (cases "x = s") (auto simp: bm_get_insert)
qed simp

lemma unseen_insert_le:
  "length (filter (\<lambda>x. bm_get (bm_insert s m state) x = None) xs)
     \<le> length (filter (\<lambda>x. bm_get state x = None) xs)"
  by (induction xs) (auto simp: bm_get_insert)

text \<open>The loop over the residue with its explicit stack. It has no exit for an empty stack: \<open>last\<close> of
  an empty stack is the failing \<open>expect\<close>.\<close>

function search ::
  "ustr list \<Rightarrow> (ustr, ustr list) bmap \<Rightarrow> (ustr, mark) bmap \<Rightarrow> ustr list \<Rightarrow> dfs_stop + ustr list" where
  "search residual succs state stk =
     (if stk = [] then Inl Panicked
      else let top = last stk in
        case find (\<lambda>s. s \<in> set residual \<and> bm_get state s \<noteq> Some DONE) (listed succs top) of
          None \<Rightarrow> search residual succs (bm_insert top DONE state) (butlast stk)
        | Some s \<Rightarrow>
            if bm_get state s = Some VISITING
            then (case position s stk of Some i \<Rightarrow> Inr (drop i stk) | None \<Rightarrow> Inl Panicked)
            else search residual succs (bm_insert s VISITING state) (stk @ [s]))"
  by pat_completeness auto

termination
proof (relation "measure (\<lambda>(residual, succs, state, stk).
    2 * length (filter (\<lambda>x. bm_get state x = None) residual) + length stk)", goal_cases)
  case (2 residual succs state stk top)
  then show ?case
    using unseen_insert_le [of "last stk" DONE state residual] by (cases stk rule: rev_cases) auto
next
  case (3 residual succs state stk top s)
  then have s: "s \<in> set residual" "bm_get state s \<noteq> Some DONE" "bm_get state s \<noteq> Some VISITING"
    by (auto simp: find_Some_iff)
  have "bm_get state s = None"
  proof (cases "bm_get state s")
    case (Some m)
    with s show ?thesis by (cases m) auto
  qed
  from unseen_insert [OF s(1) this, of VISITING] show ?case by simp
qed simp

declare search.simps [simp del]

definition residue :: "(ustr, nat) bmap \<Rightarrow> ustr list" where
  "residue deg = map fst (filter (\<lambda>e. 0 < snd e) deg)"

definition detect_cycle :: "issue_graph \<Rightarrow> dfs_stop + ustr list option" where
  "detect_cycle g =
     and_then (topology_of g) (\<lambda>t.
     and_then (peel (successors t) (zero_ids (indegrees t)) (indegrees t)) (\<lambda>deg.
     case residue deg of
       [] \<Rightarrow> Inr None
     | start # _ \<Rightarrow> map_ok Some
         (search (residue deg) (successors t) (bm_insert start VISITING bm_empty) [start])))"

section \<open>Waves and the critical path\<close>

definition wave_error :: "ustr list \<Rightarrow> graph_error" where
  "wave_error c = \<lparr>error_kind = Cycle,
     error_spec = (case c of [] \<Rightarrow> None | x # _ \<Rightarrow> Some x), error_dependency = None, cycle = c,
     message = lit ''dependency cycle detected: '' @ join (lit '' -> '') c\<rparr>"

definition waves :: "issue_graph \<Rightarrow> dfs_stop + ustr list list" where
  "waves g =
     and_then (topology_of g) (\<lambda>t.
     and_then (wave_loop (successors t) (zero_ids (indegrees t)) (indegrees t) []) (\<lambda>ws.
     if sum_list (map length ws) \<noteq> length (issues g)
     then and_then (detect_cycle g) (\<lambda>c.
       Inl (Refused (wave_error (case c of Some c \<Rightarrow> c | None \<Rightarrow> []))))
     else Inr ws))"

text \<open>One node of the loop over the waves; the state is the distances and the longest one so far.\<close>

definition max_list :: "nat list \<Rightarrow> nat" where
  "max_list xs = foldr max xs 0"

definition distance_of :: "(ustr, nat) bmap \<Rightarrow> ustr \<Rightarrow> nat" where
  "distance_of dist p = (case bm_get dist p of Some n \<Rightarrow> n | None \<Rightarrow> 0)"

definition distance_step ::
  "(ustr, ustr list) bmap \<Rightarrow> (ustr, nat) bmap \<times> nat \<Rightarrow> ustr \<Rightarrow> dfs_stop + (ustr, nat) bmap \<times> nat" where
  "distance_step preds st x = (case bm_get preds x of
       None \<Rightarrow> Inl Panicked
     | Some ps \<Rightarrow>
         let d = max_list (map (distance_of (fst st)) ps) + 1
         in Inr (bm_insert x d (fst st), max (snd st) d))"

definition critical_path_length :: "issue_graph \<Rightarrow> dfs_stop + nat" where
  "critical_path_length g = (case waves g of
       Inl (Refused e) \<Rightarrow> Inr 0
     | Inl stop \<Rightarrow> Inl stop
     | Inr ws \<Rightarrow> and_then (topology_of g) (\<lambda>t.
         map_ok snd (run_all (distance_step (predecessors t)) (bm_empty, 0) (concat ws))))"

section \<open>The graph behind the adjacency\<close>

text \<open>What an issue depends on directly: the known predecessors of its edges.\<close>

definition edge_deps :: "issue_graph \<Rightarrow> ustr \<Rightarrow> ustr set" where
  "edge_deps g x = {p \<in> set (known_ids g). x \<in> set (known_ids g)
     \<and> (\<exists>e \<in> set (hard_edges g). predecessor e = p \<and> successor e = x)}"

interpretation issue_dag: digraph "set (known_ids g)" "edge_deps g" for g
  by unfold_locales (auto simp: edge_deps_def)

lemma known_ids_sorted: "sorted_wrt (<) (known_ids g)"
  by (simp add: known_ids_def bs_of_list_sorted)

lemma set_known_ids: "set (known_ids g) = issue_id ` set (issues g)"
  by (simp add: known_ids_def)

text \<open>The adjacency of a set of pairs of known identifiers.\<close>

definition adjacency :: "ustr list \<Rightarrow> (ustr \<times> ustr) set \<Rightarrow> topology \<Rightarrow> bool" where
  "adjacency known E t \<longleftrightarrow> map fst (successors t) = known \<and> map fst (predecessors t) = known
     \<and> (\<forall>x \<in> set known. \<exists>ss ps. bm_get (successors t) x = Some ss \<and> bm_get (predecessors t) x = Some ps
          \<and> sorted_wrt (<) ss \<and> distinct ps \<and> set ss = {s. (x, s) \<in> E} \<and> set ps = {p. (p, x) \<in> E})"

lemma adjacencyD:
  assumes "adjacency known E t" "x \<in> set known"
  obtains ss ps where "bm_get (successors t) x = Some ss" "bm_get (predecessors t) x = Some ps"
    "sorted_wrt (<) ss" "distinct ps" "set ss = {s. (x, s) \<in> E}" "set ps = {p. (p, x) \<in> E}"
  using assms unfolding adjacency_def by meson

definition pairs :: "ustr list \<Rightarrow> dependency_edge list \<Rightarrow> (ustr \<times> ustr) set" where
  "pairs known es = (\<lambda>e. (predecessor e, successor e)) ` set es \<inter> set known \<times> set known"

lemma pairs_snoc: "pairs known (es @ [e]) =
    (if predecessor e \<in> set known \<and> successor e \<in> set known
     then insert (predecessor e, successor e) (pairs known es) else pairs known es)"
  by (auto simp: pairs_def)

lemma add_pair:
  assumes adj: "adjacency known E t" and new: "(p, s) \<notin> E" and known: "p \<in> set known" "s \<in> set known"
  shows "adjacency known (insert (p, s) E)
    \<lparr>successors = bm_modify p (bs_insert s) (successors t),
     predecessors = bm_modify s (\<lambda>ps. ps @ [p]) (predecessors t)\<rparr>"
  unfolding adjacency_def
proof (intro conjI ballI)
  let ?t = "\<lparr>successors = bm_modify p (bs_insert s) (successors t),
     predecessors = bm_modify s (\<lambda>ps. ps @ [p]) (predecessors t)\<rparr>"
  fix x assume x: "x \<in> set known"
  obtain sx px where old: "bm_get (successors t) x = Some sx" "bm_get (predecessors t) x = Some px"
    "sorted_wrt (<) sx" "distinct px" "set sx = {s. (x, s) \<in> E}" "set px = {p. (p, x) \<in> E}"
    using adjacencyD [OF adj x] by metis
  let ?sx = "if x = p then bs_insert s sx else sx" and ?px = "if x = s then px @ [p] else px"
  have "bm_get (successors ?t) x = Some ?sx" "bm_get (predecessors ?t) x = Some ?px"
    using old(1,2) by (auto simp: bm_get_modify)
  moreover have "sorted_wrt (<) ?sx" "distinct ?px" using old(3,4,6) new by auto
  moreover have "set ?sx = {y. (x, y) \<in> insert (p, s) E}" "set ?px = {y. (y, x) \<in> insert (p, s) E}"
    using old(5,6) by auto
  ultimately show "\<exists>ss ps. bm_get (successors ?t) x = Some ss \<and> bm_get (predecessors ?t) x = Some ps
      \<and> sorted_wrt (<) ss \<and> distinct ps
      \<and> set ss = {y. (x, y) \<in> insert (p, s) E} \<and> set ps = {y. (y, x) \<in> insert (p, s) E}"
    by blast
qed (use adj in \<open>simp_all add: adjacency_def\<close>)

lemma add_edge_adjacency:
  assumes adj: "adjacency known (pairs known es) t"
  shows "\<exists>t'. add_edge known t e = Inr t' \<and> adjacency known (pairs known (es @ [e])) t'"
proof (cases "predecessor e \<in> set known \<and> successor e \<in> set known")
  case False
  then show ?thesis using adj by (auto simp: add_edge_def pairs_snoc)
next
  case True
  obtain ss where ss: "bm_get (successors t) (predecessor e) = Some ss"
    "set ss = {s. (predecessor e, s) \<in> pairs known es}"
    using adjacencyD [OF adj] True by metis
  obtain ps where ps: "bm_get (predecessors t) (successor e) = Some ps"
    using adjacencyD [OF adj] True by metis
  show ?thesis
  proof (cases "successor e \<in> set ss")
    case old: True
    with ss(2) have "pairs known (es @ [e]) = pairs known es" by (auto simp: pairs_snoc)
    with adj True old ss(1) show ?thesis by (simp add: add_edge_def)
  next
    case False
    with ss(2) have "(predecessor e, successor e) \<notin> pairs known es" by simp
    from add_pair [OF adj this] True False ss(1) ps show ?thesis
      by (simp add: add_edge_def pairs_snoc)
  qed
qed

lemma add_edges_adjacency:
  assumes "adjacency known {} t"
  shows "\<exists>t'. run_all (add_edge known) t es = Inr t' \<and> adjacency known (pairs known es) t'"
proof (induction es rule: rev_induct)
  case Nil
  with assms show ?case by (simp add: pairs_def)
next
  case (snoc e es)
  then obtain u where u: "run_all (add_edge known) t es = Inr u" "adjacency known (pairs known es) u" by blast
  from add_edge_adjacency [OF u(2), of e] obtain v
    where "add_edge known u e = Inr v" "adjacency known (pairs known (es @ [e])) v" by blast
  with u(1) have "run_all (add_edge known) t (es @ [e]) = Inr v" by (auto simp: run_all_snoc)
  with \<open>adjacency known (pairs known (es @ [e])) v\<close> show ?case by blast
qed

text \<open>The finished topology.\<close>

definition graph_of :: "issue_graph \<Rightarrow> topology \<Rightarrow> bool" where
  "graph_of g t \<longleftrightarrow> map fst (successors t) = known_ids g \<and> map fst (predecessors t) = known_ids g
     \<and> (\<forall>x \<in> set (known_ids g). sorted_wrt (<) (listed (successors t) x) \<and> distinct (listed (predecessors t) x)
          \<and> bm_get (predecessors t) x \<noteq> None
          \<and> set (listed (successors t) x) = {s. x \<in> edge_deps g s}
          \<and> set (listed (predecessors t) x) = edge_deps g x)"

lemma bm_get_constant: "bm_get (map (\<lambda>k. (k, c)) ks) x = (if x \<in> set ks then Some c else None)"
  by (induction ks) auto

lemma pairs_deps: "(p, x) \<in> pairs (known_ids g) (hard_edges g) \<longleftrightarrow> p \<in> edge_deps g x"
  by (auto simp: pairs_def edge_deps_def)

lemma topology_exists: "\<exists>t. topology_of g = Inr t \<and> graph_of g t"
proof -
  let ?k = "known_ids g" and ?e = "map (\<lambda>k. (k, [] :: ustr list)) (known_ids g)"
  have "adjacency ?k {} \<lparr>successors = ?e, predecessors = ?e\<rparr>"
    by (simp add: adjacency_def comp_def bm_get_constant)
  from add_edges_adjacency [OF this, of "hard_edges g"] obtain u
    where u: "run_all (add_edge ?k) \<lparr>successors = ?e, predecessors = ?e\<rparr> (hard_edges g) = Inr u"
      "adjacency ?k (pairs ?k (hard_edges g)) u" by blast
  let ?t = "u\<lparr>predecessors := bm_map sort (predecessors u)\<rparr>"
  have "graph_of g ?t"
    unfolding graph_of_def
  proof (intro conjI ballI)
    fix x assume x: "x \<in> set ?k"
    obtain ss ps where s: "bm_get (successors u) x = Some ss" "bm_get (predecessors u) x = Some ps"
      "sorted_wrt (<) ss" "distinct ps" "set ss = {s. x \<in> edge_deps g s}" "set ps = edge_deps g x"
      using adjacencyD [OF u(2) x] unfolding pairs_deps by (metis Collect_mem_eq)
    then show "sorted_wrt (<) (listed (successors ?t) x)" "distinct (listed (predecessors ?t) x)"
      "bm_get (predecessors ?t) x \<noteq> None" "set (listed (successors ?t) x) = {s. x \<in> edge_deps g s}"
      "set (listed (predecessors ?t) x) = edge_deps g x"
      by (simp_all add: listed_def bm_get_bm_map)
  qed (use u(2) in \<open>simp_all add: adjacency_def bm_map_def comp_def\<close>)
  with u(1) show ?thesis by (auto simp: topology_of_def Let_def)
qed

end
