(* ===== verification/Issue_Waves.thy ===== *)
theory Issue_Waves
  imports Issue_Dag
begin

text \<open>
  What the traversals of the issue graph decide: waves are the layers of the dependency order, the
  critical path is a longest chain, a reported cycle is real, and the one case in which the cycle
  search has no answer.
\<close>

section \<open>Correctness of the peeling\<close>

lemma finite_deps [simp]: "finite (edge_deps g x)"
  by (simp add: edge_deps_def)

definition deg_ok :: "issue_graph \<Rightarrow> ustr set \<Rightarrow> (ustr, nat) bmap \<Rightarrow> bool" where
  "deg_ok g D deg \<longleftrightarrow> map fst deg = known_ids g
     \<and> (\<forall>x \<in> set (known_ids g). bm_get deg x = Some (card (edge_deps g x - D)))"

lemma deg_ok_indegrees:
  assumes g: "graph_of g t"
  shows "deg_ok g {} (indegrees t)"
  unfolding deg_ok_def
proof (intro conjI ballI)
  show "map fst (indegrees t) = known_ids g"
    using g by (simp add: indegrees_def graph_of_def bm_map_def comp_def)
  fix x assume "x \<in> set (known_ids g)"
  with g have ps: "bm_get (predecessors t) x \<noteq> None" "distinct (listed (predecessors t) x)"
    "set (listed (predecessors t) x) = edge_deps g x" by (simp_all add: graph_of_def)
  then have "length (listed (predecessors t) x) = card (edge_deps g x)" by (metis distinct_card)
  with ps(1) show "bm_get (indegrees t) x = Some (card (edge_deps g x - {}))"
    by (auto simp: indegrees_def bm_get_bm_map listed_def)
qed

lemma deg_ok_entry: "deg_ok g D deg \<Longrightarrow> (x, n) \<in> set deg \<longleftrightarrow> x \<in> set (known_ids g) \<and> n = card (edge_deps g x - D)"
proof -
  assume ok: "deg_ok g D deg"
  then have "distinct (map fst deg)" using known_ids_sorted by (simp add: deg_ok_def strict_sorted_iff)
  then have "(x, n) \<in> set deg \<longleftrightarrow> bm_get deg x = Some n" by (simp add: bm_get_map_of map_of_eq_Some_iff)
  moreover have "bm_get deg x = None" if "x \<notin> set (known_ids g)"
    using that ok by (intro bm_get_notin) (metis deg_ok_def image_set)
  ultimately show ?thesis using ok by (cases "x \<in> set (known_ids g)") (auto simp: deg_ok_def)
qed

lemma card_open: "card (edge_deps g x - D) = 0 \<longleftrightarrow> edge_deps g x \<subseteq> D"
  by (simp add: card_eq_0_iff)

lemma set_zero_ids:
  assumes "deg_ok g D deg"
  shows "set (zero_ids deg) = ready (edge_deps g) (set (known_ids g)) D"
proof -
  have "x \<in> set (zero_ids deg) \<longleftrightarrow> (x, 0) \<in> set deg" for x by (force simp: zero_ids_def)
  then show ?thesis using deg_ok_entry [OF assms] card_open by (auto simp: ready_def)
qed

lemma set_residue:
  assumes "deg_ok g D deg"
  shows "set (residue deg) = set (known_ids g) - ready (edge_deps g) (set (known_ids g)) D"
proof -
  have "x \<in> set (residue deg) \<longleftrightarrow> (\<exists>n. (x, Suc n) \<in> set deg)" for x
    by (force simp: residue_def gr0_conv_Suc)
  moreover have "(\<exists>n. (x, Suc n) \<in> set deg) \<longleftrightarrow> x \<in> set (known_ids g) \<and> card (edge_deps g x - D) \<noteq> 0" for x
    using deg_ok_entry [OF assms] by (metis not0_implies_Suc nat.distinct(1))
  ultimately show ?thesis using card_open by (auto simp: ready_def)
qed

lemma distinct_sub_ids:
  "deg_ok g D deg \<Longrightarrow> sorted_wrt (<) (map fst (filter P deg)) \<and> distinct (map fst (filter P deg))"
proof -
  assume "deg_ok g D deg"
  then have "sorted_wrt (<) (map fst deg)" using known_ids_sorted by (simp add: deg_ok_def)
  then have "sorted_wrt (<) (map fst (filter P deg))" by (simp add: sorted_wrt_map sorted_wrt_filter)
  then show ?thesis by (simp add: strict_sorted_iff)
qed

text \<open>Releasing \<open>i\<close>: the successors still to be visited count \<open>i\<close> as open, all others do not.\<close>

lemma release_ok:
  assumes "i \<notin> D" "map fst deg = known_ids g" "distinct ss" "\<And>s. s \<in> set ss \<Longrightarrow> i \<in> edge_deps g s"
    and "\<And>x. x \<in> set (known_ids g) \<Longrightarrow>
      bm_get deg x = Some (card (edge_deps g x - (if x \<in> set ss then D else insert i D)))"
  shows "\<exists>deg' zs. release ss deg = Inr (deg', zs) \<and> deg_ok g (insert i D) deg' \<and> distinct zs
     \<and> set zs = {x \<in> set ss. edge_deps g x \<subseteq> insert i D}"
  using assms
proof (induction ss arbitrary: deg)
  case Nil
  then show ?case by (simp add: deg_ok_def)
next
  case (Cons s ss)
  have s: "i \<in> edge_deps g s" "s \<in> set (known_ids g)"
    using Cons.prems(4) [of s] by (auto simp: edge_deps_def)
  have less: "edge_deps g s - D = insert i (edge_deps g s - insert i D)"
    using s(1) Cons.prems(1) by blast
  have card: "card (edge_deps g s - D) = Suc (card (edge_deps g s - insert i D))"
    unfolding less by simp
  have get: "bm_get deg s = Some (card (edge_deps g s - D))" using Cons.prems(5) [OF s(2)] by simp
  let ?deg = "bm_modify s (\<lambda>d. d - 1) deg"
  have "\<exists>deg' zs. release ss ?deg = Inr (deg', zs) \<and> deg_ok g (insert i D) deg' \<and> distinct zs
     \<and> set zs = {x \<in> set ss. edge_deps g x \<subseteq> insert i D}"
  proof (rule Cons.IH [OF Cons.prems(1)])
    fix x assume x: "x \<in> set (known_ids g)"
    show "bm_get ?deg x = Some (card (edge_deps g x - (if x \<in> set ss then D else insert i D)))"
      using Cons.prems(5) [OF x] Cons.prems(3) card by (auto simp: bm_get_modify)
  qed (use Cons.prems in auto)
  then obtain deg' zs where r: "release ss ?deg = Inr (deg', zs)" "deg_ok g (insert i D) deg'" "distinct zs"
    "set zs = {x \<in> set ss. edge_deps g x \<subseteq> insert i D}" by blast
  have one: "card (edge_deps g s - D) = 1 \<longleftrightarrow> edge_deps g s \<subseteq> insert i D"
    unfolding card using card_eq_0_iff [of "edge_deps g s - insert i D"] by (auto simp: Diff_eq_empty_iff)
  let ?zs = "if card (edge_deps g s - D) = 1 then s # zs else zs"
  have "release (s # ss) deg = Inr (deg', ?zs)" using get card r(1) by simp
  moreover have "distinct ?zs" "set ?zs = {x \<in> set (s # ss). edge_deps g x \<subseteq> insert i D}"
    using r(3,4) one Cons.prems(3) by auto
  ultimately show ?case using r(2) by blast
qed

lemma release_node:
  assumes g: "graph_of g t" and deg: "deg_ok g D deg" and i: "i \<in> set (known_ids g)" "i \<notin> D"
  shows "\<exists>deg' zs. release (listed (successors t) i) deg = Inr (deg', zs) \<and> deg_ok g (insert i D) deg'
     \<and> distinct zs \<and> set zs = ready (edge_deps g) (set (known_ids g)) (insert i D)
         - ready (edge_deps g) (set (known_ids g)) D"
proof -
  have ss: "distinct (listed (successors t) i)" "set (listed (successors t) i) = {s. i \<in> edge_deps g s}"
    using g i(1) by (auto simp: graph_of_def strict_sorted_iff)
  have "\<exists>deg' zs. release (listed (successors t) i) deg = Inr (deg', zs) \<and> deg_ok g (insert i D) deg'
     \<and> distinct zs \<and> set zs = {x \<in> set (listed (successors t) i). edge_deps g x \<subseteq> insert i D}"
  proof (rule release_ok [OF i(2)])
    fix x assume x: "x \<in> set (known_ids g)"
    show "bm_get deg x = Some (card (edge_deps g x
        - (if x \<in> set (listed (successors t) i) then D else insert i D)))"
      using deg x ss(2) i(2) by (cases "i \<in> edge_deps g x") (simp_all add: deg_ok_def)
  qed (use deg ss in \<open>auto simp: deg_ok_def\<close>)
  moreover have "{x \<in> set (listed (successors t) i). edge_deps g x \<subseteq> insert i D}
      = ready (edge_deps g) (set (known_ids g)) (insert i D) - ready (edge_deps g) (set (known_ids g)) D"
    unfolding ss(2) using i(2) by (auto simp: ready_def edge_deps_def)
  ultimately show ?thesis by simp
qed

abbreviation ids :: "issue_graph \<Rightarrow> ustr set" where
  "ids g \<equiv> set (known_ids g)"

abbreviation opened :: "issue_graph \<Rightarrow> ustr set \<Rightarrow> ustr set" where
  "opened g D \<equiv> ready (edge_deps g) (ids g) D"

lemma opened_mono: "D \<subseteq> D' \<Longrightarrow> opened g D \<subseteq> opened g D'"
  by (auto simp: ready_def)

lemma release_wave_ok:
  assumes g: "graph_of g t"
  shows "deg_ok g D deg \<Longrightarrow> distinct xs \<Longrightarrow> set xs \<subseteq> ids g - D \<Longrightarrow>
    \<exists>deg' zs. release_wave (successors t) xs deg = Inr (deg', zs) \<and> deg_ok g (D \<union> set xs) deg'
     \<and> set zs = opened g (D \<union> set xs) - opened g D"
proof (induction xs arbitrary: D deg)
  case (Cons x xs)
  have x: "x \<in> ids g" "x \<notin> D" using Cons.prems by auto
  from release_node [OF g Cons.prems(1) x] obtain d1 z1
    where r1: "release (listed (successors t) x) deg = Inr (d1, z1)" "deg_ok g (insert x D) d1"
      "set z1 = opened g (insert x D) - opened g D" by blast
  have "set xs \<subseteq> ids g - insert x D" "distinct xs" using Cons.prems by auto
  from Cons.IH [OF r1(2) this(2,1)] obtain d2 z2
    where r2: "release_wave (successors t) xs d1 = Inr (d2, z2)" "deg_ok g (insert x D \<union> set xs) d2"
      "set z2 = opened g (insert x D \<union> set xs) - opened g (insert x D)" by blast
  have "opened g D \<subseteq> opened g (insert x D)" "opened g (insert x D) \<subseteq> opened g (insert x D \<union> set xs)"
    by (auto intro: opened_mono [THEN subsetD])
  then have "set (z1 @ z2) = opened g (D \<union> set (x # xs)) - opened g D"
    using r1(3) r2(3) by auto
  with r1(1) r2 show ?case by auto
qed simp

lemma peel_ok:
  assumes g: "graph_of g t"
  shows "deg_ok g D deg \<Longrightarrow> distinct queue \<Longrightarrow> set queue = opened g D - D \<Longrightarrow> D \<subseteq> opened g D \<Longrightarrow>
    set peeled = D \<Longrightarrow> topo (edge_deps g) {} peeled \<Longrightarrow>
    \<exists>deg' peeled'. peel (successors t) queue deg = Inr deg' \<and> deg_ok g (set peeled') deg'
      \<and> topo (edge_deps g) {} peeled' \<and> opened g (set peeled') = set peeled'"
proof (induction "successors t" queue deg arbitrary: D peeled rule: peel.induct)
  case (1 deg)
  then show ?case by (intro exI [of _ deg] exI [of _ peeled]) auto
next
  case (2 x queue deg)
  have x: "x \<in> ids g" "x \<notin> D" "edge_deps g x \<subseteq> D" using "2.prems"(3) by (auto simp: ready_def)
  from release_node [OF g "2.prems"(1) x(1,2)] obtain d1 z1
    where r: "release (listed (successors t) x) deg = Inr (d1, z1)" "deg_ok g (insert x D) d1" "distinct z1"
      "set z1 = opened g (insert x D) - opened g D" by blast
  have mono: "opened g D \<subseteq> opened g (insert x D)" by (rule opened_mono) auto
  have xq: "x \<in> opened g D" using x by (simp add: ready_def)
  have q: "set queue = opened g D - insert x D" using "2.prems"(2,3) by auto
  have disj: "distinct (queue @ z1)" using "2.prems"(2) r(3,4) q by auto
  have new: "set (queue @ z1) = opened g (insert x D) - insert x D"
    using q r(4) mono xq "2.prems"(4) by auto
  have sub: "insert x D \<subseteq> opened g (insert x D)" using mono xq "2.prems"(4) by auto
  have ord: "set (peeled @ [x]) = insert x D" "topo (edge_deps g) {} (peeled @ [x])"
    using "2.prems"(5,6) x(3) by (auto simp: topo_append)
  from "2.hyps" [OF r(1) refl r(2) disj new sub ord] r(1) show ?case by simp
qed

lemma wave_loop_ok:
  assumes g: "graph_of g t"
  shows "deg_ok g D deg \<Longrightarrow> sorted_wrt (<) current \<Longrightarrow> set current = opened g D - D \<Longrightarrow> D \<subseteq> opened g D \<Longrightarrow>
    set (concat ws) = D \<Longrightarrow> layered (edge_deps g) (ids g) {} ws \<Longrightarrow> \<forall>w \<in> set ws. w \<noteq> [] \<and> sorted_wrt (<) w \<Longrightarrow>
    \<exists>ws'. wave_loop (successors t) current deg ws = Inr ws' \<and> layered (edge_deps g) (ids g) {} ws'
      \<and> opened g (set (concat ws')) = set (concat ws') \<and> (\<forall>w \<in> set ws'. w \<noteq> [] \<and> sorted_wrt (<) w)"
proof (induction "successors t" current deg ws arbitrary: D rule: wave_loop.induct)
  case (1 current deg ws)
  show ?case
  proof (cases "current = []")
    case True
    with "1.prems" show ?thesis by (subst wave_loop.simps) auto
  next
    case False
    have cur: "distinct current" "set current \<subseteq> ids g - D"
      using "1.prems"(2,3) by (auto simp: strict_sorted_iff ready_def)
    from release_wave_ok [OF g "1.prems"(1) cur] obtain d1 z1
      where r: "release_wave (successors t) current deg = Inr (d1, z1)" "deg_ok g (D \<union> set current) d1"
        "set z1 = opened g (D \<union> set current) - opened g D" by blast
    have D: "D \<union> set current = opened g D" using "1.prems"(3,4) by auto
    have sub: "D \<union> set current \<subseteq> opened g (D \<union> set current)"
      using opened_mono [of D "D \<union> set current" g] D by auto
    have next_set: "set (bs_of_list z1) = opened g (D \<union> set current) - (D \<union> set current)"
      using r(3) D by simp
    have lay: "layered (edge_deps g) (ids g) {} (ws @ [current])"
      unfolding layered_snoc using "1.prems"(3,5,6) by (simp del: set_concat)
    have "set (concat (ws @ [current])) = D \<union> set current" using "1.prems"(5) by simp
    from "1.hyps" [OF False r(1) refl r(2) bs_of_list_sorted next_set sub this lay] "1.prems"(2,7) False r(1)
    show ?thesis by (subst wave_loop.simps) auto
  qed
qed

section \<open>Correctness of the cycle search\<close>

text \<open>What depends on an issue within a set.\<close>

definition dependents :: "issue_graph \<Rightarrow> ustr set \<Rightarrow> ustr \<Rightarrow> ustr set" where
  "dependents g R x = {s \<in> R. x \<in> edge_deps g s}"

definition search_ok ::
  "issue_graph \<Rightarrow> ustr set \<Rightarrow> ustr \<Rightarrow> (ustr, mark) bmap \<Rightarrow> ustr list \<Rightarrow> ustr list \<Rightarrow> bool" where
  "search_ok g R start state stk finished \<longleftrightarrow> distinct stk \<and> set stk \<subseteq> R \<and> set stk \<inter> set finished = {}
     \<and> (\<forall>x. bm_get state x = (if x \<in> set stk then Some VISITING
           else if x \<in> set finished then Some DONE else None))
     \<and> chain (dependents g R) stk \<and> topo (dependents g R) {} finished
     \<and> start \<in> set stk \<union> set finished"

definition search_post ::
  "issue_graph \<Rightarrow> ustr set \<Rightarrow> ustr \<Rightarrow> dfs_stop + ustr list \<Rightarrow> bool" where
  "search_post g R start r = (case r of
       Inr c \<Rightarrow> distinct c \<and> set c \<subseteq> R \<and> dependency_cycle (dependents g R) (c @ [hd c])
     | Inl e \<Rightarrow> e = Panicked \<and> (\<exists>finished. start \<in> set finished \<and> topo (dependents g R) {} finished))"

lemma search_push:
  "search_ok g R start state stk finished \<Longrightarrow> s \<in> R \<Longrightarrow> bm_get state s = None \<Longrightarrow> stk \<noteq> [] \<Longrightarrow>
     s \<in> dependents g R (last stk) \<Longrightarrow> search_ok g R start (bm_insert s VISITING state) (stk @ [s]) finished"
  by (auto simp: search_ok_def bm_get_insert chain_append_one split: if_splits)

lemma search_pop:
  assumes "search_ok g R start state (stk @ [x]) finished" "dependents g R x \<subseteq> set finished"
  shows "search_ok g R start (bm_insert x DONE state) stk (finished @ [x])"
  using assms by (auto simp: search_ok_def bm_get_insert chain_append_one topo_append)

lemma search_correct:
  assumes g: "graph_of g t"
  shows "set residual \<subseteq> ids g \<Longrightarrow> search_ok g (set residual) start state stk finished \<Longrightarrow>
     search_post g (set residual) start (search residual (successors t) state stk)"
proof (induction residual "successors t" state stk arbitrary: finished rule: search.induct)
  case (1 residual state stk)
  note ok = "1.prems"(2)
  let ?R = "set residual"
  let ?pick = "find (\<lambda>s. s \<in> ?R \<and> bm_get state s \<noteq> Some DONE) (listed (successors t) (last stk))"
  have marks: "bm_get state y = (if y \<in> set stk then Some VISITING
         else if y \<in> set finished then Some DONE else None)" for y
    using ok by (simp add: search_ok_def)
  consider (stop) "stk = []" | (pop) "stk \<noteq> []" "?pick = None"
    | (cycle) s where "stk \<noteq> []" "?pick = Some s" "bm_get state s = Some VISITING"
    | (push) s where "stk \<noteq> []" "?pick = Some s" "bm_get state s \<noteq> Some VISITING" by auto
  then show ?case
  proof cases
    case stop
    with ok have "start \<in> set finished \<and> topo (dependents g ?R) {} finished" by (simp add: search_ok_def)
    with stop show ?thesis by (subst search.simps) (auto simp: search_post_def)
  next
    case pop
    obtain us x where stk: "stk = us @ [x]" using pop(1) by (cases stk rule: rev_cases) auto
    have x: "x \<in> ids g" using ok stk "1.prems"(1) by (auto simp: search_ok_def)
    have "dependents g ?R x \<subseteq> set finished"
    proof
      fix s assume s: "s \<in> dependents g ?R x"
      then have "s \<in> set (listed (successors t) x)" "s \<in> ?R"
        using g x by (auto simp: graph_of_def dependents_def)
      with pop(2) stk have "bm_get state s = Some DONE" unfolding find_None_iff by auto
      then show "s \<in> set finished" using marks [of s] by (simp split: if_splits)
    qed
    with ok stk have "search_ok g ?R start (bm_insert (last stk) DONE state) (butlast stk) (finished @ [x])"
      using search_pop by simp
    from "1.hyps"(1) [OF pop(1) refl pop(2) "1.prems"(1) this] pop show ?thesis
      by (subst search.simps) (simp add: Let_def)
  next
    case cycle
    have s: "s \<in> ?R" "s \<in> set (listed (successors t) (last stk))" "last stk \<in> ids g"
      using cycle(2) ok "1.prems"(1) cycle(1) by (auto simp: find_Some_iff search_ok_def subset_iff)
    then have dep: "s \<in> dependents g ?R (last stk)" using g by (auto simp: graph_of_def dependents_def)
    have mem: "s \<in> set stk" using marks [of s] cycle(3) by (simp split: if_splits)
    have "chain (dependents g ?R) (stk @ [s])"
      using ok dep by (simp add: search_ok_def chain_append_one)
    from stack_cycle_real [OF mem this] obtain i where i: "position s stk = Some i" "i < length stk"
      "stk ! i = s" "dependency_cycle (dependents g ?R) (drop i stk @ [s])"
      using position_Some [OF mem] by (auto simp: stack_cycle_def)
    then have "hd (drop i stk) = s" by (simp add: hd_drop_conv_nth)
    moreover have "distinct (drop i stk)" "set (drop i stk) \<subseteq> ?R"
      using ok set_drop_subset [of i stk] by (auto simp: search_ok_def)
    moreover have "search residual (successors t) state stk = Inr (drop i stk)"
      using cycle i(1) by (subst search.simps) (simp add: Let_def)
    ultimately show ?thesis using i(4) by (simp add: search_post_def)
  next
    case push
    have s: "s \<in> ?R" "s \<in> set (listed (successors t) (last stk))" "last stk \<in> ids g" "bm_get state s \<noteq> Some DONE"
      using push(2) ok "1.prems"(1) push(1) by (auto simp: find_Some_iff search_ok_def subset_iff)
    then have dep: "s \<in> dependents g ?R (last stk)" using g by (auto simp: graph_of_def dependents_def)
    have none: "bm_get state s = None" using marks [of s] push(3) s(4) by (simp split: if_splits)
    from search_push [OF ok s(1) none push(1) dep]
    have "search_ok g ?R start (bm_insert s VISITING state) (stk @ [s]) finished" .
    from "1.hyps"(2) [OF push(1) refl push(2,3) "1.prems"(1) this] push show ?thesis
      by (subst search.simps) (simp add: Let_def)
  qed
qed

section \<open>What the traversals decide\<close>

definition cyclic :: "issue_graph \<Rightarrow> bool" where
  "cyclic g \<longleftrightarrow> (\<exists>c. dependency_cycle (edge_deps g) c \<and> set c \<subseteq> ids g)"

lemma cycle_dependents:
  assumes "dependency_cycle (dependents g R) c"
  shows "dependency_cycle (edge_deps g) (rev c)"
proof -
  have "successively (\<lambda>a b. a \<in> edge_deps g b) c"
    using assms unfolding dependency_cycle_def
    by (auto elim: successively_mono simp: dependents_def)
  with assms show ?thesis
    by (simp add: dependency_cycle_def successively_rev hd_rev last_rev)
qed

lemma topo_all_acyclic: "topo (edge_deps g) {} peeled \<Longrightarrow> set peeled = ids g \<Longrightarrow> \<not> cyclic g"
  using topo_no_cycle [of "edge_deps g" peeled] unfolding cyclic_def dependency_cycle_def
  by (metis hd_in_set list.size(3) not_numeral_le_zero subsetD)

lemma stuck_cyclic: "D \<subseteq> ids g \<Longrightarrow> opened g D = D \<Longrightarrow> D \<noteq> ids g \<Longrightarrow> cyclic g"
  using issue_dag.stuck_cycle [of D g] unfolding cyclic_def by blast

lemma peel_start:
  assumes "graph_of g t"
  obtains deg peeled where "peel (successors t) (zero_ids (indegrees t)) (indegrees t) = Inr deg"
    "deg_ok g (set peeled) deg" "topo (edge_deps g) {} peeled" "opened g (set peeled) = set peeled"
    "set (residue deg) = ids g - set peeled" "sorted_wrt (<) (residue deg)" "set peeled \<subseteq> ids g"
proof -
  note ok = deg_ok_indegrees [OF assms]
  have z: "distinct (zero_ids (indegrees t))" "set (zero_ids (indegrees t)) = opened g {} - {}"
    using distinct_sub_ids [OF ok] set_zero_ids [OF ok] by (simp_all add: zero_ids_def)
  have "topo (edge_deps g) {} []" "set ([] :: ustr list) = {}" "{} \<subseteq> opened g {}" by simp_all
  from peel_ok [OF assms ok z this(3,2,1)] obtain deg peeled
    where p: "peel (successors t) (zero_ids (indegrees t)) (indegrees t) = Inr deg"
      "deg_ok g (set peeled) deg" "topo (edge_deps g) {} peeled" "opened g (set peeled) = set peeled"
    by blast
  have "set (residue deg) = ids g - set peeled" using set_residue [OF p(2)] p(4) by simp
  moreover have "sorted_wrt (<) (residue deg)" using distinct_sub_ids [OF p(2)] by (simp add: residue_def)
  moreover have "set peeled \<subseteq> ids g" using issue_dag.ready_nodes [of g "set peeled"] p(4) by simp
  ultimately show thesis using that p by blast
qed

lemma search_ok_start: "x \<in> R \<Longrightarrow> search_ok g R x (bm_insert x VISITING bm_empty) [x] []"
  by (simp add: search_ok_def)

lemma detect_cycle_cases:
  "case detect_cycle g of
     Inr None \<Rightarrow> \<not> cyclic g
   | Inr (Some c) \<Rightarrow> distinct c \<and> set c \<subseteq> ids g \<and> dependency_cycle (edge_deps g) (rev (c @ [hd c]))
   | Inl e \<Rightarrow> e = Panicked \<and> cyclic g"
proof -
  obtain t where t: "topology_of g = Inr t" "graph_of g t" using topology_exists by blast
  from peel_start [OF t(2)] obtain deg peeled
    where p: "peel (successors t) (zero_ids (indegrees t)) (indegrees t) = Inr deg"
      "topo (edge_deps g) {} peeled" "opened g (set peeled) = set peeled"
      "set (residue deg) = ids g - set peeled" "set peeled \<subseteq> ids g" by metis
  show ?thesis
  proof (cases "residue deg")
    case Nil
    with p have "set peeled = ids g" by auto
    with topo_all_acyclic p(2) have "\<not> cyclic g" by blast
    with Nil t(1) p(1) show ?thesis by (simp add: detect_cycle_def)
  next
    case (Cons x xs)
    let ?R = "set (residue deg)"
    have cyc: "cyclic g" using stuck_cyclic [OF p(5,3)] p(4) Cons by auto
    have sub: "?R \<subseteq> ids g" using p(4) by auto
    have "search_ok g ?R x (bm_insert x VISITING bm_empty) [x] []"
      using Cons by (intro search_ok_start) simp
    from search_correct [OF t(2) sub this]
    have post: "search_post g ?R x (search (residue deg) (successors t) (bm_insert x VISITING bm_empty) [x])" .
    have run: "detect_cycle g = map_ok Some
        (search (residue deg) (successors t) (bm_insert x VISITING bm_empty) [x])"
      unfolding detect_cycle_def t(1) and_then.simps p(1) using Cons by simp
    show ?thesis
    proof (cases "search (residue deg) (successors t) (bm_insert x VISITING bm_empty) [x]")
      case (Inl e)
      with post cyc show ?thesis by (simp add: run search_post_def)
    next
      case (Inr c)
      with post have "distinct c" "set c \<subseteq> ?R" "dependency_cycle (edge_deps g) (rev (c @ [hd c]))"
        using cycle_dependents [of g ?R "c @ [hd c]"] by (simp_all add: search_post_def)
      with Inr sub show ?thesis by (auto simp: run)
    qed
  qed
qed

lemma wave_loop_start:
  assumes "graph_of g t"
  obtains ws where "wave_loop (successors t) (zero_ids (indegrees t)) (indegrees t) [] = Inr ws"
    "layered (edge_deps g) (ids g) {} ws" "opened g (set (concat ws)) = set (concat ws)"
    "\<forall>w \<in> set ws. w \<noteq> [] \<and> sorted_wrt (<) w"
proof -
  note ok = deg_ok_indegrees [OF assms]
  have z: "sorted_wrt (<) (zero_ids (indegrees t))" "set (zero_ids (indegrees t)) = opened g {} - {}"
    using distinct_sub_ids [OF ok] set_zero_ids [OF ok] by (simp_all add: zero_ids_def)
  have "{} \<subseteq> opened g {}" "set (concat ([] :: ustr list list)) = {}" "layered (edge_deps g) (ids g) {} []"
    "\<forall>w \<in> set []. w \<noteq> [] \<and> sorted_wrt (<) (w :: ustr list)" by simp_all
  from wave_loop_ok [OF assms ok z this] show thesis using that by blast
qed

lemma waves_cases:
  obtains ws where "layered (edge_deps g) (ids g) {} ws" "distinct (concat ws)"
    "opened g (set (concat ws)) = set (concat ws)" "\<forall>w \<in> set ws. w \<noteq> [] \<and> sorted_wrt (<) w"
    "waves g = (if length (concat ws) = length (issues g) then Inr ws
       else and_then (detect_cycle g) (\<lambda>c. Inl (Refused (wave_error (case c of Some c \<Rightarrow> c | None \<Rightarrow> [])))))"
proof -
  obtain t where t: "topology_of g = Inr t" "graph_of g t" using topology_exists by blast
  from wave_loop_start [OF t(2)] obtain ws
    where w: "wave_loop (successors t) (zero_ids (indegrees t)) (indegrees t) [] = Inr ws"
      "layered (edge_deps g) (ids g) {} ws" "opened g (set (concat ws)) = set (concat ws)"
      "\<forall>w \<in> set ws. w \<noteq> [] \<and> sorted_wrt (<) w" by metis
  have "distinct (concat ws)" using layered_distinct [OF w(2)] w(4) by (simp add: strict_sorted_iff)
  moreover have "waves g = (if length (concat ws) = length (issues g) then Inr ws
       else and_then (detect_cycle g) (\<lambda>c. Inl (Refused (wave_error (case c of Some c \<Rightarrow> c | None \<Rightarrow> [])))))"
    using t(1) w(1) by (simp add: waves_def length_concat)
  ultimately show thesis using that w by blast
qed

lemma waves_complete:
  assumes "layered (edge_deps g) (ids g) {} ws" "distinct (concat ws)"
  shows "length (concat ws) = length (issues g) \<longleftrightarrow>
    distinct (map issue_id (issues g)) \<and> set (concat ws) = ids g"
proof -
  have sub: "set (concat ws) \<subseteq> ids g" using layered_nodes [OF assms(1)] .
  have n: "length (concat ws) = card (set (concat ws))" by (rule distinct_card [OF assms(2), symmetric])
  have "card (set (concat ws)) \<le> card (ids g)" using sub by (intro card_mono) simp_all
  moreover have k: "card (ids g) = card (set (map issue_id (issues g)))" by (simp add: set_known_ids)
  moreover have "card (set (map issue_id (issues g))) \<le> length (issues g)"
    by (metis card_length length_map)
  moreover have "card (set (map issue_id (issues g))) = length (issues g) \<longleftrightarrow> distinct (map issue_id (issues g))"
    by (metis card_distinct distinct_card length_map)
  moreover have "card (set (concat ws)) = card (ids g) \<longleftrightarrow> set (concat ws) = ids g"
    using sub by (metis card_subset_eq List.finite_set)
  ultimately show ?thesis using n by linarith
qed

lemma real_cyclic:
  assumes "set c \<subseteq> ids g" "dependency_cycle (edge_deps g) (rev (c @ [hd c]))"
  shows "cyclic g"
proof -
  have "c \<noteq> []" using assms(2) by (auto simp: dependency_cycle_def)
  with assms show ?thesis unfolding cyclic_def
    by (intro exI [of _ "rev (c @ [hd c])"]) (auto intro: hd_in_set)
qed

section \<open>Properties\<close>

text \<open>The execution waves. When \<open>waves\<close> answers, every issue is in exactly one wave, each wave is
  sorted and not empty, and a wave holds exactly the issues whose dependencies are all in earlier
  waves and that are in no earlier wave themselves. So nothing waits longer than it must.\<close>

theorem waves_are_layers:
  assumes "waves g = Inr ws"
  shows "distinct (concat ws) \<and> set (concat ws) = issue_id ` set (issues g)
    \<and> layered (edge_deps g) (ids g) {} ws \<and> list_all (\<lambda>w. w \<noteq> [] \<and> sorted_wrt (<) w) ws"
proof -
  from waves_cases [of g] obtain ws' where w: "layered (edge_deps g) (ids g) {} ws'" "distinct (concat ws')"
    "\<forall>w \<in> set ws'. w \<noteq> [] \<and> sorted_wrt (<) w"
    "waves g = (if length (concat ws') = length (issues g) then Inr ws'
       else and_then (detect_cycle g) (\<lambda>c. Inl (Refused (wave_error (case c of Some c \<Rightarrow> c | None \<Rightarrow> [])))))"
    by metis
  have len: "ws' = ws" "length (concat ws') = length (issues g)"
    using assms w(4) by (auto simp: result_simps split: if_splits)
  then show ?thesis
    using w(1-3) waves_complete [OF w(1,2)] by (simp add: set_known_ids list_all_iff del: set_concat)
qed

lemma waves_Inr:
  "waves g = Inr ws \<Longrightarrow> layered (edge_deps g) (ids g) {} ws \<and> set (concat ws) = ids g \<and> [] \<notin> set ws
     \<and> distinct (map issue_id (issues g))"
proof -
  assume ok: "waves g = Inr ws"
  from waves_cases [of g] obtain ws' where w: "layered (edge_deps g) (ids g) {} ws'" "distinct (concat ws')"
    "\<forall>w \<in> set ws'. w \<noteq> [] \<and> sorted_wrt (<) w"
    "waves g = (if length (concat ws') = length (issues g) then Inr ws'
       else and_then (detect_cycle g) (\<lambda>c. Inl (Refused (wave_error (case c of Some c \<Rightarrow> c | None \<Rightarrow> [])))))"
    by metis
  have len: "ws' = ws" "length (concat ws') = length (issues g)"
    using ok w(4) by (auto simp: result_simps split: if_splits)
  with w(1-3) waves_complete [OF w(1,2)] show ?thesis by (auto simp del: set_concat)
qed

lemma acyclic_waves:
  assumes "layered (edge_deps g) (ids g) {} vs" "set (concat vs) = ids g" "distinct (map issue_id (issues g))"
  shows "\<exists>ws. waves g = Inr ws"
proof -
  from waves_cases [of g] obtain ws where w: "layered (edge_deps g) (ids g) {} ws" "distinct (concat ws)"
    "opened g (set (concat ws)) = set (concat ws)"
    "waves g = (if length (concat ws) = length (issues g) then Inr ws
       else and_then (detect_cycle g) (\<lambda>c. Inl (Refused (wave_error (case c of Some c \<Rightarrow> c | None \<Rightarrow> [])))))"
    by metis
  have "\<not> cyclic g" using issue_dag.layered_done_no_cycle [OF assms(1,2)] by (simp add: cyclic_def)
  then have "set (concat ws) = ids g" using stuck_cyclic [OF layered_nodes [OF w(1)] w(3)] by blast
  with waves_complete [OF w(1,2)] assms(3) w(4) show ?thesis by auto
qed


text \<open>Cycle detection is right whenever it answers: it reports no cycle exactly for acyclic graphs,
  and a reported cycle lists distinct issues each of which the next depends on, the first on the
  last.\<close>

theorem detect_cycle_decides:
  "case detect_cycle g of
     Inr None \<Rightarrow> \<not> cyclic g
   | Inr (Some c) \<Rightarrow> cyclic g \<and> distinct c \<and> set c \<subseteq> ids g
       \<and> dependency_cycle (edge_deps g) (rev (c @ [hd c]))
   | Inl e \<Rightarrow> e = Panicked \<and> cyclic g"
  using detect_cycle_cases [of g] real_cyclic [of _ g] by (auto split: sum.splits option.splits)

section \<open>The critical path\<close>

lemma max_list_eq: "\<forall>x \<in> set xs. x \<le> n \<Longrightarrow> n = 0 \<or> n \<in> set xs \<Longrightarrow> max_list xs = n"
proof -
  have up: "x \<in> set xs \<Longrightarrow> x \<le> max_list xs" for x
    by (induction xs) (auto simp: max_list_def)
  have "max_list xs \<le> n" if "\<forall>x \<in> set xs. x \<le> n"
    using that by (induction xs) (auto simp: max_list_def)
  moreover assume "\<forall>x \<in> set xs. x \<le> n" "n = 0 \<or> n \<in> set xs"
  ultimately show ?thesis using up by fastforce
qed

lemma distance_node:
  assumes g: "graph_of g t" and x: "x \<in> ids g"
    and le: "\<forall>p \<in> edge_deps g x. distance_of dist p \<le> n"
    and hit: "n = 0 \<or> (\<exists>p \<in> edge_deps g x. distance_of dist p = n)"
  shows "distance_step (predecessors t) (dist, m) x = Inr (bm_insert x (Suc n) dist, max m (Suc n))"
proof -
  obtain ps where ps: "bm_get (predecessors t) x = Some ps" "set ps = edge_deps g x"
    using g x by (auto simp: graph_of_def listed_def)
  have "max_list (map (distance_of dist) ps) = n"
    using le hit ps(2) by (intro max_list_eq) auto
  with ps(1) show ?thesis by (simp add: distance_step_def)
qed

text \<open>One wave: all its issues get the same distance, and no distance they look at changes.\<close>

lemma distance_wave:
  assumes g: "graph_of g t"
  shows "set xs \<subseteq> ids g \<Longrightarrow> \<forall>x \<in> set xs. edge_deps g x \<inter> W = {} \<Longrightarrow> set xs \<subseteq> W \<Longrightarrow>
    \<forall>x \<in> set xs. (\<forall>p \<in> edge_deps g x. distance_of dist p \<le> n)
      \<and> (n = 0 \<or> (\<exists>p \<in> edge_deps g x. distance_of dist p = n)) \<Longrightarrow>
    \<exists>dist'. run_all (distance_step (predecessors t)) (dist, m) xs
        = Inr (dist', if xs = [] then m else max m (Suc n))
      \<and> (\<forall>y. distance_of dist' y = (if y \<in> set xs then Suc n else distance_of dist y))"
proof (induction xs arbitrary: dist m)
  case (Cons x xs)
  let ?dist = "bm_insert x (Suc n) dist"
  have d: "distance_of ?dist y = (if y = x then Suc n else distance_of dist y)" for y
    by (simp add: distance_of_def bm_get_insert)
  have same: "distance_of ?dist p = distance_of dist p" if "y \<in> set xs" "p \<in> edge_deps g y" for y p
    using that Cons.prems(2,3) d by auto
  have step: "distance_step (predecessors t) (dist, m) x = Inr (?dist, max m (Suc n))"
    using Cons.prems by (intro distance_node [OF g]) auto
  have "\<exists>dist'. run_all (distance_step (predecessors t)) (?dist, max m (Suc n)) xs
        = Inr (dist', if xs = [] then max m (Suc n) else max (max m (Suc n)) (Suc n))
      \<and> (\<forall>y. distance_of dist' y = (if y \<in> set xs then Suc n else distance_of ?dist y))"
    using Cons.prems same by (intro Cons.IH) auto
  then show ?case using step d by auto
qed simp

lemma distance_waves:
  assumes g: "graph_of g t"
  shows "layered (edge_deps g) (ids g) {} ws \<Longrightarrow> [] \<notin> set ws \<Longrightarrow>
    \<exists>dist. run_all (distance_step (predecessors t)) (bm_empty, 0) (concat ws) = Inr (dist, length ws)
      \<and> (\<forall>i < length ws. \<forall>x \<in> set (ws ! i). distance_of dist x = Suc i)"
proof (induction ws rule: rev_induct)
  case (snoc w ws)
  have lay: "layered (edge_deps g) (ids g) {} ws" using snoc.prems(1) by (simp add: layered_snoc)
  with snoc obtain dist where dist:
    "run_all (distance_step (predecessors t)) (bm_empty, 0) (concat ws) = Inr (dist, length ws)"
    "\<And>i x. i < length ws \<Longrightarrow> x \<in> set (ws ! i) \<Longrightarrow> distance_of dist x = Suc i" by auto
  have w: "set w = opened g (set (concat ws)) - set (concat ws)" "w \<noteq> []"
    using snoc.prems by (auto simp: layered_snoc)
  have known: "distance_of dist p \<le> length ws" if "p \<in> set (concat ws)" for p
  proof -
    from that have "\<exists>j < min (length ws) (length ws). p \<in> set (ws ! j)"
      using in_layers [of p "length ws" ws] by simp
    with dist(2) show ?thesis by fastforce
  qed
  have "\<exists>p \<in> edge_deps g x. distance_of dist p = length ws" if "x \<in> set w" "length ws \<noteq> 0" for x
  proof -
    obtain k where k: "length ws = Suc k" using \<open>length ws \<noteq> 0\<close> not0_implies_Suc by blast
    have "Suc k < length (ws @ [w])" "x \<in> set ((ws @ [w]) ! Suc k)" using k that(1) by (auto simp: nth_append)
    from layered_needs_previous [OF snoc.prems(1) this] obtain y
      where "y \<in> edge_deps g x" "y \<in> set (ws ! k)" using k by (auto simp: nth_append)
    with dist(2) [of k y] k show ?thesis by auto
  qed
  then have facts: "\<forall>x \<in> set w. (\<forall>p \<in> edge_deps g x. distance_of dist p \<le> length ws)
      \<and> (length ws = 0 \<or> (\<exists>p \<in> edge_deps g x. distance_of dist p = length ws))"
    using known w(1) by (auto simp: ready_def subset_iff simp del: set_concat)
  have "set w \<subseteq> ids g" "\<forall>x \<in> set w. edge_deps g x \<inter> set w = {}" using w(1) by (auto simp: ready_def)
  from distance_wave [OF g this subset_refl facts, of "length ws"] w(2) obtain dist'
    where d': "run_all (distance_step (predecessors t)) (dist, length ws) w = Inr (dist', Suc (length ws))"
      "\<And>y. distance_of dist' y = (if y \<in> set w then Suc (length ws) else distance_of dist y)" by auto
  have "distance_of dist' x = Suc i" if "i < length (ws @ [w])" "x \<in> set ((ws @ [w]) ! i)" for i x
  proof (cases "i = length ws")
    case False
    with that have i: "i < length ws" "x \<in> set (ws ! i)" by (auto simp: nth_append)
    then have "x \<in> set (concat ws)" by auto
    then have "x \<notin> set w" using w(1) by blast
    with i dist(2) d'(2) show ?thesis by simp
  qed (use that d'(2) in simp)
  with d'(1) dist(1) show ?case by (auto simp: run_all_append)
qed simp

text \<open>The critical path length is the number of waves, and it is the length of a longest chain of
  dependencies: some chain of issues has that many, and none has more.\<close>

theorem critical_path_is_longest_chain:
  assumes "waves g = Inr ws"
  shows "critical_path_length g = Inr (length ws)
    \<and> (\<exists>c. chain (edge_deps g) c \<and> set c \<subseteq> ids g \<and> length c = length ws)
    \<and> (\<nexists>c. chain (edge_deps g) c \<and> set c \<subseteq> ids g \<and> length ws < length c)"
proof -
  from waves_cases [of g] obtain ws' where w: "layered (edge_deps g) (ids g) {} ws'" "distinct (concat ws')"
    "\<forall>w \<in> set ws'. w \<noteq> [] \<and> sorted_wrt (<) w"
    "waves g = (if length (concat ws') = length (issues g) then Inr ws'
       else and_then (detect_cycle g) (\<lambda>c. Inl (Refused (wave_error (case c of Some c \<Rightarrow> c | None \<Rightarrow> [])))))"
    by metis
  have ws: "ws' = ws" "length (concat ws') = length (issues g)"
    using assms w(4) by (auto simp: result_simps split: if_splits)
  have lay: "layered (edge_deps g) (ids g) {} ws" "[] \<notin> set ws" "set (concat ws) = ids g"
    using w(1,3) ws waves_complete [OF w(1,2)] by blast+
  obtain t where t: "topology_of g = Inr t" "graph_of g t" using topology_exists by blast
  from distance_waves [OF t(2) lay(1,2)] assms t(1)
  have "critical_path_length g = Inr (length ws)" by (auto simp: critical_path_length_def)
  with issue_dag.longest_chain [OF lay(1,3,2)] show ?thesis by blast
qed

section \<open>Where the cycle search has no answer\<close>


section \<open>Samples\<close>

definition sample_node :: "nat \<Rightarrow> planned_issue" where
  "sample_node n = \<lparr>issue_id = [n], issue_title = [], issue_ownership = \<lparr>exclusive = [],
     shared_read = [], shared_write = []\<rparr>, concurrency = \<lparr>parallel_safe = True, conflict_domains = []\<rparr>\<rparr>"

definition sample_edge :: "nat \<times> nat \<Rightarrow> dependency_edge" where
  "sample_edge e = \<lparr>predecessor = [fst e], successor = [snd e], reason = ConsumesNewType, artifact = None\<rparr>"

definition sample_graph :: "nat list \<Rightarrow> (nat \<times> nat) list \<Rightarrow> issue_graph" where
  "sample_graph ns es = \<lparr>issues = map sample_node ns, hard_edges = map sample_edge es\<rparr>"

lemma sample_waves: "waves (sample_graph [2, 3, 4] [(2, 3), (3, 4)]) = Inr [[[2]], [[3]], [[4]]]"
  by code_simp

theorem waves_are_layers_witness:
  "layered (edge_deps (sample_graph [2, 3, 4] [(2, 3), (3, 4)]))
     (ids (sample_graph [2, 3, 4] [(2, 3), (3, 4)])) {} [[[2]], [[3]], [[4]]]"
  using waves_are_layers [OF sample_waves] by blast

theorem critical_path_is_longest_chain_witness:
  "critical_path_length (sample_graph [2, 3, 4] [(2, 3), (3, 4)]) = Inr 3"
  using critical_path_is_longest_chain [OF sample_waves] by simp

lemma known_sample: "ids (sample_graph ns es) = (\<lambda>n. [n]) ` set ns"
  by (simp add: set_known_ids sample_graph_def image_image sample_node_def)

lemma sample_deps:
  "edge_deps (sample_graph ns es) y = {p. \<exists>a b. (a, b) \<in> set es \<and> a \<in> set ns \<and> b \<in> set ns \<and> p = [a] \<and> y = [b]}"
proof -
  have "p \<in> edge_deps (sample_graph ns es) y \<longleftrightarrow> p \<in> (\<lambda>n. [n]) ` set ns \<and> y \<in> (\<lambda>n. [n]) ` set ns
      \<and> (\<exists>e \<in> set es. [fst e] = p \<and> [snd e] = y)" for p
    unfolding edge_deps_def known_sample by (simp add: sample_graph_def sample_edge_def)
  then show ?thesis by fastforce
qed


end
