(* ===== verification/Issue_Metrics.thy ===== *)
theory Issue_Metrics
  imports Issue_Waves
begin

text \<open>
  The counts over an issue graph (\<open>graph/metrics.rs\<close>) and the comparison of two graphs with its retry
  policy (\<open>graph/optimization.rs\<close>).
\<close>

section \<open>Counts and the comparison of two graphs\<close>

text \<open>The integer fields of \<open>GraphMetrics\<close>; the saturations, the ratios and the score are floating point
  numbers and are left out. Counts of list elements are natural numbers.\<close>

record graph_metrics =
  issue_count :: nat
  hard_edge_count :: nat
  metric_roots :: nat
  metric_leaves :: nat
  initial_width :: nat
  maximum_width :: nat
  metric_critical_path :: nat
  shared_write_hotspots :: nat
  hard_edges_with_artifact :: nat

definition count_shared_write_hotspots :: "issue_graph \<Rightarrow> nat" where
  "count_shared_write_hotspots g =
     (let declared = fold (\<lambda>(p, i) m. bm_insert p (bs_insert i (case bm_get m p of Some s \<Rightarrow> s | None \<Rightarrow> [])) m)
        (concat (map (\<lambda>i. map (\<lambda>s. (normalize_path (path s), issue_id i))
           (shared_write (issue_ownership i))) (issues g))) bm_empty
      in length (filter (\<lambda>s. 2 \<le> length s) (bm_values declared)))"

definition metrics :: "issue_graph \<Rightarrow> dfs_stop + graph_metrics" where
  "metrics g =
     and_then (case waves g of Inl (Refused e) \<Rightarrow> Inr [] | r \<Rightarrow> r) (\<lambda>ws.
     and_then (root_count g) (\<lambda>roots.
     and_then (leaf_count g) (\<lambda>leaves.
     and_then (critical_path_length g) (\<lambda>longest.
     Inr \<lparr>issue_count = length (issues g), hard_edge_count = length (hard_edges g),
          metric_roots = roots, metric_leaves = leaves,
          initial_width = (case ws of [] \<Rightarrow> 0 | w # _ \<Rightarrow> length w),
          maximum_width = max_list (map length ws), metric_critical_path = longest,
          shared_write_hotspots = count_shared_write_hotspots g,
          hard_edges_with_artifact = length (filter (\<lambda>e. artifact e \<noteq> None) (hard_edges g))\<rparr>))))"

record retry_policy =
  threshold :: "8 word"
  max_passes :: "8 word"

definition DEFAULT_THRESHOLD :: "8 word" where "DEFAULT_THRESHOLD = 65"

definition DEFAULT_MAX_PASSES :: "8 word" where "DEFAULT_MAX_PASSES = 1"

definition default_retry_policy :: retry_policy where
  "default_retry_policy = \<lparr>threshold = DEFAULT_THRESHOLD, max_passes = DEFAULT_MAX_PASSES\<rparr>"

definition with_max_passes :: "8 word \<Rightarrow> retry_policy" where
  "with_max_passes n = \<lparr>threshold = DEFAULT_THRESHOLD, max_passes = n\<rparr>"

definition should_retry :: "8 word \<Rightarrow> retry_policy \<Rightarrow> 8 word \<Rightarrow> bool" where
  "should_retry score policy passes \<longleftrightarrow> score < threshold policy \<and> passes < max_passes policy"

record optimization_summary =
  removed :: nat
  added :: nat
  split_issues :: nat
  merged :: nat
  edge_count_delta :: int
  rejected :: bool

text \<open>Counts of a vector stay below \<open>2 ^ 63\<close>, so the conversion to \<open>i64\<close> is exact.\<close>

definition compare_metrics :: "graph_metrics \<Rightarrow> graph_metrics \<Rightarrow> optimization_summary" where
  "compare_metrics before after =
     \<lparr>removed = hard_edge_count before - hard_edge_count after,
      added = hard_edge_count after - hard_edge_count before,
      split_issues = issue_count after - issue_count before,
      merged = issue_count before - issue_count after,
      edge_count_delta = int (hard_edge_count after) - int (hard_edge_count before),
      rejected = (metric_critical_path before < metric_critical_path after)\<rparr>"

lemma compare_balances:
  "edge_count_delta (compare_metrics b a) = int (added (compare_metrics b a)) - int (removed (compare_metrics b a))"
  by (simp add: compare_metrics_def)

text \<open>For a graph with a cycle the metrics are those of an empty plan: the widths and the critical
  path are zero however much of the graph could be resolved before the cycle (or the computation
  panics). So a change that closes a cycle never counts as a longer critical path: the comparison
  accepts it.\<close>

theorem cyclic_metrics_collapse:
  assumes "cyclic g" "metrics g = Inr m"
  shows "initial_width m = 0 \<and> maximum_width m = 0 \<and> metric_critical_path m = 0
    \<and> \<not> rejected (compare_metrics before m)"
proof -
  obtain e where "waves g = Inl (Refused e)"
  proof (cases "waves g")
    case (Inl stop)
    with assms(2) that show ?thesis by (cases stop) (simp_all add: metrics_def)
  next
    case (Inr ws)
    from waves_cases [of g] obtain ws' where w: "layered (edge_deps g) (ids g) {} ws'" "distinct (concat ws')"
      "waves g = (if length (concat ws') = length (issues g) then Inr ws'
         else and_then (detect_cycle g) (\<lambda>c. Inl (Refused (wave_error (case c of Some c \<Rightarrow> c | None \<Rightarrow> [])))))"
      by metis
    have "length (concat ws') = length (issues g)"
      using Inr w(3) by (auto simp: result_simps split: if_splits)
    then have "set (concat ws') = ids g" using waves_complete [OF w(1,2)] by blast
    with issue_dag.layered_done_no_cycle [OF w(1)] assms(1) show ?thesis unfolding cyclic_def by blast
  qed
  with assms(2) show ?thesis
    by (auto simp: metrics_def critical_path_length_def result_simps max_list_def compare_metrics_def)
qed

theorem cyclic_metrics_collapse_witness:
  "\<exists>m. metrics (sample_graph [2, 3, 4] [(2, 3), (3, 4), (4, 3)]) = Inr m \<and> initial_width m = 0"
proof -
  let ?g = "sample_graph [2, 3, 4] [(2, 3), (3, 4), (4, 3)]"
  have "is_ok (metrics ?g)" by code_simp
  then obtain m where m: "metrics ?g = Inr m" by (auto simp: is_ok_iff)
  have "cyclic ?g" unfolding cyclic_def
    by (intro exI [of _ "[[4], [3], [4]]"]) (simp add: dependency_cycle_def known_sample sample_deps)
  from cyclic_metrics_collapse [OF this m] m show ?thesis by blast
qed

end
