(* ===== verification/Initiative_Ids.thy ===== *)
theory Initiative_Ids
  imports Ordered_Map
begin

text \<open>
  The identifiers of an initiative (\<open>initiative/ids.rs\<close>) and of a repository
  (\<open>initiative/repository.rs\<close>). Each is parsed once; its text is kept, and the order of identifiers
  is the derived one, text first.
\<close>

section \<open>Sequence identifiers\<close>

datatype sequence_id = SequenceId (id_text: ustr) (id_sequence: u32)

instantiation sequence_id :: linorder
begin

definition less_eq_sequence_id :: "sequence_id \<Rightarrow> sequence_id \<Rightarrow> bool" where
  "less_eq_sequence_id a b \<longleftrightarrow> id_text a < id_text b \<or> (id_text a = id_text b \<and> id_sequence a \<le> id_sequence b)"

definition less_sequence_id :: "sequence_id \<Rightarrow> sequence_id \<Rightarrow> bool" where
  "less_sequence_id a b \<longleftrightarrow> id_text a < id_text b \<or> (id_text a = id_text b \<and> id_sequence a < id_sequence b)"

instance
  by standard
     (auto simp: less_eq_sequence_id_def less_sequence_id_def intro: sequence_id.expand)

end

text \<open>The seven identifier types the macro \<open>sequence_id!\<close> makes.\<close>

datatype id_kind = TaskKindId | RequirementKindId | CriterionKindId | PlanKindId | GraphKindId
  | AttemptKindId | EvidenceKindId

fun id_prefix :: "id_kind \<Rightarrow> string" where
  "id_prefix TaskKindId = ''TASK-''"
| "id_prefix RequirementKindId = ''REQ-''"
| "id_prefix CriterionKindId = ''AC-''"
| "id_prefix PlanKindId = ''PLAN-ARCH-''"
| "id_prefix GraphKindId = ''DAG-''"
| "id_prefix AttemptKindId = ''ATTEMPT-''"
| "id_prefix EvidenceKindId = ''EV-''"

fun id_label :: "id_kind \<Rightarrow> string" where
  "id_label TaskKindId = ''a task id''"
| "id_label RequirementKindId = ''a requirement id''"
| "id_label CriterionKindId = ''an acceptance criterion id''"
| "id_label PlanKindId = ''an architecture plan id''"
| "id_label GraphKindId = ''a task graph id''"
| "id_label AttemptKindId = ''an attempt id''"
| "id_label EvidenceKindId = ''an evidence id''"

definition parse_sequence :: "string \<Rightarrow> ustr \<Rightarrow> ustr \<Rightarrow> ustr + u32" where
  "parse_sequence label raw body =
     (if body = [] \<or> \<not> list_all is_ascii_digit body
      then Inl (lit label @ lit '' must end in a decimal sequence: '' @ raw)
      else if digits_value body < 2 ^ 32 then Inr (of_nat (digits_value body))
      else Inl (lit label @ lit '' sequence is out of range: '' @ raw))"

definition parse_id :: "id_kind \<Rightarrow> ustr \<Rightarrow> ustr + sequence_id" where
  "parse_id k raw = (case strip_prefix (lit (id_prefix k)) raw of
       None \<Rightarrow> Inl (lit (id_label k) @ lit '' must start with `'' @ lit (id_prefix k) @ lit ''`: '' @ raw)
     | Some body \<Rightarrow> map_ok (SequenceId raw) (parse_sequence (id_label k) raw body))"

definition from_sequence :: "id_kind \<Rightarrow> u32 \<Rightarrow> nat \<Rightarrow> sequence_id" where
  "from_sequence k n width = SequenceId (lit (id_prefix k) @ pad_nat width (unat n)) n"

section \<open>Initiatives and task plans\<close>

record initiative_id =
  initiative_text :: ustr
  initiative_year :: u32
  initiative_sequence :: u32

text \<open>\<open>year.len()\<close> counts bytes; a year with a character of several bytes is refused either way, since
  only ASCII digits pass \<open>parse_sequence\<close>.\<close>

definition parse_initiative_id :: "ustr \<Rightarrow> ustr + initiative_id" where
  "parse_initiative_id raw = (case strip_prefix (lit ''INIT-'') raw of
       None \<Rightarrow> Inl (lit ''an initiative id must start with `INIT-`: '' @ raw)
     | Some body \<Rightarrow> (case split_once_str (lit ''-'') body of
         None \<Rightarrow> Inl (lit ''an initiative id must be INIT-<year>-<sequence>: '' @ raw)
       | Some (year, seqn) \<Rightarrow>
           if length year \<noteq> 4 then Inl (lit ''an initiative id needs a four digit year: '' @ raw)
           else and_then (parse_sequence ''an initiative id'' raw year) (\<lambda>y.
                and_then (parse_sequence ''an initiative id'' raw seqn) (\<lambda>n.
                Inr \<lparr>initiative_text = raw, initiative_year = y, initiative_sequence = n\<rparr>))))"

definition short_id :: "initiative_id \<Rightarrow> ustr" where
  "short_id i = lit ''INIT-'' @ pad_nat 4 (unat (initiative_sequence i))"

record task_plan_id =
  plan_text :: ustr
  plan_id_version :: u32

definition new_task_plan_id :: "sequence_id \<Rightarrow> u32 \<Rightarrow> task_plan_id" where
  "new_task_plan_id t v = \<lparr>plan_text = lit ''TASKPLAN-'' @ pad_nat 4 (unat (id_sequence t)) @ lit ''-v''
     @ show_nat (unat v), plan_id_version = v\<rparr>"

definition parse_task_plan_id :: "ustr \<Rightarrow> ustr + task_plan_id" where
  "parse_task_plan_id raw = (case strip_prefix (lit ''TASKPLAN-'') raw of
       None \<Rightarrow> Inl (lit ''a task plan id must start with `TASKPLAN-`: '' @ raw)
     | Some body \<Rightarrow> (case split_once_str (lit ''-v'') body of
         None \<Rightarrow> Inl (lit ''a task plan id must be TASKPLAN-<task>-v<version>: '' @ raw)
       | Some (t, v) \<Rightarrow>
           and_then (parse_sequence ''a task plan id'' raw t) (\<lambda>_.
           and_then (parse_sequence ''a task plan id'' raw v) (\<lambda>v.
           if v = 0 then Inl (lit ''a task plan version starts at 1: '' @ raw)
           else Inr \<lparr>plan_text = raw, plan_id_version = v\<rparr>))))"

section \<open>Repositories\<close>

text \<open>The offsets \<open>host_end\<close> and \<open>owner_end\<close> are kept in characters; they are only ever used to cut the text
  at the two slashes.\<close>

datatype repository_id = RepositoryId (repository_text: ustr) (host_end: nat) (owner_end: nat)

instantiation repository_id :: linorder
begin

definition less_eq_repository_id :: "repository_id \<Rightarrow> repository_id \<Rightarrow> bool" where
  "less_eq_repository_id a b \<longleftrightarrow> repository_text a < repository_text b
     \<or> (repository_text a = repository_text b \<and> (host_end a < host_end b
        \<or> (host_end a = host_end b \<and> owner_end a \<le> owner_end b)))"

definition less_repository_id :: "repository_id \<Rightarrow> repository_id \<Rightarrow> bool" where
  "less_repository_id a b \<longleftrightarrow> repository_text a < repository_text b
     \<or> (repository_text a = repository_text b \<and> (host_end a < host_end b
        \<or> (host_end a = host_end b \<and> owner_end a < owner_end b)))"

instance
  by standard
     (auto simp: less_eq_repository_id_def less_repository_id_def intro: repository_id.expand)

end

definition trim_slashes :: "ustr \<Rightarrow> ustr" where
  "trim_slashes s = rev (dropWhile (\<lambda>c. c = 47) (rev s))"

text \<open>The loop over the segments, with the two complaints in the order of the code.\<close>

fun check_segments :: "ustr \<Rightarrow> ustr list \<Rightarrow> ustr + unit" where
  "check_segments raw [] = Inr ()"
| "check_segments raw (s # ss) =
     (if s = [] then Inl (lit ''a repository id has an empty segment: '' @ raw)
      else if list_ex is_whitespace s then Inl (lit ''a repository id may not contain whitespace: '' @ raw)
      else check_segments raw ss)"

definition parse_repository_id :: "ustr \<Rightarrow> ustr + repository_id" where
  "parse_repository_id value =
     (let raw = trim_slashes value; segments = split_char 47 raw in
      if length segments \<noteq> 3 then Inl (lit ''a repository id must be host/owner/repository: '' @ raw)
      else and_then (check_segments raw segments) (\<lambda>_.
        Inr (RepositoryId raw (length (segments ! 0)) (length (segments ! 0) + 1 + length (segments ! 1)))))"

definition host :: "repository_id \<Rightarrow> ustr" where
  "host r = take (host_end r) (repository_text r)"

definition owner :: "repository_id \<Rightarrow> ustr" where
  "owner r = drop (host_end r + 1) (take (owner_end r) (repository_text r))"

definition repository_name :: "repository_id \<Rightarrow> ustr" where
  "repository_name r = drop (owner_end r + 1) (repository_text r)"

definition credential_scope :: "repository_id \<Rightarrow> ustr" where
  "credential_scope r = host r @ lit ''/'' @ owner r"

section \<open>Round trips\<close>

lemma parse_sequence_pad: "parse_sequence label raw (pad_nat w (unat n)) = Inr n"
proof -
  have "unat n < 2 ^ 32" using unsigned_less [of n] by simp
  then show ?thesis
    using pad_nat_digits [of w "unat n"] by (simp add: parse_sequence_def list_all_iff)
qed

lemma id_reads_back: "parse_id k (id_text (from_sequence k n w)) = Inr (from_sequence k n w)"
  by (simp add: parse_id_def from_sequence_def parse_sequence_pad)

lemma parse_id_text: "parse_id k raw = Inr i \<Longrightarrow> id_text i = raw \<and> (\<exists>ds. raw = lit (id_prefix k) @ ds
    \<and> ds \<noteq> [] \<and> list_all is_ascii_digit ds \<and> unat (id_sequence i) = digits_value ds)"
  by (auto simp: parse_id_def parse_sequence_def map_ok_Inr strip_prefix_Some unat_of_nat take_bit_eq_mod
      split: option.splits if_splits)

lemma digit_not_dash: "list_all is_ascii_digit s \<Longrightarrow> 45 \<notin> set s"
  by (auto simp: list_all_iff is_ascii_digit_def)

lemma split_once_str_first:
  "c \<notin> set s \<Longrightarrow> split_once_str (c # sep) (s @ c # sep @ t) = Some (s, t)"
proof (induction s)
  case Nil
  then show ?case using strip_prefix_append [of "c # sep" t] by simp
next
  case (Cons x s)
  then show ?case by (auto simp: strip_prefix_def)
qed

lemma initiative_short_of_parse:
  "parse_initiative_id (lit ''INIT-'' @ pad_nat 4 y @ lit ''-'' @ pad_nat w n)
     = Inr \<lparr>initiative_text = lit ''INIT-'' @ pad_nat 4 y @ lit ''-'' @ pad_nat w n,
            initiative_year = of_nat y, initiative_sequence = of_nat n\<rparr>"
  if "y < 10000" "n < 2 ^ 32" "length (pad_nat 4 y) = 4"
proof -
  have dash: "lit ''-'' = 45 # []" by (simp add: lit_def of_char_def)
  have "45 \<notin> set (pad_nat 4 y)" using pad_nat_digits [of 4 y] by (auto simp: is_ascii_digit_def)
  from split_once_str_first [OF this, of "[]" "pad_nat w n"]
  have "split_once_str (lit ''-'') (pad_nat 4 y @ lit ''-'' @ pad_nat w n) = Some (pad_nat 4 y, pad_nat w n)"
    by (simp add: dash)
  with that show ?thesis
    using pad_nat_digits [of 4 y] pad_nat_digits [of w n]
    by (simp add: parse_initiative_id_def parse_sequence_def list_all_iff)
qed

lemma task_plan_reads_back:
  assumes "v \<noteq> 0"
  shows "parse_task_plan_id (plan_text (new_task_plan_id t v)) = Inr (new_task_plan_id t v)"
proof -
  have sep: "lit ''-v'' = 45 # [118]" by (simp add: lit_def of_char_def)
  have "45 \<notin> set (pad_nat 4 (unat (id_sequence t)))"
    using pad_nat_digits [of 4 "unat (id_sequence t)"] by (auto simp: is_ascii_digit_def)
  from split_once_str_first [OF this, of "[118]" "show_nat (unat v)"]
  have s: "split_once_str (lit ''-v'') (pad_nat 4 (unat (id_sequence t)) @ lit ''-v'' @ show_nat (unat v))
      = Some (pad_nat 4 (unat (id_sequence t)), show_nat (unat v))" by (simp add: sep)
  have v: "parse_sequence l raw (show_nat (unat v)) = Inr v" for l raw
    using parse_sequence_pad [of l raw 0 v] by (simp add: pad_nat_def)
  show ?thesis
    using assms by (simp add: parse_task_plan_id_def new_task_plan_id_def s v parse_sequence_pad)
qed

lemma check_segments_ok:
  "check_segments raw ss = Inr u \<longleftrightarrow> (\<forall>s \<in> set ss. s \<noteq> [] \<and> list_all (\<lambda>c. \<not> is_whitespace c) s)"
  by (induction ss) (auto simp: list_all_iff list_ex_iff)

lemma trim_slashes_id: "s = [] \<or> last s \<noteq> 47 \<Longrightarrow> trim_slashes s = s"
  by (cases s rule: rev_cases) (auto simp: trim_slashes_def)

lemma repository_parts:
  assumes "parse_repository_id value = Inr r"
  shows "repository_text r = host r @ [47] @ owner r @ [47] @ repository_name r
    \<and> list_all (\<lambda>p. p \<noteq> [] \<and> 47 \<notin> set p \<and> list_all (\<lambda>c. \<not> is_whitespace c) p)
        [host r, owner r, repository_name r]
    \<and> parse_repository_id (repository_text r) = Inr r"
proof -
  let ?raw = "trim_slashes value"
  from assms obtain u where s: "length (split_char 47 ?raw) = 3"
    "check_segments ?raw (split_char 47 ?raw) = Inr u"
    "r = RepositoryId ?raw (length (split_char 47 ?raw ! 0))
       (length (split_char 47 ?raw ! 0) + 1 + length (split_char 47 ?raw ! 1))"
    by (auto simp: parse_repository_id_def Let_def result_simps split: if_splits)
  obtain a b c where abc: "split_char 47 ?raw = [a, b, c]"
    using s(1) by (auto simp: length_Suc_conv numeral_3_eq_3)
  have ok: "\<forall>s \<in> set [a, b, c]. s \<noteq> [] \<and> list_all (\<lambda>c. \<not> is_whitespace c) s"
    using s(2) unfolding abc check_segments_ok .
  have free: "47 \<notin> set a" "47 \<notin> set b" "47 \<notin> set c"
    using split_char_free [of _ 47 ?raw] by (simp_all add: abc)
  have raw: "?raw = a @ [47] @ b @ [47] @ c" using join_split [of 47 ?raw] by (simp add: abc)
  have r: "r = RepositoryId ?raw (length a) (length a + 1 + length b)" using s(3) by (simp add: abc)
  have parts: "host r = a" "owner r = b" "repository_name r = c"
    unfolding host_def owner_def repository_name_def r by (simp_all add: raw)
  have last: "last ?raw \<noteq> 47" unfolding raw using ok free(3) by (simp add: last_append) (metis last_in_set)
  then have "trim_slashes ?raw = ?raw" by (intro trim_slashes_id) simp
  then have "parse_repository_id ?raw = parse_repository_id value" by (simp add: parse_repository_id_def)
  with ok free raw parts assms show ?thesis by (simp add: r)
qed

text \<open>Identifiers are read back from their text. The text of an identifier made from a sequence number
  parses to that identifier whatever the width, and a parsed repository identifier splits into
  host, owner and name without slashes or blanks and parses to itself.\<close>

theorem identifiers_read_back:
  "parse_id k (id_text (from_sequence k n w)) = Inr (from_sequence k n w)
   \<and> (case parse_repository_id value of
        Inl _ \<Rightarrow> True
      | Inr r \<Rightarrow> repository_text r = host r @ [47] @ owner r @ [47] @ repository_name r
          \<and> list_all (\<lambda>p. p \<noteq> [] \<and> 47 \<notin> set p \<and> list_all (\<lambda>c. \<not> is_whitespace c) p)
              [host r, owner r, repository_name r]
          \<and> parse_repository_id (repository_text r) = Inr r)"
proof (cases "parse_repository_id value")
  case (Inr r)
  show ?thesis unfolding Inr sum.case using id_reads_back repository_parts [OF Inr] by blast
qed (simp add: id_reads_back)

end
