(* ===== verification/Workspace.thy ===== *)
theory Workspace
  imports Initiative_Ids
begin

text \<open>
  Repositories of an initiative and what they grant (\<open>initiative/repository.rs\<close>), and the normalised
  definition with its requirements (\<open>initiative/definition.rs\<close>).
\<close>

section \<open>Capabilities\<close>

datatype capability = Read | Issues | Branches | Push | PullRequests | Workflows | ProjectMutation
  | Administration

text \<open>The derived order is the order of declaration.\<close>

fun capability_rank :: "capability \<Rightarrow> nat" where
  "capability_rank Read = 0"
| "capability_rank Issues = 1"
| "capability_rank Branches = 2"
| "capability_rank Push = 3"
| "capability_rank PullRequests = 4"
| "capability_rank Workflows = 5"
| "capability_rank ProjectMutation = 6"
| "capability_rank Administration = 7"

lemma capability_rank_inject [simp]: "capability_rank a = capability_rank b \<longleftrightarrow> a = b"
  by (cases a; cases b) simp_all

instantiation capability :: linorder
begin

definition less_eq_capability :: "capability \<Rightarrow> capability \<Rightarrow> bool" where
  "less_eq_capability a b \<longleftrightarrow> capability_rank a \<le> capability_rank b"

definition less_capability :: "capability \<Rightarrow> capability \<Rightarrow> bool" where
  "less_capability a b \<longleftrightarrow> capability_rank a < capability_rank b"

instance
  by standard (auto simp: less_eq_capability_def less_capability_def)

end

fun capability_text :: "capability \<Rightarrow> string" where
  "capability_text Read = ''read''"
| "capability_text Issues = ''issues''"
| "capability_text Branches = ''branches''"
| "capability_text Push = ''push''"
| "capability_text PullRequests = ''pull_requests''"
| "capability_text Workflows = ''workflows''"
| "capability_text ProjectMutation = ''project_mutation''"
| "capability_text Administration = ''administration''"

definition parse_capability :: "ustr \<Rightarrow> ustr + capability" where
  "parse_capability value =
     (if value = lit ''read'' then Inr Read else if value = lit ''issues'' then Inr Issues
      else if value = lit ''branches'' then Inr Branches else if value = lit ''push'' then Inr Push
      else if value = lit ''pull_requests'' then Inr PullRequests
      else if value = lit ''workflows'' then Inr Workflows
      else if value = lit ''project_mutation'' then Inr ProjectMutation
      else if value = lit ''administration'' then Inr Administration
      else Inl (lit ''unknown repository capability: '' @ value))"

lemma capability_reads_back: "parse_capability (lit (capability_text c)) = Inr c"
  by (cases c) (simp_all add: parse_capability_def)

definition write_set :: "capability list" where
  "write_set = [Read, Branches, Push, PullRequests]"

section \<open>Repository records\<close>

definition SECRET_MARKERS :: "string list" where
  "SECRET_MARKERS = [''ghp_'', ''gho_'', ''ghs_'', ''ghu_'', ''github_pat_'', ''-----BEGIN'', ''AKIA'',
     ''sk-'', ''xoxb-'']"

definition reject_secret_material :: "ustr \<Rightarrow> ustr \<Rightarrow> ustr + unit" where
  "reject_secret_material field value =
     ensure (\<not> list_ex (\<lambda>m. contains_str (lit m) value) SECRET_MARKERS)
       (field @ lit '' looks like secret material; store a credential reference instead'')"

record repository_record =
  record_id :: repository_id
  revision :: "ustr option"
  default_branch :: "ustr option"
  credential_reference :: "ustr option"
  capabilities :: "capability list"
  languages :: "ustr list"
  build_systems :: "ustr list"
  validation_commands :: "ustr list"

definition read_only :: "repository_id \<Rightarrow> repository_record" where
  "read_only i = \<lparr>record_id = i, revision = None, default_branch = None, credential_reference = None,
     capabilities = [Read], languages = [], build_systems = [], validation_commands = []\<rparr>"

definition grants :: "repository_record \<Rightarrow> capability \<Rightarrow> bool" where
  "grants r c \<longleftrightarrow> c \<in> set (capabilities r)"

definition missing :: "repository_record \<Rightarrow> capability list \<Rightarrow> capability list" where
  "missing r required = filter (\<lambda>c. \<not> grants r c) required"

definition is_read_only :: "repository_record \<Rightarrow> bool" where
  "is_read_only r \<longleftrightarrow> \<not> grants r Push"

definition validate_record :: "repository_record \<Rightarrow> ustr + unit" where
  "validate_record r =
     and_then (case credential_reference r of
         None \<Rightarrow> Inr ()
       | Some reference \<Rightarrow> reject_secret_material (repository_text (record_id r) @ lit '' credential_reference'') reference)
     (\<lambda>_. if \<not> grants r Read
          then Inl (repository_text (record_id r) @ lit '' participates without read capability'')
          else if grants r Push \<and> \<not> grants r Branches
          then Inl (repository_text (record_id r) @ lit '' grants push without branch creation'')
          else Inr ())"

section \<open>Workspaces\<close>

type_synonym workspace = "(repository_id, repository_record) bmap"

definition insert_record :: "repository_record \<Rightarrow> workspace \<Rightarrow> workspace" where
  "insert_record r w = bm_insert (record_id r) r w"

definition get_record :: "workspace \<Rightarrow> repository_id \<Rightarrow> repository_record option" where
  "get_record w i = bm_get w i"

definition contains_record :: "workspace \<Rightarrow> repository_id \<Rightarrow> bool" where
  "contains_record w i \<longleftrightarrow> bm_get w i \<noteq> None"

definition owner_scopes :: "workspace \<Rightarrow> ustr list" where
  "owner_scopes w = bs_of_list (map credential_scope (bm_keys w))"

definition is_multi_organization :: "workspace \<Rightarrow> bool" where
  "is_multi_organization w \<longleftrightarrow> 1 < length (owner_scopes w)"

definition revision_snapshot :: "workspace \<Rightarrow> (repository_id, ustr) bmap" where
  "revision_snapshot w = bm_of_list (List.map_filter (\<lambda>(i, r). map_option (Pair i) (revision r)) w)"

definition drift_of :: "(repository_id, ustr) bmap \<Rightarrow> repository_id \<times> repository_record
    \<Rightarrow> (repository_id \<times> ustr \<times> ustr) option" where
  "drift_of observed e = (case revision (snd e) of
       None \<Rightarrow> None
     | Some planned \<Rightarrow> (case bm_get observed (fst e) of
         None \<Rightarrow> None
       | Some current \<Rightarrow> if planned \<noteq> current then Some (fst e, planned, current) else None))"

definition drifted_since :: "workspace \<Rightarrow> (repository_id, ustr) bmap \<Rightarrow> (repository_id \<times> ustr \<times> ustr) list" where
  "drifted_since w observed = List.map_filter (drift_of observed) w"

text \<open>Each entry contributes a misfiled record and the first complaint about the record.\<close>

definition entry_problems :: "repository_id \<times> repository_record \<Rightarrow> ustr list" where
  "entry_problems e =
     (if record_id (snd e) \<noteq> fst e
      then [lit ''repository record '' @ repository_text (record_id (snd e)) @ lit '' is filed under ''
              @ repository_text (fst e)] else [])
     @ (case validate_record (snd e) of Inl p \<Rightarrow> [p] | Inr _ \<Rightarrow> [])"

definition validate_workspace :: "workspace \<Rightarrow> ustr list + unit" where
  "validate_workspace w = no_problems (concat (map entry_problems w))"

lemma entry_fine: "entry_problems e = [] \<longleftrightarrow> record_id (snd e) = fst e \<and> validate_record (snd e) = Inr ()"
  by (auto simp: entry_problems_def split: sum.splits)

lemma validate_workspace_Inr:
  "validate_workspace w = Inr u \<longleftrightarrow> (\<forall>e \<in> set w. record_id (snd e) = fst e \<and> validate_record (snd e) = Inr ())"
  by (simp add: validate_workspace_def entry_fine)

text \<open>Keys of a map determine its entries, so a drift names every repository at most once.\<close>

lemma drift_of_Some:
  "drift_of observed e = Some (i, planned, current) \<longleftrightarrow>
     fst e = i \<and> revision (snd e) = Some planned \<and> bm_get observed i = Some current \<and> planned \<noteq> current"
  by (cases "revision (snd e)"; cases "bm_get observed (fst e)") (auto simp: drift_of_def)

lemma drifted_since_iff:
  assumes "bm_ok w"
  shows "(i, planned, current) \<in> set (drifted_since w observed) \<longleftrightarrow>
    (\<exists>r. bm_get w i = Some r \<and> revision r = Some planned) \<and> bm_get observed i = Some current \<and> planned \<noteq> current"
  unfolding drifted_since_def set_map_filter drift_of_Some btm.get_iff_entry [OF assms] by force

section \<open>Definitions\<close>

record provenance =
  source_section :: ustr
  anchor :: "ustr option"
  line_span :: "(nat \<times> nat) option"

definition section_provenance :: "ustr \<Rightarrow> provenance" where
  "section_provenance s = \<lparr>source_section = s, anchor = None, line_span = None\<rparr>"

datatype requirement_kind = Functional | Constraint | Invariant | NonGoal

fun requirement_kind_text :: "requirement_kind \<Rightarrow> string" where
  "requirement_kind_text Functional = ''functional''"
| "requirement_kind_text Constraint = ''constraint''"
| "requirement_kind_text Invariant = ''invariant''"
| "requirement_kind_text NonGoal = ''non_goal''"

fun is_actionable :: "requirement_kind \<Rightarrow> bool" where
  "is_actionable NonGoal = False"
| "is_actionable _ = True"

record acceptance_criterion =
  criterion_id :: sequence_id
  criterion_statement :: ustr
  objectively_verifiable :: bool
  criterion_provenance :: provenance

record requirement =
  requirement_id :: sequence_id
  statement :: ustr
  requirement_kind :: requirement_kind
  acceptance :: "acceptance_criterion list"
  requirement_provenance :: provenance
  candidate_repositories :: "repository_id list"
  open_questions :: "ustr list"

definition has_verifiable_criterion :: "requirement \<Rightarrow> bool" where
  "has_verifiable_criterion r \<longleftrightarrow> list_ex objectively_verifiable (acceptance r)"

definition is_plannable :: "requirement \<Rightarrow> bool" where
  "is_plannable r \<longleftrightarrow> is_actionable (requirement_kind r) \<and> has_verifiable_criterion r \<and> open_questions r = []"

datatype definition_gap =
    NoAcceptanceCriteria sequence_id
  | NoObjectiveCriterion sequence_id
  | OpenQuestion sequence_id ustr

fun gap_requirement :: "definition_gap \<Rightarrow> sequence_id" where
  "gap_requirement (NoAcceptanceCriteria i) = i"
| "gap_requirement (NoObjectiveCriterion i) = i"
| "gap_requirement (OpenQuestion i _) = i"

record initiative_definition =
  initiative :: initiative_id
  definition_version :: u32
  spec_digest :: ustr
  requirements :: "requirement list"
  ambiguities :: "ustr list"

definition new_definition :: "initiative_id \<Rightarrow> u32 \<Rightarrow> ustr \<Rightarrow> initiative_definition" where
  "new_definition i v d = \<lparr>initiative = i, definition_version = v, spec_digest = d, requirements = [],
     ambiguities = []\<rparr>"

definition find_requirement :: "initiative_definition \<Rightarrow> sequence_id \<Rightarrow> requirement option" where
  "find_requirement d i = find (\<lambda>r. requirement_id r = i) (requirements d)"

definition requirement_ids :: "initiative_definition \<Rightarrow> sequence_id list" where
  "requirement_ids d = bs_of_list (map requirement_id (requirements d))"

definition actionable_requirements :: "initiative_definition \<Rightarrow> requirement list" where
  "actionable_requirements d = filter (\<lambda>r. is_actionable (requirement_kind r)) (requirements d)"

definition non_goals :: "initiative_definition \<Rightarrow> requirement list" where
  "non_goals d = filter (\<lambda>r. requirement_kind r = NonGoal) (requirements d)"

definition requirement_gaps :: "requirement \<Rightarrow> definition_gap list" where
  "requirement_gaps r =
     (if acceptance r = [] then [NoAcceptanceCriteria (requirement_id r)]
      else if \<not> has_verifiable_criterion r then [NoObjectiveCriterion (requirement_id r)] else [])
     @ map (OpenQuestion (requirement_id r)) (open_questions r)"

definition gaps :: "initiative_definition \<Rightarrow> definition_gap list" where
  "gaps d = concat (map requirement_gaps (actionable_requirements d))"

definition definition_repositories :: "initiative_definition \<Rightarrow> repository_id list" where
  "definition_repositories d = bs_of_list (concat (map candidate_repositories (requirements d)))"

text \<open>The loop of \<open>validate\<close> carries the identifiers seen so far.\<close>

fun criterion_problems :: "sequence_id list \<Rightarrow> acceptance_criterion list \<Rightarrow> ustr list \<times> sequence_id list" where
  "criterion_problems seen [] = ([], seen)"
| "criterion_problems seen (c # cs) =
     (let (ps, seen') = criterion_problems (criterion_id c # seen) cs in
      ((if criterion_id c \<in> set seen
        then [lit ''duplicate acceptance criterion id '' @ id_text (criterion_id c)] else []) @ ps, seen'))"

fun requirement_problems ::
  "sequence_id list \<Rightarrow> sequence_id list \<Rightarrow> requirement list \<Rightarrow> ustr list" where
  "requirement_problems seen criteria [] = []"
| "requirement_problems seen criteria (r # rs) =
     (let (ps, criteria') = criterion_problems criteria (acceptance r) in
      (if requirement_id r \<in> set seen then [lit ''duplicate requirement id '' @ id_text (requirement_id r)] else [])
      @ (if blank (statement r) then [id_text (requirement_id r) @ lit '' has an empty statement''] else [])
      @ (if requirement_kind r = NonGoal \<and> acceptance r \<noteq> []
         then [id_text (requirement_id r) @ lit '' is a non-goal and may not carry acceptance criteria''] else [])
      @ ps @ requirement_problems (requirement_id r # seen) criteria' rs)"

definition validate_definition :: "initiative_definition \<Rightarrow> ustr list + unit" where
  "validate_definition d =
     no_problems ((if definition_version d = 0 then [lit ''definition versions start at 1''] else [])
        @ (if blank (spec_digest d)
           then [lit ''a definition must record the specification digest it normalized''] else [])
        @ requirement_problems [] [] (requirements d))"

record definition_change =
  added_requirements :: "sequence_id list"
  removed_requirements :: "sequence_id list"
  modified_requirements :: "sequence_id list"

definition requirements_by_id :: "initiative_definition \<Rightarrow> (sequence_id, requirement) bmap" where
  "requirements_by_id d = bm_of_list (map (\<lambda>r. (requirement_id r, r)) (requirements d))"

definition differs :: "requirement \<Rightarrow> requirement \<Rightarrow> bool" where
  "differs old new \<longleftrightarrow> statement old \<noteq> statement new \<or> requirement_kind old \<noteq> requirement_kind new
     \<or> acceptance old \<noteq> acceptance new"

definition change_between :: "initiative_definition \<Rightarrow> initiative_definition \<Rightarrow> definition_change" where
  "change_between previous next =
     (let old = requirements_by_id previous; new = requirements_by_id next in
      \<lparr>added_requirements = map fst (filter (\<lambda>e. bm_get old (fst e) = None) new),
       removed_requirements = filter (\<lambda>i. bm_get new i = None) (bm_keys old),
       modified_requirements = map fst (filter (\<lambda>e. case bm_get old (fst e) of
          None \<Rightarrow> False | Some before \<Rightarrow> differs before (snd e)) new)\<rparr>)"

definition change_is_empty :: "definition_change \<Rightarrow> bool" where
  "change_is_empty c \<longleftrightarrow> added_requirements c = [] \<and> removed_requirements c = [] \<and> modified_requirements c = []"

section \<open>What validation and comparison decide\<close>

lemma criterion_problems_seen:
  "snd (criterion_problems seen cs) = rev (map criterion_id cs) @ seen"
  by (induction cs arbitrary: seen) (simp_all add: case_prod_beta)

lemma criterion_problems_none: "fst (criterion_problems seen cs) = [] \<longleftrightarrow> fresh seen (map criterion_id cs)"
  by (induction cs arbitrary: seen) (simp_all add: case_prod_beta)

lemma requirement_problems_none:
  "requirement_problems seen criteria rs = [] \<longleftrightarrow>
     fresh seen (map requirement_id rs) \<and> fresh criteria (map criterion_id (concat (map acceptance rs)))
     \<and> (\<forall>r \<in> set rs. \<not> blank (statement r) \<and> (requirement_kind r = NonGoal \<longrightarrow> acceptance r = []))"
proof (induction rs arbitrary: seen criteria)
  case (Cons r rs)
  have "requirement_problems seen criteria (r # rs) = [] \<longleftrightarrow>
      requirement_id r \<notin> set seen \<and> \<not> blank (statement r) \<and> (requirement_kind r = NonGoal \<longrightarrow> acceptance r = [])
      \<and> fst (criterion_problems criteria (acceptance r)) = []
      \<and> requirement_problems (requirement_id r # seen) (snd (criterion_problems criteria (acceptance r))) rs = []"
    by (simp add: case_prod_beta)
  then show ?case
    unfolding criterion_problems_none criterion_problems_seen Cons.IH by (simp add: rev_map) blast
qed simp

text \<open>A definition is valid exactly when its version is positive, it records a digest, requirement and
  criterion identifiers are distinct over the whole document, no statement is blank, and no non-goal
  carries criteria.\<close>

theorem definition_valid_iff:
  "validate_definition d = Inr () \<longleftrightarrow>
     definition_version d \<noteq> 0 \<and> \<not> blank (spec_digest d)
     \<and> distinct (map requirement_id (requirements d))
     \<and> distinct (map criterion_id (concat (map acceptance (requirements d))))
     \<and> list_all (\<lambda>r. \<not> blank (statement r) \<and> (requirement_kind r \<noteq> NonGoal \<or> acceptance r = [])) (requirements d)"
proof -
  have "validate_definition d = Inr () \<longleftrightarrow> definition_version d \<noteq> 0 \<and> \<not> blank (spec_digest d)
      \<and> requirement_problems [] [] (requirements d) = []"
    by (simp add: validate_definition_def)
  then show ?thesis unfolding requirement_problems_none fresh_Nil by (auto simp: list_all_iff)
qed

lemma requirements_by_id_get:
  "bm_get (requirements_by_id d) i = map_of (rev (map (\<lambda>r. (requirement_id r, r)) (requirements d))) i"
  by (simp add: requirements_by_id_def bm_get_of_list)

lemma requirements_by_id_ok: "bm_ok (requirements_by_id d)"
  by (simp add: requirements_by_id_def)

lemma change_empty_iff:
  "change_is_empty (change_between d e) \<longleftrightarrow>
     (\<forall>i. case (bm_get (requirements_by_id d) i, bm_get (requirements_by_id e) i) of
        (None, None) \<Rightarrow> True
      | (Some old, Some new) \<Rightarrow> \<not> differs old new
      | _ \<Rightarrow> False)" (is "?l \<longleftrightarrow> (\<forall>i. ?same i)")
proof -
  let ?old = "requirements_by_id d" and ?new = "requirements_by_id e"
  have old: "(i, r) \<in> set ?old \<longleftrightarrow> bm_get ?old i = Some r" and new: "(i, r) \<in> set ?new \<longleftrightarrow> bm_get ?new i = Some r"
    for i r using btm.get_iff_entry [OF requirements_by_id_ok] by auto
  have "added_requirements (change_between d e) = [] \<longleftrightarrow> (\<forall>i r. bm_get ?new i = Some r \<longrightarrow> bm_get ?old i \<noteq> None)"
    unfolding new [symmetric] by (auto simp: change_between_def Let_def filter_empty_conv)
  moreover have "removed_requirements (change_between d e) = [] \<longleftrightarrow>
      (\<forall>i r. bm_get ?old i = Some r \<longrightarrow> bm_get ?new i \<noteq> None)"
    unfolding old [symmetric] by (auto simp: change_between_def Let_def filter_empty_conv bm_keys_def)
  moreover have "modified_requirements (change_between d e) = [] \<longleftrightarrow>
      (\<forall>i r r'. bm_get ?new i = Some r \<longrightarrow> bm_get ?old i = Some r' \<longrightarrow> \<not> differs r' r)"
    unfolding new [symmetric] by (auto simp: change_between_def Let_def filter_empty_conv split: option.splits)
  ultimately have "?l \<longleftrightarrow> (\<forall>i. (\<forall>r. bm_get ?new i = Some r \<longrightarrow> bm_get ?old i \<noteq> None)
      \<and> (\<forall>r. bm_get ?old i = Some r \<longrightarrow> bm_get ?new i \<noteq> None)
      \<and> (\<forall>r r'. bm_get ?new i = Some r \<longrightarrow> bm_get ?old i = Some r' \<longrightarrow> \<not> differs r' r))"
    unfolding change_is_empty_def by blast
  moreover have "(\<forall>r. bm_get ?new i = Some r \<longrightarrow> bm_get ?old i \<noteq> None)
      \<and> (\<forall>r. bm_get ?old i = Some r \<longrightarrow> bm_get ?new i \<noteq> None)
      \<and> (\<forall>r r'. bm_get ?new i = Some r \<longrightarrow> bm_get ?old i = Some r' \<longrightarrow> \<not> differs r' r) \<longleftrightarrow> ?same i" for i
    by (cases "bm_get ?old i"; cases "bm_get ?new i") simp_all
  ultimately show ?thesis by simp
qed

end
