(* ===== verification/Task.thy ===== *)
theory Task
  imports Workspace Step_Machine
begin

text \<open>
  Tasks of an initiative: the agent roles and their separation (\<open>initiative/roles.rs\<close>), the task
  lifecycle with its leases (\<open>initiative/task.rs\<close>), and the prediction of collisions between the
  surfaces two tasks declare (\<open>initiative/collision.rs\<close>, with the overlap of write surfaces of
  \<open>dispatch_pipeline.rs\<close>).
\<close>

section \<open>Roles\<close>

datatype agent_role = SpecAuthor | Architect | TaskPlanner | Implementer | TestEngineer | UxReviewer
  | Reviewer | SpecVerifier

fun role_text :: "agent_role \<Rightarrow> string" where
  "role_text SpecAuthor = ''spec-author''"
| "role_text Architect = ''architect''"
| "role_text TaskPlanner = ''task-planner''"
| "role_text Implementer = ''implementer''"
| "role_text TestEngineer = ''test-engineer''"
| "role_text UxReviewer = ''ux-reviewer''"
| "role_text Reviewer = ''reviewer''"
| "role_text SpecVerifier = ''spec-verifier''"

fun session_token :: "agent_role \<Rightarrow> string" where
  "session_token SpecAuthor = ''spec''"
| "session_token Architect = ''arch''"
| "session_token TaskPlanner = ''plan''"
| "session_token Implementer = ''impl''"
| "session_token TestEngineer = ''test''"
| "session_token UxReviewer = ''ux''"
| "session_token Reviewer = ''rev''"
| "session_token SpecVerifier = ''verify''"

definition parse_role :: "ustr \<Rightarrow> ustr + agent_role" where
  "parse_role value =
     (if value = lit ''spec-author'' then Inr SpecAuthor else if value = lit ''architect'' then Inr Architect
      else if value = lit ''task-planner'' then Inr TaskPlanner
      else if value = lit ''implementer'' then Inr Implementer
      else if value = lit ''test-engineer'' then Inr TestEngineer
      else if value = lit ''ux-reviewer'' then Inr UxReviewer else if value = lit ''reviewer'' then Inr Reviewer
      else if value = lit ''spec-verifier'' then Inr SpecVerifier
      else Inl (lit ''unknown agent role: '' @ value))"

lemma role_reads_back: "parse_role (lit (role_text r)) = Inr r"
  by (cases r) (simp_all add: parse_role_def)

definition all_roles :: "agent_role list" where
  "all_roles = [SpecAuthor, Architect, TaskPlanner, Implementer, TestEngineer, UxReviewer, Reviewer, SpecVerifier]"

definition is_producing :: "agent_role \<Rightarrow> bool" where
  "is_producing r \<longleftrightarrow> r = Implementer"

definition is_judging :: "agent_role \<Rightarrow> bool" where
  "is_judging r \<longleftrightarrow> r = Reviewer \<or> r = UxReviewer \<or> r = SpecVerifier"

record session_identity =
  session_initiative :: initiative_id
  session_task :: "sequence_id option"
  session_attempt :: sequence_id
  session_role :: agent_role
  session_model :: ustr
  session_name :: ustr

definition derive_session_name ::
  "initiative_id \<Rightarrow> sequence_id option \<Rightarrow> agent_role \<Rightarrow> sequence_id \<Rightarrow> ustr" where
  "derive_session_name i t r a = lit ''aspec-'' @ short_id i @ lit ''-''
     @ (case t of Some t \<Rightarrow> id_text t | None \<Rightarrow> lit ''initiative'') @ lit ''-'' @ lit (session_token r)
     @ lit ''-a'' @ show_nat (unat (id_sequence a))"

definition session_for_task ::
  "initiative_id \<Rightarrow> sequence_id \<Rightarrow> sequence_id \<Rightarrow> agent_role \<Rightarrow> ustr \<Rightarrow> session_identity" where
  "session_for_task i t a r m = \<lparr>session_initiative = i, session_task = Some t, session_attempt = a,
     session_role = r, session_model = m, session_name = derive_session_name i (Some t) r a\<rparr>"

definition session_for_initiative ::
  "initiative_id \<Rightarrow> sequence_id \<Rightarrow> agent_role \<Rightarrow> ustr \<Rightarrow> session_identity" where
  "session_for_initiative i a r m = \<lparr>session_initiative = i, session_task = None, session_attempt = a,
     session_role = r, session_model = m, session_name = derive_session_name i None r a\<rparr>"

definition reusing_session :: "ustr \<Rightarrow> session_identity \<Rightarrow> session_identity" where
  "reusing_session n s = s\<lparr>session_name := n\<rparr>"

datatype separation_violation =
    JudgeSharesImplementerSession agent_role ustr
  | VerifierImplemented ustr
  | PlannerSharesImplementerSession ustr
  | TesterSharesImplementerSession ustr

fun separation_message :: "separation_violation \<Rightarrow> ustr" where
  "separation_message (JudgeSharesImplementerSession r n) =
     lit (role_text r) @ lit '' may not judge work produced by its own session '' @ n"
| "separation_message (VerifierImplemented n) =
     lit ''final verification may not run in implementation session '' @ n"
| "separation_message (PlannerSharesImplementerSession n) =
     lit ''planning and implementation may not share session '' @ n"
| "separation_message (TesterSharesImplementerSession n) =
     lit ''testing and implementation may not share session '' @ n"

datatype enforcement = Blocking | Advisory

record separation_report =
  blocking :: "separation_violation list"
  advisory :: "separation_violation list"

definition is_permitted :: "separation_report \<Rightarrow> bool" where
  "is_permitted r \<longleftrightarrow> blocking r = []"

record separation_policy =
  planner_separation :: enforcement
  tester_separation :: enforcement

definition default_separation :: separation_policy where
  "default_separation = \<lparr>planner_separation = Advisory, tester_separation = Advisory\<rparr>"

definition strict_separation :: separation_policy where
  "strict_separation = \<lparr>planner_separation = Blocking, tester_separation = Blocking\<rparr>"

definition push_violation :: "enforcement \<Rightarrow> separation_violation \<Rightarrow> separation_report \<Rightarrow> separation_report" where
  "push_violation e v r = (case e of
       Blocking \<Rightarrow> r\<lparr>blocking := blocking r @ [v]\<rparr>
     | Advisory \<Rightarrow> r\<lparr>advisory := advisory r @ [v]\<rparr>)"

fun record_role :: "separation_policy \<Rightarrow> ustr \<Rightarrow> agent_role \<Rightarrow> separation_report \<Rightarrow> separation_report" where
  "record_role p n SpecVerifier r = push_violation Blocking (VerifierImplemented n) r"
| "record_role p n Reviewer r = push_violation Blocking (JudgeSharesImplementerSession Reviewer n) r"
| "record_role p n UxReviewer r = push_violation Blocking (JudgeSharesImplementerSession UxReviewer n) r"
| "record_role p n TaskPlanner r = push_violation (planner_separation p) (PlannerSharesImplementerSession n) r"
| "record_role p n Architect r = push_violation (planner_separation p) (PlannerSharesImplementerSession n) r"
| "record_role p n TestEngineer r = push_violation (tester_separation p) (TesterSharesImplementerSession n) r"
| "record_role p n Implementer r = r"
| "record_role p n SpecAuthor r = r"

definition group_sessions :: "session_identity list \<Rightarrow> (ustr, session_identity list) bmap" where
  "group_sessions ss = fold (\<lambda>s m. bm_insert (session_name s)
     ((case bm_get m (session_name s) of Some g \<Rightarrow> g | None \<Rightarrow> []) @ [s]) m) ss bm_empty"

definition check_group :: "separation_policy \<Rightarrow> ustr \<times> session_identity list \<Rightarrow> separation_report \<Rightarrow> separation_report" where
  "check_group p g r = (if list_ex (\<lambda>s. is_producing (session_role s)) (snd g)
     then fold (\<lambda>s. record_role p (fst g) (session_role s)) (snd g) r else r)"

definition check_separation :: "separation_policy \<Rightarrow> session_identity list \<Rightarrow> separation_report" where
  "check_separation p ss = fold (check_group p) (group_sessions ss) \<lparr>blocking = [], advisory = []\<rparr>"

definition permits_dispatch :: "separation_policy \<Rightarrow> session_identity \<Rightarrow> session_identity list \<Rightarrow> separation_report" where
  "permits_dispatch p candidate existing = check_separation p (existing @ [candidate])"

section \<open>The lifecycle of a task\<close>

datatype task_state = Defined | Blocked | Ready | Leased | Running | AwaitingTest | AwaitingReview
  | ChangesRequested | FailedRetryable | FailedTerminal | Superseded | Verified

fun task_state_text :: "task_state \<Rightarrow> string" where
  "task_state_text Defined = ''DEFINED''"
| "task_state_text Blocked = ''BLOCKED''"
| "task_state_text Ready = ''READY''"
| "task_state_text Leased = ''LEASED''"
| "task_state_text Running = ''RUNNING''"
| "task_state_text AwaitingTest = ''AWAITING_TEST''"
| "task_state_text AwaitingReview = ''AWAITING_REVIEW''"
| "task_state_text ChangesRequested = ''CHANGES_REQUESTED''"
| "task_state_text FailedRetryable = ''FAILED_RETRYABLE''"
| "task_state_text FailedTerminal = ''FAILED_TERMINAL''"
| "task_state_text Superseded = ''SUPERSEDED''"
| "task_state_text Verified = ''VERIFIED''"

definition parse_task_state :: "ustr \<Rightarrow> ustr + task_state" where
  "parse_task_state value =
     (if value = lit ''DEFINED'' then Inr Defined else if value = lit ''BLOCKED'' then Inr Blocked
      else if value = lit ''READY'' then Inr Ready else if value = lit ''LEASED'' then Inr Leased
      else if value = lit ''RUNNING'' then Inr Running
      else if value = lit ''AWAITING_TEST'' then Inr AwaitingTest
      else if value = lit ''AWAITING_REVIEW'' then Inr AwaitingReview
      else if value = lit ''CHANGES_REQUESTED'' then Inr ChangesRequested
      else if value = lit ''FAILED_RETRYABLE'' then Inr FailedRetryable
      else if value = lit ''FAILED_TERMINAL'' then Inr FailedTerminal
      else if value = lit ''SUPERSEDED'' then Inr Superseded
      else if value = lit ''VERIFIED'' then Inr Verified
      else Inl (lit ''unknown task state: '' @ value))"

lemma task_state_reads_back: "parse_task_state (lit (task_state_text s)) = Inr s"
  by (cases s) (simp_all add: parse_task_state_def)

definition is_terminal_task :: "task_state \<Rightarrow> bool" where
  "is_terminal_task s \<longleftrightarrow> s = Verified \<or> s = FailedTerminal \<or> s = Superseded"

definition is_active :: "task_state \<Rightarrow> bool" where
  "is_active s \<longleftrightarrow> s = Leased \<or> s = Running"

definition is_releasable :: "task_state \<Rightarrow> bool" where
  "is_releasable s \<longleftrightarrow> s = Defined \<or> s = Blocked \<or> s = Ready \<or> s = ChangesRequested \<or> s = FailedRetryable"

definition satisfies_dependents :: "task_state \<Rightarrow> bool" where
  "satisfies_dependents s \<longleftrightarrow> s = Verified"

fun legal_successors :: "task_state \<Rightarrow> task_state list" where
  "legal_successors Defined = [Blocked, Ready, FailedTerminal]"
| "legal_successors Blocked = [Ready, Defined, FailedTerminal]"
| "legal_successors Ready = [Leased, Blocked, FailedTerminal]"
| "legal_successors Leased = [Running, Ready, FailedRetryable, FailedTerminal]"
| "legal_successors Running = [AwaitingTest, AwaitingReview, FailedRetryable, FailedTerminal]"
| "legal_successors AwaitingTest = [AwaitingReview, ChangesRequested, FailedRetryable, FailedTerminal]"
| "legal_successors AwaitingReview = [Verified, ChangesRequested, FailedTerminal]"
| "legal_successors ChangesRequested = [Ready, Leased, FailedTerminal]"
| "legal_successors FailedRetryable = [Ready, Blocked, FailedTerminal]"
| "legal_successors FailedTerminal = []"
| "legal_successors Superseded = []"
| "legal_successors Verified = []"

definition can_transition_to :: "task_state \<Rightarrow> task_state \<Rightarrow> bool" where
  "can_transition_to s next =
     (if s = next then True else if next = Superseded then s \<noteq> Verified
      else next \<in> set (legal_successors s))"

datatype task_kind = Implementation | TestKind | Review | Integration | Verification | Meta

fun task_kind_text :: "task_kind \<Rightarrow> string" where
  "task_kind_text Implementation = ''implementation''"
| "task_kind_text TestKind = ''test''"
| "task_kind_text Review = ''review''"
| "task_kind_text Integration = ''integration''"
| "task_kind_text Verification = ''verification''"
| "task_kind_text Meta = ''meta''"

definition requires_requirement_mapping :: "task_kind \<Rightarrow> bool" where
  "requires_requirement_mapping k \<longleftrightarrow> k \<noteq> Meta"

fun default_capabilities :: "task_kind \<Rightarrow> capability list" where
  "default_capabilities Implementation = write_set"
| "default_capabilities TestKind = write_set"
| "default_capabilities Integration = [Read, Workflows]"
| "default_capabilities Review = [Read]"
| "default_capabilities Verification = [Read]"
| "default_capabilities Meta = [Read]"

record task_lease =
  lease_session :: ustr
  expires_at :: u64

definition is_live :: "task_lease \<Rightarrow> u64 \<Rightarrow> bool" where
  "is_live l now \<longleftrightarrow> now < expires_at l"

record affected_surface =
  surface_path :: ustr
  surface_symbols :: "ustr list"

record task =
  task_id :: sequence_id
  summary :: ustr
  repository :: repository_id
  kind :: task_kind
  role :: agent_role
  satisfies :: "sequence_id list"
  depends_on :: "sequence_id list"
  outputs :: "ustr list"
  validation :: "ustr list"
  required_capabilities :: "capability list"
  exclusivity :: "ustr option"
  affects :: "affected_surface list"
  plan_version :: u32
  task_state :: task_state
  lease :: "task_lease option"
  attempts :: u32

definition implementation_task :: "sequence_id \<Rightarrow> repository_id \<Rightarrow> sequence_id list \<Rightarrow> u32 \<Rightarrow> task" where
  "implementation_task i r reqs v = \<lparr>task_id = i, summary = lit ''implement '' @ id_text i, repository = r,
     kind = Implementation, role = Implementer, satisfies = reqs, depends_on = [], outputs = [],
     validation = [], required_capabilities = default_capabilities Implementation, exclusivity = None,
     affects = [], plan_version = v, task_state = Defined, lease = None, attempts = 0\<rparr>"

definition depending_on :: "sequence_id list \<Rightarrow> task \<Rightarrow> task" where
  "depending_on deps t = t\<lparr>depends_on := deps\<rparr>"

definition as_kind :: "task_kind \<Rightarrow> agent_role \<Rightarrow> task \<Rightarrow> task" where
  "as_kind k r t = t\<lparr>required_capabilities := default_capabilities k,
     summary := lit (task_kind_text k) @ lit '' '' @ id_text (task_id t), kind := k, role := r\<rparr>"

definition transition_task :: "task_state \<Rightarrow> task \<Rightarrow> ustr + task" where
  "transition_task next t =
     (if \<not> can_transition_to (task_state t) next
      then Inl (id_text (task_id t) @ lit '': illegal transition '' @ lit (task_state_text (task_state t))
             @ lit '' -> '' @ lit (task_state_text next))
      else Inr (t\<lparr>lease := (if next \<noteq> Leased then None else lease t), task_state := next\<rparr>))"

definition lease_task :: "ustr \<Rightarrow> u64 \<Rightarrow> task \<Rightarrow> ustr + task" where
  "lease_task session until t =
     (if task_state t \<noteq> Ready
      then Inl (id_text (task_id t) @ lit '' is not READY to lease ('' @ lit (task_state_text (task_state t)) @ lit '')'')
      else Inr (t\<lparr>task_state := Leased, attempts := attempts t + 1,
             lease := Some \<lparr>lease_session = session, expires_at = until\<rparr>\<rparr>))"

definition lease_expired :: "task \<Rightarrow> u64 \<Rightarrow> bool" where
  "lease_expired t now = (case lease t of Some l \<Rightarrow> \<not> is_live l now | None \<Rightarrow> False)"

definition task_problems :: "task \<Rightarrow> ustr list" where
  "task_problems t =
     (if requires_requirement_mapping (kind t) \<and> satisfies t = []
      then [id_text (task_id t) @ lit '' is a '' @ lit (task_kind_text (kind t))
              @ lit '' task and must map to at least one requirement''] else [])
     @ (if task_id t \<in> set (depends_on t) then [id_text (task_id t) @ lit '' depends on itself''] else [])
     @ (if plan_version t = 0 then [id_text (task_id t) @ lit '' has no architecture plan version''] else [])"

definition validate_task :: "task \<Rightarrow> ustr list + unit" where
  "validate_task t = no_problems (task_problems t)"

section \<open>Predicted collisions\<close>

definition is_directory_entry :: "ustr \<Rightarrow> bool" where
  "is_directory_entry entry \<longleftrightarrow> strip_suffix (lit ''/'') entry \<noteq> None"

definition beneath :: "ustr \<Rightarrow> ustr \<Rightarrow> bool" where
  "beneath entry candidate = (case strip_suffix (lit ''/'') entry of
       None \<Rightarrow> False
     | Some dir \<Rightarrow> (case strip_prefix dir candidate of
         None \<Rightarrow> False
       | Some rest \<Rightarrow> take 1 rest = [47]))"

text \<open>One pair of the loop of \<open>shared_entries\<close>; here both surfaces have one path.\<close>

definition shared_entry :: "ustr \<Rightarrow> ustr \<Rightarrow> ustr list" where
  "shared_entry a b =
     (if a = b \<or> (is_directory_entry a \<and> beneath a b) then [a]
      else if is_directory_entry b \<and> beneath b a then [b] else [])"

definition shared_entries :: "ustr list \<Rightarrow> ustr list \<Rightarrow> ustr list" where
  "shared_entries as bs = bs_of_list (concat (map (\<lambda>a. concat (map (shared_entry a) bs)) as))"

definition shared_between :: "affected_surface \<Rightarrow> affected_surface \<Rightarrow> ustr list" where
  "shared_between a b =
     (let entries = shared_entries [surface_path a] [surface_path b] in
      if entries = [] then entries
      else if surface_path a = surface_path b \<and> \<not> is_directory_entry (surface_path a)
              \<and> surface_symbols a \<noteq> [] \<and> surface_symbols b \<noteq> []
      then map (\<lambda>s. surface_path a @ lit ''#'' @ s)
             (bs_of_list (filter (\<lambda>s. s \<in> set (surface_symbols b)) (surface_symbols a)))
      else entries)"

definition shared_with :: "affected_surface list \<Rightarrow> affected_surface list \<Rightarrow> ustr list" where
  "shared_with mine theirs = bs_of_list (concat (map (\<lambda>a. concat (map (shared_between a) theirs)) mine))"

record predicted_collision =
  holder :: sequence_id
  shared :: "ustr list"

fun find_collision :: "task \<Rightarrow> task list \<Rightarrow> predicted_collision option" where
  "find_collision candidate [] = None"
| "find_collision candidate (other # others) =
     (if task_id other \<noteq> task_id candidate \<and> repository other = repository candidate
          \<and> shared_with (affects candidate) (affects other) \<noteq> []
      then Some \<lparr>holder = task_id other, shared = shared_with (affects candidate) (affects other)\<rparr>
      else find_collision candidate others)"

definition predict :: "task \<Rightarrow> task list \<Rightarrow> predicted_collision option" where
  "predict candidate others = (if affects candidate = [] then None else find_collision candidate others)"

end
