(* ===== verification/Task_Graph.thy ===== *)
theory Task_Graph
  imports Task Dfs
begin

text \<open>
  The task graph of an initiative and its scheduler (\<open>initiative/dag.rs\<close>): validation against a
  definition and a workspace, the topological order with cycle reporting, descendants, waves, and the
  decision which tasks may be released now.

  The recursion of \<open>visit\<close> and the queue of \<open>descendants\<close> have a bound as argument; \<open>Task_Schedule\<close> and the
  lemmas below show that the bounds given by the callers are never reached.
\<close>

section \<open>Violations\<close>

datatype graph_violation =
    MissingDependency sequence_id sequence_id
  | Cycle "sequence_id list"
  | UnknownRequirement sequence_id sequence_id
  | NonGoalRequirement sequence_id sequence_id
  | UnknownRepository sequence_id repository_id
  | InvalidTask sequence_id ustr
  | UncoveredRequirement sequence_id

fun violation_message :: "graph_violation \<Rightarrow> ustr" where
  "violation_message (MissingDependency t d) = id_text t @ lit '' depends on missing '' @ id_text d"
| "violation_message (Cycle c) = lit ''dependency cycle detected: '' @ join (lit '' -> '') (map id_text c)"
| "violation_message (UnknownRequirement t r) = id_text t @ lit '' maps to unknown '' @ id_text r"
| "violation_message (NonGoalRequirement t r) = id_text t @ lit '' maps to non-goal '' @ id_text r"
| "violation_message (UnknownRepository t r) =
     id_text t @ lit '' targets undiscovered repository '' @ repository_text r"
| "violation_message (InvalidTask t p) = id_text t @ lit '': '' @ p"
| "violation_message (UncoveredRequirement r) = id_text r @ lit '' has no task in the graph''"

datatype block_cause =
    DependencyUnverified sequence_id task_state
  | MissingCapability repository_id "capability list"
  | AncestorBlocked sequence_id
  | ExclusivityHeld ustr sequence_id
  | PredictedCollision sequence_id "ustr list"

fun block_message :: "block_cause \<Rightarrow> ustr" where
  "block_message (DependencyUnverified d s) =
     lit ''waiting on '' @ id_text d @ lit '' ('' @ lit (task_state_text s) @ lit '')''"
| "block_message (MissingCapability r cs) =
     repository_text r @ lit '' does not grant '' @ join (lit '', '') (map (\<lambda>c. lit (capability_text c)) cs)"
| "block_message (AncestorBlocked a) = lit ''ancestor '' @ id_text a @ lit '' is blocked''"
| "block_message (ExclusivityHeld k h) = lit ''exclusivity key '' @ k @ lit '' is held by '' @ id_text h"
| "block_message (PredictedCollision h s) =
     lit ''would collide with '' @ id_text h @ lit '' on '' @ join (lit '', '') s"

fun is_permission_block :: "block_cause \<Rightarrow> bool" where
  "is_permission_block (MissingCapability _ _) = True"
| "is_permission_block _ = False"

section \<open>The graph\<close>

record task_graph =
  graph_id :: sequence_id
  graph_version :: u32
  graph_plan :: sequence_id
  tasks :: "(sequence_id, task) bmap"

definition new_graph :: "sequence_id \<Rightarrow> u32 \<Rightarrow> sequence_id \<Rightarrow> task_graph" where
  "new_graph i v p = \<lparr>graph_id = i, graph_version = v, graph_plan = p, tasks = bm_empty\<rparr>"

definition insert_task :: "task \<Rightarrow> task_graph \<Rightarrow> task_graph" where
  "insert_task t g = g\<lparr>tasks := bm_insert (task_id t) t (tasks g)\<rparr>"

definition get_task :: "task_graph \<Rightarrow> sequence_id \<Rightarrow> task option" where
  "get_task g i = bm_get (tasks g) i"

definition mapped_requirements :: "task_graph \<Rightarrow> sequence_id list" where
  "mapped_requirements g = bs_of_list (concat (map satisfies
     (filter (\<lambda>t. task_state t \<noteq> Superseded) (bm_values (tasks g)))))"

section \<open>The topological order\<close>

record search =
  visiting :: "sequence_id list"
  visited :: "sequence_id list"
  stack :: "sequence_id list"
  order :: "sequence_id list"

definition no_search :: search where
  "no_search = \<lparr>visiting = [], visited = [], stack = [], order = []\<rparr>"

text \<open>A refusal of the code, or the depth bound of the model.\<close>

datatype search_stop = Refused graph_violation | OutOfDepth

definition known_dependencies :: "task_graph \<Rightarrow> sequence_id \<Rightarrow> sequence_id list" where
  "known_dependencies g x = (case get_task g x of
       Some t \<Rightarrow> filter (\<lambda>d. get_task g d \<noteq> None) (depends_on t)
     | None \<Rightarrow> [])"

fun visit :: "nat \<Rightarrow> task_graph \<Rightarrow> sequence_id \<Rightarrow> search \<Rightarrow> search_stop + search" where
  "visit 0 g x s = Inl OutOfDepth"
| "visit (Suc n) g x s =
     (if x \<in> set (visited s) then Inr s
      else if x \<in> set (visiting s)
      then Inl (Refused (Cycle (drop (case position x (stack s) of Some i \<Rightarrow> i | None \<Rightarrow> 0) (stack s) @ [x])))
      else and_then (visit_each (visit n g) (known_dependencies g x)
              (s\<lparr>visiting := bs_insert x (visiting s), stack := stack s @ [x]\<rparr>)) (\<lambda>s.
           Inr (s\<lparr>stack := butlast (stack s), visiting := filter (\<lambda>y. y \<noteq> x) (visiting s),
                  visited := bs_insert x (visited s), order := order s @ [x]\<rparr>)))"

definition topological_order :: "task_graph \<Rightarrow> search_stop + sequence_id list" where
  "topological_order g = map_ok order
     (visit_each (visit (Suc (length (tasks g))) g) (bm_keys (tasks g)) no_search)"

section \<open>Validation\<close>

definition requirement_violations :: "sequence_id list \<Rightarrow> sequence_id list \<Rightarrow> sequence_id \<Rightarrow> sequence_id
    \<Rightarrow> graph_violation list" where
  "requirement_violations known goals t r =
     (if r \<notin> set known then [UnknownRequirement t r]
      else if r \<in> set goals then [NonGoalRequirement t r] else [])"

definition task_violations :: "task_graph \<Rightarrow> initiative_definition \<Rightarrow> workspace \<Rightarrow> task \<Rightarrow> graph_violation list" where
  "task_violations g d w t =
     (case validate_task t of Inl ps \<Rightarrow> map (InvalidTask (task_id t)) ps | Inr _ \<Rightarrow> [])
     @ map (MissingDependency (task_id t)) (filter (\<lambda>x. get_task g x = None) (depends_on t))
     @ concat (map (requirement_violations (requirement_ids d) (bs_of_list (map requirement_id (non_goals d)))
         (task_id t)) (satisfies t))
     @ (if contains_record w (repository t) then [] else [UnknownRepository (task_id t) (repository t)])"

definition cycle_violations :: "task_graph \<Rightarrow> graph_violation list" where
  "cycle_violations g = (case topological_order g of Inl (Refused v) \<Rightarrow> [v] | _ \<Rightarrow> [])"

definition uncovered :: "task_graph \<Rightarrow> initiative_definition \<Rightarrow> graph_violation list" where
  "uncovered g d = map UncoveredRequirement (filter (\<lambda>r. r \<notin> set (mapped_requirements g))
     (map requirement_id (actionable_requirements d)))"

text \<open>The order is computed only when no task is at fault.\<close>

definition graph_violations :: "task_graph \<Rightarrow> initiative_definition \<Rightarrow> workspace \<Rightarrow> graph_violation list" where
  "graph_violations g d w =
     (let vs = concat (map (task_violations g d w) (bm_values (tasks g))) in
      vs @ (if vs = [] then cycle_violations g else []) @ uncovered g d)"

definition validate_graph :: "task_graph \<Rightarrow> initiative_definition \<Rightarrow> workspace \<Rightarrow> graph_violation list + unit" where
  "validate_graph g d w = no_problems (graph_violations g d w)"

section \<open>Edges, descendants, waves\<close>

definition edges_into :: "task_graph \<Rightarrow> task \<Rightarrow> (sequence_id \<times> sequence_id) list" where
  "edges_into g t = concat (map (\<lambda>d. case get_task g d of
       None \<Rightarrow> []
     | Some up \<Rightarrow> if repository up \<noteq> repository t then [(d, task_id t)] else []) (depends_on t))"

definition cross_repository_edges :: "task_graph \<Rightarrow> (sequence_id \<times> sequence_id) list" where
  "cross_repository_edges g = concat (map (edges_into g) (bm_values (tasks g)))"

text \<open>The map from a task to its dependents, as a lookup.\<close>

definition dependents :: "task_graph \<Rightarrow> sequence_id \<Rightarrow> sequence_id list" where
  "dependents g x = concat (map (\<lambda>t. map (\<lambda>_. task_id t) (filter (\<lambda>d. d = x) (depends_on t)))
     (bm_values (tasks g)))"

fun collect_new :: "sequence_id list \<Rightarrow> sequence_id list \<times> sequence_id list \<Rightarrow> sequence_id list \<times> sequence_id list" where
  "collect_new [] (found, queue) = (found, queue)"
| "collect_new (d # ds) (found, queue) =
     (if d \<in> set found then collect_new ds (found, queue)
      else collect_new ds (bs_insert d found, queue @ [d]))"

fun descend :: "nat \<Rightarrow> task_graph \<Rightarrow> sequence_id list \<Rightarrow> sequence_id list \<Rightarrow> sequence_id list option" where
  "descend n g found [] = Some found"
| "descend 0 g found (x # queue) = None"
| "descend (Suc n) g found (x # queue) =
     (let (found, queue) = collect_new (dependents g x) (found, queue) in descend n g found queue)"

definition descendants :: "task_graph \<Rightarrow> sequence_id \<Rightarrow> sequence_id list option" where
  "descendants g x = descend (Suc (length (tasks g))) g [] [x]"

definition wave_depth :: "task_graph \<Rightarrow> (sequence_id, nat) bmap \<Rightarrow> sequence_id \<Rightarrow> nat" where
  "wave_depth g depth x = (case get_task g x of
       Some t \<Rightarrow> fold (\<lambda>n m. max n m) (map Suc (List.map_filter (bm_get depth) (depends_on t))) 0
     | None \<Rightarrow> 0)"

definition wave_depths :: "task_graph \<Rightarrow> sequence_id list \<Rightarrow> (sequence_id, nat) bmap" where
  "wave_depths g xs = fold (\<lambda>x depth. bm_insert x (wave_depth g depth x) depth) xs bm_empty"

definition push_wave :: "sequence_id \<times> nat \<Rightarrow> sequence_id list list \<Rightarrow> sequence_id list list" where
  "push_wave e waves =
     (let waves = (if length waves \<le> snd e then waves @ replicate (Suc (snd e) - length waves) [] else waves)
      in waves[snd e := waves ! snd e @ [fst e]])"

definition concurrency_waves :: "task_graph \<Rightarrow> search_stop + sequence_id list list" where
  "concurrency_waves g = map_ok (\<lambda>xs. fold push_wave (wave_depths g xs) []) (topological_order g)"

definition integration_tasks :: "task_graph \<Rightarrow> task list" where
  "integration_tasks g = filter (\<lambda>t. kind t = Integration) (bm_values (tasks g))"

definition is_complete :: "task_graph \<Rightarrow> bool" where
  "is_complete g \<longleftrightarrow> list_all (\<lambda>t. task_state t = Verified)
     (filter (\<lambda>t. task_state t \<noteq> Superseded) (bm_values (tasks g)))"

section \<open>The scheduler\<close>

record task_schedule =
  ready_tasks :: "sequence_id list"
  blocked :: "(sequence_id, block_cause) bmap"

record pass = task_schedule +
  held :: "(ustr, sequence_id) bmap"
  holders :: "task list"

fun dependency_block :: "task_graph \<Rightarrow> (sequence_id, block_cause) bmap \<Rightarrow> sequence_id list \<Rightarrow> block_cause option" where
  "dependency_block g bl [] = None"
| "dependency_block g bl (d # ds) =
     (if bm_get bl d \<noteq> None then Some (AncestorBlocked d)
      else case get_task g d of
        None \<Rightarrow> Some (AncestorBlocked d)
      | Some up \<Rightarrow> if \<not> satisfies_dependents (task_state up)
          then Some (DependencyUnverified d (task_state up)) else dependency_block g bl ds)"

definition missing_capabilities :: "workspace \<Rightarrow> task \<Rightarrow> capability list" where
  "missing_capabilities w t = (case get_record w (repository t) of
       Some r \<Rightarrow> missing r (required_capabilities t)
     | None \<Rightarrow> required_capabilities t)"

definition exclusivity_block :: "(ustr, sequence_id) bmap \<Rightarrow> task \<Rightarrow> block_cause option" where
  "exclusivity_block h t = (case exclusivity t of
       None \<Rightarrow> None
     | Some key \<Rightarrow> map_option (ExclusivityHeld key) (bm_get h key))"

definition block_reason :: "task_graph \<Rightarrow> workspace \<Rightarrow> pass \<Rightarrow> task \<Rightarrow> block_cause option" where
  "block_reason g w p t = (case dependency_block g (blocked p) (depends_on t) of
       Some r \<Rightarrow> Some r
     | None \<Rightarrow>
         if missing_capabilities w t \<noteq> [] then Some (MissingCapability (repository t) (missing_capabilities w t))
         else case exclusivity_block (held p) t of
           Some r \<Rightarrow> Some r
         | None \<Rightarrow> map_option (\<lambda>c. PredictedCollision (holder c) (shared c)) (predict t (holders p)))"

definition hold :: "u64 \<Rightarrow> task \<Rightarrow> pass \<Rightarrow> pass" where
  "hold now t p =
     (if is_active (task_state t) \<and> \<not> lease_expired t now
      then p\<lparr>holders := holders p @ [t],
             held := (case exclusivity t of
                 None \<Rightarrow> held p
               | Some key \<Rightarrow> if bm_get (held p) key = None then bm_insert key (task_id t) (held p) else held p)\<rparr>
      else p)"

definition release_task :: "sequence_id \<Rightarrow> task \<Rightarrow> pass \<Rightarrow> pass" where
  "release_task x t p = p\<lparr>held := (case exclusivity t of None \<Rightarrow> held p | Some key \<Rightarrow> bm_insert key x (held p)),
     holders := holders p @ [t], ready_tasks := ready_tasks p @ [x]\<rparr>"

definition consider_task :: "task_graph \<Rightarrow> workspace \<Rightarrow> sequence_id \<Rightarrow> pass \<Rightarrow> pass" where
  "consider_task g w x p = (case get_task g x of
       None \<Rightarrow> p
     | Some t \<Rightarrow>
         if \<not> is_releasable (task_state t) then p
         else case block_reason g w p t of
           Some r \<Rightarrow> p\<lparr>blocked := bm_insert x r (blocked p)\<rparr>
         | None \<Rightarrow> release_task x t p)"

definition start_pass :: "task_graph \<Rightarrow> u64 \<Rightarrow> pass" where
  "start_pass g now = fold (hold now) (bm_values (tasks g))
     \<lparr>ready_tasks = [], blocked = bm_empty, held = bm_empty, holders = []\<rparr>"

definition schedule_order :: "task_graph \<Rightarrow> sequence_id list" where
  "schedule_order g = (case topological_order g of Inr xs \<Rightarrow> xs | Inl _ \<Rightarrow> [])"

definition schedule_pass :: "task_graph \<Rightarrow> workspace \<Rightarrow> u64 \<Rightarrow> pass" where
  "schedule_pass g w now = fold (consider_task g w) (schedule_order g) (start_pass g now)"

definition schedule :: "task_graph \<Rightarrow> workspace \<Rightarrow> u64 \<Rightarrow> task_schedule" where
  "schedule g w now = (let p = schedule_pass g w now in \<lparr>ready_tasks = ready_tasks p, blocked = blocked p\<rparr>)"

definition is_ready :: "task_schedule \<Rightarrow> sequence_id \<Rightarrow> bool" where
  "is_ready s x \<longleftrightarrow> x \<in> set (ready_tasks s)"

definition reason_for :: "task_schedule \<Rightarrow> sequence_id \<Rightarrow> block_cause option" where
  "reason_for s x = bm_get (blocked s) x"

definition ready_repositories :: "task_graph \<Rightarrow> task_schedule \<Rightarrow> repository_id list" where
  "ready_repositories g s = bs_of_list (map repository (List.map_filter (get_task g) (ready_tasks s)))"

definition permission_blocked :: "task_schedule \<Rightarrow> sequence_id list" where
  "permission_blocked s = map fst (filter (\<lambda>e. is_permission_block (snd e)) (blocked s))"

section \<open>The search as a depth-first sort\<close>

definition task_ids :: "task_graph \<Rightarrow> sequence_id set" where
  "task_ids g = fst ` set (tasks g)"

lemma task_ids_get: "x \<in> task_ids g \<longleftrightarrow> (\<exists>t. get_task g x = Some t)"
proof -
  have "x \<in> fst ` set m \<longleftrightarrow> (\<exists>t. bm_get m x = Some t)" for m :: "(sequence_id, task) bmap"
    by (induction m) auto
  then show ?thesis by (simp add: task_ids_def get_task_def)
qed

lemma known_dependencies_ids: "set (known_dependencies g x) \<subseteq> task_ids g"
  by (cases "get_task g x") (auto simp: known_dependencies_def task_ids_get)

definition search_mark :: "search \<Rightarrow> sequence_id \<Rightarrow> visit_state option" where
  "search_mark s x = (if x \<in> set (visited s) then Some Visited
     else if x \<in> set (visiting s) then Some Visiting else None)"

interpretation task_sort: depth_first "task_ids g" "known_dependencies g" "\<lambda>n. visit n g"
    search_mark stack order
    "\<lambda>x s. s\<lparr>visiting := bs_insert x (visiting s), stack := stack s @ [x]\<rparr>"
    "\<lambda>x s. s\<lparr>stack := butlast (stack s), visiting := filter (\<lambda>y. y \<noteq> x) (visiting s),
             visited := bs_insert x (visited s), order := order s @ [x]\<rparr>"
    "\<lambda>x stk. Refused (Cycle (stack_cycle x stk))"
  for g
proof (unfold_locales, goal_cases)
  case 1
  then show ?case by (simp add: task_ids_def)
next
  case (2 x)
  show ?case by (rule known_dependencies_ids)
next
  case (3 x n s)
  then show ?case by (simp add: search_mark_def stack_cycle_def)
qed (auto simp: search_mark_def split: if_splits)

abbreviation needs :: "task_graph \<Rightarrow> sequence_id \<Rightarrow> sequence_id set" where
  "needs g x \<equiv> set (known_dependencies g x)"

lemma search_start:
  "order no_search = []" "stack no_search = []" "search_mark no_search x = None"
  "set (bm_keys (tasks g)) \<subseteq> task_ids g" "card (task_ids g) < Suc (length (tasks g))"
proof -
  show "card (task_ids g) < Suc (length (tasks g))"
    using card_length [of "map fst (tasks g)"] by (simp add: task_ids_def)
qed (simp_all add: no_search_def search_mark_def task_ids_def bm_keys_def)

lemma topological_order_Inr:
  assumes "topological_order g = Inr xs"
  shows "distinct xs" "set xs = task_ids g" "topo (needs g) {} xs"
proof -
  obtain s where s: "visit_each (visit (Suc (length (tasks g))) g) (bm_keys (tasks g)) no_search = Inr s"
      "xs = order s"
    using assms unfolding topological_order_def by (auto simp: map_ok_Inr)
  from task_sort.sort_order [OF search_start this(1)] s(2)
  show "distinct xs" "set xs = task_ids g" "topo (needs g) {} xs"
    by (auto simp: task_ids_def bm_keys_def)
qed

lemma topological_order_Inl:
  assumes "topological_order g = Inl e"
  shows "\<exists>c. e = Refused (Cycle c) \<and> dependency_cycle (needs g) c \<and> set c \<subseteq> task_ids g"
proof -
  have "visit_each (visit (Suc (length (tasks g))) g) (bm_keys (tasks g)) no_search = Inl e"
    using assms unfolding topological_order_def by (auto simp: map_ok_def and_then_Inl)
  from task_sort.sort_refusal [OF search_start this] show ?thesis by blast
qed

lemma cycle_head: "dependency_cycle deps c \<Longrightarrow> hd c \<in> set c"
  by (cases c) (auto simp: dependency_cycle_def)

lemma ordered_no_cycle:
  assumes "topological_order g = Inr xs" "dependency_cycle (needs g) c"
  shows "\<not> set c \<subseteq> task_ids g"
  using topo_no_cycle [OF topological_order_Inr(3) [OF assms(1)] assms(2)] topological_order_Inr(2) [OF assms(1)]
    cycle_head [OF assms(2)] by auto

end
