(* ===== verification/Task_Safety.thy ===== *)
theory Task_Safety
  imports Task
begin

text \<open>
  What the lifecycle of a task, the separation of roles and the prediction of collisions guarantee.
\<close>

section \<open>Histories of a task\<close>

datatype task_op = Move task_state | TakeLease ustr u64

fun task_step :: "task \<Rightarrow> task_op \<Rightarrow> ustr + task" where
  "task_step t (Move next) = transition_task next t"
| "task_step t (TakeLease session until) = lease_task session until t"

lemma task_step_Inr:
  "task_step t op = Inr u \<Longrightarrow> can_transition_to (task_state t) (task_state u)"
  by (cases op) (auto simp: transition_task_def lease_task_def can_transition_to_def split: if_splits)

definition lease_held :: "task \<Rightarrow> bool" where
  "lease_held t \<longleftrightarrow> lease t = None \<or> task_state t = Leased"

interpretation task_life: guarded_machine task_step lease_held
proof
  fix t op u assume "lease_held t" "task_step t op = Inr u"
  then show "lease_held u"
    by (cases op) (auto simp: lease_held_def transition_task_def lease_task_def split: if_splits)
qed

lemma into_review:
  assumes "can_transition_to s t" "s \<notin> {AwaitingReview, Verified}" "t \<in> {AwaitingReview, Verified}"
  shows "t = AwaitingReview"
  using assms by (cases s) (auto simp: can_transition_to_def)

lemma into_running:
  assumes "can_transition_to s t" "s \<notin> {Running, AwaitingTest, AwaitingReview, ChangesRequested, Verified}"
    "t \<in> {Running, AwaitingTest, AwaitingReview, ChangesRequested, Verified}"
  shows "t = Running"
  using assms by (cases s) (auto simp: can_transition_to_def)

lemma into_lease:
  assumes "can_transition_to s t"
    "s \<notin> {Leased, Running, AwaitingTest, AwaitingReview, ChangesRequested, Verified}"
    "t \<in> {Leased, Running, AwaitingTest, AwaitingReview, ChangesRequested, Verified}"
  shows "t = Leased"
  using assms by (cases s) (auto simp: can_transition_to_def)

text \<open>C33: No task verifies itself. Whatever moves and leases are tried on a task that is only defined, if it
  ends up verified it was leased, then running, then awaiting review, in this order; and a verified
  task never changes its state again.\<close>

theorem verified_only_through_review:
  assumes start: "task_state t = Defined" and run: "run_all task_step t ops = Inr u"
    and verified: "task_state u = Verified"
  shows "(\<exists>o1 o2 o3 o4 a b c. ops = o1 @ o2 @ o3 @ o4
      \<and> run_all task_step t o1 = Inr a \<and> task_state a = Leased
      \<and> run_all task_step a o2 = Inr b \<and> task_state b = Running
      \<and> run_all task_step b o3 = Inr c \<and> task_state c = AwaitingReview)
    \<and> (case task_step u op of Inl _ \<Rightarrow> True | Inr v \<Rightarrow> task_state v = Verified)"
proof -
  let ?review = "\<lambda>t. task_state t \<in> {AwaitingReview, Verified}"
  let ?run = "\<lambda>t. task_state t \<in> {Running, AwaitingTest, AwaitingReview, ChangesRequested, Verified}"
  let ?lease = "\<lambda>t. task_state t \<in> {Leased, Running, AwaitingTest, AwaitingReview, ChangesRequested, Verified}"
  have "\<exists>p o4 c. ops = p @ o4 \<and> run_all task_step t p = Inr c \<and> task_state c = AwaitingReview
      \<and> run_all task_step c o4 = Inr u"
    using into_review [OF task_step_Inr] by (intro run_passes [where R = ?review, OF run]) (simp_all add: start verified)
  then obtain p o4 c where c: "ops = p @ o4" "run_all task_step t p = Inr c" "task_state c = AwaitingReview"
    by blast
  have "\<exists>q o3 b. p = q @ o3 \<and> run_all task_step t q = Inr b \<and> task_state b = Running
      \<and> run_all task_step b o3 = Inr c"
    using into_running [OF task_step_Inr] by (intro run_passes [where R = ?run, OF c(2)]) (simp_all add: start c(3))
  then obtain q o3 b where b: "p = q @ o3" "run_all task_step t q = Inr b" "task_state b = Running"
    "run_all task_step b o3 = Inr c" by blast
  have "\<exists>o1 o2 a. q = o1 @ o2 \<and> run_all task_step t o1 = Inr a \<and> task_state a = Leased
      \<and> run_all task_step a o2 = Inr b"
    using into_lease [OF task_step_Inr] by (intro run_passes [where R = ?lease, OF b(2)]) (simp_all add: start b(3))
  then obtain o1 o2 a where a: "q = o1 @ o2" "run_all task_step t o1 = Inr a" "task_state a = Leased"
    "run_all task_step a o2 = Inr b" by blast
  have "ops = o1 @ o2 @ o3 @ o4" using a(1) b(1) c(1) by simp
  then have path: "\<exists>o1 o2 o3 o4 a b c. ops = o1 @ o2 @ o3 @ o4
      \<and> run_all task_step t o1 = Inr a \<and> task_state a = Leased
      \<and> run_all task_step a o2 = Inr b \<and> task_state b = Running
      \<and> run_all task_step b o3 = Inr c \<and> task_state c = AwaitingReview"
    using a(2-4) b(3,4) c(3) by blast
  have "task_state v = Verified" if "task_step u op = Inr v" for v
    using task_step_Inr [OF that] verified by (auto simp: can_transition_to_def split: if_splits)
  with path show ?thesis by (simp split: sum.splits)
qed

definition sample_repository :: repository_id where
  "sample_repository = RepositoryId [97, 47, 98, 47, 99] 1 3"

definition sample_task :: "nat \<Rightarrow> task" where
  "sample_task n = implementation_task (SequenceId [n] (of_nat n)) sample_repository [] 1"

theorem verified_only_through_review_witness:
  "\<exists>u. run_all task_step (sample_task 2)
         [Move Ready, TakeLease [97] 9, Move Running, Move AwaitingReview, Move Verified] = Inr u
     \<and> task_state u = Verified \<and> \<not> is_ok (task_step u (Move Superseded))"
proof -
  let ?ops = "[Move Ready, TakeLease [97] 9, Move Running, Move AwaitingReview, Move Verified]"
  have "\<exists>u. run_all task_step (sample_task 2) ?ops = Inr u \<and> task_state u = Verified"
    by (simp add: sample_task_def implementation_task_def transition_task_def lease_task_def can_transition_to_def)
  then obtain u where u: "run_all task_step (sample_task 2) ?ops = Inr u" "task_state u = Verified" by blast
  have "task_state (sample_task 2) = Defined" by (simp add: sample_task_def implementation_task_def)
  from verified_only_through_review [OF this u, of "Move Superseded"] u show ?thesis
    by (auto split: sum.splits dest: task_step_Inr simp: transition_task_def can_transition_to_def)
qed

text \<open>Only a task that is leased and not yet running can lose its lease to the clock. Once it runs the
  lease is gone and at no time does the task count as expired, and a task moved to \<open>Leased\<close> without
  \<open>lease\<close> (from requested changes) has none either.\<close>

theorem only_leases_expire:
  assumes none: "lease t = None" and run: "run_all task_step t ops = Inr u" and "lease_expired u now"
  shows "task_state u = Leased \<and> (\<exists>l. lease u = Some l \<and> expires_at l \<le> now
    \<and> TakeLease (lease_session l) (expires_at l) \<in> set ops)"
proof -
  have keep: "lease u = None \<or> (\<exists>l. lease u = Some l \<and> TakeLease (lease_session l) (expires_at l) \<in> set ops)"
    using run
  proof (induction ops arbitrary: u rule: rev_induct)
    case (snoc op ops)
    then obtain v where v: "run_all task_step t ops = Inr v" "task_step v op = Inr u"
      by (auto simp: run_all_snoc)
    from snoc.IH [OF v(1)] v(2) show ?case
      by (cases op) (auto simp: transition_task_def lease_task_def split: if_splits)
  qed (simp add: none)
  have "lease u \<noteq> None" using assms(3) by (auto simp: lease_expired_def split: option.splits)
  moreover have "lease_held u" using task_life.run_good [OF _ run] none by (simp add: lease_held_def)
  ultimately show ?thesis
    using keep assms(3) by (auto simp: lease_held_def lease_expired_def is_live_def not_less)
qed

theorem only_leases_expire_witness:
  "\<exists>u. run_all task_step (sample_task 2) [Move Ready, TakeLease [97] 9] = Inr u \<and> task_state u = Leased"
proof -
  obtain u where u: "run_all task_step (sample_task 2) [Move Ready, TakeLease [97] 9] = Inr u"
      "lease u = Some \<lparr>lease_session = [97], expires_at = 9\<rparr>"
    by (simp add: sample_task_def implementation_task_def transition_task_def lease_task_def can_transition_to_def)
  have none: "lease (sample_task 2) = None" by (simp add: sample_task_def implementation_task_def)
  have "lease_expired u 9" using u(2) by (simp add: lease_expired_def is_live_def)
  from only_leases_expire [OF none u(1) this] u show ?thesis by blast
qed

section \<open>Separation of duties\<close>

text \<open>The rule a session breaks by sharing its name with an implementer.\<close>

fun blocks :: "separation_policy \<Rightarrow> agent_role \<Rightarrow> bool" where
  "blocks p SpecVerifier = True"
| "blocks p Reviewer = True"
| "blocks p UxReviewer = True"
| "blocks p TaskPlanner = (planner_separation p = Blocking)"
| "blocks p Architect = (planner_separation p = Blocking)"
| "blocks p TestEngineer = (tester_separation p = Blocking)"
| "blocks p Implementer = False"
| "blocks p SpecAuthor = False"

lemma record_role_blocking:
  "blocking (record_role p n r rep) = [] \<longleftrightarrow> blocking rep = [] \<and> \<not> blocks p r"
  by (cases r) (auto simp: push_violation_def split: enforcement.splits)

lemma check_group_blocking:
  "blocking (check_group p g rep) = [] \<longleftrightarrow> blocking rep = []
     \<and> \<not> ((\<exists>s \<in> set (snd g). is_producing (session_role s)) \<and> (\<exists>s \<in> set (snd g). blocks p (session_role s)))"
proof -
  have "blocking (fold (\<lambda>s. record_role p n (session_role s)) ss rep) = [] \<longleftrightarrow>
      blocking rep = [] \<and> (\<forall>s \<in> set ss. \<not> blocks p (session_role s))" for n ss
    by (induction ss arbitrary: rep) (auto simp: record_role_blocking)
  then show ?thesis by (auto simp: check_group_def list_ex_iff)
qed

lemma group_sessions_get:
  "bm_ok (group_sessions ss) \<and> (\<forall>n. bm_get (group_sessions ss) n =
     (case filter (\<lambda>s. session_name s = n) ss of [] \<Rightarrow> None | g \<Rightarrow> Some g))"
proof (induction ss rule: rev_induct)
  case Nil
  then show ?case by (simp add: group_sessions_def)
next
  case (snoc s ss)
  have step: "group_sessions (ss @ [s]) = bm_insert (session_name s)
     ((case bm_get (group_sessions ss) (session_name s) of Some g \<Rightarrow> g | None \<Rightarrow> []) @ [s]) (group_sessions ss)"
    by (simp add: group_sessions_def)
  show ?case
    unfolding step using snoc by (auto simp: bm_get_insert bm_ok_insert split: list.splits)
qed

text \<open>A dispatch is permitted exactly when no session in which an implementer works is also used by a
  reviewer, a user-interface reviewer or the verifier, nor by a planner or a tester where the policy
  makes that blocking.\<close>

theorem separation_exact:
  "is_permitted (check_separation p ss) \<longleftrightarrow>
     \<not> (\<exists>s t. s \<in> set ss \<and> t \<in> set ss \<and> session_name s = session_name t
        \<and> session_role s = Implementer \<and> blocks p (session_role t))"
proof -
  have fold: "blocking (fold (check_group p) gs rep) = [] \<longleftrightarrow> blocking rep = []
      \<and> (\<forall>g \<in> set gs. \<not> ((\<exists>s \<in> set (snd g). is_producing (session_role s))
           \<and> (\<exists>s \<in> set (snd g). blocks p (session_role s))))" for gs rep
    by (induction gs arbitrary: rep) (auto simp: check_group_blocking)
  have groups: "(n, g) \<in> set (group_sessions ss) \<longleftrightarrow> g = filter (\<lambda>s. session_name s = n) ss \<and> g \<noteq> []" for n g
    using group_sessions_get [of ss] btm.get_iff_entry [of "group_sessions ss" n g]
    by (auto split: list.splits)
  have "is_permitted (check_separation p ss) \<longleftrightarrow> (\<forall>g \<in> set (group_sessions ss).
      \<not> ((\<exists>s \<in> set (snd g). is_producing (session_role s)) \<and> (\<exists>s \<in> set (snd g). blocks p (session_role s))))"
    unfolding is_permitted_def check_separation_def fold by simp
  also have "\<dots> \<longleftrightarrow> (\<forall>n g. (n, g) \<in> set (group_sessions ss) \<longrightarrow>
      \<not> ((\<exists>s \<in> set g. is_producing (session_role s)) \<and> (\<exists>s \<in> set g. blocks p (session_role s))))" by force
  also have "\<dots> \<longleftrightarrow> \<not> (\<exists>s t. s \<in> set ss \<and> t \<in> set ss \<and> session_name s = session_name t
        \<and> session_role s = Implementer \<and> blocks p (session_role t))"
    unfolding groups by (fastforce simp: is_producing_def filter_empty_conv)
  finally show ?thesis .
qed

section \<open>Collisions\<close>

definition surfaces_collide :: "affected_surface \<Rightarrow> affected_surface \<Rightarrow> bool" where
  "surfaces_collide a b \<longleftrightarrow>
     (if surface_path a = surface_path b
      then is_directory_entry (surface_path a) \<or> surface_symbols a = [] \<or> surface_symbols b = []
        \<or> set (surface_symbols a) \<inter> set (surface_symbols b) \<noteq> {}
      else beneath (surface_path a) (surface_path b) \<or> beneath (surface_path b) (surface_path a))"

lemma beneath_directory: "beneath a b \<Longrightarrow> is_directory_entry a"
  by (auto simp: beneath_def is_directory_entry_def split: option.splits)

lemma bs_of_list_empty [simp]: "bs_of_list xs = [] \<longleftrightarrow> xs = []"
  by (metis set_bs_of_list set_empty)

lemma shared_entries_one: "shared_entries [a] [b] = [] \<longleftrightarrow> \<not> (a = b \<or> beneath a b \<or> beneath b a)"
  by (auto simp: shared_entries_def shared_entry_def dest: beneath_directory)

lemma shared_between_iff: "shared_between a b \<noteq> [] \<longleftrightarrow> surfaces_collide a b"
  by (auto simp: shared_between_def Let_def surfaces_collide_def shared_entries_one filter_empty_conv
      dest: beneath_directory)

lemma shared_with_iff:
  "shared_with as bs \<noteq> [] \<longleftrightarrow> (\<exists>a \<in> set as. \<exists>b \<in> set bs. surfaces_collide a b)"
  by (simp add: shared_with_def shared_between_iff [symmetric])

definition tasks_collide :: "task \<Rightarrow> task \<Rightarrow> bool" where
  "tasks_collide s t \<longleftrightarrow> task_id s \<noteq> task_id t \<and> repository s = repository t
     \<and> (\<exists>a \<in> set (affects s). \<exists>b \<in> set (affects t). surfaces_collide a b)"

lemma tasks_collide_sym: "tasks_collide s t \<longleftrightarrow> tasks_collide t s"
proof -
  have "surfaces_collide a b \<longleftrightarrow> surfaces_collide b a" for a b
    by (auto simp: surfaces_collide_def)
  then show ?thesis by (auto simp: tasks_collide_def)
qed

lemma predict_None: "predict c others = None \<longleftrightarrow> (\<forall>t \<in> set others. \<not> tasks_collide c t)"
proof -
  have "find_collision c ts = None \<longleftrightarrow> (\<forall>t \<in> set ts. \<not> tasks_collide c t)" for ts
    by (induction ts) (auto simp: tasks_collide_def shared_with_iff)
  then show ?thesis by (auto simp: predict_def tasks_collide_def)
qed

lemma predict_Some:
  "predict c others = Some p \<Longrightarrow> \<exists>t \<in> set others. tasks_collide c t \<and> holder p = task_id t"
proof -
  have "find_collision c ts = Some p \<Longrightarrow> \<exists>t \<in> set ts. tasks_collide c t \<and> holder p = task_id t" for ts
    by (induction ts) (auto simp: tasks_collide_def shared_with_iff split: if_splits)
  then show "predict c others = Some p \<Longrightarrow> \<exists>t \<in> set others. tasks_collide c t \<and> holder p = task_id t"
    by (auto simp: predict_def split: if_splits)
qed

end
