(* ===== verification/Task_Schedule.thy ===== *)
theory Task_Schedule
  imports Task_Graph Task_Safety
begin

text \<open>
  What the task graph and its scheduler guarantee: validation decides executability, released tasks are
  safe to run beside everything that holds a surface, every held-back task has a true reason, and work
  that can proceed does.
\<close>

section \<open>The order and validation\<close>

text \<open>The topological order of a task graph is decided, within the depth the model gives it: either every
  task occurs once and after the tasks it depends on, and no dependencies form a cycle, or the error
  carries a real cycle of the graph.\<close>

theorem topological_order_decides:
  "case topological_order g of
     Inr xs \<Rightarrow> distinct xs \<and> set xs = task_ids g \<and> topo (needs g) {} xs
       \<and> (\<nexists>c. dependency_cycle (needs g) c \<and> set c \<subseteq> task_ids g)
   | Inl (Refused (Cycle c)) \<Rightarrow> dependency_cycle (needs g) c \<and> set c \<subseteq> task_ids g
   | Inl _ \<Rightarrow> False"
proof (cases "topological_order g")
  case (Inl e)
  from topological_order_Inl [OF this] Inl show ?thesis by auto
next
  case (Inr xs)
  have "\<nexists>c. dependency_cycle (needs g) c \<and> set c \<subseteq> task_ids g" using ordered_no_cycle [OF Inr] by blast
  with topological_order_Inr [OF Inr] Inr show ?thesis by simp
qed

lemma cycle_violations_none:
  "cycle_violations g = [] \<longleftrightarrow> (\<nexists>c. dependency_cycle (needs g) c \<and> set c \<subseteq> task_ids g)"
proof (cases "topological_order g")
  case (Inl e)
  from topological_order_Inl [OF this] Inl show ?thesis by (auto simp: cycle_violations_def)
next
  case (Inr xs)
  with ordered_no_cycle [OF Inr] show ?thesis by (auto simp: cycle_violations_def)
qed

definition fine_task :: "task_graph \<Rightarrow> initiative_definition \<Rightarrow> workspace \<Rightarrow> task \<Rightarrow> bool" where
  "fine_task g d w t \<longleftrightarrow>
     (kind t = Meta \<or> satisfies t \<noteq> []) \<and> plan_version t \<noteq> 0 \<and> task_id t \<notin> set (depends_on t)
     \<and> set (depends_on t) \<subseteq> task_ids g
     \<and> set (satisfies t) \<subseteq> requirement_id ` set (requirements d)
         - requirement_id ` {r \<in> set (requirements d). requirement_kind r = NonGoal}
     \<and> get_record w (repository t) \<noteq> None"

lemma task_violations_none: "task_violations g d w t = [] \<longleftrightarrow> fine_task g d w t"
proof -
  have "(case validate_task t of Inl ps \<Rightarrow> map (InvalidTask (task_id t)) ps | Inr _ \<Rightarrow> []) = []
      \<longleftrightarrow> task_problems t = []"
    by (simp add: validate_task_def no_problems_def)
  also have "\<dots> \<longleftrightarrow> (kind t = Meta \<or> satisfies t \<noteq> []) \<and> plan_version t \<noteq> 0 \<and> task_id t \<notin> set (depends_on t)"
    by (auto simp: task_problems_def requires_requirement_mapping_def)
  finally have own: "(case validate_task t of Inl ps \<Rightarrow> map (InvalidTask (task_id t)) ps | Inr _ \<Rightarrow> []) = []
      \<longleftrightarrow> (kind t = Meta \<or> satisfies t \<noteq> []) \<and> plan_version t \<noteq> 0 \<and> task_id t \<notin> set (depends_on t)" .
  have deps: "filter (\<lambda>x. get_task g x = None) (depends_on t) = [] \<longleftrightarrow> set (depends_on t) \<subseteq> task_ids g"
    unfolding filter_empty_conv by (auto simp: task_ids_get)
  have reqs: "concat (map (requirement_violations (requirement_ids d)
        (bs_of_list (map requirement_id (non_goals d))) (task_id t)) (satisfies t)) = []
      \<longleftrightarrow> set (satisfies t) \<subseteq> requirement_id ` set (requirements d)
         - requirement_id ` {r \<in> set (requirements d). requirement_kind r = NonGoal}"
    by (auto simp: requirement_violations_def requirement_ids_def non_goals_def)
  show ?thesis
    unfolding task_violations_def append_is_Nil_conv own map_is_Nil_conv deps reqs fine_task_def
    by (auto simp: contains_record_def get_record_def)
qed

text \<open>Validation accepts exactly the executable graphs: every task is consistent, depends on tasks of
  the graph, maps to requirements in scope and targets a known repository, no dependencies form a
  cycle, and every actionable requirement has a task that was not superseded.\<close>

theorem graph_valid_iff:
  "validate_graph g d w = Inr () \<longleftrightarrow>
     list_all (fine_task g d w) (bm_values (tasks g))
     \<and> (\<nexists>c. dependency_cycle (needs g) c \<and> set c \<subseteq> task_ids g)
     \<and> list_all (\<lambda>r. requirement_kind r = NonGoal
          \<or> list_ex (\<lambda>t. task_state t \<noteq> Superseded \<and> requirement_id r \<in> set (satisfies t)) (bm_values (tasks g)))
        (requirements d)"
proof -
  let ?vs = "concat (map (task_violations g d w) (bm_values (tasks g)))"
  have vs: "?vs = [] \<longleftrightarrow> list_all (fine_task g d w) (bm_values (tasks g))"
    by (simp add: task_violations_none list_all_iff)
  have "is_actionable k \<longleftrightarrow> k \<noteq> NonGoal" for k by (cases k) simp_all
  then have un: "uncovered g d = [] \<longleftrightarrow> list_all (\<lambda>r. requirement_kind r = NonGoal
      \<or> list_ex (\<lambda>t. task_state t \<noteq> Superseded \<and> requirement_id r \<in> set (satisfies t)) (bm_values (tasks g)))
        (requirements d)"
    by (auto simp: uncovered_def filter_empty_conv mapped_requirements_def actionable_requirements_def
        list_all_iff list_ex_iff)
  have "validate_graph g d w = Inr () \<longleftrightarrow> ?vs = [] \<and> cycle_violations g = [] \<and> uncovered g d = []"
    unfolding validate_graph_def no_problems_def graph_violations_def Let_def by auto
  then show ?thesis unfolding vs cycle_violations_none un .
qed

section \<open>A pass of the scheduler\<close>

text \<open>Tasks are filed under their own identifiers, as \<open>insert\<close> files them.\<close>

definition filed :: "task_graph \<Rightarrow> bool" where
  "filed g \<longleftrightarrow> bm_ok (tasks g) \<and> list_all (\<lambda>e. task_id (snd e) = fst e) (tasks g)"

lemma filed_new: "filed (new_graph i v p)"
  by (simp add: filed_def new_graph_def)

lemma filed_insert: "filed g \<Longrightarrow> filed (insert_task t g)"
  by (auto simp: filed_def insert_task_def bm_ok_insert list_all_iff dest: mem_bm_insert)

lemma filed_get: "filed g \<Longrightarrow> get_task g x = Some t \<Longrightarrow> task_id t = x"
  by (fastforce simp: filed_def get_task_def list_all_iff dest: bm_get_mem)

lemma filed_values: "filed g \<Longrightarrow> t \<in> set (bm_values (tasks g)) \<longleftrightarrow> get_task g (task_id t) = Some t"
proof
  assume g: "filed g" and "t \<in> set (bm_values (tasks g))"
  then obtain x where "(x, t) \<in> set (tasks g)" by (auto simp: bm_values_def)
  with g have "(task_id t, t) \<in> set (tasks g)" by (auto simp: filed_def list_all_iff)
  with g show "get_task g (task_id t) = Some t"
    by (simp add: get_task_def filed_def btm.get_iff_entry)
next
  assume "get_task g (task_id t) = Some t"
  then show "t \<in> set (bm_values (tasks g))"
    by (auto simp: get_task_def bm_values_def dest!: bm_get_mem intro: rev_image_eqI)
qed

text \<open>What holds a surface when the pass starts.\<close>

definition is_holding :: "u64 \<Rightarrow> task \<Rightarrow> bool" where
  "is_holding now t \<longleftrightarrow> is_active (task_state t) \<and> \<not> lease_expired t now"

text \<open>The keys that are held are those of the holders.\<close>

definition keys_held :: "pass \<Rightarrow> bool" where
  "keys_held p \<longleftrightarrow> (\<forall>t \<in> set (holders p). \<forall>k. exclusivity t = Some k \<longrightarrow> bm_get (held p) k \<noteq> None)
     \<and> (\<forall>k x. bm_get (held p) k = Some x \<longrightarrow> (\<exists>t \<in> set (holders p). task_id t = x \<and> exclusivity t = Some k))"

lemma keys_held_hold: "keys_held p \<Longrightarrow> keys_held (hold now t p)"
  by (cases "exclusivity t") (auto simp: keys_held_def hold_def bm_get_insert split: if_splits)

lemma keys_held_release: "keys_held p \<Longrightarrow> task_id t = x \<Longrightarrow> keys_held (release_task x t p)"
  by (cases "exclusivity t") (auto simp: keys_held_def release_task_def bm_get_insert split: if_splits)

lemma hold_simps [simp]:
  "ready_tasks (hold now t p) = ready_tasks p" "blocked (hold now t p) = blocked p"
  "holders (hold now t p) = holders p @ (if is_holding now t then [t] else [])"
  by (simp_all add: hold_def is_holding_def)

lemma start_pass_simps:
  "keys_held (start_pass g now)" "ready_tasks (start_pass g now) = []" "blocked (start_pass g now) = []"
  "set (holders (start_pass g now)) = {t \<in> set (bm_values (tasks g)). is_holding now t}"
proof -
  have "keys_held p \<Longrightarrow> keys_held (fold (hold now) ts p)"
    and "ready_tasks (fold (hold now) ts p) = ready_tasks p"
    and "blocked (fold (hold now) ts p) = blocked p"
    and "set (holders (fold (hold now) ts p)) = set (holders p) \<union> {t \<in> set ts. is_holding now t}" for ts p
    by (induction ts arbitrary: p) (auto simp: keys_held_hold)
  moreover have "keys_held \<lparr>ready_tasks = [], blocked = bm_empty, held = bm_empty, holders = []\<rparr>"
    by (simp add: keys_held_def)
  ultimately show "keys_held (start_pass g now)" "ready_tasks (start_pass g now) = []"
    "blocked (start_pass g now) = []"
    "set (holders (start_pass g now)) = {t \<in> set (bm_values (tasks g)). is_holding now t}"
    by (simp_all add: start_pass_def)
qed

text \<open>Two tasks that must not run side by side.\<close>

definition clash :: "task \<Rightarrow> task \<Rightarrow> bool" where
  "clash s t \<longleftrightarrow> (\<exists>k. exclusivity s = Some k \<and> exclusivity t = Some k) \<or> tasks_collide s t"

lemma clash_sym: "clash s t \<Longrightarrow> clash t s"
  by (auto simp: clash_def tasks_collide_sym)

lemma dependency_block_None:
  "dependency_block g bl ds = None \<longleftrightarrow>
     (\<forall>d \<in> set ds. bm_get bl d = None \<and> (\<exists>u. get_task g d = Some u \<and> task_state u = Verified))"
  by (induction ds) (auto simp: satisfies_dependents_def split: option.splits)

text \<open>A reason that is true of the graph and the pass.\<close>

fun true_reason :: "task_graph \<Rightarrow> workspace \<Rightarrow> sequence_id set \<Rightarrow> task set \<Rightarrow> task \<Rightarrow> block_cause \<Rightarrow> bool" where
  "true_reason g w bl hs t (DependencyUnverified d s) \<longleftrightarrow> d \<in> set (depends_on t)
     \<and> (\<exists>u. get_task g d = Some u \<and> task_state u = s \<and> s \<noteq> Verified)"
| "true_reason g w bl hs t (AncestorBlocked d) \<longleftrightarrow> d \<in> set (depends_on t) \<and> (d \<in> bl \<or> get_task g d = None)"
| "true_reason g w bl hs t (MissingCapability r cs) \<longleftrightarrow> r = repository t \<and> cs \<noteq> []
     \<and> cs = missing_capabilities w t"
| "true_reason g w bl hs t (ExclusivityHeld k x) \<longleftrightarrow> exclusivity t = Some k
     \<and> (\<exists>u \<in> hs. task_id u = x \<and> exclusivity u = Some k)"
| "true_reason g w bl hs t (PredictedCollision x es) \<longleftrightarrow> (\<exists>u \<in> hs. task_id u = x \<and> tasks_collide t u)"

lemma true_reason_mono:
  "true_reason g w bl hs t r \<Longrightarrow> bl \<subseteq> bl' \<Longrightarrow> hs \<subseteq> hs' \<Longrightarrow> true_reason g w bl' hs' t r"
  by (cases r) auto

definition blocked_ids :: "pass \<Rightarrow> sequence_id set" where
  "blocked_ids p = {x. bm_get (blocked p) x \<noteq> None}"

lemma block_reason_Some:
  assumes "keys_held p" "block_reason g w p t = Some r"
  shows "true_reason g w (blocked_ids p) (set (holders p)) t r"
proof (cases "dependency_block g (blocked p) (depends_on t)")
  case (Some r')
  have "dependency_block g bl ds = Some r \<Longrightarrow> set ds \<subseteq> set (depends_on t)
      \<Longrightarrow> true_reason g w {x. bm_get bl x \<noteq> None} hs t r" for bl ds hs
    by (induction ds) (auto simp: satisfies_dependents_def split: option.splits if_splits)
  with Some assms(2) show ?thesis by (simp add: block_reason_def blocked_ids_def)
next
  case None
  show ?thesis
  proof (cases "missing_capabilities w t = []")
    case False
    with None assms(2) show ?thesis by (auto simp: block_reason_def)
  next
    case True
    show ?thesis
    proof (cases "exclusivity_block (held p) t")
      case (Some r')
      with None True assms show ?thesis
        by (cases "exclusivity t") (auto simp: block_reason_def exclusivity_block_def keys_held_def)
    next
      case (None)
      with True \<open>dependency_block g (blocked p) (depends_on t) = None\<close> assms(2)
      show ?thesis by (auto simp: block_reason_def dest!: predict_Some)
    qed
  qed
qed

lemma block_reason_None:
  assumes "keys_held p" "block_reason g w p t = None"
  shows "(\<forall>d \<in> set (depends_on t). \<exists>u. get_task g d = Some u \<and> task_state u = Verified)"
    "missing_capabilities w t = []" "u \<in> set (holders p) \<Longrightarrow> \<not> clash t u"
proof -
  from assms(2) have n: "dependency_block g (blocked p) (depends_on t) = None"
    "missing_capabilities w t = []" "exclusivity_block (held p) t = None" "predict t (holders p) = None"
    by (auto simp: block_reason_def split: option.splits if_splits)
  show "\<forall>d \<in> set (depends_on t). \<exists>u. get_task g d = Some u \<and> task_state u = Verified"
    using n(1) by (auto simp: dependency_block_None)
  show "missing_capabilities w t = []" by (rule n(2))
  show "\<not> clash t u" if "u \<in> set (holders p)"
    using n(3,4) that assms(1)
    by (auto simp: clash_def exclusivity_block_def predict_None keys_held_def)
qed

text \<open>What holds after the tasks \<open>xs\<close> have been considered.\<close>

definition holding_tasks :: "task_graph \<Rightarrow> u64 \<Rightarrow> sequence_id set \<Rightarrow> task set" where
  "holding_tasks g now xs = {t \<in> set (bm_values (tasks g)). is_holding now t} \<union> {t. \<exists>x \<in> xs. get_task g x = Some t}"

definition released :: "task_graph \<Rightarrow> workspace \<Rightarrow> task set \<Rightarrow> sequence_id \<Rightarrow> bool" where
  "released g w hs x \<longleftrightarrow> (\<exists>t. get_task g x = Some t \<and> is_releasable (task_state t)
     \<and> (\<forall>d \<in> set (depends_on t). \<exists>u. get_task g d = Some u \<and> task_state u = Verified)
     \<and> missing_capabilities w t = [] \<and> (\<forall>u \<in> hs. u \<noteq> t \<longrightarrow> \<not> clash t u))"

definition waiting :: "task_graph \<Rightarrow> sequence_id \<Rightarrow> bool" where
  "waiting g x \<longleftrightarrow> (\<exists>t. get_task g x = Some t \<and> is_releasable (task_state t))"

definition sound_pass :: "task_graph \<Rightarrow> workspace \<Rightarrow> u64 \<Rightarrow> sequence_id list \<Rightarrow> pass \<Rightarrow> bool" where
  "sound_pass g w now xs p \<longleftrightarrow> keys_held p \<and> bm_ok (blocked p) \<and> distinct (ready_tasks p)
     \<and> set (holders p) = holding_tasks g now (set (ready_tasks p))
     \<and> set (ready_tasks p) \<union> blocked_ids p = {x \<in> set xs. waiting g x}
     \<and> set (ready_tasks p) \<inter> blocked_ids p = {}
     \<and> (\<forall>x \<in> set (ready_tasks p). released g w (set (holders p)) x)
     \<and> (\<forall>x t r. get_task g x = Some t \<longrightarrow> bm_get (blocked p) x = Some r \<longrightarrow>
          true_reason g w (blocked_ids p) (set (holders p)) t r)"

lemma sound_passD:
  assumes "sound_pass g w now xs p"
  shows "keys_held p" "bm_ok (blocked p)" "distinct (ready_tasks p)"
    "set (holders p) = holding_tasks g now (set (ready_tasks p))"
    "set (ready_tasks p) \<union> blocked_ids p = {x \<in> set xs. waiting g x}"
    "set (ready_tasks p) \<inter> blocked_ids p = {}"
    "x \<in> set (ready_tasks p) \<Longrightarrow> released g w (set (holders p)) x"
    "get_task g x = Some t \<Longrightarrow> bm_get (blocked p) x = Some r \<Longrightarrow>
       true_reason g w (blocked_ids p) (set (holders p)) t r"
  using assms unfolding sound_pass_def by blast+

lemma released_release:
  assumes "released g w hs x" "get_task g x = Some s" "\<not> clash t s"
  shows "released g w (insert t hs) x"
  using assms clash_sym [of s t] by (auto simp: released_def)

lemma consider_sound:
  assumes g: "filed g" and p: "sound_pass g w now xs p" and x: "x \<notin> set xs"
  shows "sound_pass g w now (xs @ [x]) (consider_task g w x p)"
proof (cases "waiting g x")
  case False
  then have "consider_task g w x p = p"
    by (cases "get_task g x") (auto simp: consider_task_def waiting_def)
  moreover have "{y \<in> set (xs @ [x]). waiting g y} = {y \<in> set xs. waiting g y}" using False by auto
  ultimately show ?thesis using p unfolding sound_pass_def by metis
next
  case True
  then obtain t where t: "get_task g x = Some t" "is_releasable (task_state t)" by (auto simp: waiting_def)
  have keys: "keys_held p" and fresh: "x \<notin> set (ready_tasks p)" "x \<notin> blocked_ids p"
    using sound_passD(1,5) [OF p] x by auto
  have more: "{y \<in> set (xs @ [x]). waiting g y} = insert x (set (ready_tasks p) \<union> blocked_ids p)"
    using True sound_passD(5) [OF p] by auto
  show ?thesis
  proof (cases "block_reason g w p t")
    case (Some r)
    have q: "consider_task g w x p = p\<lparr>blocked := bm_insert x r (blocked p)\<rparr>" (is "_ = ?q")
      using t Some by (simp add: consider_task_def)
    have ids: "blocked_ids ?q = insert x (blocked_ids p)" by (auto simp: blocked_ids_def bm_get_insert)
    have "true_reason g w (insert x (blocked_ids p)) (set (holders p)) t r"
      using true_reason_mono [OF block_reason_Some [OF keys Some] subset_insertI subset_refl] .
    moreover have "true_reason g w (insert x (blocked_ids p)) (set (holders p)) u r'"
      if "get_task g y = Some u" "bm_get (blocked p) y = Some r'" for y u r'
      using true_reason_mono [OF sound_passD(8) [OF p that] subset_insertI subset_refl] .
    moreover have "keys_held ?q" using keys by (simp add: keys_held_def)
    ultimately show ?thesis
      using sound_passD(2-4,6,7) [OF p] t(1) fresh unfolding q sound_pass_def ids more
      by (auto simp: bm_ok_insert bm_get_insert)
  next
    case None
    have q: "consider_task g w x p = release_task x t p" (is "_ = ?q")
      using t None by (simp add: consider_task_def)
    have new: "ready_tasks ?q = ready_tasks p @ [x]" "blocked ?q = blocked p" "holders ?q = holders p @ [t]"
      "blocked_ids ?q = blocked_ids p" "keys_held ?q"
      using keys_held_release [OF keys filed_get [OF g t(1)]] by (simp_all add: release_task_def blocked_ids_def)
    have "released g w (insert t (set (holders p))) x"
      using t block_reason_None [OF keys None] by (auto simp: released_def)
    moreover have "released g w (insert t (set (holders p))) y" if y: "y \<in> set (ready_tasks p)" for y
    proof -
      have r: "released g w (set (holders p)) y" by (rule sound_passD(7) [OF p y])
      then obtain s where s: "get_task g y = Some s" by (auto simp: released_def)
      then have "s \<in> set (holders p)" using y sound_passD(4) [OF p] by (auto simp: holding_tasks_def)
      with released_release [OF r s] block_reason_None(3) [OF keys None] show ?thesis by blast
    qed
    moreover have "true_reason g w (blocked_ids p) (insert t (set (holders p))) u r'"
      if "get_task g y = Some u" "bm_get (blocked p) y = Some r'" for y u r'
      using true_reason_mono [OF sound_passD(8) [OF p that] subset_refl subset_insertI] .
    moreover have "holding_tasks g now (insert x (set (ready_tasks p)))
        = insert t (holding_tasks g now (set (ready_tasks p)))"
      using t(1) by (auto simp: holding_tasks_def)
    ultimately show ?thesis
      using sound_passD(2-6) [OF p] fresh new(5) unfolding q sound_pass_def new(1-4) more by auto
  qed
qed

lemma schedule_pass_sound:
  assumes "filed g"
  shows "sound_pass g w now (schedule_order g) (schedule_pass g w now)"
proof -
  have start: "sound_pass g w now [] (start_pass g now)"
    by (auto simp: sound_pass_def start_pass_simps holding_tasks_def blocked_ids_def)
  have "distinct xs \<Longrightarrow> sound_pass g w now xs (fold (consider_task g w) xs (start_pass g now))" for xs
    by (induction xs rule: rev_induct) (simp_all add: start consider_sound [OF assms])
  moreover have "distinct (schedule_order g)"
    using topological_order_Inr(1) by (auto simp: schedule_order_def split: sum.splits)
  ultimately show ?thesis by (simp add: schedule_pass_def)
qed

section \<open>What a schedule promises\<close>

text \<open>C30: A released task is safe to run now: it waits for release, everything it depends on is verified, its
  repository grants all it needs, and neither a task that holds a live lease or runs, nor another task
  released in the same pass, shares its exclusivity key or collides with its declared surfaces.\<close>

theorem schedule_releases_safely:
  assumes "filed g"
  shows "list_all (released g w (holding_tasks g now (set (ready_tasks (schedule g w now)))))
    (ready_tasks (schedule g w now))"
proof -
  have "sound_pass g w now (schedule_order g) (schedule_pass g w now)" by (rule schedule_pass_sound [OF assms])
  from sound_passD(4,7) [OF this] show ?thesis by (simp add: schedule_def Let_def list_all_iff)
qed

definition sample_graph :: task_graph where
  "sample_graph = insert_task ((sample_task 2)\<lparr>task_state := Verified\<rparr>)
     (insert_task ((sample_task 3)\<lparr>depends_on := [task_id (sample_task 2)], exclusivity := Some [97]\<rparr>)
     (insert_task ((sample_task 5)\<lparr>exclusivity := Some [97]\<rparr>)
     (new_graph (SequenceId [97] 3) 2 (SequenceId [98] 3))))"

definition sample_workspace :: workspace where
  "sample_workspace = insert_record ((read_only sample_repository)\<lparr>capabilities := write_set\<rparr>) bm_empty"

lemma sample_graph_filed: "filed sample_graph"
  by (simp add: sample_graph_def filed_insert filed_new)

lemma sample_schedule: "ready_tasks (schedule sample_graph sample_workspace 7) = [task_id (sample_task 3)]
    \<and> bm_keys (blocked (schedule sample_graph sample_workspace 7)) = [task_id (sample_task 5)]
    \<and> is_ok (topological_order sample_graph)"
  by code_simp

theorem schedule_releases_safely_witness:
  "released sample_graph sample_workspace (holding_tasks sample_graph 7 {task_id (sample_task 3)})
     (task_id (sample_task 3))"
  using schedule_releases_safely [OF sample_graph_filed, of sample_workspace 7] sample_schedule by simp

text \<open>C31: No task that waits is lost: in a graph that can be ordered, every releasable task is either released
  or held back, never both, and the reason given for holding it back is true.\<close>

theorem schedule_accounts:
  assumes g: "filed g" and xs: "topological_order g = Inr xs"
  shows "set (ready_tasks (schedule g w now)) \<union> set (bm_keys (blocked (schedule g w now))) = {x. waiting g x}
    \<and> set (ready_tasks (schedule g w now)) \<inter> set (bm_keys (blocked (schedule g w now))) = {}
    \<and> (\<forall>x t r. get_task g x = Some t \<and> reason_for (schedule g w now) x = Some r \<longrightarrow>
         true_reason g w (set (bm_keys (blocked (schedule g w now))))
           (holding_tasks g now (set (ready_tasks (schedule g w now)))) t r)"
proof -
  let ?p = "schedule_pass g w now"
  have p: "sound_pass g w now xs ?p"
    using schedule_pass_sound [OF g, of w now] xs by (simp add: schedule_order_def)
  have keys: "set (bm_keys (blocked ?p)) = blocked_ids ?p"
    using btm.get_iff_entry [OF sound_passD(2) [OF p]] by (force simp: blocked_ids_def bm_keys_def)
  have "{x \<in> set xs. waiting g x} = {x. waiting g x}"
    using topological_order_Inr(2) [OF xs] by (auto simp: waiting_def task_ids_get)
  with sound_passD(5) [OF p] have "set (ready_tasks ?p) \<union> blocked_ids ?p = {x. waiting g x}" by simp
  moreover have "\<forall>x t r. get_task g x = Some t \<and> bm_get (blocked ?p) x = Some r \<longrightarrow>
      true_reason g w (blocked_ids ?p) (holding_tasks g now (set (ready_tasks ?p))) t r"
    using sound_passD(8) [OF p] unfolding sound_passD(4) [OF p] by blast
  moreover have "ready_tasks (schedule g w now) = ready_tasks ?p" "blocked (schedule g w now) = blocked ?p"
    by (simp_all add: schedule_def Let_def)
  ultimately show ?thesis using sound_passD(6) [OF p] by (simp only: reason_for_def keys simp_thms)
qed

theorem schedule_accounts_witness:
  "\<exists>r. reason_for (schedule sample_graph sample_workspace 7) (task_id (sample_task 5)) = Some r
     \<and> {x. waiting sample_graph x} = {task_id (sample_task 3), task_id (sample_task 5)}"
proof -
  obtain xs where "topological_order sample_graph = Inr xs"
    using sample_schedule by (auto simp: is_ok_iff)
  from schedule_accounts [OF sample_graph_filed this, of sample_workspace 7] sample_schedule
  have "{x. waiting sample_graph x} = {task_id (sample_task 3), task_id (sample_task 5)}" by auto
  moreover have "\<exists>r. reason_for (schedule sample_graph sample_workspace 7) (task_id (sample_task 5)) = Some r"
    using sample_schedule by (cases "blocked (schedule sample_graph sample_workspace 7)")
      (auto simp: bm_keys_def reason_for_def)
  ultimately show ?thesis by blast
qed

text \<open>C32: The scheduler makes progress: if the graph is valid in its dependencies and acyclic, every task waits
  for release or is verified and its repository grants what it needs, then as long as some task is not
  verified a pass releases at least one.\<close>

theorem schedule_progress:
  assumes g: "filed g" and xs: "topological_order g = Inr xs"
    and tasks: "list_all (\<lambda>t. set (depends_on t) \<subseteq> task_ids g \<and> missing_capabilities w t = []
      \<and> (is_releasable (task_state t) \<or> task_state t = Verified)) (bm_values (tasks g))"
    and work: "\<not> is_complete g"
  shows "ready_tasks (schedule g w now) \<noteq> []"
proof
  assume none: "ready_tasks (schedule g w now) = []"
  let ?p = "schedule_pass g w now"
  have p: "sound_pass g w now xs ?p" "ready_tasks ?p = []"
    using schedule_pass_sound [OF g, of w now] xs none by (simp_all add: schedule_order_def schedule_def Let_def)
  have quiet: "holders ?p = []"
    using sound_passD(4) [OF p(1)] p(2) tasks
    by (auto simp: holding_tasks_def is_holding_def is_active_def is_releasable_def list_all_iff simp flip: set_empty)
  let ?open = "\<lambda>x. waiting g x"
  obtain x where "x \<in> set xs" "waiting g x"
    using work tasks topological_order_Inr(2) [OF xs] filed_values [OF g]
    by (force simp: is_complete_def list_all_iff waiting_def task_ids_get)
  then obtain ys x zs where split: "xs = ys @ x # zs" "waiting g x" "\<forall>y \<in> set ys. \<not> waiting g y"
    using split_list_first_prop [of xs ?open] by blast
  then obtain t where t: "get_task g x = Some t" by (auto simp: waiting_def)
  have bl: "blocked_ids ?p = {x \<in> set xs. waiting g x}" using sound_passD(5) [OF p(1)] p(2) by simp
  then obtain r where "bm_get (blocked ?p) x = Some r" using split(1,2) by (auto simp: blocked_ids_def)
  then have r: "true_reason g w (blocked_ids ?p) {} t r" using sound_passD(8) [OF p(1) t] quiet by simp
  have tv: "t \<in> set (bm_values (tasks g))" using filed_values [OF g] filed_get [OF g t] t by simp
  have met: "\<exists>u. get_task g d = Some u \<and> task_state u = Verified \<and> d \<notin> blocked_ids ?p"
    if d: "d \<in> set (depends_on t)" for d
  proof -
    obtain u where u: "get_task g d = Some u" using d tv tasks by (force simp: list_all_iff task_ids_get)
    then have "d \<in> needs g x" using d t by (simp add: known_dependencies_def)
    then have "d \<in> set ys" using topo_earlier topological_order_Inr(3) [OF xs] split(1) by fastforce
    then have w: "\<not> waiting g d" using split(3) by blast
    have "u \<in> set (bm_values (tasks g))" using filed_values [OF g] filed_get [OF g u] u by simp
    then have "task_state u = Verified" using w u tasks by (auto simp: waiting_def list_all_iff)
    moreover have "d \<notin> blocked_ids ?p" using w by (simp add: bl)
    ultimately show ?thesis using u by blast
  qed
  show False
  proof (cases r)
    case (MissingCapability r' cs)
    with r tv tasks show False by (auto simp: list_all_iff)
  qed (use r met in fastforce)+
qed

theorem schedule_progress_witness:
  "\<not> is_complete sample_graph \<and> ready_tasks (schedule sample_graph sample_workspace 7) \<noteq> []"
proof -
  obtain xs where xs: "topological_order sample_graph = Inr xs"
    using sample_schedule by (auto simp: is_ok_iff)
  have tasks: "list_all (\<lambda>t. set (depends_on t) \<subseteq> task_ids sample_graph \<and> missing_capabilities sample_workspace t = []
      \<and> (is_releasable (task_state t) \<or> task_state t = Verified)) (bm_values (tasks sample_graph))"
    by code_simp
  have "\<not> is_complete sample_graph" by code_simp
  with schedule_progress [OF sample_graph_filed xs tasks this, of 7] show ?thesis by blast
qed

end
