(* ===== verification/Task_Waves.thy ===== *)
theory Task_Waves
  imports Task_Schedule
begin

text \<open>
  Descendants and waves of a task graph: the queue of \<open>descendants\<close> finds exactly the transitive dependents,
  and the waves are the layers in which tasks become ready.
\<close>

section \<open>Descendants\<close>

definition needs_directly :: "task_graph \<Rightarrow> sequence_id \<Rightarrow> sequence_id \<Rightarrow> bool" where
  "needs_directly g y x \<longleftrightarrow> (\<exists>t \<in> set (bm_values (tasks g)). task_id t = y \<and> x \<in> set (depends_on t))"

lemma set_dependents: "set (dependents g x) = {y. needs_directly g y x}"
  by (auto simp: dependents_def needs_directly_def)

lemma collect_new:
  "collect_new ds (found, queue) = (found', queue') \<Longrightarrow>
     set found' = set found \<union> set ds
     \<and> (\<exists>new. queue' = queue @ new \<and> distinct new \<and> set new = set ds - set found)
     \<and> (sorted_wrt (<) found \<longrightarrow> sorted_wrt (<) found')"
proof (induction ds arbitrary: found queue)
  case (Cons d ds)
  show ?case
  proof (cases "d \<in> set found")
    case True
    with Cons show ?thesis by (auto simp: insert_absorb)
  next
    case False
    with Cons.prems have "collect_new ds (bs_insert d found, queue @ [d]) = (found', queue')" by simp
    from Cons.IH [OF this] obtain new where
      IH: "set found' = insert d (set found) \<union> set ds" "queue' = queue @ [d] @ new" "distinct new"
        "set new = set ds - insert d (set found)" "sorted_wrt (<) found \<longrightarrow> sorted_wrt (<) found'"
      by auto
    have "queue' = queue @ (d # new) \<and> distinct (d # new) \<and> set (d # new) = set (d # ds) - set found"
      using IH False by auto
    with IH(1,5) show ?thesis by auto
  qed
qed simp

text \<open>Between two steps of the loop: everything found is a descendant, and what has left the queue has all
  its dependents found.\<close>

definition searching :: "task_graph \<Rightarrow> sequence_id \<Rightarrow> sequence_id list \<Rightarrow> sequence_id list \<Rightarrow> bool" where
  "searching g x found queue \<longleftrightarrow> sorted_wrt (<) found \<and> set queue \<subseteq> insert x (set found)
     \<and> (\<forall>y \<in> set found. (needs_directly g)\<^sup>+\<^sup>+ y x)
     \<and> (\<forall>y \<in> insert x (set found). y \<notin> set queue \<longrightarrow> {z. needs_directly g z y} \<subseteq> set found)"

definition task_names :: "task_graph \<Rightarrow> sequence_id set" where
  "task_names g = task_id ` set (bm_values (tasks g))"

lemma searching_step:
  assumes s: "searching g x found (y # queue)"
    and c: "collect_new (dependents g y) (found, queue) = (found', queue')"
  shows "searching g x found' queue'"
    "length queue' + card (task_names g - set found') \<le> length queue + card (task_names g - set found)"
proof -
  from collect_new [OF c] obtain new where
    f: "set found' = set found \<union> {z. needs_directly g z y}" "queue' = queue @ new" "distinct new"
      "set new = {z. needs_directly g z y} - set found" "sorted_wrt (<) found \<longrightarrow> sorted_wrt (<) found'"
    by (auto simp: set_dependents)
  have y: "y = x \<or> (needs_directly g)\<^sup>+\<^sup>+ y x" using s by (auto simp: searching_def)
  have "(needs_directly g)\<^sup>+\<^sup>+ z x" if "needs_directly g z y" for z
    using y that tranclp.r_into_trancl [of "needs_directly g" z y]
      tranclp_trans [of "needs_directly g" z y x] by blast
  then show "searching g x found' queue'"
    using s f(1,2,4,5) by (auto simp: searching_def)
  have fin: "finite (task_names g)" by (simp add: task_names_def)
  have sub: "set new \<subseteq> task_names g - set found"
    using f(4) by (auto simp: task_names_def needs_directly_def)
  have "task_names g - set found' = (task_names g - set found) - set new"
    unfolding f(1) f(4) by auto
  then have "card (task_names g - set found') = card (task_names g - set found) - length new"
    using sub fin f(3) by (simp add: card_Diff_subset distinct_card)
  moreover have "length new \<le> card (task_names g - set found)"
    using card_mono [OF _ sub] fin f(3) by (simp add: distinct_card)
  ultimately show "length queue' + card (task_names g - set found') \<le> length queue + card (task_names g - set found)"
    using f(2) by simp
qed

lemma descend_finds:
  "searching g x found queue \<Longrightarrow> length queue + card (task_names g - set found) \<le> n \<Longrightarrow>
     \<exists>ys. descend n g found queue = Some ys \<and> searching g x ys []"
proof (induction n g found queue rule: descend.induct)
  case (3 n g found y queue)
  obtain found' queue' where c: "collect_new (dependents g y) (found, queue) = (found', queue')"
    by (cases "collect_new (dependents g y) (found, queue)")
  from searching_step [OF "3.prems"(1) c] "3.prems"(2)
  have "searching g x found' queue'" "length queue' + card (task_names g - set found') \<le> n" by auto
  from "3.IH" [OF c [symmetric] refl this] c show ?case by simp
qed simp_all

text \<open>The descendants of a task are exactly the tasks that depend on it, directly or through others, each
  once and in order; the queue is empty within as many steps as there are tasks, and one more.\<close>

theorem descendants_exact:
  "\<exists>ys. descendants g x = Some ys \<and> sorted_wrt (<) ys
     \<and> set ys = {y. (\<lambda>a b. \<exists>t \<in> set (bm_values (tasks g)). task_id t = a \<and> b \<in> set (depends_on t))\<^sup>+\<^sup>+ y x}"
proof -
  have start: "searching g x [] [x]" by (simp add: searching_def)
  have "card (task_names g) \<le> length (tasks g)"
    unfolding task_names_def by (rule order_trans [OF card_image_le]) (simp_all add: bm_values_def card_length [of "map snd _", simplified])
  then obtain ys where ys: "descendants g x = Some ys" "searching g x ys []"
    using descend_finds [OF start, of "Suc (length (tasks g))"] by (auto simp: descendants_def)
  have "y \<in> set ys" if "(needs_directly g)\<^sup>+\<^sup>+ y x" for y
    using that by (induction rule: converse_tranclp_induct) (use ys(2) in \<open>auto simp: searching_def\<close>)
  with ys(2) have "set ys = {y. (needs_directly g)\<^sup>+\<^sup>+ y x}" by (auto simp: searching_def)
  then show ?thesis using ys by (simp add: searching_def needs_directly_def [abs_def])
qed

section \<open>Waves\<close>

lemma fold_max: "fold (\<lambda>n m. max n m) ns m = Max (insert m (set ns))"
  by (simp add: Max.set_eq_fold [symmetric])

lemma wave_depth_spec:
  assumes keys: "fst ` set depth = D" and D: "needs g x \<subseteq> D" "D \<subseteq> task_ids g"
  shows "(\<forall>y \<in> needs g x. the (bm_get depth y) < wave_depth g depth x)
    \<and> (wave_depth g depth x = 0 \<or> (\<exists>y \<in> needs g x. Suc (the (bm_get depth y)) = wave_depth g depth x))"
proof (cases "get_task g x")
  case None
  then show ?thesis by (simp add: wave_depth_def known_dependencies_def)
next
  case (Some t)
  let ?S = "set (map Suc (List.map_filter (bm_get depth) (depends_on t)))"
  have known: "bm_get depth y = Some n \<Longrightarrow> y \<in> D" for y n
    using keys bm_get_mem by force
  have get: "\<exists>n. bm_get depth y = Some n" if "y \<in> D" for y
    using that keys by (cases "bm_get depth y") (auto simp: bm_get_map_of map_of_eq_None_iff)
  have S: "?S = {Suc (the (bm_get depth y)) | y. y \<in> needs g x}"
  proof (intro set_eqI iffI)
    fix n assume "n \<in> ?S"
    then obtain y m where "y \<in> set (depends_on t)" "bm_get depth y = Some m" "n = Suc m"
      by (auto simp: set_map_filter)
    moreover from this known D(2) have "get_task g y \<noteq> None" using task_ids_get [of y g] by auto
    ultimately show "n \<in> {Suc (the (bm_get depth y)) | y. y \<in> needs g x}"
      using Some by (force simp: known_dependencies_def)
  next
    fix n assume "n \<in> {Suc (the (bm_get depth y)) | y. y \<in> needs g x}"
    then obtain y where y: "y \<in> needs g x" "n = Suc (the (bm_get depth y))" by blast
    moreover from y(1) D(1) get obtain m where "bm_get depth y = Some m" by blast
    moreover have "y \<in> set (depends_on t)" using y(1) Some by (simp add: known_dependencies_def)
    ultimately show "n \<in> ?S" by (force simp: set_map_filter)
  qed
  have w: "wave_depth g depth x = Max (insert 0 ?S)" using Some by (simp add: wave_depth_def fold_max)
  have "Suc (the (bm_get depth y)) \<le> Max (insert 0 ?S)" if "y \<in> needs g x" for y
    using that S by (intro Max_ge) auto
  moreover have "Max (insert 0 ?S) \<in> insert 0 ?S" by (intro Max_in) auto
  ultimately show ?thesis unfolding w using S by fastforce
qed

lemma wave_depths_spec:
  assumes "topo (needs g) {} xs" "distinct xs" "set xs \<subseteq> task_ids g"
  shows "bm_ok (wave_depths g xs) \<and> fst ` set (wave_depths g xs) = set xs
    \<and> depth_of (needs g) (set xs) (\<lambda>x. the (bm_get (wave_depths g xs) x))"
  using assms
proof (induction xs rule: rev_induct)
  case Nil
  then show ?case by (simp add: wave_depths_def depth_of_def)
next
  case (snoc x xs)
  let ?d = "wave_depths g xs"
  have step: "wave_depths g (xs @ [x]) = bm_insert x (wave_depth g ?d x) ?d" by (simp add: wave_depths_def)
  have x: "needs g x \<subseteq> set xs" "x \<notin> set xs" "topo (needs g) {} xs" using snoc.prems by (auto simp: topo_append)
  with snoc have IH: "bm_ok ?d" "fst ` set ?d = set xs" "depth_of (needs g) (set xs) (\<lambda>x. the (bm_get ?d x))"
    by auto
  have "set xs \<subseteq> task_ids g" using snoc.prems(3) by simp
  from depth_of_insert [OF IH(3) x(1,2) wave_depth_spec [OF IH(2) x(1) this]]
  have "depth_of (needs g) (set (xs @ [x])) (\<lambda>z. the (bm_get (wave_depths g (xs @ [x])) z))"
    unfolding step by (simp add: bm_get_insert fun_upd_def if_distrib cong: if_cong)
  then show ?case using IH(1,2) unfolding step by (simp add: bm_ok_insert keys_bm_insert)
qed

lemma push_waves:
  "let ws = fold push_wave es [] in
     (\<forall>i < length ws. ws ! i = map fst (filter (\<lambda>e. snd e = i) es))
     \<and> (\<forall>e \<in> set es. snd e < length ws) \<and> (ws = [] \<or> (\<exists>e \<in> set es. Suc (snd e) = length ws))"
proof (induction es rule: rev_induct)
  case (snoc e es)
  define ws where "ws = fold push_wave es []"
  define vs where "vs = (if length ws \<le> snd e then ws @ replicate (Suc (snd e) - length ws) [] else ws)"
  have IH: "\<And>i. i < length ws \<Longrightarrow> ws ! i = map fst (filter (\<lambda>e. snd e = i) es)"
    "\<And>e. e \<in> set es \<Longrightarrow> snd e < length ws" "ws = [] \<or> (\<exists>e \<in> set es. Suc (snd e) = length ws)"
    using snoc by (simp_all add: Let_def ws_def)
  have len: "length vs = max (length ws) (Suc (snd e))" by (simp add: vs_def)
  have vs: "vs ! i = map fst (filter (\<lambda>e. snd e = i) es)" if i: "i < length vs" for i
  proof (cases "i < length ws")
    case True
    with IH(1) show ?thesis by (simp add: vs_def nth_append)
  next
    case False
    then have "filter (\<lambda>e. snd e = i) es = []" using IH(2) by (auto simp: filter_empty_conv)
    with False i show ?thesis by (auto simp: vs_def nth_append)
  qed
  have "fold push_wave (es @ [e]) [] = vs[snd e := vs ! snd e @ [fst e]]"
    by (simp add: push_wave_def vs_def ws_def Let_def)
  moreover have "snd e' < max (length ws) (Suc (snd e))" if "e' \<in> set (es @ [e])" for e'
    using that IH(2) [of e'] by (auto simp: less_max_iff_disj)
  moreover have "\<exists>e' \<in> set (es @ [e]). Suc (snd e') = max (length ws) (Suc (snd e))"
    using IH(3) by (auto simp: max_def)
  ultimately show ?case using vs by (simp add: Let_def len nth_list_update)
qed simp

lemma concurrency_layers:
  assumes "concurrency_waves g = Inr ws"
  shows "layered (needs g) (task_ids g) {} ws" "set (concat ws) = task_ids g" "distinct (concat ws)"
    "[] \<notin> set ws"
proof -
  obtain xs where xs: "topological_order g = Inr xs" "ws = fold push_wave (wave_depths g xs) []"
    using assms by (auto simp: concurrency_waves_def map_ok_Inr)
  let ?m = "wave_depths g xs" and ?d = "\<lambda>x. the (bm_get (wave_depths g xs) x)"
  note order = topological_order_Inr [OF xs(1)]
  have m: "bm_ok ?m" "fst ` set ?m = task_ids g" "depth_of (needs g) (task_ids g) ?d"
    using wave_depths_spec [of g xs] order by auto
  have entry: "(x, n) \<in> set ?m \<longleftrightarrow> x \<in> task_ids g \<and> ?d x = n" for x n
  proof -
    have "x \<in> task_ids g \<longleftrightarrow> bm_get ?m x \<noteq> None"
      by (metis m(2) bm_get_map_of map_of_eq_None_iff)
    then show ?thesis using btm.get_iff_entry [OF m(1), of x n] by auto
  qed
  have w: "ws ! i = map fst (filter (\<lambda>e. snd e = i) ?m)" if "i < length ws" for i
    using push_waves [of ?m] that by (simp add: Let_def xs(2))
  have top: "x \<in> task_ids g \<Longrightarrow> ?d x < length ws" for x
    using push_waves [of ?m] entry [of x "?d x"] by (auto simp: Let_def xs(2))
  have last: "ws = [] \<or> (\<exists>x \<in> task_ids g. Suc (?d x) = length ws)"
    using push_waves [of ?m] entry by (fastforce simp: Let_def xs(2))
  have sets: "set (ws ! i) = {x \<in> task_ids g. ?d x = i}" if "i < length ws" for i
    using w [OF that] entry by force
  have lay: "layered (needs g) (task_ids g) {} ws" and all: "set (concat ws) = task_ids g"
    using depth_layered [OF m(3) sets] top by auto
  have "distinct (ws ! i)" if "i < length ws" for i
    using w [OF that] m(1) by (simp add: bm_ok_def strict_sorted_iff distinct_map_filter)
  then have "\<forall>w \<in> set ws. distinct w" by (auto simp: in_set_conv_nth)
  from layered_distinct [OF lay this] have dist: "distinct (concat ws)" .
  have "ws ! i \<noteq> []" if i: "i < length ws" for i
  proof -
    obtain x where "x \<in> task_ids g" "Suc (?d x) = length ws" using last i by auto
    then obtain y where "y \<in> task_ids g" "?d y = i" using depth_inhabited [OF m(3), of x i] i by auto
    with sets [OF i] show ?thesis by auto
  qed
  then have ne: "[] \<notin> set ws" by (auto simp: in_set_conv_nth)
  show "layered (needs g) (task_ids g) {} ws" "set (concat ws) = task_ids g" "distinct (concat ws)"
    "[] \<notin> set ws"
    by (fact lay all dist ne)+
qed

text \<open>The waves of a task graph are its layers: each wave holds exactly the tasks whose dependencies all
  lie in earlier waves and that are in none of them, every task is in exactly one wave, no wave is
  empty, and there are as many waves as the longest chain of dependencies has tasks.\<close>

theorem task_waves_are_layers:
  assumes "concurrency_waves g = Inr ws"
  shows "layered (needs g) (task_ids g) {} ws \<and> set (concat ws) = task_ids g \<and> distinct (concat ws)
    \<and> [] \<notin> set ws
    \<and> (\<exists>c. chain (needs g) c \<and> set c \<subseteq> task_ids g \<and> length c = length ws)
    \<and> (\<nexists>c. chain (needs g) c \<and> set c \<subseteq> task_ids g \<and> length ws < length c)"
  using concurrency_layers [OF assms]
    task_sort.longest_chain [OF concurrency_layers(1,2,4) [OF assms]] by blast

lemma sample_concurrency: "is_ok (concurrency_waves sample_graph)"
  by code_simp

theorem task_waves_are_layers_witness:
  "\<exists>ws. concurrency_waves sample_graph = Inr ws \<and> set (concat ws) = task_ids sample_graph"
proof -
  obtain ws where ws: "concurrency_waves sample_graph = Inr ws" using sample_concurrency by (auto simp: is_ok_iff)
  from task_waves_are_layers [OF this] ws show ?thesis by blast
qed

end
