(* ===== verification/Work_Protocol.thy ===== *)
theory Work_Protocol
  imports Ordered_Map Step_Machine
begin

text \<open>
  The durable work protocol (\<open>resilience/work_protocol.rs\<close>, identifiers of \<open>resilience/ids.rs\<close>): the
  lifecycle of a work item, leases with fencing generations, receipts, and the in-memory store.

  The functions of the protocol take the store as a trait object; here they take its methods as the
  record \<open>store_api\<close>. What they rely on is the locale \<open>work_store\<close>; it is interpreted on the in-memory
  store of the code. SHA-256 is not part of the sources: \<open>digest\<close>, an argument, maps a text to the bytes
  of the digest of its UTF-8 form. Time and generations are 64 bit and wrap as in the release profile.
\<close>

section \<open>Identifiers\<close>

definition hex_nibble :: "nat \<Rightarrow> uchar" where
  "hex_nibble n = (if n < 10 then 48 + n else 87 + n)"

definition hex_byte :: "nat \<Rightarrow> ustr" where
  "hex_byte b = [hex_nibble (b div 16), hex_nibble (b mod 16)]"

definition make_id :: "(ustr \<Rightarrow> nat list) \<Rightarrow> string \<Rightarrow> ustr \<Rightarrow> ustr" where
  "make_id digest prefix nonce =
     lit prefix @ lit ''-'' @ concat (map hex_byte (take 12 (digest (lit prefix @ nonce))))"

section \<open>Work items\<close>

datatype work_state = Created | Assigned | Delivered | Claimed | Running | Completed | Validated | Reviewed
  | Merged

fun work_state_text :: "work_state \<Rightarrow> string" where
  "work_state_text Created = ''CREATED''"
| "work_state_text Assigned = ''ASSIGNED''"
| "work_state_text Delivered = ''DELIVERED''"
| "work_state_text Claimed = ''CLAIMED''"
| "work_state_text Running = ''RUNNING''"
| "work_state_text Completed = ''COMPLETED''"
| "work_state_text Validated = ''VALIDATED''"
| "work_state_text Reviewed = ''REVIEWED''"
| "work_state_text Merged = ''MERGED''"

text \<open>The derived \<open>Debug\<close> prints the name of the variant.\<close>

fun work_state_debug :: "work_state \<Rightarrow> string" where
  "work_state_debug Created = ''Created''"
| "work_state_debug Assigned = ''Assigned''"
| "work_state_debug Delivered = ''Delivered''"
| "work_state_debug Claimed = ''Claimed''"
| "work_state_debug Running = ''Running''"
| "work_state_debug Completed = ''Completed''"
| "work_state_debug Validated = ''Validated''"
| "work_state_debug Reviewed = ''Reviewed''"
| "work_state_debug Merged = ''Merged''"

datatype non_happy = Blocked | Failed | Abandoned | RetryPending | NeedsHuman | Superseded | Cancelled | Unknown

fun non_happy_text :: "non_happy \<Rightarrow> string" where
  "non_happy_text Blocked = ''BLOCKED''"
| "non_happy_text Failed = ''FAILED''"
| "non_happy_text Abandoned = ''ABANDONED''"
| "non_happy_text RetryPending = ''RETRY_PENDING''"
| "non_happy_text NeedsHuman = ''NEEDS_HUMAN''"
| "non_happy_text Superseded = ''SUPERSEDED''"
| "non_happy_text Cancelled = ''CANCELLED''"
| "non_happy_text Unknown = ''UNKNOWN''"

fun non_happy_debug :: "non_happy \<Rightarrow> string" where
  "non_happy_debug Blocked = ''Blocked''"
| "non_happy_debug Failed = ''Failed''"
| "non_happy_debug Abandoned = ''Abandoned''"
| "non_happy_debug RetryPending = ''RetryPending''"
| "non_happy_debug NeedsHuman = ''NeedsHuman''"
| "non_happy_debug Superseded = ''Superseded''"
| "non_happy_debug Cancelled = ''Cancelled''"
| "non_happy_debug Unknown = ''Unknown''"

record work_item =
  work_id :: ustr
  work_state :: work_state
  non_happy :: "non_happy option"
  current_attempt :: "ustr option"
  created_at :: u64
  updated_at :: u64
  work_attempts :: "ustr list"

fun work_rank :: "work_state \<Rightarrow> nat" where
  "work_rank Created = 0"
| "work_rank Assigned = 1"
| "work_rank Delivered = 2"
| "work_rank Claimed = 3"
| "work_rank Running = 4"
| "work_rank Completed = 5"
| "work_rank Validated = 6"
| "work_rank Reviewed = 7"
| "work_rank Merged = 8"

lemma work_rank_inject [simp]: "work_rank s = work_rank t \<longleftrightarrow> s = t"
  by (cases s; cases t) simp_all

definition can_advance :: "work_state \<Rightarrow> work_state \<Rightarrow> bool" where
  "can_advance source to \<longleftrightarrow> work_rank source \<le> work_rank to \<and> work_rank to - work_rank source \<le> 1"

definition advance :: "work_item \<Rightarrow> work_state \<Rightarrow> u64 \<Rightarrow> ustr + work_item" where
  "advance item to now = (case non_happy item of
       Some n \<Rightarrow>
         if to \<noteq> Completed
         then Inl (lit ''cannot transition '' @ lit (work_state_debug to) @ lit '' from non-happy state ''
                @ lit (non_happy_debug n))
         else if \<not> can_advance (work_state item) to
         then Inl (lit ''illegal transition '' @ lit (work_state_text (work_state item)) @ lit '' -> ''
                @ lit (work_state_text to))
         else Inr (item\<lparr>work_state := to, updated_at := now\<rparr>)
     | None \<Rightarrow>
         if \<not> can_advance (work_state item) to
         then Inl (lit ''illegal transition '' @ lit (work_state_text (work_state item)) @ lit '' -> ''
                @ lit (work_state_text to))
         else Inr (item\<lparr>work_state := to, updated_at := now\<rparr>))"

section \<open>Leases and receipts\<close>

record work_lease =
  lease_claim :: ustr
  lease_work :: ustr
  lease_attempt :: ustr
  lease_session :: ustr
  acquired_at :: u64
  lease_expires_at :: u64
  heartbeat_at :: u64
  fencing_generation :: u64
  lease_seconds :: u64

definition is_expired :: "work_lease \<Rightarrow> u64 \<Rightarrow> bool" where
  "is_expired l now \<longleftrightarrow> lease_expires_at l \<le> now"

datatype receipt_stage = StageSent | StageDelivered | StageClaimed | StageHandled

fun receipt_stage_text :: "receipt_stage \<Rightarrow> string" where
  "receipt_stage_text StageSent = ''sent''"
| "receipt_stage_text StageDelivered = ''delivered''"
| "receipt_stage_text StageClaimed = ''claimed''"
| "receipt_stage_text StageHandled = ''handled''"

definition WORK_RECEIPT_SCHEMA :: string where
  "WORK_RECEIPT_SCHEMA = ''autospec.work-receipt.v1''"

record work_receipt =
  receipt_schema :: ustr
  receipt_id :: ustr
  idempotency_key :: ustr
  receipt_work :: ustr
  receipt_attempt :: ustr
  consumer :: ustr
  stage :: receipt_stage
  receipt_at :: u64

definition new_receipt :: "ustr \<Rightarrow> ustr \<Rightarrow> ustr \<Rightarrow> ustr \<Rightarrow> ustr \<Rightarrow> receipt_stage \<Rightarrow> u64 \<Rightarrow> work_receipt" where
  "new_receipt i k w a c st now = \<lparr>receipt_schema = lit WORK_RECEIPT_SCHEMA, receipt_id = i, idempotency_key = k,
     receipt_work = w, receipt_attempt = a, consumer = c, stage = st, receipt_at = now\<rparr>"

datatype acquire_result = Acquired work_lease | Contended | Terminal

section \<open>The protocol over a store\<close>

text \<open>The methods of the trait \<open>WorkStore\<close>; \<open>record_receipt\<close> answers whether the receipt is a duplicate.\<close>

record 's store_api =
  load_work :: "'s \<Rightarrow> ustr \<Rightarrow> work_item option"
  save_work :: "work_item \<Rightarrow> 's \<Rightarrow> 's"
  load_lease :: "'s \<Rightarrow> ustr \<Rightarrow> work_lease option"
  save_lease :: "work_lease \<Rightarrow> 's \<Rightarrow> 's"
  delete_lease :: "ustr \<Rightarrow> 's \<Rightarrow> 's"
  record_receipt :: "work_receipt \<Rightarrow> 's \<Rightarrow> 's \<times> bool"

definition claim_id :: "(ustr \<Rightarrow> nat list) \<Rightarrow> ustr \<Rightarrow> ustr \<Rightarrow> u64 \<Rightarrow> ustr" where
  "claim_id digest w a g = make_id digest ''claim'' (w @ lit '':'' @ a @ lit '':'' @ show_u64 g)"

definition fresh_lease :: "(ustr \<Rightarrow> nat list) \<Rightarrow> ustr \<Rightarrow> ustr \<Rightarrow> ustr \<Rightarrow> u64 \<Rightarrow> u64 \<Rightarrow> u64 \<Rightarrow> work_lease" where
  "fresh_lease digest w a session now seconds g =
     \<lparr>lease_claim = claim_id digest w a g, lease_work = w, lease_attempt = a, lease_session = session,
      acquired_at = now, lease_expires_at = now + seconds, heartbeat_at = now, fencing_generation = g,
      lease_seconds = seconds\<rparr>"

definition is_over :: "'s store_api \<Rightarrow> ustr \<Rightarrow> 's \<Rightarrow> bool" where
  "is_over W w s = (case load_work W s w of
       Some item \<Rightarrow> work_state item = Merged \<or> work_state item = Completed
     | None \<Rightarrow> False)"

definition acquire_lease ::
  "(ustr \<Rightarrow> nat list) \<Rightarrow> 's store_api \<Rightarrow> ustr \<Rightarrow> ustr \<Rightarrow> ustr \<Rightarrow> u64 \<Rightarrow> u64 \<Rightarrow> 's \<Rightarrow> 's \<times> acquire_result" where
  "acquire_lease digest W w a session now seconds s =
     (if is_over W w s then (s, Terminal)
      else case load_lease W s w of
        Some existing \<Rightarrow>
          if lease_attempt existing = a
          then if is_expired existing now
            then let l = fresh_lease digest w a session now seconds (fencing_generation existing + 1)
                 in (save_lease W l s, Acquired l)
            else (s, Contended)
          else (s, Contended)
      | None \<Rightarrow> let l = fresh_lease digest w a session now seconds 1 in (save_lease W l s, Acquired l))"

definition heartbeat :: "'s store_api \<Rightarrow> ustr \<Rightarrow> ustr \<Rightarrow> u64 \<Rightarrow> u64 \<Rightarrow> 's \<Rightarrow> 's \<times> bool" where
  "heartbeat W w session g now s = (case load_lease W s w of
       None \<Rightarrow> (s, False)
     | Some l \<Rightarrow>
         if lease_session l \<noteq> session \<or> fencing_generation l \<noteq> g then (s, False)
         else (save_lease W (l\<lparr>heartbeat_at := now, lease_expires_at := now + lease_seconds l\<rparr>) s, True))"

definition reclaim_expired :: "'s store_api \<Rightarrow> ustr \<Rightarrow> u64 \<Rightarrow> 's \<Rightarrow> 's \<times> bool" where
  "reclaim_expired W w now s = (case load_lease W s w of
       None \<Rightarrow> (s, False)
     | Some l \<Rightarrow>
         if \<not> is_expired l now then (s, False)
         else (save_lease W (l\<lparr>fencing_generation := fencing_generation l + 1, acquired_at := now,
                 heartbeat_at := now, lease_expires_at := now + lease_seconds l\<rparr>) s, True))"

definition try_finalize :: "'s store_api \<Rightarrow> ustr \<Rightarrow> ustr \<Rightarrow> ustr \<Rightarrow> u64 \<Rightarrow> 's \<Rightarrow> ustr + unit" where
  "try_finalize W w a session g s = (case load_lease W s w of
       None \<Rightarrow> Inl (lit ''no lease to finalize'')
     | Some l \<Rightarrow>
         if lease_attempt l \<noteq> a then Inl (lit ''attempt no longer owns the work'')
         else if lease_session l \<noteq> session then Inl (lit ''stale session cannot finalize'')
         else if fencing_generation l \<noteq> g then Inl (lit ''stale fencing generation cannot finalize'')
         else Inr ())"

definition record_delivery :: "'s store_api \<Rightarrow> work_receipt \<Rightarrow> 's \<Rightarrow> 's \<times> bool" where
  "record_delivery W r s = record_receipt W r s"

datatype recovery_action = Resume | Retry | Block | Escalate | Noop

definition reconcile_lease :: "'s store_api \<Rightarrow> ustr \<Rightarrow> u64 \<Rightarrow> 's \<Rightarrow> recovery_action" where
  "reconcile_lease W w now s = (case load_lease W s w of
       None \<Rightarrow> Block
     | Some l \<Rightarrow> if is_expired l now then Retry else Resume)"

definition DEFAULT_LEASE_SECONDS :: u64 where
  "DEFAULT_LEASE_SECONDS = 300"

section \<open>The in-memory store\<close>

record memory_store =
  work_map :: "(ustr, work_item) bmap"
  lease_map :: "(ustr, work_lease) bmap"
  receipts :: "(ustr \<times> ustr) list"

definition empty_memory :: memory_store where
  "empty_memory = \<lparr>work_map = bm_empty, lease_map = bm_empty, receipts = []\<rparr>"

definition insert_work :: "work_item \<Rightarrow> memory_store \<Rightarrow> memory_store" where
  "insert_work item s = s\<lparr>work_map := bm_insert (work_id item) item (work_map s)\<rparr>"

definition memory_record :: "work_receipt \<Rightarrow> memory_store \<Rightarrow> memory_store \<times> bool" where
  "memory_record r s =
     (let e = (idempotency_key r, receipt_attempt r) in
      if e \<in> set (receipts s) then (s, True) else (s\<lparr>receipts := e # receipts s\<rparr>, False))"

definition memory_api :: "memory_store store_api" where
  "memory_api =
     \<lparr>load_work = (\<lambda>s w. bm_get (work_map s) w),
      save_work = insert_work,
      load_lease = (\<lambda>s w. bm_get (lease_map s) w),
      save_lease = (\<lambda>l s. s\<lparr>lease_map := bm_insert (lease_work l) l (lease_map s)\<rparr>),
      delete_lease = (\<lambda>w s. s\<lparr>lease_map := bm_remove w (lease_map s)\<rparr>),
      record_receipt = memory_record\<rparr>"

end
