(* ===== verification/Work_Safety.thy ===== *)
theory Work_Safety
  imports Work_Protocol
begin

text \<open>
  What the work protocol guarantees: stages are passed in order, leases are well formed, a worker that
  lost its lease never finalizes, and a delivery is applied once. It also shows that a second attempt
  never gets the lease of the first.
\<close>

section \<open>Histories over a store\<close>

datatype work_op =
    Acquire ustr ustr ustr u64 u64
  | Heartbeat ustr ustr u64 u64
  | Reclaim ustr u64
  | Finalize ustr ustr ustr u64
  | Deliver work_receipt
  | SaveWork work_item

datatype work_reply = LeaseReply acquire_result | Done bool | Finalized "ustr + unit"

fun work_step :: "(ustr \<Rightarrow> nat list) \<Rightarrow> 's store_api \<Rightarrow> work_op \<Rightarrow> 's \<Rightarrow> 's \<times> work_reply" where
  "work_step digest W (Acquire w a session now seconds) s =
     map_prod id LeaseReply (acquire_lease digest W w a session now seconds s)"
| "work_step digest W (Heartbeat w session g now) s = map_prod id Done (heartbeat W w session g now s)"
| "work_step digest W (Reclaim w now) s = map_prod id Done (reclaim_expired W w now s)"
| "work_step digest W (Finalize w a session g) s = (s, Finalized (try_finalize W w a session g s))"
| "work_step digest W (Deliver r) s = map_prod id Done (record_delivery W r s)"
| "work_step digest W (SaveWork item) s = (save_work W item s, Done True)"

fun work_run :: "(ustr \<Rightarrow> nat list) \<Rightarrow> 's store_api \<Rightarrow> work_op list \<Rightarrow> 's \<Rightarrow> 's \<times> work_reply list" where
  "work_run digest W [] s = (s, [])"
| "work_run digest W (op # ops) s =
     (let (t, r) = work_step digest W op s; (u, rs) = work_run digest W ops t in (u, r # rs))"

text \<open>The operations that move the ownership of \<open>w\<close>: a granted acquisition and a reclaim.\<close>

fun takes_over :: "ustr \<Rightarrow> work_op \<times> work_reply \<Rightarrow> bool" where
  "takes_over w (Acquire w' _ _ _ _, LeaseReply (Acquired _)) = (w' = w)"
| "takes_over w (Reclaim w' _, Done True) = (w' = w)"
| "takes_over w _ = False"

abbreviation takeovers :: "ustr \<Rightarrow> work_op list \<Rightarrow> work_reply list \<Rightarrow> nat" where
  "takeovers w ops rs \<equiv> length (filter (takes_over w) (zip ops rs))"

text \<open>A lease is well formed when it expires its length after its last heartbeat.\<close>

definition lease_ok :: "work_lease \<Rightarrow> bool" where
  "lease_ok l \<longleftrightarrow> lease_expires_at l = heartbeat_at l + lease_seconds l"

section \<open>Stores that keep what is saved\<close>

locale work_store =
  fixes W :: "'s store_api"
    and store_ok :: "'s \<Rightarrow> bool"
  assumes saved_lease: "load_lease W (save_lease W l s) w = (if w = lease_work l then Some l else load_lease W s w)"
    and saved_work: "load_lease W (save_work W item s) w = load_lease W s w"
    and recorded: "load_lease W (fst (record_receipt W r s)) w = load_lease W s w"
    and lease_filed: "store_ok s \<Longrightarrow> load_lease W s w = Some l \<Longrightarrow> lease_work l = w \<and> lease_ok l"
    and ok_lease: "store_ok s \<Longrightarrow> lease_ok l \<Longrightarrow> store_ok (save_lease W l s)"
    and ok_work: "store_ok s \<Longrightarrow> store_ok (save_work W item s)"
    and ok_receipt: "store_ok s \<Longrightarrow> store_ok (fst (record_receipt W r s))"
begin

lemma step_ok: "store_ok s \<Longrightarrow> store_ok (fst (work_step digest W op s))"
  by (cases op) (auto simp: acquire_lease_def heartbeat_def reclaim_expired_def record_delivery_def fresh_lease_def
      lease_ok_def Let_def ok_work ok_receipt intro!: ok_lease split: option.splits)

lemma run_ok: "store_ok s \<Longrightarrow> store_ok (fst (work_run digest W ops s))"
proof (induction ops arbitrary: s)
  case (Cons op ops)
  from Cons.IH [OF step_ok [OF Cons.prems]] show ?case by (simp add: case_prod_beta Let_def)
qed simp

text \<open>One step from a store that holds a lease for \<open>w\<close>: the attempt stays, and the generation counts the
  changes of ownership.\<close>

lemma step_lease:
  assumes "store_ok s" "load_lease W s w = Some l"
  shows "\<exists>m. load_lease W (fst (work_step digest W op s)) w = Some m \<and> lease_attempt m = lease_attempt l
    \<and> (if takes_over w (op, snd (work_step digest W op s))
       then fencing_generation m = fencing_generation l + 1
       else fencing_generation m = fencing_generation l \<and> lease_session m = lease_session l)"
proof -
  have filed: "load_lease W s w' = Some l' \<Longrightarrow> lease_work l' = w'" for w' l'
    using lease_filed [OF assms(1)] by blast
  show ?thesis
  proof (cases op)
    case (Acquire w' a session now seconds)
    then show ?thesis
      using assms(2) by (cases "w' = w") (auto simp: acquire_lease_def Let_def saved_lease fresh_lease_def
          split: option.splits)
  next
    case (Heartbeat w' session g now)
    then show ?thesis
      using assms(2) filed [of w'] by (cases "load_lease W s w'") (auto simp: heartbeat_def saved_lease)
  next
    case (Reclaim w' now)
    then show ?thesis
      using assms(2) filed [of w'] by (cases "load_lease W s w'") (auto simp: reclaim_expired_def saved_lease)
  qed (use assms(2) in \<open>auto simp: record_delivery_def recorded saved_work\<close>)
qed

lemma run_lease:
  "store_ok s \<Longrightarrow> load_lease W s w = Some l \<Longrightarrow> work_run digest W ops s = (t, rs) \<Longrightarrow>
     \<exists>m. load_lease W t w = Some m \<and> lease_attempt m = lease_attempt l
       \<and> fencing_generation m = fencing_generation l + of_nat (takeovers w ops rs)
       \<and> (takeovers w ops rs = 0 \<longrightarrow> lease_session m = lease_session l)
       \<and> length rs = length ops"
proof (induction ops arbitrary: s l rs)
  case (Cons op ops)
  obtain s' r where s': "work_step digest W op s = (s', r)" by (cases "work_step digest W op s")
  with Cons.prems(3) obtain rs' where rs': "work_run digest W ops s' = (t, rs')" "rs = r # rs'"
    by (auto split: prod.splits)
  from step_lease [OF Cons.prems(1,2), of digest op] s' obtain m where
    m: "load_lease W s' w = Some m" "lease_attempt m = lease_attempt l"
      "if takes_over w (op, r) then fencing_generation m = fencing_generation l + 1
       else fencing_generation m = fencing_generation l \<and> lease_session m = lease_session l" by auto
  have "store_ok s'" using step_ok [OF Cons.prems(1), of digest op] s' by simp
  from Cons.IH [OF this m(1) rs'(1)] m(2,3) rs'(2) show ?case by (auto split: if_splits)
qed simp

text \<open>Finalizing with the credentials of a lease works until the ownership changes, and never after.\<close>

lemma finalize_iff:
  assumes "store_ok s" "load_lease W s w = Some l" "work_run digest W ops s = (t, rs)" "length ops < 2 ^ 64"
  shows "is_ok (try_finalize W w a session (fencing_generation l) t) \<longleftrightarrow>
    takeovers w ops rs = 0 \<and> a = lease_attempt l \<and> session = lease_session l"
proof -
  obtain m where m: "load_lease W t w = Some m" "lease_attempt m = lease_attempt l"
    "fencing_generation m = fencing_generation l + of_nat (takeovers w ops rs)"
    "takeovers w ops rs = 0 \<longrightarrow> lease_session m = lease_session l" "length rs = length ops"
    using run_lease [OF assms(1-3)] by blast
  have "takeovers w ops rs \<le> length ops"
    using length_filter_le [of "takes_over w" "zip ops rs"] m(5) by simp
  then have "(of_nat (takeovers w ops rs) :: u64) = 0 \<longleftrightarrow> takeovers w ops rs = 0"
    using assms(4) by (auto simp: word_of_nat_eq_0_iff dest: dvd_imp_le)
  then have "fencing_generation m = fencing_generation l \<longleftrightarrow> takeovers w ops rs = 0"
    unfolding m(3) by simp
  with m(1,2,4) show ?thesis by (auto simp: try_finalize_def)
qed

lemma other_attempt_refused:
  assumes "store_ok s" "load_lease W s w = Some l" "work_run digest W ops s = (t, rs)" "a \<noteq> lease_attempt l"
  shows "snd (acquire_lease digest W w a session now seconds t) \<in> {Contended, Terminal}"
  using run_lease [OF assms(1-3)] assms(4) by (auto simp: acquire_lease_def)

end

section \<open>The in-memory store\<close>

definition memory_ok :: "memory_store \<Rightarrow> bool" where
  "memory_ok s \<longleftrightarrow> (\<forall>w l. bm_get (lease_map s) w = Some l \<longrightarrow> lease_work l = w \<and> lease_ok l)
     \<and> (\<forall>w i. bm_get (work_map s) w = Some i \<longrightarrow> work_id i = w) \<and> distinct (receipts s)
     \<and> bm_ok (lease_map s) \<and> bm_ok (work_map s)"

lemma memory_api_simps [simp]:
  "load_work memory_api s w = bm_get (work_map s) w" "save_work memory_api item s = insert_work item s"
  "load_lease memory_api s w = bm_get (lease_map s) w"
  "save_lease memory_api l s = s\<lparr>lease_map := bm_insert (lease_work l) l (lease_map s)\<rparr>"
  "record_receipt memory_api r s = memory_record r s"
  by (simp_all add: memory_api_def)

interpretation memory: work_store memory_api memory_ok
  by unfold_locales
     (auto simp: memory_ok_def bm_get_insert bm_ok_insert insert_work_def memory_record_def Let_def split: if_splits)

lemma empty_memory_ok: "memory_ok empty_memory"
  by (simp add: memory_ok_def empty_memory_def)


text \<open>C23: Fencing. A worker that holds a lease can finalize later exactly as long as nobody has acquired or
  reclaimed that work in between; once the ownership has moved, nothing it or anybody else presents
  under the old generation is accepted. The generation counts the changes of ownership, so this holds
  for fewer than two to the 64 operations.\<close>

theorem stale_worker_cannot_finalize:
  assumes "memory_ok s" "load_lease memory_api s w = Some l"
    and "work_run digest memory_api ops s = (t, rs)" "length ops < 2 ^ 64"
  shows "is_ok (try_finalize memory_api w a session (fencing_generation l) t) \<longleftrightarrow>
    takeovers w ops rs = 0 \<and> a = lease_attempt l \<and> session = lease_session l"
  using memory.finalize_iff [OF assms] .

definition sample_lease :: "u64 \<Rightarrow> work_lease" where
  "sample_lease g = \<lparr>lease_claim = [99], lease_work = [119], lease_attempt = [97], lease_session = [115],
     acquired_at = 3, lease_expires_at = 8, heartbeat_at = 3, fencing_generation = g, lease_seconds = 5\<rparr>"

definition sample_memory :: memory_store where
  "sample_memory = \<lparr>work_map = [], lease_map = [([119], sample_lease 4)], receipts = []\<rparr>"

lemma sample_memory_simps:
  "memory_ok sample_memory" "load_lease memory_api sample_memory [119] = Some (sample_lease 4)"
  by (auto simp: memory_ok_def sample_memory_def sample_lease_def lease_ok_def bm_ok_def)

theorem stale_worker_cannot_finalize_witness:
  "\<not> is_ok (try_finalize memory_api [119] [97] [115] 4
      (fst (work_run (\<lambda>_. []) memory_api [Reclaim [119] 9] sample_memory)))
   \<and> is_ok (try_finalize memory_api [119] [97] [115] 4
      (fst (work_run (\<lambda>_. []) memory_api [Reclaim [119] 7] sample_memory)))"
proof -
  have late: "\<exists>t. work_run (\<lambda>_. []) memory_api [Reclaim [119] 9] sample_memory = (t, [Done True])"
    and soon: "\<exists>t. work_run (\<lambda>_. []) memory_api [Reclaim [119] 7] sample_memory = (t, [Done False])"
    by (simp_all add: reclaim_expired_def sample_memory_def sample_lease_def is_expired_def)
  have g: "fencing_generation (sample_lease 4) = 4" "lease_attempt (sample_lease 4) = [97]"
    "lease_session (sample_lease 4) = [115]" by (simp_all add: sample_lease_def)
  from late obtain t where t: "work_run (\<lambda>_. []) memory_api [Reclaim [119] 9] sample_memory = (t, [Done True])" by blast
  from soon obtain u where u: "work_run (\<lambda>_. []) memory_api [Reclaim [119] 7] sample_memory = (u, [Done False])" by blast
  show ?thesis
    unfolding t u fst_conv
    using stale_worker_cannot_finalize [OF sample_memory_simps t, of "[97]" "[115]"]
      stale_worker_cannot_finalize [OF sample_memory_simps u, of "[97]" "[115]"]
    by (simp add: g)
qed

text \<open>C29: A second attempt never gets the work. Once one attempt holds a lease, acquiring it for another
  attempt is refused in every later state, however long the lease has expired and however often it
  was reclaimed.\<close>

theorem retry_attempt_never_acquires:
  assumes "memory_ok s" "load_lease memory_api s w = Some l"
    and "work_run digest memory_api ops s = (t, rs)" "a \<noteq> lease_attempt l"
  shows "snd (acquire_lease digest memory_api w a session now seconds t) \<in> {Contended, Terminal}"
  using memory.other_attempt_refused [OF assms] .

theorem retry_attempt_never_acquires_witness:
  "\<exists>t. snd (acquire_lease (\<lambda>_. []) memory_api [119] [98] [115] 9 5 t) \<in> {Contended, Terminal}
     \<and> reconcile_lease memory_api [119] 9 t = Retry"
proof -
  have "work_run (\<lambda>_. []) memory_api [] sample_memory = (sample_memory, [])" by simp
  from retry_attempt_never_acquires [OF sample_memory_simps this, of "[98]" "[115]" 9 5]
  have "snd (acquire_lease (\<lambda>_. []) memory_api [119] [98] [115] 9 5 sample_memory) \<in> {Contended, Terminal}"
    by (simp add: sample_lease_def)
  moreover have "reconcile_lease memory_api [119] 9 sample_memory = Retry"
    by (simp add: reconcile_lease_def sample_memory_def sample_lease_def is_expired_def)
  ultimately show ?thesis by blast
qed

text \<open>After a reclaim the lease is live again for the session that lost it, so until it has expired a second
  time nobody can acquire the work.\<close>

lemma reclaim_shuts_out:
  assumes "reclaim_expired memory_api w now s = (t, True)" "memory_ok s"
    and "unat now + unat (lease_seconds (the (load_lease memory_api s w))) < 2 ^ 64"
    and "now \<le> later" "later < now + lease_seconds (the (load_lease memory_api s w))"
  shows "snd (acquire_lease digest memory_api w a session later seconds t) \<in> {Contended, Terminal}"
proof -
  obtain l where l: "bm_get (lease_map s) w = Some l" "is_expired l now" "lease_work l = w"
    using assms(1,2) by (cases "bm_get (lease_map s) w") (auto simp: reclaim_expired_def memory_ok_def split: if_splits)
  then have "bm_get (lease_map t) w = Some (l\<lparr>fencing_generation := fencing_generation l + 1, acquired_at := now,
      heartbeat_at := now, lease_expires_at := now + lease_seconds l\<rparr>)"
    using assms(1) by (auto simp: reclaim_expired_def bm_get_insert)
  with assms(5) l(1) show ?thesis by (auto simp: acquire_lease_def is_expired_def)
qed

text \<open>A delivery is a duplicate exactly when its key was recorded for the same attempt before.\<close>

lemma delivery_applied_once:
  "snd (record_delivery memory_api r s) \<longleftrightarrow> (idempotency_key r, receipt_attempt r) \<in> set (receipts s)"
  "(idempotency_key r, receipt_attempt r) \<in> set (receipts (fst (record_delivery memory_api r s)))"
  by (simp_all add: record_delivery_def memory_record_def Let_def)

section \<open>Stages\<close>

definition advance_step :: "work_item \<Rightarrow> work_state \<times> u64 \<Rightarrow> ustr + work_item" where
  "advance_step item e = advance item (fst e) (snd e)"

lemma advance_Inr:
  "advance item to now = Inr item' \<Longrightarrow> item' = item\<lparr>work_state := to, updated_at := now\<rparr>
     \<and> can_advance (work_state item) to \<and> (non_happy item = None \<or> to = Completed)"
  by (auto simp: advance_def split: option.splits if_splits)

lemma advance_Completed:
  assumes "advance_step item e = Inr item'" "work_state item' = Completed"
  shows "work_state item \<in> {Running, Completed}"
  using assms advance_Inr [of item "fst e" "snd e" item']
  by (cases "work_state item") (auto simp: advance_step_def can_advance_def)

text \<open>Stages are never skipped. If transitions take an item from \<open>Created\<close> to some stage, every stage in
  between was its state at some time.\<close>

theorem every_stage_is_passed:
  assumes "work_state item = Created" "run_all advance_step item es = Inr item'"
    and "work_rank k \<le> work_rank (work_state item')"
  shows "\<exists>es1 es2 m. es = es1 @ es2 \<and> run_all advance_step item es1 = Inr m \<and> work_state m = k
    \<and> run_all advance_step m es2 = Inr item'"
proof (cases "k = Created")
  case True
  with assms(1,2) show ?thesis by (intro exI [of _ "[]"] exI [of _ es] exI [of _ item]) simp
next
  case False
  then have pos: "0 < work_rank k" by (cases k) simp_all
  show ?thesis
  proof (rule run_passes [where R = "\<lambda>i. work_rank k \<le> work_rank (work_state i)", OF assms(2)])
    fix s e t assume st: "advance_step s e = Inr t" "\<not> work_rank k \<le> work_rank (work_state s)"
      "work_rank k \<le> work_rank (work_state t)"
    from st(1) have "can_advance (work_state s) (work_state t)"
      using advance_Inr by (fastforce simp: advance_step_def)
    with st(2,3) have "work_rank (work_state t) = work_rank k" unfolding can_advance_def by linarith
    then show "work_state t = k" by simp
  qed (use assms pos in auto)
qed

definition sample_item :: work_item where
  "sample_item = \<lparr>work_id = [119], work_state = Created, non_happy = None, current_attempt = None,
     created_at = 2, updated_at = 2, work_attempts = []\<rparr>"


theorem every_stage_is_passed_witness:
  "\<exists>es1 es2 m. [(Assigned, 3), (Delivered, 5)] = es1 @ es2 \<and> run_all advance_step sample_item es1 = Inr m
     \<and> work_state m = Assigned"
proof -
  have "\<exists>i. run_all advance_step sample_item [(Assigned, 3), (Delivered, 5)] = Inr i \<and> work_state i = Delivered"
    by (simp add: advance_step_def advance_def sample_item_def can_advance_def)
  then obtain i where i: "run_all advance_step sample_item [(Assigned, 3), (Delivered, 5)] = Inr i"
    "work_rank Assigned \<le> work_rank (work_state i)" by auto
  have "work_state sample_item = Created" by (simp add: sample_item_def)
  from every_stage_is_passed [OF this i] show ?thesis by blast
qed

end
