(* ===== verification/Claim.thy ===== *)
theory Claim
  imports Json Autospec_Error
begin

text \<open>
  Claims of issues (\<open>claim/mod.rs\<close>): leases, the run-state record a worker posts as a marked comment, and
  the selection of the comment that owns an issue. What the executor posts and the recovery of a claim are
  in \<open>Claim_Evidence\<close>.
\<close>

section \<open>Leases\<close>

datatype claim_state = ClaimedState | MergedState

fun claim_state_text :: "claim_state \<Rightarrow> string" where
  "claim_state_text ClaimedState = ''claimed''"
| "claim_state_text MergedState = ''merged''"

record claim_lease =
  claim_issue :: u64
  claim_worker :: ustr
  claim_branch :: ustr
  claim_claimed_at :: u64
  claim_updated_at :: u64
  claim_ttl :: u64
  claim_status :: claim_state

definition new_claim_lease :: "u64 \<Rightarrow> ustr \<Rightarrow> ustr \<Rightarrow> u64 \<Rightarrow> u64 \<Rightarrow> u64 \<Rightarrow> claim_lease" where
  "new_claim_lease i w b c u t = \<lparr>claim_issue = i, claim_worker = w, claim_branch = b, claim_claimed_at = c,
     claim_updated_at = u, claim_ttl = t, claim_status = ClaimedState\<rparr>"

definition terminal_merged_lease :: "u64 \<Rightarrow> ustr \<Rightarrow> ustr \<Rightarrow> u64 \<Rightarrow> claim_lease" where
  "terminal_merged_lease i w b m = \<lparr>claim_issue = i, claim_worker = w, claim_branch = b, claim_claimed_at = m,
     claim_updated_at = m, claim_ttl = 0, claim_status = MergedState\<rparr>"

definition is_stale_at :: "claim_lease \<Rightarrow> u64 \<Rightarrow> bool" where
  "is_stale_at l now = (if claim_status l = MergedState then False
     else claim_ttl l < saturating_sub now (claim_updated_at l))"

definition is_terminal_claim :: "claim_lease \<Rightarrow> bool" where
  "is_terminal_claim l \<longleftrightarrow> claim_status l = MergedState"

text \<open>\<open>ClaimRunState\<close> holds the lease, if there is one.\<close>

definition accepts_claim :: "claim_lease option \<Rightarrow> claim_lease \<Rightarrow> u64 \<Rightarrow> bool" where
  "accepts_claim current incoming now = (case current of
       None \<Rightarrow> True
     | Some l \<Rightarrow>
         if is_terminal_claim l then False
         else if claim_worker l = claim_worker incoming then True
         else is_stale_at l now)"

section \<open>Reading objects\<close>

definition escape_claim_char :: "uchar \<Rightarrow> ustr" where
  "escape_claim_char c =
     (if c = 34 then [92, 34] else if c = 92 then [92, 92] else if c = 10 then [92, 110]
      else if c = 13 then [92, 114] else if c = 9 then [92, 116]
      else if is_control c then [92, 117] @ hex4 c else [c])"

definition escape_claim_json :: "ustr \<Rightarrow> ustr" where
  "escape_claim_json s = concat (map escape_claim_char s)"

definition claim_quoted :: "ustr \<Rightarrow> ustr" where
  "claim_quoted s = [34] @ escape_claim_json s @ [34]"

definition claim_optional_string :: "ustr option \<Rightarrow> ustr" where
  "claim_optional_string v = (case v of None \<Rightarrow> lit ''null'' | Some s \<Rightarrow> claim_quoted s)"

definition take_required_key :: "(ustr, json) bmap \<Rightarrow> string \<Rightarrow> ustr + json \<times> (ustr, json) bmap" where
  "take_required_key m key = (case bm_get m (lit key) of
       Some v \<Rightarrow> Inr (v, bm_remove (lit key) m)
     | None \<Rightarrow> Inl (lit ''run-state record missing required key: '' @ lit key))"

definition take_claim_string ::
  "(ustr, json) bmap \<Rightarrow> string \<Rightarrow> ustr \<Rightarrow> ustr + ustr option \<times> (ustr, json) bmap" where
  "take_claim_string m key ctx = (case bm_get m (lit key) of
       None \<Rightarrow> Inr (None, bm_remove (lit key) m)
     | Some JNull \<Rightarrow> Inr (None, bm_remove (lit key) m)
     | Some (JString s) \<Rightarrow> Inr (Some s, bm_remove (lit key) m)
     | Some _ \<Rightarrow> Inl (ctx @ lit '' '' @ lit key @ lit '' must be a JSON string or null''))"

definition require_claim_keys :: "(ustr, json) bmap \<Rightarrow> string list \<Rightarrow> ustr + unit" where
  "require_claim_keys m allowed = (case find (\<lambda>key. key \<notin> set (map lit allowed)) (bm_keys m) of
       Some key \<Rightarrow> Inl (lit ''unknown run-state record key: '' @ key)
     | None \<Rightarrow> Inr ())"

text \<open>\<open>into_iter().enumerate().map(..).collect::<Result<Vec<_>, _>>()\<close>\<close>

fun read_each :: "(nat \<Rightarrow> json \<Rightarrow> ustr + 'a) \<Rightarrow> nat \<Rightarrow> json list \<Rightarrow> ustr + 'a list" where
  "read_each f k [] = Inr []"
| "read_each f k (v # vs) = and_then (f k v) (\<lambda>x. map_ok (Cons x) (read_each f (Suc k) vs))"

definition indexed :: "string \<Rightarrow> nat \<Rightarrow> ustr" where
  "indexed ctx k = lit ctx @ lit ''['' @ show_nat k @ lit '']''"

definition read_json :: "ustr \<Rightarrow> ustr + json" where
  "read_json input = map_err (json_error_text input) (parse_json input)"

section \<open>Comments\<close>

record remote_comment =
  comment_id :: u64
  comment_body :: ustr
  comment_updated_at :: ustr

definition read_comment :: "nat \<Rightarrow> json \<Rightarrow> ustr + remote_comment" where
  "read_comment k v =
     (let ctx = indexed ''GitHub issue comments'' k in
      and_then (into_object v ctx) (\<lambda>m.
      and_then (require_claim_keys m [''id'', ''body'', ''updated_at'']) (\<lambda>_.
      and_then (take_required_key m ''id'') (\<lambda>(v, m).
      and_then (into_number v (ctx @ lit '' id'')) (\<lambda>i.
      and_then (take_claim_string m ''body'' ctx) (\<lambda>(b, m).
      and_then (take_claim_string m ''updated_at'' ctx) (\<lambda>(u, m).
      Inr \<lparr>comment_id = i, comment_body = (case b of Some s \<Rightarrow> s | None \<Rightarrow> []),
           comment_updated_at = (case u of Some s \<Rightarrow> s | None \<Rightarrow> [])\<rparr>)))))))"

definition parse_remote_comments :: "ustr \<Rightarrow> ustr + remote_comment list" where
  "parse_remote_comments input =
     and_then (read_json input) (\<lambda>v.
     and_then (into_array v (lit ''GitHub issue comments'')) (read_each read_comment 0))"

definition parse_paths_argument :: "ustr \<Rightarrow> ustr + ustr list" where
  "parse_paths_argument input =
     (let text = trim input in
      if text = [] then Inr []
      else if take 1 text = lit ''[''
      then and_then (read_json text) (\<lambda>v.
           and_then (into_array v (lit ''run-state paths''))
             (read_each (\<lambda>k v. into_string v (indexed ''run-state paths'' k)) 0))
      else Inr (filter (\<lambda>p. p \<noteq> []) (map trim (split_char 44 text))))"

section \<open>Run-state records\<close>

definition RUN_STATE_BEGIN_MARKER :: string where
  "RUN_STATE_BEGIN_MARKER = ''<!-- autospec-run-state:begin -->''"

definition RUN_STATE_END_MARKER :: string where
  "RUN_STATE_END_MARKER = ''<!-- autospec-run-state:end -->''"

definition RUN_TERMINAL_BEGIN_MARKER :: string where
  "RUN_TERMINAL_BEGIN_MARKER = ''<!-- autospec-run-terminal:begin -->''"

definition RUN_TERMINAL_END_MARKER :: string where
  "RUN_TERMINAL_END_MARKER = ''<!-- autospec-run-terminal:end -->''"

record run_state =
  run_repo :: ustr
  run_issue :: u64
  run_worker :: ustr
  run_status :: ustr
  run_branch :: ustr
  run_pr :: ustr
  run_step :: ustr
  run_paths :: "ustr list"
  run_claim :: "ustr option"
  run_claimed_at :: ustr
  run_updated_at :: ustr
  run_ttl :: u64

definition with_claim_id :: "ustr \<Rightarrow> run_state \<Rightarrow> run_state" where
  "with_claim_id c r = r\<lparr>run_claim := Some c\<rparr>"

definition run_text_fields :: "run_state \<Rightarrow> (string \<times> ustr) list" where
  "run_text_fields r = [(''repo'', run_repo r), (''worker_id'', run_worker r), (''state'', run_status r),
     (''claimed_at'', run_claimed_at r), (''updated_at'', run_updated_at r)]"

definition validate_run_state :: "run_state \<Rightarrow> ustr + unit" where
  "validate_run_state r =
     (case find (\<lambda>f. blank (snd f)) (run_text_fields r) of
        Some f \<Rightarrow> Inl (lit ''run-state '' @ lit (fst f) @ lit '' must not be empty'')
      | None \<Rightarrow>
          if (case run_claim r of Some c \<Rightarrow> blank c | None \<Rightarrow> False)
          then Inl (lit ''run-state claim_id must not be empty'') else Inr ())"

definition run_state_keys :: "string list" where
  "run_state_keys = [''schema'', ''repo'', ''issue'', ''worker_id'', ''state'', ''branch'', ''pr'', ''step'',
     ''paths'', ''claim_id'', ''claimed_at'', ''updated_at'', ''ttl_seconds'']"

definition read_paths :: "json option \<Rightarrow> ustr + ustr list" where
  "read_paths v = (case v of
       None \<Rightarrow> Inr []
     | Some JNull \<Rightarrow> Inr []
     | Some v \<Rightarrow> and_then (into_array v (lit ''run-state paths''))
         (read_each (\<lambda>k v. into_string v (indexed ''run-state paths'' k)) 0))"

definition read_ttl :: "json option \<Rightarrow> ustr + u64" where
  "read_ttl v = (case v of
       None \<Rightarrow> Inr 10800
     | Some JNull \<Rightarrow> Inr 10800
     | Some v \<Rightarrow> into_number v (lit ''run-state ttl_seconds''))"

definition parse_run_state :: "ustr \<Rightarrow> ustr + run_state" where
  "parse_run_state input =
     (let ctx = lit ''run-state record'' in
      and_then (read_json input) (\<lambda>v.
      and_then (into_object v ctx) (\<lambda>m.
      and_then (require_claim_keys m run_state_keys) (\<lambda>_.
      and_then (take_required_key m ''schema'') (\<lambda>(v, m).
      and_then (into_number v (lit ''run-state schema'')) (\<lambda>schema.
      if schema \<noteq> 1 then Inl (lit ''unsupported run-state schema: '' @ show_u64 schema)
      else and_then (read_paths (bm_get m (lit ''paths''))) (\<lambda>paths.
      let m = bm_remove (lit ''paths'') m in
      and_then (take_required_key m ''state'') (\<lambda>(v, m).
      and_then (into_string v (lit ''run-state state'')) (\<lambda>st.
      and_then (take_required_key m ''claimed_at'') (\<lambda>(v, m).
      and_then (into_string v (lit ''run-state claimed_at'')) (\<lambda>claimed.
      and_then (take_required_key m ''repo'') (\<lambda>(v, m).
      and_then (into_string v (lit ''run-state repo'')) (\<lambda>rep.
      and_then (take_required_key m ''issue'') (\<lambda>(v, m).
      and_then (into_number v (lit ''run-state issue'')) (\<lambda>issue.
      and_then (take_required_key m ''worker_id'') (\<lambda>(v, m).
      and_then (into_string v (lit ''run-state worker_id'')) (\<lambda>worker.
      and_then (take_claim_string m ''step'' ctx) (\<lambda>(step, m).
      and_then (take_claim_string m ''branch'' ctx) (\<lambda>(branch, m).
      and_then (take_claim_string m ''pr'' ctx) (\<lambda>(pr, m).
      and_then (take_claim_string m ''claim_id'' ctx) (\<lambda>(claim, m).
      and_then (take_claim_string m ''updated_at'' ctx) (\<lambda>(updated, m).
      and_then (read_ttl (bm_get m (lit ''ttl_seconds''))) (\<lambda>ttl.
      let r = \<lparr>run_repo = rep, run_issue = issue, run_worker = worker, run_status = st,
               run_branch = (case branch of Some s \<Rightarrow> s | None \<Rightarrow> []),
               run_pr = (case pr of Some s \<Rightarrow> s | None \<Rightarrow> []),
               run_step = (case step of Some s \<Rightarrow> s | None \<Rightarrow> st),
               run_paths = paths, run_claim = claim, run_claimed_at = claimed,
               run_updated_at = (case updated of Some s \<Rightarrow> s | None \<Rightarrow> claimed), run_ttl = ttl\<rparr> in
      and_then (validate_run_state r) (\<lambda>_. Inr r))))))))))))))))))))))))"

definition run_state_to_json :: "run_state \<Rightarrow> ustr" where
  "run_state_to_json r = lit ''{''
     @ json_field ''schema'' @ lit ''1'' @ lit '',''
     @ json_field ''repo'' @ claim_quoted (run_repo r) @ lit '',''
     @ json_field ''issue'' @ show_u64 (run_issue r) @ lit '',''
     @ json_field ''worker_id'' @ claim_quoted (run_worker r) @ lit '',''
     @ json_field ''state'' @ claim_quoted (run_status r) @ lit '',''
     @ json_field ''branch'' @ claim_quoted (run_branch r) @ lit '',''
     @ json_field ''pr'' @ claim_quoted (run_pr r) @ lit '',''
     @ json_field ''step'' @ claim_quoted (run_step r) @ lit '',''
     @ json_field ''paths'' @ lit ''['' @ join (lit '','') (map claim_quoted (run_paths r)) @ lit '']'' @ lit '',''
     @ json_field ''claimed_at'' @ claim_quoted (run_claimed_at r) @ lit '',''
     @ json_field ''updated_at'' @ claim_quoted (run_updated_at r) @ lit '',''
     @ json_field ''ttl_seconds'' @ show_u64 (run_ttl r)
     @ (case run_claim r of None \<Rightarrow> [] | Some c \<Rightarrow> lit '','' @ json_field ''claim_id'' @ claim_quoted c)
     @ lit ''}''"

definition marked :: "string \<Rightarrow> string \<Rightarrow> ustr \<Rightarrow> ustr" where
  "marked first final payload = lit first @ [10] @ payload @ [10] @ lit final"

definition run_state_comment :: "run_state \<Rightarrow> ustr" where
  "run_state_comment r = marked RUN_STATE_BEGIN_MARKER RUN_STATE_END_MARKER (run_state_to_json r)"

definition parse_run_state_comment :: "ustr \<Rightarrow> ustr + run_state" where
  "parse_run_state_comment body = (case split_once_str (lit RUN_STATE_BEGIN_MARKER) body of
       None \<Rightarrow> Inl (lit ''missing run-state begin marker'')
     | Some (_, after) \<Rightarrow> (case split_once_str (lit RUN_STATE_END_MARKER) after of
         None \<Rightarrow> Inl (lit ''missing run-state end marker'')
       | Some (payload, _) \<Rightarrow> parse_run_state (trim payload)))"

section \<open>The owner of an issue\<close>

definition is_marked :: "remote_comment \<Rightarrow> bool" where
  "is_marked c \<longleftrightarrow> contains_str (lit RUN_STATE_BEGIN_MARKER) (comment_body c)
     \<and> contains_str (lit RUN_STATE_END_MARKER) (comment_body c)"

text \<open>\<open>min_by_key\<close> returns the first of several minima.\<close>

fun min_by_key :: "('a \<Rightarrow> u64) \<Rightarrow> 'a list \<Rightarrow> 'a option" where
  "min_by_key f [] = None"
| "min_by_key f (c # cs) = (case min_by_key f cs of
       None \<Rightarrow> Some c
     | Some d \<Rightarrow> if f c \<le> f d then Some c else Some d)"

definition lowest_marked_comment :: "remote_comment list \<Rightarrow> remote_comment option" where
  "lowest_marked_comment cs = min_by_key comment_id (filter is_marked cs)"

record selected_run_state =
  selected_comment :: u64
  server_updated_at :: ustr
  selected_record :: run_state

definition select_run_state :: "remote_comment list \<Rightarrow> ustr \<Rightarrow> u64 \<Rightarrow> selected_run_state option" where
  "select_run_state cs rep issue = (case lowest_marked_comment cs of
       None \<Rightarrow> None
     | Some c \<Rightarrow> (case parse_run_state_comment (comment_body c) of
         Inl _ \<Rightarrow> None
       | Inr r \<Rightarrow> if run_repo r \<noteq> rep \<or> run_issue r \<noteq> issue then None
           else Some \<lparr>selected_comment = comment_id c, server_updated_at = comment_updated_at c,
                      selected_record = r\<rparr>))"

definition posted_by :: "ustr \<Rightarrow> remote_comment \<Rightarrow> bool" where
  "posted_by worker c = (case parse_run_state_comment (comment_body c) of
       Inl _ \<Rightarrow> False
     | Inr r \<Rightarrow> run_worker r = worker)"

definition losing_ids :: "remote_comment list \<Rightarrow> ustr \<Rightarrow> u64 list" where
  "losing_ids cs worker = filter (\<lambda>i. Some i \<noteq> map_option comment_id (lowest_marked_comment cs))
     (map comment_id (filter (posted_by worker) cs))"

definition claim_losing_worker_comment_id :: "remote_comment list \<Rightarrow> ustr \<Rightarrow> u64 option" where
  "claim_losing_worker_comment_id cs worker = (case losing_ids cs worker of
       [] \<Rightarrow> None
     | i # ids \<Rightarrow> Some (fold max ids i))"

definition terminal_state :: "ustr \<Rightarrow> json option" where
  "terminal_state body = (case split_once_str (lit RUN_TERMINAL_BEGIN_MARKER) body of
       None \<Rightarrow> None
     | Some (_, after) \<Rightarrow> (case split_once_str (lit RUN_TERMINAL_END_MARKER) after of
         None \<Rightarrow> None
       | Some (payload, _) \<Rightarrow>
           (case and_then (read_json (trim payload)) (\<lambda>v. into_object v (lit ''run terminal record'')) of
              Inl _ \<Rightarrow> None
            | Inr m \<Rightarrow> bm_get m (lit ''state''))))"

definition terminal_merged_comment_exists :: "remote_comment list \<Rightarrow> bool" where
  "terminal_merged_comment_exists cs \<longleftrightarrow>
     list_ex (\<lambda>c. terminal_state (comment_body c) = Some (JString (lit ''merged''))) cs"

end
