(* ===== verification/Claim_Safety.thy ===== *)
theory Claim_Safety
  imports Claim Step_Machine
begin

text \<open>
  The run-state comments of \<open>Claim\<close>: what a worker posts is what every reader finds, and the comment that
  owns an issue stays the owner whatever is posted after it.
\<close>

section \<open>What is posted is read back\<close>

interpretation claim_text: string_escape escape_claim_char
proof
  fix r :: ustr and c assume "r \<noteq> []"
  then show "parse_chars (escape_claim_char c @ r) = map_ok (\<lambda>(a, r). (c # a, r)) (parse_chars r)"
    using parse_control_escape [of c r]
    by (auto simp: escape_claim_char_def parse_escape_sequence_def)
qed (simp add: escape_claim_char_def plain_char_def is_control_def)

definition run_state_doc :: "run_state \<Rightarrow> jdoc" where
  "run_state_doc r = DObject ([
     (lit ''schema'', number_doc 1),
     (lit ''repo'', DString (run_repo r)),
     (lit ''issue'', number_doc (run_issue r)),
     (lit ''worker_id'', DString (run_worker r)),
     (lit ''state'', DString (run_status r)),
     (lit ''branch'', DString (run_branch r)),
     (lit ''pr'', DString (run_pr r)),
     (lit ''step'', DString (run_step r)),
     (lit ''paths'', DArray (map DString (run_paths r))),
     (lit ''claimed_at'', DString (run_claimed_at r)),
     (lit ''updated_at'', DString (run_updated_at r)),
     (lit ''ttl_seconds'', number_doc (run_ttl r))]
     @ (case run_claim r of None \<Rightarrow> [] | Some c \<Rightarrow> [(lit ''claim_id'', DString c)]))"

lemma render_claim_string: "render escape_claim_char (DString t) = claim_quoted t"
  by (simp add: claim_quoted_def json_quote_def escape_claim_json_def)

lemma plain_run_keys: "list_all plain_text run_state_keys"
  by (simp add: run_state_keys_def plain_text_def plain_char_def)

lemmas run_plain = plain_run_keys [unfolded run_state_keys_def, simplified]

lemma show_one: "show_u64 1 = lit ''1''"
  by code_simp

lemma render_run_state: "render escape_claim_char (run_state_doc r) = run_state_to_json r"
  by (cases "run_claim r")
     (simp_all add: run_state_doc_def run_state_to_json_def render_claim_string render_number comp_def
       punctuation claim_text.quoted_key run_plain show_one del: render.simps(4))

lemma distinct_run_state_doc: "distinct_keys (run_state_doc r)"
  by (cases "run_claim r") (simp_all add: run_state_doc_def number_doc_def list_all_iff)

lemma read_each_strings [simp]:
  "read_each (\<lambda>k v. into_string v (indexed ctx k)) k (map JString ps) = Inr ps"
  by (induction ps arbitrary: k) simp_all

lemma claim_keys_ok:
  "set (map fst m) \<subseteq> set (map lit allowed) \<Longrightarrow> require_claim_keys m allowed = Inr ()"
  by (auto simp: require_claim_keys_def bm_keys_def find_None_iff split: option.splits)

lemma take_string_there:
  "bm_get m (lit k) = Some (JString t) \<Longrightarrow> take_claim_string m k ctx = Inr (Some t, bm_remove (lit k) m)"
  by (simp add: take_claim_string_def)

lemma run_state_eta:
  "\<lparr>run_repo = run_repo r, run_issue = run_issue r, run_worker = run_worker r, run_status = run_status r,
     run_branch = run_branch r, run_pr = run_pr r, run_step = run_step r, run_paths = run_paths r,
     run_claim = run_claim r, run_claimed_at = run_claimed_at r, run_updated_at = run_updated_at r,
     run_ttl = run_ttl r\<rparr> = (r :: run_state)"
  by (cases r) simp

lemma parse_run_state_doc:
  assumes ok: "validate_run_state r = Inr ()"
  shows "parse_run_state (run_state_to_json r) = Inr r"
proof -
  define m where "m = bm_of_list (case run_state_doc r of DObject kds \<Rightarrow> map (\<lambda>(k, d). (k, json_of d)) kds | _ \<Rightarrow> [])"
  have "json_of (run_state_doc r) = JObject m" by (simp add: m_def run_state_doc_def)
  then have json: "read_json (run_state_to_json r) = Inr (JObject m)"
    using claim_text.parse_json_render [OF distinct_run_state_doc, of r]
    by (simp add: render_run_state read_json_def)
  have keys: "require_claim_keys m run_state_keys = Inr ()"
    by (rule claim_keys_ok) (cases "run_claim r"; simp add: m_def run_state_doc_def run_state_keys_def keys_of_list)
  have get:
    "bm_get m (lit ''schema'') = Some (json_of (number_doc 1))"
    "bm_get m (lit ''repo'') = Some (JString (run_repo r))"
    "bm_get m (lit ''issue'') = Some (json_of (number_doc (run_issue r)))"
    "bm_get m (lit ''worker_id'') = Some (JString (run_worker r))"
    "bm_get m (lit ''state'') = Some (JString (run_status r))"
    "bm_get m (lit ''branch'') = Some (JString (run_branch r))"
    "bm_get m (lit ''pr'') = Some (JString (run_pr r))"
    "bm_get m (lit ''step'') = Some (JString (run_step r))"
    "bm_get m (lit ''paths'') = Some (JArray (map JString (run_paths r)))"
    "bm_get m (lit ''claimed_at'') = Some (JString (run_claimed_at r))"
    "bm_get m (lit ''updated_at'') = Some (JString (run_updated_at r))"
    "bm_get m (lit ''ttl_seconds'') = Some (json_of (number_doc (run_ttl r)))"
    "bm_get m (lit ''claim_id'') = map_option JString (run_claim r)"
    by (cases "run_claim r"; simp add: m_def run_state_doc_def bm_get_of_list comp_def)+
  have claim: "take_claim_string m' ''claim_id'' ctx = Inr (run_claim r, bm_remove (lit ''claim_id'') m')"
    if "bm_get m' (lit ''claim_id'') = map_option JString (run_claim r)" for m' ctx
    using that by (cases "run_claim r") (simp_all add: take_claim_string_def)
  have paths: "read_paths (Some (JArray (map JString (run_paths r)))) = Inr (run_paths r)"
    by (simp add: read_paths_def)
  have ttl: "read_ttl (Some (json_of (number_doc (run_ttl r)))) = Inr (run_ttl r)"
    using into_number_doc [of "run_ttl r"] by (simp add: read_ttl_def number_doc_def)
  show ?thesis
    unfolding parse_run_state_def Let_def
    by (simp add: json keys get take_required_key_def claim take_string_there bm_get_remove ok paths ttl
        into_number_doc run_state_eta)
qed

lemma run_state_json_ends: "\<exists>s. run_state_to_json r = 123 # s @ [125]"
  by (simp add: run_state_to_json_def punctuation json_field_def)

lemma trim_lines: "\<not> is_whitespace c \<Longrightarrow> \<not> is_whitespace d \<Longrightarrow> trim (10 # (c # s @ [d]) @ [10]) = c # s @ [d]"
proof -
  assume c: "\<not> is_whitespace c" and d: "\<not> is_whitespace d"
  have n: "is_whitespace 10" by (simp add: is_whitespace_def)
  show ?thesis using c d n by (simp add: trim_def trim_start_def trim_end_def)
qed

text \<open>A record is validated by the reader only, and the end marker must not occur in its JSON form.\<close>

definition postable :: "run_state \<Rightarrow> bool" where
  "postable r \<longleftrightarrow> validate_run_state r = Inr () \<and> \<not> contains_str (lit RUN_STATE_END_MARKER) (run_state_to_json r)"

lemma posted_record_read:
  assumes "postable r"
  shows "parse_run_state_comment (run_state_comment r) = Inr r"
proof -
  obtain s where s: "run_state_to_json r = 123 # s @ [125]" using run_state_json_ends [of r] by blast
  have clear: "\<not> contains_str (lit RUN_STATE_END_MARKER) (10 # run_state_to_json r)"
    using assms by (simp add: postable_def strip_prefix_None) (simp add: RUN_STATE_END_MARKER_def lit_def)
  have "split_once_str (lit RUN_STATE_END_MARKER) ((10 # run_state_to_json r) @ 10 # lit RUN_STATE_END_MARKER @ [])
      = Some ((10 # run_state_to_json r) @ [10], [])"
    by (rule split_once_str_after [OF _ _ clear]) (simp_all add: RUN_STATE_END_MARKER_def lit_def)
  moreover have "split_once_str (lit RUN_STATE_BEGIN_MARKER) (run_state_comment r)
      = Some ([], (10 # run_state_to_json r) @ 10 # lit RUN_STATE_END_MARKER)"
    unfolding run_state_comment_def marked_def
    by (simp add: split_once_str_here RUN_STATE_BEGIN_MARKER_def)
  moreover have "trim ((10 # run_state_to_json r) @ [10]) = run_state_to_json r"
    using trim_lines [of 123 125 s] by (simp add: s is_whitespace_def)
  ultimately show ?thesis
    using assms by (simp add: parse_run_state_comment_def parse_run_state_doc postable_def)
qed

text \<open>C27: A comment posted for a valid record is read back as that record.\<close>

theorem run_state_comment_reads_back:
  "postable r \<Longrightarrow> parse_run_state_comment (run_state_comment r) = Inr r"
  by (rule posted_record_read)

text \<open>A sample record, and the comment it is posted as.\<close>

definition sample_run :: "string \<Rightarrow> run_state" where
  "sample_run w = \<lparr>run_repo = lit ''o/r'', run_issue = 7, run_worker = lit w, run_status = lit ''claimed'',
     run_branch = lit ''b'', run_pr = [], run_step = lit ''s'', run_paths = [lit ''a'', lit ''c''],
     run_claim = Some (lit ''k''), run_claimed_at = lit ''t'', run_updated_at = lit ''u'', run_ttl = 3\<rparr>"

lemma no_marker: "60 \<notin> set s \<Longrightarrow> \<not> contains_str (lit RUN_STATE_END_MARKER) s"
  by (auto simp: contains_str_iff RUN_STATE_END_MARKER_def lit_def)

lemma number_no_marker: "60 \<notin> set (show_u64 n)"
  using show_nat_digits [of "unat n"] by (auto simp: show_u64_def list_all_iff is_ascii_digit_def)

lemma quoted_no_marker: "60 \<notin> set (claim_quoted s) \<longleftrightarrow> 60 \<notin> set s" if "list_all plain_char s"
proof -
  have "escape_claim_json s = s"
    using that by (induction s) (simp_all add: escape_claim_json_def claim_text.plain_escape)
  then show ?thesis by (simp add: claim_quoted_def)
qed

lemma sample_run_postable: "plain_text w \<Longrightarrow> 60 \<notin> set (lit w) \<Longrightarrow> \<not> blank (lit w) \<Longrightarrow> postable (sample_run w)"
proof -
  assume w: "plain_text w" "60 \<notin> set (lit w)" "\<not> blank (lit w)"
  have lits: "list_all plain_char (lit w)"
    using w(1) by (simp add: plain_text_def lit_def list_all_iff)
  have "validate_run_state (sample_run w) = Inr ()"
    using w(3) by (simp add: validate_run_state_def run_text_fields_def sample_run_def)
      (simp add: blank_iff lit_def is_whitespace_def)
  moreover have "60 \<notin> set (run_state_to_json (sample_run w))"
    using w(2) by (simp add: run_state_to_json_def sample_run_def number_no_marker quoted_no_marker lits)
      (simp add: quoted_no_marker lit_def plain_char_def json_field_def)
  ultimately show ?thesis by (simp add: postable_def no_marker)
qed

lemma sample_workers: "postable (sample_run ''w'')" "postable (sample_run ''v'')"
  by (rule sample_run_postable; simp add: plain_text_def plain_char_def lit_def blank_iff is_whitespace_def)+

theorem run_state_comment_reads_back_witness:
  "parse_run_state_comment (run_state_comment (sample_run ''w'')) = Inr (sample_run ''w'')"
  by (rule run_state_comment_reads_back [OF sample_workers(1)])

section \<open>The owner stays the owner\<close>

lemma min_by_key_None [simp]: "min_by_key f cs = None \<longleftrightarrow> cs = []"
  by (cases cs) (auto split: option.splits)

lemma min_by_key_le: "min_by_key f cs = Some d \<Longrightarrow> e \<in> set cs \<Longrightarrow> f d \<le> f e"
  by (induction cs arbitrary: d) (auto split: option.splits if_splits)

lemma min_by_key_in: "min_by_key f cs = Some d \<Longrightarrow> d \<in> set cs"
  by (induction cs arbitrary: d) (auto split: option.splits if_splits)

lemma min_by_key_filter:
  "min_by_key f cs = Some own \<Longrightarrow> (\<And>c. f c = f own \<Longrightarrow> P c)
     \<Longrightarrow> min_by_key f (filter P cs) = Some own"
proof (induction cs arbitrary: own)
  case (Cons c cs)
  show ?case
  proof (cases "min_by_key f cs")
    case None
    with Cons.prems show ?thesis by simp
  next
    case (Some d)
    have low: "f d \<le> f e" if "min_by_key f (filter P cs) = Some e" for e
      using min_by_key_le [OF Some] min_by_key_in [OF that] by auto
    show ?thesis
    proof (cases "f c \<le> f d")
      case True
      with Cons.prems Some have "own = c" "P c" by auto
      with True low show ?thesis by (auto split: option.split intro: order_trans)
    next
      case False
      with Cons.prems(1) Some have "own = d" by simp
      with Cons.IH [OF Some] Cons.prems(2) False show ?thesis by simp
    qed
  qed
qed simp

lemma min_by_key_last:
  "min_by_key f cs = Some own \<Longrightarrow> f own < f c \<Longrightarrow> min_by_key f (cs @ [c]) = Some own"
proof (induction cs arbitrary: own)
  case (Cons d cs)
  show ?case
  proof (cases "min_by_key f cs")
    case None
    with Cons.prems show ?thesis by auto
  next
    case (Some e)
    show ?thesis
    proof (cases "f d \<le> f e")
      case True
      with Cons.prems(1) Some have "own = d" by simp
      moreover have "f d \<le> f g" if "min_by_key f (cs @ [c]) = Some g" for g
        using min_by_key_in [OF that] min_by_key_le [OF Some] True Cons.prems(2) \<open>own = d\<close> by fastforce
      ultimately show ?thesis by (auto split: option.split)
    next
      case False
      with Cons.prems Some Cons.IH [OF Some] show ?thesis by simp
    qed
  qed
qed simp

text \<open>
  What happens to the comments of an issue: the server numbers a new comment above all earlier ones, and
  a worker that lost the claim deletes the comment \<open>claim_losing_worker_comment_id\<close> gives it.
\<close>

datatype comment_op = Post remote_comment | CleanUp ustr

fun comment_step :: "remote_comment list \<Rightarrow> comment_op \<Rightarrow> unit + remote_comment list" where
  "comment_step cs (Post c) =
     (if list_all (\<lambda>d. comment_id d < comment_id c) cs then Inr (cs @ [c]) else Inl ())"
| "comment_step cs (CleanUp w) = Inr (case claim_losing_worker_comment_id cs w of
       None \<Rightarrow> cs
     | Some i \<Rightarrow> filter (\<lambda>d. comment_id d \<noteq> i) cs)"

lemma losing_id_in: "claim_losing_worker_comment_id cs w = Some i \<Longrightarrow> i \<in> set (losing_ids cs w)"
  by (auto simp: claim_losing_worker_comment_id_def split: list.splits)
     (metis List.finite_set Max.set_eq_fold Max_in insert_iff list.distinct(1) list.simps(15) set_empty2)

lemma losing_id_mine:
  "claim_losing_worker_comment_id cs w = Some i \<Longrightarrow>
     (\<exists>c \<in> set cs. comment_id c = i \<and> posted_by w c) \<and> map_option comment_id (lowest_marked_comment cs) \<noteq> Some i"
  by (drule losing_id_in) (auto simp: losing_ids_def)

lemma owner_step:
  "lowest_marked_comment cs = Some own \<Longrightarrow> comment_step cs op = Inr cs' \<Longrightarrow> lowest_marked_comment cs' = Some own"
proof (cases op)
  case (Post c)
  assume own: "lowest_marked_comment cs = Some own" and "comment_step cs op = Inr cs'"
  with Post have "cs' = cs @ [c]" "list_all (\<lambda>d. comment_id d < comment_id c) cs" by (auto split: if_splits)
  with own min_by_key_in [of comment_id "filter is_marked cs" own] show ?thesis
    by (auto simp: lowest_marked_comment_def list_all_iff min_by_key_last)
next
  case (CleanUp w)
  assume own: "lowest_marked_comment cs = Some own" and "comment_step cs op = Inr cs'"
  with CleanUp show ?thesis
  proof (cases "claim_losing_worker_comment_id cs w")
    case (Some i)
    with own losing_id_mine [OF Some] have i: "comment_id own \<noteq> i" by simp
    have "min_by_key comment_id (filter (\<lambda>d. comment_id d \<noteq> i) (filter is_marked cs)) = Some own"
      by (rule min_by_key_filter) (use own i in \<open>auto simp: lowest_marked_comment_def\<close>)
    with Some CleanUp \<open>comment_step cs op = Inr cs'\<close> show ?thesis
      by (auto simp: lowest_marked_comment_def filter_filter conj_commute)
  qed simp
qed

interpretation owner_keeps: guarded_machine comment_step "\<lambda>cs. lowest_marked_comment cs = Some own"
  for own :: remote_comment
  by unfold_locales (rule owner_step)

text \<open>C26: The comment that owns an issue stays its owner, and the record read from it stays the same, whatever is
  posted above it and whatever losing workers delete.\<close>

theorem claim_owner_is_stable:
  assumes "lowest_marked_comment cs = Some own" "run_all comment_step cs ops = Inr cs'"
  shows "lowest_marked_comment cs' = Some own \<and> select_run_state cs' rep issue = select_run_state cs rep issue"
  using owner_keeps.run_good [OF assms] assms(1) by (simp add: select_run_state_def)

definition sample_comment :: "u64 \<Rightarrow> string \<Rightarrow> remote_comment" where
  "sample_comment i w = \<lparr>comment_id = i, comment_body = run_state_comment (sample_run w), comment_updated_at = []\<rparr>"

theorem claim_owner_is_stable_witness:
  "\<exists>cs. run_all comment_step [sample_comment 2 ''w''] [Post (sample_comment 3 ''v''), CleanUp (lit ''v'')] = Inr cs
     \<and> lowest_marked_comment cs = Some (sample_comment 2 ''w'') \<and> select_run_state cs (lit ''o/r'') 7 \<noteq> None"
proof -
  have m: "is_marked (sample_comment i w)" for i w
    by (simp add: is_marked_def sample_comment_def run_state_comment_def marked_def contains_str_iff)
       (metis append_Cons append_assoc append_Nil append_Nil2)
  have p: "posted_by (lit ''v'') (sample_comment 3 ''v'')" "\<not> posted_by (lit ''v'') (sample_comment 2 ''w'')"
    by (simp_all add: posted_by_def sample_comment_def posted_record_read sample_workers)
       (simp_all add: sample_run_def lit_def)
  have own: "lowest_marked_comment [sample_comment 2 ''w''] = Some (sample_comment 2 ''w'')"
    and two: "lowest_marked_comment [sample_comment 2 ''w'', sample_comment 3 ''v''] = Some (sample_comment 2 ''w'')"
    by (simp_all add: lowest_marked_comment_def m) (simp add: sample_comment_def)
  have run: "run_all comment_step [sample_comment 2 ''w''] [Post (sample_comment 3 ''v''), CleanUp (lit ''v'')]
      = Inr [sample_comment 2 ''w'']"
    by (simp add: claim_losing_worker_comment_id_def losing_ids_def p two) (simp add: sample_comment_def)
  have sel: "select_run_state [sample_comment 2 ''w''] (lit ''o/r'') 7 \<noteq> None"
    by (simp add: select_run_state_def own) (simp add: sample_comment_def posted_record_read sample_workers, simp add: sample_run_def)
  from claim_owner_is_stable [OF own run, of "lit ''o/r''" 7] run sel show ?thesis by auto
qed

end
