(* ===== verification/Lease_Compat.thy ===== *)
theory Lease_Compat
  imports Work_Safety Task Claim_Safety
begin

text \<open>
  The adapters between the older lifecycles and the canonical task (\<open>initiative/compat_lifecycle.rs\<close>,
  \<open>initiative/compat_lease.rs\<close>): the task state of a work item and back, one view of the three kinds of
  lease, and who may take over. The moves of the work protocol are shown to be moves of the task.
\<close>

section \<open>Lifecycles\<close>

fun task_of_stage :: "work_state \<Rightarrow> task_state" where
  "task_of_stage Created = Defined"
| "task_of_stage Assigned = Ready"
| "task_of_stage Delivered = Leased"
| "task_of_stage Claimed = Leased"
| "task_of_stage work_state.Running = task_state.Running"
| "task_of_stage Completed = AwaitingTest"
| "task_of_stage Validated = AwaitingReview"
| "task_of_stage Reviewed = AwaitingReview"
| "task_of_stage Merged = Verified"

fun task_of_non_happy :: "non_happy \<Rightarrow> task_state" where
  "task_of_non_happy non_happy.Blocked = task_state.Blocked"
| "task_of_non_happy Failed = FailedTerminal"
| "task_of_non_happy Abandoned = FailedRetryable"
| "task_of_non_happy RetryPending = FailedRetryable"
| "task_of_non_happy NeedsHuman = task_state.Blocked"
| "task_of_non_happy non_happy.Superseded = task_state.Superseded"
| "task_of_non_happy Cancelled = FailedTerminal"
| "task_of_non_happy Unknown = task_state.Blocked"

definition task_state_from_work :: "work_state \<Rightarrow> non_happy option \<Rightarrow> task_state" where
  "task_state_from_work s n = (case n of Some n \<Rightarrow> task_of_non_happy n | None \<Rightarrow> task_of_stage s)"

fun work_state_from_task :: "task_state \<Rightarrow> (work_state \<times> non_happy option) option" where
  "work_state_from_task Defined = Some (Created, None)"
| "work_state_from_task Ready = Some (Assigned, None)"
| "work_state_from_task Leased = Some (Delivered, None)"
| "work_state_from_task task_state.Running = Some (work_state.Running, None)"
| "work_state_from_task AwaitingTest = Some (Completed, None)"
| "work_state_from_task AwaitingReview = Some (Validated, None)"
| "work_state_from_task Verified = Some (Merged, None)"
| "work_state_from_task task_state.Blocked = Some (Created, Some non_happy.Blocked)"
| "work_state_from_task FailedRetryable = Some (Created, Some RetryPending)"
| "work_state_from_task FailedTerminal = Some (Created, Some Failed)"
| "work_state_from_task task_state.Superseded = Some (Created, Some non_happy.Superseded)"
| "work_state_from_task ChangesRequested = None"

definition task_state_of :: "work_item \<Rightarrow> task_state" where
  "task_state_of i = task_state_from_work (work_state i) (non_happy i)"

lemma back_to_task: "work_state_from_task t = Some (s, n) \<Longrightarrow> task_state_from_work s n = t"
  by (cases t) (auto simp: task_state_from_work_def)

lemma never_ahead:
  "work_state_from_task (task_of_stage s) = Some (s', n) \<Longrightarrow> n = None \<and> work_rank s' \<le> work_rank s"
  by (cases s) auto

lemma stage_moves: "can_advance s t \<Longrightarrow> can_transition_to (task_of_stage s) (task_of_stage t)"
  by (cases s; cases t) (simp_all add: can_advance_def can_transition_to_def)

lemma advance_moves: "advance_step i e = Inr j \<Longrightarrow> can_transition_to (task_state_of i) (task_state_of j)"
  using advance_Inr [of i "fst e" "snd e" j]
  by (cases "non_happy i") (auto simp: advance_step_def task_state_of_def task_state_from_work_def stage_moves
      can_transition_to_def [of s s for s])

interpretation work_as_task: refining_machine advance_step task_state_of can_transition_to
  by unfold_locales (rule advance_moves)



section \<open>Leases\<close>

text \<open>\<open>&dyn LeaseView\<close>\<close>

datatype lease_view = TaskView task_lease | WorkView work_lease | ClaimView claim_lease

fun lease_holder :: "lease_view \<Rightarrow> ustr" where
  "lease_holder (TaskView l) = task_lease.lease_session l"
| "lease_holder (WorkView l) = work_lease.lease_session l"
| "lease_holder (ClaimView l) = claim_worker l"

fun view_expires_at :: "lease_view \<Rightarrow> u64" where
  "view_expires_at (TaskView l) = expires_at l"
| "view_expires_at (WorkView l) = lease_expires_at l"
| "view_expires_at (ClaimView l) = saturating_add (claim_updated_at l) (claim_ttl l)"

fun view_generation :: "lease_view \<Rightarrow> u64 option" where
  "view_generation (TaskView l) = None"
| "view_generation (WorkView l) = Some (fencing_generation l)"
| "view_generation (ClaimView l) = None"

fun view_is_live :: "lease_view \<Rightarrow> u64 \<Rightarrow> bool" where
  "view_is_live (TaskView l) now = is_live l now"
| "view_is_live (WorkView l) now = (\<not> is_expired l now)"
| "view_is_live (ClaimView l) now = (\<not> is_stale_at l now)"

definition may_supersede :: "lease_view \<Rightarrow> u64 option \<Rightarrow> u64 \<Rightarrow> bool" where
  "may_supersede current next now =
     (if view_is_live current now then False
      else case (view_generation current, next) of
        (Some held, Some g) \<Rightarrow> held < g
      | (Some _, None) \<Rightarrow> False
      | (None, Some _) \<Rightarrow> False
      | (None, None) \<Rightarrow> False)"

lemma stale_iff_past:
  "saturating_sub now u > ttl \<longleftrightarrow> saturating_add u ttl < now" for now u ttl :: u64
proof -
  have b: "unat now < 2 ^ 64" using unsigned_less [of now] by simp
  have s: "unat (saturating_sub now u) = unat now - unat u"
    by (simp add: saturating_sub_def word_le_nat_alt unat_sub)
  have m: "unat (- 1 :: u64) = 2 ^ 64 - 1" by (simp add: unsigned_minus_1_eq_mask mask_eq_exp_minus_1)
  have a: "unat (saturating_add u ttl) = min (unat u + unat ttl) (2 ^ 64 - 1)"
    using m by (simp add: saturating_add_def unat_word_ariths)
  show ?thesis using b by (simp add: word_less_nat_alt s a) arith
qed

text \<open>Whether a lease is live follows from the instant its view gives, also where the sum of the last
  update and the term does not fit its word: a task or work lease is live before it, a claim up to
  and including it, and a merged claim for ever.\<close>

theorem view_liveness:
  "view_is_live v now = (case v of
      TaskView l \<Rightarrow> now < view_expires_at v
    | WorkView l \<Rightarrow> now < view_expires_at v
    | ClaimView l \<Rightarrow> if claim_status l = MergedState then True else now \<le> view_expires_at v)"
  by (cases v) (simp_all add: is_live_def is_expired_def is_stale_at_def stale_iff_past not_less not_le)

end
