(* ===== verification/Text_Search.thy ===== *)
theory Text_Search
  imports Rust_Base
begin

text \<open>
  Searching in texts: \<open>str::find\<close>, \<open>rfind\<close> and \<open>match_indices\<close> as positions, words with their boundaries, and
  ordered pairs. Positions count characters where the code counts bytes; the code uses them to slice only.
\<close>

section \<open>Occurrences\<close>

fun find_str :: "ustr \<Rightarrow> ustr \<Rightarrow> nat option" where
  "find_str pat [] = (if pat = [] then Some 0 else None)"
| "find_str pat (c # cs) = (if starts_with_str pat (c # cs) then Some 0 else map_option Suc (find_str pat cs))"

fun rfind_str :: "ustr \<Rightarrow> ustr \<Rightarrow> nat option" where
  "rfind_str pat [] = (if pat = [] then Some 0 else None)"
| "rfind_str pat (c # cs) = (case rfind_str pat cs of
       Some i \<Rightarrow> Some (Suc i)
     | None \<Rightarrow> if starts_with_str pat (c # cs) then Some 0 else None)"

text \<open>Matches do not overlap: after a match at \<open>i\<close> the next \<open>length pat\<close> characters are passed over.\<close>

fun matches_from :: "nat \<Rightarrow> nat \<Rightarrow> ustr \<Rightarrow> ustr \<Rightarrow> nat list" where
  "matches_from i k pat [] = []"
| "matches_from i (Suc k) pat (c # cs) = matches_from (Suc i) k pat cs"
| "matches_from i 0 pat (c # cs) = (if starts_with_str pat (c # cs)
     then i # matches_from (Suc i) (length pat - 1) pat cs else matches_from (Suc i) 0 pat cs)"

definition match_indices :: "ustr \<Rightarrow> ustr \<Rightarrow> nat list" where
  "match_indices pat s = matches_from 0 0 pat s"

text \<open>\<open>str::matches(..).count()\<close> for a non-empty pattern: matches do not overlap.\<close>

fun count_matches :: "nat \<Rightarrow> ustr \<Rightarrow> ustr \<Rightarrow> nat" where
  "count_matches k pat [] = 0"
| "count_matches (Suc k) pat (c # cs) = count_matches k pat cs"
| "count_matches 0 pat (c # cs) = (if strip_prefix pat (c # cs) \<noteq> None
     then Suc (count_matches (length pat - 1) pat cs) else count_matches 0 pat cs)"

definition contains_any :: "ustr \<Rightarrow> ustr list \<Rightarrow> bool" where
  "contains_any s pats = list_ex (\<lambda>p. contains_str p s) pats"

definition ordered_contains :: "ustr \<Rightarrow> ustr \<Rightarrow> ustr \<Rightarrow> bool" where
  "ordered_contains s a b = (case find_str a s of
       None \<Rightarrow> False
     | Some i \<Rightarrow> contains_str b (drop (i + length a) s))"

section \<open>Words\<close>

definition word_char :: "uchar \<Rightarrow> bool" where
  "word_char c \<longleftrightarrow> is_alphanumeric c \<or> c = 95"

definition stands_alone :: "ustr \<Rightarrow> nat \<Rightarrow> nat \<Rightarrow> bool" where
  "stands_alone s i n \<longleftrightarrow> (if i = 0 then True else \<not> word_char (s ! (i - 1)))
     \<and> (if i + n < length s then \<not> word_char (s ! (i + n)) else True)"

definition word_positions :: "ustr \<Rightarrow> ustr \<Rightarrow> nat list" where
  "word_positions s w = filter (\<lambda>i. stands_alone s i (length w)) (match_indices w s)"

definition contains_any_word :: "ustr \<Rightarrow> ustr list \<Rightarrow> bool" where
  "contains_any_word s ws =
     list_ex (\<lambda>w. list_ex (\<lambda>i. stands_alone s i (length w)) (match_indices w s)) ws"

definition ordered_pair_span :: "ustr \<Rightarrow> ustr \<Rightarrow> ustr \<Rightarrow> (nat \<times> nat) option" where
  "ordered_pair_span s a b =
     (case List.map_filter (\<lambda>i. case word_positions (drop (i + length a) s) b of
          [] \<Rightarrow> None
        | j # _ \<Rightarrow> Some (i, i + length a + j)) (word_positions s a) of
        [] \<Rightarrow> None
      | p # _ \<Rightarrow> Some p)"

section \<open>Where a pattern occurs\<close>

lemma starts_with_iff: "starts_with_str p s \<longleftrightarrow> (\<exists>t. s = p @ t)"
  by (auto simp: starts_with_str_def strip_prefix_Some)

lemma contains_starts: "contains_str pat (c # cs) \<longleftrightarrow> starts_with_str pat (c # cs) \<or> contains_str pat cs"
  by (simp add: starts_with_str_def)

text \<open>A text without the pattern yields no match.\<close>

lemma matches_from_None: "\<not> contains_str pat s \<Longrightarrow> matches_from i k pat s = []"
  by (induction i k pat s rule: matches_from.induct) (auto simp: starts_with_str_def)

lemma count_zero: "\<not> contains_str pat s \<Longrightarrow> count_matches k pat s = 0"
  by (induction k pat s rule: count_matches.induct) auto

lemma count_zero_iff: "pat \<noteq> [] \<Longrightarrow> count_matches 0 pat s = 0 \<longleftrightarrow> \<not> contains_str pat s"
  by (induction s) auto

lemma length_match_indices: "length (matches_from i k pat s) = count_matches k pat s"
  by (induction i k pat s rule: matches_from.induct) (auto simp: starts_with_str_def)

text \<open>No occurrence of the pattern begins in \<open>a\<close> and ends in \<open>b\<close>.\<close>

definition apart :: "ustr \<Rightarrow> ustr \<Rightarrow> ustr \<Rightarrow> bool" where
  "apart pat a b \<longleftrightarrow> (\<forall>u t. a = u @ t \<and> t \<noteq> [] \<and> length t < length pat \<longrightarrow> \<not> starts_with_str pat (t @ b))"

lemma apart_tl: "apart pat (c # a) b \<Longrightarrow> apart pat a b"
  by (auto simp: apart_def)

lemma apart_starts:
  assumes "apart pat (c # a) b"
  shows "starts_with_str pat (c # a @ b) \<longleftrightarrow> starts_with_str pat (c # a)"
proof
  assume st: "starts_with_str pat (c # a @ b)"
  then have "length pat \<le> length (c # a)"
    using assms unfolding apart_def by (metis append_Cons append_Nil list.distinct(1) not_le)
  moreover obtain t where "(c # a) @ b = pat @ t" using st by (auto simp: starts_with_iff)
  ultimately have "c # a = pat @ drop (length pat) (c # a)"
    by (metis append_eq_append_conv_if append_take_drop_id)
  then show "starts_with_str pat (c # a)" unfolding starts_with_iff by blast
next
  assume "starts_with_str pat (c # a)"
  then obtain t where "c # a = pat @ t" by (auto simp: starts_with_iff)
  then have "c # a @ b = pat @ (t @ b)" by (metis append_Cons append_assoc)
  then show "starts_with_str pat (c # a @ b)" unfolding starts_with_iff by blast
qed

lemma apart_newline: "c \<notin> set pat \<Longrightarrow> apart pat (a @ [c]) b"
  unfolding apart_def
proof (intro allI impI notI, elim conjE)
  fix u t
  assume c: "c \<notin> set pat" and t: "a @ [c] = u @ t" "t \<noteq> []" "length t < length pat" and "starts_with_str pat (t @ b)"
  then obtain r where r: "t @ b = pat @ r" by (auto simp: starts_with_iff)
  have "last t = c" using t(1,2) by (metis last_appendR last_snoc)
  then have "c \<in> set t" using t(2) last_in_set by metis
  moreover have "t = take (length t) pat" using r t(3) by (metis append_eq_append_conv_if less_imp_le take_all_iff)
  ultimately show False using c by (metis in_set_takeD)
qed

lemma apart_Nil [simp]: "apart pat [] b"
  by (simp add: apart_def)

lemma count_append:
  "apart pat a b \<Longrightarrow> k \<le> length a \<Longrightarrow> pat \<noteq> []
    \<Longrightarrow> count_matches k pat (a @ b) = count_matches k pat a + count_matches 0 pat b"
proof (induction k pat a rule: count_matches.induct)
  case (2 k pat c cs)
  then show ?case using apart_tl [OF "2.prems"(1)] by simp
next
  case (3 pat c cs)
  note st = apart_starts [OF "3.prems"(1), unfolded starts_with_str_def]
  show ?case
  proof (cases "strip_prefix pat (c # cs) \<noteq> None")
    case True
    then have "length pat \<le> length (c # cs)" by (auto simp: strip_prefix_Some dest: arg_cong [of _ _ length])
    then have "count_matches (length pat - 1) pat (cs @ b)
        = count_matches (length pat - 1) pat cs + count_matches 0 pat b"
      using "3.IH"(1) [OF True apart_tl [OF "3.prems"(1)]] "3.prems"(3) by simp
    then show ?thesis using True st by simp
  next
    case False
    then have "count_matches 0 pat (cs @ b) = count_matches 0 pat cs + count_matches 0 pat b"
      using "3.IH"(2) [OF False apart_tl [OF "3.prems"(1)]] "3.prems"(3) by simp
    then show ?thesis using False st by simp
  qed
qed simp

lemma find_append:
  "apart pat a b \<Longrightarrow> \<not> contains_str pat a \<Longrightarrow> find_str pat (a @ b) = map_option ((+) (length a)) (find_str pat b)"
proof (induction a)
  case Nil
  then show ?case by (cases "find_str pat b") auto
next
  case (Cons c a)
  then have "\<not> starts_with_str pat (c # a)" "\<not> contains_str pat a" by (simp_all add: starts_with_str_def)
  moreover have "\<not> starts_with_str pat (c # a @ b)"
    using calculation(1) apart_starts [OF Cons.prems(1)] by blast
  ultimately show ?case
    using Cons.IH [OF apart_tl [OF Cons.prems(1)]] by (cases "find_str pat b") simp_all
qed

lemma find_here [simp]: "find_str pat (pat @ r) = Some 0"
proof -
  have "starts_with_str pat (pat @ r)" by (auto simp: starts_with_iff)
  then show ?thesis by (cases "pat @ r") auto
qed

lemma find_Some: "find_str pat s = Some i \<Longrightarrow> \<exists>u v. s = u @ pat @ v \<and> length u = i"
proof (induction s arbitrary: i)
  case (Cons c cs)
  show ?case
  proof (cases "starts_with_str pat (c # cs)")
    case True
    then show ?thesis using Cons.prems by (auto simp: starts_with_iff)
  next
    case False
    then obtain j where "find_str pat cs = Some j" "i = Suc j" using Cons.prems by auto
    then obtain u v where "cs = u @ pat @ v" "length u = j" using Cons.IH by blast
    then show ?thesis using \<open>i = Suc j\<close> by (metis append_Cons length_Cons)
  qed
qed (auto split: if_splits)

end
