(* ===== verification/Claim_Evidence.thy ===== *)
theory Claim_Evidence
  imports Claim_Safety Text_Search
begin

text \<open>
  What the executor posts about a claim, and the recovery of a claim whose worker is gone and whose pull
  request is ready to merge (\<open>claim/mod.rs\<close>): the evidence comment and its reader, pull requests and
  required checks, the scan for closing references, and the decision.
\<close>

section \<open>Pull requests and checks\<close>

record open_pull_request =
  pr_number :: u64
  pr_body :: ustr
  head_ref_name :: ustr
  head_ref_oid :: ustr
  is_draft :: bool
  base_ref_name :: ustr

record required_check =
  check_name :: ustr
  check_state :: ustr

definition read_required_check :: "nat \<Rightarrow> json \<Rightarrow> ustr + required_check" where
  "read_required_check k v =
     (let ctx = indexed ''GitHub required checks'' k in
      and_then (into_object v ctx) (\<lambda>m.
      and_then (require_claim_keys m [''name'', ''state'']) (\<lambda>_.
      and_then (take_required_key m ''name'') (\<lambda>(v, m).
      and_then (into_string v (ctx @ lit '' name'')) (\<lambda>n.
      and_then (take_required_key m ''state'') (\<lambda>(v, m).
      and_then (into_string v (ctx @ lit '' state'')) (\<lambda>s.
      Inr \<lparr>check_name = n, check_state = s\<rparr>)))))))"

definition parse_required_checks :: "ustr \<Rightarrow> ustr + required_check list" where
  "parse_required_checks input =
     and_then (read_json input) (\<lambda>v.
     and_then (into_array v (lit ''GitHub required checks'')) (read_each read_required_check 0))"

definition read_pull_request :: "nat \<Rightarrow> json \<Rightarrow> ustr + open_pull_request" where
  "read_pull_request k v =
     (let ctx = indexed ''GitHub open pull requests'' k in
      and_then (into_object v ctx) (\<lambda>m.
      and_then (require_claim_keys m
        [''number'', ''body'', ''headRefName'', ''headRefOid'', ''isDraft'', ''baseRefName'']) (\<lambda>_.
      and_then (take_required_key m ''number'') (\<lambda>(v, m).
      and_then (into_number v (ctx @ lit '' number'')) (\<lambda>n.
      and_then (take_claim_string m ''body'' ctx) (\<lambda>(b, m).
      and_then (take_claim_string m ''headRefName'' ctx) (\<lambda>(h, m).
      and_then (take_required_key m ''headRefOid'') (\<lambda>(v, m).
      and_then (into_string v (ctx @ lit '' headRefOid'')) (\<lambda>oid.
      and_then (take_required_key m ''isDraft'') (\<lambda>(v, m).
      and_then (into_bool v (ctx @ lit '' isDraft'')) (\<lambda>draft.
      and_then (take_required_key m ''baseRefName'') (\<lambda>(v, m).
      and_then (into_string v (ctx @ lit '' baseRefName'')) (\<lambda>base.
      Inr \<lparr>pr_number = n, pr_body = (case b of Some s \<Rightarrow> s | None \<Rightarrow> []),
           head_ref_name = (case h of Some s \<Rightarrow> s | None \<Rightarrow> []), head_ref_oid = oid,
           is_draft = draft, base_ref_name = base\<rparr>)))))))))))))"

definition parse_open_pull_requests :: "ustr \<Rightarrow> ustr + open_pull_request list" where
  "parse_open_pull_requests input =
     and_then (read_json input) (\<lambda>v.
     and_then (into_array v (lit ''GitHub open pull requests'')) (read_each read_pull_request 0))"

section \<open>Closing references\<close>

definition starts_word :: "uchar option \<Rightarrow> bool" where
  "starts_word before = (case before of None \<Rightarrow> True | Some c \<Rightarrow> \<not> is_alphanumeric c)"

definition refers_to :: "ustr \<Rightarrow> ustr \<Rightarrow> bool" where
  "refers_to issue suffix = (case strip_prefix issue (trim_start suffix) of
       None \<Rightarrow> False
     | Some [] \<Rightarrow> True
     | Some (c # _) \<Rightarrow> \<not> is_ascii_digit c)"

text \<open>
  The loop of \<open>contains_closing_reference\<close>: \<open>k\<close> characters of the last verb found are still to be passed
  over, \<open>before\<close> is the character in front of the rest.
\<close>

fun closing_reference :: "nat \<Rightarrow> uchar option \<Rightarrow> ustr \<Rightarrow> ustr \<Rightarrow> ustr \<Rightarrow> bool" where
  "closing_reference k before verb issue [] = False"
| "closing_reference (Suc k) before verb issue (c # cs) = closing_reference k (Some c) verb issue cs"
| "closing_reference 0 before verb issue (c # cs) = (case strip_prefix verb (c # cs) of
       None \<Rightarrow> closing_reference 0 (Some c) verb issue cs
     | Some suffix \<Rightarrow> if starts_word before \<and> refers_to issue suffix then True
         else closing_reference (length verb - 1) (Some c) verb issue cs)"

definition contains_closing_reference :: "ustr \<Rightarrow> ustr \<Rightarrow> ustr \<Rightarrow> bool" where
  "contains_closing_reference body verb issue = closing_reference 0 None verb issue body"

definition closing_verbs :: "ustr list" where
  "closing_verbs = map lit [''close'', ''closed'', ''closes'', ''fix'', ''fixed'', ''fixes'',
     ''resolve'', ''resolved'', ''resolves'']"

definition closes_issue :: "ustr \<Rightarrow> u64 \<Rightarrow> bool" where
  "closes_issue body issue =
     list_ex (\<lambda>verb. contains_closing_reference (map to_ascii_lower body) verb (lit ''#'' @ show_u64 issue))
       closing_verbs"

definition closeout_count :: "ustr \<Rightarrow> nat" where
  "closeout_count body =
     length (filter (\<lambda>l. eq_ignore_ascii_case (trim l) (lit ''## Closeout report'')) (str_lines body))"

definition is_reconcilable_pull_request :: "open_pull_request \<Rightarrow> u64 \<Rightarrow> bool" where
  "is_reconcilable_pull_request p issue \<longleftrightarrow>
     \<not> is_draft p \<and> closes_issue (pr_body p) issue \<and> closeout_count (pr_body p) = 1"

definition find_reconcilable_pull_request :: "open_pull_request list \<Rightarrow> u64 \<Rightarrow> open_pull_request option" where
  "find_reconcilable_pull_request ps issue =
     min_by_key pr_number (filter (\<lambda>p. is_reconcilable_pull_request p issue) ps)"

definition is_executor_result_pull_request :: "open_pull_request \<Rightarrow> u64 \<Rightarrow> ustr \<Rightarrow> bool" where
  "is_executor_result_pull_request p issue branch \<longleftrightarrow>
     is_reconcilable_pull_request p issue \<and> head_ref_name p = branch"

section \<open>Evidence of an executor\<close>

definition EXECUTOR_RESULT_BEGIN_MARKER :: string where
  "EXECUTOR_RESULT_BEGIN_MARKER = ''<!-- autospec-executor-result:begin -->''"

definition EXECUTOR_RESULT_END_MARKER :: string where
  "EXECUTOR_RESULT_END_MARKER = ''<!-- autospec-executor-result:end -->''"

record executor_evidence =
  ev_repo :: ustr
  ev_issue :: u64
  ev_worker :: ustr
  ev_branch :: ustr
  ev_outcome :: ustr
  ev_pr :: "u64 option"
  ev_step :: ustr
  ev_receipt :: ustr
  ev_claim :: "ustr option"
  ev_commit :: "ustr option"
  ev_premerge :: "ustr option"

definition evidence_to_json :: "executor_evidence \<Rightarrow> ustr" where
  "evidence_to_json e = lit ''{''
     @ json_field ''schema'' @ lit ''1'' @ lit '',''
     @ json_field ''repo'' @ claim_quoted (ev_repo e) @ lit '',''
     @ json_field ''issue'' @ show_u64 (ev_issue e) @ lit '',''
     @ json_field ''worker_id'' @ claim_quoted (ev_worker e) @ lit '',''
     @ json_field ''branch'' @ claim_quoted (ev_branch e) @ lit '',''
     @ json_field ''outcome'' @ claim_quoted (ev_outcome e) @ lit '',''
     @ json_field ''pr'' @ (case ev_pr e of None \<Rightarrow> lit ''null'' | Some n \<Rightarrow> show_u64 n) @ lit '',''
     @ json_field ''step'' @ claim_quoted (ev_step e) @ lit '',''
     @ json_field ''receipt_id'' @ claim_quoted (ev_receipt e) @ lit '',''
     @ json_field ''claim_id'' @ claim_optional_string (ev_claim e) @ lit '',''
     @ json_field ''commit'' @ claim_optional_string (ev_commit e) @ lit '',''
     @ json_field ''premerge_receipt'' @ claim_optional_string (ev_premerge e) @ lit ''}''"

definition evidence_comment :: "executor_evidence \<Rightarrow> ustr" where
  "evidence_comment e = marked EXECUTOR_RESULT_BEGIN_MARKER EXECUTOR_RESULT_END_MARKER (evidence_to_json e)"

definition evidence_text_fields :: "executor_evidence \<Rightarrow> (string \<times> ustr) list" where
  "evidence_text_fields e = [(''repo'', ev_repo e), (''worker_id'', ev_worker e), (''branch'', ev_branch e),
     (''outcome'', ev_outcome e), (''step'', ev_step e), (''receipt_id'', ev_receipt e)]"

definition is_lower_hex :: "uchar \<Rightarrow> bool" where
  "is_lower_hex c \<longleftrightarrow> is_ascii_digit c \<or> (97 \<le> c \<and> c \<le> 102)"

definition blank_option :: "ustr option \<Rightarrow> bool" where
  "blank_option v = (case v of None \<Rightarrow> False | Some s \<Rightarrow> blank s)"

definition validate_evidence :: "executor_evidence \<Rightarrow> ustr + unit" where
  "validate_evidence e =
     (if ev_issue e = 0 then Inl (lit ''executor result issue must be positive'')
      else case find (\<lambda>f. blank (snd f)) (evidence_text_fields e) of
        Some f \<Rightarrow> Inl (lit ''executor result '' @ lit (fst f) @ lit '' must not be empty'')
      | None \<Rightarrow>
          if ev_claim e = None then Inl (lit ''executor result requires claim_id'')
          else if ev_outcome e = lit ''succeeded''
              \<and> list_ex (\<lambda>v. v = None) [ev_claim e, ev_commit e, ev_premerge e]
          then Inl (lit ''succeeded executor result requires claim_id, commit, and premerge_receipt'')
          else if ev_outcome e \<noteq> lit ''succeeded'' \<and> list_ex (\<lambda>v. v \<noteq> None) [ev_commit e, ev_premerge e]
          then Inl (lit ''non-succeeded executor result rejects commit and premerge_receipt'')
          else case find (\<lambda>f. blank_option (snd f)) [(''claim_id'', ev_claim e), (''commit'', ev_commit e)] of
            Some f \<Rightarrow> Inl (lit ''executor result '' @ lit (fst f) @ lit '' must not be empty'')
          | None \<Rightarrow>
              if (case ev_premerge e of None \<Rightarrow> False
                  | Some d \<Rightarrow> byte_len d \<noteq> 64 \<or> \<not> list_all is_lower_hex d)
              then Inl (lit ''executor result premerge_receipt must be 64-character lowercase hex'')
              else Inr ())"

definition evidence_keys :: "string list" where
  "evidence_keys = [''schema'', ''repo'', ''issue'', ''worker_id'', ''branch'', ''outcome'', ''pr'',
     ''step'', ''receipt_id'', ''claim_id'', ''commit'', ''premerge_receipt'']"

definition read_pr :: "json option \<Rightarrow> ustr + u64 option" where
  "read_pr v = (case v of
       Some JNull \<Rightarrow> Inr None
     | Some v \<Rightarrow> map_ok Some (into_number v (lit ''executor result pr''))
     | None \<Rightarrow> Inl (lit ''executor result evidence missing required key: pr''))"

definition take_evidence_text :: "(ustr, json) bmap \<Rightarrow> string \<Rightarrow> ustr + ustr \<times> (ustr, json) bmap" where
  "take_evidence_text m key = and_then (take_required_key m key)
     (\<lambda>(v, m). map_ok (\<lambda>s. (s, m)) (into_string v (lit ''executor result '' @ lit key)))"

definition parse_evidence :: "ustr \<Rightarrow> ustr + executor_evidence" where
  "parse_evidence input =
     (let ctx = lit ''executor result'' in
      and_then (read_json input) (\<lambda>v.
      and_then (into_object v (lit ''executor result evidence'')) (\<lambda>m.
      and_then (require_claim_keys m evidence_keys) (\<lambda>_.
      and_then (take_required_key m ''schema'') (\<lambda>(v, m).
      and_then (into_number v (lit ''executor result schema'')) (\<lambda>schema.
      if schema \<noteq> 1 then Inl (lit ''unsupported executor result schema: '' @ show_u64 schema)
      else and_then (read_pr (bm_get m (lit ''pr''))) (\<lambda>pr.
      let m = bm_remove (lit ''pr'') m in
      and_then (take_evidence_text m ''repo'') (\<lambda>(rep, m).
      and_then (take_required_key m ''issue'') (\<lambda>(v, m).
      and_then (into_number v (lit ''executor result issue'')) (\<lambda>issue.
      and_then (take_evidence_text m ''worker_id'') (\<lambda>(worker, m).
      and_then (take_evidence_text m ''branch'') (\<lambda>(branch, m).
      and_then (take_evidence_text m ''outcome'') (\<lambda>(outcome, m).
      and_then (take_evidence_text m ''step'') (\<lambda>(step, m).
      and_then (take_evidence_text m ''receipt_id'') (\<lambda>(receipt, m).
      and_then (take_claim_string m ''claim_id'' ctx) (\<lambda>(claim, m).
      and_then (take_claim_string m ''commit'' ctx) (\<lambda>(commit, m).
      and_then (take_claim_string m ''premerge_receipt'' ctx) (\<lambda>(premerge, m).
      let e = \<lparr>ev_repo = rep, ev_issue = issue, ev_worker = worker, ev_branch = branch,
               ev_outcome = outcome, ev_pr = pr, ev_step = step, ev_receipt = receipt,
               ev_claim = claim, ev_commit = commit, ev_premerge = premerge\<rparr> in
      and_then (validate_evidence e) (\<lambda>_. Inr e)))))))))))))))))))"

definition parse_evidence_comment :: "ustr \<Rightarrow> ustr + executor_evidence" where
  "parse_evidence_comment body =
     (if count_matches 0 (lit EXECUTOR_RESULT_BEGIN_MARKER) body \<noteq> 1
         \<or> count_matches 0 (lit EXECUTOR_RESULT_END_MARKER) body \<noteq> 1
      then Inl (lit ''executor result evidence markers must occur exactly once'')
      else case split_once_str (lit EXECUTOR_RESULT_BEGIN_MARKER) body of
        None \<Rightarrow> Inl (lit ''missing executor result evidence begin marker'')
      | Some (_, after) \<Rightarrow> (case split_once_str (lit EXECUTOR_RESULT_END_MARKER) after of
          None \<Rightarrow> Inl (lit ''missing executor result evidence end marker'')
        | Some (payload, _) \<Rightarrow> parse_evidence (trim payload)))"

definition executor_result_evidence_exists :: "remote_comment list \<Rightarrow> executor_evidence \<Rightarrow> bool" where
  "executor_result_evidence_exists cs expected =
     list_ex (\<lambda>c. parse_evidence_comment (comment_body c) = Inr expected) cs"

definition success_for :: "u64 \<Rightarrow> remote_comment \<Rightarrow> executor_evidence option" where
  "success_for pr c = (case parse_evidence_comment (comment_body c) of
       Inl _ \<Rightarrow> None
     | Inr e \<Rightarrow> if ev_outcome e = lit ''succeeded'' \<and> ev_pr e = Some pr then Some e else None)"

definition successful_executor_result_for_pull_request ::
  "remote_comment list \<Rightarrow> u64 \<Rightarrow> executor_evidence option" where
  "successful_executor_result_for_pull_request cs pr = (case List.map_filter (success_for pr) cs of
       [e] \<Rightarrow> Some e
     | _ \<Rightarrow> None)"

section \<open>Recovery\<close>

datatype recovery_block =
  LiveLease | IdentityMismatch | PullRequestNotMergeReady | MissingRequiredChecks | RequiredCheckPending
  | RequiredCheckFailed

fun recovery_block_text :: "recovery_block \<Rightarrow> string" where
  "recovery_block_text LiveLease = ''live_lease''"
| "recovery_block_text IdentityMismatch = ''identity_mismatch''"
| "recovery_block_text PullRequestNotMergeReady = ''pull_request_not_merge_ready''"
| "recovery_block_text MissingRequiredChecks = ''missing_required_checks''"
| "recovery_block_text RequiredCheckPending = ''required_check_pending''"
| "recovery_block_text RequiredCheckFailed = ''required_check_failed''"

datatype recovery_decision = Recover u64 | RecoveryBlocked recovery_block

definition exact_identity :: "run_state \<Rightarrow> executor_evidence \<Rightarrow> open_pull_request \<Rightarrow> bool" where
  "exact_identity r e p \<longleftrightarrow> run_status r = lit ''claimed''
     \<and> run_repo r = ev_repo e \<and> run_issue r = ev_issue e \<and> run_worker r = ev_worker e
     \<and> run_branch r = ev_branch e
     \<and> (case run_claim r of None \<Rightarrow> False | Some c \<Rightarrow> c \<noteq> [] \<and> ev_claim e = Some c)
     \<and> ev_outcome e = lit ''succeeded'' \<and> ev_pr e = Some (pr_number p)
     \<and> (run_pr r = [] \<or> run_pr r = show_u64 (pr_number p))
     \<and> head_ref_name p = run_branch r \<and> ev_commit e = Some (head_ref_oid p)"

definition evaluate_recovery ::
  "run_state \<Rightarrow> executor_evidence \<Rightarrow> open_pull_request \<Rightarrow> required_check list \<Rightarrow> bool \<Rightarrow> recovery_decision" where
  "evaluate_recovery r e p checks live =
     (if live then RecoveryBlocked LiveLease
      else if \<not> exact_identity r e p then RecoveryBlocked IdentityMismatch
      else if \<not> is_reconcilable_pull_request p (run_issue r) then RecoveryBlocked PullRequestNotMergeReady
      else if checks = [] then RecoveryBlocked MissingRequiredChecks
      else if list_ex (\<lambda>c. eq_ignore_ascii_case (check_state c) (lit ''PENDING'')) checks
      then RecoveryBlocked RequiredCheckPending
      else if list_ex (\<lambda>c. \<not> eq_ignore_ascii_case (check_state c) (lit ''SUCCESS'')) checks
      then RecoveryBlocked RequiredCheckFailed
      else Recover (pr_number p))"

section \<open>The scan misses no reference\<close>

text \<open>
  The scan passes over a verb it has found, so it would miss a verb that begins inside another one. No
  closing verb overlaps itself.
\<close>

definition borderless :: "ustr \<Rightarrow> bool" where
  "borderless v = (v \<noteq> [] \<and> list_all (\<lambda>j. take (length v - j) v \<noteq> drop j v) [1..<length v])"

lemma borderless_verbs: "verb \<in> set closing_verbs \<Longrightarrow> borderless verb"
proof -
  have "list_all borderless closing_verbs" by code_simp
  then show "verb \<in> set closing_verbs \<Longrightarrow> borderless verb" by (simp add: list_all_iff)
qed

lemma borderless_apart:
  assumes "borderless verb" "c # cs = verb @ suffix" "cs = a @ verb @ rest"
  shows "length verb - 1 \<le> length a"
proof (rule ccontr)
  define j where "j = Suc (length a)"
  assume "\<not> length verb - 1 \<le> length a"
  then have j: "j \<in> set [1..<length verb]" by (simp add: j_def)
  have "drop j (c # cs) = verb @ rest" by (simp add: j_def assms(3))
  moreover have "drop j (c # cs) = drop j verb @ suffix" using j by (simp add: assms(2))
  ultimately have "take (length verb - j) (verb @ rest) = take (length verb - j) (drop j verb @ suffix)" by simp
  then have "take (length verb - j) verb = drop j verb" by simp
  with assms(1) j show False by (auto simp: borderless_def list_all_iff)
qed

definition char_before :: "uchar option \<Rightarrow> ustr \<Rightarrow> uchar option" where
  "char_before before a = (if a = [] then before else Some (last a))"

definition reference_at :: "nat \<Rightarrow> uchar option \<Rightarrow> ustr \<Rightarrow> ustr \<Rightarrow> ustr \<Rightarrow> bool" where
  "reference_at k before verb issue s \<longleftrightarrow> (\<exists>a rest. s = a @ verb @ rest \<and> k \<le> length a
     \<and> starts_word (char_before before a) \<and> refers_to issue rest)"

lemma reference_at_Cons:
  "reference_at k before verb issue (c # s) \<longleftrightarrow>
     (k = 0 \<and> (\<exists>rest. c # s = verb @ rest \<and> starts_word before \<and> refers_to issue rest))
     \<or> reference_at (k - 1) (Some c) verb issue s" (is "?l \<longleftrightarrow> ?here \<or> ?later")
proof
  assume ?l
  then obtain a rest where a: "c # s = a @ verb @ rest" "k \<le> length a"
    "starts_word (char_before before a)" "refers_to issue rest" by (auto simp: reference_at_def)
  show "?here \<or> ?later"
  proof (cases a)
    case Nil
    with a show ?thesis by (auto simp: char_before_def)
  next
    case (Cons x b)
    with a have "s = b @ verb @ rest" "k - 1 \<le> length b" "starts_word (char_before (Some c) b)"
      by (auto simp: char_before_def split: if_splits)
    with a(4) show ?thesis unfolding reference_at_def by blast
  qed
next
  assume "?here \<or> ?later"
  then show ?l
  proof
    assume ?here
    then show ?l unfolding reference_at_def
      by (metis append_Nil char_before_def le_numeral_extra(3) list.size(3))
  next
    assume ?later
    then obtain a rest where a: "s = a @ verb @ rest" "k - 1 \<le> length a"
      "starts_word (char_before (Some c) a)" "refers_to issue rest" by (auto simp: reference_at_def)
    then have "c # s = (c # a) @ verb @ rest" "k \<le> length (c # a)" "starts_word (char_before before (c # a))"
      by (auto simp: char_before_def split: if_splits)
    with a(4) show ?l unfolding reference_at_def by blast
  qed
qed

lemma closing_reference_at:
  "borderless verb \<Longrightarrow> closing_reference k before verb issue s \<longleftrightarrow> reference_at k before verb issue s"
proof (induction k before verb issue s rule: closing_reference.induct)
  case (1 k before verb issue)
  then show ?case by (simp add: reference_at_def borderless_def)
next
  case (2 k before verb issue c cs)
  then show ?case by (simp add: reference_at_Cons)
next
  case (3 before verb issue c cs)
  show ?case
  proof (cases "strip_prefix verb (c # cs)")
    case None
    then have "\<nexists>rest. c # cs = verb @ rest" by (simp add: strip_prefix_None)
    with 3(1) [OF None] 3(3) None show ?thesis by (simp add: reference_at_Cons)
  next
    case (Some suffix)
    then have s: "c # cs = verb @ suffix" by (simp add: strip_prefix_Some)
    have "reference_at 0 (Some c) verb issue cs \<longleftrightarrow> reference_at (length verb - 1) (Some c) verb issue cs"
      using borderless_apart [OF 3(3) s] unfolding reference_at_def by blast
    moreover have "(\<exists>rest. c # cs = verb @ rest \<and> starts_word before \<and> refers_to issue rest)
        \<longleftrightarrow> starts_word before \<and> refers_to issue suffix"
      using s by auto
    ultimately show ?thesis
      using 3(2) [OF Some] 3(3) Some by (auto simp: reference_at_Cons)
  qed
qed

lemma refers_to_iff:
  "refers_to (lit ''#'' @ n) suffix \<longleftrightarrow> (\<exists>ws r. suffix = ws @ lit ''#'' @ n @ r \<and> list_all is_whitespace ws
     \<and> list_all (\<lambda>c. \<not> is_ascii_digit c) (take 1 r))" (is "?l \<longleftrightarrow> ?r")
proof
  assume ?l
  then obtain r where r: "trim_start suffix = (lit ''#'' @ n) @ r" "list_all (\<lambda>c. \<not> is_ascii_digit c) (take 1 r)"
    by (auto simp: refers_to_def strip_prefix_Some split: option.splits list.splits)
  have "suffix = takeWhile is_whitespace suffix @ trim_start suffix" by (simp add: trim_start_def)
  moreover have "list_all is_whitespace (takeWhile is_whitespace suffix)"
    by (auto simp: list_all_iff dest: set_takeWhileD)
  ultimately show ?r using r by (metis append_assoc)
next
  assume ?r
  then obtain ws r where r: "suffix = ws @ lit ''#'' @ n @ r" "list_all is_whitespace ws"
    "list_all (\<lambda>c. \<not> is_ascii_digit c) (take 1 r)" by blast
  have "\<not> is_whitespace 35" by (simp add: is_whitespace_def)
  then have "trim_start suffix = (lit ''#'' @ n) @ r"
    using r(2) by (simp add: r(1) trim_start_def dropWhile_append list_all_iff lit_def)
  then have "strip_prefix (lit ''#'' @ n) (trim_start suffix) = Some r" by (simp only: strip_prefix_append)
  then show ?l using r(3) by (cases r) (simp_all add: refers_to_def)
qed

lemma starts_word_iff:
  "starts_word (char_before None a) \<longleftrightarrow> list_all (\<lambda>c. \<not> is_alphanumeric c) (take 1 (rev a))"
  by (cases a rule: rev_cases) (simp_all add: starts_word_def char_before_def)

text \<open>A body closes an issue exactly when it has, in any case of letters, a closing verb at the start of
  a word that is followed by white space and the whole number of the issue.\<close>

theorem closes_issue_exact:
  "closes_issue body issue \<longleftrightarrow> (\<exists>verb a ws r. verb \<in> set closing_verbs
     \<and> map to_ascii_lower body = a @ verb @ ws @ lit ''#'' @ show_u64 issue @ r
     \<and> list_all (\<lambda>c. \<not> is_alphanumeric c) (take 1 (rev a)) \<and> list_all is_whitespace ws
     \<and> list_all (\<lambda>c. \<not> is_ascii_digit c) (take 1 r))"
proof -
  have scan: "contains_closing_reference s verb i = reference_at 0 None verb i s" if "verb \<in> set closing_verbs" for s verb i
    by (simp add: contains_closing_reference_def closing_reference_at borderless_verbs that)
  have "closes_issue body issue \<longleftrightarrow> (\<exists>verb \<in> set closing_verbs.
      reference_at 0 None verb (lit ''#'' @ show_u64 issue) (map to_ascii_lower body))"
    using scan by (simp add: closes_issue_def list_ex_iff)
  then show ?thesis unfolding reference_at_def refers_to_iff starts_word_iff by fast
qed

end
