(* ===== verification/Compat_Dag.thy ===== *)
theory Compat_Dag
  imports Task_Waves Issue_Waves
begin

text \<open>
  The adapters from the two older dependency graphs to the canonical task graph
  (\<open>initiative/compat_dag.rs\<close>): the graph of planned issues and the list of specs. The adapter is shown
  to accept exactly the issue graphs the older model can order, and to keep their waves.
\<close>

section \<open>Identifiers and surfaces\<close>

text \<open>\<open>u32::try_from(..).unwrap_or(u32::MAX)\<close>\<close>

definition saturating_u32 :: "nat \<Rightarrow> u32" where
  "saturating_u32 n = (if n < 2 ^ 32 then of_nat n else - 1)"

definition source_task_ids :: "ustr list \<Rightarrow> (ustr, sequence_id) bmap" where
  "source_task_ids xs = bm_of_list (map (\<lambda>(k, x). (x, from_sequence TaskKindId (saturating_u32 (k + 1)) 4))
     (enumerate 0 (bs_of_list xs)))"

definition compat_path :: "ustr \<Rightarrow> ustr" where
  "compat_path p = (case strip_suffix (lit ''/**'') p of Some d \<Rightarrow> d @ lit ''/'' | None \<Rightarrow> p)"

definition affected :: "owned_surface \<Rightarrow> affected_surface" where
  "affected s = \<lparr>surface_path = compat_path (path s), surface_symbols = symbols s\<rparr>"

record source_node =
  source_id :: ustr
  source_title :: ustr
  source_affects :: "affected_surface list"
  source_depends :: "ustr list"

section \<open>Building the graph\<close>

fun dependency_targets :: "(ustr, sequence_id) bmap \<Rightarrow> sequence_id \<Rightarrow> ustr \<Rightarrow> ustr list \<Rightarrow> sequence_id list
    \<Rightarrow> search_stop + sequence_id list" where
  "dependency_targets idx i name [] acc = Inr acc"
| "dependency_targets idx i name (d # ds) acc = (case bm_get idx d of
       None \<Rightarrow> Inl (search_stop.Refused (InvalidTask i (name @ lit '' depends on unknown '' @ d)))
     | Some t \<Rightarrow> dependency_targets idx i name ds (if t \<in> set acc then acc else acc @ [t]))"

text \<open>One node of the loop. The index \<open>ids[&node.id]\<close> never fails: every node's identifier is a key.\<close>

definition add_source :: "(ustr, sequence_id) bmap \<Rightarrow> repository_id \<Rightarrow> ustr list \<times> task_graph \<Rightarrow> source_node
    \<Rightarrow> search_stop + ustr list \<times> task_graph" where
  "add_source idx r s n =
     (let i = the (bm_get idx (source_id n)) in
      if source_id n \<in> set (fst s)
      then Inl (search_stop.Refused (InvalidTask i (lit ''duplicate source id '' @ source_id n)))
      else and_then (dependency_targets idx i (source_id n) (source_depends n) []) (\<lambda>ds.
        Inr (bs_insert (source_id n) (fst s),
          insert_task ((depending_on ds (implementation_task i r [] 1))
            \<lparr>summary := source_title n, affects := source_affects n\<rparr>) (snd s))))"

definition build_graph :: "source_node list \<Rightarrow> repository_id \<Rightarrow> sequence_id \<Rightarrow> search_stop + task_graph" where
  "build_graph ns r plan =
     and_then (run_all (add_source (source_task_ids (map source_id ns)) r)
       ([], new_graph (from_sequence GraphKindId 1 4) 1 plan) ns) (\<lambda>(_, g).
     and_then (topological_order g) (\<lambda>_. Inr g))"

section \<open>The two sources\<close>

definition add_dependency :: "(ustr, sequence_id) bmap \<Rightarrow> (ustr, ustr list) bmap \<Rightarrow> dependency_edge
    \<Rightarrow> search_stop + (ustr, ustr list) bmap" where
  "add_dependency idx m e =
     (if bm_get idx (predecessor e) = None \<or> bm_get idx (successor e) = None
      then Inl (search_stop.Refused (InvalidTask
        (case bm_get idx (predecessor e) of Some t \<Rightarrow> t
         | None \<Rightarrow> (case bm_get idx (successor e) of Some t \<Rightarrow> t | None \<Rightarrow> from_sequence TaskKindId 0 4))
        (lit ''edge '' @ predecessor e @ lit '' -> '' @ successor e @ lit '' names an unknown issue'')))
      else Inr (bm_insert (successor e)
        ((case bm_get m (successor e) of Some ps \<Rightarrow> ps | None \<Rightarrow> []) @ [predecessor e]) m))"

fun issue_sources :: "(ustr, ustr list) bmap \<Rightarrow> planned_issue list \<Rightarrow> source_node list" where
  "issue_sources m [] = []"
| "issue_sources m (i # rest) =
     \<lparr>source_id = issue_id i, source_title = issue_title i,
      source_affects = map affected (exclusive (issue_ownership i) @ shared_write (issue_ownership i)),
      source_depends = (case bm_get m (issue_id i) of Some ps \<Rightarrow> ps | None \<Rightarrow> [])\<rparr>
     # issue_sources (bm_remove (issue_id i) m) rest"

definition task_graph_from_issue_graph ::
  "issue_graph \<Rightarrow> repository_id \<Rightarrow> sequence_id \<Rightarrow> search_stop + task_graph" where
  "task_graph_from_issue_graph g r plan =
     (let idx = source_task_ids (map issue_id (issues g)) in
      and_then (run_all (add_dependency idx) bm_empty (hard_edges g)) (\<lambda>m.
      build_graph (issue_sources m (issues g)) r plan))"

definition spec_source :: "spec_metadata \<Rightarrow> source_node" where
  "spec_source s = \<lparr>source_id = spec_id s, source_title = title s,
     source_affects = map (\<lambda>p. \<lparr>surface_path = compat_path p, surface_symbols = []\<rparr>) (files_to_touch s),
     source_depends = dependencies s\<rparr>"

definition task_graph_from_specs ::
  "spec_metadata list \<Rightarrow> repository_id \<Rightarrow> sequence_id \<Rightarrow> search_stop + task_graph" where
  "task_graph_from_specs specs r plan = build_graph (map spec_source specs) r plan"

section \<open>What the adapter keeps\<close>

text \<open>The task of a source.\<close>

definition target :: "(ustr, sequence_id) bmap \<Rightarrow> ustr \<Rightarrow> sequence_id" where
  "target m x = the (bm_get m x)"

lemma source_task_ids_get:
  "bm_get (source_task_ids xs) x = Some t \<longleftrightarrow> (\<exists>k < length (bs_of_list xs). bs_of_list xs ! k = x
     \<and> t = from_sequence TaskKindId (saturating_u32 (k + 1)) 4)"
proof -
  let ?kvs = "map (\<lambda>(k, x). (x, from_sequence TaskKindId (saturating_u32 (k + 1)) 4)) (enumerate 0 (bs_of_list xs))"
  have "map fst ?kvs = bs_of_list xs" by (simp add: comp_def case_prod_beta)
  then have "distinct (map fst (rev ?kvs))" by (simp only: rev_map [symmetric] distinct_rev bs_of_list_distinct)
  then have "bm_get (source_task_ids xs) x = Some t \<longleftrightarrow> (x, t) \<in> set ?kvs"
    unfolding source_task_ids_def bm_get_of_list by (simp only: map_of_eq_Some_iff set_rev)
  then show ?thesis by (auto simp: in_set_enumerate_eq)
qed

lemma source_task_ids_None: "bm_get (source_task_ids xs) x = None \<longleftrightarrow> x \<notin> set xs"
proof -
  have "x \<in> set xs \<longleftrightarrow> (\<exists>k < length (bs_of_list xs). bs_of_list xs ! k = x)"
    using set_bs_of_list [of xs] in_set_conv_nth by metis
  then show ?thesis using source_task_ids_get [of xs x] by (cases "bm_get (source_task_ids xs) x") auto
qed

lemma bs_of_list_length: "length (bs_of_list xs) \<le> length xs"
  using card_length [of xs] distinct_card [OF bs_of_list_distinct [of xs]] by simp

lemma target_inj:
  assumes "length xs < 2 ^ 32"
  shows "inj_on (target (source_task_ids xs)) (set xs)"
proof (rule inj_onI)
  fix x y assume "x \<in> set xs" "y \<in> set xs" and same: "target (source_task_ids xs) x = target (source_task_ids xs) y"
  then obtain s t where st: "bm_get (source_task_ids xs) x = Some s" "bm_get (source_task_ids xs) y = Some t"
    using source_task_ids_None by (metis option.exhaust)
  with same have "s = t" by (simp add: target_def)
  from st obtain j k where jk: "j < length (bs_of_list xs)" "k < length (bs_of_list xs)"
    "bs_of_list xs ! j = x" "bs_of_list xs ! k = y"
    "s = from_sequence TaskKindId (saturating_u32 (j + 1)) 4" "t = from_sequence TaskKindId (saturating_u32 (k + 1)) 4"
    by (auto simp: source_task_ids_get)
  have small: "j + 1 < 2 ^ 32" "k + 1 < 2 ^ 32" using jk(1,2) bs_of_list_length [of xs] assms by linarith+
  from jk(5,6) \<open>s = t\<close> have "saturating_u32 (j + 1) = saturating_u32 (k + 1)" by (simp add: from_sequence_def)
  then have "unat (of_nat (j + 1) :: u32) = unat (of_nat (k + 1) :: u32)"
    using small by (simp only: saturating_u32_def if_True)
  moreover have "unat (of_nat n :: u32) = n" if "n < 2 ^ 32" for n
    using that by (simp add: unat_of_nat)
  ultimately have "j = k" using small by (metis add_right_cancel)
  with jk(3,4) show "x = y" by simp
qed

lemma dependency_targets_spec:
  "case dependency_targets m i name ds acc of
     Inr r \<Rightarrow> (\<forall>d \<in> set ds. bm_get m d \<noteq> None) \<and> set r = set acc \<union> target m ` set ds
   | Inl _ \<Rightarrow> \<exists>d \<in> set ds. bm_get m d = None"
proof (induction ds arbitrary: acc)
  case (Cons d ds)
  show ?case
  proof (cases "bm_get m d")
    case (Some t)
    with Cons [where acc = "if t \<in> set acc then acc else acc @ [t]"] show ?thesis
      by (auto simp: target_def split: sum.splits if_splits)
  qed simp
qed simp

definition well_sourced :: "(ustr, sequence_id) bmap \<Rightarrow> source_node list \<Rightarrow> bool" where
  "well_sourced m ns \<longleftrightarrow> distinct (map source_id ns)
     \<and> (\<forall>n \<in> set ns. \<forall>d \<in> set (source_depends n). bm_get m d \<noteq> None)"

definition placed :: "(ustr, sequence_id) bmap \<Rightarrow> source_node list \<Rightarrow> task_graph \<Rightarrow> bool" where
  "placed m ns g \<longleftrightarrow> task_ids g = target m ` source_id ` set ns
     \<and> (\<forall>n \<in> set ns. \<exists>tk. get_task g (target m (source_id n)) = Some tk
          \<and> set (depends_on tk) = target m ` set (source_depends n))"

lemma get_insert_task: "get_task (insert_task tk g) j = (if j = task_id tk then Some tk else get_task g j)"
  by (simp add: get_task_def insert_task_def bm_get_insert)

lemma ids_insert_task: "task_ids (insert_task tk g) = insert (task_id tk) (task_ids g)"
  by (simp add: task_ids_def insert_task_def keys_bm_insert)

lemma add_source_spec:
  assumes "inj_on (target m) (source_id ` set (ns @ [n]))"
    and "well_sourced m ns" "set seen = source_id ` set ns" "placed m ns g"
  shows "case add_source m r (seen, g) n of
     Inr (seen', g') \<Rightarrow> well_sourced m (ns @ [n]) \<and> set seen' = source_id ` set (ns @ [n]) \<and> placed m (ns @ [n]) g'
   | Inl _ \<Rightarrow> \<not> well_sourced m (ns @ [n])"
proof (cases "source_id n \<in> set seen")
  case True
  with assms(3) show ?thesis by (simp add: add_source_def well_sourced_def)
next
  case False
  show ?thesis
  proof (cases "dependency_targets m (target m (source_id n)) (source_id n) (source_depends n) []")
    case (Inl e)
    with dependency_targets_spec [where m = m and i = "target m (source_id n)" and name = "source_id n"
        and ds = "source_depends n" and acc = "[]"] False
    show ?thesis by (auto simp: add_source_def well_sourced_def target_def)
  next
    case (Inr ds)
    let ?tk = "(depending_on ds (implementation_task (target m (source_id n)) r [] 1))
      \<lparr>summary := source_title n, affects := source_affects n\<rparr>"
    have ds: "\<forall>d \<in> set (source_depends n). bm_get m d \<noteq> None" "set ds = target m ` set (source_depends n)"
      using dependency_targets_spec [where m = m and i = "target m (source_id n)" and name = "source_id n"
        and ds = "source_depends n" and acc = "[]"] Inr by auto
    have tk: "task_id ?tk = target m (source_id n)" "depends_on ?tk = ds"
      by (simp_all add: depending_on_def implementation_task_def)
    have apart: "target m (source_id k) \<noteq> target m (source_id n)" if "k \<in> set ns" for k
    proof
      assume same: "target m (source_id k) = target m (source_id n)"
      have "source_id k = source_id n" by (rule inj_onD [OF assms(1) same]) (use that in simp_all)
      with that False assms(3) show False by (metis image_eqI)
    qed
    have "placed m (ns @ [n]) (insert_task ?tk g)"
      using assms(4) apart ds(2) tk by (simp add: placed_def ids_insert_task get_insert_task)
    moreover have "well_sourced m (ns @ [n])" using assms(2,3) False ds(1) by (auto simp: well_sourced_def)
    ultimately show ?thesis using Inr False assms(3) by (simp add: add_source_def Let_def target_def)
  qed
qed

lemma add_sources_spec:
  assumes "inj_on (target m) (source_id ` set ns)" "task_ids g0 = {}"
  shows "case run_all (add_source m r) ([], g0) ns of
     Inr (seen, g) \<Rightarrow> well_sourced m ns \<and> set seen = source_id ` set ns \<and> placed m ns g
   | Inl _ \<Rightarrow> \<not> well_sourced m ns"
  using assms(1)
proof (induction ns rule: rev_induct)
  case Nil
  with assms(2) show ?case by (simp add: well_sourced_def placed_def)
next
  case (snoc n ns)
  then have "inj_on (target m) (source_id ` set ns)" by (auto intro: inj_on_subset)
  note IH = snoc.IH [OF this]
  show ?case
  proof (cases "run_all (add_source m r) ([], g0) ns")
    case (Inl e)
    with IH show ?thesis by (auto simp: run_all_append well_sourced_def)
  next
    case (Inr s)
    obtain seen g where s: "s = (seen, g)" by (cases s)
    with IH Inr have ok: "well_sourced m ns" "set seen = source_id ` set ns" "placed m ns g" by auto
    have "run_all (add_source m r) ([], g0) (ns @ [n]) = add_source m r (seen, g) n"
      by (cases "add_source m r (seen, g) n") (simp_all add: run_all_append Inr s)
    with add_source_spec [OF snoc.prems ok, where r = r] show ?thesis by (simp only:)
  qed
qed

lemma placed_needs:
  assumes "placed m ns g" "n \<in> set ns" "\<And>d. d \<in> set (source_depends n) \<Longrightarrow> d \<in> source_id ` set ns"
  shows "needs g (target m (source_id n)) = target m ` set (source_depends n)"
proof -
  obtain tk where tk: "get_task g (target m (source_id n)) = Some tk"
    "set (depends_on tk) = target m ` set (source_depends n)" using assms(1,2) by (auto simp: placed_def)
  moreover have "get_task g d \<noteq> None" if "d \<in> set (depends_on tk)" for d
    using that tk(2) assms(1,3) task_ids_get [of d g] by (auto simp: placed_def)
  ultimately show ?thesis by (auto simp: known_dependencies_def)
qed

lemma issue_sources_ids [simp]: "map source_id (issue_sources m xs) = map issue_id xs"
  by (induction m xs rule: issue_sources.induct) simp_all

lemma issue_sources_depends:
  "distinct (map issue_id xs) \<Longrightarrow> n \<in> set (issue_sources m xs) \<Longrightarrow> source_depends n = listed m (source_id n)"
proof (induction m xs rule: issue_sources.induct)
  case (2 m i rest)
  show ?case
  proof (cases "n \<in> set (issue_sources (bm_remove (issue_id i) m) rest)")
    case True
    then have "source_id n \<in> set (map issue_id rest)" by (metis issue_sources_ids image_eqI list.set_map)
    with 2 True show ?thesis by (auto simp: listed_def bm_get_remove)
  next
    case False
    with 2(3) show ?thesis by (auto simp: listed_def)
  qed
qed simp

lemma add_dependencies_spec:
  "case run_all (add_dependency idx) m es of
     Inr m' \<Rightarrow> (\<forall>e \<in> set es. bm_get idx (predecessor e) \<noteq> None \<and> bm_get idx (successor e) \<noteq> None)
       \<and> (\<forall>x. set (listed m' x) = set (listed m x) \<union> {predecessor e | e. e \<in> set es \<and> successor e = x})
   | Inl _ \<Rightarrow> \<exists>e \<in> set es. bm_get idx (predecessor e) = None \<or> bm_get idx (successor e) = None"
proof (induction es arbitrary: m)
  case (Cons e es)
  show ?case
  proof (cases "add_dependency idx m e")
    case (Inl x)
    then show ?thesis by (auto simp: add_dependency_def split: if_splits)
  next
    case (Inr m')
    then have e: "bm_get idx (predecessor e) \<noteq> None" "bm_get idx (successor e) \<noteq> None"
      and m': "m' = bm_insert (successor e) (listed m (successor e) @ [predecessor e]) m"
      by (auto simp: add_dependency_def listed_def split: if_splits)
    have l: "set (listed m' x) = set (listed m x) \<union> (if successor e = x then {predecessor e} else {})" for x
      by (auto simp: m' listed_def bm_get_insert)
    from Cons [where m = m'] e show ?thesis
      by (simp add: Inr split: sum.splits) (auto simp: l)
  qed
qed simp

definition edges_known :: "issue_graph \<Rightarrow> bool" where
  "edges_known g = list_all (\<lambda>e. predecessor e \<in> ids g \<and> successor e \<in> ids g) (hard_edges g)"

lemma known_edge: "edges_known g \<Longrightarrow> e \<in> set (hard_edges g) \<Longrightarrow> predecessor e \<in> ids g \<and> successor e \<in> ids g"
  by (auto simp: edges_known_def list_all_iff)

text \<open>
  The task graph the adapter has placed is a copy of the issue graph: the layers of one are the layers
  of the other.
\<close>

lemma placed_copy:
  assumes "length (issues g) < 2 ^ 32" "placed (source_task_ids (map issue_id (issues g))) ns tg"
    and "source_id ` set ns = ids g" "\<And>n. n \<in> set ns \<Longrightarrow> set (source_depends n) = edge_deps g (source_id n)"
  shows "inj_on (target (source_task_ids (map issue_id (issues g)))) (ids g)"
    "task_ids tg = target (source_task_ids (map issue_id (issues g))) ` ids g"
    "set (concat ws) \<subseteq> ids g \<Longrightarrow>
       layered (needs tg) (task_ids tg) {} (map (map (target (source_task_ids (map issue_id (issues g))))) ws)
         \<longleftrightarrow> layered (edge_deps g) (ids g) {} ws"
proof -
  let ?f = "target (source_task_ids (map issue_id (issues g)))"
  show inj: "inj_on ?f (ids g)"
    using target_inj [of "map issue_id (issues g)"] assms(1) by (simp add: set_known_ids)
  show nodes: "task_ids tg = ?f ` ids g" using assms(2,3) by (simp add: placed_def)
  have deps: "needs tg (?f x) = ?f ` edge_deps g x" if "x \<in> ids g" for x
  proof -
    from that have "x \<in> source_id ` set ns" by (simp only: assms(3))
    then obtain n where n: "n \<in> set ns" "source_id n = x" by blast
    have "d \<in> source_id ` set ns" if "d \<in> set (source_depends n)" for d
      using that assms(3,4) n(1) issue_dag.deps_nodes [of "source_id n" g] n(2) \<open>x \<in> ids g\<close> by auto
    from placed_needs [OF assms(2) n(1) this] n(2) assms(4) [OF n(1)] show ?thesis by simp
  qed
  show "layered (needs tg) (task_ids tg) {} (map (map ?f) ws) \<longleftrightarrow> layered (edge_deps g) (ids g) {} ws"
    if "set (concat ws) \<subseteq> ids g"
    using layered_image [where f = ?f and deps' = "needs tg", OF inj issue_dag.deps_nodes deps empty_subsetI that]
    by (simp add: nodes)
qed

lemma adapter_cases:
  assumes "length (issues g) < 2 ^ 32"
  obtains e where "task_graph_from_issue_graph g r p = Inl e" "\<not> edges_known g"
  | e where "task_graph_from_issue_graph g r p = Inl e" "\<not> distinct (map issue_id (issues g))"
  | ns tg where "placed (source_task_ids (map issue_id (issues g))) ns tg" "source_id ` set ns = ids g"
      "\<And>n. n \<in> set ns \<Longrightarrow> set (source_depends n) = edge_deps g (source_id n)" "edges_known g"
      "distinct (map issue_id (issues g))"
      "task_graph_from_issue_graph g r p = and_then (topological_order tg) (\<lambda>_. Inr tg)"
proof -
  let ?xs = "map issue_id (issues g)"
  let ?m = "source_task_ids ?xs"
  have known: "bm_get ?m x = None \<longleftrightarrow> x \<notin> ids g" for x by (simp add: source_task_ids_None set_known_ids)
  note edges = add_dependencies_spec [where idx = ?m and m = bm_empty and es = "hard_edges g"]
  show thesis
  proof (cases "run_all (add_dependency ?m) bm_empty (hard_edges g)")
    case (Inl e)
    with edges known have "\<not> edges_known g" by (auto simp: edges_known_def list_all_iff)
    with Inl show thesis by (intro that(1)) (simp_all add: task_graph_from_issue_graph_def Let_def)
  next
    case (Inr M)
    with edges known have kn: "edges_known g" by (auto simp: edges_known_def list_all_iff)
    have M: "set (listed M x) = {predecessor e | e. e \<in> set (hard_edges g) \<and> successor e = x}" for x
      using edges Inr by (auto simp: listed_def [of bm_empty])
    let ?ns = "issue_sources M (issues g)"
    let ?g0 = "new_graph (from_sequence GraphKindId 1 4) 1 p"
    have ids: "map source_id ?ns = ?xs" by simp
    then have src: "source_id ` set ?ns = ids g" by (metis list.set_map set_known_ids)
    have deps: "set (source_depends n) = edge_deps g (source_id n)"
      if "distinct ?xs" "n \<in> set ?ns" for n
    proof -
      have "source_id n \<in> ids g" using that(2) src by blast
      then have "set (listed M (source_id n)) = edge_deps g (source_id n)"
        using known_edge [OF kn] by (auto simp: M edge_deps_def)
      with issue_sources_depends [OF that] show ?thesis by simp
    qed
    have inj: "inj_on (target ?m) (source_id ` set ?ns)"
      using target_inj [of ?xs] assms src by (simp add: set_known_ids)
    have g0: "task_ids ?g0 = {}" by (simp add: task_ids_def new_graph_def)
    note placed = add_sources_spec [OF inj g0, where r = r]
    have run: "task_graph_from_issue_graph g r p = and_then (run_all (add_source ?m r) ([], ?g0) ?ns)
        (\<lambda>(_, g). and_then (topological_order g) (\<lambda>_. Inr g))"
      by (simp add: task_graph_from_issue_graph_def build_graph_def Let_def Inr)
    show thesis
    proof (cases "run_all (add_source ?m r) ([], ?g0) ?ns")
      case Inl
      with placed have "\<not> well_sourced ?m ?ns" by simp
      moreover have "well_sourced ?m ?ns" if "distinct ?xs"
        using that deps [OF that] known by (auto simp: well_sourced_def edge_deps_def)
      ultimately show thesis using that(2) run Inl by auto
    next
      case (Inr s)
      obtain seen tg where s: "s = (seen, tg)" by (cases s)
      with placed Inr have ok: "well_sourced ?m ?ns" "placed ?m ?ns tg" by auto
      then have "distinct ?xs" by (simp add: well_sourced_def)
      with that(3) [OF ok(2) src deps kn] run Inr s show thesis by simp
    qed
  qed
qed

lemma concurrency_Inr: "topological_order g = Inr xs \<Longrightarrow> \<exists>vs. concurrency_waves g = Inr vs"
  by (simp add: concurrency_waves_def)

text \<open>C25: The adapter accepts exactly the issue graphs whose edges name issues and which the older model can put
  into waves; and the waves of the task graph it builds are the waves of the issue graph, issue by
  issue.\<close>

theorem compat_graph_keeps_waves:
  assumes "length (issues g) < 2 ^ 32"
  shows "case task_graph_from_issue_graph g r p of
      Inr tg \<Rightarrow> edges_known g \<and> (\<exists>ws vs. waves g = Inr ws \<and> concurrency_waves tg = Inr vs
        \<and> map set vs = map (\<lambda>w. target (source_task_ids (map issue_id (issues g))) ` set w) ws)
    | Inl _ \<Rightarrow> \<not> (edges_known g \<and> is_ok (waves g))"
proof (rule adapter_cases [OF assms, of r p])
  fix e assume "task_graph_from_issue_graph g r p = Inl e" "\<not> edges_known g"
  then show ?thesis by simp
next
  fix e assume "task_graph_from_issue_graph g r p = Inl e" "\<not> distinct (map issue_id (issues g))"
  with waves_Inr [of g] show ?thesis by (auto simp: is_ok_iff)
next
  let ?f = "target (source_task_ids (map issue_id (issues g)))"
  fix ns tg
  assume pl: "placed (source_task_ids (map issue_id (issues g))) ns tg" and src: "source_id ` set ns = ids g"
    and deps: "\<And>n. n \<in> set ns \<Longrightarrow> set (source_depends n) = edge_deps g (source_id n)"
    and kn: "edges_known g" and dist: "distinct (map issue_id (issues g))"
    and res: "task_graph_from_issue_graph g r p = and_then (topological_order tg) (\<lambda>_. Inr tg)"
  note copy = placed_copy [OF assms pl src deps]
  show ?thesis
  proof (cases "topological_order tg")
    case (Inl e)
    have "waves g \<noteq> Inr ws" for ws
    proof
      assume "waves g = Inr ws"
      then have ws: "layered (edge_deps g) (ids g) {} ws" "set (concat ws) = ids g" using waves_Inr by blast+
      then have "layered (needs tg) (task_ids tg) {} (map (map ?f) ws)"
        using copy(3) [of ws] by (simp del: set_concat)
      moreover have "set (concat (map (map ?f) ws)) = task_ids tg"
        using ws(2) copy(2) by (simp only: map_concat [symmetric] set_map)
      ultimately have "\<nexists>c. dependency_cycle (needs tg) c \<and> set c \<subseteq> task_ids tg"
        by (rule task_sort.layered_done_no_cycle)
      with topological_order_Inl [OF Inl] show False by blast
    qed
    then show ?thesis using res Inl by (auto simp: is_ok_iff)
  next
    case (Inr xs)
    then obtain vs where vs: "concurrency_waves tg = Inr vs" using concurrency_Inr by blast
    note lay = concurrency_layers [OF vs]
    define ws where "ws = map (map (inv_into (ids g) ?f)) vs"
    have again: "map (map ?f) ws = vs"
    proof -
      have "?f (inv_into (ids g) ?f t) = t" if "v \<in> set vs" "t \<in> set v" for v t
        using that lay(2) copy(2) by (intro f_inv_into_f) auto
      then show ?thesis by (simp add: ws_def comp_def map_idI)
    qed
    have all: "set (concat ws) = ids g"
    proof -
      have "set (concat ws) = inv_into (ids g) ?f ` ?f ` ids g"
        using lay(2) copy(2) by (simp only: ws_def map_concat [symmetric] set_map)
      then show ?thesis using copy(1) by (simp add: image_image inv_into_f_f del: set_concat)
    qed
    then have ly: "layered (edge_deps g) (ids g) {} ws" using copy(3) [of ws] lay(1) again by simp
    from acyclic_waves [OF ly all dist] obtain us where us: "waves g = Inr us" by blast
    have "[] \<notin> set ws" using lay(4) by (auto simp: ws_def)
    with layered_unique [of "edge_deps g" "ids g" "{}" us ws] waves_Inr [OF us] ly all
    have same: "map set us = map set ws" by (simp del: set_concat)
    have "map set vs = map (image ?f) (map set ws)" unfolding again [symmetric] by (simp add: comp_def)
    also have "\<dots> = map (\<lambda>w. ?f ` set w) us" unfolding same [symmetric] by (simp add: comp_def)
    finally show ?thesis using res Inr kn us vs by simp
  qed
qed

theorem compat_graph_keeps_waves_witness:
  "\<exists>tg vs. task_graph_from_issue_graph (sample_graph [2, 3, 4] [(2, 3), (3, 4)]) (RepositoryId [97] 0 0)
      (from_sequence PlanKindId 2 4) = Inr tg \<and> concurrency_waves tg = Inr vs \<and> length vs = 3"
proof -
  let ?g = "sample_graph [2, 3, 4] [(2, 3), (3, 4)]"
  have small: "length (issues ?g) < 2 ^ 32" by (simp add: sample_graph_def)
  have known: "edges_known ?g"
    unfolding edges_known_def known_sample by (simp add: sample_graph_def sample_edge_def)
  have ok: "is_ok (waves ?g)" by (simp only: sample_waves is_ok_iff) blast
  show ?thesis
  proof (cases "task_graph_from_issue_graph ?g (RepositoryId [97] 0 0) (from_sequence PlanKindId 2 4)")
    case (Inl e)
    with compat_graph_keeps_waves [OF small, of "RepositoryId [97] 0 0" "from_sequence PlanKindId 2 4"] known ok
    show ?thesis by simp
  next
    case (Inr tg)
    with compat_graph_keeps_waves [OF small, of "RepositoryId [97] 0 0" "from_sequence PlanKindId 2 4"]
    obtain ws vs where w: "waves ?g = Inr ws" "concurrency_waves tg = Inr vs" "length vs = length ws"
      by (auto dest: map_eq_imp_length_eq)
    with sample_waves Inr show ?thesis by auto
  qed
qed

end
