(* ===== verification/Issue_Text.thy ===== *)
theory Issue_Text
  imports Rust_Base Ordered_Map
begin

text \<open>
  What the ready queue reads in the text of an issue (the second half of \<open>coordination/ready_queue.rs\<close>, and
  \<open>coordination/capabilities.rs\<close>): sections of the body, declared dependencies, back references of tracking
  issues, paths, the signature of duplicates, and required capabilities. Byte offsets of the code are
  positions in lists here; \<open>to_ascii_lowercase\<close> keeps them.
\<close>

section \<open>Sections\<close>

definition line_text :: "ustr \<Rightarrow> ustr" where
  "line_text l = trim_end_of [13, 10] l"

fun section_body :: "ustr list \<Rightarrow> ustr" where
  "section_body [] = []"
| "section_body (l # ls) = (if starts_with_str (lit ''## '') (line_text l) then [] else l @ section_body ls)"

fun find_section :: "ustr list \<Rightarrow> ustr list \<Rightarrow> ustr" where
  "find_section names [] = []"
| "find_section names (l # ls) = (case strip_prefix (lit ''## '') (line_text l) of
       Some heading \<Rightarrow>
         if list_ex (\<lambda>n. ascii_lower (trim heading) = ascii_lower n) names then section_body ls
         else find_section names ls
     | None \<Rightarrow> find_section names ls)"

definition markdown_sections :: "ustr \<Rightarrow> ustr list \<Rightarrow> ustr" where
  "markdown_sections body names = find_section names (split_inclusive 10 body)"

definition markdown_section :: "ustr \<Rightarrow> string \<Rightarrow> ustr" where
  "markdown_section body name = markdown_sections body [lit name]"

section \<open>Dependencies\<close>

definition leading_issue_number :: "ustr \<Rightarrow> u64 option" where
  "leading_issue_number s = parse_u64 (takeWhile is_ascii_digit s)"

definition phrase_target :: "ustr \<Rightarrow> u64 option" where
  "phrase_target s =
     (let c = trim_start s;
          c = (if starts_with_str (lit ''issue'') (ascii_lower c) then trim_start (drop 5 c) else c);
          c = (case strip_prefix (lit ''#'') c of Some t \<Rightarrow> t | None \<Rightarrow> c)
      in leading_issue_number c)"

text \<open>The loop over the phrase; \<open>k\<close> characters of the last one are still to be passed over.\<close>

fun phrase_numbers :: "nat \<Rightarrow> ustr \<Rightarrow> u64 list" where
  "phrase_numbers k [] = []"
| "phrase_numbers (Suc k) (c # cs) = phrase_numbers k cs"
| "phrase_numbers 0 (c # cs) =
     (if starts_with_str (lit ''depends on'') (ascii_lower (c # cs))
      then (case phrase_target (drop 10 (c # cs)) of Some n \<Rightarrow> [n] | None \<Rightarrow> []) @ phrase_numbers 9 cs
      else phrase_numbers 0 cs)"

definition list_item :: "ustr \<Rightarrow> ustr" where
  "list_item line = (case strip_prefix (lit ''- '') (trim_start line) of
       Some t \<Rightarrow> t
     | None \<Rightarrow> (case strip_prefix (lit ''* '') (trim_start line) of Some t \<Rightarrow> t | None \<Rightarrow> []))"

definition item_number :: "ustr \<Rightarrow> u64 option" where
  "item_number line = (case strip_prefix (lit ''#'') (list_item line) of
       Some t \<Rightarrow> leading_issue_number t
     | None \<Rightarrow> None)"

definition line_numbers :: "ustr \<Rightarrow> u64 list" where
  "line_numbers line = phrase_numbers 0 line @ (case item_number line of Some n \<Rightarrow> [n] | None \<Rightarrow> [])"

definition dependency_numbers :: "ustr \<Rightarrow> u64 list" where
  "dependency_numbers body =
     bs_of_list (concat (map line_numbers (str_lines (markdown_section body ''Dependencies''))))"

definition tracking_line :: "ustr \<Rightarrow> ustr \<Rightarrow> bool" where
  "tracking_line needle line =
     (let trimmed = trim_start line in
      (starts_with_str (lit ''- '') trimmed \<or> starts_with_str (lit ''* '') trimmed)
      \<and> (case split_once_str needle trimmed of
           None \<Rightarrow> False
         | Some (_, []) \<Rightarrow> True
         | Some (_, c # _) \<Rightarrow> \<not> is_ascii_digit c))"

definition target_tracks_issue :: "ustr \<Rightarrow> u64 \<Rightarrow> bool" where
  "target_tracks_issue body dependent =
     list_ex (tracking_line (lit ''#'' @ show_u64 dependent))
       (str_lines (markdown_sections body
         (map lit [''children'', ''child issues'', ''tasks'', ''task list'', ''subtasks''])))"

section \<open>Paths\<close>

text \<open>Texts between backticks, in pairs; a backtick without partner ends the loop.\<close>

fun odd_pieces :: "ustr list \<Rightarrow> ustr list" where
  "odd_pieces (a # b # c # rest) = b # odd_pieces (c # rest)"
| "odd_pieces _ = []"

definition backticked :: "ustr \<Rightarrow> ustr list" where
  "backticked s = odd_pieces (split_char 96 s)"

definition is_path_token :: "ustr \<Rightarrow> bool" where
  "is_path_token s \<longleftrightarrow> 47 \<in> set s \<and> \<not> list_ex is_whitespace s"

definition files_touched_token :: "ustr \<Rightarrow> ustr" where
  "files_touched_token line =
     (let token = trim line;
          token = (case token of [] \<Rightarrow> [] | c # rest \<Rightarrow> if c = 45 \<or> c = 42 then trim rest else token)
      in trim (trim_of [96] token))"

definition extract_paths :: "ustr \<Rightarrow> ustr list" where
  "extract_paths body = bs_of_list
     (filter is_path_token (backticked (markdown_section body ''Implementation outline''))
      @ filter is_path_token (map files_touched_token (str_lines (markdown_section body ''Files touched''))))"

section \<open>Duplicates\<close>

fun normalize_from :: "bool \<Rightarrow> bool \<Rightarrow> ustr \<Rightarrow> ustr" where
  "normalize_from pending started [] = []"
| "normalize_from pending started (c # cs) =
     (if is_whitespace c then normalize_from True started cs
      else (if pending \<and> started then [32] else []) @ [to_ascii_lower c] @ normalize_from False True cs)"

definition normalize_whitespace :: "ustr \<Rightarrow> ustr" where
  "normalize_whitespace s = normalize_from False False s"

definition backtick_path :: "ustr \<Rightarrow> ustr option" where
  "backtick_path s =
     (let p = trim s; p = (case strip_prefix (lit ''./'') p of Some t \<Rightarrow> t | None \<Rightarrow> p)
      in if is_path_token p then Some (ascii_lower p) else None)"

definition backtick_paths :: "ustr \<Rightarrow> ustr list" where
  "backtick_paths s = bs_of_list (List.map_filter backtick_path (backticked s))"

text \<open>The number after \<open>L\<close>, and the second one of a range; the scan goes on behind the first number.\<close>

definition line_anchor :: "ustr \<Rightarrow> ustr option" where
  "line_anchor s = (case parse_u64 (takeWhile is_ascii_digit s) of
       None \<Rightarrow> None
     | Some start \<Rightarrow>
         let stop = (case dropWhile is_ascii_digit s of
               [] \<Rightarrow> start
             | c # t \<Rightarrow> if c = 45
                 then (case parse_u64 (takeWhile is_ascii_digit t) of Some n \<Rightarrow> n | None \<Rightarrow> start)
                 else start)
         in Some (show_u64 start @ lit ''-'' @ show_u64 stop))"

fun anchors_from :: "uchar option \<Rightarrow> ustr \<Rightarrow> ustr list" where
  "anchors_from before [] = []"
| "anchors_from before (c # cs) =
     (if c = 76 \<and> (case before of None \<Rightarrow> True | Some b \<Rightarrow> \<not> is_alphanumeric b)
      then (case line_anchor cs of Some a \<Rightarrow> [a] | None \<Rightarrow> []) @ anchors_from (Some c) cs
      else anchors_from (Some c) cs)"

definition line_anchors :: "ustr \<Rightarrow> ustr list" where
  "line_anchors s = bs_of_list (anchors_from None s)"

definition duplicate_signature :: "ustr \<Rightarrow> ustr option" where
  "duplicate_signature body =
     (let goal = normalize_whitespace (markdown_section body ''Goal'');
          section = markdown_section body ''Source spec'';
          paths = backtick_paths section
      in if goal = [] then None else if paths = [] then None
         else Some (goal @ [0x1f] @ join [0x1e] paths @ [0x1f] @ join [0x1e] (line_anchors section)))"

section \<open>Required capabilities\<close>

definition capability_char :: "uchar \<Rightarrow> bool" where
  "capability_char c \<longleftrightarrow> is_alphanumeric c \<or> c \<in> {46, 95, 58, 47, 45}"

definition capability_name :: "ustr \<Rightarrow> ustr option" where
  "capability_name item =
     (let inner = (case strip_prefix (lit ''`'') item of
            Some t \<Rightarrow> (case strip_suffix (lit ''`'') t of Some u \<Rightarrow> u | None \<Rightarrow> item)
          | None \<Rightarrow> item);
          token = trim inner
      in if token = [] then None else if list_all capability_char token then Some token else None)"

fun keep_first :: "ustr list \<Rightarrow> ustr list \<Rightarrow> ustr list" where
  "keep_first seen [] = []"
| "keep_first seen (x # xs) = (if x \<in> set seen then keep_first seen xs else x # keep_first (x # seen) xs)"

definition required_capabilities :: "ustr \<Rightarrow> ustr list" where
  "required_capabilities body = keep_first [] (List.map_filter
     (\<lambda>line. capability_name (trim (trim_start_of [45, 42] (trim line))))
     (str_lines (markdown_section body ''Requires'')))"

datatype capability_state = Satisfied | Unmet

definition unmet_capabilities :: "ustr \<Rightarrow> (ustr, capability_state) bmap \<Rightarrow> ustr list" where
  "unmet_capabilities body observed =
     sort (filter (\<lambda>n. bm_get observed n \<noteq> Some Satisfied) (required_capabilities body))"

section \<open>Closing references of pull requests\<close>

definition is_ascii_whitespace :: "uchar \<Rightarrow> bool" where
  "is_ascii_whitespace c \<longleftrightarrow> c \<in> {32, 9, 10, 12, 13}"

text \<open>What follows the verb: white space, \<open>#\<close>, and the number as a whole.\<close>

definition issue_follows :: "ustr \<Rightarrow> ustr \<Rightarrow> bool" where
  "issue_follows issue suffix =
     (let r = dropWhile is_ascii_whitespace suffix in
      length r < length suffix
      \<and> (case strip_prefix (lit ''#'' @ issue) r of
           None \<Rightarrow> False
         | Some [] \<Rightarrow> True
         | Some (c # _) \<Rightarrow> \<not> is_ascii_digit c))"

fun issue_reference :: "nat \<Rightarrow> uchar option \<Rightarrow> ustr \<Rightarrow> ustr \<Rightarrow> ustr \<Rightarrow> bool" where
  "issue_reference k before verb issue [] = False"
| "issue_reference (Suc k) before verb issue (c # cs) = issue_reference k (Some c) verb issue cs"
| "issue_reference 0 before verb issue (c # cs) = (case strip_prefix verb (c # cs) of
       None \<Rightarrow> issue_reference 0 (Some c) verb issue cs
     | Some suffix \<Rightarrow>
         if issue_follows issue suffix \<and> (case before of None \<Rightarrow> True | Some b \<Rightarrow> \<not> is_alphanumeric b)
         then True
         else issue_reference (length verb - 1) (Some c) verb issue cs)"

definition references_issue :: "ustr \<Rightarrow> u64 \<Rightarrow> bool" where
  "references_issue body issue =
     list_ex (\<lambda>verb. issue_reference 0 None verb (show_u64 issue) (ascii_lower body))
       (map lit [''close'', ''closed'', ''closes'', ''fix'', ''fixed'', ''fixes'', ''resolve'', ''resolved'',
          ''resolves''])"

section \<open>Evaluation\<close>

text \<open>The definitions that read a concrete text by simplification.\<close>

lemmas text_eval = lit_def markdown_section_def markdown_sections_def line_text_def trim_end_of_def
  starts_with_str_def strip_prefix_def ascii_lower_def to_ascii_lower_def is_ascii_uppercase_def trim_def
  trim_start_def trim_end_def is_whitespace_def str_lines_def chomp_def line_numbers_def item_number_def
  list_item_def leading_issue_number_def is_ascii_digit_def

end
