(* ===== verification/Ready_Queue.thy ===== *)
theory Ready_Queue
  imports Issue_Text Dispatch_Eligibility "HOL-Library.Product_Lexorder"
begin

text \<open>
  The ready queue (\<open>coordination/ready_queue.rs\<close>, \<open>ready_queue/labels.rs\<close>): which open issues may be
  dispatched, which are held and why, in which order, and the batch a coordinator takes. The verdict of
  the claim safety policy is an argument of the planner (\<open>safety\<close>), applied to the input the code gives it.
\<close>

section \<open>Labels\<close>

definition SERIAL_LABELS :: "string list" where
  "SERIAL_LABELS = [''reasoning:deep'', ''priority:high'', ''regression'', ''audit'', ''release'']"

definition BLOCKING_LABELS :: "(string \<times> string) list" where
  "BLOCKING_LABELS = [(''needs-classify'', ''needs_classify''), (''groom:proposed'', ''groom_proposed''),
     (''autospec:needs-human'', ''autospec_needs_human''),
     (''autospec:blocked-prerequisite'', ''security_prerequisite_blocked'')]"

definition TIER_CLASS_LABELS :: "string list" where
  "TIER_CLASS_LABELS = [''tier-review'', ''gate'']"

definition permanent_labels_in_predicate :: "ustr list \<Rightarrow> ustr list" where
  "permanent_labels_in_predicate predicate = filter (\<lambda>l. l \<in> set (map lit TIER_CLASS_LABELS)) predicate"

section \<open>The input\<close>

record pr_check =
  run_name :: ustr
  run_status :: ustr
  run_conclusion :: "ustr option"

record remote_pull_request =
  pull_number :: u64
  pull_open :: bool
  pull_body :: ustr
  pull_checks :: "pr_check list"

datatype pr_evidence = Available "remote_pull_request list" | Unavailable ustr

record queue_policy =
  batch_size :: nat
  max_repo_workers :: nat
  only_issues :: "u64 list"
  non_blocking_labels :: "ustr list"

definition new_queue_policy :: "nat \<Rightarrow> nat \<Rightarrow> queue_policy" where
  "new_queue_policy n w = \<lparr>batch_size = max n 1, max_repo_workers = w, only_issues = [],
     non_blocking_labels = map lit [''epic'', ''umbrella'']\<rparr>"

record queue_input =
  candidates :: "remote_issue list"
  active_issues :: "remote_issue list"
  dependencies :: "(u64, remote_issue) bmap"
  pull_requests :: pr_evidence
  queue_policy :: queue_policy
  capabilities :: "(ustr, capability_state) bmap"
  no_output_streaks :: "(u64, nat) bmap"

record safety_input =
  safety_labels :: "ustr list"
  safety_title :: ustr
  safety_body :: ustr
  safety_author :: ustr

record safety_decision =
  allowed :: bool
  safety_reason :: ustr

definition safety_input_of :: "remote_issue \<Rightarrow> safety_input" where
  "safety_input_of i = \<lparr>safety_labels = labels i, safety_title = title i, safety_body = body i,
     safety_author = author i\<rparr>"

section \<open>The plan\<close>

record non_blocking_reference =
  ref_issue :: u64
  ref_reason :: ustr
  ref_cycle :: bool

record safety_gate =
  gate_ok :: bool
  gate_reason :: ustr

record queue_view =
  view_issue :: remote_issue
  view_reason :: "ustr option"
  blocked_label :: "ustr option"
  view_gate :: "safety_gate option"
  linked_pr :: "u64 option"
  unmet_dependencies :: "u64 list"
  cycle_dependencies :: "u64 list"
  non_blocking_refs :: "non_blocking_reference list"
  conflicts_with :: "u64 option"
  duplicate_of :: "u64 option"
  conflict_path :: "ustr option"
  view_paths :: "ustr list"
  view_serialization :: "ustr list"
  parallel_safe :: "bool option"
  blocked_capabilities :: "ustr list"
  zero_output_streak :: "nat option"
  unblocks :: nat
  readiness :: "ustr option"

definition plain_view :: "remote_issue \<Rightarrow> queue_view" where
  "plain_view i = \<lparr>view_issue = i, view_reason = None, blocked_label = None, view_gate = None,
     linked_pr = None, unmet_dependencies = [], cycle_dependencies = [], non_blocking_refs = [],
     conflicts_with = None, duplicate_of = None, conflict_path = None, view_paths = [],
     view_serialization = [], parallel_safe = None, blocked_capabilities = [], zero_output_streak = None,
     unblocks = 0, readiness = None\<rparr>"

record worker_cap =
  cap_workers :: nat
  active_count :: nat
  remaining :: nat
  reached :: bool

record gate_counts =
  open_count :: nat
  candidate_count :: nat
  reviewed_count :: nat
  blocked_count :: nat
  duplicate_count :: nat
  dependency_blocked :: nat
  decision_blocked :: nat
  linked_pr_blocked :: nat
  path_conflicted :: nat
  ready_count :: nat
  claimed_count :: nat
  selected_count :: nat
  capability_blocked :: nat
  zero_output_review :: nat

record queue_plan =
  plan_ready :: "queue_view list"
  plan_blocked :: "queue_view list"
  plan_claimed :: "remote_issue list"
  plan_conflicts :: "queue_view list"
  plan_cap :: worker_cap
  plan_batch :: "queue_view list"
  plan_counts :: gate_counts
  predicate_defects :: "ustr list"

section \<open>The gates\<close>

definition has_exact_label :: "remote_issue \<Rightarrow> ustr \<Rightarrow> bool" where
  "has_exact_label i l = list_ex (\<lambda>c. c = l) (labels i)"

definition is_question_title :: "ustr \<Rightarrow> bool" where
  "is_question_title t = (strip_suffix (lit ''?'') (trim_end t) \<noteq> None)"

definition distinct_issues :: "remote_issue list \<Rightarrow> remote_issue list" where
  "distinct_issues issues = bm_values (deduplicate_issues issues)"

definition claim_signature :: "remote_issue \<Rightarrow> (ustr, u64) bmap \<Rightarrow> (ustr, u64) bmap" where
  "claim_signature i owners =
     (if closed i then owners
      else case duplicate_signature (body i) of
        None \<Rightarrow> owners
      | Some s \<Rightarrow>
          if (case bm_get owners s of None \<Rightarrow> True | Some n \<Rightarrow> number i < n) then bm_insert s (number i) owners
          else owners)"

definition signature_owners :: "remote_issue list \<Rightarrow> (ustr, u64) bmap" where
  "signature_owners issues = fold claim_signature issues bm_empty"

definition duplicate_owner :: "remote_issue \<Rightarrow> (ustr, u64) bmap \<Rightarrow> u64 option" where
  "duplicate_owner i owners = (case duplicate_signature (body i) of
       None \<Rightarrow> None
     | Some s \<Rightarrow> (case bm_get owners s of
         None \<Rightarrow> None
       | Some n \<Rightarrow> if n \<noteq> number i then Some n else None))"

datatype linked = NoPr | OpenPr u64 | PrUnavailable

definition nonterminal_check :: "pr_check \<Rightarrow> bool" where
  "nonterminal_check c \<longleftrightarrow> \<not> eq_ignore_ascii_case (run_status c) (lit ''COMPLETED'') \<or> run_conclusion c = None"

definition links_issue :: "u64 \<Rightarrow> remote_pull_request \<Rightarrow> bool" where
  "links_issue issue p \<longleftrightarrow> pull_open p \<and> references_issue (pull_body p) issue
     \<and> (pull_checks p = [] \<or> list_ex nonterminal_check (pull_checks p))"

definition linked_pr_with_nonterminal_checks :: "pr_evidence \<Rightarrow> u64 \<Rightarrow> linked" where
  "linked_pr_with_nonterminal_checks evidence issue = (case evidence of
       Unavailable _ \<Rightarrow> PrUnavailable
     | Available ps \<Rightarrow> (case sort (map pull_number (filter (links_issue issue) ps)) of
         [] \<Rightarrow> NoPr
       | n # _ \<Rightarrow> OpenPr n))"

subsection \<open>Dependencies\<close>

text \<open>
  \<open>dependency_reaches\<close> with its set of visited issues. The recursion of the code has no bound but that
  set; \<open>n\<close> bounds the depth here.
\<close>

fun reaches_any :: "(remote_issue \<Rightarrow> u64 list \<Rightarrow> bool \<times> u64 list) \<Rightarrow> (u64, remote_issue) bmap \<Rightarrow> u64
    \<Rightarrow> u64 list \<Rightarrow> u64 list \<Rightarrow> bool \<times> u64 list" where
  "reaches_any visit known target [] seen = (False, seen)"
| "reaches_any visit known target (d # ds) seen =
     (if d = target then (True, seen)
      else case bm_get known d of
        None \<Rightarrow> reaches_any visit known target ds seen
      | Some next \<Rightarrow> (case visit next seen of
          (True, seen) \<Rightarrow> (True, seen)
        | (False, seen) \<Rightarrow> reaches_any visit known target ds seen))"

fun reaches_from :: "nat \<Rightarrow> (u64, remote_issue) bmap \<Rightarrow> u64 \<Rightarrow> remote_issue \<Rightarrow> u64 list \<Rightarrow> bool \<times> u64 list" where
  "reaches_from 0 known target i seen = (False, seen)"
| "reaches_from (Suc n) known target i seen =
     (if number i \<in> set seen then (False, seen)
      else reaches_any (reaches_from n known target) known target (dependency_numbers (body i))
             (bs_insert (number i) seen))"

definition dependency_reaches :: "remote_issue \<Rightarrow> u64 \<Rightarrow> (u64, remote_issue) bmap \<Rightarrow> bool" where
  "dependency_reaches i target known = fst (reaches_from (Suc (Suc (length known))) known target i [])"

definition dependency_target :: "(u64, remote_issue) bmap \<Rightarrow> u64 \<Rightarrow> remote_issue" where
  "dependency_target known d = (case bm_get known d of
       Some i \<Rightarrow> i
     | None \<Rightarrow> \<lparr>number = d, title = lit ''issue-'' @ show_u64 d, body = [], labels = [], author = [],
         closed = False\<rparr>)"

definition non_blocking :: "queue_policy \<Rightarrow> remote_issue \<Rightarrow> bool" where
  "non_blocking p i = list_ex (\<lambda>l. ascii_lower l \<in> set (non_blocking_labels p)) (labels i)"

fun evaluate_each :: "remote_issue \<Rightarrow> (u64, remote_issue) bmap \<Rightarrow> queue_policy \<Rightarrow> u64 list
    \<Rightarrow> u64 list \<times> u64 list \<times> non_blocking_reference list" where
  "evaluate_each i known p [] = ([], [], [])"
| "evaluate_each i known p (d # ds) =
     (let t = dependency_target known d; (unmet, cycles, refs) = evaluate_each i known p ds in
      if closed t then (unmet, cycles, refs)
      else if non_blocking p t
      then (unmet, cycles, \<lparr>ref_issue = d, ref_reason = lit ''epic_label'', ref_cycle = False\<rparr> # refs)
      else if target_tracks_issue (body t) (number i)
      then (unmet, cycles, \<lparr>ref_issue = d, ref_reason = lit ''children_back_edge'', ref_cycle = True\<rparr> # refs)
      else (d # unmet, if dependency_reaches t (number i) known then d # cycles else cycles, refs))"

definition evaluate_dependencies :: "remote_issue \<Rightarrow> (u64, remote_issue) bmap \<Rightarrow> queue_policy
    \<Rightarrow> u64 list \<times> u64 list \<times> non_blocking_reference list" where
  "evaluate_dependencies i known p = evaluate_each i known p (dependency_numbers (body i))"

subsection \<open>Paths\<close>

fun first_path_conflict :: "ustr list \<Rightarrow> (u64 \<times> ustr list) list \<Rightarrow> (u64 \<times> ustr) option" where
  "first_path_conflict candidate [] = None"
| "first_path_conflict candidate ((n, paths) # others) = (case find (\<lambda>p. p \<in> set paths) candidate of
       Some p \<Rightarrow> Some (n, p)
     | None \<Rightarrow> first_path_conflict candidate others)"

definition serialization_labels :: "remote_issue \<Rightarrow> ustr list" where
  "serialization_labels i = filter (\<lambda>l. list_ex (\<lambda>c. c = l) (labels i)) (map lit SERIAL_LABELS)"

section \<open>Placing one issue\<close>

record queue_env =
  env_input :: queue_input
  env_trusted :: "ustr list"
  env_known :: "(u64, remote_issue) bmap"
  env_active_paths :: "(u64 \<times> ustr list) list"
  env_owners :: "(ustr, u64) bmap"

datatype placement = Ready queue_view | Held queue_view | Conflict queue_view

definition held :: "string \<Rightarrow> queue_view \<Rightarrow> placement" where
  "held why v = Held (v\<lparr>view_reason := Some (lit why)\<rparr>)"

text \<open>The last gates: paths, withdrawal and, past them, the ready view.\<close>

definition place_by_paths :: "queue_env \<Rightarrow> queue_view list \<Rightarrow> queue_view \<Rightarrow> placement" where
  "place_by_paths env ready v = (case first_path_conflict (view_paths v) (env_active_paths env) of
       Some (n, p) \<Rightarrow> Conflict (v\<lparr>view_reason := Some (lit ''path_conflict''), conflicts_with := Some n,
           conflict_path := Some p\<rparr>)
     | None \<Rightarrow>
         (case first_path_conflict (view_paths v) (map (\<lambda>r. (number (view_issue r), view_paths r)) ready) of
            Some (n, p) \<Rightarrow> Conflict (v\<lparr>view_reason := Some (lit ''waits_on_foundation''),
                conflicts_with := Some n, conflict_path := Some p\<rparr>)
          | None \<Rightarrow>
              (case bm_get (no_output_streaks (env_input env)) (number (view_issue v)) of
                 Some streak \<Rightarrow>
                   if withdrawn (from_trailing_streak streak)
                   then held ''zero_output_review'' (v\<lparr>zero_output_streak := Some streak\<rparr>)
                   else Ready (v\<lparr>view_serialization := serialization_labels (view_issue v),
                     parallel_safe := Some (serialization_labels (view_issue v) = [])\<rparr>)
               | None \<Rightarrow> Ready (v\<lparr>view_serialization := serialization_labels (view_issue v),
                   parallel_safe := Some (serialization_labels (view_issue v) = [])\<rparr>))))"

definition place_by_dependencies :: "queue_env \<Rightarrow> queue_view list \<Rightarrow> remote_issue \<Rightarrow> placement" where
  "place_by_dependencies env ready i =
     (let caps = unmet_capabilities (body i) (capabilities (env_input env)) in
      if caps \<noteq> [] then held ''blocked_capabilities'' ((plain_view i)\<lparr>blocked_capabilities := caps\<rparr>)
      else let (unmet, cycles, refs) = evaluate_dependencies i (env_known env) (queue_policy (env_input env)) in
        if unmet \<noteq> []
        then held (if cycles = [] then ''blocked_dependencies'' else ''blocked_cycle'')
          ((plain_view i)\<lparr>unmet_dependencies := unmet, cycle_dependencies := cycles, non_blocking_refs := refs\<rparr>)
        else place_by_paths env ready
          ((plain_view i)\<lparr>view_paths := extract_paths (body i), non_blocking_refs := refs\<rparr>))"

definition place_issue :: "(safety_input \<Rightarrow> ustr list \<Rightarrow> safety_decision) \<Rightarrow> queue_env \<Rightarrow> queue_view list
    \<Rightarrow> remote_issue \<Rightarrow> placement" where
  "place_issue safety env ready i =
     (let v = plain_view i in
      case find (\<lambda>b. has_exact_label i (lit (fst b))) BLOCKING_LABELS of
        Some (l, why) \<Rightarrow> held why (v\<lparr>blocked_label := Some (lit l)\<rparr>)
      | None \<Rightarrow>
          if \<not> is_dispatch_eligible i default_policy then held ''missing_auto_implement'' v
          else if is_question_title (title i) then held ''decision_request'' v
          else (case duplicate_owner i (env_owners env) of
            Some n \<Rightarrow> held ''duplicate_issue'' (v\<lparr>duplicate_of := Some n\<rparr>)
          | None \<Rightarrow>
              let s = safety (safety_input_of i) (env_trusted env) in
              if \<not> allowed s
              then held ''safety_gate_failed'' (v\<lparr>view_gate := Some \<lparr>gate_ok = False, gate_reason = safety_reason s\<rparr>\<rparr>)
              else (case linked_pr_with_nonterminal_checks (pull_requests (env_input env)) (number i) of
                PrUnavailable \<Rightarrow> held ''linked_pr_evidence_unavailable'' v
              | OpenPr n \<Rightarrow> held ''linked_pr_open'' (v\<lparr>linked_pr := Some n\<rparr>)
              | NoPr \<Rightarrow> place_by_dependencies env ready i)))"

section \<open>The order of the frontier\<close>

definition reverse_edge :: "u64 \<Rightarrow> u64 \<Rightarrow> (u64, u64 list) bmap \<Rightarrow> (u64, u64 list) bmap" where
  "reverse_edge n d reverse =
     bm_insert d (bs_insert n (case bm_get reverse d of Some ds \<Rightarrow> ds | None \<Rightarrow> [])) reverse"

definition reverse_edges_of :: "u64 \<times> remote_issue \<Rightarrow> (u64, u64 list) bmap \<Rightarrow> (u64, u64 list) bmap" where
  "reverse_edges_of e reverse =
     (if closed (snd e) then reverse
      else fold (reverse_edge (fst e)) (dependency_numbers (body (snd e))) reverse)"

definition reverse_dependency_edges :: "(u64, remote_issue) bmap \<Rightarrow> (u64, u64 list) bmap" where
  "reverse_dependency_edges known = fold reverse_edges_of known bm_empty"

definition known_open :: "(u64, remote_issue) bmap \<Rightarrow> u64 \<Rightarrow> bool" where
  "known_open known n = (case bm_get known n of Some i \<Rightarrow> \<not> closed i | None \<Rightarrow> False)"

text \<open>The top of the stack is its first element; \<open>push_dependent\<close> is the body of the inner loop.\<close>

definition push_dependent :: "u64 \<Rightarrow> (u64, remote_issue) bmap \<Rightarrow> u64 \<Rightarrow> u64 list \<times> u64 list \<times> nat
    \<Rightarrow> u64 list \<times> u64 list \<times> nat" where
  "push_dependent issue known d s = (case s of (stack, seen, count) \<Rightarrow>
     if d = issue \<or> d \<in> set seen then (stack, seen, count)
     else (d # stack, bs_insert d seen, if known_open known d then Suc count else count))"

definition dependents :: "(u64, u64 list) bmap \<Rightarrow> u64 \<Rightarrow> u64 list" where
  "dependents reverse n = (case bm_get reverse n of Some ds \<Rightarrow> ds | None \<Rightarrow> [])"

lemma push_dependents_grow:
  assumes "fold (push_dependent issue known) ds (stack, seen, count) = (stack', seen', count')"
    and "set ds \<subseteq> U" "finite U"
  shows "length stack' + card (U - set seen') \<le> length stack + card (U - set seen)"
  using assms(1,2)
proof (induction ds arbitrary: stack seen count)
  case (Cons d ds)
  show ?case
  proof (cases "d = issue \<or> d \<in> set seen")
    case True
    with Cons show ?thesis by (auto simp: push_dependent_def)
  next
    case False
    then have "U - set (bs_insert d seen) = (U - set seen) - {d}" "d \<in> U - set seen"
      using Cons.prems(2) by auto
    then have "card (U - set seen) = Suc (card (U - set (bs_insert d seen)))"
      using card_Suc_Diff1 [of "U - set seen" d] assms(3) by simp
    with Cons.IH [of "d # stack" "bs_insert d seen"] Cons.prems False show ?thesis
      by (simp add: push_dependent_def)
  qed
qed simp

lemma dependents_bound: "set (dependents reverse n) \<subseteq> set (concat (bm_values reverse))"
proof (cases "bm_get reverse n")
  case (Some ds)
  then have "ds \<in> set (bm_values reverse)" by (force simp: bm_values_def dest: bm_get_mem)
  with Some show ?thesis by (auto simp: dependents_def)
qed (simp add: dependents_def)

function unblock_loop :: "u64 \<Rightarrow> (u64, remote_issue) bmap \<Rightarrow> (u64, u64 list) bmap \<Rightarrow> u64 list \<times> u64 list \<times> nat
    \<Rightarrow> nat" where
  "unblock_loop issue known reverse ([], seen, count) = count"
| "unblock_loop issue known reverse (c # stack, seen, count) =
     unblock_loop issue known reverse
       (fold (push_dependent issue known) (dependents reverse c) (stack, seen, count))"
  by pat_completeness auto
termination
proof (relation "measure (\<lambda>(issue, known, reverse, stack, seen, count).
    length stack + card (set (concat (bm_values reverse)) - set seen))", goal_cases)
  case (2 issue known reverse c stack seen count)
  obtain stack' seen' count' where
    f: "fold (push_dependent issue known) (dependents reverse c) (stack, seen, count) = (stack', seen', count')"
    by (cases "fold (push_dependent issue known) (dependents reverse c) (stack, seen, count)") auto
  show ?case
    using push_dependents_grow [OF f dependents_bound] by (simp add: f)
qed simp

definition unblocking_value :: "u64 \<Rightarrow> (u64, remote_issue) bmap \<Rightarrow> (u64, u64 list) bmap \<Rightarrow> nat" where
  "unblocking_value issue known reverse = unblock_loop issue known reverse ([issue], [], 0)"

definition readiness_rationale :: "queue_view \<Rightarrow> ustr" where
  "readiness_rationale v =
     DISPATCH_ELIGIBILITY_LABEL @ lit '' label, no blocker label, 0 open deps, unblocks '' @ show_nat (unblocks v)"

definition rank_view :: "(u64, remote_issue) bmap \<Rightarrow> (u64, u64 list) bmap \<Rightarrow> queue_view \<Rightarrow> queue_view" where
  "rank_view known reverse v =
     (let v = v\<lparr>unblocks := unblocking_value (number (view_issue v)) known reverse\<rparr>
      in v\<lparr>readiness := Some (readiness_rationale v)\<rparr>)"

definition frontier_key :: "queue_view \<Rightarrow> int \<times> u64" where
  "frontier_key v = (- int (unblocks v), number (view_issue v))"

definition order_frontier :: "(u64, remote_issue) bmap \<Rightarrow> queue_view list \<Rightarrow> queue_view list" where
  "order_frontier known ready =
     sort_key frontier_key (map (rank_view known (reverse_dependency_edges known)) ready)"

section \<open>The plan\<close>

definition worker_cap_of :: "queue_policy \<Rightarrow> nat \<Rightarrow> worker_cap" where
  "worker_cap_of p active = \<lparr>cap_workers = max_repo_workers p, active_count = active,
     remaining = (if max_repo_workers p = 0 then batch_size p else max_repo_workers p - active),
     reached = (0 < max_repo_workers p \<and> max_repo_workers p \<le> active)\<rparr>"

definition effective_batch_size :: "queue_policy \<Rightarrow> worker_cap \<Rightarrow> nat" where
  "effective_batch_size p c =
     (if reached c then 0
      else if 0 < max_repo_workers p then min (batch_size p) (remaining c)
      else batch_size p)"

definition selected :: "queue_input \<Rightarrow> remote_issue list" where
  "selected inp = filter (\<lambda>i. \<not> closed i \<and> (only_issues (queue_policy inp) = []
       \<or> number i \<in> set (only_issues (queue_policy inp)))) (distinct_issues (candidates inp))"

definition known_issues :: "queue_input \<Rightarrow> (u64, remote_issue) bmap" where
  "known_issues inp = fold (\<lambda>i. bm_insert (number i) i) (distinct_issues (candidates inp)) (dependencies inp)"

definition planner_env :: "queue_input \<Rightarrow> ustr list \<Rightarrow> queue_env" where
  "planner_env inp trusted = \<lparr>env_input = inp, env_trusted = trusted, env_known = known_issues inp,
     env_active_paths = map (\<lambda>i. (number i, extract_paths (body i))) (distinct_issues (active_issues inp)),
     env_owners = signature_owners (distinct_issues (candidates inp) @ distinct_issues (active_issues inp))\<rparr>"

definition place_step :: "(safety_input \<Rightarrow> ustr list \<Rightarrow> safety_decision) \<Rightarrow> queue_env \<Rightarrow> remote_issue
    \<Rightarrow> queue_view list \<times> queue_view list \<times> queue_view list
    \<Rightarrow> queue_view list \<times> queue_view list \<times> queue_view list" where
  "place_step safety env i s = (case s of (ready, blocked, conflicts) \<Rightarrow>
     (case place_issue safety env ready i of
        Ready v \<Rightarrow> (ready @ [v], blocked, conflicts)
      | Held v \<Rightarrow> (ready, blocked @ [v], conflicts)
      | Conflict v \<Rightarrow> (ready, blocked, conflicts @ [v])))"

definition place_all :: "(safety_input \<Rightarrow> ustr list \<Rightarrow> safety_decision) \<Rightarrow> queue_env \<Rightarrow> remote_issue list
    \<Rightarrow> queue_view list \<times> queue_view list \<times> queue_view list" where
  "place_all safety env issues = fold (place_step safety env) issues ([], [], [])"

definition choose_batch :: "nat \<Rightarrow> queue_view list \<Rightarrow> queue_view list" where
  "choose_batch n ready =
     (if n = 0 then []
      else case ready of
        [] \<Rightarrow> []
      | v # _ \<Rightarrow> if parallel_safe v = Some False then [v]
                 else take n (filter (\<lambda>v. parallel_safe v \<noteq> Some False) ready))"

definition held_for :: "(ustr \<Rightarrow> bool) \<Rightarrow> queue_view list \<Rightarrow> nat" where
  "held_for P views = length (filter (\<lambda>v. case view_reason v of Some r \<Rightarrow> P r | None \<Rightarrow> False) views)"

definition queue_gate_counts :: "queue_plan \<Rightarrow> nat \<Rightarrow> nat \<Rightarrow> nat \<Rightarrow> gate_counts" where
  "queue_gate_counts p opened candidate reviewed = \<lparr>
     open_count = opened,
     candidate_count = candidate,
     reviewed_count = reviewed,
     blocked_count = length (plan_blocked p),
     duplicate_count = held_for (\<lambda>r. r = lit ''duplicate_issue'') (plan_blocked p),
     dependency_blocked =
       held_for (\<lambda>r. r = lit ''blocked_dependencies'' \<or> r = lit ''blocked_cycle'') (plan_blocked p),
     decision_blocked = held_for (\<lambda>r. r = lit ''autospec_needs_human'') (plan_blocked p),
     linked_pr_blocked = held_for (starts_with_str (lit ''linked_pr_'')) (plan_blocked p),
     path_conflicted = length (plan_conflicts p),
     ready_count = length (plan_ready p),
     claimed_count = length (plan_claimed p),
     selected_count = length (plan_batch p),
     capability_blocked = held_for (\<lambda>r. r = lit ''blocked_capabilities'') (plan_blocked p),
     zero_output_review = held_for (\<lambda>r. r = lit ''zero_output_review'') (plan_blocked p)\<rparr>"

definition no_counts :: gate_counts where
  "no_counts = \<lparr>open_count = 0, candidate_count = 0, reviewed_count = 0, blocked_count = 0,
     duplicate_count = 0, dependency_blocked = 0, decision_blocked = 0, linked_pr_blocked = 0,
     path_conflicted = 0, ready_count = 0, claimed_count = 0, selected_count = 0,
     capability_blocked = 0, zero_output_review = 0\<rparr>"

definition plan_ready_queue_with_trusted_actors :: "(safety_input \<Rightarrow> ustr list \<Rightarrow> safety_decision)
    \<Rightarrow> queue_input \<Rightarrow> ustr list \<Rightarrow> queue_plan" where
  "plan_ready_queue_with_trusted_actors safety inp trusted =
     (let env = planner_env inp trusted;
          opened = length (filter (\<lambda>i. \<not> closed i) (distinct_issues (candidates inp)));
          cap = worker_cap_of (queue_policy inp) (length (distinct_issues (active_issues inp)));
          (ready, blocked, conflicts) = place_all safety env (selected inp);
          ready = order_frontier (env_known env) ready;
          plan = \<lparr>plan_ready = ready, plan_blocked = blocked,
            plan_claimed = distinct_issues (active_issues inp), plan_conflicts = conflicts, plan_cap = cap,
            plan_batch = choose_batch (effective_batch_size (queue_policy inp) cap) ready,
            plan_counts = no_counts,
            predicate_defects = permanent_labels_in_predicate (map (\<lambda>b. lit (fst b)) BLOCKING_LABELS)\<rparr>
      in plan\<lparr>plan_counts := queue_gate_counts plan opened (length (selected inp))
           (length (filter (\<lambda>i. has_exact_label i (lit ''safety:reviewed'')) (selected inp)))\<rparr>)"

definition plan_ready_queue :: "(safety_input \<Rightarrow> ustr list \<Rightarrow> safety_decision) \<Rightarrow> queue_input \<Rightarrow> queue_plan" where
  "plan_ready_queue safety inp = plan_ready_queue_with_trusted_actors safety inp [lit ''berlinguyinca'']"

definition ready_numbers :: "queue_plan \<Rightarrow> u64 list" where
  "ready_numbers p = map (\<lambda>v. number (view_issue v)) (plan_ready p)"

definition batch_numbers :: "queue_plan \<Rightarrow> u64 list" where
  "batch_numbers p = map (\<lambda>v. number (view_issue v)) (plan_batch p)"

end
