(* ===== verification/Queue_Input.thy ===== *)
theory Queue_Input
  imports Ready_Queue Claim
begin

text \<open>
  The readers of what GitHub reports to the ready queue (\<open>coordination/ready_queue.rs\<close>): issues, pages of
  issues, a single dependency, and pull requests with their checks. A reader names the place of the value
  it refuses.
\<close>

section \<open>Objects\<close>

definition take_field :: "(ustr, json) bmap \<Rightarrow> string \<Rightarrow> json option \<times> (ustr, json) bmap" where
  "take_field m key = (bm_get m (lit key), bm_remove (lit key) m)"

definition require_field :: "(ustr, json) bmap \<Rightarrow> string \<Rightarrow> ustr \<Rightarrow> ustr + json \<times> (ustr, json) bmap" where
  "require_field m key ctx = (case take_field m key of
       (Some v, m) \<Rightarrow> Inr (v, m)
     | (None, m) \<Rightarrow> Inl (ctx @ lit ''.'' @ lit key @ lit '' is required''))"

definition take_text :: "(ustr, json) bmap \<Rightarrow> string \<Rightarrow> ustr \<Rightarrow> ustr + ustr option \<times> (ustr, json) bmap" where
  "take_text m key ctx = (case take_field m key of
       (None, m) \<Rightarrow> Inr (None, m)
     | (Some JNull, m) \<Rightarrow> Inr (None, m)
     | (Some v, m) \<Rightarrow> map_ok (\<lambda>s. (Some s, m)) (into_string v (ctx @ lit ''.'' @ lit key)))"

definition reject_unknown_keys :: "(ustr, json) bmap \<Rightarrow> string list \<Rightarrow> ustr \<Rightarrow> ustr + unit" where
  "reject_unknown_keys m known ctx = (case find (\<lambda>key. key \<notin> set (map lit known)) (bm_keys m) of
       Some key \<Rightarrow> Inl (ctx @ lit '' contains unknown key: '' @ key)
     | None \<Rightarrow> Inr ())"

definition element :: "ustr \<Rightarrow> nat \<Rightarrow> ustr" where
  "element ctx k = ctx @ lit ''['' @ show_nat k @ lit '']''"

definition or_empty :: "ustr option \<Rightarrow> ustr" where
  "or_empty s = (case s of Some t \<Rightarrow> t | None \<Rightarrow> [])"

section \<open>Issues\<close>

record issue_page =
  page_issues :: "remote_issue list"
  raw_count :: u64

fun parse_label :: "json \<Rightarrow> ustr \<Rightarrow> ustr + ustr" where
  "parse_label (JString s) ctx = Inr s"
| "parse_label (JObject m) ctx =
     and_then (reject_unknown_keys m [''name''] ctx) (\<lambda>_.
     and_then (require_field m ''name'' ctx) (\<lambda>(v, m). into_string v (ctx @ lit ''.name'')))"
| "parse_label _ ctx = Inl (ctx @ lit '' must be a label object or string'')"

definition parse_author :: "json option \<Rightarrow> ustr \<Rightarrow> ustr + ustr" where
  "parse_author v ctx = (case v of
       None \<Rightarrow> Inr []
     | Some JNull \<Rightarrow> Inr []
     | Some v \<Rightarrow>
         and_then (into_object v ctx) (\<lambda>m.
         and_then (reject_unknown_keys m [''login''] ctx) (\<lambda>_.
         map_ok (\<lambda>(s, m). or_empty s) (take_text m ''login'' ctx))))"

definition parse_issue :: "json \<Rightarrow> ustr \<Rightarrow> u64 option \<Rightarrow> ustr + remote_issue" where
  "parse_issue v ctx fallback =
     and_then (into_object v ctx) (\<lambda>m.
     and_then (reject_unknown_keys m [''number'', ''title'', ''body'', ''labels'', ''author'', ''state''] ctx) (\<lambda>_.
     let (num, m) = take_field m ''number'' in
     and_then (case num of
         Some v \<Rightarrow> into_number v (ctx @ lit ''.number'')
       | None \<Rightarrow> (case fallback of Some n \<Rightarrow> Inr n | None \<Rightarrow> Inl (ctx @ lit ''.number is required''))) (\<lambda>n.
     let (ls, m) = take_field m ''labels'' in
     and_then (into_array (case ls of Some v \<Rightarrow> v | None \<Rightarrow> JArray []) (ctx @ lit ''.labels'')) (\<lambda>vs.
     and_then (read_each (\<lambda>k v. parse_label v (element (ctx @ lit ''.labels'') k)) 0 vs) (\<lambda>ls.
     let (a, m) = take_field m ''author'' in
     and_then (parse_author a (ctx @ lit ''.author'')) (\<lambda>who.
     and_then (take_text m ''state'' ctx) (\<lambda>(st, m).
     and_then (take_text m ''title'' ctx) (\<lambda>(ti, m).
     and_then (take_text m ''body'' ctx) (\<lambda>(bo, m).
     Inr \<lparr>number = n, title = or_empty ti, body = or_empty bo, labels = ls, author = who,
          closed = eq_ignore_ascii_case (case st of Some s \<Rightarrow> s | None \<Rightarrow> lit ''OPEN'') (lit ''CLOSED'')\<rparr>)))))))))"

definition parse_remote_issues :: "json list \<Rightarrow> ustr + remote_issue list" where
  "parse_remote_issues vs =
     read_each (\<lambda>k v. parse_issue v (element (lit ''GitHub queue issue list'') k) None) 0 vs"

definition parse_remote_issue_list_json :: "ustr \<Rightarrow> ustr + remote_issue list" where
  "parse_remote_issue_list_json input =
     and_then (read_json input) (\<lambda>v.
     and_then (into_array v (lit ''GitHub queue issue list'')) parse_remote_issues)"

definition parse_dependency_issue_json :: "ustr \<Rightarrow> u64 \<Rightarrow> ustr + remote_issue" where
  "parse_dependency_issue_json input n =
     and_then (read_json input) (\<lambda>v. parse_issue v (lit ''GitHub queue dependency issue'') (Some n))"

text \<open>A \<open>usize\<close> holds every \<open>u64\<close> here. A bare array counts its own elements.\<close>

definition issue_page_of :: "json \<Rightarrow> ustr + issue_page" where
  "issue_page_of v = (case v of
       JArray vs \<Rightarrow> map_ok (\<lambda>js. \<lparr>page_issues = js, raw_count = of_nat (length vs)\<rparr>) (parse_remote_issues vs)
     | JObject m \<Rightarrow>
         let ctx = lit ''GitHub queue issue page'' in
         and_then (reject_unknown_keys m [''raw_count'', ''items''] ctx) (\<lambda>_.
         and_then (require_field m ''raw_count'' ctx) (\<lambda>(v, m).
         and_then (into_number v (ctx @ lit ''.raw_count'')) (\<lambda>n.
         and_then (require_field m ''items'' ctx) (\<lambda>(v, m).
         and_then (into_array v (ctx @ lit ''.items'')) (\<lambda>vs.
         map_ok (\<lambda>js. \<lparr>page_issues = js, raw_count = n\<rparr>) (parse_remote_issues vs))))))
     | _ \<Rightarrow> Inl (lit ''GitHub queue issue page must be an array or object''))"

definition parse_remote_issue_page_json :: "ustr \<Rightarrow> ustr + issue_page" where
  "parse_remote_issue_page_json input = and_then (read_json input) issue_page_of"

section \<open>Pull requests\<close>

record pull_request_page =
  page_pulls :: "remote_pull_request list"
  has_next_page :: bool
  end_cursor :: "ustr option"

definition parse_pr_check :: "ustr \<Rightarrow> nat \<Rightarrow> json \<Rightarrow> ustr + pr_check" where
  "parse_pr_check ctx k v =
     (let ctx = element ctx k in
      and_then (into_object v ctx) (\<lambda>m.
      and_then (reject_unknown_keys m [''name'', ''status'', ''conclusion''] ctx) (\<lambda>_.
      and_then (take_text m ''name'' ctx) (\<lambda>(n, m).
      and_then (take_text m ''status'' ctx) (\<lambda>(s, m).
      and_then (take_text m ''conclusion'' ctx) (\<lambda>(c, m).
      Inr \<lparr>run_name = or_empty n, run_status = or_empty s, run_conclusion = c\<rparr>))))))"

definition parse_pull_request :: "nat \<Rightarrow> json \<Rightarrow> ustr + remote_pull_request" where
  "parse_pull_request k v =
     (let ctx = element (lit ''GitHub queue pull request list'') k in
      and_then (into_object v ctx) (\<lambda>m.
      and_then (reject_unknown_keys m [''number'', ''state'', ''body'', ''statusCheckRollup''] ctx) (\<lambda>_.
      and_then (require_field m ''number'' ctx) (\<lambda>(v, m).
      and_then (into_number v (ctx @ lit ''.number'')) (\<lambda>n.
      and_then (take_text m ''state'' ctx) (\<lambda>(st, m).
      and_then (take_text m ''body'' ctx) (\<lambda>(b, m).
      let (cs, m) = take_field m ''statusCheckRollup''; at = ctx @ lit ''.statusCheckRollup'' in
      and_then (into_array (case cs of Some v \<Rightarrow> v | None \<Rightarrow> JArray []) at) (\<lambda>vs.
      and_then (read_each (parse_pr_check at) 0 vs) (\<lambda>checks.
      Inr \<lparr>pull_number = n,
           pull_open = eq_ignore_ascii_case (case st of Some s \<Rightarrow> s | None \<Rightarrow> lit ''OPEN'') (lit ''OPEN''),
           pull_body = or_empty b, pull_checks = checks\<rparr>)))))))))"

definition parse_remote_pull_requests :: "json list \<Rightarrow> ustr + remote_pull_request list" where
  "parse_remote_pull_requests vs = read_each parse_pull_request 0 vs"

definition parse_remote_pull_requests_json :: "ustr \<Rightarrow> ustr + remote_pull_request list" where
  "parse_remote_pull_requests_json input =
     and_then (read_json input) (\<lambda>v.
     and_then (into_array v (lit ''GitHub queue pull request list'')) parse_remote_pull_requests)"

definition pull_request_page_of :: "json \<Rightarrow> ustr + pull_request_page" where
  "pull_request_page_of v = (case v of
       JArray vs \<Rightarrow> map_ok (\<lambda>ps. \<lparr>page_pulls = ps, has_next_page = False, end_cursor = None\<rparr>)
         (parse_remote_pull_requests vs)
     | JObject m \<Rightarrow>
         let ctx = lit ''GitHub queue pull request page''; info = ctx @ lit ''.page_info'' in
         and_then (reject_unknown_keys m [''items'', ''page_info''] ctx) (\<lambda>_.
         and_then (require_field m ''items'' ctx) (\<lambda>(v, m).
         and_then (into_array v (ctx @ lit ''.items'')) (\<lambda>vs.
         and_then (require_field m ''page_info'' ctx) (\<lambda>(v, m).
         and_then (into_object v info) (\<lambda>p.
         and_then (reject_unknown_keys p [''has_next_page'', ''end_cursor''] info) (\<lambda>_.
         and_then (require_field p ''has_next_page'' info) (\<lambda>(v, p).
         and_then (into_bool v (info @ lit ''.has_next_page'')) (\<lambda>more.
         and_then (require_field p ''end_cursor'' info) (\<lambda>(v, p).
         and_then (into_optional_string v (info @ lit ''.end_cursor'')) (\<lambda>cursor.
         if more \<and> cursor = None
         then Inl (info @ lit ''.end_cursor is required when another page exists'')
         else map_ok (\<lambda>ps. \<lparr>page_pulls = ps, has_next_page = more, end_cursor = cursor\<rparr>)
           (parse_remote_pull_requests vs)))))))))))
     | _ \<Rightarrow> Inl (lit ''GitHub queue pull request page must be an array or object''))"

definition parse_remote_pull_request_page_json :: "ustr \<Rightarrow> ustr + pull_request_page" where
  "parse_remote_pull_request_page_json input = and_then (read_json input) pull_request_page_of"

section \<open>A tracker's page is read back\<close>

text \<open>What \<open>gh\<close> prints for an issue, with its labels and author as objects.\<close>

definition label_doc :: "ustr \<Rightarrow> jdoc" where
  "label_doc l = DObject [(lit ''name'', DString l)]"

definition issue_doc :: "remote_issue \<Rightarrow> jdoc" where
  "issue_doc i = DObject [(lit ''number'', number_doc (number i)), (lit ''title'', DString (title i)),
     (lit ''body'', DString (body i)), (lit ''labels'', DArray (map label_doc (labels i))),
     (lit ''author'', DObject [(lit ''login'', DString (author i))]),
     (lit ''state'', DString (lit (if closed i then ''CLOSED'' else ''OPEN'')))]"

definition issue_page_doc :: "issue_page \<Rightarrow> jdoc" where
  "issue_page_doc p = DObject [(lit ''items'', DArray (map issue_doc (page_issues p))),
     (lit ''raw_count'', number_doc (raw_count p))]"

lemma known_keys_ok: "set (map fst m) \<subseteq> set (map lit ks) \<Longrightarrow> reject_unknown_keys m ks ctx = Inr ()"
  by (auto simp: reject_unknown_keys_def bm_keys_def find_None_iff split: option.splits)

lemma take_field_there: "bm_get m (lit k) = Some v \<Longrightarrow> take_field m k = (Some v, bm_remove (lit k) m)"
  by (simp add: take_field_def)

lemma require_field_there:
  "bm_get m (lit k) = Some v \<Longrightarrow> require_field m k ctx = Inr (v, bm_remove (lit k) m)"
  by (simp add: require_field_def take_field_def)

lemma take_text_there:
  "bm_get m (lit k) = Some (JString t) \<Longrightarrow> take_text m k ctx = Inr (Some t, bm_remove (lit k) m)"
  by (simp add: take_text_def take_field_def)

lemma parse_label_doc [simp]: "parse_label (json_of (label_doc l)) ctx = Inr l"
  by (simp add: label_doc_def bm_of_list_def known_keys_ok require_field_there)

lemma parse_label_docs [simp]:
  "read_each (\<lambda>k v. parse_label v (element ctx k)) k (map (json_of \<circ> label_doc) ls) = Inr ls"
  by (induction ls arbitrary: k) simp_all

lemma states_differ: "\<not> eq_ignore_ascii_case (lit ''OPEN'') (lit ''CLOSED'')"
  by (simp add: eq_ignore_ascii_case_def lit_def)

lemma parse_issue_doc [simp]: "parse_issue (json_of (issue_doc i)) ctx fallback = Inr i"
proof -
  define m where "m = bm_of_list (case issue_doc i of DObject kds \<Rightarrow> map (\<lambda>(k, d). (k, json_of d)) kds | _ \<Rightarrow> [])"
  have json: "json_of (issue_doc i) = JObject m" by (simp add: m_def issue_doc_def)
  have keys: "reject_unknown_keys m [''number'', ''title'', ''body'', ''labels'', ''author'', ''state''] ctx = Inr ()"
    by (rule known_keys_ok) (simp add: m_def issue_doc_def keys_of_list)
  have get:
    "bm_get m (lit ''number'') = Some (json_of (number_doc (number i)))"
    "bm_get m (lit ''title'') = Some (JString (title i))"
    "bm_get m (lit ''body'') = Some (JString (body i))"
    "bm_get m (lit ''labels'') = Some (JArray (map (json_of \<circ> label_doc) (labels i)))"
    "bm_get m (lit ''author'') = Some (json_of (DObject [(lit ''login'', DString (author i))]))"
    "bm_get m (lit ''state'') = Some (JString (lit (if closed i then ''CLOSED'' else ''OPEN'')))"
    by (simp_all add: m_def issue_doc_def bm_get_of_list)
  have who: "parse_author (Some (json_of (DObject [(lit ''login'', DString (author i))]))) ctx' = Inr (author i)" for ctx'
    by (simp add: parse_author_def bm_of_list_def known_keys_ok take_text_there or_empty_def)
  show ?thesis
    unfolding parse_issue_def json
    by (cases "closed i")
       (simp_all add: keys get take_field_there take_text_there bm_get_remove into_number_doc who or_empty_def
         states_differ del: json_of.simps(6))
qed

lemma parse_issue_docs:
  "read_each (\<lambda>k v. parse_issue v (element ctx k) None) k (map (json_of \<circ> issue_doc) js) = Inr js"
  by (induction js arbitrary: k) simp_all

text \<open>A page of the tracker is read back whole: every issue with its number, texts, labels in their order,
  author and state, and the raw count that the pagination relies on.\<close>

theorem issue_page_reads_back:
  "parse_remote_issue_page_json (render escape_json_char (issue_page_doc p)) = Inr p"
proof -
  have "distinct_keys (issue_page_doc p)"
    by (auto simp: issue_page_doc_def issue_doc_def label_doc_def number_doc_def list_all_iff)
  then have "read_json (render escape_json_char (issue_page_doc p)) = Inr (json_of (issue_page_doc p))"
    by (simp add: read_json_def state_text.parse_json_render)
  then show ?thesis
    by (simp add: parse_remote_issue_page_json_def issue_page_of_def issue_page_doc_def known_keys_ok keys_of_list
        require_field_there bm_get_of_list bm_get_remove into_number_doc parse_remote_issues_def parse_issue_docs)
qed

end
