(* ===== verification/Intent_Lint.thy ===== *)
theory Intent_Lint
  imports Text_Search
begin

text \<open>
  The intent rules for issues (\<open>claim/mod.rs\<close> from \<open>lint_issue_intent\<close> on, \<open>claim/intent_scope.rs\<close>): which
  texts ask for something destructive, secret or unreviewed, and when a prohibition in the same clause
  takes that back. The code asks the standard library for Unicode letters and lower case in one place; the
  record \<open>unicode\<close> stands for these tables.
\<close>

record unicode =
  alphanumeric :: "uchar \<Rightarrow> bool"
  to_lowercase :: "ustr \<Rightarrow> ustr"

section \<open>Guardian skips and sections out of scope\<close>

definition RULE_IDS :: "string list" where
  "RULE_IDS = [''OUT_OF_SCOPE'', ''MISSING_TEST'', ''COMPLEXITY'', ''SECURITY'', ''TODO_LEFT'', ''MOCK_DB'',
     ''HALLUCINATED_API'', ''DUPLICATE_CODE'', ''STRING_MATCH_DOMAIN_LOGIC'', ''REPEATED_STRUCTURE_AS_CODE'',
     ''DOC_OUT_OF_SYNC'', ''INVENTED_CONFIG'', ''VACUOUS_GREP_INVERSE_OR_TRUE'', ''VACUOUS_OR_TRUE'',
     ''VACUOUS_TAUTOLOGY'', ''VACUOUS_AC_STUB'', ''VACUOUS_EMPTY_TEST'', ''VACUOUS_NO_ASSERT'',
     ''VACUOUS_EMPTY_LOOP'', ''ASSERTION_DENSITY'', ''REINVENT_REPO_UTIL'', ''NEW_DEP_UNJUSTIFIED'',
     ''NEW_ABSTRACTION_SINGLE_CALLER'']"

definition skip_rule :: "ustr \<Rightarrow> bool" where
  "skip_rule rule \<longleftrightarrow> \<not> list_ex is_whitespace rule
     \<and> (case strip_prefix (lit ''skip-'') rule of
          Some r \<Rightarrow> r \<in> set (map lit RULE_IDS)
        | None \<Rightarrow> False)"

fun skip_rules :: "ustr list \<Rightarrow> bool" where
  "skip_rules [] = True"
| "skip_rules (r # rs) = (skip_rule r \<and> list_all (\<lambda>r. skip_rule (trim_start r)) rs)"

definition starts_white :: "ustr \<Rightarrow> bool" where
  "starts_white s = (case s of [] \<Rightarrow> False | c # _ \<Rightarrow> is_whitespace c)"

definition guardian_skip_reason :: "ustr \<Rightarrow> ustr option" where
  "guardian_skip_reason line = (case strip_prefix (lit ''Guardian:'') line of
       None \<Rightarrow> None
     | Some tail \<Rightarrow>
         if \<not> starts_white tail then None
         else (case split_once_str [35] (trim_start tail) of
           None \<Rightarrow> None
         | Some (rules, reason) \<Rightarrow>
             if \<not> starts_white reason \<or> \<not> starts_white (rev rules) then None
             else if length (trim_start reason) < 2 then None
             else if skip_rules (split_char 44 (trim_end rules)) then Some (trim_start reason)
             else None))"

definition strip_guardian_skips :: "ustr \<Rightarrow> ustr" where
  "strip_guardian_skips body = join [10]
     (map (\<lambda>l. case guardian_skip_reason l of Some reason \<Rightarrow> reason | None \<Rightarrow> l) (str_lines body))"

fun in_scope_lines :: "bool \<Rightarrow> ustr list \<Rightarrow> ustr list" where
  "in_scope_lines excluded [] = []"
| "in_scope_lines excluded (l # ls) =
     (let excluded = (if starts_with_str (lit ''## '') (trim_start l)
            then eq_ignore_ascii_case (trim l) (lit ''## out of scope'') else excluded)
      in if \<not> excluded \<and> \<not> starts_with_str (lit ''out of scope:'') (trim_start l)
         then l # in_scope_lines excluded ls else in_scope_lines excluded ls)"

definition strip_out_of_scope_sections :: "ustr \<Rightarrow> ustr" where
  "strip_out_of_scope_sections body = join [10] (in_scope_lines False (str_lines body))"

section \<open>Prohibitions\<close>

definition NEGATION_CUES :: "string list" where
  "NEGATION_CUES = [''no'', ''not'', ''never'', ''cannot'', ''without'', ''avoid'', ''avoids'', ''prohibit'',
     ''prohibits'', ''prohibited'', ''forbid'', ''forbids'', ''forbidden'', ''prevent'', ''prevents'',
     ''refuse'', ''refuses'', ''reject'', ''rejects'', ''disallow'', ''disallows'']"

definition NON_PROHIBITIVE :: "(string \<times> string) list" where
  "NON_PROHIBITIVE = [(''not'', ''worry''), (''not'', ''hesitate''), (''not'', ''forget''), (''not'', ''mind''),
     (''not'', ''only''), (''not'', ''wait''), (''never'', ''mind''), (''no'', ''problem''), (''no'', ''need''),
     (''no'', ''questions''), (''no'', ''one''), (''no'', ''matter''), (''cannot'', ''wait''),
     (''without'', ''delay''), (''without'', ''hesitation''), (''without'', ''asking''),
     (''without'', ''question'')]"

definition NEGATION_WINDOW_WORDS :: nat where
  "NEGATION_WINDOW_WORDS = 5"

definition CANCELLING_VERBS :: "string list" where
  "CANCELLING_VERBS = [''fail'', ''omit'', ''decline'', ''stop'', ''neglect'']"

definition trim_matches :: "(uchar \<Rightarrow> bool) \<Rightarrow> ustr \<Rightarrow> ustr" where
  "trim_matches P s = rev (dropWhile P (rev (dropWhile P s)))"

text \<open>\<open>None\<close> is a boundary between clauses.\<close>

definition raw_tokens :: "unicode \<Rightarrow> ustr \<Rightarrow> ustr option list" where
  "raw_tokens u raw =
     (if raw = [10] \<or> raw = [45] then [None]
      else let word = map (\<lambda>c. if c = 0x2019 then 39 else c) (to_lowercase u
                 (trim_matches (\<lambda>c. \<not> (alphanumeric u c \<or> c = 39 \<or> c = 0x2019 \<or> c = 45)) raw));
               last_piece = rev (takeWhile (\<lambda>c. \<not> alphanumeric u c) (rev raw))
        in (if take 1 raw = [40] then [None] else [])
           @ (if word \<in> set (map lit [''but'', ''and'', ''so'', ''then'', ''yet'', ''however'', ''instead''])
              then [None] else if word \<noteq> [] then [Some word] else [])
           @ (if list_ex (\<lambda>c. c \<in> set (lit '',;:!?).'')) last_piece then [None] else []))"

definition negation_tokens :: "unicode \<Rightarrow> ustr \<Rightarrow> ustr option list" where
  "negation_tokens u text =
     (let spaced = concat (map (\<lambda>c. if c = 10 then [32, 10, 32] else [c])
            (concat (map (\<lambda>c. if c = 0x2014 \<or> c = 0x2013 then [32, 45, 32] else [c]) text)))
      in concat (map (raw_tokens u) (filter (\<lambda>t. t \<noteq> []) (split_char 32 spaced))))"

definition ends_nt :: "ustr \<Rightarrow> bool" where
  "ends_nt w \<longleftrightarrow> strip_suffix (lit [CHR ''n'', CHR 0x27, CHR ''t'']) w \<noteq> None"

definition is_negation_cue :: "ustr \<Rightarrow> bool" where
  "is_negation_cue w \<longleftrightarrow> w \<in> set (map lit NEGATION_CUES) \<or> ends_nt w \<and> 3 < length w"

definition idiom :: "ustr \<Rightarrow> ustr \<Rightarrow> bool" where
  "idiom w follower = list_ex (\<lambda>(cue, f). (lit cue = w \<or> ends_nt w \<and> cue = ''not'') \<and> lit f = follower) NON_PROHIBITIVE"

fun count_cues :: "ustr list \<Rightarrow> nat" where
  "count_cues [] = 0"
| "count_cues [w] = (if is_negation_cue w then 1 else 0)"
| "count_cues (w # f # ws) = (if is_negation_cue w \<and> \<not> idiom w f then 1 else 0) + count_cues (f # ws)"

fun count_cancels :: "ustr list \<Rightarrow> nat" where
  "count_cancels (w # f # ws) =
     (if is_negation_cue w \<and> f \<in> set (map lit CANCELLING_VERBS) then 1 else 0) + count_cancels (f # ws)"
| "count_cancels _ = 0"

definition directly_prohibited :: "unicode \<Rightarrow> ustr \<Rightarrow> nat \<Rightarrow> bool" where
  "directly_prohibited u line i =
     (let clause = rev (take NEGATION_WINDOW_WORDS
            (map the (takeWhile (\<lambda>t. t \<noteq> None) (rev (negation_tokens u (take i line))))))
      in odd (count_cues clause + count_cancels clause))"

section \<open>Blocking rules\<close>

definition contains_production_destruction :: "ustr \<Rightarrow> bool" where
  "contains_production_destruction text = list_ex (\<lambda>l. ordered_contains l (lit ''delete'') (lit ''production'')
     \<or> ordered_contains l (lit ''drop'') (lit ''prod'') \<and> ordered_contains l (lit ''prod'') (lit ''database''))
     (str_lines text)"

definition governed_pair :: "unicode \<Rightarrow> ustr \<Rightarrow> ustr \<Rightarrow> ustr \<Rightarrow> bool" where
  "governed_pair u line a b = list_ex (\<lambda>i. word_positions (drop (i + length a) line) b \<noteq> []
     \<and> \<not> directly_prohibited u line i) (word_positions line a)"

definition contains_secret_exfiltration :: "unicode \<Rightarrow> ustr \<Rightarrow> bool" where
  "contains_secret_exfiltration u text \<longleftrightarrow>
     list_ex (\<lambda>l. list_ex (\<lambda>verb. list_ex (\<lambda>noun. governed_pair u l (lit verb) (lit noun)) [''secret'', ''secrets''])
       [''dump'', ''print'', ''exfiltrate'', ''send'']) (str_lines text)
     \<or> contains_any text (map lit [''aws token'', ''github token'', ''stripe token''])"

definition CREDENTIAL_DISCLOSURE_VERBS :: "string list" where
  "CREDENTIAL_DISCLOSURE_VERBS = [''print'', ''prints'', ''printed'', ''printing'', ''dump'', ''dumps'', ''dumped'',
     ''dumping'', ''log'', ''logs'', ''logged'', ''logging'', ''write'', ''writes'', ''show'', ''shows'', ''showed'',
     ''showing'', ''shown'', ''expose'', ''exposes'', ''exposed'', ''send'', ''sends'', ''sending'']"

definition CREDENTIAL_DISCLOSURE_NOUNS :: "string list" where
  "CREDENTIAL_DISCLOSURE_NOUNS = [''credential'', ''credentials'', ''password'', ''passwords'', ''api key'',
     ''api keys'', ''api-key'', ''api-keys'', ''apikey'', ''apikeys'', ''private key'', ''private keys'',
     ''private-key'', ''private-keys'', ''privatekey'', ''privatekeys'', ''token'', ''tokens'']"

definition CREDENTIAL_DISCLOSURE_DESTINATIONS :: "string list" where
  "CREDENTIAL_DISCLOSURE_DESTINATIONS = [''to the log'', ''to the logs'', ''to log'', ''to logs'',
     ''to the console'', ''to console'', ''to the stdout'', ''to stdout'', ''in log'', ''in logs'']"

definition noun_first :: "unicode \<Rightarrow> ustr \<Rightarrow> ustr \<Rightarrow> ustr \<Rightarrow> bool" where
  "noun_first u line noun destination = (case ordered_pair_span line noun destination of
       None \<Rightarrow> False
     | Some (i, j) \<Rightarrow> \<not> directly_prohibited u line i \<and> \<not> directly_prohibited u line j)"

definition contains_credential_printing :: "unicode \<Rightarrow> ustr \<Rightarrow> bool" where
  "contains_credential_printing u text = list_ex (\<lambda>l.
     list_ex (\<lambda>verb. list_ex (\<lambda>noun. governed_pair u l (lit verb) (lit noun)) CREDENTIAL_DISCLOSURE_NOUNS)
       CREDENTIAL_DISCLOSURE_VERBS
     \<or> list_ex (\<lambda>noun. list_ex (\<lambda>d. noun_first u l (lit noun) (lit d)) CREDENTIAL_DISCLOSURE_DESTINATIONS)
       CREDENTIAL_DISCLOSURE_NOUNS) (str_lines text)"

definition contains_instruction_bypass :: "ustr \<Rightarrow> bool" where
  "contains_instruction_bypass text = list_ex (\<lambda>p. contains_str (lit p) text)
     [''ignore previous instructions'', ''ignore all previous instructions'', ''ignore system instructions'',
      ''ignore all system instructions'', ''ignore developer instructions'', ''ignore all developer instructions'',
      ''ignore agent instructions'', ''ignore all agent instructions'', ''bypass ci'', ''bypass tests'',
      ''bypass hooks'', ''bypass review'', ''bypass guardian'']"

text \<open>The clause before a position: behind the last semicolon or the last full stop with a space.\<close>

definition clause_before :: "ustr \<Rightarrow> nat \<Rightarrow> ustr" where
  "clause_before line i =
     (let before = take i line;
          a = (case rfind_str (lit '';'') before of Some j \<Rightarrow> j + 1 | None \<Rightarrow> 0);
          b = (case rfind_str (lit ''. '') before of Some j \<Rightarrow> j + 2 | None \<Rightarrow> 0)
      in drop (max a b) before)"

definition prohibition_precedes :: "ustr \<Rightarrow> nat \<Rightarrow> bool" where
  "prohibition_precedes line i = list_ex (\<lambda>cue. contains_str (lit cue) (clause_before line i))
     [''no '', ''not '', [CHR ''n'', CHR 0x27, CHR ''t''], ''never'', ''without'', ''cannot'', ''can not'', ''do not'',
      ''does not'', ''must not'', ''should not'', ''may not'', ''will not'', ''avoid '', ''prohibit'', ''forbid'',
      ''prevent'', ''refuse'', ''disallow'', ''keep every'', ''keep all'', ''leave every'', ''leave all'']"

definition failure_condition_governs :: "ustr \<Rightarrow> nat \<Rightarrow> bool" where
  "failure_condition_governs line i =
     (let clause = clause_before line i in
      case rfind_str (lit ''fail'') clause of
        None \<Rightarrow> False
      | Some j \<Rightarrow> list_ex (\<lambda>c. contains_str (lit c) (drop j clause)) [''when '', ''if '', ''unless '', ''without ''])"

definition bypass_pairs :: "ustr \<Rightarrow> (nat \<times> nat) list" where
  "bypass_pairs line =
     (let nouns = [''ci'', ''check'', ''test'', ''hook'', ''review'', ''guardian''];
          verbs = [''disable'', ''turn off'', ''remove'', ''skip''];
          later = [''disable'', ''disabled'', ''turn off'', ''turned off'', ''remove'', ''removed'', ''skip'', ''skipped'',
            ''bypass'', ''bypassed'', ''ignore'', ''ignored'', ''suppress'', ''suppressed'']
      in concat (map (\<lambda>verb. List.map_filter (\<lambda>noun. ordered_pair_span line (lit verb) (lit noun)) nouns) verbs)
         @ concat (map (\<lambda>noun. List.map_filter (\<lambda>verb. ordered_pair_span line (lit noun) (lit verb)) later) nouns))"

definition contains_ci_or_review_bypass :: "ustr \<Rightarrow> bool" where
  "contains_ci_or_review_bypass text = list_ex (\<lambda>l. list_ex (\<lambda>(i, j).
     \<not> prohibition_precedes l i \<and> \<not> failure_condition_governs l j) (bypass_pairs l)) (str_lines text)"

definition MAX_RISK_PAIR_GAP :: nat where
  "MAX_RISK_PAIR_GAP = 120"

definition near :: "nat \<Rightarrow> nat \<Rightarrow> nat \<Rightarrow> nat \<Rightarrow> bool" where
  "near start end i n \<longleftrightarrow> (if end \<le> i then i - end else start - min (i + n) start) \<le> MAX_RISK_PAIR_GAP"

definition risky_chunk :: "unicode \<Rightarrow> ustr \<Rightarrow> bool" where
  "risky_chunk u chunk = list_ex (\<lambda>action. list_ex (\<lambda>start.
       \<not> directly_prohibited u chunk start
       \<and> list_ex (\<lambda>subject. list_ex (\<lambda>i. near start (start + length action) i (length subject))
            (match_indices subject chunk)) (map lit [''auth'', ''login'', ''password'', ''token'', ''admin'']))
     (match_indices action chunk))
     (map lit [''backdoor'', ''back-door'', ''back door'', ''back'' @ [CHR 0x0A] @ ''door'', ''bypass''])"

definition contains_auth_backdoor :: "unicode \<Rightarrow> ustr \<Rightarrow> bool" where
  "contains_auth_backdoor u text \<longleftrightarrow>
     (let lines = str_lines text in list_ex (\<lambda>i. risky_chunk u (join [10] (take 3 (drop i lines)))) [0..<length lines])
     \<or> contains_any text (map lit [''magic token'', ''magic password'', ''magic login''])"

definition destructive_shell :: "ustr \<Rightarrow> bool" where
  "destructive_shell text \<longleftrightarrow> contains_str (lit ''rm -rf /'') text
     \<or> contains_str (lit ''curl'') text \<and> (contains_str (lit ''| sh'') text \<or> contains_str (lit ''| bash'') text)"

section \<open>Ambiguous rules\<close>

definition contains_vague_data_cleanup :: "ustr \<Rightarrow> bool" where
  "contains_vague_data_cleanup text = list_ex (\<lambda>p. contains_str (lit p) text)
     [''clean data'', ''clean old data'', ''clean bad data'', ''clean stale data'']"

definition contains_weakened_security :: "ustr \<Rightarrow> bool" where
  "contains_weakened_security text = list_ex (\<lambda>l. list_ex (\<lambda>verb. list_ex (\<lambda>noun.
     ordered_contains l (lit verb) (lit noun)) [''security'', ''auth'', ''audit'', ''logging''])
     [''relax'', ''disable'', ''remove'']) (str_lines text)"

definition INFRASTRUCTURE :: "string list" where
  "INFRASTRUCTURE = [''production'', ''prod'', ''billing'', ''payments'', ''terraform'', ''iam'', ''kms'']"

definition DEVELOPMENT_SCOPE :: "string list" where
  "DEVELOPMENT_SCOPE = [''local'', ''disposable'', ''development'', ''dev '', ''test'', ''fixture'', ''ephemeral'',
     ''in-memory'', ''temporary'', ''sandbox'']"

definition mentions_unscoped_migration :: "ustr \<Rightarrow> bool" where
  "mentions_unscoped_migration body =
     (let lines = str_lines body in list_ex (\<lambda>i. contains_any_word (lines ! i) [lit ''migration'']
        \<and> \<not> list_ex (\<lambda>l. contains_any l (map lit DEVELOPMENT_SCOPE)) (take (i + 2 - (i - 1)) (drop (i - 1) lines)))
        [0..<length lines])"

definition mentions_production_or_infra_touch :: "ustr \<Rightarrow> bool" where
  "mentions_production_or_infra_touch body \<longleftrightarrow>
     contains_any_word body (map lit INFRASTRUCTURE) \<or> mentions_unscoped_migration body"

section \<open>The lint\<close>

record finding =
  severity :: string
  rule_id :: string
  pattern_text :: string

record intent_lint =
  findings :: "finding list"
  blocking :: bool
  ambiguous :: bool
  trusted :: bool

definition add :: "bool \<Rightarrow> string \<Rightarrow> string \<Rightarrow> string \<Rightarrow> finding list" where
  "add found s r p = (if found then [\<lparr>severity = s, rule_id = r, pattern_text = p\<rparr>] else [])"

definition is_trusted_test_reset :: "ustr \<Rightarrow> ustr \<Rightarrow> ustr list \<Rightarrow> bool" where
  "is_trusted_test_reset text actor actors =
     (if actor \<notin> set actors then False
      else list_ex (\<lambda>verb.
             ordered_contains text (lit verb) (lit ''test'') \<and> ordered_contains text (lit ''test'') (lit ''database'')
             \<or> ordered_contains text (lit ''test database'') (lit verb)) [''delete'', ''reset'', ''repopulate'']
        \<and> contains_any text (map lit [''test'', ''local'', ''fixture'', ''dev''])
        \<and> (list_ex (\<lambda>l. ordered_contains l (lit ''production'') (lit ''out of scope'')) (str_lines text)
           \<or> contains_str (lit ''production, staging'') text))"

definition raw_findings :: "unicode \<Rightarrow> ustr \<Rightarrow> finding list" where
  "raw_findings u lower =
     add (contains_production_destruction lower) ''block'' ''production-data-destruction'' ''delete production''
     @ add (contains_secret_exfiltration u lower) ''block'' ''secret-exfiltration'' ''secret disclosure''
     @ add (contains_credential_printing u lower) ''block'' ''credential-printing'' ''credential disclosure''
     @ add (contains_instruction_bypass lower) ''block'' ''instruction-bypass'' ''instruction or policy bypass''
     @ add (contains_ci_or_review_bypass lower) ''block'' ''ci-or-review-bypass'' ''CI or review bypass''
     @ add (contains_auth_backdoor u lower) ''block'' ''auth-backdoor'' ''authentication backdoor or bypass''
     @ add (destructive_shell lower) ''block'' ''destructive-shell'' ''destructive shell execution''
     @ add (contains_vague_data_cleanup lower) ''ambiguous'' ''vague-data-cleanup'' ''ambiguous data cleanup''
     @ add (contains_weakened_security lower) ''ambiguous'' ''weaken-security-control'' ''weakened security control''
     @ add (mentions_production_or_infra_touch (strip_out_of_scope_sections lower))
         ''ambiguous'' ''production-or-infra-touch'' ''production or infrastructure touch''"

definition has_severity :: "string \<Rightarrow> finding list \<Rightarrow> bool" where
  "has_severity s fs = list_ex (\<lambda>f. severity f = s) fs"

definition lint_issue_intent_with_trusted_actors :: "unicode \<Rightarrow> ustr \<Rightarrow> ustr \<Rightarrow> ustr \<Rightarrow> ustr list \<Rightarrow> intent_lint" where
  "lint_issue_intent_with_trusted_actors u title body actor actors =
     (let lower = ascii_lower (title @ [10] @ strip_guardian_skips body);
          fs = raw_findings u lower;
          reset = is_trusted_test_reset lower actor actors;
          fs = (if reset \<and> \<not> has_severity ''block'' fs
            then filter (\<lambda>f. rule_id f \<noteq> ''vague-data-cleanup'' \<and> rule_id f \<noteq> ''production-or-infra-touch'') fs
              @ [\<lparr>severity = ''info'', rule_id = ''trusted:test_data_reset'', pattern_text = ''configured trusted actor''\<rparr>]
            else fs)
      in \<lparr>findings = fs, blocking = has_severity ''block'' fs, ambiguous = has_severity ''ambiguous'' fs,
          trusted = reset \<and> list_ex (\<lambda>f. rule_id f = ''trusted:test_data_reset'') fs\<rparr>)"

definition lint_issue_intent :: "unicode \<Rightarrow> ustr \<Rightarrow> ustr \<Rightarrow> ustr \<Rightarrow> intent_lint" where
  "lint_issue_intent u title body actor = lint_issue_intent_with_trusted_actors u title body actor [lit ''berlinguyinca'']"

definition body_intent_is_clean :: "unicode \<Rightarrow> ustr \<Rightarrow> ustr \<Rightarrow> ustr \<Rightarrow> bool" where
  "body_intent_is_clean u title body actor \<longleftrightarrow>
     \<not> blocking (lint_issue_intent u title body actor) \<and> \<not> ambiguous (lint_issue_intent u title body actor)"

end
