(* ===== verification/Safety_Review.thy ===== *)
theory Safety_Review
  imports Intent_Lint Ready_Queue Claim
begin

text \<open>
  The claim safety policy (\<open>claim/mod.rs\<close>): the verdict of a review, the section of an issue body that records
  it, and the decision whether an issue may be claimed, which reads the section back and lints the rest.
\<close>

definition SAFETY_BEGIN_MARKER :: ustr where
  "SAFETY_BEGIN_MARKER = lit ''<!-- autospec-safety:begin -->''"

definition SAFETY_END_MARKER :: ustr where
  "SAFETY_END_MARKER = lit ''<!-- autospec-safety:end -->''"

section \<open>Issue snapshots\<close>

definition parse_claim_issue :: "ustr \<Rightarrow> ustr + safety_input" where
  "parse_claim_issue input =
     (let ctx = lit ''GitHub claim issue'' in
      and_then (read_json input) (\<lambda>v.
      and_then (into_object v ctx) (\<lambda>m.
      and_then (require_claim_keys m [''labels'', ''title'', ''body'', ''author'']) (\<lambda>_.
      and_then (take_required_key m ''labels'') (\<lambda>(v, m).
      and_then (into_array v (lit ''GitHub claim issue labels'')) (\<lambda>vs.
      and_then (read_each (\<lambda>k v. into_string v (indexed ''GitHub claim issue labels'' k)) 0 vs) (\<lambda>ls.
      and_then (take_claim_string m ''title'' ctx) (\<lambda>(t, m).
      and_then (take_claim_string m ''body'' ctx) (\<lambda>(b, m).
      and_then (take_claim_string m ''author'' ctx) (\<lambda>(a, m).
      Inr \<lparr>safety_labels = ls, safety_title = (case t of Some s \<Rightarrow> s | None \<Rightarrow> []),
           safety_body = (case b of Some s \<Rightarrow> s | None \<Rightarrow> []),
           safety_author = (case a of Some s \<Rightarrow> s | None \<Rightarrow> [])\<rparr>))))))))))"

section \<open>The verdict\<close>

datatype review_decision = ReviewPass | ReviewAmbiguous | ReviewBlock

fun decision_token :: "review_decision \<Rightarrow> string" where
  "decision_token ReviewPass = ''SAFETY_PASS''"
| "decision_token ReviewAmbiguous = ''SAFETY_AMBIGUOUS''"
| "decision_token ReviewBlock = ''SAFETY_BLOCK''"

record review_verdict =
  verdict_decision :: review_decision
  verdict_findings :: "finding list"

definition review_issue_safety_with_trusted_actors :: "unicode \<Rightarrow> safety_input \<Rightarrow> ustr list \<Rightarrow> review_verdict" where
  "review_issue_safety_with_trusted_actors u inp actors =
     (let l = lint_issue_intent_with_trusted_actors u (safety_title inp) (safety_body inp) (safety_author inp) actors
      in \<lparr>verdict_decision = (if blocking l then ReviewBlock else if ambiguous l then ReviewAmbiguous else ReviewPass),
          verdict_findings = findings l\<rparr>)"

definition review_issue_safety :: "unicode \<Rightarrow> safety_input \<Rightarrow> review_verdict" where
  "review_issue_safety u inp = review_issue_safety_with_trusted_actors u inp [lit ''berlinguyinca'']"

section \<open>Writing the section\<close>

datatype section_error = MalformedExistingSection | DuplicateExistingSection

fun section_error_text :: "section_error \<Rightarrow> string" where
  "section_error_text MalformedExistingSection = ''malformed_existing_safety_review''"
| "section_error_text DuplicateExistingSection = ''duplicate_existing_safety_review''"

definition safety_heading :: ustr where
  "safety_heading = lit ''## Safety review''"

definition decision_line :: "review_decision \<Rightarrow> ustr" where
  "decision_line d = lit ''- **decision:** `'' @ lit (decision_token d) @ lit ''`''"

definition render_safety_review_section :: "review_decision \<Rightarrow> ustr" where
  "render_safety_review_section d =
     safety_heading @ [10, 10] @ SAFETY_BEGIN_MARKER @ [10] @ decision_line d @ [10] @ SAFETY_END_MARKER"

text \<open>Lines with the offset at which they start.\<close>

fun with_offset :: "nat \<Rightarrow> ustr list \<Rightarrow> (nat \<times> ustr) list" where
  "with_offset k [] = []"
| "with_offset k (l # ls) = (k, l) # with_offset (k + length l) ls"

definition safety_review_heading_positions :: "ustr \<Rightarrow> nat list" where
  "safety_review_heading_positions doc = map fst (filter (\<lambda>(k, l). trim (trim_end_of [10] l) = safety_heading)
     (with_offset 0 (split_inclusive 10 doc)))"

definition next_markdown_heading_offset :: "ustr \<Rightarrow> nat option" where
  "next_markdown_heading_offset doc = map_option fst (find (\<lambda>(k, l). starts_with_str (lit ''## '') l)
     (with_offset 0 (split_inclusive 10 doc)))"

definition next_section :: "ustr \<Rightarrow> ustr" where
  "next_section rest = (case next_markdown_heading_offset rest of Some k \<Rightarrow> take k rest | None \<Rightarrow> rest)"

definition count_of :: "ustr \<Rightarrow> ustr \<Rightarrow> nat" where
  "count_of pat doc = length (match_indices pat doc)"

text \<open>The two \<open>expect\<close>s of the code are the last case, which the counts rule out.\<close>

definition canonical_safety_review_bounds :: "ustr \<Rightarrow> section_error + (nat \<times> nat) option" where
  "canonical_safety_review_bounds doc =
     (let hs = safety_review_heading_positions doc;
          begins = count_of SAFETY_BEGIN_MARKER doc; ends = count_of SAFETY_END_MARKER doc in
      if hs = [] \<and> begins = 0 \<and> ends = 0 then Inr None
      else if 1 < length hs \<or> 1 < begins \<or> 1 < ends then Inl DuplicateExistingSection
      else if length hs \<noteq> 1 \<or> begins \<noteq> 1 \<or> ends \<noteq> 1 then Inl MalformedExistingSection
      else (case (find_str SAFETY_BEGIN_MARKER doc, find_str SAFETY_END_MARKER doc) of
        (Some b, Some e) \<Rightarrow>
          if b \<le> hd hs \<or> e \<le> b then Inl MalformedExistingSection
          else let stop = e + length SAFETY_END_MARKER; written = drop (hd hs) (take stop doc);
                   after = next_section (drop stop doc)
            in if \<not> list_ex (\<lambda>d. written = render_safety_review_section d) [ReviewPass, ReviewAmbiguous, ReviewBlock]
               then Inl MalformedExistingSection
               else if \<not> blank after then Inl MalformedExistingSection
               else Inr (Some (hd hs, stop))
      | _ \<Rightarrow> Inl MalformedExistingSection))"

definition replace_safety_review_section :: "ustr \<Rightarrow> review_decision \<Rightarrow> section_error + ustr" where
  "replace_safety_review_section doc d =
     (let replacement = render_safety_review_section d in
      map_ok (\<lambda>bounds. case bounds of
          Some (start, stop) \<Rightarrow> take start doc @ replacement @ drop stop doc
        | None \<Rightarrow> if blank doc then replacement @ [10] else trim_end doc @ [10, 10] @ replacement @ [10])
        (canonical_safety_review_bounds doc))"

section \<open>Reading the section\<close>

definition safety_heading_at :: "nat \<Rightarrow> ustr \<Rightarrow> nat \<Rightarrow> (nat \<times> nat) option" where
  "safety_heading_at k text n = (if trim text = safety_heading then Some (k, k + n) else None)"

fun last_heading :: "(nat \<times> nat) option \<Rightarrow> (nat \<times> ustr) list \<Rightarrow> (nat \<times> nat) option" where
  "last_heading h [] = h"
| "last_heading h ((k, l) # ls) =
     (let text = trim_end_of [13, 10] l in
      last_heading (if starts_with_str (lit ''## '') text then safety_heading_at k text (length l) else h) ls)"

definition last_safety_heading :: "ustr \<Rightarrow> (nat \<times> nat) option" where
  "last_safety_heading prefix =
     (let h = last_heading None (with_offset 0 (split_inclusive 10 prefix)) in
      if take 1 (rev prefix) = [10] then h
      else let start = (case rfind_str [10] prefix of Some k \<Rightarrow> k + 1 | None \<Rightarrow> 0); final = drop start prefix in
        if starts_with_str (lit ''## '') final then safety_heading_at start final (length final) else h)"

definition review_line :: "ustr \<Rightarrow> bool" where
  "review_line l = list_ex (\<lambda>p. starts_with_str (lit p) l)
     [''- **decision:**'', ''- **actor:**'', ''- **reviewer:**'', ''- **semantic-reviewer:**'']"

definition review_actor :: "ustr \<Rightarrow> ustr option" where
  "review_actor l = (case List.map_filter (\<lambda>p. case strip_prefix (lit p) l of
         None \<Rightarrow> None | Some v \<Rightarrow> strip_suffix (lit ''`'') v)
       [''- **actor:** `'', ''- **reviewer:** `'', ''- **semantic-reviewer:** `''] of
     [] \<Rightarrow> None | a # _ \<Rightarrow> Some a)"

definition review_block :: "ustr \<Rightarrow> string + ustr option" where
  "review_block block =
     (let ls = filter (\<lambda>l. l \<noteq> []) (map trim (str_lines block));
          decisions = filter (starts_with_str (lit ''- **decision:**'')) ls;
          actors = List.map_filter review_actor ls in
      if list_ex (\<lambda>l. \<not> review_line l) ls then Inl ''unexpected_safety_block_content''
      else if length decisions \<noteq> 1 then Inl ''missing_safety_pass''
      else if hd decisions \<noteq> lit ''- **decision:** `SAFETY_PASS`'' then Inl ''non_pass_safety_decision''
      else if length ls \<noteq> 1 + length actors \<or> 1 < length actors then Inl ''unexpected_safety_block_content''
      else Inr (case actors of [] \<Rightarrow> None | a # _ \<Rightarrow> Some a))"

definition reviewed_body_without_safety_section :: "ustr \<Rightarrow> string + ustr \<times> ustr option" where
  "reviewed_body_without_safety_section doc =
     (let begins = count_of SAFETY_BEGIN_MARKER doc; ends = count_of SAFETY_END_MARKER doc in
      if begins = 0 \<and> ends = 0
      then (if last_safety_heading doc = None then Inr (doc, None) else Inl ''invalid_safety_markers'')
      else if begins \<noteq> 1 \<or> ends \<noteq> 1 then Inl ''invalid_safety_markers''
      else (case (find_str SAFETY_BEGIN_MARKER doc, find_str SAFETY_END_MARKER doc) of
        (Some b, Some e) \<Rightarrow>
          if e \<le> b then Inl ''invalid_safety_markers''
          else (case last_safety_heading (take b doc) of
            None \<Rightarrow> Inl ''missing_safety_review_heading''
          | Some (start, stop) \<Rightarrow>
              if list_ex (\<lambda>l. \<not> blank l) (str_lines (drop stop (take b doc)))
              then Inl ''unexpected_safety_review_preamble''
              else map_ok (\<lambda>actor. (take start doc @ drop (e + length SAFETY_END_MARKER) doc, actor))
                (review_block (drop (b + length SAFETY_BEGIN_MARKER) (take e doc))))
      | _ \<Rightarrow> Inl ''invalid_safety_markers''))"

section \<open>The decision\<close>

definition reject :: "string \<Rightarrow> safety_decision" where
  "reject why = \<lparr>allowed = False, safety_reason = lit why\<rparr>"

definition evaluate_claim_safety_with_trusted_actors :: "unicode \<Rightarrow> safety_input \<Rightarrow> ustr list \<Rightarrow> safety_decision" where
  "evaluate_claim_safety_with_trusted_actors u inp actors =
     (if lit ''security:quarantined'' \<in> set (safety_labels inp) then reject ''security_quarantined''
      else if lit ''autospec:needs-human'' \<in> set (safety_labels inp) then reject ''autospec_needs_human''
      else if lit ''safety:reviewed'' \<notin> set (safety_labels inp) then reject ''missing_safety_reviewed''
      else (case reviewed_body_without_safety_section (safety_body inp) of
        Inl why \<Rightarrow> reject why
      | Inr (doc, actor) \<Rightarrow>
          let scan = safety_title inp @ [10] @ strip_guardian_skips doc;
              l = lint_issue_intent_with_trusted_actors u [] scan (safety_author inp) actors in
          if blocking l then reject ''current_body_safety_block''
          else if ambiguous l \<and> (case actor of Some a \<Rightarrow> a \<notin> set actors | None \<Rightarrow> True)
          then reject ''current_body_safety_ambiguous''
          else \<lparr>allowed = True, safety_reason = lit ''pass''\<rparr>))"

definition evaluate_claim_safety :: "unicode \<Rightarrow> safety_input \<Rightarrow> safety_decision" where
  "evaluate_claim_safety u inp = evaluate_claim_safety_with_trusted_actors u inp [lit ''berlinguyinca'']"

end
