(* ===== verification/Safety_Section.thy ===== *)
theory Safety_Section
  imports Safety_Review
begin

text \<open>
  The section of a safety review, written and read back: where a text splits around its section, that a second
  review replaces the first in place, and what the claim reads from it.
\<close>

section \<open>Lines and their offsets\<close>

definition line_end :: "ustr \<Rightarrow> bool" where
  "line_end s \<longleftrightarrow> (if s = [] then True else last s = 10)"

lemma line_end_cases: "line_end s \<Longrightarrow> (s = [] \<Longrightarrow> P) \<Longrightarrow> (\<And>t. s = t @ [10] \<Longrightarrow> P) \<Longrightarrow> P"
  by (cases s rule: rev_cases) (auto simp: line_end_def)

lemma split_inclusive_Nil [simp]: "split_inclusive c s = [] \<longleftrightarrow> s = []"
  by (cases s) (auto split: list.splits)

lemma split_inclusive_snoc: "split_inclusive c (a @ c # b) = split_inclusive c (a @ [c]) @ split_inclusive c b"
proof (induction a)
  case (Cons x a)
  then show ?case by (cases "split_inclusive c (a @ [c])") simp_all
qed simp

lemma split_inclusive_append: "line_end a \<Longrightarrow> split_inclusive 10 (a @ b) = split_inclusive 10 a @ split_inclusive 10 b"
  by (erule line_end_cases, simp) (use split_inclusive_snoc [of 10 _ b] in simp)

lemma concat_split_inclusive: "concat (split_inclusive c s) = s"
  by (induction c s rule: split_inclusive.induct) (auto split: list.splits)

lemma split_inclusive_one: "c \<notin> set s \<Longrightarrow> split_inclusive c (s @ [c]) = [s @ [c]]"
  by (induction s) auto

lemma with_offset_append:
  "with_offset k (xs @ ys) = with_offset k xs @ with_offset (k + length (concat xs)) ys"
  by (induction xs arbitrary: k) (simp_all add: add.assoc)

lemma with_offset_shift: "with_offset (k + n) ls = map (\<lambda>(i, l). (i + n, l)) (with_offset k ls)"
proof (induction ls arbitrary: k)
  case (Cons l ls)
  have "with_offset (k + length l + n) ls = map (\<lambda>(i, l). (i + n, l)) (with_offset (k + length l) ls)"
    by (rule Cons.IH)
  then show ?case by (simp add: add.assoc add.commute [of n])
qed simp

lemma offsets_append:
  "line_end a \<Longrightarrow> with_offset 0 (split_inclusive 10 (a @ b))
    = with_offset 0 (split_inclusive 10 a) @ map (\<lambda>(i, l). (i + length a, l)) (with_offset 0 (split_inclusive 10 b))"
  by (simp add: split_inclusive_append with_offset_append concat_split_inclusive
      with_offset_shift [of 0 "length a", simplified])

text \<open>A line starts where the lines before it end.\<close>

lemma offset_take:
  "(k, l) \<in> set (with_offset n (split_inclusive 10 s)) \<Longrightarrow> n \<le> k \<and> line_end (take (k - n) s)"
proof (induction "length s" arbitrary: s n rule: less_induct)
  case less
  show ?case
  proof (cases "10 \<in> set s")
    case True
    then obtain a b where s: "s = a @ 10 # b" and a: "10 \<notin> set a" by (metis split_list_first)
    have "split_inclusive 10 s = (a @ [10]) # split_inclusive 10 b"
      by (simp add: s split_inclusive_snoc [of 10 a b] split_inclusive_one [OF a])
    then consider "k = n" | "(k, l) \<in> set (with_offset (n + length (a @ [10])) (split_inclusive 10 b))"
      using less.prems by auto
    then show ?thesis
    proof cases
      case 1
      then show ?thesis by (simp add: line_end_def)
    next
      case 2
      have "length b < length s" by (simp add: s)
      from less.hyps [OF this 2]
      have k: "n + length (a @ [10]) \<le> k" and b: "line_end (take (k - (n + length (a @ [10]))) b)" by blast+
      have "take (k - n) s = (a @ [10]) @ take (k - (n + length (a @ [10]))) b"
        using k by (simp add: s) (metis Suc_diff_Suc Suc_le_eq diff_diff_left add_Suc_right take_Suc_Cons le_add_diff_inverse)
      then show ?thesis using k b by (auto simp: line_end_def)
    qed
  next
    case False
    then have "split_inclusive 10 s = (if s = [] then [] else [s])" by (induction s) auto
    then show ?thesis using less.prems by (auto simp: line_end_def split: if_splits)
  qed
qed

section \<open>Headings\<close>

abbreviation heads :: "ustr \<Rightarrow> nat list" where
  "heads \<equiv> safety_review_heading_positions"

lemma heads_append: "line_end a \<Longrightarrow> heads (a @ b) = heads a @ map ((+) (length a)) (heads b)"
  by (simp add: safety_review_heading_positions_def offsets_append filter_map comp_def case_prod_unfold add.commute)

lemma heads_line:
  assumes "10 \<notin> set l"
  shows "heads (l @ 10 # b) = (if trim (trim_end_of [10] (l @ [10])) = safety_heading then [0] else [])
      @ map ((+) (Suc (length l))) (heads b)"
proof -
  have "heads (l @ [10]) = (if trim (trim_end_of [10] (l @ [10])) = safety_heading then [0] else [])"
    by (simp add: safety_review_heading_positions_def split_inclusive_one [OF assms])
  then show ?thesis using heads_append [of "l @ [10]" b] by (simp add: line_end_def)
qed

lemma head_take: "k \<in> set (heads s) \<Longrightarrow> line_end (take k s)"
  using offset_take [of k _ 0 s] by (auto simp: safety_review_heading_positions_def)

section \<open>A written section\<close>

lemma marker_facts:
  "10 \<notin> set SAFETY_BEGIN_MARKER" "10 \<notin> set SAFETY_END_MARKER" "10 \<notin> set safety_heading" "10 \<notin> set (decision_line d)"
  "SAFETY_BEGIN_MARKER \<noteq> []" "SAFETY_END_MARKER \<noteq> []"
  by (cases d; simp add: SAFETY_BEGIN_MARKER_def SAFETY_END_MARKER_def safety_heading_def decision_line_def lit_def)+

lemma render_split: "render_safety_review_section d @ post = safety_heading @ 10 # 10 # SAFETY_BEGIN_MARKER
    @ 10 # decision_line d @ 10 # SAFETY_END_MARKER @ post"
  by (simp add: render_safety_review_section_def)

lemma heads_render:
  "heads (render_safety_review_section d @ post) = 0 # map ((+) (Suc (Suc (length safety_heading))
      + Suc (length SAFETY_BEGIN_MARKER) + Suc (length (decision_line d)))) (heads (SAFETY_END_MARKER @ post))"
proof -
  have t: "trim (trim_end_of [10] (safety_heading @ [10])) = safety_heading"
    "trim (trim_end_of [10] ([] @ [10])) \<noteq> safety_heading"
    "trim (trim_end_of [10] (SAFETY_BEGIN_MARKER @ [10])) \<noteq> safety_heading"
    "trim (trim_end_of [10] (decision_line d @ [10])) \<noteq> safety_heading"
    by (cases d; simp add: text_eval SAFETY_BEGIN_MARKER_def safety_heading_def decision_line_def)+
  have h: "heads (safety_heading @ 10 # x) = 0 # map ((+) (Suc (length safety_heading))) (heads x)"
    "heads (10 # x) = map Suc (heads x)"
    "heads (SAFETY_BEGIN_MARKER @ 10 # x) = map ((+) (Suc (length SAFETY_BEGIN_MARKER))) (heads x)"
    "heads (decision_line d @ 10 # x) = map ((+) (Suc (length (decision_line d)))) (heads x)" for x
    using heads_line [OF marker_facts(3), of x] heads_line [of "[]" x] heads_line [OF marker_facts(1), of x]
      heads_line [OF marker_facts(4), of d x] t by (simp_all add: plus_1_eq_Suc [abs_def])
  show ?thesis unfolding render_split by (simp only: h) (simp add: comp_def add.assoc)
qed

lemma count_of_eq: "count_of = count_matches 0"
  by (intro ext) (simp add: count_of_def match_indices_def length_match_indices)

lemma count_line:
  assumes "10 \<notin> set p" "p \<noteq> []"
  shows "count_matches 0 p (l @ 10 # b) = count_matches 0 p (l @ [10]) + count_matches 0 p b"
  using count_append [OF apart_newline [OF assms(1), of l b] _ assms(2), of 0] by simp

lemma count_after:
  assumes "line_end a" "10 \<notin> set p" "p \<noteq> []"
  shows "count_matches 0 p (a @ b) = count_matches 0 p a + count_matches 0 p b"
  using assms(1) by (rule line_end_cases) (use count_line [OF assms(2,3), of _ b] in simp_all)

lemma count_render:
  "count_matches 0 SAFETY_BEGIN_MARKER (render_safety_review_section d @ post)
    = Suc (count_matches 0 SAFETY_BEGIN_MARKER (SAFETY_END_MARKER @ post))"
  "count_matches 0 SAFETY_END_MARKER (render_safety_review_section d @ post)
    = count_matches 0 SAFETY_END_MARKER (SAFETY_END_MARKER @ post)"
proof -
  have c: "count_matches 0 SAFETY_BEGIN_MARKER (safety_heading @ [10]) = 0"
    "count_matches 0 SAFETY_BEGIN_MARKER ([] @ [10]) = 0"
    "count_matches 0 SAFETY_BEGIN_MARKER (SAFETY_BEGIN_MARKER @ [10]) = 1"
    "count_matches 0 SAFETY_BEGIN_MARKER (decision_line d @ [10]) = 0"
    "count_matches 0 SAFETY_END_MARKER (safety_heading @ [10]) = 0"
    "count_matches 0 SAFETY_END_MARKER ([] @ [10]) = 0"
    "count_matches 0 SAFETY_END_MARKER (SAFETY_BEGIN_MARKER @ [10]) = 0"
    "count_matches 0 SAFETY_END_MARKER (decision_line d @ [10]) = 0"
    by (cases d; simp add: text_eval SAFETY_BEGIN_MARKER_def SAFETY_END_MARKER_def safety_heading_def decision_line_def)+
  note b = count_line [OF marker_facts(1,5)] and e = count_line [OF marker_facts(2,6)]
  have h: "count_matches 0 SAFETY_BEGIN_MARKER (safety_heading @ 10 # x) = count_matches 0 SAFETY_BEGIN_MARKER x"
    "count_matches 0 SAFETY_BEGIN_MARKER (10 # x) = count_matches 0 SAFETY_BEGIN_MARKER x"
    "count_matches 0 SAFETY_BEGIN_MARKER (SAFETY_BEGIN_MARKER @ 10 # x) = Suc (count_matches 0 SAFETY_BEGIN_MARKER x)"
    "count_matches 0 SAFETY_BEGIN_MARKER (decision_line d @ 10 # x) = count_matches 0 SAFETY_BEGIN_MARKER x"
    "count_matches 0 SAFETY_END_MARKER (safety_heading @ 10 # x) = count_matches 0 SAFETY_END_MARKER x"
    "count_matches 0 SAFETY_END_MARKER (10 # x) = count_matches 0 SAFETY_END_MARKER x"
    "count_matches 0 SAFETY_END_MARKER (SAFETY_BEGIN_MARKER @ 10 # x) = count_matches 0 SAFETY_END_MARKER x"
    "count_matches 0 SAFETY_END_MARKER (decision_line d @ 10 # x) = count_matches 0 SAFETY_END_MARKER x" for x
    using b [of safety_heading x] b [of "[]" x] b [of SAFETY_BEGIN_MARKER x] b [of "decision_line d" x]
      e [of safety_heading x] e [of "[]" x] e [of SAFETY_BEGIN_MARKER x] e [of "decision_line d" x] c
    by (simp_all only: append_Nil add_0 plus_1_eq_Suc)
  show "count_matches 0 SAFETY_BEGIN_MARKER (render_safety_review_section d @ post)
      = Suc (count_matches 0 SAFETY_BEGIN_MARKER (SAFETY_END_MARKER @ post))"
    "count_matches 0 SAFETY_END_MARKER (render_safety_review_section d @ post)
      = count_matches 0 SAFETY_END_MARKER (SAFETY_END_MARKER @ post)"
    unfolding render_split by (simp_all only: h)
qed

text \<open>Where the markers of a section stand in a text that holds it once.\<close>

definition section_start :: "review_decision \<Rightarrow> ustr" where
  "section_start d = safety_heading @ 10 # 10 # SAFETY_BEGIN_MARKER @ 10 # decision_line d @ [10]"

lemma render_start: "render_safety_review_section d = section_start d @ SAFETY_END_MARKER"
  by (simp add: render_safety_review_section_def section_start_def)

lemma line_end_snoc [simp]: "line_end (a @ [10])" "line_end []" "line_end (a @ [c, 10])"
  by (simp_all add: line_end_def)

lemma section_start_line: "line_end (a @ section_start d)"
  by (simp add: section_start_def line_end_def)

lemma find_after:
  assumes "line_end a" "10 \<notin> set p" "p \<noteq> []" "count_matches 0 p a = 0"
  shows "find_str p (a @ p @ b) = Some (length a)"
proof -
  have "apart p a (p @ b)" using assms(1) by (rule line_end_cases) (simp_all add: apart_newline [OF assms(2)])
  moreover have "\<not> contains_str p a" using assms(3,4) by (simp add: count_zero_iff)
  ultimately show ?thesis using find_append [of p a "p @ b"] by simp
qed

definition before_section :: "ustr \<Rightarrow> bool" where
  "before_section pre \<longleftrightarrow> line_end pre \<and> heads pre = []
     \<and> count_matches 0 SAFETY_BEGIN_MARKER pre = 0 \<and> count_matches 0 SAFETY_END_MARKER pre = 0"

lemma find_begin:
  assumes "before_section pre"
  shows "find_str SAFETY_BEGIN_MARKER (pre @ render_safety_review_section d @ post)
    = Some (length pre + length safety_heading + 2)"
proof -
  have "count_matches 0 SAFETY_BEGIN_MARKER (safety_heading @ [10, 10]) = 0"
    by (simp add: text_eval SAFETY_BEGIN_MARKER_def safety_heading_def)
  then have "count_matches 0 SAFETY_BEGIN_MARKER (pre @ safety_heading @ [10, 10]) = 0"
    using assms count_after [of pre, OF _ marker_facts(1,5)] by (simp add: before_section_def)
  then show ?thesis
    using find_after [of "pre @ safety_heading @ [10, 10]", OF _ marker_facts(1,5),
        of "10 # decision_line d @ 10 # SAFETY_END_MARKER @ post"]
    by (simp add: render_split line_end_def)
qed

lemma find_end:
  assumes "before_section pre"
  shows "find_str SAFETY_END_MARKER (pre @ render_safety_review_section d @ post)
    = Some (length pre + length (section_start d))"
proof -
  have "count_matches 0 SAFETY_END_MARKER (section_start d @ SAFETY_END_MARKER @ [])
      = count_matches 0 SAFETY_END_MARKER (section_start d) + count_matches 0 SAFETY_END_MARKER (SAFETY_END_MARKER @ [])"
    using section_start_line [of "[]"] by (intro count_after marker_facts) simp
  then have "count_matches 0 SAFETY_END_MARKER (section_start d) = 0"
    using count_render(2) [of d "[]"] by (simp add: render_start)
  then have "count_matches 0 SAFETY_END_MARKER (pre @ section_start d) = 0"
    using assms count_after [of pre, OF _ marker_facts(2,6)] by (simp add: before_section_def)
  then show ?thesis
    using find_after [OF section_start_line marker_facts(2,6), of pre d post] by (simp add: render_start)
qed

section \<open>The section in a text\<close>

definition around_section :: "ustr \<Rightarrow> ustr \<Rightarrow> bool" where
  "around_section pre post \<longleftrightarrow> before_section pre \<and> heads (SAFETY_END_MARKER @ post) = []
     \<and> count_matches 0 SAFETY_BEGIN_MARKER (SAFETY_END_MARKER @ post) = 0
     \<and> count_matches 0 SAFETY_END_MARKER (SAFETY_END_MARKER @ post) = 1 \<and> blank (next_section post)"

lemma section_counts:
  assumes "line_end pre"
  shows "heads (pre @ render_safety_review_section d @ post) = heads pre @ length pre
      # map ((+) (length pre + length (section_start d))) (heads (SAFETY_END_MARKER @ post))"
    "count_matches 0 SAFETY_BEGIN_MARKER (pre @ render_safety_review_section d @ post)
      = count_matches 0 SAFETY_BEGIN_MARKER pre + Suc (count_matches 0 SAFETY_BEGIN_MARKER (SAFETY_END_MARKER @ post))"
    "count_matches 0 SAFETY_END_MARKER (pre @ render_safety_review_section d @ post)
      = count_matches 0 SAFETY_END_MARKER pre + count_matches 0 SAFETY_END_MARKER (SAFETY_END_MARKER @ post)"
proof -
  show "heads (pre @ render_safety_review_section d @ post) = heads pre @ length pre
      # map ((+) (length pre + length (section_start d))) (heads (SAFETY_END_MARKER @ post))"
    by (simp add: heads_append [OF assms] heads_render section_start_def comp_def add.assoc)
qed (simp_all add: count_after [OF assms] marker_facts count_render)

lemma bounds_around:
  assumes "around_section pre post"
  shows "canonical_safety_review_bounds (pre @ render_safety_review_section d @ post)
    = Inr (Some (length pre, length pre + length (render_safety_review_section d)))"
proof -
  have pre: "before_section pre" "line_end pre" and b: "blank (next_section post)"
    using assms by (simp_all add: around_section_def before_section_def)
  have c: "heads (pre @ render_safety_review_section d @ post) = [length pre]"
    "count_matches 0 SAFETY_BEGIN_MARKER (pre @ render_safety_review_section d @ post) = 1"
    "count_matches 0 SAFETY_END_MARKER (pre @ render_safety_review_section d @ post) = 1"
    using assms by (simp_all add: section_counts [OF pre(2)] around_section_def before_section_def)
  have len: "length (render_safety_review_section d) = length (section_start d) + length SAFETY_END_MARKER"
    "length safety_heading + 2 < length (section_start d)"
    by (simp_all add: render_start section_start_def)
  have parts: "drop (length pre) (take (length pre + (length (section_start d) + length SAFETY_END_MARKER))
      (pre @ render_safety_review_section d @ post)) = render_safety_review_section d"
    "drop (length pre + (length (section_start d) + length SAFETY_END_MARKER))
      (pre @ render_safety_review_section d @ post) = post"
    by (simp_all add: len(1))
  have w: "list_ex (\<lambda>e. render_safety_review_section d = render_safety_review_section e) [ReviewPass, ReviewAmbiguous, ReviewBlock]"
    by (cases d) simp_all
  show ?thesis
    unfolding canonical_safety_review_bounds_def Let_def count_of_eq c find_begin [OF pre(1)] find_end [OF pre(1)]
    using len w b by (simp add: add.assoc parts del: take_append drop_append)
qed

lemma bounds_split:
  assumes "canonical_safety_review_bounds doc = Inr (Some (s, t))"
  obtains pre d post where "doc = pre @ render_safety_review_section d @ post" "around_section pre post"
    "s = length pre" "t = length pre + length (render_safety_review_section d)"
proof -
  note fails = assms [unfolded canonical_safety_review_bounds_def Let_def count_of_eq]
  obtain b e where hs: "heads doc = [s]" and c: "count_matches 0 SAFETY_BEGIN_MARKER doc = 1"
      "count_matches 0 SAFETY_END_MARKER doc = 1"
    and e: "find_str SAFETY_END_MARKER doc = Some e"
    and w: "drop s (take t doc) \<in> render_safety_review_section ` {ReviewPass, ReviewAmbiguous, ReviewBlock}"
    and t: "t = e + length SAFETY_END_MARKER" "s < b" "b < e"
    and blank: "blank (next_section (drop t doc))"
    using fails by (auto split: if_splits option.splits simp: length_Suc_conv not_le)
  obtain d where d: "drop s (take t doc) = render_safety_review_section d" using w by blast
  have le: "s \<le> t" using t by simp
  then have "take t doc = take s doc @ drop s (take t doc)"
    by (metis append_take_drop_id min.absorb1 take_take)
  then have doc: "doc = take s doc @ render_safety_review_section d @ drop t doc"
    using d by (metis append_assoc append_take_drop_id)
  have "render_safety_review_section d \<noteq> []" by (simp add: render_start section_start_def)
  then have "s < length (take t doc)" using d by (metis drop_all not_le)
  then have s: "length (take s doc) = s" by simp
  have pre: "line_end (take s doc)" using head_take [of s doc] hs by simp
  note k = section_counts [OF pre, of d "drop t doc", folded doc, unfolded hs c s]
  have "around_section (take s doc) (drop t doc)"
  proof -
    have "contains_str SAFETY_END_MARKER (SAFETY_END_MARKER @ drop t doc)"
      unfolding contains_str_iff by (metis append_Nil)
    then have "count_matches 0 SAFETY_END_MARKER (SAFETY_END_MARKER @ drop t doc) \<noteq> 0"
      by (simp add: count_zero_iff marker_facts)
    moreover have "heads (take s doc) = []" "heads (SAFETY_END_MARKER @ drop t doc) = []"
      using arg_cong [OF k(1), of length] by simp_all
    ultimately show ?thesis using k(2,3) pre blank by (simp add: around_section_def before_section_def)
  qed
  moreover have "t = length (take s doc) + length (render_safety_review_section d)"
    using find_Some [OF e] t(1) le d s by (auto dest: arg_cong [of _ _ length])
  ultimately show ?thesis using that doc s by metis
qed

section \<open>A text without a section\<close>

lemma trim_end_split: "\<exists>w. s = trim_end s @ w \<and> list_all is_whitespace w"
proof -
  have "s = rev (dropWhile is_whitespace (rev s)) @ rev (takeWhile is_whitespace (rev s))"
    by (metis rev_append rev_rev_ident takeWhile_dropWhile_id)
  moreover have "list_all is_whitespace (rev (takeWhile is_whitespace (rev s)))"
    by (auto simp: list_all_iff dest: set_takeWhileD)
  ultimately show ?thesis unfolding trim_end_def by blast
qed

lemma trim_after:
  assumes "list_all is_whitespace w"
  shows "trim (l @ w) = trim l"
proof -
  have e: "trim_end (x @ w) = trim_end x" for x
    using assms by (simp add: trim_end_def dropWhile_append list_all_iff)
  show ?thesis
  proof (cases "list_all is_whitespace l")
    case True
    then have "blank (l @ w)" "blank l" using assms by (auto simp: blank_iff list_all_iff)
    then show ?thesis by (simp add: blank_def)
  next
    case False
    then have "trim_start (l @ w) = trim_start l @ w" by (auto simp: trim_start_def dropWhile_append list_all_iff)
    then show ?thesis by (simp add: trim_def e)
  qed
qed

lemma trim_newlines: "trim (trim_end_of [10] l) = trim l"
proof -
  have "l = trim_end_of [10] l @ rev (takeWhile (\<lambda>c. c = 10) (rev l))"
    unfolding trim_end_of_def by (simp flip: rev_append)
  moreover have "list_all is_whitespace (rev (takeWhile (\<lambda>c. c = 10) (rev l)))"
    by (auto simp: list_all_iff is_whitespace_def dest: set_takeWhileD)
  ultimately show ?thesis by (metis trim_after)
qed

lemma heads_one: "10 \<notin> set l \<Longrightarrow> heads l = (if trim l = safety_heading then [0] else [])"
proof -
  assume "10 \<notin> set l"
  then have "split_inclusive 10 l = (if l = [] then [] else [l])" by (induction l) auto
  then show ?thesis
    by (auto simp: safety_review_heading_positions_def trim_newlines)
       (simp add: trim_def trim_start_def trim_end_def safety_heading_def lit_def)
qed

lemma heads_Nil [simp]: "heads [] = []"
  by (simp add: safety_review_heading_positions_def)

lemma heads_first:
  assumes "10 \<notin> set l"
  shows "heads (l @ 10 # b) = (if trim l = safety_heading then [0] else []) @ map ((+) (Suc (length l))) (heads b)"
  using heads_line [OF assms, of b] trim_after [of "[10]" l] by (simp add: trim_newlines is_whitespace_def)

lemma last_line: "\<exists>a l. s = a @ l \<and> line_end a \<and> 10 \<notin> set l"
proof (cases "10 \<in> set s")
  case True
  then obtain a l where "s = a @ 10 # l" "10 \<notin> set l" by (metis split_list_last)
  then have "s = (a @ [10]) @ l \<and> line_end (a @ [10]) \<and> 10 \<notin> set l" by simp
  then show ?thesis by blast
qed (metis append_Nil line_end_snoc(2))

lemma heads_trimmed:
  assumes "heads doc = []"
  shows "heads (trim_end doc @ [10, 10]) = []"
proof -
  obtain w where doc: "doc = trim_end doc @ w" and w: "list_all is_whitespace w" using trim_end_split by blast
  obtain a l where t: "trim_end doc = a @ l" and a: "line_end a" and l: "10 \<notin> set l" using last_line by blast
  define u v where "u = takeWhile (\<lambda>c. c \<noteq> 10) w" and "v = dropWhile (\<lambda>c. c \<noteq> 10) w"
  have u: "w = u @ v" "10 \<notin> set (l @ u)" using l by (auto simp: u_def v_def dest: set_takeWhileD)
  have "heads a @ map ((+) (length a)) (heads (l @ w)) = []"
    using assms heads_append [OF a, of "l @ w"] doc t by (metis append_assoc)
  then have h: "heads a = []" "heads ((l @ u) @ v) = []" by (simp_all add: u)
  have "trim (l @ u) \<noteq> safety_heading"
  proof (cases v)
    case Nil
    then show ?thesis using h(2) heads_one [OF u(2)] by (auto split: if_splits)
  next
    case (Cons c v')
    then have "c = 10" using hd_dropWhile [of "\<lambda>c. c \<noteq> 10" w] by (simp add: v_def)
    then show ?thesis using h(2) heads_first [OF u(2), of v'] Cons by (auto split: if_splits)
  qed
  moreover have "trim (l @ u) = trim l" using trim_after w by (simp add: u)
  ultimately have "heads (l @ 10 # [] @ [10]) = []"
    using heads_first [OF l, of "[10]"] heads_first [of "[]" "[]"] by (simp add: heads_one trim_def trim_start_def
        trim_end_def safety_heading_def lit_def)
  then show ?thesis using heads_append [OF a, of "l @ [10, 10]"] h(1) by (simp add: t)
qed

lemma contains_trimmed:
  assumes "\<not> contains_str p doc" "10 \<notin> set p"
  shows "\<not> contains_str p (trim_end doc @ [10, 10])"
proof
  assume "contains_str p (trim_end doc @ [10, 10])"
  then obtain u v where uv: "trim_end doc @ [10, 10] = u @ p @ v" by (auto simp: contains_str_iff)
  have p: "p \<noteq> []" using assms(1) by (metis append_Nil contains_str_iff)
  then have p2: "last p \<noteq> 10" using assms(2) last_in_set by metis
  obtain v' where "trim_end doc = u @ p @ v'"
  proof (cases v rule: rev_cases)
    case Nil
    then have "last (trim_end doc @ [10, 10]) = last p" using uv p by simp
    then show ?thesis using p2 by simp
  next
    case (snoc v1 c)
    then have uv1: "trim_end doc @ [10] = u @ p @ v1" using uv by (metis append_assoc append_Cons append_Nil butlast_snoc)
    show ?thesis
    proof (cases v1 rule: rev_cases)
      case Nil
      then have "last (trim_end doc @ [10]) = last p" using uv1 p by simp
      then show ?thesis using p2 by simp
    next
      case (snoc v2 d)
      then have "trim_end doc = u @ p @ v2" using uv1 by (metis append_assoc butlast_snoc)
      then show ?thesis by (rule that)
    qed
  qed
  then show False using assms(1) trim_end_split [of doc] by (metis append_assoc contains_str_iff)
qed

lemma bounds_none:
  assumes "canonical_safety_review_bounds doc = Inr None"
  shows "around_section (if blank doc then [] else trim_end doc @ [10, 10]) [10]"
proof -
  note m = marker_facts
  have z: "heads doc = []" "\<not> contains_str SAFETY_BEGIN_MARKER doc" "\<not> contains_str SAFETY_END_MARKER doc"
    using assms by (auto simp: canonical_safety_review_bounds_def Let_def count_of_eq count_zero_iff m
        split: if_splits option.splits)
  then have "before_section (if blank doc then [] else trim_end doc @ [10, 10])"
    using contains_trimmed [OF z(2) m(1)] contains_trimmed [OF z(3) m(2)]
    by (simp add: before_section_def heads_trimmed count_zero_iff m)
  moreover have "heads (SAFETY_END_MARKER @ [10]) = []"
    using heads_line [OF m(2), of "[]"] by (simp add: text_eval SAFETY_END_MARKER_def safety_heading_def
        safety_review_heading_positions_def)
  moreover have "count_matches 0 SAFETY_BEGIN_MARKER (SAFETY_END_MARKER @ [10]) = 0"
    "count_matches 0 SAFETY_END_MARKER (SAFETY_END_MARKER @ [10]) = 1"
    by (simp_all add: text_eval SAFETY_BEGIN_MARKER_def SAFETY_END_MARKER_def)
  moreover have "blank (next_section [10])"
    by (simp add: next_section_def next_markdown_heading_offset_def blank_iff is_whitespace_def text_eval)
  ultimately show ?thesis by (simp add: around_section_def)
qed

section \<open>Reading the section back\<close>

lemma last_heading_append: "last_heading h (xs @ ys) = last_heading (last_heading h xs) ys"
  by (induction h xs rule: last_heading.induct) (simp_all add: Let_def)

lemma heading_found:
  assumes "line_end pre"
  shows "last_safety_heading (pre @ safety_heading @ [10, 10]) = Some (length pre, length pre + length safety_heading + 1)"
proof -
  have i: "split_inclusive 10 (safety_heading @ [10, 10]) = [safety_heading @ [10], [10]]"
    by (simp add: safety_heading_def lit_def)
  have f: "starts_with_str (lit ''## '') (trim_end_of [13, 10] (safety_heading @ [10]))"
    "trim (trim_end_of [13, 10] (safety_heading @ [10])) = safety_heading"
    "\<not> starts_with_str (lit ''## '') (trim_end_of [13, 10] [10])"
    by (simp_all add: text_eval safety_heading_def)
  have "with_offset 0 (split_inclusive 10 (pre @ safety_heading @ [10, 10]))
      = with_offset 0 (split_inclusive 10 pre)
        @ [(length pre, safety_heading @ [10]), (length pre + length (safety_heading @ [10]), [10])]"
    by (simp add: offsets_append [OF assms] i add.commute)
  then show ?thesis
    using f by (simp add: last_safety_heading_def last_heading_append Let_def safety_heading_at_def)
qed

lemma review_block_written:
  "review_block (10 # decision_line d @ [10])
    = (if d = ReviewPass then Inr None else Inl ''non_pass_safety_decision'')"
  by (cases d) (simp_all add: review_block_def decision_line_def text_eval review_line_def review_actor_def
      strip_suffix_def List.map_filter_simps)

lemma read_section:
  assumes "around_section pre post"
  shows "reviewed_body_without_safety_section (pre @ render_safety_review_section d @ post)
    = (if d = ReviewPass then Inr (pre @ post, None) else Inl ''non_pass_safety_decision'')"
proof -
  define doc b e where doc: "doc = pre @ render_safety_review_section d @ post"
    and b: "b = length pre + length safety_heading + 2" and e: "e = length pre + length (section_start d)"
  have pre: "before_section pre" "line_end pre"
    using assms by (simp_all add: around_section_def before_section_def)
  have c: "count_matches 0 SAFETY_BEGIN_MARKER doc = 1" "count_matches 0 SAFETY_END_MARKER doc = 1"
    using assms by (simp_all add: doc section_counts [OF pre(2)] around_section_def before_section_def)
  have part: "drop (length x) (take (length (x @ y)) (x @ y @ z)) = y" for x y z :: ustr by simp
  have t: "take b doc = pre @ safety_heading @ [10, 10]" by (simp add: doc b render_split)
  have h: "last_safety_heading (take b doc) = Some (length pre, length pre + length safety_heading + 1)"
    by (simp only: t heading_found [OF pre(2)])
  have gap: "\<not> list_ex (\<lambda>l. \<not> blank l) (str_lines (drop (length pre + length safety_heading + 1) (take b doc)))"
    by (simp add: t str_lines_def chomp_def strip_suffix_def strip_prefix_def)
  have block: "drop (b + length SAFETY_BEGIN_MARKER) (take e doc) = 10 # decision_line d @ [10]"
    using part [of "pre @ safety_heading @ [10, 10] @ SAFETY_BEGIN_MARKER" "10 # decision_line d @ [10]"
        "SAFETY_END_MARKER @ post"]
    by (simp add: doc b e render_start section_start_def add.assoc)
  have rest: "take (length pre) doc = pre" "drop (e + length SAFETY_END_MARKER) doc = post"
    by (simp_all add: doc e render_start)
  have "\<not> e \<le> b" by (simp add: b e section_start_def)
  then show ?thesis
    unfolding doc [symmetric] reviewed_body_without_safety_section_def Let_def count_of_eq c
      find_begin [OF pre(1), of d post, folded doc b] find_end [OF pre(1), of d post, folded doc e]
    using h gap by (simp add: block rest review_block_written map_ok_def)
qed

lemma replace_around:
  assumes "around_section pre post"
  shows "replace_safety_review_section (pre @ render_safety_review_section d @ post) e
    = Inr (pre @ render_safety_review_section e @ post)"
  by (simp add: replace_safety_review_section_def bounds_around [OF assms] map_ok_def)

text \<open>Every text a review can be written to splits around the section.\<close>

lemma replace_cases:
  assumes "replace_safety_review_section doc d = Inr b"
  obtains pre post where "b = pre @ render_safety_review_section d @ post" "around_section pre post"
    "(\<exists>e. doc = pre @ render_safety_review_section e @ post)
      \<or> pre = (if blank doc then [] else trim_end doc @ [10, 10]) \<and> post = [10]"
proof (cases "canonical_safety_review_bounds doc")
  case (Inl e)
  then show ?thesis using assms by (simp add: replace_safety_review_section_def map_ok_def)
next
  case (Inr o')
  show ?thesis
  proof (cases o')
    case None
    then have "around_section (if blank doc then [] else trim_end doc @ [10, 10]) [10]"
      using Inr bounds_none by simp
    moreover have "b = (if blank doc then [] else trim_end doc @ [10, 10]) @ render_safety_review_section d @ [10]"
      using assms Inr None by (simp add: replace_safety_review_section_def map_ok_def Let_def split: if_splits)
    ultimately show ?thesis using that by blast
  next
    case (Some st)
    then obtain s t where "canonical_safety_review_bounds doc = Inr (Some (s, t))" using Inr by (cases st) simp
    then obtain pre e post where doc: "doc = pre @ render_safety_review_section e @ post" "around_section pre post"
      by (rule bounds_split)
    then have "b = pre @ render_safety_review_section d @ post" using assms replace_around by simp
    then show ?thesis using that doc by blast
  qed
qed

end
