(* ===== verification/Ready_Graph.thy ===== *)
theory Ready_Graph
  imports Ready_Queue
begin

text \<open>
  The two graph searches of the ready queue are exact: the recursion behind \<open>blocked_cycle\<close> finds every way
  back through the declared dependencies, and the loop behind the unblocking value counts every open issue
  that waits on an issue.
\<close>

section \<open>The graph of declared dependencies\<close>

definition well_keyed :: "(u64, remote_issue) bmap \<Rightarrow> bool" where
  "well_keyed known \<longleftrightarrow> (\<forall>n i. bm_get known n = Some i \<longrightarrow> number i = n)"

definition depends_on :: "(u64, remote_issue) bmap \<Rightarrow> (u64 \<times> u64) set" where
  "depends_on known = {(n, d). \<exists>i. bm_get known n = Some i \<and> d \<in> set (dependency_numbers (body i))}"

text \<open>What a search that found nothing has seen: the successors of its nodes, none of them the target.\<close>

definition explored :: "(u64, remote_issue) bmap \<Rightarrow> u64 \<Rightarrow> u64 set \<Rightarrow> u64 set \<Rightarrow> bool" where
  "explored known target before after \<longleftrightarrow> before \<subseteq> after \<and>
     (\<forall>x \<in> after - before. \<forall>d. (x, d) \<in> depends_on known \<longrightarrow>
        d \<noteq> target \<and> (bm_get known d \<noteq> None \<longrightarrow> d \<in> after))"

definition search_post :: "(u64, remote_issue) bmap \<Rightarrow> u64 \<Rightarrow> u64 set \<Rightarrow> u64 list \<Rightarrow> bool \<times> u64 list \<Rightarrow> bool" where
  "search_post known target X seen r \<longleftrightarrow>
     (if fst r then \<exists>x \<in> X. (x, target) \<in> (depends_on known)\<^sup>*
      else explored known target (set seen) (set (snd r))
        \<and> (\<forall>x \<in> X. x \<noteq> target \<and> (bm_get known x \<noteq> None \<longrightarrow> x \<in> set (snd r))))"

lemma explored_trans:
  "explored known target A B \<Longrightarrow> explored known target B C \<Longrightarrow> explored known target A C"
  unfolding explored_def by blast

lemma search_postI:
  "fst r \<Longrightarrow> x \<in> X \<Longrightarrow> (x, target) \<in> (depends_on known)\<^sup>* \<Longrightarrow> search_post known target X seen r"
  "\<not> fst r \<Longrightarrow> explored known target (set seen) (set (snd r))
     \<Longrightarrow> (\<And>x. x \<in> X \<Longrightarrow> x \<noteq> target \<and> (bm_get known x \<noteq> None \<longrightarrow> x \<in> set (snd r)))
     \<Longrightarrow> search_post known target X seen r"
  by (auto simp: search_post_def)

lemma search_postD:
  "search_post known target X seen r \<Longrightarrow> fst r \<Longrightarrow> \<exists>x \<in> X. (x, target) \<in> (depends_on known)\<^sup>*"
  "search_post known target X seen r \<Longrightarrow> \<not> fst r \<Longrightarrow> explored known target (set seen) (set (snd r))"
  "search_post known target X seen r \<Longrightarrow> \<not> fst r \<Longrightarrow> x \<in> X
     \<Longrightarrow> x \<noteq> target \<and> (bm_get known x \<noteq> None \<longrightarrow> x \<in> set (snd r))"
  by (simp_all add: search_post_def)

lemma search_post_Cons:
  assumes "search_post known target {d} seen (False, seen')" "search_post known target X seen' r"
  shows "search_post known target (insert d X) seen r"
proof (cases "fst r")
  case True
  then show ?thesis using search_postD(1) [OF assms(2)] by (blast intro: search_postI(1))
next
  case False
  have e: "explored known target (set seen) (set seen')" "explored known target (set seen') (set (snd r))"
    using search_postD(2) [OF assms(1)] search_postD(2) [OF assms(2) False] by simp_all
  show ?thesis
  proof (rule search_postI(2) [OF False explored_trans [OF e]])
    fix x
    assume "x \<in> insert d X"
    then show "x \<noteq> target \<and> (bm_get known x \<noteq> None \<longrightarrow> x \<in> set (snd r))"
      using search_postD(3) [OF assms(1), of d] search_postD(3) [OF assms(2) False, of x] e(2)
      by (auto simp: explored_def)
  qed
qed

lemma visit_known:
  assumes "bm_get known (number i) = Some i" "number i \<noteq> target"
    and post: "search_post known target (set (dependency_numbers (body i))) (bs_insert (number i) seen) r"
  shows "search_post known target {number i} seen r"
proof -
  have edge: "(number i, d) \<in> depends_on known \<longleftrightarrow> d \<in> set (dependency_numbers (body i))" for d
    using assms(1) by (simp add: depends_on_def)
  show ?thesis
  proof (cases "fst r")
    case True
    then obtain d where "(number i, d) \<in> depends_on known" "(d, target) \<in> (depends_on known)\<^sup>*"
      using search_postD(1) [OF post] edge by blast
    then have "(number i, target) \<in> (depends_on known)\<^sup>*" by (rule converse_rtrancl_into_rtrancl)
    with True show ?thesis by (intro search_postI(1) [where x = "number i"]) simp_all
  next
    case False
    have e: "explored known target (insert (number i) (set seen)) (set (snd r))"
      using search_postD(2) [OF post False] by simp
    have all: "d \<noteq> target \<and> (bm_get known d \<noteq> None \<longrightarrow> d \<in> set (snd r))"
      if "(number i, d) \<in> depends_on known" for d
      using search_postD(3) [OF post False] that edge by blast
    have "d \<noteq> target \<and> (bm_get known d \<noteq> None \<longrightarrow> d \<in> set (snd r))"
      if "x \<in> set (snd r) - set seen" "(x, d) \<in> depends_on known" for x d
    proof (cases "x = number i")
      case True
      with that(2) all show ?thesis by blast
    next
      case False
      with that(1) have "x \<in> set (snd r) - insert (number i) (set seen)" by simp
      with e that(2) show ?thesis unfolding explored_def by blast
    qed
    moreover have "insert (number i) (set seen) \<subseteq> set (snd r)" using e by (simp add: explored_def)
    ultimately show ?thesis
      using assms(2) by (intro search_postI(2) [OF False]) (auto simp: explored_def)
  qed
qed

lemma reaches_any_post:
  assumes "\<And>i seen. bm_get known (number i) = Some i \<Longrightarrow> number i \<noteq> target \<Longrightarrow> set seen0 \<subseteq> set seen
      \<Longrightarrow> search_post known target {number i} seen (visit i seen)"
    and "well_keyed known" "set seen0 \<subseteq> set seen"
  shows "search_post known target (set ds) seen (reaches_any visit known target ds seen)"
  using assms(3)
proof (induction ds arbitrary: seen)
  case Nil
  then show ?case by (simp add: search_post_def explored_def)
next
  case (Cons d ds)
  show ?case
  proof (cases "d = target")
    case False
    show ?thesis
    proof (cases "bm_get known d")
      case None
      with Cons.IH [OF Cons.prems] False show ?thesis by (auto simp: search_post_def)
    next
      case (Some i)
      then have n: "number i = d" using assms(2) by (simp add: well_keyed_def)
      obtain r seen' where v: "visit i seen = (r, seen')" by fastforce
      have post: "search_post known target {d} seen (r, seen')"
        using assms(1) [of i seen] n Some False Cons.prems v by simp
      show ?thesis
      proof (cases r)
        case True
        with post Some False v show ?thesis by (simp add: search_post_def)
      next
        case F: False
        then have "set seen \<subseteq> set seen'"
          using search_postD(2) [OF post] by (simp add: explored_def)
        with Cons.prems have "set seen0 \<subseteq> set seen'" by blast
        from search_post_Cons [OF _ Cons.IH [OF this]] show ?thesis
          using post F Some v False by simp
      qed
    qed
  qed (simp add: search_post_def)
qed

lemma reaches_from_post:
  assumes "well_keyed known"
  shows "bm_get known (number i) = Some i \<Longrightarrow> card (fst ` set known - set seen) < n
    \<Longrightarrow> number i \<notin> set seen
    \<Longrightarrow> search_post known target (set (dependency_numbers (body i))) (bs_insert (number i) seen)
          (reaches_from n known target i seen)"
proof (induction n arbitrary: i seen)
  case (Suc n)
  let ?seen = "bs_insert (number i) seen"
  have key: "number i \<in> fst ` set known - set seen"
    using Suc.prems(1,3) by (force dest: bm_get_mem)
  have less: "card (fst ` set known - set s) < n" if "set ?seen \<subseteq> set s" for s
  proof -
    have "fst ` set known - set s \<subset> fst ` set known - set seen" using that key by auto
    then have "card (fst ` set known - set s) < card (fst ` set known - set seen)"
      by (intro psubset_card_mono) simp_all
    with Suc.prems(2) show ?thesis by simp
  qed
  have visit: "search_post known target {number j} s (reaches_from n known target j s)"
    if j: "bm_get known (number j) = Some j" "number j \<noteq> target" "set ?seen \<subseteq> set s" for j s
  proof (cases "number j \<in> set s")
    case True
    with j(2) less [OF j(3)] show ?thesis by (cases n) (simp_all add: search_post_def explored_def)
  next
    case False
    show ?thesis by (rule visit_known [OF j(1,2) Suc.IH [OF j(1) less [OF j(3)] False]])
  qed
  have "search_post known target (set (dependency_numbers (body i))) ?seen
      (reaches_any (reaches_from n known target) known target (dependency_numbers (body i)) ?seen)"
    by (rule reaches_any_post [where seen0 = ?seen, OF visit assms subset_refl])
  with Suc.prems(3) show ?case by simp
qed simp

text \<open>The recursion of the code finds every way back: its set of visited issues loses none.\<close>

lemma reaches_exact:
  assumes "well_keyed known" "bm_get known (number i) = Some i"
  shows "dependency_reaches i target known \<longleftrightarrow> (number i, target) \<in> (depends_on known)\<^sup>+"
proof -
  let ?r = "reaches_from (Suc (Suc (length known))) known target i []"
  have "card (fst ` set known) \<le> length known"
    by (metis card_length length_map list.set_map)
  then have post: "search_post known target (set (dependency_numbers (body i))) [number i] ?r"
    using reaches_from_post [OF assms, of "[]" "Suc (Suc (length known))" target] by (simp add: bs_insert_def)
  have edge: "(number i, d) \<in> depends_on known \<longleftrightarrow> d \<in> set (dependency_numbers (body i))" for d
    using assms(2) by (simp add: depends_on_def)
  show ?thesis
  proof (cases "fst ?r")
    case True
    then show ?thesis
      using search_postD(1) [OF post] by (auto simp: dependency_reaches_def simp flip: edge intro: rtrancl_into_trancl2)
  next
    case False
    let ?A = "set (snd ?r)"
    have succ: "d \<noteq> target \<and> (bm_get known d \<noteq> None \<longrightarrow> d \<in> ?A)"
      if "x = number i \<or> x \<in> ?A" "(x, d) \<in> depends_on known" for x d
      using that search_postD(2) [OF post False] search_postD(3) [OF post False, of d] edge
      by (auto simp: explored_def)
    have "y \<noteq> target \<and> (bm_get known y \<noteq> None \<longrightarrow> y \<in> ?A)" if "(number i, y) \<in> (depends_on known)\<^sup>+" for y
      using that
    proof (induction rule: trancl_induct)
      case (base y)
      then show ?case using succ by blast
    next
      case (step y z)
      then have "bm_get known y \<noteq> None" by (auto simp: depends_on_def)
      with step show ?case using succ by blast
    qed
    with False show ?thesis unfolding dependency_reaches_def by blast
  qed
qed

section \<open>The dependency gate\<close>

definition excused :: "queue_policy \<Rightarrow> remote_issue \<Rightarrow> remote_issue \<Rightarrow> bool" where
  "excused p i t \<longleftrightarrow> non_blocking p t \<or> target_tracks_issue (body t) (number i)"

lemma evaluate_each_sets:
  "evaluate_each i known p ds = (unmet, cycles, refs) \<Longrightarrow>
     set unmet = {d \<in> set ds. \<not> closed (dependency_target known d) \<and> \<not> excused p i (dependency_target known d)}
   \<and> set cycles = {d \<in> set unmet. dependency_reaches (dependency_target known d) (number i) known}
   \<and> ref_issue ` set refs = {d \<in> set ds. \<not> closed (dependency_target known d) \<and> excused p i (dependency_target known d)}"
proof (induction ds arbitrary: unmet cycles refs)
  case (Cons d ds)
  obtain u c r where e: "evaluate_each i known p ds = (u, c, r)" by (metis prod_cases3)
  note IH = Cons.IH [OF e]
  let ?t = "dependency_target known d"
  consider "closed ?t" | "\<not> closed ?t" "non_blocking p ?t"
    | "\<not> closed ?t" "\<not> non_blocking p ?t" "target_tracks_issue (body ?t) (number i)"
    | "\<not> closed ?t" "\<not> excused p i ?t" by (auto simp: excused_def)
  then show ?case
  proof cases
    case 1
    with Cons.prems e have "unmet = u" "cycles = c" "refs = r" by simp_all
    with IH 1 show ?thesis by auto
  next
    case 2
    with Cons.prems e have "unmet = u" "cycles = c" "ref_issue ` set refs = insert d (ref_issue ` set r)" by auto
    moreover have "excused p i ?t" using 2 by (simp add: excused_def)
    ultimately show ?thesis using IH 2 by auto
  next
    case 3
    with Cons.prems e have "unmet = u" "cycles = c" "ref_issue ` set refs = insert d (ref_issue ` set r)" by auto
    moreover have "excused p i ?t" using 3 by (simp add: excused_def)
    ultimately show ?thesis using IH 3 by auto
  next
    case 4
    then have "unmet = d # u" "refs = r"
      "cycles = (if dependency_reaches ?t (number i) known then d # c else c)"
      using Cons.prems e by (simp_all add: excused_def)
    with IH 4 show ?thesis by auto
  qed
qed simp

lemma dependency_numbers_Nil: "dependency_numbers [] = []"
  by (simp add: dependency_numbers_def markdown_section_def markdown_sections_def bs_of_list_def str_lines_def)

lemma target_reaches:
  assumes "well_keyed known"
  shows "dependency_reaches (dependency_target known d) target known \<longleftrightarrow> (d, target) \<in> (depends_on known)\<^sup>+"
proof (cases "bm_get known d")
  case None
  then have "(d, x) \<notin> depends_on known" for x by (simp add: depends_on_def)
  then have "(d, target) \<notin> (depends_on known)\<^sup>+" by (meson tranclD)
  with None show ?thesis
    by (simp add: dependency_reaches_def dependency_target_def dependency_numbers_Nil)
next
  case (Some i)
  with assms have "number i = d" by (simp add: well_keyed_def)
  with reaches_exact [OF assms, of i target] Some show ?thesis by (simp add: dependency_target_def)
qed


text \<open>Two issues that wait for each other.\<close>

definition sample_body :: "string \<Rightarrow> ustr" where
  "sample_body n = lit (''## Dependencies'' @ [CHR 0x0A] @ ''- #'' @ n)"

definition sample_waiting :: "u64 \<Rightarrow> string \<Rightarrow> remote_issue" where
  "sample_waiting n d =
     \<lparr>number = n, title = [], body = sample_body d, labels = [], author = [], closed = False\<rparr>"

definition sample_known :: "(u64, remote_issue) bmap" where
  "sample_known = [(2, sample_waiting 2 ''3''), (3, sample_waiting 3 ''2'')]"

lemma sample_dependencies:
  "dependency_numbers (sample_body ''3'') = [3]" "dependency_numbers (sample_body ''2'') = [2]"
  by (simp_all add: dependency_numbers_def sample_body_def text_eval parse_u64_def digits_value_def
      bs_of_list_def)

lemma sample_tracks: "\<not> target_tracks_issue (sample_body ''2'') 2"
  by (simp add: target_tracks_issue_def sample_body_def text_eval)

lemma sample_evaluates:
  "evaluate_dependencies (sample_waiting 2 ''3'') sample_known (new_queue_policy 1 0) = ([3], [3], [])"
  by (simp add: evaluate_dependencies_def sample_known_def sample_waiting_def sample_dependencies
      dependency_target_def non_blocking_def sample_tracks dependency_reaches_def bs_insert_def)


section \<open>The unblocking value\<close>

text \<open>\<open>(d, n)\<close>: the open issue \<open>n\<close> declares that it depends on \<open>d\<close>.\<close>

definition gates :: "(u64, remote_issue) bmap \<Rightarrow> (u64 \<times> u64) set" where
  "gates known = {(d, n). (n, d) \<in> depends_on known \<and> known_open known n}"

lemma set_reverse_edge:
  "set (dependents (reverse_edge n e reverse) d)
     = (if d = e then insert n (set (dependents reverse d)) else set (dependents reverse d))"
  by (cases "bm_get reverse e") (auto simp: dependents_def reverse_edge_def bm_get_insert)

lemma set_reverse_issue:
  "set (dependents (fold (reverse_edge n) ds reverse) d)
     = (if d \<in> set ds then insert n (set (dependents reverse d)) else set (dependents reverse d))"
  by (induction ds arbitrary: reverse) (auto simp: set_reverse_edge)

lemma set_reverse_edges:
  "set (dependents (fold reverse_edges_of known reverse) d)
     = set (dependents reverse d) \<union> {n. \<exists>i. (n, i) \<in> set known \<and> \<not> closed i \<and> d \<in> set (dependency_numbers (body i))}"
proof (induction known arbitrary: reverse)
  case (Cons e known)
  obtain n i where e: "e = (n, i)" by (cases e)
  have "set (dependents (reverse_edges_of e reverse) d) = (if \<not> closed i \<and> d \<in> set (dependency_numbers (body i))
      then insert n (set (dependents reverse d)) else set (dependents reverse d))"
    by (simp add: reverse_edges_of_def e set_reverse_issue)
  then show ?case
    by (simp add: Cons.IH) (auto simp: e)
qed simp

lemma set_gated:
  assumes "bm_ok known"
  shows "set (dependents (reverse_dependency_edges known) d) = {n. (d, n) \<in> gates known}"
proof -
  have get: "(n, i) \<in> set known \<longleftrightarrow> bm_get known n = Some i" for n i
    using btm.get_iff_entry [OF assms] by blast
  have "dependents bm_empty d = []" by (simp add: dependents_def)
  then show ?thesis
    unfolding reverse_dependency_edges_def set_reverse_edges get
    by (auto simp: gates_def depends_on_def known_open_def)
qed

text \<open>The loop counts what the issue gates: everything pushed once, the issue itself never.\<close>

definition loop_inv :: "(u64 \<times> u64) set \<Rightarrow> u64 \<Rightarrow> u64 list \<times> u64 list \<times> nat \<Rightarrow> bool" where
  "loop_inv E n s \<longleftrightarrow> (case s of (stack, seen, count) \<Rightarrow>
     distinct seen \<and> count = length seen \<and> n \<notin> set seen \<and> set seen \<subseteq> E\<^sup>+ `` {n}
     \<and> set stack \<subseteq> insert n (set seen)
     \<and> (\<forall>x \<in> insert n (set seen) - set stack. E `` {x} \<subseteq> insert n (set seen)))"

lemma push_dependent_eq:
  "push_dependent n known d (stack, seen, count)
     = (if d = n \<or> d \<in> set seen then (stack, seen, count)
        else (d # stack, bs_insert d seen, if known_open known d then Suc count else count))"
  by (simp add: push_dependent_def)

lemma push_all:
  assumes "fold (push_dependent n known) ds (stack, seen, count) = (stack', seen', count')"
    and "\<And>d. d \<in> set ds \<Longrightarrow> known_open known d" "distinct seen" "n \<notin> set seen"
  shows "distinct seen' \<and> set seen' = set seen \<union> (set ds - {n}) \<and> count' + length seen = count + length seen'
    \<and> set stack' = set stack \<union> (set seen' - set seen)"
  using assms
proof (induction ds arbitrary: stack seen count)
  case (Cons d ds)
  show ?case
  proof (cases "d = n \<or> d \<in> set seen")
    case True
    with Cons show ?thesis by (auto simp: push_dependent_eq)
  next
    case False
    then have "fold (push_dependent n known) ds (d # stack, bs_insert d seen, Suc count) = (stack', seen', count')"
      using Cons.prems(1,2) by (simp add: push_dependent_eq)
    from Cons.IH [OF this] have "distinct seen'" "set seen' = insert d (set seen) \<union> (set ds - {n})"
      "count' + length (bs_insert d seen) = Suc count + length seen'"
      "set stack' = insert d (set stack) \<union> (set seen' - insert d (set seen))"
      using Cons.prems(2-4) False not_sym [of d n] by (simp_all add: bs_insert_def distinct_insort set_insort_key)
    then show ?thesis using False by (auto simp: bs_insert_def)
  qed
qed auto

lemma loop_inv_step:
  assumes inv: "loop_inv E n (c # stack, seen, count)"
    and E: "\<And>d. set (dependents reverse d) = E `` {d}" "\<And>d m. (d, m) \<in> E \<Longrightarrow> known_open known m"
  shows "loop_inv E n (fold (push_dependent n known) (dependents reverse c) (stack, seen, count))"
proof -
  obtain stack' seen' count' where
    f: "fold (push_dependent n known) (dependents reverse c) (stack, seen, count) = (stack', seen', count')"
    by (metis prod_cases3)
  have closed: "E `` {x} \<subseteq> insert n (set seen)" if "x \<in> insert n (set seen) - set (c # stack)" for x
    using inv that by (auto simp: loop_inv_def)
  have inv': "distinct seen" "count = length seen" "n \<notin> set seen" "set seen \<subseteq> E\<^sup>+ `` {n}"
    "set (c # stack) \<subseteq> insert n (set seen)"
    using inv by (simp_all add: loop_inv_def)
  have "\<And>d. d \<in> set (dependents reverse c) \<Longrightarrow> known_open known d" using E by blast
  from push_all [OF f this inv'(1,3)] have p: "distinct seen'" "set seen' = set seen \<union> (E `` {c} - {n})"
    "count' = length seen'" "set stack' = set stack \<union> (set seen' - set seen)"
    using inv'(2) E(1) by simp_all
  have "E `` {c} \<subseteq> E\<^sup>+ `` {n}"
    using inv'(4,5) by (auto intro: trancl_into_trancl)
  then have "set seen' \<subseteq> E\<^sup>+ `` {n}" using inv'(4) p(2) by blast
  moreover have "E `` {x} \<subseteq> insert n (set seen')" if "x \<in> insert n (set seen') - set stack'" for x
  proof (cases "x = c")
    case True
    then show ?thesis using p(2) by auto
  next
    case False
    with that p(4) have "x \<in> insert n (set seen) - set (c # stack)" by auto
    from closed [OF this] p(2) show ?thesis by blast
  qed
  moreover have "n \<notin> set seen'" "set stack' \<subseteq> insert n (set seen')" using inv' p by auto
  ultimately show ?thesis using p by (simp add: loop_inv_def f)
qed

lemma unblock_loop_exact:
  "loop_inv E n s \<Longrightarrow> (\<And>d. set (dependents reverse d) = E `` {d}) \<Longrightarrow> (\<And>d m. (d, m) \<in> E \<Longrightarrow> known_open known m)
    \<Longrightarrow> unblock_loop n known reverse s = card (E\<^sup>+ `` {n} - {n})"
proof (induction n known reverse s rule: unblock_loop.induct)
  case (1 n known reverse seen count)
  then have inv: "distinct seen" "count = length seen" "n \<notin> set seen" "set seen \<subseteq> E\<^sup>+ `` {n}"
    "E `` insert n (set seen) \<subseteq> insert n (set seen)"
    by (auto simp: loop_inv_def)
  have "E\<^sup>+ `` {n} \<subseteq> insert n (set seen)"
    using Image_closed_trancl [OF inv(5)] by (auto dest: trancl_into_rtrancl)
  with inv(3,4) have "E\<^sup>+ `` {n} - {n} = set seen" by auto
  then show ?case using inv(1,2) by (simp add: distinct_card)
next
  case (2 n known reverse c stack seen count)
  from "2.IH" [OF loop_inv_step [OF "2.prems"] "2.prems"(2,3)] show ?case by simp
qed

text \<open>The loop with its stack counts, for every graph, cyclic or not, the open issues that wait on the issue
  through a chain of declared dependencies.\<close>

lemma unblocking_value_card:
  assumes "bm_ok known"
  shows "unblocking_value n known (reverse_dependency_edges known) = card ((gates known)\<^sup>+ `` {n} - {n})"
  unfolding unblocking_value_def
proof (rule unblock_loop_exact)
  show "set (dependents (reverse_dependency_edges known) d) = gates known `` {d}" for d
    using set_gated [OF assms] by auto
qed (simp_all add: loop_inv_def gates_def)

end
