(* ===== verification/Ready_Safety.thy ===== *)
theory Ready_Safety
  imports Ready_Graph "HOL-Library.Multiset"
begin

text \<open>
  What the ready queue guarantees: the ready issues are exactly those that pass every gate and share no path
  with a lower-numbered ready issue, every selected issue is placed once, the frontier is ordered by what
  each issue unblocks, and the batch respects the worker cap.
\<close>

section \<open>Placing one issue\<close>

lemma first_path_conflict_None:
  "first_path_conflict ps others = None \<longleftrightarrow> (\<forall>(n, qs) \<in> set others. set ps \<inter> set qs = {})"
proof (induction others)
  case (Cons o1 others)
  obtain n qs where o1: "o1 = (n, qs)" by (cases o1)
  have "find (\<lambda>p. p \<in> set qs) ps = None \<longleftrightarrow> set ps \<inter> set qs = {}" by (auto simp: find_None_iff)
  with Cons.IH o1 show ?case by (cases "find (\<lambda>p. p \<in> set qs) ps") auto
qed simp

definition placed_view :: "placement \<Rightarrow> queue_view" where
  "placed_view p = (case p of Ready v \<Rightarrow> v | Held v \<Rightarrow> v | Conflict v \<Rightarrow> v)"

definition is_ready :: "placement \<Rightarrow> bool" where
  "is_ready p = (case p of Ready _ \<Rightarrow> True | _ \<Rightarrow> False)"

text \<open>What every placement keeps: the issue, its paths, and a reason unless it is ready.\<close>

definition view_ok :: "remote_issue \<Rightarrow> placement \<Rightarrow> bool" where
  "view_ok i p \<longleftrightarrow> view_issue (placed_view p) = i \<and> (view_reason (placed_view p) = None \<longleftrightarrow> is_ready p)
     \<and> (if is_ready p then view_paths (placed_view p) = extract_paths (body i)
           \<and> parallel_safe (placed_view p) = Some (serialization_labels i = []) else True)"

lemma view_ok_held [simp]: "view_issue v = i \<Longrightarrow> view_ok i (held why v)"
  by (simp add: view_ok_def held_def placed_view_def is_ready_def)

lemma is_ready_held [simp]: "\<not> is_ready (held why v)"
  by (simp add: held_def is_ready_def)

definition streak_ok :: "queue_env \<Rightarrow> remote_issue \<Rightarrow> bool" where
  "streak_ok env i = (case bm_get (no_output_streaks (env_input env)) (number i) of
      Some s \<Rightarrow> \<not> withdrawn (from_trailing_streak s) | None \<Rightarrow> True)"

lemma place_by_paths_ready:
  "is_ready (place_by_paths env ready v) \<longleftrightarrow> streak_ok env (view_issue v)
     \<and> (\<forall>(n, qs) \<in> set (env_active_paths env). set (view_paths v) \<inter> set qs = {})
     \<and> (\<forall>r \<in> set ready. set (view_paths v) \<inter> set (view_paths r) = {})"
proof (cases "first_path_conflict (view_paths v) (env_active_paths env)")
  case (Some c)
  moreover have "\<not> (\<forall>(n, qs) \<in> set (env_active_paths env). set (view_paths v) \<inter> set qs = {})"
    using Some by (simp flip: first_path_conflict_None)
  ultimately show ?thesis by (cases c) (simp add: place_by_paths_def is_ready_def)
next
  case None
  let ?paths = "map (\<lambda>r. (number (view_issue r), view_paths r)) ready"
  note active = None [unfolded first_path_conflict_None]
  show ?thesis
  proof (cases "first_path_conflict (view_paths v) ?paths")
    case (Some c)
    then have "\<not> (\<forall>(n, qs) \<in> set ?paths. set (view_paths v) \<inter> set qs = {})"
      by (simp only: first_path_conflict_None [symmetric]) simp
    with Some None show ?thesis by (cases c) (auto simp: place_by_paths_def is_ready_def)
  next
    case N: None
    have "\<forall>r \<in> set ready. set (view_paths v) \<inter> set (view_paths r) = {}"
      using N [unfolded first_path_conflict_None] by auto
    moreover have "is_ready (place_by_paths env ready v) = streak_ok env (view_issue v)"
      using None N by (auto simp: place_by_paths_def streak_ok_def is_ready_def held_def split: option.splits)
    ultimately show ?thesis using active by blast
  qed
qed

lemma place_by_paths_ok:
  assumes "view_issue v = i" "view_paths v = extract_paths (body i)" "view_reason v = None"
  shows "view_ok i (place_by_paths env ready v)"
  using assms
  by (auto simp: place_by_paths_def view_ok_def placed_view_def is_ready_def held_def
      split: option.splits prod.splits)

lemma place_by_dependencies_ok: "view_ok i (place_by_dependencies env ready i)"
proof -
  obtain u c r where "evaluate_dependencies i (env_known env) (queue_policy (env_input env)) = (u, c, r)"
    by (metis prod_cases3)
  then show ?thesis
    by (auto simp: place_by_dependencies_def Let_def plain_view_def intro!: place_by_paths_ok)
qed

lemma place_issue_ok: "view_ok i (place_issue safety env ready i)"
  by (auto simp: place_issue_def Let_def plain_view_def place_by_dependencies_ok
      split: option.splits prod.splits linked.splits)

section \<open>The gates\<close>

text \<open>What the code asks of an issue besides the paths of other ready issues.\<close>

definition clears :: "(safety_input \<Rightarrow> ustr list \<Rightarrow> safety_decision) \<Rightarrow> queue_env \<Rightarrow> remote_issue \<Rightarrow> bool" where
  "clears safety env i \<longleftrightarrow> find (\<lambda>b. has_exact_label i (lit (fst b))) BLOCKING_LABELS = None
     \<and> is_dispatch_eligible i default_policy \<and> \<not> is_question_title (title i)
     \<and> duplicate_owner i (env_owners env) = None
     \<and> allowed (safety (safety_input_of i) (env_trusted env))
     \<and> linked_pr_with_nonterminal_checks (pull_requests (env_input env)) (number i) = NoPr
     \<and> unmet_capabilities (body i) (capabilities (env_input env)) = []
     \<and> fst (evaluate_dependencies i (env_known env) (queue_policy (env_input env))) = []
     \<and> streak_ok env i
     \<and> (\<forall>(n, qs) \<in> set (env_active_paths env). set (extract_paths (body i)) \<inter> set qs = {})"

lemma place_by_dependencies_ready:
  "is_ready (place_by_dependencies env ready i) \<longleftrightarrow>
     unmet_capabilities (body i) (capabilities (env_input env)) = []
     \<and> fst (evaluate_dependencies i (env_known env) (queue_policy (env_input env))) = []
     \<and> streak_ok env i
     \<and> (\<forall>(n, qs) \<in> set (env_active_paths env). set (extract_paths (body i)) \<inter> set qs = {})
     \<and> (\<forall>r \<in> set ready. set (extract_paths (body i)) \<inter> set (view_paths r) = {})"
proof -
  obtain u c r where "evaluate_dependencies i (env_known env) (queue_policy (env_input env)) = (u, c, r)"
    by (metis prod_cases3)
  then show ?thesis
    by (simp add: place_by_dependencies_def Let_def place_by_paths_ready plain_view_def)
qed

lemma place_issue_ready:
  "is_ready (place_issue safety env ready i) \<longleftrightarrow> clears safety env i
     \<and> (\<forall>r \<in> set ready. set (extract_paths (body i)) \<inter> set (view_paths r) = {})"
proof (cases "find (\<lambda>b. has_exact_label i (lit (fst b))) BLOCKING_LABELS")
  case (Some b)
  then show ?thesis by (cases b) (simp add: place_issue_def clears_def)
next
  case None
  then show ?thesis
    by (simp add: place_issue_def clears_def Let_def place_by_dependencies_ready
        split: option.splits linked.splits)
qed

section \<open>Duplicates\<close>

text \<open>The numbers of the open issues with a signature.\<close>

definition signed_by :: "remote_issue list \<Rightarrow> ustr \<Rightarrow> u64 set" where
  "signed_by issues s = {number j |j. j \<in> set issues \<and> \<not> closed j \<and> duplicate_signature (body j) = Some s}"

lemma signed_Cons:
  "signed_by (i # issues) s
     = (if \<not> closed i \<and> duplicate_signature (body i) = Some s then insert (number i) (signed_by issues s)
        else signed_by issues s)"
  by (auto simp: signed_by_def)

lemma finite_signed [simp]: "finite (signed_by issues s)"
proof -
  have "signed_by issues s \<subseteq> number ` set issues" by (auto simp: signed_by_def)
  then show ?thesis by (rule finite_subset) simp
qed

definition least :: "u64 set \<Rightarrow> u64 option" where
  "least A = (if A = {} then None else Some (Min A))"

lemma least_insert: "finite A \<Longrightarrow> least (insert n A) = (case least A of None \<Rightarrow> Some n | Some m \<Rightarrow> Some (min n m))"
  by (simp add: least_def Min_insert)

lemma owners_fold:
  "finite A \<Longrightarrow> bm_get owners s = least A
     \<Longrightarrow> bm_get (fold claim_signature issues owners) s = least (A \<union> signed_by issues s)"
proof (induction issues arbitrary: owners A)
  case Nil
  then show ?case by (simp add: signed_by_def)
next
  case (Cons i issues)
  show ?case
  proof (cases "\<not> closed i \<and> duplicate_signature (body i) = Some s")
    case True
    then have "bm_get (claim_signature i owners) s = least (insert (number i) A)"
      using Cons.prems
      by (auto simp: claim_signature_def bm_get_insert least_insert min_def split: option.splits)
    from Cons.IH [OF _ this] True Cons.prems(1) show ?thesis by (simp add: signed_Cons)
  next
    case False
    then have "bm_get (claim_signature i owners) s = least A"
      using Cons.prems by (auto simp: claim_signature_def bm_get_insert split: option.splits)
    from Cons.IH [OF Cons.prems(1) this] False show ?thesis by (auto simp: signed_Cons)
  qed
qed

lemma bm_get_signature_owners: "bm_get (signature_owners issues) s = least (signed_by issues s)"
  unfolding signature_owners_def using owners_fold [of "{}" bm_empty s issues] by (simp add: least_def)

lemma duplicate_owner_exact:
  assumes "i \<in> set issues" "\<not> closed i"
  shows "duplicate_owner i (signature_owners issues) = (case duplicate_signature (body i) of
      None \<Rightarrow> None
    | Some s \<Rightarrow> if Min (signed_by issues s) < number i then Some (Min (signed_by issues s)) else None)"
proof (cases "duplicate_signature (body i)")
  case (Some s)
  then have mem: "number i \<in> signed_by issues s" using assms by (auto simp: signed_by_def)
  then have "Min (signed_by issues s) \<le> number i" by simp
  moreover have "least (signed_by issues s) = Some (Min (signed_by issues s))" using mem by (auto simp: least_def)
  ultimately show ?thesis using Some by (auto simp: duplicate_owner_def bm_get_signature_owners)
qed (simp add: duplicate_owner_def)

section \<open>Placing all issues\<close>

lemma place_all_snoc: "place_all safety env (js @ [i]) = place_step safety env i (place_all safety env js)"
  by (simp add: place_all_def)

definition shares_path :: "remote_issue \<Rightarrow> remote_issue \<Rightarrow> bool" where
  "shares_path i j \<longleftrightarrow> set (extract_paths (body i)) \<inter> set (extract_paths (body j)) \<noteq> {}"

text \<open>\<open>R\<close> holds the issues of \<open>A\<close> that clear the gates and share no path with a lower-numbered one of \<open>R\<close>.\<close>

definition greedy :: "(remote_issue \<Rightarrow> bool) \<Rightarrow> remote_issue set \<Rightarrow> remote_issue set \<Rightarrow> bool" where
  "greedy C A R \<longleftrightarrow> R = {i \<in> A. C i \<and> {j \<in> R. number j < number i \<and> shares_path i j} = {}}"

lemma greedy_insert:
  assumes "greedy C A R" "\<And>j. j \<in> A \<Longrightarrow> number j < number i"
  shows "greedy C (insert i A) (if C i \<and> {j \<in> R. shares_path i j} = {} then insert i R else R)"
proof -
  have R: "R = {i \<in> A. C i \<and> {j \<in> R. number j < number i \<and> shares_path i j} = {}}"
    using assms(1) by (simp add: greedy_def)
  have less: "\<And>j. j \<in> R \<Longrightarrow> number j < number i" using R assms(2) by blast
  have no: "\<And>j. j \<in> A \<Longrightarrow> \<not> number i < number j" using assms(2) by (meson less_asym)
  have old: "{k \<in> insert i R. number k < number j \<and> shares_path j k} = {k \<in> R. number k < number j \<and> shares_path j k}"
    if "j \<in> A" for j using no [OF that] by blast
  have here: "{k \<in> R. number k < number i \<and> shares_path i k} = {k \<in> R. shares_path i k}"
    using less by blast
  have self: "{k \<in> insert i R. number k < number i \<and> shares_path i k} = {k \<in> R. shares_path i k}"
    using less by auto
  show ?thesis
    unfolding greedy_def using R old here self by (intro set_eqI) (auto split del: if_split split: if_splits)
qed

text \<open>Every placement so far, and why the ready ones are ready.\<close>

definition placed_ok :: "(safety_input \<Rightarrow> ustr list \<Rightarrow> safety_decision) \<Rightarrow> queue_env \<Rightarrow> remote_issue list
    \<Rightarrow> queue_view list \<times> queue_view list \<times> queue_view list \<Rightarrow> bool" where
  "placed_ok safety env js s \<longleftrightarrow> (case s of (ready, blocked, conflicts) \<Rightarrow>
     mset (map view_issue (ready @ blocked @ conflicts)) = mset js
   \<and> (\<forall>v \<in> set ready. view_reason v = None \<and> view_paths v = extract_paths (body (view_issue v))
         \<and> parallel_safe v = Some (serialization_labels (view_issue v) = []))
   \<and> (\<forall>v \<in> set (blocked @ conflicts). view_reason v \<noteq> None)
   \<and> greedy (clears safety env) (set js) (view_issue ` set ready))"

lemma placed_okI:
  assumes "placed_ok safety env js (ready, blocked, conflicts)" "\<forall>j \<in> set js. number j < number i"
  shows "placed_ok safety env (js @ [i]) (place_step safety env i (ready, blocked, conflicts))"
proof -
  let ?p = "place_issue safety env ready i"
  have old: "mset (map view_issue (ready @ blocked @ conflicts)) = mset js"
    "\<forall>v \<in> set ready. view_reason v = None \<and> view_paths v = extract_paths (body (view_issue v))
      \<and> parallel_safe v = Some (serialization_labels (view_issue v) = [])"
    "\<forall>v \<in> set (blocked @ conflicts). view_reason v \<noteq> None"
    "greedy (clears safety env) (set js) (view_issue ` set ready)"
    using assms(1) by (simp_all add: placed_ok_def)
  have v: "view_issue (placed_view ?p) = i" "view_reason (placed_view ?p) = None \<longleftrightarrow> is_ready ?p"
    "is_ready ?p \<Longrightarrow> view_paths (placed_view ?p) = extract_paths (body i)
      \<and> parallel_safe (placed_view ?p) = Some (serialization_labels i = [])"
    using place_issue_ok [of i safety env ready] by (simp_all add: view_ok_def)
  have "is_ready ?p \<longleftrightarrow> clears safety env i \<and> {j \<in> view_issue ` set ready. shares_path i j} = {}"
    using old(2) by (auto simp: place_issue_ready shares_path_def)
  then have new: "greedy (clears safety env) (insert i (set js))
      (if is_ready ?p then insert i (view_issue ` set ready) else view_issue ` set ready)"
    using greedy_insert [OF old(4), of i] assms(2) by simp
  show ?thesis
    using old(1-3) v new
    by (cases ?p) (simp_all add: place_step_def placed_ok_def placed_view_def is_ready_def)
qed

lemma place_all_ok:
  "sorted_wrt (<) (map number js) \<Longrightarrow> placed_ok safety env js (place_all safety env js)"
proof (induction js rule: rev_induct)
  case Nil
  show ?case by (simp add: place_all_def placed_ok_def greedy_def)
next
  case (snoc i js)
  then have "placed_ok safety env js (place_all safety env js)" "\<forall>j \<in> set js. number j < number i"
    by (auto simp: sorted_wrt_append)
  then show ?case
    unfolding place_all_snoc by (cases "place_all safety env js") (auto intro: placed_okI)
qed

section \<open>The plan\<close>

lemma distinct_issues_numbers: "sorted_wrt (<) (map number (distinct_issues issues))"
proof -
  let ?m = "deduplicate_issues issues"
  have ok: "bm_ok ?m" and get: "\<And>n. bm_get ?m n = find (\<lambda>j. number j = n) issues"
    using dedup_fold [of "[]" issues] by (simp_all add: deduplicate_issues_fold)
  have "number i = n" if "(n, i) \<in> set ?m" for n i
  proof -
    have "bm_get ?m n = Some i" using that btm.get_iff_entry [OF ok] by blast
    then show ?thesis by (auto simp: get find_Some_iff)
  qed
  then have "map number (distinct_issues issues) = map fst ?m"
    by (auto simp: distinct_issues_def bm_values_def)
  with ok show ?thesis by (simp add: bm_ok_def)
qed

lemma mem_distinct_issues: "i \<in> set (distinct_issues issues) \<longleftrightarrow> find (\<lambda>j. number j = number i) issues = Some i"
  by (simp add: distinct_issues_def dedup_values)

lemma selected_numbers: "sorted_wrt (<) (map number (selected inp))"
  using distinct_issues_numbers [of "candidates inp"]
  by (simp add: selected_def sorted_wrt_map sorted_wrt_filter)

text \<open>The three lists of the planner, and what the plan makes of them.\<close>

lemma plan_lists:
  obtains ready blocked conflicts where
    "placed_ok safety (planner_env inp trusted) (selected inp) (ready, blocked, conflicts)"
    "place_all safety (planner_env inp trusted) (selected inp) = (ready, blocked, conflicts)"
    "plan_ready (plan_ready_queue_with_trusted_actors safety inp trusted)
       = order_frontier (known_issues inp) ready"
    "plan_blocked (plan_ready_queue_with_trusted_actors safety inp trusted) = blocked"
    "plan_conflicts (plan_ready_queue_with_trusted_actors safety inp trusted) = conflicts"
proof -
  obtain r b c where rbc: "place_all safety (planner_env inp trusted) (selected inp) = (r, b, c)"
    by (metis prod_cases3)
  have "env_known (planner_env inp trusted) = known_issues inp" by (simp add: planner_env_def)
  with place_all_ok [OF selected_numbers, of safety "planner_env inp trusted" inp] show thesis
    by (intro that [OF _ rbc]) (simp_all add: rbc plan_ready_queue_with_trusted_actors_def Let_def)
qed

lemma rank_view_keeps [simp]:
  "view_issue (rank_view known reverse v) = view_issue v" "view_paths (rank_view known reverse v) = view_paths v"
  "view_reason (rank_view known reverse v) = view_reason v"
  "parallel_safe (rank_view known reverse v) = parallel_safe v"
  "view_serialization (rank_view known reverse v) = view_serialization v"
  by (simp_all add: rank_view_def Let_def)

lemma set_order_frontier:
  "set (order_frontier known ready) = rank_view known (reverse_dependency_edges known) ` set ready"
  by (simp add: order_frontier_def)

lemma mset_order_frontier:
  "mset (map view_issue (order_frontier known ready)) = mset (map view_issue ready)"
  by (simp add: order_frontier_def image_mset.compositionality comp_def)

section \<open>Which issues are ready\<close>

text \<open>The gates, as conditions on the issue and the tracker.\<close>

definition dispatchable :: "(safety_input \<Rightarrow> ustr list \<Rightarrow> safety_decision) \<Rightarrow> queue_input \<Rightarrow> ustr list
    \<Rightarrow> remote_issue \<Rightarrow> bool" where
  "dispatchable safety inp trusted i \<longleftrightarrow>
     set (labels i) \<inter> lit ` {''needs-classify'', ''groom:proposed'', ''autospec:needs-human'',
       ''autospec:blocked-prerequisite''} = {}
   \<and> has_label (labels i) (lit ''auto-implement'')
   \<and> strip_suffix (lit ''?'') (trim_end (title i)) = None
   \<and> {j \<in> set (distinct_issues (candidates inp)) \<union> set (distinct_issues (active_issues inp)).
        number j < number i \<and> \<not> closed j \<and> duplicate_signature (body j) \<noteq> None
        \<and> duplicate_signature (body j) = duplicate_signature (body i)} = {}
   \<and> allowed (safety (safety_input_of i) trusted)
   \<and> (\<exists>ps. pull_requests inp = Available ps \<and> filter (links_issue (number i)) ps = [])
   \<and> set (required_capabilities (body i)) \<subseteq> {n. bm_get (capabilities inp) n = Some Satisfied}
   \<and> {d \<in> set (dependency_numbers (body i)). \<not> closed (dependency_target (known_issues inp) d)
        \<and> \<not> excused (queue_policy inp) i (dependency_target (known_issues inp) d)} = {}
   \<and> {j \<in> set (distinct_issues (active_issues inp)). shares_path i j} = {}
   \<and> (case bm_get (no_output_streaks inp) (number i) of Some s \<Rightarrow> s < 2 | None \<Rightarrow> True)"

lemma no_blocking_label:
  "find (\<lambda>b. has_exact_label i (lit (fst b))) BLOCKING_LABELS = None
     \<longleftrightarrow> set (labels i) \<inter> lit ` {''needs-classify'', ''groom:proposed'', ''autospec:needs-human'',
       ''autospec:blocked-prerequisite''} = {}"
  by (auto simp: find_None_iff BLOCKING_LABELS_def has_exact_label_def list_ex_iff)

lemma eligible_default:
  "\<not> closed i \<Longrightarrow> is_dispatch_eligible i default_policy \<longleftrightarrow> has_label (labels i) (lit ''auto-implement'')"
  by (simp add: is_dispatch_eligible_def evaluate_dispatch_eligibility_def default_policy_def
      retired_match_def DISPATCH_ELIGIBILITY_LABEL_def)

lemma no_owner:
  assumes "i \<in> set issues" "\<not> closed i"
  shows "duplicate_owner i (signature_owners issues) = None \<longleftrightarrow>
    {j \<in> set issues. number j < number i \<and> \<not> closed j \<and> duplicate_signature (body j) \<noteq> None
        \<and> duplicate_signature (body j) = duplicate_signature (body i)} = {}"
proof (cases "duplicate_signature (body i)")
  case None
  then show ?thesis using duplicate_owner_exact [OF assms] by auto
next
  case (Some s)
  then have "signed_by issues s \<noteq> {}" using assms by (auto simp: signed_by_def)
  then have "Min (signed_by issues s) < number i \<longleftrightarrow> (\<exists>n \<in> signed_by issues s. n < number i)"
    by (rule Min_less_iff [OF finite_signed])
  then show ?thesis
    using duplicate_owner_exact [OF assms] Some by (auto simp: signed_by_def)
qed

lemma no_linked_pr:
  "linked_pr_with_nonterminal_checks e n = NoPr \<longleftrightarrow> (\<exists>ps. e = Available ps \<and> filter (links_issue n) ps = [])"
proof (cases e)
  case (Available ps)
  have "sort (map pull_number (filter (links_issue n) ps)) = [] \<longleftrightarrow> filter (links_issue n) ps = []"
    by (metis length_0_conv length_map length_sort)
  with Available show ?thesis
    by (auto simp: linked_pr_with_nonterminal_checks_def split: list.splits)
qed (simp add: linked_pr_with_nonterminal_checks_def)

lemma no_unmet_capability:
  "unmet_capabilities b obs = [] \<longleftrightarrow> set (required_capabilities b) \<subseteq> {n. bm_get obs n = Some Satisfied}"
proof -
  have "unmet_capabilities b obs = [] \<longleftrightarrow> set (unmet_capabilities b obs) = {}" by simp
  then show ?thesis by (auto simp: unmet_capabilities_def)
qed

lemma no_unmet_dependency:
  "fst (evaluate_dependencies i known p) = [] \<longleftrightarrow> {d \<in> set (dependency_numbers (body i)).
     \<not> closed (dependency_target known d) \<and> \<not> excused p i (dependency_target known d)} = {}"
proof -
  obtain u c r where e: "evaluate_each i known p (dependency_numbers (body i)) = (u, c, r)"
    by (metis prod_cases3)
  then have "fst (evaluate_dependencies i known p) = [] \<longleftrightarrow> set u = {}"
    by (simp add: evaluate_dependencies_def)
  with evaluate_each_sets [OF e] show ?thesis by simp
qed

lemma clears_dispatchable:
  assumes "i \<in> set (selected inp)"
  shows "clears safety (planner_env inp trusted) i \<longleftrightarrow> dispatchable safety inp trusted i"
proof -
  let ?issues = "distinct_issues (candidates inp) @ distinct_issues (active_issues inp)"
  have i: "\<not> closed i" "i \<in> set ?issues" using assms by (auto simp: selected_def)
  have streak: "streak_ok (planner_env inp trusted) i
      = (case bm_get (no_output_streaks inp) (number i) of Some s \<Rightarrow> s < 2 | None \<Rightarrow> True)"
    by (auto simp: streak_ok_def planner_env_def from_trailing_streak_def WITHDRAWAL_THRESHOLD_def
        withdrawn_def split: option.splits)
  have active: "(\<forall>(n, qs) \<in> set (env_active_paths (planner_env inp trusted)). set (extract_paths (body i)) \<inter> set qs = {})
      \<longleftrightarrow> {j \<in> set (distinct_issues (active_issues inp)). shares_path i j} = {}"
    by (auto simp: planner_env_def shares_path_def)
  show ?thesis
    unfolding clears_def dispatchable_def no_blocking_label eligible_default [OF i(1)] streak active
      no_unmet_capability no_unmet_dependency no_linked_pr is_question_title_def
    by (simp add: planner_env_def no_owner [OF i(2,1)] conj_comms cong: conj_cong)
qed

abbreviation planned :: "(safety_input \<Rightarrow> ustr list \<Rightarrow> safety_decision) \<Rightarrow> queue_input \<Rightarrow> ustr list \<Rightarrow> queue_plan" where
  "planned \<equiv> plan_ready_queue_with_trusted_actors"

abbreviation ready_issues :: "(safety_input \<Rightarrow> ustr list \<Rightarrow> safety_decision) \<Rightarrow> queue_input \<Rightarrow> ustr list
    \<Rightarrow> remote_issue set" where
  "ready_issues safety inp trusted \<equiv> view_issue ` set (plan_ready (planned safety inp trusted))"

lemma ready_greedy:
  "greedy (dispatchable safety inp trusted) (set (selected inp)) (ready_issues safety inp trusted)"
proof -
  obtain r b c where ok: "placed_ok safety (planner_env inp trusted) (selected inp) (r, b, c)"
    and r: "plan_ready (planned safety inp trusted) = order_frontier (known_issues inp) r"
    by (rule plan_lists)
  have "ready_issues safety inp trusted = view_issue ` set r"
    by (simp add: r set_order_frontier image_image)
  with ok have "greedy (clears safety (planner_env inp trusted)) (set (selected inp)) (ready_issues safety inp trusted)"
    by (simp add: placed_ok_def)
  then show ?thesis
    unfolding greedy_def by (simp add: clears_dispatchable cong: conj_cong)
qed

text \<open>C10: Dispatch is exact: whatever the safety policy answers, the ready issues are the selected open issues
  that carry the eligibility label and no blocking one, ask no question, are no duplicate of a lower-numbered
  open issue, are allowed, have no pull request under way, miss no capability, wait for no dependency, touch
  no path of a claimed issue, are not withdrawn, and share no path with a lower-numbered ready issue. No issue
  that fails a gate is ready, and none that passes them all is left out.\<close>

theorem ready_exact:
  "ready_issues safety inp trusted = {i \<in> set (selected inp). dispatchable safety inp trusted i
     \<and> {j \<in> ready_issues safety inp trusted. number j < number i \<and> shares_path i j} = {}}"
  by (rule ready_greedy [unfolded greedy_def])

section \<open>Every issue is placed once\<close>

lemma selected_partition:
  "mset (map view_issue (plan_ready (planned safety inp trusted) @ plan_blocked (planned safety inp trusted)
      @ plan_conflicts (planned safety inp trusted))) = mset (selected inp)"
proof -
  obtain r b c where "placed_ok safety (planner_env inp trusted) (selected inp) (r, b, c)"
    "plan_ready (planned safety inp trusted) = order_frontier (known_issues inp) r"
    "plan_blocked (planned safety inp trusted) = b" "plan_conflicts (planned safety inp trusted) = c"
    by (rule plan_lists)
  then show ?thesis by (simp add: placed_ok_def mset_order_frontier del: mset_map)
qed

text \<open>C11: The plan is a partition: every open issue of the tracker that the policy selects is in exactly one of
  the lists ready, blocked and conflicts, the first record with a number standing for it; blocked and
  conflicting views carry a reason, ready ones a rationale instead, and the counts add up.\<close>

theorem plan_partitions:
  "mset (map view_issue (plan_ready (planned safety inp trusted) @ plan_blocked (planned safety inp trusted)
      @ plan_conflicts (planned safety inp trusted))) = mset (selected inp)
   \<and> distinct (map number (selected inp))
   \<and> set (selected inp) = {i. find (\<lambda>j. number j = number i) (candidates inp) = Some i \<and> \<not> closed i
       \<and> (only_issues (queue_policy inp) = [] \<or> number i \<in> set (only_issues (queue_policy inp)))}
   \<and> list_all (\<lambda>v. view_reason v = None \<and> readiness v = Some (readiness_rationale v))
       (plan_ready (planned safety inp trusted))
   \<and> list_all (\<lambda>v. view_reason v \<noteq> None)
       (plan_blocked (planned safety inp trusted) @ plan_conflicts (planned safety inp trusted))
   \<and> candidate_count (plan_counts (planned safety inp trusted))
     = ready_count (plan_counts (planned safety inp trusted)) + blocked_count (plan_counts (planned safety inp trusted))
       + path_conflicted (plan_counts (planned safety inp trusted))"
proof -
  obtain r b c where ok: "placed_ok safety (planner_env inp trusted) (selected inp) (r, b, c)"
    and pl: "place_all safety (planner_env inp trusted) (selected inp) = (r, b, c)"
    and f: "plan_ready (planned safety inp trusted) = order_frontier (known_issues inp) r"
      "plan_blocked (planned safety inp trusted) = b" "plan_conflicts (planned safety inp trusted) = c"
    by (rule plan_lists)
  have m: "mset (map view_issue (order_frontier (known_issues inp) r @ b @ c)) = mset (selected inp)"
    using selected_partition [of safety inp trusted] by (simp only: f)
  have "distinct (map number (selected inp))"
    using selected_numbers [of inp] by (simp add: strict_sorted_iff)
  moreover have "set (selected inp) = {i. find (\<lambda>j. number j = number i) (candidates inp) = Some i \<and> \<not> closed i
       \<and> (only_issues (queue_policy inp) = [] \<or> number i \<in> set (only_issues (queue_policy inp)))}"
    by (auto simp: selected_def mem_distinct_issues)
  moreover have "list_all (\<lambda>v. view_reason v = None \<and> readiness v = Some (readiness_rationale v))
      (order_frontier (known_issues inp) r)"
    using ok by (auto simp: list_all_iff set_order_frontier placed_ok_def rank_view_def Let_def readiness_rationale_def)
  moreover have "list_all (\<lambda>v. view_reason v \<noteq> None) (b @ c)"
    using ok by (simp add: placed_ok_def list_all_iff)
  moreover have "length (selected inp) = length (order_frontier (known_issues inp) r) + length b + length c"
    using m by (metis add.assoc length_append length_map size_mset)
  then have "candidate_count (plan_counts (planned safety inp trusted))
     = ready_count (plan_counts (planned safety inp trusted)) + blocked_count (plan_counts (planned safety inp trusted))
       + path_conflicted (plan_counts (planned safety inp trusted))"
    using f pl by (simp add: plan_ready_queue_with_trusted_actors_def Let_def queue_gate_counts_def)
  ultimately show ?thesis using m by (simp only: f)
qed

section \<open>The frontier\<close>

lemma sorted_wrt_pairs:
  "distinct (map f xs) \<Longrightarrow> (\<And>x y. x \<in> set xs \<Longrightarrow> y \<in> set xs \<Longrightarrow> f x \<noteq> f y \<Longrightarrow> P x y) \<Longrightarrow> sorted_wrt P xs"
  by (induction xs) force+

lemma ready_numbers_distinct:
  "distinct (map (\<lambda>v. number (view_issue v)) (plan_ready (planned safety inp trusted)))"
proof -
  have "distinct (map number (map view_issue (plan_ready (planned safety inp trusted)
      @ plan_blocked (planned safety inp trusted) @ plan_conflicts (planned safety inp trusted))))"
    using selected_numbers [of inp] selected_partition [of safety inp trusted]
    by (metis mset_map mset_eq_imp_distinct_iff strict_sorted_iff)
  then show ?thesis by (simp add: comp_def)
qed

lemma ready_pair:
  assumes "i \<in> ready_issues safety inp trusted" "j \<in> ready_issues safety inp trusted" "number i < number j"
  shows "\<not> shares_path j i"
    and "duplicate_signature (body i) \<noteq> None \<Longrightarrow> duplicate_signature (body i) \<noteq> duplicate_signature (body j)"
proof -
  have ij: "i \<in> set (selected inp)" "dispatchable safety inp trusted j"
    "{k \<in> ready_issues safety inp trusted. number k < number j \<and> shares_path j k} = {}"
    using assms(1,2) ready_greedy [of safety inp trusted] unfolding greedy_def by blast+
  show "\<not> shares_path j i" using ij(3) assms(1,3) by blast
  have "i \<in> set (distinct_issues (candidates inp))" "\<not> closed i" using ij(1) by (simp_all add: selected_def)
  then show "duplicate_signature (body i) \<noteq> None \<Longrightarrow> duplicate_signature (body i) \<noteq> duplicate_signature (body j)"
    using ij(2) assms(3) unfolding dispatchable_def by blast
qed

lemma ready_view_paths:
  "v \<in> set (plan_ready (planned safety inp trusted)) \<Longrightarrow> view_paths v = extract_paths (body (view_issue v))"
proof -
  obtain r b c where ok: "placed_ok safety (planner_env inp trusted) (selected inp) (r, b, c)"
    and f: "plan_ready (planned safety inp trusted) = order_frontier (known_issues inp) r"
    by (rule plan_lists)
  assume "v \<in> set (plan_ready (planned safety inp trusted))"
  then obtain w where "w \<in> set r" "v = rank_view (known_issues inp) (reverse_dependency_edges (known_issues inp)) w"
    by (auto simp: f set_order_frontier)
  with ok show ?thesis by (simp add: placed_ok_def)
qed

text \<open>Ready work never collides: no two ready views are the same issue, name a common path or carry the same
  duplicate signature, in whatever order the frontier lists them.\<close>

theorem ready_never_overlaps:
  "sorted_wrt (\<lambda>v w. number (view_issue v) \<noteq> number (view_issue w) \<and> set (view_paths v) \<inter> set (view_paths w) = {}
      \<and> {duplicate_signature (body (view_issue v))} \<inter> {duplicate_signature (body (view_issue w))} \<subseteq> {None})
    (plan_ready (planned safety inp trusted))"
proof (rule sorted_wrt_pairs [OF ready_numbers_distinct], goal_cases)
  case (1 v w)
  have rv: "view_issue v \<in> ready_issues safety inp trusted" "view_issue w \<in> ready_issues safety inp trusted"
    using 1(1,2) by simp_all
  from 1(3) have "number (view_issue v) < number (view_issue w) \<or> number (view_issue w) < number (view_issue v)"
    by (simp add: neq_iff)
  then have "\<not> shares_path (view_issue v) (view_issue w)
      \<and> (duplicate_signature (body (view_issue v)) = duplicate_signature (body (view_issue w))
         \<longrightarrow> duplicate_signature (body (view_issue v)) = None)"
    using ready_pair [OF rv] ready_pair [OF rv(2,1)] by (metis shares_path_def Int_commute)
  then show ?case
    using 1(3) ready_view_paths [OF 1(1)] ready_view_paths [OF 1(2)] by (auto simp: shares_path_def)
qed

lemma known_issues_ok: "bm_ok (dependencies inp) \<Longrightarrow> bm_ok (known_issues inp)"
proof -
  have "bm_ok m \<Longrightarrow> bm_ok (fold (\<lambda>i. bm_insert (number i) i) js m)" for js and m :: "(u64, remote_issue) bmap"
    by (induction js arbitrary: m) (simp_all add: bm_ok_insert)
  then show "bm_ok (dependencies inp) \<Longrightarrow> bm_ok (known_issues inp)" by (simp add: known_issues_def)
qed

text \<open>C12: The frontier is ordered by what its issues unblock: the number a view carries is the number of open
  issues that wait on it through any chain of declared dependencies, the views descend in it, and equal
  ones ascend by issue number.\<close>

theorem frontier_by_unblocking:
  assumes "bm_ok (dependencies inp)"
  shows "list_all (\<lambda>v. unblocks v = card ((gates (known_issues inp))\<^sup>+ `` {number (view_issue v)}
      - {number (view_issue v)})) (plan_ready (planned safety inp trusted))
    \<and> sorted_wrt (\<lambda>v w. unblocks w < unblocks v
        \<or> (unblocks v = unblocks w \<and> number (view_issue v) < number (view_issue w)))
      (plan_ready (planned safety inp trusted))"
proof -
  obtain r b c where ok: "placed_ok safety (planner_env inp trusted) (selected inp) (r, b, c)"
    and f: "plan_ready (planned safety inp trusted) = order_frontier (known_issues inp) r"
    by (rule plan_lists)
  have "unblocks (rank_view (known_issues inp) (reverse_dependency_edges (known_issues inp)) v)
      = card ((gates (known_issues inp))\<^sup>+ `` {number (view_issue v)} - {number (view_issue v)})" for v
    by (simp add: rank_view_def Let_def unblocking_value_card [OF known_issues_ok [OF assms]])
  then have count: "list_all (\<lambda>v. unblocks v = card ((gates (known_issues inp))\<^sup>+ `` {number (view_issue v)}
      - {number (view_issue v)})) (plan_ready (planned safety inp trusted))"
    by (auto simp: f set_order_frontier list_all_iff)
  have sorted: "sorted_wrt (\<lambda>v w. frontier_key v \<le> frontier_key w) (plan_ready (planned safety inp trusted))"
    by (simp only: f order_frontier_def sorted_wrt_map [symmetric] sorted_sort_key)
  have differ: "sorted_wrt (\<lambda>v w. number (view_issue v) \<noteq> number (view_issue w)) (plan_ready (planned safety inp trusted))"
    using ready_numbers_distinct by (rule sorted_wrt_pairs)
  have "sorted_wrt (\<lambda>v w. frontier_key v \<le> frontier_key w \<and> number (view_issue v) \<noteq> number (view_issue w))
      (plan_ready (planned safety inp trusted))"
    using sorted differ by (simp add: sorted_wrt_iff_nth_less)
  then have "sorted_wrt (\<lambda>v w. unblocks w < unblocks v
        \<or> (unblocks v = unblocks w \<and> number (view_issue v) < number (view_issue w)))
      (plan_ready (planned safety inp trusted))"
    by (rule sorted_wrt_mono_rel [rotated]) (auto simp: frontier_key_def less_eq_prod_def)
  with count show ?thesis ..
qed

text \<open>A plan: issue 2 waits on issue 3, which is ready and unblocks it.\<close>

definition sample_ready :: remote_issue where
  "sample_ready = \<lparr>number = 3, title = [], body = [], labels = [lit ''auto-implement''], author = [],
     closed = False\<rparr>"

definition sample_input :: queue_input where
  "sample_input = \<lparr>candidates = [sample_waiting 2 ''3'', sample_ready], active_issues = [], dependencies = [],
     pull_requests = Available [], queue_policy = new_queue_policy 2 4, capabilities = [], no_output_streaks = []\<rparr>"

definition sample_allow :: "safety_input \<Rightarrow> ustr list \<Rightarrow> safety_decision" where
  "sample_allow i trusted = \<lparr>allowed = True, safety_reason = []\<rparr>"

lemma sample_distinct:
  "distinct_issues [sample_waiting 2 ''3'', sample_ready] = [sample_waiting 2 ''3'', sample_ready]"
  "distinct_issues [] = []"
  by (simp_all add: distinct_issues_def deduplicate_issues_def sample_waiting_def sample_ready_def bm_values_def)

lemma empty_body:
  "extract_paths [] = []" "required_capabilities [] = []" "duplicate_signature [] = None"
  by (simp_all add: markdown_section_def markdown_sections_def extract_paths_def required_capabilities_def
      backticked_def str_lines_def bs_of_list_def duplicate_signature_def normalize_whitespace_def
      files_touched_token_def)

lemma sample_known_issues: "known_issues sample_input = [(2, sample_waiting 2 ''3''), (3, sample_ready)]"
  by (simp add: known_issues_def sample_input_def sample_distinct) (simp add: sample_waiting_def sample_ready_def)

lemma sample_selected: "selected sample_input = [sample_waiting 2 ''3'', sample_ready]"
  by (simp add: selected_def sample_input_def sample_distinct new_queue_policy_def)
     (simp add: sample_waiting_def sample_ready_def)

lemmas eligibility_eval = BLOCKING_LABELS_def has_exact_label_def is_dispatch_eligible_def
  evaluate_dispatch_eligibility_def has_label_def default_policy_def retired_match_def
  DISPATCH_ELIGIBILITY_LABEL_def

lemma sample_held: "\<exists>w. place_issue safety env ready (sample_waiting 2 ''3'') = Held w"
  by (simp add: place_issue_def sample_waiting_def eligibility_eval held_def)

lemma sample_placed:
  "\<exists>v. place_issue sample_allow (planner_env sample_input []) [] sample_ready = Ready v \<and> view_issue v = sample_ready"
  by (simp add: place_issue_def sample_ready_def eligibility_eval held_def is_question_title_def trim_end_def
      strip_suffix_def strip_prefix_def duplicate_owner_def empty_body linked_pr_with_nonterminal_checks_def
      planner_env_def sample_input_def place_by_dependencies_def unmet_capabilities_def evaluate_dependencies_def
      dependency_numbers_Nil place_by_paths_def Let_def plain_view_def sample_distinct sample_allow_def)

lemma sample_unblocks:
  "unblocking_value 3 (known_issues sample_input) (reverse_dependency_edges (known_issues sample_input)) = 1"
proof -
  have "reverse_dependency_edges (known_issues sample_input) = [(3, [2])]"
    by (simp add: sample_known_issues reverse_dependency_edges_def reverse_edges_of_def sample_waiting_def
        sample_ready_def sample_dependencies dependency_numbers_Nil reverse_edge_def bs_insert_def)
  then show ?thesis
    by (simp add: sample_known_issues unblocking_value_def dependents_def push_dependent_def bs_insert_def
        known_open_def sample_waiting_def)
qed

lemma sample_plan:
  "\<exists>v. plan_ready (planned sample_allow sample_input []) = [v] \<and> number (view_issue v) = 3 \<and> unblocks v = 1"
proof -
  obtain w where w: "place_issue sample_allow (planner_env sample_input []) [] (sample_waiting 2 ''3'') = Held w"
    using sample_held by blast
  obtain v where v: "place_issue sample_allow (planner_env sample_input []) [] sample_ready = Ready v"
    "view_issue v = sample_ready" using sample_placed by blast
  have p: "place_all sample_allow (planner_env sample_input []) (selected sample_input) = ([v], [w], [])"
    by (simp add: place_all_def sample_selected place_step_def w v)
  have k: "env_known (planner_env sample_input []) = known_issues sample_input" by (simp add: planner_env_def)
  have n: "number (view_issue v) = 3" by (simp add: v sample_ready_def)
  show ?thesis
    by (simp add: plan_ready_queue_with_trusted_actors_def Let_def p k order_frontier_def rank_view_def n
        sample_unblocks)
qed

theorem frontier_by_unblocking_witness:
  "\<exists>v. plan_ready (planned sample_allow sample_input []) = [v]
     \<and> card ((gates (known_issues sample_input))\<^sup>+ `` {3} - {3}) = 1"
proof -
  obtain v where v: "plan_ready (planned sample_allow sample_input []) = [v]" "number (view_issue v) = 3"
    "unblocks v = 1" using sample_plan by blast
  have "bm_ok (dependencies sample_input)" by (simp add: sample_input_def)
  from frontier_by_unblocking [OF this, of sample_allow "[]"]
  show ?thesis by (simp add: v)
qed

section \<open>The batch\<close>

lemma choose_batch:
  "set (choose_batch n ready) \<subseteq> set ready" "length (choose_batch n ready) \<le> n"
  "take 1 (choose_batch n ready) = (if n = 0 then [] else take 1 ready)"
  "length (choose_batch n ready) < 2 \<or> list_all (\<lambda>v. parallel_safe v \<noteq> Some False) (choose_batch n ready)"
  by (cases ready; auto simp: choose_batch_def list_all_iff dest!: in_set_takeD split: if_splits)+

lemma ready_parallel_safe:
  "v \<in> set (plan_ready (planned safety inp trusted))
    \<Longrightarrow> parallel_safe v = Some (serialization_labels (view_issue v) = [])"
proof -
  obtain r b c where ok: "placed_ok safety (planner_env inp trusted) (selected inp) (r, b, c)"
    and f: "plan_ready (planned safety inp trusted) = order_frontier (known_issues inp) r"
    by (rule plan_lists)
  assume "v \<in> set (plan_ready (planned safety inp trusted))"
  then obtain w where "w \<in> set r" "v = rank_view (known_issues inp) (reverse_dependency_edges (known_issues inp)) w"
    by (auto simp: f set_order_frontier)
  with ok show ?thesis by (simp add: placed_ok_def)
qed

lemma plan_batch_chosen:
  "plan_batch (planned safety inp trusted) = choose_batch (effective_batch_size (queue_policy inp)
      (worker_cap_of (queue_policy inp) (length (plan_claimed (planned safety inp trusted)))))
    (plan_ready (planned safety inp trusted))"
proof -
  obtain r b c where "place_all safety (planner_env inp trusted) (selected inp) = (r, b, c)"
    by (metis prod_cases3)
  then show ?thesis by (simp add: plan_ready_queue_with_trusted_actors_def Let_def)
qed

lemma no_serialization_label:
  "serialization_labels i = [] \<longleftrightarrow> set (labels i)
     \<inter> lit ` {''reasoning:deep'', ''priority:high'', ''regression'', ''audit'', ''release''} = {}"
  by (auto simp: serialization_labels_def SERIAL_LABELS_def list_ex_iff filter_empty_conv)

text \<open>The batch keeps to the worker cap. It is taken from the ready frontier, never exceeds the batch size,
  and with the claimed issues never exceeds the repository's workers unless these were exceeded before; it
  starts with the head of the frontier, and is empty only when no slot is free or nothing is ready; and an
  issue that has to run alone is alone in it.\<close>

theorem batch_within_cap:
  "set (plan_batch (planned safety inp trusted)) \<subseteq> set (plan_ready (planned safety inp trusted))
   \<and> length (plan_batch (planned safety inp trusted)) \<le> batch_size (queue_policy inp)
   \<and> (if max_repo_workers (queue_policy inp) = 0 then True
      else length (plan_claimed (planned safety inp trusted)) + length (plan_batch (planned safety inp trusted))
        \<le> max (length (plan_claimed (planned safety inp trusted))) (max_repo_workers (queue_policy inp)))
   \<and> take 1 (plan_batch (planned safety inp trusted))
     = (if batch_size (queue_policy inp) = 0
          \<or> (0 < max_repo_workers (queue_policy inp)
             \<and> max_repo_workers (queue_policy inp) \<le> length (plan_claimed (planned safety inp trusted)))
        then [] else take 1 (plan_ready (planned safety inp trusted)))
   \<and> (length (plan_batch (planned safety inp trusted)) < 2
      \<or> list_all (\<lambda>v. set (labels (view_issue v))
            \<inter> lit ` {''reasoning:deep'', ''priority:high'', ''regression'', ''audit'', ''release''} = {})
          (plan_batch (planned safety inp trusted)))"
proof -
  let ?n = "effective_batch_size (queue_policy inp)
      (worker_cap_of (queue_policy inp) (length (plan_claimed (planned safety inp trusted))))"
  let ?batch = "plan_batch (planned safety inp trusted)"
  note c = choose_batch [of ?n "plan_ready (planned safety inp trusted)", folded plan_batch_chosen]
  have n: "?n \<le> batch_size (queue_policy inp)"
    "max_repo_workers (queue_policy inp) \<noteq> 0 \<Longrightarrow> length (plan_claimed (planned safety inp trusted)) + ?n
        \<le> max (length (plan_claimed (planned safety inp trusted))) (max_repo_workers (queue_policy inp))"
    "?n = 0 \<longleftrightarrow> batch_size (queue_policy inp) = 0 \<or> (0 < max_repo_workers (queue_policy inp)
       \<and> max_repo_workers (queue_policy inp) \<le> length (plan_claimed (planned safety inp trusted)))"
    by (auto simp: effective_batch_size_def worker_cap_of_def)
  have "list_all (\<lambda>v. set (labels (view_issue v))
      \<inter> lit ` {''reasoning:deep'', ''priority:high'', ''regression'', ''audit'', ''release''} = {}) ?batch"
    if "list_all (\<lambda>v. parallel_safe v \<noteq> Some False) ?batch"
    unfolding list_all_iff
  proof
    fix v
    assume v: "v \<in> set ?batch"
    then have "parallel_safe v = Some (serialization_labels (view_issue v) = [])"
      using c(1) by (intro ready_parallel_safe) blast
    with v that show "set (labels (view_issue v))
      \<inter> lit ` {''reasoning:deep'', ''priority:high'', ''regression'', ''audit'', ''release''} = {}"
      by (simp only: list_all_iff no_serialization_label [symmetric]) auto
  qed
  moreover have "length ?batch \<le> batch_size (queue_policy inp)" using c(2) n(1) by simp
  moreover have "if max_repo_workers (queue_policy inp) = 0 then True
      else length (plan_claimed (planned safety inp trusted)) + length ?batch
        \<le> max (length (plan_claimed (planned safety inp trusted))) (max_repo_workers (queue_policy inp))"
    using c(2) n(2) by auto
  ultimately show ?thesis using c(1,3,4) n(3) by auto
qed

end
