(* ===== verification/Safety_Policy.thy ===== *)
theory Safety_Policy
  imports Safety_Section Ready_Safety
begin

text \<open>
  What the claim safety policy guarantees: how little a trusted actor can change, what a written review does to the
  next claim, and what the ready queue inherits from the policy.
\<close>

section \<open>What trust changes\<close>

definition lint_text :: "ustr \<Rightarrow> ustr \<Rightarrow> ustr" where
  "lint_text head doc = ascii_lower (head @ [10] @ strip_guardian_skips doc)"

definition must_block :: "unicode \<Rightarrow> ustr \<Rightarrow> bool" where
  "must_block u t \<longleftrightarrow> list_ex (\<lambda>found. found) [contains_production_destruction t, contains_secret_exfiltration u t,
     contains_credential_printing u t, contains_instruction_bypass t, contains_ci_or_review_bypass t,
     contains_auth_backdoor u t, destructive_shell t]"

definition may_harm :: "ustr \<Rightarrow> bool" where
  "may_harm t \<longleftrightarrow> contains_vague_data_cleanup t \<or> mentions_production_or_infra_touch (strip_out_of_scope_sections t)"

lemma has_severity_append [simp]: "has_severity s (a @ b) \<longleftrightarrow> has_severity s a \<or> has_severity s b"
  by (simp add: has_severity_def)

lemma has_severity_add [simp]: "has_severity s (add found s' r p) \<longleftrightarrow> found \<and> s' = s"
  by (simp add: has_severity_def add_def)

lemma filter_add [simp]:
  "filter (\<lambda>f. rule_id f \<noteq> a \<and> rule_id f \<noteq> b) (add found s r p) = add (found \<and> r \<noteq> a \<and> r \<noteq> b) s r p"
  by (simp add: add_def)

lemma rule_add [simp]: "list_ex (\<lambda>f. rule_id f = r) (add found s r' p) \<longleftrightarrow> found \<and> r' = r"
  by (simp add: add_def)

lemma raw_block: "has_severity ''block'' (raw_findings u t) \<longleftrightarrow> must_block u t"
  by (simp add: raw_findings_def must_block_def)

lemma raw_ambiguous: "has_severity ''ambiguous'' (raw_findings u t) \<longleftrightarrow> contains_weakened_security t \<or> may_harm t"
  by (simp add: raw_findings_def may_harm_def) blast

definition reset_findings :: "finding list \<Rightarrow> finding list" where
  "reset_findings fs = filter (\<lambda>f. rule_id f \<noteq> ''vague-data-cleanup'' \<and> rule_id f \<noteq> ''production-or-infra-touch'') fs
     @ [\<lparr>severity = ''info'', rule_id = ''trusted:test_data_reset'', pattern_text = ''configured trusted actor''\<rparr>]"

lemma has_severity_one [simp]:
  "has_severity s [\<lparr>severity = s', rule_id = r, pattern_text = p\<rparr>] \<longleftrightarrow> s' = s"
  by (simp add: has_severity_def)

lemma reset_block: "has_severity ''block'' (reset_findings (raw_findings u t)) \<longleftrightarrow> must_block u t"
  by (simp add: reset_findings_def raw_findings_def must_block_def)

lemma reset_ambiguous:
  "has_severity ''ambiguous'' (reset_findings (raw_findings u t)) \<longleftrightarrow> contains_weakened_security t"
  by (simp add: reset_findings_def raw_findings_def)

lemma raw_untrusted: "\<not> list_ex (\<lambda>f. rule_id f = ''trusted:test_data_reset'') (raw_findings u t)"
  by (simp add: raw_findings_def)

lemma reset_trusted: "list_ex (\<lambda>f. rule_id f = ''trusted:test_data_reset'') (reset_findings fs)"
  by (simp add: reset_findings_def)

lemma lint_verdicts:
  fixes u head doc actor actors
  defines "l \<equiv> lint_issue_intent_with_trusted_actors u head doc actor actors" and "t \<equiv> lint_text head doc"
  shows "blocking l \<longleftrightarrow> must_block u t"
    and "trusted l \<longleftrightarrow> is_trusted_test_reset t actor actors \<and> \<not> must_block u t"
    and "ambiguous l \<longleftrightarrow> (if trusted l then contains_weakened_security t else contains_weakened_security t \<or> may_harm t)"
  unfolding l_def t_def lint_issue_intent_with_trusted_actors_def lint_text_def [symmetric] reset_findings_def [symmetric] Let_def
  by (auto simp: raw_block raw_ambiguous reset_block reset_ambiguous raw_untrusted reset_trusted)

text \<open>C16: Being trusted decides one thing only. Whether a text is blocked does not depend on who wrote it or on whom the
  operator trusts; a trusted author is recognised only for a reset of test databases that says production is out of
  scope and trips no blocking rule; and what that excuses is the vague cleanup and the mention of production or
  infrastructure, never a weakened security control.
\<close>

theorem trust_is_narrow:
  fixes u head doc actor actors
  defines "l \<equiv> lint_issue_intent_with_trusted_actors u head doc actor actors" and "t \<equiv> lint_text head doc"
  shows "(blocking l \<longleftrightarrow> must_block u t)
    \<and> (trusted l \<longleftrightarrow> actor \<in> set actors \<and> is_trusted_test_reset t actor actors \<and> \<not> must_block u t)
    \<and> (ambiguous l \<longleftrightarrow> (if trusted l then contains_weakened_security t else contains_weakened_security t \<or> may_harm t))"
  using lint_verdicts [of u head doc actor actors]
  by (auto simp: l_def t_def is_trusted_test_reset_def)

section \<open>What a written review does\<close>

text \<open>C15: A review that can be written to an issue body is read back as it was written. The new body is the old one with
  its review section replaced, or with the section appended to a body that has none; around the section the text
  before and after it is kept; the next claim reads a pass and gets the body without the section, and refuses any
  other decision; and every later review replaces the section in place.
\<close>

theorem review_section_reads_back:
  assumes "replace_safety_review_section doc d = Inr b"
  shows "\<exists>pre post. b = pre @ render_safety_review_section d @ post
    \<and> ((\<exists>e. doc = pre @ render_safety_review_section e @ post)
       \<or> pre = (if blank doc then [] else trim_end doc @ [10, 10]) \<and> post = [10])
    \<and> reviewed_body_without_safety_section b
        = (if d = ReviewPass then Inr (pre @ post, None) else Inl ''non_pass_safety_decision'')
    \<and> (\<forall>e. replace_safety_review_section b e = Inr (pre @ render_safety_review_section e @ post))"
proof -
  obtain pre post where "b = pre @ render_safety_review_section d @ post" "around_section pre post"
    "(\<exists>e. doc = pre @ render_safety_review_section e @ post)
      \<or> pre = (if blank doc then [] else trim_end doc @ [10, 10]) \<and> post = [10]"
    using replace_cases [OF assms] .
  then show ?thesis using read_section replace_around by blast
qed

lemma first_review: "replace_safety_review_section (lit ''Add a page'') ReviewPass
  = Inr (lit ''Add a page'' @ [10, 10] @ render_safety_review_section ReviewPass @ [10])"
proof -
  have "canonical_safety_review_bounds (lit ''Add a page'') = Inr None"
    by (simp add: canonical_safety_review_bounds_def count_of_eq text_eval SAFETY_BEGIN_MARKER_def SAFETY_END_MARKER_def
        safety_review_heading_positions_def safety_heading_def)
  then show ?thesis by (simp add: replace_safety_review_section_def map_ok_def blank_def Let_def text_eval)
qed

theorem review_section_reads_back_witness:
  "\<exists>pre post. lit ''Add a page'' @ [10, 10] @ render_safety_review_section ReviewPass @ [10]
      = pre @ render_safety_review_section ReviewPass @ post
    \<and> reviewed_body_without_safety_section (lit ''Add a page'' @ [10, 10] @ render_safety_review_section ReviewPass @ [10])
      = Inr (pre @ post, None)"
  using review_section_reads_back [OF first_review] by auto

section \<open>The decision\<close>

lemma claim_decision:
  "allowed (evaluate_claim_safety_with_trusted_actors u inp actors) \<longleftrightarrow>
     lit ''safety:reviewed'' \<in> set (safety_labels inp)
     \<and> set (safety_labels inp) \<inter> lit ` {''security:quarantined'', ''autospec:needs-human''} = {}
     \<and> (case reviewed_body_without_safety_section (safety_body inp) of
          Inl _ \<Rightarrow> False
        | Inr (doc, reviewer) \<Rightarrow>
            let t = lint_text [] (safety_title inp @ [10] @ strip_guardian_skips doc) in
            \<not> must_block u t
            \<and> (if reviewer \<in> Some ` set actors then True
               else if is_trusted_test_reset t (safety_author inp) actors then \<not> contains_weakened_security t
               else \<not> contains_weakened_security t \<and> \<not> may_harm t))"
  by (cases "reviewed_body_without_safety_section (safety_body inp)")
     (auto simp: evaluate_claim_safety_with_trusted_actors_def reject_def Let_def lint_verdicts(1-3)
        split: if_splits option.splits)

text \<open>C14: When an issue may be claimed, exactly: it carries the review label and neither quarantine nor a call for a
  human, its review section is well formed or absent, and its title with the rest of its body trips no blocking
  rule; and unless it trips no ambiguous rule either, a trusted author resets test databases without weakening
  security, or the section in the body names a trusted reviewer, which excuses every ambiguous finding whoever
  wrote the issue.
\<close>

theorem claim_decision_exact:
  "allowed (evaluate_claim_safety_with_trusted_actors u inp actors) \<longleftrightarrow>
     lit ''safety:reviewed'' \<in> set (safety_labels inp)
     \<and> set (safety_labels inp) \<inter> lit ` {''security:quarantined'', ''autospec:needs-human''} = {}
     \<and> (case reviewed_body_without_safety_section (safety_body inp) of
          Inl _ \<Rightarrow> False
        | Inr (doc, reviewer) \<Rightarrow>
            let t = lint_text [] (safety_title inp @ [10] @ strip_guardian_skips doc) in
            \<not> must_block u t
            \<and> (if reviewer \<in> Some ` set actors then True
               else if is_trusted_test_reset t (safety_author inp) actors then \<not> contains_weakened_security t
               else \<not> contains_weakened_security t \<and> \<not> may_harm t))"
  by (rule claim_decision)

section \<open>What the ready queue inherits\<close>

lemma claim_allowed:
  assumes "allowed (evaluate_claim_safety_with_trusted_actors u inp actors)"
  shows "lit ''safety:reviewed'' \<in> set (safety_labels inp)"
    "lit ''security:quarantined'' \<notin> set (safety_labels inp)"
    "\<exists>doc actor. reviewed_body_without_safety_section (safety_body inp) = Inr (doc, actor)
      \<and> \<not> must_block u (lint_text [] (safety_title inp @ [10] @ strip_guardian_skips doc))"
  using assms unfolding claim_decision by (auto simp: Let_def split: sum.splits)


end
