(* ===== verification/Disk.thy ===== *)
theory Disk
  imports Rust_Base
begin

text \<open>
  The part of \<open>std::fs\<close> the state store relies on, over a disk that can fail and lose power. Files are inodes,
  so hard links and the no-op of a rename between two names of one file are part of the model; a directory change
  is on disk once its directory is synchronised, the content of a file once the file is. Every call may fail with
  an error of the system, which the machine takes from a list of faults, and every disk between two calls is recorded.
\<close>

section \<open>The disk\<close>

type_synonym inode = nat

datatype place = Primary | Temporary
datatype folder = RootDir | AutospecDir | StateDir

record entries =
  autospec_dir :: bool
  state_dir :: bool
  primary_entry :: "inode option"
  temporary_entry :: "inode option"

text \<open>\<open>older\<close> are the entries a loss of power may bring back; \<open>content\<close> is \<open>None\<close> for bytes that are not UTF-8.\<close>

record disk =
  entries_now :: entries
  older :: "entries list"
  content :: "inode \<Rightarrow> ustr option"
  synced :: "inode \<Rightarrow> bool"
  next_inode :: inode

definition empty_disk :: disk where
  "empty_disk = \<lparr>entries_now = \<lparr>autospec_dir = False, state_dir = False, primary_entry = None, temporary_entry = None\<rparr>,
     older = [], content = (\<lambda>_. None), synced = (\<lambda>_. True), next_inode = 0\<rparr>"

definition tables :: "disk \<Rightarrow> entries set" where
  "tables d = insert (entries_now d) (set (older d))"

definition reachable :: "entries \<Rightarrow> bool" where
  "reachable t \<longleftrightarrow> autospec_dir t \<and> state_dir t"

fun entry_at :: "place \<Rightarrow> entries \<Rightarrow> inode option" where
  "entry_at Primary t = (if reachable t then primary_entry t else None)"
| "entry_at Temporary t = (if reachable t then temporary_entry t else None)"

definition change :: "entries \<Rightarrow> disk \<Rightarrow> disk" where
  "change t d = d\<lparr>entries_now := t, older := entries_now d # older d\<rparr>"

fun set_entry :: "place \<Rightarrow> inode option \<Rightarrow> entries \<Rightarrow> entries" where
  "set_entry Primary i t = t\<lparr>primary_entry := i\<rparr>"
| "set_entry Temporary i t = t\<lparr>temporary_entry := i\<rparr>"

text \<open>What a loss of power leaves: some entries not yet superseded on disk, and the synchronised contents.\<close>

definition survives :: "disk \<Rightarrow> disk \<Rightarrow> bool" where
  "survives d d' \<longleftrightarrow> entries_now d' \<in> tables d \<and> older d' = [] \<and> synced d' = (\<lambda>_. True)
     \<and> next_inode d' = next_inode d \<and> (\<forall>i. synced d i \<longrightarrow> content d' i = content d i)"

section \<open>The machine\<close>

datatype io_error = NotFound | AlreadyExists | Failed ustr

text \<open>A fault: the error of the system, what a failing write leaves, whether a failing \<open>create_dir_all\<close> made the parent.\<close>

record fault =
  fault_text :: ustr
  torn :: "ustr option"
  half_made :: bool

record machine =
  disk_of :: disk
  faults :: "fault option list"
  visited :: "disk list"

definition boot :: "disk \<Rightarrow> fault option list \<Rightarrow> machine" where
  "boot d fs = \<lparr>disk_of = d, faults = fs, visited = [d]\<rparr>"

type_synonym ('e, 'a) io = "machine \<Rightarrow> ('e + 'a) \<times> machine"

definition ret :: "'a \<Rightarrow> ('e, 'a) io" where
  "ret x m = (Inr x, m)"

definition raise :: "'e \<Rightarrow> ('e, 'a) io" where
  "raise e m = (Inl e, m)"

definition seq :: "('e, 'a) io \<Rightarrow> ('a \<Rightarrow> ('e, 'b) io) \<Rightarrow> ('e, 'b) io" where
  "seq a f m = (case a m of (Inl e, m') \<Rightarrow> (Inl e, m') | (Inr x, m') \<Rightarrow> f x m')"

definition attempt :: "('e, 'a) io \<Rightarrow> ('f, 'e + 'a) io" where
  "attempt a m = (case a m of (r, m') \<Rightarrow> (Inr r, m'))"

definition or_raise :: "('e \<Rightarrow> 'f) \<Rightarrow> ('e, 'a) io \<Rightarrow> ('f, 'a) io" where
  "or_raise f a m = (case a m of (Inl e, m') \<Rightarrow> (Inl (f e), m') | (Inr x, m') \<Rightarrow> (Inr x, m'))"

definition moved :: "disk \<Rightarrow> fault option list \<Rightarrow> machine \<Rightarrow> machine" where
  "moved d fs m = m\<lparr>disk_of := d, faults := fs, visited := visited m @ [d]\<rparr>"

definition system :: "(fault \<Rightarrow> disk \<Rightarrow> disk) \<Rightarrow> (disk \<Rightarrow> (io_error + 'a) \<times> disk) \<Rightarrow> (io_error, 'a) io" where
  "system partly call m = (case faults m of
       Some e # fs \<Rightarrow> (Inl (Failed (fault_text e)), moved (partly e (disk_of m)) fs m)
     | fs \<Rightarrow> (case call (disk_of m) of (r, d) \<Rightarrow> (r, moved d (tl fs) m)))"

section \<open>Calls\<close>

abbreviation unharmed :: "fault \<Rightarrow> disk \<Rightarrow> disk" where
  "unharmed \<equiv> \<lambda>e d. d"

definition read_to_string :: "place \<Rightarrow> (io_error, ustr) io" where
  "read_to_string p = system unharmed (\<lambda>d. case entry_at p (entries_now d) of
       None \<Rightarrow> (Inl NotFound, d)
     | Some i \<Rightarrow> (case content d i of
           None \<Rightarrow> (Inl (Failed (lit ''stream did not contain valid UTF-8'')), d)
         | Some t \<Rightarrow> (Inr t, d)))"

text \<open>\<open>Path::exists\<close> is \<open>false\<close> on every error.\<close>

definition exists_at :: "place \<Rightarrow> ('e, bool) io" where
  "exists_at p = seq (attempt (system unharmed (\<lambda>d. (Inr (entry_at p (entries_now d) \<noteq> None), d))))
     (\<lambda>r. ret (r = Inr True))"

fun folder_exists :: "folder \<Rightarrow> entries \<Rightarrow> bool" where
  "folder_exists RootDir t = True"
| "folder_exists AutospecDir t = autospec_dir t"
| "folder_exists StateDir t = reachable t"

definition folder_exists_at :: "folder \<Rightarrow> ('e, bool) io" where
  "folder_exists_at f = seq (attempt (system unharmed (\<lambda>d. (Inr (folder_exists f (entries_now d)), d))))
     (\<lambda>r. ret (r = Inr True))"

definition make_autospec_dir :: "disk \<Rightarrow> disk" where
  "make_autospec_dir d = (if autospec_dir (entries_now d) then d
     else change ((entries_now d)\<lparr>autospec_dir := True, state_dir := False\<rparr>) d)"

definition make_state_dir :: "disk \<Rightarrow> disk" where
  "make_state_dir d = (if state_dir (entries_now d) then d
     else change ((entries_now d)\<lparr>state_dir := True, primary_entry := None, temporary_entry := None\<rparr>) d)"

definition create_dir_all :: "(io_error, unit) io" where
  "create_dir_all = system (\<lambda>e d. if half_made e then make_autospec_dir d else d)
     (\<lambda>d. (Inr (), make_state_dir (make_autospec_dir d)))"

text \<open>Once a directory is synchronised no loss of power brings back its older entries.\<close>

fun settle_folder :: "folder \<Rightarrow> entries \<Rightarrow> entries \<Rightarrow> entries" where
  "settle_folder RootDir now t = t\<lparr>autospec_dir := autospec_dir now\<rparr>"
| "settle_folder AutospecDir now t = t\<lparr>state_dir := state_dir now\<rparr>"
| "settle_folder StateDir now t = t\<lparr>primary_entry := primary_entry now, temporary_entry := temporary_entry now\<rparr>"

definition sync_folder :: "folder \<Rightarrow> (io_error, unit) io" where
  "sync_folder f = system unharmed (\<lambda>d.
     if folder_exists f (entries_now d)
     then (Inr (), d\<lparr>older := map (settle_folder f (entries_now d)) (older d)\<rparr>)
     else (Inl NotFound, d))"

definition rewrite :: "inode \<Rightarrow> ustr option \<Rightarrow> disk \<Rightarrow> disk" where
  "rewrite i t d = d\<lparr>content := (content d)(i := t), synced := (synced d)(i := False)\<rparr>"

definition new_file :: "place \<Rightarrow> disk \<Rightarrow> (io_error + inode) \<times> disk" where
  "new_file p d = (let i = next_inode d in
     (Inr i, rewrite i (Some []) (change (set_entry p (Some i) (entries_now d)) (d\<lparr>next_inode := i + 1\<rparr>))))"

text \<open>\<open>File::create\<close> truncates the file that is there, whatever other names it has.\<close>

definition create_file :: "place \<Rightarrow> (io_error, inode) io" where
  "create_file p = system unharmed (\<lambda>d.
     if \<not> reachable (entries_now d) then (Inl NotFound, d)
     else (case entry_at p (entries_now d) of Some i \<Rightarrow> (Inr i, rewrite i (Some []) d) | None \<Rightarrow> new_file p d))"

definition create_new_file :: "place \<Rightarrow> (io_error, inode) io" where
  "create_new_file p = system unharmed (\<lambda>d.
     if \<not> reachable (entries_now d) then (Inl NotFound, d)
     else if entry_at p (entries_now d) \<noteq> None then (Inl AlreadyExists, d) else new_file p d)"

definition write_all :: "inode \<Rightarrow> ustr \<Rightarrow> (io_error, unit) io" where
  "write_all i t = system (\<lambda>e. rewrite i (torn e)) (\<lambda>d. (Inr (), rewrite i (Some t) d))"

definition sync_all :: "inode \<Rightarrow> (io_error, unit) io" where
  "sync_all i = system unharmed (\<lambda>d. (Inr (), d\<lparr>synced := (synced d)(i := True)\<rparr>))"

text \<open>A rename between two names of one file does nothing and succeeds.\<close>

definition rename_file :: "place \<Rightarrow> place \<Rightarrow> (io_error, unit) io" where
  "rename_file p q = system unharmed (\<lambda>d. case entry_at p (entries_now d) of
       None \<Rightarrow> (Inl NotFound, d)
     | Some i \<Rightarrow> if entry_at q (entries_now d) = Some i then (Inr (), d)
         else (Inr (), change (set_entry p None (set_entry q (Some i) (entries_now d))) d))"

definition remove_file :: "place \<Rightarrow> (io_error, unit) io" where
  "remove_file p = system unharmed (\<lambda>d. case entry_at p (entries_now d) of
       None \<Rightarrow> (Inl NotFound, d)
     | Some _ \<Rightarrow> (Inr (), change (set_entry p None (entries_now d)) d))"

definition hard_link :: "place \<Rightarrow> place \<Rightarrow> (io_error, unit) io" where
  "hard_link p q = system unharmed (\<lambda>d. case entry_at p (entries_now d) of
       None \<Rightarrow> (Inl NotFound, d)
     | Some i \<Rightarrow> if entry_at q (entries_now d) \<noteq> None then (Inl AlreadyExists, d)
         else (Inr (), change (set_entry q (Some i) (entries_now d)) d))"

section \<open>Weakest preconditions\<close>

text \<open>
  \<open>wp C a Q d\<close>: started on the disk \<open>d\<close> with any faults, \<open>a\<close> passes only through disks with \<open>C\<close> and ends
  with a result and a disk that satisfy \<open>Q\<close>.
\<close>

definition wp :: "(disk \<Rightarrow> bool) \<Rightarrow> ('e, 'a) io \<Rightarrow> ('e + 'a \<Rightarrow> disk \<Rightarrow> bool) \<Rightarrow> disk \<Rightarrow> bool" where
  "wp C a Q d \<longleftrightarrow> (\<forall>m. disk_of m = d \<longrightarrow> (\<exists>ds. visited (snd (a m)) = visited m @ ds \<and> list_all C ds)
     \<and> Q (fst (a m)) (disk_of (snd (a m))))"

lemma wp_ret [intro]: "Q (Inr x) d \<Longrightarrow> wp C (ret x) Q d"
  by (simp add: wp_def ret_def)

lemma wp_raise [intro]: "Q (Inl e) d \<Longrightarrow> wp C (raise e) Q d"
  by (simp add: wp_def raise_def)

lemma wp_seq:
  assumes "wp C a (\<lambda>r d'. case r of Inl e \<Rightarrow> Q (Inl e) d' | Inr x \<Rightarrow> wp C (f x) Q d') d"
  shows "wp C (seq a f) Q d"
  unfolding wp_def
proof (intro allI impI)
  fix m :: machine
  assume m: "disk_of m = d"
  obtain r m' where a: "a m = (r, m')" by (cases "a m")
  note k = assms [unfolded wp_def, rule_format, OF m, unfolded a fst_conv snd_conv]
  obtain ds where ds: "visited m' = visited m @ ds" "list_all C ds" using conjunct1 [OF k] by blast
  note q = conjunct2 [OF k]
  show "(\<exists>ds. visited (snd (seq a f m)) = visited m @ ds \<and> list_all C ds)
      \<and> Q (fst (seq a f m)) (disk_of (snd (seq a f m)))"
  proof (cases r)
    case (Inl e)
    then show ?thesis using a ds q by (simp add: seq_def)
  next
    case (Inr x)
    then obtain ds' where "visited (snd (f x m')) = visited m' @ ds'" "list_all C ds'"
      and "Q (fst (f x m')) (disk_of (snd (f x m')))"
      using q [unfolded Inr sum.case, rule_format, OF refl] by blast
    then show ?thesis using a ds Inr by (auto simp: seq_def)
  qed
qed

lemma wp_attempt: "wp C a (\<lambda>r. Q (Inr r)) d \<Longrightarrow> wp C (attempt a) Q d"
  by (auto simp: wp_def attempt_def split: prod.splits)

lemma wp_or_raise:
  assumes "wp C a (\<lambda>r. Q (case r of Inl e \<Rightarrow> Inl (f e) | Inr x \<Rightarrow> Inr x)) d"
  shows "wp C (or_raise f a) Q d"
proof -
  have "fst (or_raise f a m) = (case fst (a m) of Inl e \<Rightarrow> Inl (f e) | Inr x \<Rightarrow> Inr x)
      \<and> snd (or_raise f a m) = snd (a m)" for m
    by (simp add: or_raise_def split: prod.splits sum.splits)
  then show ?thesis using assms by (simp add: wp_def)
qed

lemma wp_system:
  assumes "\<And>e. C (partly e d) \<and> Q (Inl (Failed (fault_text e))) (partly e d)"
    and "C (snd (call d)) \<and> Q (fst (call d)) (snd (call d))"
  shows "wp C (system partly call) Q d"
  using assms by (auto simp: wp_def system_def moved_def split: list.splits option.splits prod.splits)

lemma wp_mono: "wp C a Q d \<Longrightarrow> (\<And>r d. Q r d \<Longrightarrow> R r d) \<Longrightarrow> wp C a R d"
  unfolding wp_def by blast

text \<open>Steps that keep an invariant whether they fail or not.\<close>

lemma wp_keep: "wp C a (\<lambda>r. I) d \<Longrightarrow> (\<And>x d'. I d' \<Longrightarrow> wp C (f x) (\<lambda>r. I) d') \<Longrightarrow> wp C (seq a f) (\<lambda>r. I) d"
  by (rule wp_seq, erule wp_mono) (simp split: sum.splits)

lemma wp_query:
  assumes "\<And>b. C d \<and> Q (Inr b) d"
  shows "wp C (exists_at p) Q d" "wp C (folder_exists_at f) Q d"
proof -
  have c: "C d" and q: "Q (Inr b) d" for b using assms by blast+
  show "wp C (exists_at p) Q d" "wp C (folder_exists_at f) Q d"
    unfolding exists_at_def folder_exists_at_def by (auto intro!: wp_seq wp_attempt wp_system wp_ret c q)
qed

end
