(* ===== verification/Spec_Storage.thy ===== *)
theory Spec_Storage
  imports Spec_State Disk
begin

text \<open>
  The state document on disk (\<open>state/storage.rs\<close>, \<open>load_or_default\<close>, \<open>initialize_if_absent\<close> and \<open>save\<close> of
  \<open>state/mod.rs\<close>). The texts the standard library gives for paths and errors are the record \<open>texts\<close>; they only
  occur in messages. Folders are synchronised as on Unix.
\<close>

record texts =
  shown :: "place \<Rightarrow> ustr"
  shown_folder :: "folder \<Rightarrow> ustr"
  io_text :: "io_error \<Rightarrow> ustr"

datatype file_state = Missing | Valid spec_state_store | Invalid ustr

definition load_state_file :: "texts \<Rightarrow> place \<Rightarrow> ('e, file_state) io" where
  "load_state_file tx p = seq (attempt (read_to_string p)) (\<lambda>r. ret (case r of
       Inl NotFound \<Rightarrow> Missing
     | Inl e \<Rightarrow> Invalid (lit ''failed to read: '' @ io_text tx e)
     | Inr doc \<Rightarrow> (case parse_store doc of Inr s \<Rightarrow> Valid s | Inl e \<Rightarrow> Invalid e)))"

definition sync_directory :: "texts \<Rightarrow> folder \<Rightarrow> (ustr, unit) io" where
  "sync_directory tx f = or_raise (\<lambda>e. lit ''failed to synchronize spec state directory '' @ shown_folder tx f
     @ lit '': '' @ io_text tx e) (sync_folder f)"

definition promotion_error :: "texts \<Rightarrow> io_error \<Rightarrow> ustr" where
  "promotion_error tx e = lit ''failed to promote temporary spec state file '' @ shown tx Temporary @ lit '' to ''
     @ shown tx Primary @ lit '': '' @ io_text tx e"

definition promote_temporary :: "texts \<Rightarrow> (ustr, unit) io" where
  "promote_temporary tx =
     seq (seq (attempt (rename_file Temporary Primary)) (\<lambda>r. case r of
         Inr u \<Rightarrow> ret ()
       | Inl first \<Rightarrow> seq (exists_at Primary) (\<lambda>there.
           if \<not> there then raise (promotion_error tx first)
           else seq (or_raise (\<lambda>e. lit ''failed to replace spec state file '' @ shown tx Primary
                  @ lit '' after temporary write: '' @ io_text tx e) (remove_file Primary)) (\<lambda>u.
             or_raise (promotion_error tx) (rename_file Temporary Primary)))))
     (\<lambda>u. sync_directory tx StateDir)"

definition sync_created_directories :: "texts \<Rightarrow> bool \<Rightarrow> bool \<Rightarrow> (ustr, unit) io" where
  "sync_created_directories tx autospec_was_missing state_was_missing =
     seq (sync_directory tx StateDir) (\<lambda>u.
     seq (if state_was_missing \<or> autospec_was_missing then sync_directory tx AutospecDir else ret ()) (\<lambda>u.
     if autospec_was_missing then sync_directory tx RootDir else ret ()))"

text \<open>The directories, as \<open>save\<close> and \<open>initialize_if_absent\<close> both prepare them.\<close>

definition prepare_directories :: "texts \<Rightarrow> (ustr, unit) io" where
  "prepare_directories tx =
     seq (folder_exists_at AutospecDir) (\<lambda>autospec_there.
     seq (folder_exists_at StateDir) (\<lambda>state_there.
     seq (or_raise (\<lambda>e. lit ''failed to create spec state directory '' @ shown_folder tx StateDir @ lit '': ''
         @ io_text tx e) create_dir_all) (\<lambda>u.
     sync_created_directories tx (\<not> autospec_there) (\<not> state_there))))"

definition file_error :: "texts \<Rightarrow> string \<Rightarrow> place \<Rightarrow> io_error \<Rightarrow> ustr" where
  "file_error tx what p e = lit what @ shown tx p @ lit '': '' @ io_text tx e"

section \<open>Loading\<close>

definition load_or_default :: "texts \<Rightarrow> (autospec_error, spec_state_store) io" where
  "load_or_default tx = seq (load_state_file tx Primary) (\<lambda>first. case first of
       Valid s \<Rightarrow> ret s
     | _ \<Rightarrow> seq (load_state_file tx Temporary) (\<lambda>second. case second of
           Valid s \<Rightarrow> seq (or_raise OtherError (promote_temporary tx)) (\<lambda>u. ret s)
         | Missing \<Rightarrow> (case first of
               Invalid e \<Rightarrow> raise (IoError (lit ''read'') (shown tx Primary) e)
             | _ \<Rightarrow> ret new_store)
         | Invalid e \<Rightarrow> (case first of
               Invalid e1 \<Rightarrow> raise (IoError (lit ''read'') (shown tx Primary) (e1 @ lit ''; also '' @ e))
             | _ \<Rightarrow> raise (IoError (lit ''read'') (shown tx Temporary) e))))"

section \<open>Saving\<close>

definition save_document :: "texts \<Rightarrow> ustr \<Rightarrow> (ustr, unit) io" where
  "save_document tx doc =
     seq (prepare_directories tx) (\<lambda>u.
     seq (or_raise (file_error tx ''failed to create temporary spec state file '' Temporary) (create_file Temporary)) (\<lambda>h.
     seq (or_raise (file_error tx ''failed to write temporary spec state file '' Temporary) (write_all h doc)) (\<lambda>u.
     seq (or_raise (file_error tx ''failed to synchronize temporary spec state file '' Temporary) (sync_all h)) (\<lambda>u.
     seq (sync_directory tx StateDir) (\<lambda>u.
     promote_temporary tx)))))"

definition save :: "texts \<Rightarrow> spec_state_store \<Rightarrow> (autospec_error, unit) io" where
  "save tx s = (case store_to_json s of
       Inl e \<Rightarrow> raise e
     | Inr doc \<Rightarrow> or_raise OtherError (save_document tx doc))"

section \<open>Initialising\<close>

fun insert_all :: "spec_state_store \<Rightarrow> spec_lifecycle list \<Rightarrow> autospec_error + spec_state_store" where
  "insert_all s [] = Inr s"
| "insert_all s (lc # lcs) = (case insert_lifecycle s lc of
       (s, Inl e) \<Rightarrow> Inl e
     | (s, Inr u) \<Rightarrow> insert_all s lcs)"

definition refuses :: autospec_error where
  "refuses = OtherError (lit ''autospec init refuses to overwrite existing spec state'')"

definition create_temporary :: "texts \<Rightarrow> (autospec_error, inode) io" where
  "create_temporary tx = or_raise (\<lambda>e. case e of
       AlreadyExists \<Rightarrow> refuses
     | _ \<Rightarrow> IoError (lit ''create'') (shown tx Temporary) (io_text tx e)) (create_new_file Temporary)"

definition link_primary :: "texts \<Rightarrow> (autospec_error, unit) io" where
  "link_primary tx = seq (attempt (hard_link Temporary Primary)) (\<lambda>r. case r of
       Inr u \<Rightarrow> ret ()
     | Inl AlreadyExists \<Rightarrow> seq (attempt (remove_file Temporary)) (\<lambda>_. raise refuses)
     | Inl e \<Rightarrow> raise (IoError (lit ''atomically initialize'') (shown tx Primary) (io_text tx e)))"

definition initialize_document :: "texts \<Rightarrow> ustr \<Rightarrow> (autospec_error, unit) io" where
  "initialize_document tx doc =
     seq (exists_at Primary) (\<lambda>p.
     seq (if p then ret True else exists_at Temporary) (\<lambda>there.
     if there then raise refuses else
     seq (or_raise OtherError (prepare_directories tx)) (\<lambda>u.
     seq (create_temporary tx) (\<lambda>h.
     seq (or_raise (OtherError \<circ> file_error tx ''failed to write initialization state file '' Temporary)
       (write_all h doc)) (\<lambda>u.
     seq (or_raise (OtherError \<circ> file_error tx ''failed to synchronize initialization state file '' Temporary)
       (sync_all h)) (\<lambda>u.
     seq (link_primary tx) (\<lambda>u.
     seq (or_raise OtherError (sync_directory tx StateDir)) (\<lambda>u.
     seq (or_raise (OtherError \<circ> file_error tx ''failed to finalize initialization state file '' Temporary)
       (remove_file Temporary)) (\<lambda>u.
     or_raise OtherError (sync_directory tx StateDir))))))))))"

definition initialize_if_absent :: "texts \<Rightarrow> spec_lifecycle list \<Rightarrow> (autospec_error, spec_state_store) io" where
  "initialize_if_absent tx lcs = (case insert_all new_store lcs of
       Inl e \<Rightarrow> raise e
     | Inr s \<Rightarrow> (case store_to_json s of
           Inl e \<Rightarrow> raise e
         | Inr doc \<Rightarrow> seq (initialize_document tx doc) (\<lambda>u. ret s)))"

end
