(* ===== verification/Spec_Crash.thy ===== *)
theory Spec_Crash
  imports Spec_Storage
begin

text \<open>
  Crash safety of the state document: what a loss of power during a save can cost, why an interrupted
  initialisation breaks it, and that initialisation overwrites nothing.
\<close>

section \<open>Safe disks\<close>

definition holds :: "disk \<Rightarrow> inode \<Rightarrow> spec_state_store set \<Rightarrow> bool" where
  "holds d i S \<longleftrightarrow> synced d i \<and> (\<exists>doc. content d i = Some doc \<and> parse_store doc \<in> Inr ` S)"

definition needed :: "entries \<Rightarrow> inode option" where
  "needed t = (case primary_entry t of Some i \<Rightarrow> Some i | None \<Rightarrow> temporary_entry t)"

text \<open>A loss of power that brings back the entries \<open>t\<close> leaves a document that reads as a store of \<open>S\<close>.\<close>

definition table_ok :: "disk \<Rightarrow> spec_state_store set \<Rightarrow> entries \<Rightarrow> bool" where
  "table_ok d S t \<longleftrightarrow> reachable t \<and> (\<exists>i. needed t = Some i \<and> holds d i S)
     \<and> (primary_entry t = None \<or> temporary_entry t \<noteq> primary_entry t)
     \<and> {i. Some i \<in> {primary_entry t, temporary_entry t}} \<subseteq> {..<next_inode d}"

definition safe :: "spec_state_store set \<Rightarrow> disk \<Rightarrow> bool" where
  "safe S d \<longleftrightarrow> (\<forall>t \<in> tables d. table_ok d S t)"

text \<open>The temporary file, if there is one, is nobody's only copy.\<close>

definition scratch :: "disk \<Rightarrow> bool" where
  "scratch d \<longleftrightarrow> (\<forall>i. temporary_entry (entries_now d) = Some i \<longrightarrow> Some i \<notin> needed ` tables d)"

definition settled :: "spec_state_store set \<Rightarrow> disk \<Rightarrow> bool" where
  "settled S d \<longleftrightarrow> safe S d \<and> scratch d"

lemma safe_now: "safe S d \<Longrightarrow> table_ok d S (entries_now d)"
  by (simp add: safe_def tables_def)

lemma safe_reachable [simp]: "safe S d \<Longrightarrow> reachable (entries_now d)"
  using safe_now unfolding table_ok_def by blast

lemma holds_mono: "holds d i S \<Longrightarrow> S \<subseteq> T \<Longrightarrow> holds d i T"
  unfolding holds_def by blast

lemma table_ok_holds:
  assumes "table_ok d S t" "next_inode d \<le> next_inode d'"
    and "\<And>i. needed t = Some i \<Longrightarrow> holds d i S \<Longrightarrow> holds d' i T"
  shows "table_ok d' T t"
proof -
  have "{..<next_inode d} \<subseteq> {..<next_inode d'}" using assms(2) by auto
  then show ?thesis using assms(1,3) unfolding table_ok_def by (meson subset_trans)
qed

lemma safe_mono: "safe S d \<Longrightarrow> S \<subseteq> T \<Longrightarrow> safe T d"
  unfolding safe_def by (blast intro: table_ok_holds [OF _ order_refl] holds_mono)

text \<open>With both directories on disk, synchronising a directory makes the present entries the only ones, or does nothing.\<close>

lemma settle_state: "reachable t \<Longrightarrow> reachable now \<Longrightarrow> settle_folder StateDir now t = now"
  by (simp add: reachable_def)

lemma settle_parent: "f \<noteq> StateDir \<Longrightarrow> reachable t \<Longrightarrow> reachable now \<Longrightarrow> settle_folder f now t = t"
  by (cases f) (simp_all add: reachable_def)

definition after_sync :: "folder \<Rightarrow> disk \<Rightarrow> disk" where
  "after_sync f d = d\<lparr>older := map (settle_folder f (entries_now d)) (older d)\<rparr>"

lemma tables_sync:
  assumes "safe S d"
  shows "tables (after_sync f d) = (if f = StateDir then {entries_now d} else tables d)"
proof -
  have r: "reachable t" if "t \<in> tables d" for t using assms that by (auto simp: safe_def table_ok_def)
  show ?thesis
  proof (cases "f = StateDir")
    case True
    have "set (map (settle_folder StateDir (entries_now d)) (older d)) \<subseteq> {entries_now d}"
      using r settle_state by (auto simp: tables_def)
    then show ?thesis using True by (auto simp: tables_def after_sync_def)
  next
    case False
    have "map (settle_folder f (entries_now d)) (older d) = older d"
      using r settle_parent [OF False] by (intro map_idI) (auto simp: tables_def)
    then show ?thesis using False by (simp add: tables_def after_sync_def)
  qed
qed

lemma table_ok_cong:
  "content d' = content d \<Longrightarrow> synced d' = synced d \<Longrightarrow> next_inode d' = next_inode d \<Longrightarrow> table_ok d' S t = table_ok d S t"
  by (simp add: table_ok_def holds_def)

lemma safe_sync:
  assumes "safe S d"
  shows "safe S (after_sync f d)"
proof -
  have "table_ok (after_sync f d) S t = table_ok d S t" for t by (rule table_ok_cong) (simp_all add: after_sync_def)
  then show ?thesis using assms tables_sync [OF assms, of f] by (auto simp: safe_def tables_def)
qed

lemma scratch_sync:
  assumes "safe S d" "scratch d"
  shows "scratch (after_sync f d)"
  using assms(2) tables_sync [OF assms(1), of f] by (auto simp: scratch_def tables_def after_sync_def)

text \<open>Writing to a file that is nobody's only copy.\<close>

lemma safe_rewrite:
  assumes "safe S d" "Some h \<notin> needed ` tables d"
  shows "safe S (rewrite h t d)"
proof -
  have "table_ok (rewrite h t d) S e" if e: "e \<in> tables d" for e
  proof (rule table_ok_holds)
    show "table_ok d S e" using assms(1) e by (simp add: safe_def)
    fix i
    assume "needed e = Some i" "holds d i S"
    moreover from this have "i \<noteq> h" using assms(2) e by (metis imageI)
    ultimately show "holds (rewrite h t d) i S" by (simp add: holds_def rewrite_def)
  qed (simp add: rewrite_def)
  then show ?thesis by (simp add: safe_def tables_def rewrite_def)
qed

lemma safe_sync_file:
  assumes "safe S d"
  shows "safe S (d\<lparr>synced := (synced d)(h := True)\<rparr>)"
proof -
  have "table_ok (d\<lparr>synced := (synced d)(h := True)\<rparr>) S e" if "e \<in> tables d" for e
  proof (rule table_ok_holds)
    show "table_ok d S e" using assms that by (simp add: safe_def)
  qed (simp_all add: holds_def)
  then show ?thesis by (simp add: safe_def tables_def)
qed

lemma tables_rewrite [simp]: "tables (rewrite h t d) = tables d" "entries_now (rewrite h t d) = entries_now d"
  by (simp_all add: tables_def rewrite_def)

lemma tables_change [simp]: "tables (change t d) = insert t (tables d)" "entries_now (change t d) = t"
  by (auto simp: tables_def change_def)

lemma safe_change:
  assumes "safe S d" "table_ok d S t"
  shows "safe S (change t d)"
proof -
  have "table_ok (change t d) S e = table_ok d S e" for e by (rule table_ok_cong) (simp_all add: change_def)
  then show ?thesis using assms by (simp add: safe_def)
qed

section \<open>Saving\<close>

text \<open>The calls, as rules: a call that fails changes nothing the invariant sees.\<close>

lemma wp_sync:
  assumes "safe S d" and "\<And>d'. safe S d' \<Longrightarrow> C d'"
    and "\<And>e. Q (Inl e) d" and "Q (Inr ()) (after_sync f d)"
  shows "wp C (sync_directory tx f) Q d"
proof -
  have "folder_exists f (entries_now d)" using safe_reachable [OF assms(1)] by (cases f) (simp_all add: reachable_def)
  then show ?thesis
    unfolding sync_directory_def sync_folder_def
    by (intro wp_or_raise wp_system) (simp_all add: assms safe_sync after_sync_def [symmetric])
qed

text \<open>Over directories that exist, preparing them only synchronises.\<close>

lemma wp_directories:
  assumes I: "I d" "reachable (entries_now d)" "C d"
    and sync: "\<And>f d'. I d' \<Longrightarrow> wp C (sync_directory tx f) (\<lambda>r. I) d'"
  shows "wp C (prepare_directories tx) (\<lambda>r. I) d"
proof -
  have same: "make_autospec_dir d = d" "make_state_dir d = d"
    using I(2) by (simp_all add: make_autospec_dir_def make_state_dir_def reachable_def)
  have dirs: "wp C (sync_created_directories tx a b) (\<lambda>r. I) d" for a b
    unfolding sync_created_directories_def using sync I(1)
    by (intro wp_keep) (auto intro!: wp_ret wp_keep)
  show ?thesis
    unfolding prepare_directories_def create_dir_all_def
    by (intro wp_seq wp_query wp_or_raise wp_system conjI allI)
       (auto simp: same I intro!: dirs wp_seq wp_query wp_or_raise wp_system)
qed

lemma wp_prepare:
  assumes "settled S d" and C: "\<And>d'. safe S d' \<Longrightarrow> C d'" and Q: "\<And>r d'. settled S d' \<Longrightarrow> Q r d'"
  shows "wp C (prepare_directories tx) Q d"
proof (rule wp_mono [where Q = "\<lambda>r. settled S", OF _ Q], rule wp_directories [where I = "settled S", OF assms(1)])
  show "wp C (sync_directory tx f) (\<lambda>r. settled S) d'" if "settled S d'" for f d'
    using that by (intro wp_sync [of S]) (auto simp: settled_def C safe_sync scratch_sync)
qed (use assms(1) C safe_reachable [of S d] in \<open>simp_all add: settled_def\<close>)

text \<open>The entries of a promoted file, and those in between when the old file has to go first.\<close>

definition promoted :: "inode \<Rightarrow> entries \<Rightarrow> entries" where
  "promoted h t = t\<lparr>primary_entry := Some h, temporary_entry := None\<rparr>"

lemma promoted_simps [simp]:
  "primary_entry (promoted h t) = Some h" "temporary_entry (promoted h t) = None"
  "reachable (promoted h t) = reachable t" "needed (promoted h t) = Some h"
  "promoted h (t\<lparr>primary_entry := i\<rparr>) = promoted h t"
  by (simp_all add: promoted_def reachable_def needed_def)

lemma table_ok_promoted:
  assumes "table_ok d S t" "temporary_entry t = Some h" "holds d h T"
  shows "table_ok d T (promoted h t)" "table_ok d T (t\<lparr>primary_entry := None\<rparr>)"
  using assms by (auto simp: table_ok_def) (auto simp: needed_def reachable_def)

definition saved :: "spec_state_store set \<Rightarrow> spec_state_store \<Rightarrow> 'e + unit \<Rightarrow> disk \<Rightarrow> bool" where
  "saved S s r d \<longleftrightarrow> safe (insert s S) d \<and> (primary_entry (entries_now d) \<noteq> None \<longrightarrow> scratch d)
     \<and> (r = Inr () \<longrightarrow> settled {s} d)"

lemma safe_promoted:
  assumes "safe S d" "temporary_entry (entries_now d) = Some h" "holds d h {s}"
  shows "safe (insert s S) (change (promoted h (entries_now d)) d)"
    "safe (insert s S) (change ((entries_now d)\<lparr>primary_entry := None\<rparr>) d)"
proof -
  have h: "holds d h (insert s S)" using assms(3) holds_mono by blast
  have S: "safe (insert s S) d" using assms(1) safe_mono by blast
  show "safe (insert s S) (change (promoted h (entries_now d)) d)"
    "safe (insert s S) (change ((entries_now d)\<lparr>primary_entry := None\<rparr>) d)"
    using table_ok_promoted [OF safe_now [OF assms(1)] assms(2) h] by (simp_all add: safe_change [OF S])
qed

text \<open>The last step: the directory is synchronised over promoted entries.\<close>

lemma wp_promoted:
  assumes "safe (insert s S) d" "temporary_entry (entries_now d) = None" "primary_entry (entries_now d) = Some h"
    "holds d h {s}" and C: "\<And>d'. safe (insert s S) d' \<Longrightarrow> C d'"
  shows "wp C (sync_directory tx StateDir) (saved S s) d"
proof (rule wp_sync [OF assms(1) C])
  have scr: "scratch d'" if "entries_now d' = entries_now d" for d' using assms(2) that by (simp add: scratch_def)
  show "saved S s (Inl e) d" for e using assms(1) scr by (simp add: saved_def)
  let ?d = "after_sync StateDir d"
  have now: "entries_now ?d = entries_now d" by (simp add: after_sync_def)
  have t: "table_ok ?d (insert s S) (entries_now d)"
    using safe_now [OF safe_sync [OF assms(1)], of StateDir] by (simp add: now)
  have "table_ok ?d {s} (entries_now d)"
    using t assms(3,4) by (simp add: table_ok_def needed_def holds_def after_sync_def)
  then have "safe {s} ?d" using tables_sync [OF assms(1), of StateDir] by (simp add: safe_def)
  then show "saved S s (Inr ()) ?d"
    using scr [OF now] safe_mono [of "{s}" ?d "insert s S"] by (simp add: saved_def settled_def)
qed

lemma wp_rename:
  assumes "reachable (entries_now d)" "temporary_entry (entries_now d) = Some h" "primary_entry (entries_now d) \<noteq> Some h"
    "C d" "\<And>e. Q (Inl e) d" "C (change (promoted h (entries_now d)) d)"
    "Q (Inr ()) (change (promoted h (entries_now d)) d)"
  shows "wp C (rename_file Temporary Primary) Q d"
  unfolding rename_file_def by (rule wp_system) (use assms in \<open>simp_all add: promoted_def\<close>)

lemma wp_remove_primary:
  assumes "C d" "\<And>e. Q (Inl e) d" "C (change ((entries_now d)\<lparr>primary_entry := None\<rparr>) d)"
    "Q (Inr ()) (change ((entries_now d)\<lparr>primary_entry := None\<rparr>) d)"
  shows "wp C (remove_file Primary) Q d"
  unfolding remove_file_def by (rule wp_system) (use assms in \<open>simp_all split: option.splits\<close>)

lemma wp_promote:
  assumes S: "safe S d" and h: "temporary_entry (entries_now d) = Some h" "primary_entry (entries_now d) \<noteq> Some h"
    "holds d h {s}" and scr: "primary_entry (entries_now d) \<noteq> None \<longrightarrow> scratch d"
    and C: "\<And>d'. safe (insert s S) d' \<Longrightarrow> C d'"
  shows "wp C (promote_temporary tx) (saved S s) d"
proof -
  have r: "reachable (entries_now d)" using S by simp
  have Sd: "safe (insert s S) d" using S safe_mono by blast
  let ?d = "change (promoted h (entries_now d)) d" and ?e = "change ((entries_now d)\<lparr>primary_entry := None\<rparr>) d"
  have hold: "holds (change t d') i T = holds d' i T" for t d' i T by (simp add: holds_def change_def)
  have failed: "saved S s (Inl e) d" for e :: ustr using Sd scr by (simp add: saved_def)
  have d: "safe (insert s S) ?d" "safe (insert s S) ?e" by (rule safe_promoted [OF S h(1,3)])+
  have fin: "wp C (sync_directory tx StateDir) (saved S s) ?d"
    using d(1) h(3) by (intro wp_promoted C) (simp_all add: hold)
  have e: "reachable (entries_now ?e)" "temporary_entry (entries_now ?e) = Some h" "primary_entry (entries_now ?e) \<noteq> Some h"
    "holds ?e h {s}"
    using r h by (simp_all add: reachable_def hold)
  have failed_e: "saved S s (Inl e) ?e" for e :: ustr using d(2) by (simp add: saved_def)
  have de: "safe (insert s S) (change (promoted h (entries_now ?e)) ?e)"
    using safe_promoted(1) [OF d(2) e(2,4)] by simp
  then have fin_e: "wp C (sync_directory tx StateDir) (saved S s) (change (promoted h (entries_now ?e)) ?e)"
    using e(4) by (intro wp_promoted C) (simp_all add: hold)
  show ?thesis
    unfolding promote_temporary_def
    by (intro wp_seq wp_attempt wp_rename [OF r h(1,2)])
       (auto intro!: wp_ret wp_raise wp_seq wp_query wp_or_raise wp_remove_primary wp_rename [OF e(1-3)]
          fin fin_e C d de Sd failed failed_e simp del: tables_change)
qed

text \<open>The temporary file \<open>i\<close> is being written.\<close>

definition drafting :: "spec_state_store set \<Rightarrow> inode \<Rightarrow> disk \<Rightarrow> bool" where
  "drafting S i d \<longleftrightarrow> settled S d \<and> temporary_entry (entries_now d) = Some i"

lemma drafting_unneeded: "drafting S i d \<Longrightarrow> Some i \<notin> needed ` tables d"
  by (simp add: drafting_def settled_def scratch_def)

lemma settled_primary:
  assumes "settled S d"
  shows "primary_entry (entries_now d) \<noteq> None"
proof
  assume p: "primary_entry (entries_now d) = None"
  obtain i where "needed (entries_now d) = Some i"
    using assms safe_now unfolding settled_def table_ok_def by blast
  then have "temporary_entry (entries_now d) = Some i" "Some i \<in> needed ` tables d"
    using p by (auto simp: needed_def tables_def intro: rev_image_eqI)
  then show False using assms by (simp add: settled_def scratch_def)
qed

lemma drafting_rewrite:
  assumes "drafting S i d"
  shows "drafting S i (rewrite i t d)"
proof -
  have "safe S (rewrite i t d)"
    using assms drafting_unneeded [OF assms] by (simp add: drafting_def settled_def safe_rewrite)
  then show ?thesis using assms by (simp add: drafting_def settled_def scratch_def)
qed

lemma drafting_sync_file: "drafting S i d \<Longrightarrow> drafting S i (d\<lparr>synced := (synced d)(h := True)\<rparr>)"
  by (simp add: drafting_def settled_def scratch_def tables_def safe_sync_file)

lemma after_sync_simps [simp]: "entries_now (after_sync f d) = entries_now d"
  "content (after_sync f d) = content d" "synced (after_sync f d) = synced d"
  by (simp_all add: after_sync_def)

lemma drafting_sync: "drafting S i d \<Longrightarrow> drafting S i (after_sync f d)"
  by (auto simp: drafting_def settled_def intro: scratch_sync safe_sync)

lemma drafting_new:
  assumes "settled S d" "temporary_entry (entries_now d) = None"
  shows "drafting S (next_inode d) (snd (new_file Temporary d))"
proof -
  let ?t = "(entries_now d)\<lparr>temporary_entry := Some (next_inode d)\<rparr>" and ?d = "d\<lparr>next_inode := next_inode d + 1\<rparr>"
  have S: "safe S d" using assms(1) by (simp add: settled_def)
  obtain p where p: "primary_entry (entries_now d) = Some p" using settled_primary [OF assms(1)] by blast
  have below: "needed e \<noteq> Some (next_inode d)" if "e \<in> tables d" for e
    using S that by (auto simp: safe_def table_ok_def needed_def split: option.splits)
  have "table_ok ?d S e" if "e \<in> tables d" for e
  proof (rule table_ok_holds)
    show "table_ok d S e" using S that by (simp add: safe_def)
  qed (simp_all add: holds_def)
  then have "safe S ?d" by (simp add: safe_def tables_def)
  moreover have "table_ok ?d S ?t"
    using safe_now [OF S] p by (auto simp: table_ok_def needed_def holds_def reachable_def)
  ultimately have "safe S (change ?t ?d)" by (rule safe_change)
  moreover have unneeded: "Some (next_inode d) \<notin> needed ` tables (change ?t ?d)"
  proof -
    have t: "needed ?t \<noteq> Some (next_inode d)"
      using p safe_now [OF S] by (auto simp: needed_def table_ok_def)
    have all: "tables (change ?t ?d) = insert ?t (tables d)" by (simp add: tables_def insert_commute change_def)
    have "Some (next_inode d) \<noteq> needed e" if "e \<in> insert ?t (tables d)" for e
      using that t below [of e] by auto
    then show ?thesis unfolding all by blast
  qed
  ultimately have "safe S (rewrite (next_inode d) (Some []) (change ?t ?d))" by (rule safe_rewrite)
  then show ?thesis
    using unneeded by (simp add: drafting_def settled_def scratch_def new_file_def Let_def)
qed

lemma wp_create:
  assumes "settled S d" and C: "\<And>d'. safe S d' \<Longrightarrow> C d'" and Q: "\<And>e. Q (Inl e) d"
    and "\<And>i d'. drafting S i d' \<Longrightarrow> Q (Inr i) d'"
  shows "wp C (create_file Temporary) Q d"
  unfolding create_file_def
proof (rule wp_system)
  have S: "safe S d" using assms(1) by (simp add: settled_def)
  show "C d \<and> Q (Inl (Failed (fault_text e))) d" for e :: fault using C [OF S] Q by blast
  have done_with: "C d' \<and> Q (Inr i) d'" if "drafting S i d'" for i d'
    using that assms(4) C by (simp add: drafting_def settled_def)
  show "C (snd (if \<not> reachable (entries_now d) then (Inl NotFound, d)
        else (case entry_at Temporary (entries_now d) of Some i \<Rightarrow> (Inr i, rewrite i (Some []) d) | None \<Rightarrow> new_file Temporary d)))
      \<and> Q (fst (if \<not> reachable (entries_now d) then (Inl NotFound, d)
        else (case entry_at Temporary (entries_now d) of Some i \<Rightarrow> (Inr i, rewrite i (Some []) d) | None \<Rightarrow> new_file Temporary d)))
        (snd (if \<not> reachable (entries_now d) then (Inl NotFound, d)
        else (case entry_at Temporary (entries_now d) of Some i \<Rightarrow> (Inr i, rewrite i (Some []) d) | None \<Rightarrow> new_file Temporary d)))"
  proof (cases "temporary_entry (entries_now d)")
    case None
    then show ?thesis using done_with [OF drafting_new [OF assms(1) None]] S by (simp add: new_file_def Let_def)
  next
    case (Some i)
    then have "drafting S i (rewrite i (Some []) d)" using assms(1) by (intro drafting_rewrite) (simp add: drafting_def)
    then show ?thesis using done_with S Some by simp
  qed
qed

text \<open>The steps of a save from the last one backwards.\<close>

lemma saved_failed: "settled S d \<Longrightarrow> saved S s (Inl e) d"
  using safe_mono [of S d "insert s S"] by (auto simp: saved_def settled_def)

lemma wp_draft_promote:
  assumes d: "drafting S h d" "holds d h {s}" and C: "\<And>d'. safe (insert s S) d' \<Longrightarrow> C d'"
  shows "wp C (promote_temporary tx) (saved S s) d"
proof -
  have d': "settled S d" "temporary_entry (entries_now d) = Some h" using d(1) by (simp_all add: drafting_def)
  obtain p where p: "primary_entry (entries_now d) = Some p" using settled_primary [OF d'(1)] by blast
  have "needed (entries_now d) = Some p" using p by (simp add: needed_def)
  then have "p \<noteq> h" using drafting_unneeded [OF d(1)] unfolding tables_def by (metis image_insert insertI1)
  then show ?thesis using p d' d(2) by (intro wp_promote C) (simp_all add: settled_def)
qed

lemma wp_draft_settle:
  assumes d: "drafting S h d" "holds d h {s}" and C: "\<And>d'. safe (insert s S) d' \<Longrightarrow> C d'"
  shows "wp C (seq (sync_directory tx StateDir) (\<lambda>u. promote_temporary tx)) (saved S s) d"
proof (rule wp_seq, rule wp_sync)
  show "safe S d" using d(1) by (simp add: drafting_def settled_def)
  show "C d'" if "safe S d'" for d' using C safe_mono [OF that] by blast
  have "holds (after_sync StateDir d) h {s}" using d(2) by (simp add: holds_def)
  then show "case Inr () of Inl e \<Rightarrow> saved S s (Inl e) (after_sync StateDir d)
      | Inr u \<Rightarrow> wp C (promote_temporary tx) (saved S s) (after_sync StateDir d)"
    using wp_draft_promote [OF drafting_sync [OF d(1)] _ C] by simp
qed (use d(1) in \<open>simp_all add: drafting_def saved_failed\<close>)

lemma wp_draft_sync:
  assumes d: "drafting S h d" "content d h = Some doc" "parse_store doc = Inr s"
    and C: "\<And>d'. safe (insert s S) d' \<Longrightarrow> C d'"
  shows "wp C (seq (or_raise f (sync_all h)) (\<lambda>u. seq (sync_directory tx StateDir) (\<lambda>u. promote_temporary tx))) (saved S s) d"
proof -
  let ?d = "d\<lparr>synced := (synced d)(h := True)\<rparr>"
  have s: "drafting S h ?d" "holds ?d h {s}"
    using d by (simp_all add: drafting_sync_file holds_def)
  then have "settled S ?d" "settled S d" using d(1) by (simp_all add: drafting_def)
  then have "C ?d" "C d" "saved S s (Inl e) d" for e :: ustr
    using C safe_mono [of S _ "insert s S"] by (auto simp: settled_def saved_failed)
  then show ?thesis
    unfolding sync_all_def using wp_draft_settle [OF s C] by (intro wp_seq wp_or_raise wp_system) simp_all
qed

lemma wp_draft_write:
  assumes d: "drafting S h d" and doc: "parse_store doc = Inr s" and C: "\<And>d'. safe (insert s S) d' \<Longrightarrow> C d'"
  shows "wp C (seq (or_raise g (write_all h doc)) (\<lambda>u. seq (or_raise f (sync_all h))
      (\<lambda>u. seq (sync_directory tx StateDir) (\<lambda>u. promote_temporary tx)))) (saved S s) d"
proof -
  have "settled S (rewrite h t d)" for t using drafting_rewrite [OF d, of t] by (simp add: drafting_def)
  then have "C (rewrite h t d)" "saved S s (Inl e) (rewrite h t d)" for t and e :: ustr
    using C safe_mono [of S _ "insert s S"] by (auto simp: settled_def saved_failed)
  moreover have "content (rewrite h (Some doc) d) h = Some doc" by (simp add: rewrite_def)
  ultimately show ?thesis
    unfolding write_all_def using wp_draft_sync [OF drafting_rewrite [OF d] _ doc C]
    by (intro wp_seq wp_or_raise wp_system) simp_all
qed

lemma wp_save_document:
  assumes d: "settled S d" and doc: "parse_store doc = Inr s" and C: "\<And>d'. safe (insert s S) d' \<Longrightarrow> C d'"
  shows "wp C (save_document tx doc) (saved S s) d"
proof -
  have CS: "C d'" if "safe S d'" for d' using C safe_mono [OF that] by blast
  have "wp C (seq (or_raise k (create_file Temporary)) (\<lambda>h. seq (or_raise g (write_all h doc)) (\<lambda>u.
      seq (or_raise f (sync_all h)) (\<lambda>u. seq (sync_directory tx StateDir) (\<lambda>u. promote_temporary tx))))) (saved S s) d'"
    if "settled S d'" for f g k and d'
    using that wp_draft_write [OF _ doc C] by (intro wp_seq wp_or_raise wp_create CS) (simp_all add: saved_failed)
  then show ?thesis
    unfolding save_document_def
    by (intro wp_seq wp_prepare [OF d CS]) (simp_all add: saved_failed split: sum.splits)
qed

section \<open>Recovery\<close>

text \<open>What loading the disk gives, without further faults, after any loss of power.\<close>

definition recovers :: "texts \<Rightarrow> spec_state_store set \<Rightarrow> disk \<Rightarrow> bool" where
  "recovers tx S d \<longleftrightarrow> {d'. survives d d'} \<subseteq> {d'. \<exists>s \<in> S. \<exists>m. load_or_default tx (boot d' []) = (Inr s, m)
     \<and> settled {s} (disk_of m)}"

lemma moved_simps [simp]: "disk_of (moved d fs m) = d" "faults (moved d fs m) = fs"
  "disk_of (boot d fs) = d" "faults (boot d fs) = fs"
  by (simp_all add: moved_def boot_def)

lemma run_system:
  "faults m = [] \<Longrightarrow> system partly call m = (case call (disk_of m) of (r, d) \<Rightarrow> (r, moved d [] m))"
  by (simp add: system_def)

lemmas run_io = run_system seq_def ret_def raise_def attempt_def or_raise_def

lemma load_file:
  assumes "faults m = []" "reachable (entries_now (disk_of m))" "entry_at p (entries_now (disk_of m)) = Some i"
    "content (disk_of m) i = Some doc" "parse_store doc = Inr s"
  shows "load_state_file tx p m = (Inr (Valid s), moved (disk_of m) [] m)"
  using assms by (simp add: load_state_file_def read_to_string_def run_io)

lemma load_missing:
  assumes "faults m = []" "entry_at p (entries_now (disk_of m)) = None"
  shows "load_state_file tx p m = (Inr Missing, moved (disk_of m) [] m)"
  using assms by (simp add: load_state_file_def read_to_string_def run_io)

lemma survives_safe:
  assumes "safe S d" "survives d d'"
  shows "safe S d'"
proof -
  have "table_ok d' S (entries_now d')"
  proof (rule table_ok_holds)
    show "table_ok d S (entries_now d')" using assms by (simp add: safe_def survives_def)
  qed (use assms(2) in \<open>auto simp: survives_def holds_def\<close>)
  then show ?thesis using assms(2) by (simp add: safe_def tables_def survives_def)
qed

text \<open>The entries alone, with nothing older on disk: settled as soon as there is a primary file.\<close>

lemma settled_alone:
  assumes "older d = []" "table_ok d {s} (entries_now d)" "primary_entry (entries_now d) \<noteq> None"
  shows "settled {s} d"
  using assms by (auto simp: settled_def safe_def scratch_def tables_def table_ok_def needed_def)

lemma load_recovers:
  assumes "safe S d" "older d = []"
  shows "\<exists>s \<in> S. \<exists>m. load_or_default tx (boot d []) = (Inr s, m) \<and> settled {s} (disk_of m)"
proof -
  let ?t = "entries_now d"
  have t: "table_ok d S ?t" "reachable ?t" using assms(1) safe_now by auto
  obtain i doc s where i: "needed ?t = Some i" "synced d i" "content d i = Some doc" "parse_store doc = Inr s" "s \<in> S"
    using t(1) unfolding table_ok_def holds_def by blast
  have ok: "table_ok d {s} ?t" using t(1) i by (auto simp: table_ok_def holds_def)
  show ?thesis
  proof (cases "primary_entry ?t")
    case (Some p)
    then have "load_or_default tx (boot d []) = (Inr s, moved d [] (boot d []))"
      using i t(2) by (simp add: load_or_default_def load_file [of _ Primary p doc s] needed_def seq_def ret_def)
    then show ?thesis using settled_alone [OF assms(2) ok] Some i(5) by simp
  next
    case None
    then have h: "temporary_entry ?t = Some i" using i(1) by (simp add: needed_def)
    define m1 where "m1 = moved d [] (moved d [] (boot d []))"
    have m1: "disk_of m1 = d" "faults m1 = []" by (simp_all add: m1_def)
    have rename: "set_entry Temporary None (set_entry Primary (Some i) ?t) = promoted i ?t" by (simp add: promoted_def)
    let ?d = "change (promoted i ?t) d"
    have promote: "promote_temporary tx m1 = (Inr (), moved (after_sync StateDir ?d) [] (moved ?d [] m1))"
      using t(2) h None m1
      by (simp add: promote_temporary_def rename_file_def sync_directory_def sync_folder_def run_io rename after_sync_def
          del: set_entry.simps)
    have "load_or_default tx (boot d []) = (Inr s, moved (after_sync StateDir ?d) [] (moved ?d [] m1))"
      using None h t(2) i promote
      by (simp add: load_or_default_def load_missing load_file [of _ Temporary i doc s] seq_def ret_def or_raise_def m1_def)
    moreover have "settled {s} (after_sync StateDir ?d)"
    proof -
      have "safe {s} d" using assms(2) ok by (simp add: safe_def tables_def)
      then have "safe {s} ?d" using safe_promoted(1) [of "{s}" d i s] h i by (simp add: holds_def)
      then have "safe {s} (after_sync StateDir ?d)" by (rule safe_sync)
      then show ?thesis by (simp add: settled_def scratch_def)
    qed
    ultimately show ?thesis using i(5) by (metis moved_simps(1))
  qed
qed

lemma recovers_safe: "safe S d \<Longrightarrow> recovers tx S d"
  unfolding recovers_def using load_recovers survives_safe by (fastforce simp: survives_def)

lemma store_written: "store_ok s \<Longrightarrow> \<exists>doc. store_to_json s = Inr doc \<and> parse_store doc = Inr s"
  by (simp add: store_to_json_render parse_store_doc)

section \<open>Initialisation\<close>

text \<open>The disk of a finished initialisation, and the one on which only the last name is still to be removed.\<close>

definition written_disk :: "inode option \<Rightarrow> ustr \<Rightarrow> disk" where
  "written_disk tmp doc = \<lparr>entries_now = \<lparr>autospec_dir = True, state_dir = True, primary_entry = Some 0, temporary_entry = tmp\<rparr>,
     older = [], content = (\<lambda>_. None)(0 := Some doc), synced = (\<lambda>_. True), next_inode = 1\<rparr>"

lemma written_settled: "parse_store doc = Inr s \<Longrightarrow> settled {s} (written_disk None doc)"
  by (rule settled_alone) (auto simp: written_disk_def table_ok_def needed_def holds_def reachable_def)

lemmas run_calls = run_io exists_at_def folder_exists_at_def create_dir_all_def make_autospec_dir_def make_state_dir_def
  prepare_directories_def sync_created_directories_def sync_directory_def sync_folder_def
  create_new_file_def create_file_def new_file_def write_all_def sync_all_def hard_link_def rename_file_def remove_file_def
  link_primary_def create_temporary_def promote_temporary_def

lemma settled_tables:
  assumes "tables d = {t}" "t = entries_now (written_disk None doc)" "content d 0 = Some doc" "synced d 0" "0 < next_inode d"
    "parse_store doc = Inr s"
  shows "settled {s} d"
proof -
  have "entries_now d = t" using assms(1) by (auto simp: tables_def)
  then show ?thesis
    using assms by (auto simp: settled_def safe_def scratch_def table_ok_def needed_def holds_def reachable_def written_disk_def)
qed

lemma initialize_settles:
  assumes "parse_store doc = Inr s"
  shows "\<exists>m. initialize_document tx doc (boot empty_disk []) = (Inr (), m) \<and> settled {s} (disk_of m)
    \<and> list_ex (\<lambda>d. survives d (written_disk (Some 0) doc)) (visited m)"
proof -
  obtain m where m: "initialize_document tx doc (boot empty_disk []) = (Inr (), m)"
    and d: "tables (disk_of m) = {entries_now (written_disk None doc)}" "content (disk_of m) 0 = Some doc"
      "synced (disk_of m) 0" "0 < next_inode (disk_of m)"
    and v: "list_ex (\<lambda>d. survives d (written_disk (Some 0) doc)) (visited m)"
    by (simp add: initialize_document_def run_calls empty_disk_def reachable_def rewrite_def change_def Let_def written_disk_def
        tables_def moved_def boot_def survives_def)
  then show ?thesis using settled_tables [OF d(1) refl d(2-4) assms] by blast
qed

text \<open>A save over two names of one file: its first step destroys the only copy, and it never separates them.\<close>

lemma linked_save:
  assumes "store_to_json s = Inr doc2"
  shows "\<exists>m. save tx s (boot (written_disk (Some 0) doc) []) = (Inr (), m)
    \<and> entry_at Temporary (entries_now (disk_of m)) = entry_at Primary (entries_now (disk_of m))
    \<and> list_ex (\<lambda>d. survives d ((written_disk (Some 0) doc)\<lparr>content := (\<lambda>_. None)\<rparr>)) (visited m)"
  using assms
  by (simp add: save_def save_document_def run_calls reachable_def rewrite_def change_def Let_def written_disk_def
      tables_def moved_def boot_def survives_def)

lemma linked_loads:
  assumes "parse_store doc = Inr s"
  shows "fst (load_or_default tx (boot (written_disk tmp doc) [])) = Inr s"
    "\<exists>e. fst (load_or_default tx (boot ((written_disk (Some 0) doc)\<lparr>content := (\<lambda>_. None)\<rparr>) [])) = Inl e"
  using assms by (simp_all add: load_or_default_def load_state_file_def read_to_string_def run_io written_disk_def reachable_def)

section \<open>What the document survives\<close>

lemma wp_run:
  assumes "wp C a Q d" "C d"
  shows "\<exists>r m. a (boot d fs) = (r, m) \<and> list_all C (visited m) \<and> Q r (disk_of m)"
proof -
  obtain r m where a: "a (boot d fs) = (r, m)" by fastforce
  then have "(\<exists>ds. visited m = [d] @ ds \<and> list_all C ds) \<and> Q r (disk_of m)"
    using assms(1) [unfolded wp_def, rule_format, of "boot d fs"] by (simp add: boot_def)
  then show ?thesis using a assms(2) by auto
qed

text \<open>C3: A save is atomic under failures. Whatever calls fail and wherever power is lost while a store is saved to a
  settled disk, loading what is left gives one of the stores from before or the new one, and the disk is settled
  again; a save that succeeds leaves only the new store; and one that fails can be tried again, unless it had to
  remove the old file first.
\<close>

theorem save_is_crash_safe:
  assumes "settled S d" "store_ok new"
  shows "\<exists>r m. save tx new (boot d fs) = (r, m) \<and> list_all (recovers tx (insert new S)) (visited m)
    \<and> (if r = Inr () then settled {new} (disk_of m)
       else if primary_entry (entries_now (disk_of m)) = None then recovers tx (insert new S) (disk_of m)
       else settled (insert new S) (disk_of m))"
proof -
  obtain doc where doc: "store_to_json new = Inr doc" "parse_store doc = Inr new" using store_written [OF assms(2)] by blast
  have "recovers tx (insert new S) d'" if "safe (insert new S) d'" for d' using recovers_safe that by blast
  moreover have "safe (insert new S) d" using assms(1) safe_mono unfolding settled_def by blast
  ultimately have "wp (recovers tx (insert new S)) (save_document tx doc) (saved S new) d"
    "recovers tx (insert new S) d"
    using wp_save_document [OF assms(1) doc(2)] by blast+
  then have "wp (recovers tx (insert new S)) (save tx new) (saved S new) d"
    unfolding save_def doc(1) sum.case
    by (intro wp_or_raise) (auto elim!: wp_mono simp: saved_def split: sum.splits)
  from wp_run [OF this \<open>recovers tx (insert new S) d\<close>] show ?thesis
    by (fastforce simp: saved_def settled_def recovers_safe)
qed

lemma plain_save:
  assumes "store_to_json s = Inr doc2"
  shows "\<exists>m. save tx s (boot (written_disk None doc) []) = (Inr (), m)"
  using assms
  by (simp add: save_def save_document_def run_calls reachable_def rewrite_def change_def Let_def written_disk_def
      moved_def boot_def)

theorem save_is_crash_safe_witness:
  "\<forall>tx. \<exists>doc m. save tx owned_store (boot (written_disk None doc) []) = (Inr (), m)
    \<and> list_all (recovers tx {owned_store, new_store}) (visited m)"
proof
  fix tx
  obtain doc where doc: "parse_store doc = Inr new_store" using store_written [OF new_store_ok] by blast
  obtain doc2 where "store_to_json owned_store = Inr doc2" using store_written [OF owned_store_ok] by blast
  then obtain m where "save tx owned_store (boot (written_disk None doc) []) = (Inr (), m)"
    using plain_save by blast
  then show "\<exists>doc m. save tx owned_store (boot (written_disk None doc) []) = (Inr (), m)
      \<and> list_all (recovers tx {owned_store, new_store}) (visited m)"
    using save_is_crash_safe [OF written_settled [OF doc] owned_store_ok, of tx "[]"] by auto
qed


section \<open>Initialisation overwrites nothing\<close>

definition keeps_file :: "inode \<Rightarrow> ustr option \<Rightarrow> disk \<Rightarrow> bool" where
  "keeps_file i c d \<longleftrightarrow> reachable (entries_now d) \<and> primary_entry (entries_now d) = Some i \<and> content d i = c
     \<and> i < next_inode d"

lemma keeps_sync: "keeps_file i c d \<Longrightarrow> wp (keeps_file i c) (sync_directory tx f) (\<lambda>r. keeps_file i c) d"
  unfolding sync_directory_def sync_folder_def
  by (intro wp_or_raise wp_system) (simp_all add: keeps_file_def)

lemma keeps_prepare: "keeps_file i c d \<Longrightarrow> wp (keeps_file i c) (prepare_directories tx) (\<lambda>r. keeps_file i c) d"
  by (rule wp_directories [where I = "keeps_file i c"]) (simp_all add: keeps_sync, simp add: keeps_file_def)

lemma keeps_create: "keeps_file i c d \<Longrightarrow> wp (keeps_file i c) (create_temporary tx)
    (\<lambda>r d'. keeps_file i c d' \<and> (case r of Inl e \<Rightarrow> True | Inr h \<Rightarrow> h \<noteq> i)) d"
  unfolding create_temporary_def create_new_file_def
  by (intro wp_or_raise wp_system)
     (auto simp: keeps_file_def new_file_def rewrite_def change_def reachable_def Let_def)

lemma keeps_link: "keeps_file i c d \<Longrightarrow> wp (keeps_file i c) (link_primary tx) (\<lambda>r d'. keeps_file i c d' \<and> (\<exists>e. r = Inl e)) d"
  unfolding link_primary_def hard_link_def remove_file_def
  by (intro wp_seq wp_attempt wp_system)
     (auto simp: keeps_file_def reachable_def change_def intro!: wp_raise wp_seq wp_attempt wp_system split: option.splits)

lemma keeps_write: "keeps_file i c d \<Longrightarrow> h \<noteq> i \<Longrightarrow> wp (keeps_file i c) (write_all h t) (\<lambda>r. keeps_file i c) d"
  "keeps_file i c d \<Longrightarrow> wp (keeps_file i c) (sync_all h) (\<lambda>r. keeps_file i c) d"
  unfolding write_all_def sync_all_def
  by (auto intro!: wp_system simp: keeps_file_def rewrite_def)

lemma keeps_initialize:
  assumes "keeps_file i c d"
  shows "wp (keeps_file i c) (initialize_document tx doc) (\<lambda>r d'. keeps_file i c d' \<and> (\<exists>e. r = Inl e)) d"
proof -
  let ?C = "keeps_file i c" and ?R = "\<lambda>r d'. keeps_file i c d' \<and> (\<exists>e. r = Inl e)"
  have step: "wp ?C (seq a f) ?R d" if "wp ?C a (\<lambda>r. ?C) d" "\<And>x d'. ?C d' \<Longrightarrow> wp ?C (f x) ?R d'"
    for a :: "(autospec_error, 'x) io" and f :: "'x \<Rightarrow> (autospec_error, unit) io" and d
    by (rule wp_seq, rule wp_mono [OF that(1)]) (use that(2) in \<open>simp split: sum.splits\<close>)
  have link: "wp ?C (seq (link_primary tx) k) ?R d" if "?C d" for k :: "unit \<Rightarrow> (autospec_error, unit) io" and d
    by (rule wp_seq, rule wp_mono [OF keeps_link [OF that]]) auto
  have sync: "wp ?C (seq (or_raise g (sync_all h)) (\<lambda>u. seq (link_primary tx) k)) ?R d" if "?C d"
    for g h and k :: "unit \<Rightarrow> (autospec_error, unit) io" and d
    by (rule step, rule wp_or_raise, rule keeps_write(2) [OF that]) (rule link)
  have writes: "wp ?C (seq (or_raise f (write_all h doc)) (\<lambda>u. seq (or_raise g (sync_all h)) (\<lambda>u. seq (link_primary tx) k))) ?R d"
    if "?C d" "h \<noteq> i" for f g h and k :: "unit \<Rightarrow> (autospec_error, unit) io" and d
    by (rule step, rule wp_or_raise, rule keeps_write(1) [OF that]) (rule sync)
  have create: "wp ?C (seq (create_temporary tx) (\<lambda>h. seq (or_raise f (write_all h doc)) (\<lambda>u. seq (or_raise g (sync_all h))
      (\<lambda>u. seq (link_primary tx) k)))) ?R d"
    if "?C d" for f g and k :: "unit \<Rightarrow> (autospec_error, unit) io" and d
    by (rule wp_seq, rule wp_mono [OF keeps_create [OF that]]) (auto split: sum.splits intro: writes)
  have prepare: "wp ?C (seq (or_raise OtherError (prepare_directories tx)) (\<lambda>u. seq (create_temporary tx)
      (\<lambda>h. seq (or_raise f (write_all h doc)) (\<lambda>u. seq (or_raise g (sync_all h)) (\<lambda>u. seq (link_primary tx) k))))) ?R d"
    if "?C d" for f g and k :: "unit \<Rightarrow> (autospec_error, unit) io" and d
    by (rule step, rule wp_or_raise, rule keeps_prepare [OF that]) (rule create)
  have query: "wp ?C (if b then ret True else exists_at Temporary) (\<lambda>r. ?C) d" if "?C d" for b d
    using that by (auto intro!: wp_ret wp_query)
  show ?thesis
    unfolding initialize_document_def
    by (intro step wp_query conjI assms, rule query) (auto intro!: wp_raise prepare)
qed

text \<open>C5: Initialisation overwrites nothing. Where a primary state file exists, no initialisation, whatever calls of it
  fail, changes its name or its content at any moment, and none reports success.
\<close>

theorem init_overwrites_nothing:
  assumes "entry_at Primary (entries_now d) = Some i" "i < next_inode d"
  shows "\<exists>e m. initialize_if_absent tx lcs (boot d fs) = (Inl e, m)
    \<and> list_all (\<lambda>d'. entry_at Primary (entries_now d') = Some i \<and> content d' i = content d i) (visited m)"
proof -
  let ?C = "keeps_file i (content d i)"
  have d: "?C d" using assms by (simp add: keeps_file_def split: if_splits)
  have "wp ?C (initialize_if_absent tx lcs) (\<lambda>r d'. ?C d' \<and> (\<exists>e. r = Inl e)) d"
    unfolding initialize_if_absent_def
    by (auto split: sum.splits intro!: wp_raise wp_seq wp_mono [OF keeps_initialize [OF d]] simp: d)
  from wp_run [OF this d, of fs] obtain e m where
    "initialize_if_absent tx lcs (boot d fs) = (Inl e, m)" "list_all ?C (visited m)" by blast
  then show ?thesis by (fastforce simp: keeps_file_def list_all_iff)
qed

theorem init_overwrites_nothing_witness:
  "\<forall>tx. \<exists>e m. initialize_if_absent tx [new_lifecycle (lit ''SPEC-1'')] (boot (written_disk None (lit ''{}'')) []) = (Inl e, m)
    \<and> list_all (\<lambda>d. content d 0 = Some (lit ''{}'')) (visited m)"
proof
  fix tx
  show "\<exists>e m. initialize_if_absent tx [new_lifecycle (lit ''SPEC-1'')] (boot (written_disk None (lit ''{}'')) []) = (Inl e, m)
      \<and> list_all (\<lambda>d. content d 0 = Some (lit ''{}'')) (visited m)"
    using init_overwrites_nothing [of "written_disk None (lit ''{}'')" 0 tx "[new_lifecycle (lit ''SPEC-1'')]" "[]"]
    by (auto simp: written_disk_def reachable_def list_all_iff)
qed

end
