(* ===== verification/Fleet_Dispatch.thy ===== *)
theory Fleet_Dispatch
  imports Json Text_Search "HOL-Library.Product_Lexorder"
begin

text \<open>
  Status of fleet runs (\<open>fleet_dispatch.rs\<close>, \<open>fleet_dispatch/never_started.rs\<close>): the classification of a run
  from its evidence, the summary of a batch with its fleet faults, the attempts an issue has used, and the memory
  of the reconciler that suspends a claim whose workers never start. Unicode lower case and the quoting of
  \<open>{:?}\<close> are arguments.
\<close>

section \<open>Statuses\<close>

datatype run_status = RunOk | NoOutput | InfraFail | LaunchFail | AgentNeverStarted

fun status_text :: "run_status \<Rightarrow> string" where
  "status_text RunOk = ''OK''"
| "status_text NoOutput = ''NO-OUTPUT''"
| "status_text InfraFail = ''INFRA-FAIL''"
| "status_text LaunchFail = ''LAUNCH-FAIL''"
| "status_text AgentNeverStarted = ''AGENT-NEVER-STARTED''"

definition parse_status :: "ustr \<Rightarrow> run_status option" where
  "parse_status t =
     (if t = lit ''OK'' then Some RunOk
      else if t = lit ''NO-OUTPUT'' \<or> t = lit ''NO_OUTPUT'' then Some NoOutput
      else if t = lit ''INFRA-FAIL'' \<or> t = lit ''INFRA_FAIL'' then Some InfraFail
      else if t = lit ''LAUNCH-FAIL'' \<or> t = lit ''LAUNCH_FAIL'' then Some LaunchFail
      else if t = lit ''AGENT-NEVER-STARTED'' \<or> t = lit ''AGENT_NEVER_STARTED'' then Some AgentNeverStarted
      else None)"

text \<open>The order \<open>derive(Ord)\<close> gives: the order of declaration.\<close>

fun status_rank :: "run_status \<Rightarrow> nat" where
  "status_rank RunOk = 0"
| "status_rank NoOutput = 1"
| "status_rank InfraFail = 2"
| "status_rank LaunchFail = 3"
| "status_rank AgentNeverStarted = 4"

instantiation run_status :: linorder
begin

definition less_eq_run_status :: "run_status \<Rightarrow> run_status \<Rightarrow> bool" where
  "less_eq_run_status a b \<longleftrightarrow> status_rank a \<le> status_rank b"

definition less_run_status :: "run_status \<Rightarrow> run_status \<Rightarrow> bool" where
  "less_run_status a b \<longleftrightarrow> status_rank a < status_rank b"

instance
proof
  show "a \<le> b \<Longrightarrow> b \<le> a \<Longrightarrow> a = b" for a b :: run_status
    by (cases a; cases b) (simp_all add: less_eq_run_status_def)
qed (auto simp: less_eq_run_status_def less_run_status_def)

end

datatype infra_category = Auth | Endpoint | Context

fun category_text :: "infra_category \<Rightarrow> string" where
  "category_text Auth = ''auth''"
| "category_text Endpoint = ''endpoint''"
| "category_text Context = ''context''"

definition AUTH_SIGNATURES :: "string list" where
  "AUTH_SIGNATURES = [''401 unauthorized'', ''403 forbidden'', ''invalid credentials'', ''invalid credential'',
     ''invalid api key'', ''incorrect api key'', ''invalid_api_key'', ''api key rejected'', ''authentication failed'',
     ''auth failed'', ''token expired'', ''token invalid'', ''not authenticated'', ''unauthorized'', ''access denied'']"

definition ENDPOINT_SIGNATURES :: "string list" where
  "ENDPOINT_SIGNATURES = [''connection refused'', ''connection reset'', ''failed to connect'', ''could not resolve'',
     ''name or service not known'', ''no route to host'', ''network unreachable'', ''dns lookup failed'',
     ''endpoint not found'', ''endpoint unavailable'', ''econnrefused'', ''econnreset'']"

definition CONTEXT_SIGNATURES :: "string list" where
  "CONTEXT_SIGNATURES = [''context length exceeded'', ''context_length_exceeded'', ''context length'',
     ''context_length'', ''maximum context'', ''max context tokens'', ''context window'', ''prompt is too long'',
     ''too many tokens'', ''range of input length'']"

section \<open>Runs\<close>

record run_record =
  run_issue :: ustr
  run_duration :: u64
  run_transcript :: ustr
  agent_rc :: "u32 option"
  session_recorded :: "bool option"
  assistant_turns :: "u32 option"

record fleet_policy =
  duration_floor_secs :: u64
  transcript_quote_bytes :: nat
  repeat_fault_threshold :: nat

definition default_fleet_policy :: fleet_policy where
  "default_fleet_policy = \<lparr>duration_floor_secs = 30, transcript_quote_bytes = 4096, repeat_fault_threshold = 3\<rparr>"

definition new_fleet_policy :: "u64 \<Rightarrow> nat \<Rightarrow> nat \<Rightarrow> fleet_policy option" where
  "new_fleet_policy d q r = (if d = 0 \<or> q = 0 \<or> r = 0 then None
     else Some \<lparr>duration_floor_secs = d, transcript_quote_bytes = q, repeat_fault_threshold = r\<rparr>)"

record status_record =
  issue :: ustr
  status :: run_status
  duration_secs :: u64
  transcript_bytes :: nat
  failure_signature :: "ustr option"
  quoted_transcript :: "ustr option"
  consumes_attempt :: bool

definition escape_control :: "ustr \<Rightarrow> ustr" where
  "escape_control s = concat (map (\<lambda>c. if c = 9 then [92, 116] else if c = 10 then [92, 110]
     else if c = 13 then [92, 114] else [c]) s)"

definition status_line_of :: "(ustr \<Rightarrow> ustr) \<Rightarrow> status_record \<Rightarrow> ustr" where
  "status_line_of debug r = lit (status_text (status r)) @ lit '' issue='' @ issue r @ lit '' duration=''
     @ show_u64 (duration_secs r) @ lit ''s transcript='' @ show_nat (transcript_bytes r) @ lit ''b''
     @ (case failure_signature r of Some s \<Rightarrow> lit '' signature='' @ s | None \<Rightarrow> [])
     @ (if consumes_attempt r then [] else lit '' no-attempt'')
     @ (case quoted_transcript r of Some q \<Rightarrow> lit '' transcript='' @ debug (escape_control q) | None \<Rightarrow> [])"

definition tsv_line :: "status_record \<Rightarrow> ustr" where
  "tsv_line r = join [9] [issue r, lit (status_text (status r)), show_u64 (duration_secs r),
     show_nat (transcript_bytes r), (case failure_signature r of Some s \<Rightarrow> s | None \<Rightarrow> lit ''-''),
     show_bool (consumes_attempt r),
     (case quoted_transcript r of Some q \<Rightarrow> escape_control q | None \<Rightarrow> lit ''-'')]"

datatype start_outcome = Started | StartFailed ustr | Cancelled

definition start_outcome_of :: "status_record \<Rightarrow> start_outcome" where
  "start_outcome_of r = (if status r \<in> {LaunchFail, InfraFail, AgentNeverStarted}
     then StartFailed (case failure_signature r of Some s \<Rightarrow> s | None \<Rightarrow> lit (status_text (status r)))
     else Started)"

definition probe :: "ustr \<Rightarrow> infra_category \<Rightarrow> string list \<Rightarrow> (infra_category \<times> string) option" where
  "probe lowered c table = map_option (Pair c) (find (\<lambda>s. contains_str (lit s) lowered) table)"

definition infra_signature :: "(ustr \<Rightarrow> ustr) \<Rightarrow> ustr \<Rightarrow> (infra_category \<times> string) option" where
  "infra_signature lowercase t = (let l = lowercase t in
     case probe l Auth AUTH_SIGNATURES of Some r \<Rightarrow> Some r
     | None \<Rightarrow> (case probe l Endpoint ENDPOINT_SIGNATURES of Some r \<Rightarrow> Some r
       | None \<Rightarrow> probe l Context CONTEXT_SIGNATURES))"

definition never_started :: "u32 option \<Rightarrow> bool option \<Rightarrow> u32 option \<Rightarrow> bool" where
  "never_started rc session turns \<longleftrightarrow> rc = Some 0 \<and> (session = Some False \<or> turns = Some 0)"

definition classify_run :: "(ustr \<Rightarrow> ustr) \<Rightarrow> run_record \<Rightarrow> fleet_policy \<Rightarrow> status_record" where
  "classify_run lowercase run p =
     (let bytes = byte_len (run_transcript run);
          record = (\<lambda>st sig attempt. \<lparr>issue = run_issue run, status = st, duration_secs = run_duration run,
            transcript_bytes = bytes, failure_signature = sig,
            quoted_transcript = (if bytes \<le> transcript_quote_bytes p then Some (run_transcript run) else None),
            consumes_attempt = attempt\<rparr>) in
      if run_duration run < duration_floor_secs p then record LaunchFail None False
      else (case infra_signature lowercase (run_transcript run) of
        Some (c, s) \<Rightarrow> record InfraFail
          (Some (lit ''INFRA-FAIL'' @ lit ''/'' @ lit (category_text c) @ lit ''/'' @ lit s)) False
      | None \<Rightarrow>
          if never_started (agent_rc run) (session_recorded run) (assistant_turns run)
          then record AgentNeverStarted (Some (lit ''AGENT-NEVER-STARTED'')) False
          else let st = (if blank (run_transcript run) then NoOutput else RunOk)
            in record st (if st = NoOutput \<and> agent_rc run = Some 0 then Some (lit ''NO-OUTPUT-RC-ZERO'') else None) True))"

section \<open>Batches\<close>

record fleet_fault =
  fault_code :: ustr
  fault_status :: run_status
  fault_signature :: ustr
  fault_count :: nat
  fault_issues :: "ustr list"

definition fault_line :: "fleet_fault \<Rightarrow> ustr" where
  "fault_line f = lit ''FLEET-FAULT code='' @ fault_code f @ lit '' status='' @ lit (status_text (fault_status f))
     @ lit '' signature='' @ fault_signature f @ lit '' count='' @ show_nat (fault_count f) @ lit '' issues=''
     @ join (lit '','') (fault_issues f) @ [32, 0x2014]
     @ lit '' repeated identical failure in one dispatch batch; treat as one fleet-level fault and stop re-dispatching until it is fixed''"

record batch_summary =
  ok_count :: nat
  no_output_count :: nat
  infra_fail_count :: nat
  launch_fail_count :: nat
  never_started_count :: nat
  batch_faults :: "fleet_fault list"

definition total_count :: "batch_summary \<Rightarrow> nat" where
  "total_count s = ok_count s + no_output_count s + infra_fail_count s + launch_fail_count s + never_started_count s"

definition summary_lines :: "batch_summary \<Rightarrow> ustr list" where
  "summary_lines s = (lit ''BATCH-SUMMARY ok='' @ show_nat (ok_count s) @ lit '' no-output='' @ show_nat (no_output_count s)
     @ lit '' infra-fail='' @ show_nat (infra_fail_count s) @ lit '' launch-fail='' @ show_nat (launch_fail_count s)
     @ (if never_started_count s = 0 then [] else lit '' never-started='' @ show_nat (never_started_count s))
     @ lit '' total='' @ show_nat (total_count s)) # map fault_line (batch_faults s)"

definition count_status :: "run_status \<Rightarrow> batch_summary \<Rightarrow> batch_summary" where
  "count_status st s = (case st of
       RunOk \<Rightarrow> s\<lparr>ok_count := ok_count s + 1\<rparr>
     | NoOutput \<Rightarrow> s\<lparr>no_output_count := no_output_count s + 1\<rparr>
     | InfraFail \<Rightarrow> s\<lparr>infra_fail_count := infra_fail_count s + 1\<rparr>
     | LaunchFail \<Rightarrow> s\<lparr>launch_fail_count := launch_fail_count s + 1\<rparr>
     | AgentNeverStarted \<Rightarrow> s\<lparr>never_started_count := never_started_count s + 1\<rparr>)"

type_synonym failure_groups = "(run_status \<times> ustr, ustr list) bmap"

definition failure_identity :: "status_record \<Rightarrow> run_status \<times> ustr" where
  "failure_identity r = (status r, case failure_signature r of Some s \<Rightarrow> s | None \<Rightarrow> lit (status_text (status r)))"

definition group_failure :: "status_record \<Rightarrow> failure_groups \<Rightarrow> failure_groups" where
  "group_failure r g = (if status r = RunOk then g
     else bm_insert (failure_identity r)
       ((case bm_get g (failure_identity r) of Some xs \<Rightarrow> xs | None \<Rightarrow> []) @ [issue r]) g)"

definition fault_of :: "(run_status \<times> ustr) \<times> ustr list \<Rightarrow> fleet_fault" where
  "fault_of e = \<lparr>fault_code = lit ''REPEATED_IDENTICAL_FAILURE'', fault_status = fst (fst e), fault_signature = snd (fst e),
     fault_count = length (snd e), fault_issues = snd e\<rparr>"

definition summarize_batch :: "status_record list \<Rightarrow> fleet_policy \<Rightarrow> batch_summary" where
  "summarize_batch rs p =
     (let empty = \<lparr>ok_count = 0, no_output_count = 0, infra_fail_count = 0, launch_fail_count = 0,
            never_started_count = 0, batch_faults = []\<rparr>;
          (s, g) = fold (\<lambda>r (s, g). (count_status (status r) s, group_failure r g)) rs (empty, bm_empty)
      in s\<lparr>batch_faults := map fault_of (filter (\<lambda>e. repeat_fault_threshold p \<le> length (snd e)) g)\<rparr>)"

record subfleet_state =
  subfleet_name :: ustr
  running_agents :: u32
  open_eligible :: u32

definition idle_subfleet_lines :: "subfleet_state list \<Rightarrow> ustr list" where
  "idle_subfleet_lines ss = map (\<lambda>s. lit ''SUBFLEET-IDLE'' @ lit '' subfleet='' @ subfleet_name s
       @ lit '' running-agents=0 open-eligible='' @ show_nat (unat (open_eligible s)) @ [32, 0x2014]
       @ lit '' eligible work is open but no agent is running in this sub-fleet; check the dispatch path to it'')
     (filter (\<lambda>s. running_agents s = 0 \<and> 0 < open_eligible s) ss)"

section \<open>Attempts\<close>

type_synonym attempt_ledger = "(ustr, u32) bmap"

definition attempts_of :: "attempt_ledger \<Rightarrow> ustr \<Rightarrow> u32" where
  "attempts_of l i = (case bm_get l i of Some n \<Rightarrow> n | None \<Rightarrow> 0)"

definition charge :: "status_record \<Rightarrow> attempt_ledger \<Rightarrow> attempt_ledger" where
  "charge r l = (if consumes_attempt r then bm_insert (issue r) (attempts_of l (issue r) + 1) l else l)"

definition apply_batch :: "attempt_ledger \<Rightarrow> status_record list \<Rightarrow> attempt_ledger" where
  "apply_batch l rs = fold charge rs l"

section \<open>The memory of the reconciler\<close>

record suspended_claim =
  claim :: ustr
  consecutive_failures :: u32
  last_failure :: ustr

definition suspended_line :: "suspended_claim \<Rightarrow> ustr" where
  "suspended_line s = lit ''CLAIM-SUSPENDED claim='' @ claim s @ lit '' consecutive-start-failures=''
     @ show_nat (unat (consecutive_failures s)) @ lit '' last='' @ last_failure s @ [32, 0x2014]
     @ lit '' the claim cannot converge; do not keep submitting into the same wall until the last failure is fixed''"

datatype record_effect = Submitted | Suspended suspended_claim

record reconciler_memory =
  threshold :: u32
  consecutive :: "(ustr, u32) bmap"
  last_failures :: "(ustr, ustr) bmap"
  suspended :: "(ustr, suspended_claim) bmap"

definition new_memory :: "u32 \<Rightarrow> reconciler_memory" where
  "new_memory n = \<lparr>threshold = (if n = 0 then 3 else n), consecutive = bm_empty, last_failures = bm_empty,
     suspended = bm_empty\<rparr>"

definition is_suspended :: "reconciler_memory \<Rightarrow> ustr \<Rightarrow> bool" where
  "is_suspended m c \<longleftrightarrow> bm_get (suspended m) c \<noteq> None"

definition failures_of :: "reconciler_memory \<Rightarrow> ustr \<Rightarrow> u32" where
  "failures_of m c = (case bm_get (consecutive m) c of Some n \<Rightarrow> n | None \<Rightarrow> 0)"

definition last_failure_of :: "reconciler_memory \<Rightarrow> ustr \<Rightarrow> ustr option" where
  "last_failure_of m c = bm_get (last_failures m) c"

definition forget_claim :: "ustr \<Rightarrow> reconciler_memory \<Rightarrow> reconciler_memory" where
  "forget_claim c m = m\<lparr>consecutive := bm_remove c (consecutive m), last_failures := bm_remove c (last_failures m),
     suspended := bm_remove c (suspended m)\<rparr>"

fun record_outcome :: "reconciler_memory \<Rightarrow> ustr \<Rightarrow> start_outcome \<Rightarrow> reconciler_memory \<times> record_effect" where
  "record_outcome m c Started = (forget_claim c m, Submitted)"
| "record_outcome m c Cancelled = (m, Submitted)"
| "record_outcome m c (StartFailed reason) =
     (let failures = saturating_add (failures_of m c) 1;
          m = m\<lparr>consecutive := bm_insert c failures (consecutive m), last_failures := bm_insert c reason (last_failures m)\<rparr>
      in if threshold m \<le> failures
         then if is_suspended m c then (m, Submitted)
           else let s = \<lparr>claim = c, consecutive_failures = failures, last_failure = reason\<rparr>
             in (m\<lparr>suspended := bm_insert c s (suspended m)\<rparr>, Suspended s)
         else (m, Submitted))"

fun apply_runs :: "reconciler_memory \<Rightarrow> status_record list \<Rightarrow> reconciler_memory \<times> suspended_claim list" where
  "apply_runs m [] = (m, [])"
| "apply_runs m (r # rs) =
     (let (m, e) = record_outcome m (issue r) (start_outcome_of r); (m, ss) = apply_runs m rs
      in (m, (case e of Suspended s \<Rightarrow> s # ss | Submitted \<Rightarrow> ss)))"

definition clear_claim :: "reconciler_memory \<Rightarrow> ustr \<Rightarrow> reconciler_memory \<times> bool" where
  "clear_claim m c = (forget_claim c m, is_suspended m c)"

definition claim_status_line :: "reconciler_memory \<Rightarrow> ustr \<Rightarrow> u32 \<Rightarrow> u32 \<Rightarrow> u32 \<Rightarrow> ustr" where
  "claim_status_line m c want up pending =
     (let base = lit ''want='' @ show_nat (unat want) @ lit '' up='' @ show_nat (unat up) @ lit '' pending='' @ show_nat (unat pending)
      in if failures_of m c = 0 then base
         else base @ lit '' ('' @ show_nat (unat (failures_of m c)) @ lit '' consecutive start failures, last: ''
           @ (case last_failure_of m c of Some r \<Rightarrow> r | None \<Rightarrow> lit ''unknown'')
           @ (if is_suspended m c then lit '' (suspended)'' else []) @ lit '')'')"

definition suspended_lines :: "reconciler_memory \<Rightarrow> ustr list" where
  "suspended_lines m = map suspended_line (bm_values (suspended m))"

end
