(* ===== verification/Fleet_Safety.thy ===== *)
theory Fleet_Safety
  imports Fleet_Dispatch
begin

text \<open>
  What the fleet records guarantee: which runs use up an attempt, which faults a batch raises, and that the memory
  of the reconciler implements, for every claim, the list of its start failures since the last start or release.
\<close>

section \<open>Runs and attempts\<close>

definition ALL_SIGNATURES :: "string list" where
  "ALL_SIGNATURES = AUTH_SIGNATURES @ ENDPOINT_SIGNATURES @ CONTEXT_SIGNATURES"

definition names_infra_failure :: "(ustr \<Rightarrow> ustr) \<Rightarrow> ustr \<Rightarrow> bool" where
  "names_infra_failure lowercase t \<longleftrightarrow> list_ex (\<lambda>s. contains_str (lit s) (lowercase t)) ALL_SIGNATURES"

definition expected_status :: "(ustr \<Rightarrow> ustr) \<Rightarrow> fleet_policy \<Rightarrow> run_record \<Rightarrow> run_status" where
  "expected_status lowercase p run =
     (if run_duration run < duration_floor_secs p then LaunchFail
      else if names_infra_failure lowercase (run_transcript run) then InfraFail
      else if agent_rc run = Some 0 \<and> (session_recorded run = Some False \<or> assistant_turns run = Some 0)
        then AgentNeverStarted
      else if list_all is_whitespace (run_transcript run) then NoOutput else RunOk)"

lemma find_None_list_ex: "find P xs = None \<longleftrightarrow> \<not> list_ex P xs"
  by (induction xs) auto

lemma find_Some_list_ex: "find P xs = Some y \<Longrightarrow> list_ex P xs"
  using find_None_list_ex [of P xs] by simp

lemma infra_signature_None: "infra_signature lowercase t = None \<longleftrightarrow> \<not> names_infra_failure lowercase t"
  by (auto simp: infra_signature_def Let_def probe_def names_infra_failure_def ALL_SIGNATURES_def find_None_list_ex
      split: option.splits dest: find_Some_list_ex)

lemma names_infra_iff: "names_infra_failure lowercase t \<longleftrightarrow> infra_signature lowercase t \<noteq> None"
  by (simp add: infra_signature_None)

lemma classify_fields:
  "status (classify_run lowercase run p) = expected_status lowercase p run"
  "consumes_attempt (classify_run lowercase run p) \<longleftrightarrow> expected_status lowercase p run \<in> {RunOk, NoOutput}"
  "issue (classify_run lowercase run p) = run_issue run"
  by (auto simp: classify_run_def expected_status_def Let_def never_started_def blank_iff
      list_all_iff names_infra_iff split: option.splits)

definition runs_charged :: "(ustr \<Rightarrow> ustr) \<Rightarrow> fleet_policy \<Rightarrow> ustr \<Rightarrow> run_record list \<Rightarrow> run_record list" where
  "runs_charged lowercase p i runs =
     filter (\<lambda>run. run_issue run = i \<and> expected_status lowercase p run \<in> {RunOk, NoOutput}) runs"

lemma attempts_charge:
  "attempts_of (charge r l) i = attempts_of l i + (if issue r = i \<and> consumes_attempt r then 1 else 0)"
  by (auto simp: charge_def attempts_of_def bm_get_insert)

lemma attempts_apply_batch:
  "attempts_of (apply_batch l rs) i = attempts_of l i + of_nat (length (filter (\<lambda>r. issue r = i \<and> consumes_attempt r) rs))"
  by (induction rs arbitrary: l) (auto simp: apply_batch_def attempts_charge)

text \<open>
  Runs use up attempts exactly as promised: after a batch of runs is classified and folded into the ledger, the
  count of an issue has grown by the number of its runs that lasted to the floor, named no failure of the
  infrastructure, and left no sign that the agent never started. A short run, and a run whose transcript names an
  infrastructure failure anywhere, are free, whatever their exit code (the counter is a \<open>u32\<close>).
\<close>
theorem attempts_exact:
  "attempts_of (apply_batch l (map (\<lambda>run. classify_run lowercase run p) runs)) i
     = attempts_of l i + of_nat (length (runs_charged lowercase p i runs))"
  by (simp add: attempts_apply_batch filter_map comp_def classify_fields runs_charged_def)

section \<open>Batches\<close>

definition failing :: "status_record list \<Rightarrow> (run_status \<times> ustr) list" where
  "failing rs = map failure_identity (filter (\<lambda>r. status r \<noteq> RunOk) rs)"

definition issues_failing :: "run_status \<times> ustr \<Rightarrow> status_record list \<Rightarrow> ustr list" where
  "issues_failing k rs = map issue (filter (\<lambda>r. status r \<noteq> RunOk \<and> failure_identity r = k) rs)"

lemma batch_groups:
  assumes "bm_ok g"
  shows "bm_ok (fold group_failure rs g)"
    and "fst ` set (fold group_failure rs g) = fst ` set g \<union> set (failing rs)"
    and "bm_get (fold group_failure rs g) k = (case bm_get g k of Some xs \<Rightarrow> Some (xs @ issues_failing k rs)
       | None \<Rightarrow> if issues_failing k rs = [] then None else Some (issues_failing k rs))"
  using assms
  by (induction rs arbitrary: g)
     (auto simp: failing_def issues_failing_def group_failure_def bm_ok_insert keys_bm_insert bm_get_insert split: option.splits)

lemma sorted_keys_unique: "bm_ok g \<Longrightarrow> map fst g = bs_of_list (map fst g)"
  by (rule strict_sorted_equal) (auto simp: bm_ok_def bs_of_list_sorted)

lemma entries_of_keys: "bm_ok g \<Longrightarrow> g = map (\<lambda>k. (k, the (bm_get g k))) (map fst g)"
  by (simp add: comp_def) (rule map_idI [symmetric], auto simp: bm_get_map_of bm_ok_def strict_sorted_iff)

lemma grouped_failures:
  "fold group_failure rs bm_empty = map (\<lambda>k. (k, issues_failing k rs)) (bs_of_list (failing rs))"
proof -
  let ?g = "fold group_failure rs bm_empty"
  have ok: "bm_ok ?g" by (rule batch_groups) simp
  have keys: "set (map fst ?g) = set (failing rs)"
    using batch_groups(2) [of bm_empty rs] by simp
  have get: "the (bm_get ?g k) = issues_failing k rs" if "k \<in> set (failing rs)" for k
  proof -
    have "issues_failing k rs \<noteq> []" using that by (auto simp: failing_def issues_failing_def filter_empty_conv)
    then show ?thesis using batch_groups(3) [of bm_empty rs k] by simp
  qed
  have "?g = map (\<lambda>k. (k, the (bm_get ?g k))) (bs_of_list (failing rs))"
    using entries_of_keys [OF ok] sorted_keys_unique [OF ok] bs_of_list_eqI [OF keys] by metis
  also have "\<dots> = map (\<lambda>k. (k, issues_failing k rs)) (bs_of_list (failing rs))"
    by (simp add: get)
  finally show ?thesis .
qed

lemma fold_pair: "fold (\<lambda>r (s, g). (f r s, h r g)) rs (s, g) = (fold f rs s, fold h rs g)"
  by (induction rs arbitrary: s g) auto

lemma total_count_status: "total_count (count_status st s) = total_count s + 1"
  by (cases st) (simp_all add: count_status_def total_count_def)

lemma total_counts: "total_count (fold (\<lambda>r. count_status (status r)) rs s) = total_count s + length rs"
  by (induction rs arbitrary: s) (simp_all add: total_count_status)

text \<open>A batch raises exactly the fleet faults it must: one fault for each failure, a status together with its
  signature, that occurs at least as often as the threshold, in order, with all its issues in the order of the batch
  and their number, and no other; and the five counters add up to the runs of the batch.
\<close>
theorem batch_faults_exact:
  "batch_faults (summarize_batch rs p)
     = map (\<lambda>k. \<lparr>fault_code = lit ''REPEATED_IDENTICAL_FAILURE'', fault_status = fst k, fault_signature = snd k,
           fault_count = length (issues_failing k rs), fault_issues = issues_failing k rs\<rparr>)
         (filter (\<lambda>k. repeat_fault_threshold p \<le> length (issues_failing k rs)) (bs_of_list (failing rs)))
   \<and> total_count (summarize_batch rs p) = length rs"
  by (simp add: summarize_batch_def Let_def fold_pair grouped_failures fault_of_def filter_map comp_def total_count_def
      total_counts [unfolded total_count_def])

section \<open>The memory of the reconciler\<close>

text \<open>What may happen to the memory: an outcome is recorded for a claim, or a claim is cleared.\<close>

datatype memory_event = Recorded ustr start_outcome | Cleared ustr

fun memory_step :: "memory_event \<Rightarrow> reconciler_memory \<Rightarrow> reconciler_memory" where
  "memory_step (Recorded c out) m = fst (record_outcome m c out)"
| "memory_step (Cleared c) m = fst (clear_claim m c)"

text \<open>What the memory stands for: the reasons of the failures of a claim since its last start or release.\<close>

fun streak_step :: "ustr \<Rightarrow> memory_event \<Rightarrow> ustr list \<Rightarrow> ustr list" where
  "streak_step c (Recorded d Started) rs = (if d = c then [] else rs)"
| "streak_step c (Recorded d Cancelled) rs = rs"
| "streak_step c (Recorded d (StartFailed reason)) rs = (if d = c then rs @ [reason] else rs)"
| "streak_step c (Cleared d) rs = (if d = c then [] else rs)"

definition streak :: "ustr \<Rightarrow> memory_event list \<Rightarrow> ustr list" where
  "streak c evs = fold (streak_step c) evs []"

definition suspension :: "u32 \<Rightarrow> ustr \<Rightarrow> ustr list \<Rightarrow> suspended_claim" where
  "suspension t c rs = \<lparr>claim = c, consecutive_failures = t, last_failure = rs ! (unat t - 1)\<rparr>"

definition remembers :: "u32 \<Rightarrow> reconciler_memory \<Rightarrow> ustr \<Rightarrow> ustr list \<Rightarrow> bool" where
  "remembers t m c rs \<longleftrightarrow> threshold m = t \<and> t \<noteq> 0
     \<and> unat (failures_of m c) = min (length rs) (2 ^ 32 - 1)
     \<and> last_failure_of m c = (if rs = [] then None else Some (last rs))
     \<and> bm_get (suspended m) c = (if unat t \<le> length rs then Some (suspension t c rs) else None)"

lemma failures_update:
  "failures_of (m\<lparr>consecutive := bm_insert c n (consecutive m), last_failures := l, suspended := s\<rparr>) d
     = (if d = c then n else failures_of m d)"
  "failures_of (m\<lparr>consecutive := bm_insert c n (consecutive m), last_failures := l\<rparr>) d = (if d = c then n else failures_of m d)"
  by (simp_all add: failures_of_def bm_get_insert)

lemma remembers_forget:
  assumes "remembers t m d rs"
  shows "remembers t (forget_claim c m) d (if d = c then [] else rs)"
  using assms by (auto simp: remembers_def forget_claim_def failures_of_def last_failure_of_def bm_get_remove
      suspension_def unat_eq_0)

lemma threshold_reached:
  fixes t f :: u32
  assumes "t \<noteq> 0" "unat f = min n (2 ^ 32 - 1)"
  shows "t \<le> saturating_add f 1 \<longleftrightarrow> unat t \<le> n + 1"
    and "unat (saturating_add f 1) = min (n + 1) (2 ^ 32 - 1)"
proof -
  show *: "unat (saturating_add f 1) = min (n + 1) (2 ^ 32 - 1)"
    using assms(2) by (simp add: unat_saturating_add_1)
  have "unat t < 2 ^ 32" using unsigned_less [of t, where ?'a = nat] by simp
  then show "t \<le> saturating_add f 1 \<longleftrightarrow> unat t \<le> n + 1"
    unfolding word_le_nat_alt * by auto
qed

lemma nth_append_known: "n \<le> length rs \<Longrightarrow> 0 < n \<Longrightarrow> (rs @ [x]) ! (n - 1) = rs ! (n - 1)"
  by (cases n) (simp_all add: nth_append)

lemma remembers_failure:
  assumes "remembers t m c rs"
  shows "remembers t (fst (record_outcome m c (StartFailed reason))) c (rs @ [reason])"
    and "snd (record_outcome m c (StartFailed reason)) = (if length rs + 1 = unat t
       then Suspended (suspension t c (rs @ [reason])) else Submitted)"
proof -
  let ?f = "saturating_add (failures_of m c) 1"
  from assms have t: "threshold m = t" "t \<noteq> 0" and f: "unat (failures_of m c) = min (length rs) (2 ^ 32 - 1)"
    and s: "bm_get (suspended m) c = (if unat t \<le> length rs then Some (suspension t c rs) else None)"
    by (simp_all add: remembers_def)
  note reach = threshold_reached [OF t(2) f]
  have pos: "0 < unat t" using t(2) by (simp add: unat_gt_0)
  have old: "suspension t c (rs @ [reason]) = suspension t c rs" if "unat t \<le> length rs"
    using nth_append_known [OF that pos] by (simp add: suspension_def)
  have new: "\<lparr>claim = c, consecutive_failures = ?f, last_failure = reason\<rparr> = suspension t c (rs @ [reason])"
    if "unat t = length rs + 1"
  proof -
    have "unat t < 2 ^ 32" using unsigned_less [of t, where ?'a = nat] by simp
    then have "unat ?f = unat t" using that reach(2) by simp
    then show ?thesis using that by (simp add: suspension_def word_unat_eq_iff)
  qed
  show "snd (record_outcome m c (StartFailed reason)) = (if length rs + 1 = unat t
       then Suspended (suspension t c (rs @ [reason])) else Submitted)"
    using reach(1) s t new by (auto simp: Let_def is_suspended_def split: if_splits)
  show "remembers t (fst (record_outcome m c (StartFailed reason))) c (rs @ [reason])"
    using reach s t new old
    by (auto simp: remembers_def Let_def is_suspended_def failures_update last_failure_of_def bm_get_insert split: if_splits)
qed

lemma remembers_other:
  assumes "remembers t m d rs" "c \<noteq> d"
  shows "remembers t (fst (record_outcome m c (StartFailed reason))) d rs"
  using assms by (simp add: remembers_def Let_def failures_update last_failure_of_def bm_get_insert)

lemma remembers_step:
  assumes "remembers t m d rs"
  shows "remembers t (memory_step e m) d (streak_step d e rs)"
proof (cases "(d, e, rs)" rule: streak_step.cases)
  case (3 _ c reason)
  then show ?thesis using remembers_failure(1) [OF assms] remembers_other [OF assms] by (cases "c = d") auto
qed (use remembers_forget [OF assms, of "case e of Recorded c _ \<Rightarrow> c | Cleared c \<Rightarrow> c"] assms in
    \<open>auto simp: clear_claim_def split: if_splits\<close>)

definition memory_after :: "u32 \<Rightarrow> memory_event list \<Rightarrow> reconciler_memory" where
  "memory_after n evs = fold memory_step evs (new_memory n)"

definition effective_threshold :: "u32 \<Rightarrow> u32" where
  "effective_threshold n = (if n = 0 then 3 else n)"

lemma memory_remembers: "remembers (effective_threshold n) (memory_after n evs) c (streak c evs)"
proof (induction evs rule: rev_induct)
  case Nil
  then show ?case by (simp add: memory_after_def streak_def remembers_def new_memory_def failures_of_def
        last_failure_of_def effective_threshold_def unat_eq_0)
qed (simp add: memory_after_def streak_def remembers_step)

text \<open>C21: The memory of the reconciler implements, for every claim and any history of outcomes and releases, the list of
  the reasons its workers failed to start since the last start or release, cancelled submissions apart: the counter
  is the length of the list (it stops at the largest \<open>u32\<close>), the last failure is its last element, and the claim is
  suspended if and only if the list has reached the threshold, a threshold of zero being read as three. The record
  of the suspension keeps the count and the reason of the failure that crossed the threshold, however many follow.
\<close>
theorem suspension_is_exact:
  "let m = memory_after n evs; rs = streak c evs; t = effective_threshold n in
     unat (failures_of m c) = min (length rs) (2 ^ 32 - 1)
     \<and> last_failure_of m c = (if rs = [] then None else Some (last rs))
     \<and> is_suspended m c = (unat t \<le> length rs)
     \<and> bm_get (suspended m) c = (if unat t \<le> length rs
         then Some \<lparr>claim = c, consecutive_failures = t, last_failure = rs ! (unat t - 1)\<rparr> else None)"
  using memory_remembers [of n evs c] by (simp add: Let_def remembers_def is_suspended_def suspension_def)

text \<open>
  A suspension is reported exactly once: after any history, recording an outcome reports a suspension if and only
  if the outcome is the start failure that brings the claim to the threshold. A claim that is already suspended keeps
  being accepted, with the answer that is documented as ``not suspended''.
\<close>
theorem suspension_reported_once:
  "snd (record_outcome (memory_after n evs) c out) = (case out of
       StartFailed reason \<Rightarrow> if length (streak c evs) + 1 = unat (effective_threshold n)
         then Suspended \<lparr>claim = c, consecutive_failures = effective_threshold n, last_failure = reason\<rparr> else Submitted
     | _ \<Rightarrow> Submitted)"
proof (cases out)
  case (StartFailed reason)
  have "(streak c evs @ [reason]) ! (unat (effective_threshold n) - 1) = reason"
    if "length (streak c evs) + 1 = unat (effective_threshold n)"
    using that by (metis add_diff_cancel_right' nth_append_length)
  then show ?thesis
    using remembers_failure(2) [OF memory_remembers, of n evs c reason] StartFailed by (simp add: suspension_def)
qed simp_all

lemma parse_status_text: "parse_status (lit (status_text s)) = Some s"
  by (cases s) (simp_all add: parse_status_def)

text \<open>A batch of classified runs is a history of outcomes, so the theorems above speak of it too.\<close>

lemma apply_runs_history:
  "fst (apply_runs m rs) = fold memory_step (map (\<lambda>r. Recorded (issue r) (start_outcome_of r)) rs) m"
proof (induction rs arbitrary: m)
  case (Cons r rs)
  show ?case
    by (cases "record_outcome m (issue r) (start_outcome_of r)")
       (simp add: split_beta Cons.IH Let_def)
qed simp

end
