(* ===== verification/Run_Status.thy ===== *)
theory Run_Status
  imports Json
begin

text \<open>
  The vocabulary of run statuses (\<open>run_status.rs\<close>, \<open>run_status/evidence.rs\<close>): the table compiled in from
  \<open>config/run-status-vocabulary.tsv\<close> and its reader, the resolution of a recorded name, the audit of the names a
  consumer matches, and the verdict that the exit codes of a run support.
\<close>

section \<open>Exit codes\<close>

text \<open>An \<open>i32\<close> is a word read as signed.\<close>

type_synonym i32 = "32 word"

definition parse_i32 :: "ustr \<Rightarrow> i32 option" where
  "parse_i32 s =
     (let neg = (take 1 s = [45]); ds = (if take 1 s = [45] \<or> take 1 s = [43] then drop 1 s else s);
          n = digits_value ds in
      if ds \<noteq> [] \<and> list_all is_ascii_digit ds \<and> (if neg then n \<le> 2 ^ 31 else n < 2 ^ 31)
      then Some (if neg then - of_nat n else of_nat n) else None)"

definition show_i32 :: "i32 \<Rightarrow> ustr" where
  "show_i32 w = (if sint w < 0 then 45 # show_nat (nat (- sint w)) else show_nat (nat (sint w)))"

lemma show_nat_head: "take 1 (show_nat n) \<noteq> [45] \<and> take 1 (show_nat n) \<noteq> [43]"
proof -
  obtain c t where "show_nat n = c # t" using show_nat_nonempty [of n] by (cases "show_nat n") auto
  then have "is_ascii_digit c" using show_nat_digits [of n] by simp
  then show ?thesis using \<open>show_nat n = c # t\<close> by (auto simp: is_ascii_digit_def)
qed

lemma parse_show_i32 [simp]: "parse_i32 (show_i32 w) = Some w"
proof -
  have range: "- (2 ^ 31) \<le> sint w" "sint w < 2 ^ 31"
    using sint_greater_eq [of w] sint_lt [of w] by simp_all
  have ds: "list_all is_ascii_digit (show_nat n)" for n
    using show_nat_digits [of n] by (simp add: list_all_iff)
  have w: "of_int (sint w) = w" by simp
  show ?thesis
  proof (cases "sint w < 0")
    case True
    then have "- of_nat (nat (- sint w)) = w" using w by (metis minus_minus of_int_minus of_nat_nat neg_0_le_iff_le less_le)
    then show ?thesis using True range(1) ds by (simp add: parse_i32_def show_i32_def Let_def nat_le_iff)
  next
    case False
    then have "of_nat (nat (sint w)) = w" using w by (metis of_nat_nat not_less)
    then show ?thesis using False range(2) ds show_nat_head [of "nat (sint w)"]
      by (simp add: parse_i32_def show_i32_def Let_def nat_less_iff)
  qed
qed

section \<open>The vocabulary\<close>

datatype run_label = Verified | NewTestFailures | TestTimeout | NoOutput | Timeout | FmtDirty | BuildFail
  | TimeoutNoOutput | UnknownNoBaseline | NoTestDb | Signalled | PartialCoverage

fun label_text :: "run_label \<Rightarrow> string" where
  "label_text Verified = ''VERIFIED''"
| "label_text NewTestFailures = ''NEW-TEST-FAILURES''"
| "label_text TestTimeout = ''TEST-TIMEOUT''"
| "label_text NoOutput = ''NO-OUTPUT''"
| "label_text Timeout = ''TIMEOUT''"
| "label_text FmtDirty = ''FMT-DIRTY''"
| "label_text BuildFail = ''BUILD-FAIL''"
| "label_text TimeoutNoOutput = ''TIMEOUT-NO-OUTPUT''"
| "label_text UnknownNoBaseline = ''UNKNOWN-NO-BASELINE''"
| "label_text NoTestDb = ''NO-TEST-DB''"
| "label_text Signalled = ''SIGNALLED''"
| "label_text PartialCoverage = ''PARTIAL-COVERAGE''"

lemma label_text_inject [simp]: "label_text a = label_text b \<longleftrightarrow> a = b"
  by (cases a; cases b) simp_all

definition all_labels :: "run_label list" where
  "all_labels = [Verified, NewTestFailures, TestTimeout, NoOutput, Timeout, FmtDirty, BuildFail, TimeoutNoOutput,
     UnknownNoBaseline, NoTestDb, Signalled, PartialCoverage]"

definition status_named :: "ustr \<Rightarrow> run_label option" where
  "status_named t = find (\<lambda>s. lit (label_text s) = t) all_labels"

datatype entry_kind = Emitted | Alias | GateOnly

record vocab_entry =
  entry_name :: ustr
  entry_kind :: entry_kind
  entry_canonical :: "run_label option"
  entry_meaning :: ustr

text \<open>The panics of the reader, each with the number of the line.\<close>

datatype vocab_panic =
    WrongColumns nat nat | NotAStatus nat ustr | AliasOfNothing nat ustr ustr | UnknownKind nat ustr | NoRows

definition read_columns :: "nat \<Rightarrow> ustr \<Rightarrow> ustr \<Rightarrow> ustr \<Rightarrow> ustr \<Rightarrow> vocab_panic + vocab_entry option" where
  "read_columns n name kind canonical meaning =
     (if name = lit ''name'' \<and> kind = lit ''kind'' then Inr None
      else if kind = lit ''emitted'' then (case status_named name of
          Some s \<Rightarrow> Inr (Some \<lparr>entry_name = lit (label_text s), entry_kind = Emitted, entry_canonical = Some s,
            entry_meaning = meaning\<rparr>)
        | None \<Rightarrow> Inl (NotAStatus n name))
      else if kind = lit ''alias'' then (case status_named canonical of
          Some s \<Rightarrow> Inr (Some \<lparr>entry_name = name, entry_kind = Alias, entry_canonical = Some s, entry_meaning = meaning\<rparr>)
        | None \<Rightarrow> Inl (AliasOfNothing n name canonical))
      else if kind = lit ''gate'' then (case status_named name of
          Some s \<Rightarrow> Inr (Some \<lparr>entry_name = lit (label_text s), entry_kind = GateOnly, entry_canonical = Some s,
            entry_meaning = meaning\<rparr>)
        | None \<Rightarrow> Inl (NotAStatus n name))
      else Inl (UnknownKind n kind))"

definition vocab_row :: "nat \<Rightarrow> ustr \<Rightarrow> vocab_panic + vocab_entry option" where
  "vocab_row n raw =
     (let row = trim_end raw in
      if blank row \<or> starts_with_str (lit ''#'') (trim_start row) then Inr None
      else case map trim (split_char 9 row) of
        [name, kind, canonical, meaning] \<Rightarrow> read_columns n name kind canonical meaning
      | cols \<Rightarrow> Inl (WrongColumns n (length cols)))"

fun vocab_rows :: "nat \<Rightarrow> ustr list \<Rightarrow> vocab_panic + vocab_entry list" where
  "vocab_rows n [] = Inr []"
| "vocab_rows n (l # ls) = and_then (vocab_row n l) (\<lambda>e. and_then (vocab_rows (n + 1) ls) (\<lambda>es.
     Inr (case e of Some e \<Rightarrow> e # es | None \<Rightarrow> es)))"

definition parse_vocabulary :: "ustr \<Rightarrow> vocab_panic + vocab_entry list" where
  "parse_vocabulary t = and_then (vocab_rows 1 (str_lines t)) (\<lambda>es. if es = [] then Inl NoRows else Inr es)"

text \<open>The file compiled into the binary.\<close>

definition tsv_row :: "string list \<Rightarrow> ustr" where
  "tsv_row cols = join [9] (map lit cols)"

definition vocabulary_lines :: "ustr list" where
  "vocabulary_lines =
    [lit ''# The run-status vocabulary: one definition for the name every component writes'',
     lit ''# into an artifact's `status=` field, and for the names that mean the same thing'',
     lit ''# under a different spelling (issue #4206).'',
     lit ''#'',
     lit ''# Columns (tab-separated): name, kind, canonical, meaning.'',
     lit ''#   kind=emitted  the runner writes this name.'',
     lit ''#   kind=alias    some other component writes this name; `canonical` names the'',
     lit ''#                 emitted status it means. `canonical` is `-` for a gate-only'',
     lit ''#                 status: a name the conversion gate writes about its own verdict'',
     lit ''#                 and the runner never emits.'',
     lit ''# `#` lines and blank lines are comments. Parse and assert in'',
     lit ''# crates/autospec-core/src/run_status.rs; the vocabulary is read from this file by'',
     lit ''# `include_str!`, so a consumer's list cannot silently disagree with it.'',
     tsv_row [''name'', ''kind'', ''canonical'', ''meaning''],
     tsv_row [''VERIFIED'', ''emitted'', ''-'', ''build, test and fmt stages all returned 0''],
     tsv_row [''NEW-TEST-FAILURES'', ''emitted'', ''-'', ''tests ran and at least one failed against the baseline''],
     tsv_row [''TEST-TIMEOUT'', ''emitted'', ''-'', ''the test stage hit its wall clock; no test verdict exists''],
     tsv_row [''NO-OUTPUT'', ''emitted'', ''-'', ''the run produced no artifact at all''],
     tsv_row [''TIMEOUT'', ''emitted'', ''-'', ''the run hit its wall clock before the gate''],
     tsv_row [''FMT-DIRTY'', ''emitted'', ''-'', ''cargo fmt --check reported unformatted files''],
     tsv_row [''BUILD-FAIL'', ''emitted'', ''-'', ''cargo build did not return 0''],
     tsv_row [''TIMEOUT-NO-OUTPUT'', ''emitted'', ''-'', ''timed out and produced no artifact either''],
     tsv_row [''SIGNALLED'', ''emitted'', ''-'', ''the agent was terminated by a signal the runner did not send itself''],
     tsv_row [''PARTIAL-COVERAGE'', ''emitted'', ''-'', ''the run executed fewer tests than the suite holds, so its counters cannot carry a pass/fail verdict''],
     tsv_row [''BUILD-FAILED'', ''alias'', ''BUILD-FAIL'', ''legacy spelling of BUILD-FAIL; the runner's own name carries no D''],
     tsv_row [''TESTS-DO-NOT-COMPILE'', ''alias'', ''BUILD-FAIL'', ''the build stage failed inside the test targets''],
     tsv_row [''UNKNOWN-NO-FMT-BASELINE'', ''alias'', ''UNKNOWN-NO-BASELINE'', ''legacy spelling of UNKNOWN-NO-BASELINE''],
     tsv_row [''PASS'', ''alias'', ''VERIFIED'', ''conversion-gate name for a green run''],
     tsv_row [''VERIFIED-ABSOLUTE'', ''alias'', ''VERIFIED'', ''conversion-gate name for green against an absolute baseline''],
     tsv_row [''UNKNOWN-NO-BASELINE'', ''gate'', ''-'', ''no baseline existed to attribute the failures against''],
     tsv_row [''NO-TEST-DB'', ''gate'', ''-'', ''test targets did not run: the database was unreachable'']]"

definition VOCABULARY_TSV :: ustr where
  "VOCABULARY_TSV = concat (map (\<lambda>l. l @ [10]) vocabulary_lines)"

definition vocab :: "string \<Rightarrow> entry_kind \<Rightarrow> run_label \<Rightarrow> string \<Rightarrow> vocab_entry" where
  "vocab n k c m = \<lparr>entry_name = lit n, entry_kind = k, entry_canonical = Some c, entry_meaning = lit m\<rparr>"

definition vocabulary :: "vocab_entry list" where
  "vocabulary =
    [vocab ''VERIFIED'' Emitted Verified
       ''build, test and fmt stages all returned 0'',
     vocab ''NEW-TEST-FAILURES'' Emitted NewTestFailures
       ''tests ran and at least one failed against the baseline'',
     vocab ''TEST-TIMEOUT'' Emitted TestTimeout
       ''the test stage hit its wall clock; no test verdict exists'',
     vocab ''NO-OUTPUT'' Emitted NoOutput
       ''the run produced no artifact at all'',
     vocab ''TIMEOUT'' Emitted Timeout
       ''the run hit its wall clock before the gate'',
     vocab ''FMT-DIRTY'' Emitted FmtDirty
       ''cargo fmt --check reported unformatted files'',
     vocab ''BUILD-FAIL'' Emitted BuildFail
       ''cargo build did not return 0'',
     vocab ''TIMEOUT-NO-OUTPUT'' Emitted TimeoutNoOutput
       ''timed out and produced no artifact either'',
     vocab ''SIGNALLED'' Emitted Signalled
       ''the agent was terminated by a signal the runner did not send itself'',
     vocab ''PARTIAL-COVERAGE'' Emitted PartialCoverage
       ''the run executed fewer tests than the suite holds, so its counters cannot carry a pass/fail verdict'',
     vocab ''BUILD-FAILED'' Alias BuildFail
       ''legacy spelling of BUILD-FAIL; the runner's own name carries no D'',
     vocab ''TESTS-DO-NOT-COMPILE'' Alias BuildFail
       ''the build stage failed inside the test targets'',
     vocab ''UNKNOWN-NO-FMT-BASELINE'' Alias UnknownNoBaseline
       ''legacy spelling of UNKNOWN-NO-BASELINE'',
     vocab ''PASS'' Alias Verified
       ''conversion-gate name for a green run'',
     vocab ''VERIFIED-ABSOLUTE'' Alias Verified
       ''conversion-gate name for green against an absolute baseline'',
     vocab ''UNKNOWN-NO-BASELINE'' GateOnly UnknownNoBaseline
       ''no baseline existed to attribute the failures against'',
     vocab ''NO-TEST-DB'' GateOnly NoTestDb
       ''test targets did not run: the database was unreachable'']"

text \<open>The reader accepts the file: no panic, and the table is this one.\<close>

definition neat :: "ustr \<Rightarrow> bool" where
  "neat s \<longleftrightarrow> s \<noteq> [] \<and> \<not> is_whitespace (hd s) \<and> \<not> is_whitespace (last s) \<and> list_all (\<lambda>c. c \<noteq> 9 \<and> c \<noteq> 10) s"

lemma trim_neat: "neat s \<Longrightarrow> trim s = s"
  by (simp add: neat_def trim_def trim_start_id trim_end_id)

lemma tsv_columns:
  assumes "neat a" "neat b" "neat c" "neat d" and row: "row = join [9] [a, b, c, d]"
  shows "trim_end row = row" "\<not> blank row" "trim_start row = row" "hd row = hd a"
    "map trim (split_char 9 row) = [a, b, c, d]"
proof -
  have ne: "a \<noteq> []" "d \<noteq> []" "row = a @ 9 # b @ 9 # c @ 9 # d" using assms by (auto simp: neat_def)
  show start: "trim_start row = row" using assms(1) ne by (intro trim_start_id) (auto simp: neat_def hd_append)
  show end_: "trim_end row = row" using assms(4) ne by (intro trim_end_id) (auto simp: neat_def)
  show "\<not> blank row" using start end_ ne by (simp add: blank_def trim_def)
  show "hd row = hd a" using ne by (simp add: hd_append)
  have "split_char 9 row = [a, b, c, d]"
    unfolding row using assms(1-4) by (intro split_join) (auto simp: neat_def list_all_iff)
  then show "map trim (split_char 9 row) = [a, b, c, d]" using assms by (simp add: trim_neat)
qed

definition comment_free :: "ustr \<Rightarrow> bool" where
  "comment_free a \<longleftrightarrow> neat a \<and> hd a \<noteq> 35"

text \<open>A row of neat columns is read column by column, a comment is skipped.\<close>

lemma vocab_row_columns:
  assumes "comment_free a" "neat b" "neat c" "neat d"
  shows "vocab_row n (join [9] [a, b, c, d]) = read_columns n a b c d"
proof -
  note cols = tsv_columns [OF _ assms(2-4) refl, of a]
  have "\<not> starts_with_str (lit ''#'') (join [9] [a, b, c, d])"
    using assms(1) by (cases a) (auto simp: starts_with_str_def strip_prefix_def lit_def comment_free_def neat_def)
  then show ?thesis using assms(1) cols
    by (simp only: vocab_row_def Let_def comment_free_def simp_thms if_False list.case)
qed

lemma vocab_row_comment: "vocab_row n (35 # t) = Inr None"
proof -
  have "trim_end (35 # t) \<noteq> []" "hd (trim_end (35 # t)) = 35"
    by (auto simp: trim_end_def dropWhile_append is_whitespace_def)
  then obtain u where u: "trim_end (35 # t) = 35 # u" by (cases "trim_end (35 # t)") auto
  then have "starts_with_str (lit ''#'') (trim_start (35 # u))"
    by (simp add: trim_start_def is_whitespace_def starts_with_str_def strip_prefix_def lit_def)
  then show ?thesis by (simp add: vocab_row_def u)
qed

lemma lit_comment: "lit (CHR ''#'' # s) = 35 # lit s"
  by (simp add: lit_def)

definition vocab_line :: "ustr \<Rightarrow> bool" where
  "vocab_line l \<longleftrightarrow> 10 \<notin> set l \<and> last (0 # l) \<noteq> 13"

lemma lines_ok: "list_all vocab_line vocabulary_lines"
  unfolding vocabulary_lines_def by (simp add: vocab_line_def lit_def tsv_row_def)

lemma vocab_row_tsv:
  "comment_free (lit a) \<Longrightarrow> neat (lit b) \<Longrightarrow> neat (lit c) \<Longrightarrow> neat (lit d) \<Longrightarrow>
     vocab_row n (tsv_row [a, b, c, d]) = read_columns n (lit a) (lit b) (lit c) (lit d)"
  using vocab_row_columns by (simp add: tsv_row_def)

lemma neat_lit:
  "neat (lit s) \<longleftrightarrow> s \<noteq> [] \<and> \<not> is_whitespace (of_char (hd s)) \<and> \<not> is_whitespace (of_char (last s))
     \<and> list_all (\<lambda>c. of_char c \<noteq> (9 :: nat) \<and> of_char c \<noteq> (10 :: nat)) s"
  "comment_free (lit s) \<longleftrightarrow> neat (lit s) \<and> of_char (hd s) \<noteq> (35 :: nat)"
  by (auto simp: neat_def comment_free_def lit_def hd_map last_map list.pred_map comp_def)

lemma rows_read: "vocab_rows 1 vocabulary_lines = Inr vocabulary"
  unfolding vocabulary_lines_def vocabulary_def
  by (simp add: lit_comment vocab_row_comment vocab_row_tsv neat_lit read_columns_def status_named_def
      all_labels_def is_whitespace_def vocab_def)

lemma vocabulary_parses: "parse_vocabulary VOCABULARY_TSV = Inr vocabulary"
proof -
  have "str_lines VOCABULARY_TSV = vocabulary_lines"
    unfolding VOCABULARY_TSV_def using lines_ok str_lines_concat [of vocabulary_lines] by (simp only: vocab_line_def [abs_def])
  then show ?thesis
    by (simp only: parse_vocabulary_def rows_read and_then.simps vocabulary_def list.distinct if_False)
qed

section \<open>Names and their resolution\<close>

definition names_of :: "entry_kind \<Rightarrow> ustr list" where
  "names_of k = map entry_name (filter (\<lambda>e. entry_kind e = k) vocabulary)"

definition emitted :: "ustr list" where "emitted = names_of Emitted"
definition aliases :: "ustr list" where "aliases = names_of Alias"
definition gate_statuses :: "ustr list" where "gate_statuses = names_of GateOnly"

definition entry :: "ustr \<Rightarrow> vocab_entry option" where
  "entry name = find (\<lambda>e. entry_name e = name) vocabulary"

definition is_declared :: "ustr \<Rightarrow> bool" where
  "is_declared name \<longleftrightarrow> entry name \<noteq> None"

definition canonical_status :: "ustr \<Rightarrow> run_label option" where
  "canonical_status raw = Option.bind (entry (trim raw)) entry_canonical"

definition origin_phrase :: "vocab_entry \<Rightarrow> ustr" where
  "origin_phrase e = (case entry_kind e of
       Emitted \<Rightarrow> lit ''emitted status''
     | Alias \<Rightarrow> (case entry_canonical e of Some s \<Rightarrow> lit ''alias of '' @ lit (label_text s) | None \<Rightarrow> lit ''alias'')
     | GateOnly \<Rightarrow> lit ''gate status, never emitted by the runner'')"

definition VOCABULARY_PATH :: ustr where
  "VOCABULARY_PATH = lit ''config/run-status-vocabulary.tsv''"

definition unknown_status_refusal :: "ustr \<Rightarrow> ustr \<Rightarrow> ustr" where
  "unknown_status_refusal consumer raw = consumer @ lit '': status '' @ [39] @ raw @ [39] @ lit '' is not declared in ''
     @ VOCABULARY_PATH @ lit ''; refusing to guess an action for a name the vocabulary does not contain''"

record match_list_audit =
  audit_consumer :: ustr
  audit_dead :: "ustr list"
  audit_undeclared :: "ustr list"
  audit_uncovered :: "ustr list"

definition audit_ok :: "match_list_audit \<Rightarrow> bool" where
  "audit_ok a \<longleftrightarrow> audit_dead a = [] \<and> audit_undeclared a = [] \<and> audit_uncovered a = []"

definition audit_line :: "match_list_audit \<Rightarrow> ustr" where
  "audit_line a = lit ''vocab-audit '' @ audit_consumer a @ lit '': ''
     @ (if audit_ok a then lit ''match list matches '' @ VOCABULARY_PATH
        else join (lit ''; '')
          ((if audit_dead a = [] then [] else [show_nat (length (audit_dead a))
              @ lit '' matched name(s) the runner never emits: '' @ join (lit '', '') (audit_dead a)])
           @ (if audit_undeclared a = [] then [] else [show_nat (length (audit_undeclared a))
              @ lit '' name(s) not declared in '' @ VOCABULARY_PATH @ lit '': '' @ join (lit '', '') (audit_undeclared a)])
           @ (if audit_uncovered a = [] then [] else [show_nat (length (audit_uncovered a))
              @ lit '' emitted status(es) unmatched: '' @ join (lit '', '') (audit_uncovered a)])))"

text \<open>What a matched name covers, given how the consumer matches.\<close>

definition covers :: "bool \<Rightarrow> vocab_entry \<Rightarrow> run_label option" where
  "covers canonicalises e =
     (if canonicalises then (case entry_canonical e of Some s \<Rightarrow> if lit (label_text s) \<in> set emitted then Some s else None
        | None \<Rightarrow> None)
      else if entry_kind e = Emitted then entry_canonical e else None)"

definition audit_list :: "ustr \<Rightarrow> ustr list \<Rightarrow> bool \<Rightarrow> match_list_audit" where
  "audit_list consumer matched canonicalises =
     (let covered = List.map_filter (\<lambda>n. Option.bind (entry n) (covers canonicalises)) matched in
      \<lparr>audit_consumer = consumer,
       audit_dead = List.map_filter (\<lambda>n. case entry n of None \<Rightarrow> None
         | Some e \<Rightarrow> if covers canonicalises e = None then Some (n @ lit '' ('' @ origin_phrase e @ lit '')'') else None) matched,
       audit_undeclared = filter (\<lambda>n. entry n = None) matched,
       audit_uncovered = filter (\<lambda>n. n \<notin> (\<lambda>s. lit (label_text s)) ` set covered) emitted\<rparr>)"

definition audit_match_list :: "ustr \<Rightarrow> ustr list \<Rightarrow> match_list_audit" where
  "audit_match_list consumer matched = audit_list consumer matched False"

definition audit_canonicalising_match_list :: "ustr \<Rightarrow> ustr list \<Rightarrow> match_list_audit" where
  "audit_canonicalising_match_list consumer matched = audit_list consumer matched True"

text \<open>The names a label answers to: its own, and the aliases of the file.\<close>

definition spellings :: "run_label \<Rightarrow> string list" where
  "spellings s = label_text s # (case s of
       Verified \<Rightarrow> [''PASS'', ''VERIFIED-ABSOLUTE''] | BuildFail \<Rightarrow> [''BUILD-FAILED'', ''TESTS-DO-NOT-COMPILE'']
     | UnknownNoBaseline \<Rightarrow> [''UNKNOWN-NO-FMT-BASELINE''] | _ \<Rightarrow> [])"

lemma find_key: "distinct (map f xs) \<Longrightarrow> find (\<lambda>e. f e = k) xs = Some e \<longleftrightarrow> e \<in> set xs \<and> f e = k"
  by (induction xs) auto

lemma entry_names_distinct: "distinct (map entry_name vocabulary)"
  by (simp add: vocabulary_def vocab_def)

lemma canonical_status_iff: "canonical_status raw = Some s \<longleftrightarrow> trim raw \<in> lit ` set (spellings s)"
proof -
  have "canonical_status raw = Some s \<longleftrightarrow> (trim raw, Some s) \<in> (\<lambda>e. (entry_name e, entry_canonical e)) ` set vocabulary"
    unfolding canonical_status_def entry_def bind_eq_Some_conv find_key [OF entry_names_distinct] image_iff prod.inject
    by metis
  then show ?thesis
    by (cases s) (simp_all add: vocabulary_def vocab_def spellings_def disj_ac)
qed

section \<open>Verdicts from exit codes\<close>

record run_evidence =
  build_rc :: "i32 option"
  test_rc :: "i32 option"
  fmt_rc :: "i32 option"

datatype derivation = Derived run_label | Insufficient

definition missing_rcs :: "run_evidence \<Rightarrow> string list" where
  "missing_rcs e = (if fmt_rc e = None then [''fmt_rc''] else []) @ (if build_rc e = None then [''build_rc''] else [])
     @ (if test_rc e = None then [''test_rc''] else [])"

definition show_rc :: "i32 option \<Rightarrow> ustr" where
  "show_rc v = (case v of Some rc \<Rightarrow> show_i32 rc | None \<Rightarrow> lit ''?'')"

definition evidence_line :: "run_evidence \<Rightarrow> ustr" where
  "evidence_line e = lit ''build_rc='' @ show_rc (build_rc e) @ lit '' test_rc='' @ show_rc (test_rc e)
     @ lit '' fmt_rc='' @ show_rc (fmt_rc e)"

definition failed_rc :: "i32 option \<Rightarrow> bool" where
  "failed_rc v \<longleftrightarrow> (case v of Some rc \<Rightarrow> rc \<noteq> 0 | None \<Rightarrow> False)"

definition derive :: "run_evidence \<Rightarrow> derivation" where
  "derive e =
     (if failed_rc (fmt_rc e) then Derived FmtDirty
      else if failed_rc (build_rc e) then Derived BuildFail
      else if failed_rc (test_rc e) then Derived NewTestFailures
      else if fmt_rc e = Some 0 \<and> build_rc e = Some 0 \<and> test_rc e = Some 0 then Derived Verified
      else Insufficient)"

datatype verdict_check = NoVerdict | Consistent run_label | Contradiction run_label run_label ustr
  | Undecidable run_label "string list" | Unverifiable run_label | Undeclared ustr

fun is_defect :: "verdict_check \<Rightarrow> bool" where
  "is_defect (Contradiction _ _ _) = True"
| "is_defect (Undecidable _ _) = True"
| "is_defect (Undeclared _) = True"
| "is_defect _ = False"

fun verdict_line :: "verdict_check \<Rightarrow> ustr" where
  "verdict_line NoVerdict = lit ''no verdict recorded; derive one from the fields''"
| "verdict_line (Consistent r) = lit ''verdict '' @ lit (label_text r) @ lit '' matches the evidence''"
| "verdict_line (Contradiction r d e) = lit ''verdict '' @ lit (label_text r) @ lit '' contradicted by its own fields: ''
     @ e @ lit '' implies '' @ lit (label_text d)"
| "verdict_line (Undecidable r ms) = lit ''verdict '' @ lit (label_text r)
     @ lit '' not supported by the record: green is not derivable with '' @ join (lit '', '') (map lit ms) @ lit '' unrecorded''"
| "verdict_line (Unverifiable r) = lit ''verdict '' @ lit (label_text r) @ lit '' not checkable from exit codes: ''
     @ [97] @ lit '' negative verdict needs the failing stage'' @ [39] @ lit ''s exit code to be checkable''"
| "verdict_line (Undeclared raw) = unknown_status_refusal (lit ''verdict'') raw"

definition check_verdict :: "ustr option \<Rightarrow> run_evidence \<Rightarrow> verdict_check" where
  "check_verdict recorded e = (case recorded of None \<Rightarrow> NoVerdict
     | Some r \<Rightarrow> (let raw = trim r in case canonical_status raw of None \<Rightarrow> Undeclared raw
         | Some s \<Rightarrow> (case derive e of
             Derived d \<Rightarrow> if d = s then Consistent s else Contradiction s d (evidence_line e)
           | Insufficient \<Rightarrow> if s = Verified then Undecidable s (missing_rcs e) else Unverifiable s)))"

section \<open>Populations of verdicts\<close>

record label_distribution =
  label_counts :: "(ustr, nat) bmap"
  label_total :: nat

definition count_label :: "ustr \<Rightarrow> (ustr, nat) bmap \<Rightarrow> (ustr, nat) bmap" where
  "count_label l m = bm_insert (trim l) ((case bm_get m (trim l) of Some n \<Rightarrow> n | None \<Rightarrow> 0) + 1) m"

definition distribution_of :: "ustr list \<Rightarrow> label_distribution" where
  "distribution_of ls = \<lparr>label_counts = fold count_label ls bm_empty, label_total = length ls\<rparr>"

definition distinct_labels :: "label_distribution \<Rightarrow> nat" where
  "distinct_labels d = length (label_counts d)"

text \<open>\<open>max_by_key\<close> keeps the last of several maxima.\<close>

definition top_label :: "label_distribution \<Rightarrow> (ustr \<times> nat) option" where
  "top_label d = fold (\<lambda>e best. case best of None \<Rightarrow> Some e
     | Some b \<Rightarrow> if snd b \<le> snd e then Some e else Some b) (label_counts d) None"

definition count_of_label :: "label_distribution \<Rightarrow> ustr \<Rightarrow> nat" where
  "count_of_label d l = (case bm_get (label_counts d) l of Some n \<Rightarrow> n | None \<Rightarrow> 0)"

definition is_degenerate :: "label_distribution \<Rightarrow> bool" where
  "is_degenerate d \<longleftrightarrow> 2 \<le> label_total d \<and> distinct_labels d = 1"

definition distribution_line :: "label_distribution \<Rightarrow> ustr" where
  "distribution_line d = (case top_label d of
       None \<Rightarrow> lit ''label distribution: empty population''
     | Some (l, n) \<Rightarrow>
         if is_degenerate d then lit ''label distribution: '' @ l @ [32] @ show_nat n @ lit ''/'' @ show_nat (label_total d)
           @ lit '' (100%) '' @ [0x2014]
           @ lit '' the label is constant across the population: it separates nothing and is not evidence''
         else lit ''label distribution: '' @ show_nat (distinct_labels d) @ lit '' distinct label(s) over ''
           @ show_nat (label_total d) @ lit '' record(s), most common '' @ l @ [32] @ show_nat n @ lit ''/''
           @ show_nat (label_total d))"

record run_claim =
  claimed_status :: "ustr option"
  claim_evidence :: run_evidence

record verdict_audit =
  audit_total :: nat
  audit_consistent :: nat
  audit_defects :: "verdict_check list"
  audit_distribution :: label_distribution

definition trustworthy :: "verdict_audit \<Rightarrow> bool" where
  "trustworthy a \<longleftrightarrow> audit_defects a = [] \<and> \<not> is_degenerate (audit_distribution a)"

definition verdict_audit_line :: "verdict_audit \<Rightarrow> ustr" where
  "verdict_audit_line a = (if trustworthy a then lit ''ok'' else lit ''WARN'') @ lit '': '' @ join (lit '', '')
     ([lit ''verdict audit: '' @ show_nat (audit_consistent a) @ lit ''/'' @ show_nat (audit_total a)
         @ lit '' record(s) supported by their fields'']
      @ (if audit_defects a = [] then [] else [show_nat (length (audit_defects a)) @ lit '' record(s) contradicted''])
      @ (if is_degenerate (audit_distribution a) then [lit ''label is constant''] else []))"

definition audit_population :: "run_claim list \<Rightarrow> verdict_audit" where
  "audit_population rs =
     (let checks = map (\<lambda>r. check_verdict (claimed_status r) (claim_evidence r)) rs in
      \<lparr>audit_total = length rs,
       audit_consistent = length (filter (\<lambda>c. case c of Consistent _ \<Rightarrow> True | _ \<Rightarrow> False) checks),
       audit_defects = filter is_defect checks,
       audit_distribution = distribution_of (List.map_filter claimed_status rs)\<rparr>)"

end
