(* ===== verification/Status_Triage.thy ===== *)
theory Status_Triage
  imports Fleet_Dispatch Run_Status
begin

text \<open>
  Triage of the report an agent leaves beside its patch (\<open>execution/status_triage.rs\<close> and its modules \<open>record\<close>,
  \<open>signal\<close>, \<open>coverage\<close>, \<open>render\<close>): the reader of \<open>status.txt\<close>, how the process ended, how much of the suite it ran,
  and the decision what the conversion pass does with the patch.
\<close>

section \<open>How the process ended\<close>

datatype termination_kind = OwnTimeout | SignalledBy string | Plain

definition OWN_TIMEOUT_RC :: i32 where "OWN_TIMEOUT_RC = 124"

definition signal_name :: "i32 \<Rightarrow> string option" where
  "signal_name rc = map_of [(1, ''SIGHUP''), (2, ''SIGINT''), (6, ''SIGABRT''), (9, ''SIGKILL''), (13, ''SIGPIPE''),
     (14, ''SIGALRM''), (15, ''SIGTERM'')] (rc - 128)"

definition classify_termination :: "i32 option \<Rightarrow> termination_kind" where
  "classify_termination rc = (case rc of None \<Rightarrow> Plain
     | Some c \<Rightarrow> if c = OWN_TIMEOUT_RC then OwnTimeout
         else (case signal_name c of Some s \<Rightarrow> SignalledBy s | None \<Rightarrow> Plain))"

definition attribution :: "termination_kind \<Rightarrow> ustr option \<Rightarrow> i32 option \<Rightarrow> ustr" where
  "attribution t recorded rc =
     (let part = (case rc of Some c \<Rightarrow> lit ''agent_rc='' @ show_i32 c | None \<Rightarrow> lit ''agent_rc unrecorded'') in
      case t of
        OwnTimeout \<Rightarrow> part @ lit '': the runner'' @ [39] @ lit ''s own timeout fired''
      | SignalledBy s \<Rightarrow> part @ lit '' is '' @ lit s
          @ (case recorded of Some n \<Rightarrow> if n \<noteq> lit s then lit '', the record names '' @ n @ lit '' instead'' else []
             | None \<Rightarrow> [])
          @ lit '': the runner'' @ [39] @ lit ''s own timeout exits '' @ show_i32 OWN_TIMEOUT_RC
          @ lit '', so the signal came from elsewhere and its sender is unattributed''
      | Plain \<Rightarrow> part @ lit '': no termination signal recorded'')"

definition is_signalled :: "ustr option \<Rightarrow> ustr option \<Rightarrow> i32 option \<Rightarrow> bool" where
  "is_signalled label recorded rc \<longleftrightarrow> Option.bind label canonical_status = Some Signalled \<or> recorded \<noteq> None
     \<or> (case classify_termination rc of SignalledBy _ \<Rightarrow> True | _ \<Rightarrow> False)"

section \<open>How much of the suite ran\<close>

datatype coverage = Unrecorded | Complete u64 | Partial u64 u64

definition from_counts :: "u64 option \<Rightarrow> u64 option \<Rightarrow> u64 option \<Rightarrow> coverage" where
  "from_counts passed failed suite =
     (let ran = saturating_add (case passed of Some n \<Rightarrow> n | None \<Rightarrow> 0) (case failed of Some n \<Rightarrow> n | None \<Rightarrow> 0) in
      case suite of None \<Rightarrow> Unrecorded
      | Some t \<Rightarrow> if t = 0 then Unrecorded else if t \<le> ran then Complete ran else Partial ran t)"

fun is_partial :: "coverage \<Rightarrow> bool" where
  "is_partial (Partial _ _) = True"
| "is_partial _ = False"

fun tests_ran :: "coverage \<Rightarrow> u64 option" where
  "tests_ran Unrecorded = None"
| "tests_ran (Complete n) = Some n"
| "tests_ran (Partial n _) = Some n"

fun coverage_line :: "coverage \<Rightarrow> ustr" where
  "coverage_line Unrecorded = lit ''coverage unrecorded (suite size not declared)''"
| "coverage_line (Complete n) = lit ''tests_run='' @ show_u64 n @ lit '' of '' @ show_u64 n"
| "coverage_line (Partial n t) = lit ''tests_run='' @ show_u64 n @ lit '' of '' @ show_u64 t @ lit '' (''
     @ show_u64 (saturating_mul n 100 div max t 1) @ lit ''%)''"

definition claims_a_pass :: "run_label option \<Rightarrow> bool" where
  "claims_a_pass l \<longleftrightarrow> l = Some Verified"

definition entitled :: "run_label option \<Rightarrow> coverage \<Rightarrow> run_label option" where
  "entitled l c = (if claims_a_pass l \<and> is_partial c then Some PartialCoverage else l)"

record fix_tally =
  tally_fixed :: "ustr list"
  tally_failing :: "ustr list"
  tally_unobserved :: "ustr list"

definition tally_fixes :: "ustr list \<Rightarrow> ustr list \<Rightarrow> ustr list \<Rightarrow> fix_tally" where
  "tally_fixes baseline passed failed =
     \<lparr>tally_fixed = filter (\<lambda>e. e \<in> set passed) baseline,
      tally_failing = filter (\<lambda>e. e \<notin> set passed \<and> e \<in> set failed) baseline,
      tally_unobserved = filter (\<lambda>e. e \<notin> set passed \<and> e \<notin> set failed) baseline\<rparr>"

definition tally_line :: "fix_tally \<Rightarrow> ustr" where
  "tally_line t = lit ''fixed_baseline_failures='' @ show_nat (length (tally_fixed t)) @ lit '' still_failing=''
     @ show_nat (length (tally_failing t))
     @ (if tally_unobserved t = [] then [] else lit '' unobserved='' @ show_nat (length (tally_unobserved t))
        @ lit '' (not scored: a test that never ran cannot be fixed)'')"

section \<open>The report\<close>

record agent_report =
  rep_status :: "ustr option"
  rep_build_rc :: "i32 option"
  rep_test_rc :: "i32 option"
  rep_fmt_rc :: "i32 option"
  rep_fmt_files :: "nat option"
  rep_signal :: "ustr option"
  rep_agent_rc :: "i32 option"
  rep_passed :: "u64 option"
  rep_failed :: "u64 option"
  rep_total :: "u64 option"
  rep_session :: "bool option"
  rep_turns :: "u32 option"

definition empty_report :: agent_report where
  "empty_report = \<lparr>rep_status = None, rep_build_rc = None, rep_test_rc = None, rep_fmt_rc = None, rep_fmt_files = None,
     rep_signal = None, rep_agent_rc = None, rep_passed = None, rep_failed = None, rep_total = None,
     rep_session = None, rep_turns = None\<rparr>"

definition report_is_empty :: "agent_report \<Rightarrow> bool" where
  "report_is_empty r \<longleftrightarrow> rep_status r = None \<and> rep_build_rc r = None \<and> rep_test_rc r = None \<and> rep_fmt_rc r = None
     \<and> rep_fmt_files r = None \<and> rep_signal r = None \<and> rep_agent_rc r = None \<and> rep_passed r = None
     \<and> rep_failed r = None \<and> rep_total r = None \<and> rep_session r = None \<and> rep_turns r = None"

definition coverage_of :: "agent_report \<Rightarrow> coverage" where
  "coverage_of r = from_counts (rep_passed r) (rep_failed r) (rep_total r)"

text \<open>\<open>str::parse\<close> for \<open>u32\<close> and \<open>usize\<close> (64 bits), and \<open>split_whitespace\<close>.\<close>

definition parse_u32 :: "ustr \<Rightarrow> u32 option" where
  "parse_u32 s = (case parse_u64 s of Some n \<Rightarrow> if unat n < 2 ^ 32 then Some (ucast n) else None | None \<Rightarrow> None)"

definition parse_usize :: "ustr \<Rightarrow> nat option" where
  "parse_usize s = map_option unat (parse_u64 s)"

fun words_from :: "ustr \<Rightarrow> ustr \<Rightarrow> ustr list" where
  "words_from acc [] = (if acc = [] then [] else [rev acc])"
| "words_from acc (c # cs) = (if is_whitespace c then (if acc = [] then [] else [rev acc]) @ words_from [] cs
     else words_from (c # acc) cs)"

definition split_whitespace :: "ustr \<Rightarrow> ustr list" where
  "split_whitespace s = words_from [] s"

datatype report_error =
    EmptyValue ustr | NotAnInteger string ustr | NotACount string ustr | NotAFlag string ustr | NotTurns string ustr
  | NotFiles ustr | NotKeyValue ustr | NotAPair ustr

fun report_error_text :: "report_error \<Rightarrow> ustr" where
  "report_error_text (EmptyValue k) = lit ''value for `'' @ k @ lit ''` is empty''"
| "report_error_text (NotAnInteger k v) = lit k @ lit '' expects an integer exit code, got '' @ v"
| "report_error_text (NotACount k v) = lit k @ lit '' expects a non-negative test count, got '' @ v"
| "report_error_text (NotAFlag k v) = lit k @ lit '' expects true or false, got '' @ v"
| "report_error_text (NotTurns k v) = lit k @ lit '' expects a non-negative turn count, got '' @ v"
| "report_error_text (NotFiles v) = lit ''fmt-files.txt expects a file count, got '' @ v"
| "report_error_text (NotKeyValue t) = lit ''not '' @ [39] @ lit ''key=value'' @ [39] @ lit '': '' @ t"
| "report_error_text (NotAPair l) = lit ''not '' @ [39] @ lit ''key=value'' @ [39] @ lit '' or '' @ [39] @ lit ''key: value''
     @ [39] @ lit '': '' @ l"

definition require :: "'e \<Rightarrow> 'a option \<Rightarrow> 'e + 'a" where
  "require e v = (case v of Some x \<Rightarrow> Inr x | None \<Rightarrow> Inl e)"

definition parse_rc :: "string \<Rightarrow> ustr \<Rightarrow> report_error + i32" where
  "parse_rc k v = require (NotAnInteger k v) (parse_i32 v)"

definition parse_count :: "string \<Rightarrow> ustr \<Rightarrow> report_error + u64" where
  "parse_count k v = require (NotACount k v) (parse_u64 v)"

definition parse_flag :: "string \<Rightarrow> ustr \<Rightarrow> report_error + bool" where
  "parse_flag k v = (if v = lit ''true'' then Inr True else if v = lit ''false'' then Inr False else Inl (NotAFlag k v))"

definition parse_turns :: "string \<Rightarrow> ustr \<Rightarrow> report_error + u32" where
  "parse_turns k v = require (NotTurns k v) (parse_u32 v)"

definition parse_fmt_files :: "ustr \<Rightarrow> report_error + nat" where
  "parse_fmt_files v = require (NotFiles v)
     (parse_usize (case strip_suffix (lit ''entries'') v of Some c \<Rightarrow> trim c | None \<Rightarrow> v))"

definition set_field :: "agent_report \<Rightarrow> ustr \<Rightarrow> ustr \<Rightarrow> report_error + agent_report" where
  "set_field r k v =
     (if v = [] then Inl (EmptyValue k)
      else if k = lit ''status'' then Inr (r\<lparr>rep_status := Some v\<rparr>)
      else if k = lit ''build_rc'' then map_ok (\<lambda>n. r\<lparr>rep_build_rc := Some n\<rparr>) (parse_rc ''build_rc'' v)
      else if k = lit ''test_rc'' then map_ok (\<lambda>n. r\<lparr>rep_test_rc := Some n\<rparr>) (parse_rc ''test_rc'' v)
      else if k = lit ''fmt_rc'' then map_ok (\<lambda>n. r\<lparr>rep_fmt_rc := Some n\<rparr>) (parse_rc ''fmt_rc'' v)
      else if k = lit ''fmt-files.txt'' then map_ok (\<lambda>n. r\<lparr>rep_fmt_files := Some n\<rparr>) (parse_fmt_files v)
      else if k = lit ''signal'' then Inr (r\<lparr>rep_signal := Some v\<rparr>)
      else if k = lit ''agent_rc'' then map_ok (\<lambda>n. r\<lparr>rep_agent_rc := Some n\<rparr>) (parse_rc ''agent_rc'' v)
      else if k = lit ''test_passed'' then map_ok (\<lambda>n. r\<lparr>rep_passed := Some n\<rparr>) (parse_count ''test_passed'' v)
      else if k = lit ''test_failed'' then map_ok (\<lambda>n. r\<lparr>rep_failed := Some n\<rparr>) (parse_count ''test_failed'' v)
      else if k = lit ''tests_total'' then map_ok (\<lambda>n. r\<lparr>rep_total := Some n\<rparr>) (parse_count ''tests_total'' v)
      else if k = lit ''session_recorded'' then map_ok (\<lambda>b. r\<lparr>rep_session := Some b\<rparr>) (parse_flag ''session_recorded'' v)
      else if k = lit ''assistant_turns'' then map_ok (\<lambda>n. r\<lparr>rep_turns := Some n\<rparr>) (parse_turns ''assistant_turns'' v)
      else Inr r)"

fun record_tokens :: "agent_report \<Rightarrow> ustr list \<Rightarrow> report_error + agent_report" where
  "record_tokens r [] = Inr r"
| "record_tokens r (t # ts) = (case split_once_str (lit ''='') t of
     None \<Rightarrow> Inl (NotKeyValue t)
   | Some (k, v) \<Rightarrow> and_then (set_field r (trim k) (trim v)) (\<lambda>r. record_tokens r ts))"

definition record_pair :: "agent_report \<Rightarrow> ustr \<Rightarrow> report_error + agent_report" where
  "record_pair r l = (case split_once_str (lit '':'') l of
     None \<Rightarrow> Inl (NotAPair l) | Some (k, v) \<Rightarrow> set_field r (trim k) (trim v))"

definition record_line :: "agent_report \<Rightarrow> ustr \<Rightarrow> report_error + agent_report" where
  "record_line r raw = (let l = trim raw in
     if l = [] \<or> starts_with_str (lit ''#'') l then Inr r
     else if contains_str (lit ''='') l then record_tokens r (split_whitespace l) else record_pair r l)"

text \<open>An error carries the number of its line.\<close>

fun record_lines :: "nat \<Rightarrow> agent_report \<Rightarrow> ustr list \<Rightarrow> (nat \<times> report_error) + agent_report" where
  "record_lines n r [] = Inr r"
| "record_lines n r (l # ls) = (case record_line r l of Inl e \<Rightarrow> Inl (n, e) | Inr r \<Rightarrow> record_lines (n + 1) r ls)"

definition parse_agent_report :: "ustr \<Rightarrow> (nat \<times> report_error) + agent_report" where
  "parse_agent_report t = record_lines 1 empty_report (str_lines t)"

definition report_failure_text :: "nat \<times> report_error \<Rightarrow> ustr" where
  "report_failure_text e = lit ''line '' @ show_nat (fst e) @ lit '': '' @ report_error_text (snd e)"

section \<open>The decision\<close>

datatype hold_reason = Unformatted | Unbuilt

fun hold_reason_text :: "hold_reason \<Rightarrow> string" where
  "hold_reason_text Unformatted = ''AGENT-REPORTED-UNFORMATTED''"
| "hold_reason_text Unbuilt = ''AGENT-REPORTED-UNBUILT''"

datatype gate_basis = AgentReportedTestFailure "ustr option" | NoBaseline | AgentGreen | PartialRun coverage
  | ReportUnreadable ustr

datatype triage_decision = Redispatch ustr | RaiseForReview ustr | Killed "ustr option" ustr | HoldPatch hold_reason
  | FormatAndRecheck | GateLocally gate_basis

text \<open>The last match of \<open>triage\<close> has an arm that panics; it is a value of its own here.\<close>

datatype triage_result = Decided triage_decision | Unreachable

definition green_basis :: "agent_report \<Rightarrow> run_label option \<Rightarrow> gate_basis" where
  "green_basis r canonical = (case coverage_of r of
       Partial n t \<Rightarrow> PartialRun (Partial n t)
     | c \<Rightarrow> if canonical = Some PartialCoverage then PartialRun c else AgentGreen)"

definition triage_label :: "agent_report \<Rightarrow> run_label option \<Rightarrow> triage_result" where
  "triage_label r canonical =
     (let test_failed = failed_rc (rep_test_rc r);
          by_tests = Decided (GateLocally (AgentReportedTestFailure (rep_status r)));
          green = Decided (GateLocally (green_basis r canonical)) in
      case canonical of
        Some Timeout \<Rightarrow> Unreachable | Some TimeoutNoOutput \<Rightarrow> Unreachable | Some Signalled \<Rightarrow> Unreachable
      | Some FmtDirty \<Rightarrow> Unreachable | Some BuildFail \<Rightarrow> Unreachable
      | Some run_label.NoOutput \<Rightarrow> Decided (RaiseForReview (case rep_status r of Some s \<Rightarrow> s | None \<Rightarrow> []))
      | Some NoTestDb \<Rightarrow> Decided (RaiseForReview (case rep_status r of Some s \<Rightarrow> s | None \<Rightarrow> []))
      | Some UnknownNoBaseline \<Rightarrow> Decided (GateLocally NoBaseline)
      | Some NewTestFailures \<Rightarrow> by_tests | Some TestTimeout \<Rightarrow> by_tests
      | Some Verified \<Rightarrow> if test_failed then by_tests else green
      | None \<Rightarrow> if test_failed then by_tests else green
      | Some PartialCoverage \<Rightarrow> green)"

definition triage :: "agent_report \<Rightarrow> triage_result" where
  "triage r =
     (if report_is_empty r then Decided (GateLocally (ReportUnreadable (lit ''status file is empty'')))
      else let canonical = Option.bind (rep_status r) canonical_status in
        if canonical = Some Timeout then Decided (Redispatch (lit (label_text Timeout)))
        else if canonical = Some TimeoutNoOutput then Decided (RaiseForReview (lit (label_text TimeoutNoOutput)))
        else if is_signalled (rep_status r) (rep_signal r) (rep_agent_rc r)
          then Decided (Killed (rep_signal r) (lit (label_text Signalled)))
        else if never_started (rep_agent_rc r) (rep_session r) (rep_turns r)
          then Decided (RaiseForReview (lit (status_text AgentNeverStarted)))
        else let fmt_failed = failed_rc (rep_fmt_rc r) \<or> canonical = Some FmtDirty;
                 build_failed = failed_rc (rep_build_rc r) \<or> canonical = Some BuildFail in
          if fmt_failed then Decided (if build_failed then HoldPatch Unformatted else FormatAndRecheck)
          else if build_failed then Decided (HoldPatch Unbuilt)
          else triage_label r canonical)"

definition triage_report :: "ustr \<Rightarrow> triage_result" where
  "triage_report t = (case parse_agent_report t of Inr r \<Rightarrow> triage r
     | Inl e \<Rightarrow> Decided (GateLocally (ReportUnreadable (report_failure_text e))))"

section \<open>After formatting\<close>

datatype post_format = Gate | HoldStillDirty | HoldWidened "ustr list"

definition post_format_decision :: "i32 \<Rightarrow> ustr list \<Rightarrow> post_format" where
  "post_format_decision rc widened = (if rc \<noteq> 0 then HoldStillDirty else if widened = [] then Gate else HoldWidened widened)"

definition format_scope_check :: "ustr list \<Rightarrow> ustr list \<Rightarrow> ustr list + unit" where
  "format_scope_check before after =
     (let widened = bs_of_list (filter (\<lambda>p. p \<notin> set before) after) in if widened = [] then Inr () else Inl widened)"

section \<open>What the operator reads\<close>

definition fmt_evidence :: "agent_report \<Rightarrow> ustr" where
  "fmt_evidence r = (case (rep_fmt_rc r, rep_fmt_files r) of
       (Some rc, Some n) \<Rightarrow> lit ''fmt_rc='' @ show_i32 rc @ lit '' ('' @ show_nat n @ lit '' files)''
     | (Some rc, None) \<Rightarrow> lit ''fmt_rc='' @ show_i32 rc
     | (None, Some n) \<Rightarrow> lit ''fmt_files='' @ show_nat n
     | (None, None) \<Rightarrow> lit ''fmt failure'')"

definition held_line :: "agent_report \<Rightarrow> hold_reason \<Rightarrow> ustr" where
  "held_line r reason =
     (let evidence = (case reason of Unformatted \<Rightarrow> fmt_evidence r
        | Unbuilt \<Rightarrow> (case rep_build_rc r of Some rc \<Rightarrow> lit ''build_rc='' @ show_i32 rc | None \<Rightarrow> lit ''build failure'')) in
      lit ''HELD: agent reported '' @ evidence @ (case rep_status r of Some s \<Rightarrow> lit '', status='' @ s | None \<Rightarrow> []))"

fun basis_line :: "gate_basis \<Rightarrow> agent_report \<Rightarrow> ustr" where
  "basis_line (AgentReportedTestFailure (Some s)) r =
     lit ''agent reported test failure (status='' @ s @ lit ''); re-verifying against current main''"
| "basis_line (AgentReportedTestFailure None) r = (case rep_test_rc r of
       Some rc \<Rightarrow> lit ''agent reported test failure (test_rc='' @ show_i32 rc @ lit ''); re-verifying against current main''
     | None \<Rightarrow> lit ''agent reported test failure; re-verifying against current main'')"
| "basis_line NoBaseline r = lit ''status=UNKNOWN-NO-BASELINE; no baseline to attribute the failures '' @ [0x2014]
     @ lit '' gating against current main''"
| "basis_line (PartialRun c) r = coverage_line c
     @ lit ''; the run stopped short of the suite, so its verdict covers a prefix of it '' @ [0x2014]
     @ lit '' running the full gate locally (#4665)''"
| "basis_line AgentGreen r = lit ''agent reported green; confirming against current main''"
| "basis_line (ReportUnreadable d) r = lit ''status file unreadable ('' @ d @ lit ''); gating against current main''"

fun decision_line :: "triage_decision \<Rightarrow> agent_report \<Rightarrow> ustr" where
  "decision_line (Redispatch s) r = lit ''RE-DISPATCH: agent reported status='' @ s @ lit ''; the run never reached the gate''"
| "decision_line (RaiseForReview s) r = lit ''RAISE-FOR-REVIEW: agent reported status='' @ s
     @ (if s = lit (status_text AgentNeverStarted)
        then lit ''; the runner exited 0 but recorded no session or no assistant turn, so no verdict about the patch exists (#4745)''
        else lit ''; the run produced no output, so re-dispatch would reproduce the same emptiness (#3936)'')"
| "decision_line (Killed _ _) r =
     lit ''REFUSED: the run was terminated by a signal, so no verdict about the patch exists; ''
     @ attribution (classify_termination (rep_agent_rc r)) (rep_signal r) (rep_agent_rc r) @ lit '' (#4651)''"
| "decision_line (HoldPatch reason) r = held_line r reason"
| "decision_line FormatAndRecheck r = lit ''FORMAT-AND-RECHECK: agent reported '' @ fmt_evidence r
     @ (case rep_status r of Some s \<Rightarrow> lit '', status='' @ s | None \<Rightarrow> [])
     @ lit ''; formatting and re-checking locally before judging''"
| "decision_line (GateLocally b) r = lit ''GATE-LOCALLY: '' @ basis_line b r"

end
