(* ===== verification/Dispatch_Guard.thy ===== *)
theory Dispatch_Guard
  imports Status_Triage
begin

text \<open>
  The guard before a dispatch destroys the output of an issue (\<open>dispatch_guard.rs\<close>): the checks and their reports,
  the classification of an unconverted patch, and the verdict.
\<close>

section \<open>Checks\<close>

datatype check_id = UnconvertedPatch | RunningProcess

fun check_text :: "check_id \<Rightarrow> string" where
  "check_text UnconvertedPatch = ''unconverted_patch''"
| "check_text RunningProcess = ''running_process''"

datatype check_outcome = Clear | Dangerous | Failed ustr

record check_report =
  check :: check_id
  outcome :: check_outcome
  evidence :: "ustr option"

definition clear_check :: "check_id \<Rightarrow> ustr option \<Rightarrow> check_report" where
  "clear_check c e = \<lparr>check = c, outcome = Clear, evidence = e\<rparr>"

definition dangerous_check :: "check_id \<Rightarrow> ustr option \<Rightarrow> check_report" where
  "dangerous_check c e = \<lparr>check = c, outcome = Dangerous, evidence = e\<rparr>"

definition failed_check :: "check_id \<Rightarrow> ustr \<Rightarrow> check_report" where
  "failed_check c d = \<lparr>check = c, outcome = Failed d, evidence = None\<rparr>"

section \<open>Unconverted patches\<close>

definition FAILED_RUN_STATUSES :: "run_label list" where
  "FAILED_RUN_STATUSES = [BuildFail, Timeout, TimeoutNoOutput, TestTimeout, Signalled]"

datatype artifact_outcome = FailedRun ustr | Convertible ustr | OutcomeUnrecorded ustr

definition classify_artifact_outcome :: "ustr option \<Rightarrow> artifact_outcome" where
  "classify_artifact_outcome s = (case s of
       None \<Rightarrow> OutcomeUnrecorded (lit ''no terminal status recorded next to the patch'')
     | Some s \<Rightarrow> (case canonical_status s of
         Some c \<Rightarrow> if c \<in> set FAILED_RUN_STATUSES then FailedRun s else Convertible s
       | None \<Rightarrow> Convertible s))"

definition classify_report :: "agent_report \<Rightarrow> artifact_outcome" where
  "classify_report r = (case classify_artifact_outcome (rep_status r) of
       FailedRun s \<Rightarrow> FailedRun s
     | by_label \<Rightarrow>
         if is_signalled (rep_status r) (rep_signal r) (rep_agent_rc r) then FailedRun (lit (label_text Signalled))
         else let label = Option.bind (rep_status r) canonical_status in
           case entitled label (coverage_of r) of
             Some e \<Rightarrow> if Some e \<noteq> label then Convertible (lit (label_text e)) else by_label
           | None \<Rightarrow> by_label)"

section \<open>The verdict\<close>

datatype guard_reason = PatchExists "ustr option" | PatchAwaitingConversion "ustr option" ustr
  | PatchOutcomeUnrecorded "ustr option" ustr | ProcessRunning | CheckMissing check_id | CheckFailed check_id ustr

datatype guard_decision = Dispatch | Hold guard_reason

record guard_report =
  guarded_issue :: ustr
  decision :: guard_decision
  checks :: "check_report list"

definition hold :: "ustr \<Rightarrow> check_report list \<Rightarrow> guard_reason \<Rightarrow> guard_report" where
  "hold i cs r = \<lparr>guarded_issue = i, decision = Hold r, checks = cs\<rparr>"

definition failed_in :: "check_report list \<Rightarrow> (check_id \<times> ustr) option" where
  "failed_in rs = (case List.map_filter (\<lambda>r. case outcome r of Failed d \<Rightarrow> Some (check r, d) | _ \<Rightarrow> None) rs of
     [] \<Rightarrow> None | x # _ \<Rightarrow> Some x)"

definition decide :: "ustr \<Rightarrow> check_report list \<Rightarrow> guard_report" where
  "decide i cs =
     (let unconverted = filter (\<lambda>r. check r = UnconvertedPatch) cs; process = filter (\<lambda>r. check r = RunningProcess) cs in
      case find (\<lambda>r. outcome r = Dangerous) unconverted of
        Some r \<Rightarrow> hold i cs (PatchExists (evidence r))
      | None \<Rightarrow>
          if list_ex (\<lambda>r. outcome r = Dangerous) process then hold i cs ProcessRunning
          else (case failed_in unconverted of
            Some (c, d) \<Rightarrow> hold i cs (CheckFailed c d)
          | None \<Rightarrow>
              if unconverted = [] then hold i cs (CheckMissing UnconvertedPatch)
              else (case failed_in process of
                Some (c, d) \<Rightarrow> hold i cs (CheckFailed c d)
              | None \<Rightarrow> \<lparr>guarded_issue = i, decision = Dispatch, checks = cs\<rparr>)))"

definition classified_hold :: "ustr \<Rightarrow> check_report \<Rightarrow> artifact_outcome \<Rightarrow> guard_report" where
  "classified_hold i c out = hold i [c] (case out of
       Convertible s \<Rightarrow> PatchAwaitingConversion (evidence c) s
     | OutcomeUnrecorded d \<Rightarrow> PatchOutcomeUnrecorded (evidence c) d
     | FailedRun s \<Rightarrow> PatchExists (case evidence c of Some e \<Rightarrow> Some e | None \<Rightarrow> Some (lit ''status: '' @ s)))"

definition held :: "guard_report \<Rightarrow> bool" where
  "held r \<longleftrightarrow> decision r \<noteq> Dispatch"

section \<open>Lines\<close>

definition dash :: ustr where "dash = [0x2014]"

fun reason_line :: "guard_reason \<Rightarrow> ustr" where
  "reason_line (PatchExists (Some e)) = lit ''unconverted patch exists at '' @ e @ lit ''; dispatch would destroy it''"
| "reason_line (PatchExists None) = lit ''an unconverted patch exists; dispatch would destroy it''"
| "reason_line (PatchAwaitingConversion (Some e) s) = lit ''unconverted patch exists at '' @ e @ lit '' (status: '' @ s
     @ lit ''); awaiting conversion '' @ dash @ lit '' dispatch would destroy it''"
| "reason_line (PatchAwaitingConversion None s) = lit ''unconverted patch exists (status: '' @ s
     @ lit ''); awaiting conversion '' @ dash @ lit '' dispatch would destroy it''"
| "reason_line (PatchOutcomeUnrecorded (Some e) d) = lit ''unconverted patch exists at '' @ e @ lit '' but '' @ d
     @ lit ''; cannot classify outcome '' @ dash @ lit '' dispatch would destroy it''"
| "reason_line (PatchOutcomeUnrecorded None d) = lit ''unconverted patch exists but '' @ d
     @ lit ''; cannot classify outcome '' @ dash @ lit '' dispatch would destroy it''"
| "reason_line ProcessRunning = lit ''a runner process is already working the issue''"
| "reason_line (CheckMissing c) = lit ''check '' @ lit (check_text c)
     @ lit '' was not run; a guard that cannot verify its precondition holds''"
| "reason_line (CheckFailed c d) = lit ''check '' @ lit (check_text c) @ lit '' failed ('' @ d
     @ lit ''); a check that cannot answer is unsafe''"

definition check_summary :: "guard_report \<Rightarrow> ustr" where
  "check_summary r = join (lit '', '') (map (\<lambda>c. lit (check_text (check c)) @ lit ''=''
     @ (case outcome c of Clear \<Rightarrow> lit ''clear'' | Dangerous \<Rightarrow> lit ''DANGEROUS'' | Failed _ \<Rightarrow> lit ''FAILED'')) (checks r))"

definition guard_line :: "guard_report \<Rightarrow> ustr" where
  "guard_line r = lit ''DISPATCH issue '' @ guarded_issue r @ (case decision r of
       Dispatch \<Rightarrow> lit '' authorized: '' @ check_summary r
     | Hold reason \<Rightarrow> lit '' HELD: '' @ reason_line reason)"

definition outcome_line :: "check_report \<Rightarrow> ustr" where
  "outcome_line c = (case outcome c of Clear \<Rightarrow> lit ''clear'' | Dangerous \<Rightarrow> lit ''DANGEROUS''
       | Failed d \<Rightarrow> lit ''FAILED ('' @ d @ lit '')'')
     @ (case evidence c of Some e \<Rightarrow> lit '' ('' @ e @ lit '')'' | None \<Rightarrow> [])"

definition guard_lines :: "guard_report \<Rightarrow> ustr list" where
  "guard_lines r = map (\<lambda>c. lit ''  check '' @ lit (check_text (check c)) @ lit '': '' @ outcome_line c) (checks r)
     @ [guard_line r]"

end
