(* ===== verification/Verdict_Safety.thy ===== *)
theory Verdict_Safety
  imports Dispatch_Guard
begin

text \<open>
  What the verdict pipeline guarantees: a consumer's list of names agrees with the vocabulary exactly when the audit
  says so; a population of verdicts is trusted only when its exit codes support every one and the label varies; the
  reader of a report drops no code; a killed or never started run is never gated; the guard dispatches only into a
  world it has seen clear. One theorem shows where the guard and the conversion pass disagree about the same patch.
\<close>

section \<open>The vocabulary audit\<close>

lemma entry_iff: "entry n = Some e \<longleftrightarrow> e \<in> set vocabulary \<and> entry_name e = n"
  by (simp add: entry_def find_key [OF entry_names_distinct])

lemma emitted_iff: "n \<in> set emitted \<longleftrightarrow> (\<exists>e. entry n = Some e \<and> entry_kind e = Emitted)"
  unfolding entry_iff emitted_def names_of_def by (simp add: image_iff) metis

lemma emitted_canonical:
  "list_all (\<lambda>e. entry_canonical e \<noteq> None
     \<and> (entry_kind e = Emitted \<longrightarrow> entry_name e = lit (label_text (the (entry_canonical e))))) vocabulary"
  by (simp add: vocabulary_def vocab_def)

lemma covers_iff:
  assumes "entry n = Some e"
  shows "covers False e = Some s \<longleftrightarrow> entry_kind e = Emitted \<and> n = lit (label_text s)"
proof -
  from assms have e: "e \<in> set vocabulary" "entry_name e = n" by (simp_all add: entry_iff)
  obtain s' where s': "entry_canonical e = Some s'" "entry_kind e = Emitted \<longrightarrow> n = lit (label_text s')"
    using emitted_canonical e by (auto simp: list_all_iff)
  then show ?thesis by (auto simp: covers_def)
qed

lemma covered_name:
  "Option.bind (entry n) (covers False) = Some s \<longleftrightarrow> n \<in> set emitted \<and> n = lit (label_text s)"
  unfolding bind_eq_Some_conv emitted_iff using covers_iff by metis

lemma uncovered_name: "Option.bind (entry n) (covers False) = None \<longleftrightarrow> n \<notin> set emitted"
proof -
  have "\<exists>s. n = lit (label_text s)" if "n \<in> set emitted"
    using that emitted_canonical by (fastforce simp: emitted_iff entry_iff list_all_iff)
  then show ?thesis using covered_name [of n] by (metis not_None_eq)
qed

lemma map_filter_Nil: "List.map_filter f xs = [] \<longleftrightarrow> (\<forall>x \<in> set xs. f x = None)"
  by (induction xs) (auto simp: List.map_filter_simps split: option.splits)

text \<open>
  The audit of a consumer that compares names as written accepts its list if and only if the list consists of
  exactly the names the runner emits: no alias, no name of the gate, no unknown name, and none missing.
\<close>
theorem match_list_audit_exact: "audit_ok (audit_match_list c ms) \<longleftrightarrow> set ms = set emitted"
proof -
  let ?cov = "List.map_filter (\<lambda>n. Option.bind (entry n) (covers False)) ms"
  have names: "(\<lambda>s. lit (label_text s)) ` set ?cov = set ms \<inter> set emitted"
  proof (intro set_eqI)
    fix n
    have "n \<in> (\<lambda>s. lit (label_text s)) ` set ?cov
        \<longleftrightarrow> (\<exists>m \<in> set ms. \<exists>s. m \<in> set emitted \<and> m = lit (label_text s) \<and> n = lit (label_text s))"
      unfolding image_iff set_map_filter Bex_def covered_name by blast
    also have "\<dots> \<longleftrightarrow> n \<in> set ms \<inter> set emitted"
      using covered_name [of n] uncovered_name [of n] by (cases "Option.bind (entry n) (covers False)") auto
    finally show "n \<in> (\<lambda>s. lit (label_text s)) ` set ?cov \<longleftrightarrow> n \<in> set ms \<inter> set emitted" .
  qed
  have one: "(case entry n of None \<Rightarrow> None | Some e \<Rightarrow> if covers False e = None then Some (f e) else None) = None
      \<and> entry n \<noteq> None \<longleftrightarrow> n \<in> set emitted" for n and f :: "vocab_entry \<Rightarrow> ustr"
    using uncovered_name [of n] by (cases "entry n") auto
  have dead: "audit_dead (audit_list c ms False) = [] \<and> audit_undeclared (audit_list c ms False) = [] \<longleftrightarrow> set ms \<subseteq> set emitted"
    unfolding audit_list_def Let_def subset_iff match_list_audit.simps map_filter_Nil filter_empty_conv
    using one [where f = "\<lambda>e. _ @ lit '' ('' @ origin_phrase e @ lit '')''"] by blast
  have missing: "audit_uncovered (audit_list c ms False) = [] \<longleftrightarrow> set emitted \<subseteq> set ms"
    using names by (auto simp: audit_list_def Let_def filter_empty_conv)
  show ?thesis unfolding audit_match_list_def audit_ok_def using dead missing by blast
qed

section \<open>Populations of verdicts\<close>

definition all_green :: "run_evidence \<Rightarrow> bool" where
  "all_green e \<longleftrightarrow> build_rc e = Some 0 \<and> test_rc e = Some 0 \<and> fmt_rc e = Some 0"

text \<open>What a recorded label must be for its record not to be a defect.\<close>

definition supported :: "ustr option \<Rightarrow> run_evidence \<Rightarrow> bool" where
  "supported recorded e = (case recorded of None \<Rightarrow> True
     | Some r \<Rightarrow> (case canonical_status r of None \<Rightarrow> False
       | Some s \<Rightarrow> if failed_rc (fmt_rc e) then s = FmtDirty else if failed_rc (build_rc e) then s = BuildFail
           else if failed_rc (test_rc e) then s = NewTestFailures else (s = Verified) = all_green e))"

lemma trim_Nil: "trim [] = []"
  by (simp add: trim_def trim_start_def trim_end_def)

lemma trim_trim [simp]: "trim (trim s) = trim s"
proof -
  have start: "trim_start s = [] \<or> \<not> is_whitespace (hd (trim_start s))" for s
    using hd_dropWhile [of is_whitespace s] by (auto simp: trim_start_def)
  have last_: "trim_end s = [] \<or> \<not> is_whitespace (last (trim_end s))" for s
    using hd_dropWhile [of is_whitespace "rev s"] by (auto simp: trim_end_def last_rev)
  have "\<exists>u. trim_start s = trim_end (trim_start s) @ u"
    by (metis trim_end_def rev_append rev_rev_ident takeWhile_dropWhile_id)
  then have "trim s = [] \<or> trim_start s \<noteq> [] \<and> hd (trim s) = hd (trim_start s)"
    by (metis trim_def hd_append2 append_is_Nil_conv)
  then show ?thesis
    using start [of s] last_ [of "trim_start s"] trim_start_id [of "trim s"] trim_end_id [of "trim s"]
    by (cases "trim s = []") (auto simp: trim_Nil trim_def [of "trim s"] simp flip: trim_def [of s])
qed

lemma canonical_status_trim [simp]: "canonical_status (trim r) = canonical_status r"
  by (simp add: canonical_status_def)

lemma check_verdict_defect: "is_defect (check_verdict recorded e) \<longleftrightarrow> \<not> supported recorded e"
  by (auto simp: check_verdict_def supported_def derive_def Let_def all_green_def failed_rc_def split: option.splits)

lemma count_labels:
  assumes "bm_ok m"
  shows "bm_ok (fold count_label ls m) \<and> fst ` set (fold count_label ls m) = fst ` set m \<union> trim ` set ls"
  using assms by (induction ls arbitrary: m) (auto simp: count_label_def bm_ok_insert keys_bm_insert)

lemma distinct_labels_card: "distinct_labels (distribution_of ls) = card (trim ` set ls)"
  using count_labels [of bm_empty ls] length_bm_card [of "fold count_label ls bm_empty"]
  by (simp add: distinct_labels_def distribution_of_def)

definition varied :: "ustr list \<Rightarrow> bool" where
  "varied ls \<longleftrightarrow> length ls < 2 \<or> list_ex (\<lambda>l. trim l \<noteq> trim (hd ls)) ls"

lemma label_total: "label_total (distribution_of ls) = length ls"
  by (simp add: distribution_of_def)

lemma is_degenerate_iff: "is_degenerate (distribution_of ls) \<longleftrightarrow> \<not> varied ls"
proof -
  have one: "card (trim ` set ls) = 1 \<longleftrightarrow> (\<forall>l \<in> set ls. trim l = trim (hd ls))" if "ls \<noteq> []"
    using that by (cases ls) (auto simp: card_1_singleton_iff)
  show ?thesis
  proof (cases "ls = []")
    case False
    show ?thesis
      unfolding is_degenerate_def varied_def distinct_labels_card label_total list_ex_iff one [OF False] not_less
        de_Morgan_disj bex_simps not_not by blast
  qed (simp add: is_degenerate_def varied_def label_total)
qed

text \<open>
  A population of verdicts is evidence only when it can be: the audit trusts it if and only if every recorded
  label is one the vocabulary declares and the exit codes beside it support, green being supported by three
  recorded zeros and by nothing less, and the labels, spaces around them apart, are not all the same.
\<close>
theorem population_trust_exact:
  "trustworthy (audit_population rs) \<longleftrightarrow>
     list_all (\<lambda>r. supported (claimed_status r) (claim_evidence r)) rs \<and> varied (List.map_filter claimed_status rs)"
  by (simp add: trustworthy_def audit_population_def Let_def is_degenerate_iff filter_empty_conv check_verdict_defect
      list_all_iff)

section \<open>The guard\<close>

lemma failed_in_None: "failed_in rs = None \<longleftrightarrow> (\<forall>r \<in> set rs. (case outcome r of Failed d \<Rightarrow> Some (check r, d) | _ \<Rightarrow> None) = None)"
  unfolding map_filter_Nil [symmetric] by (simp add: failed_in_def split: list.splits)

text \<open>C18: The guard fails closed, whatever checks were run and in whatever order they are reported: it authorises a
  dispatch if and only if the unconverted-patch check was run and every report, of this check or of the process
  check, came back clear; one observed danger, one check that could not answer, or the patch check not run at all
  holds the dispatch.
\<close>
theorem dispatch_needs_a_clear_world:
  "decision (decide i cs) = Dispatch \<longleftrightarrow>
     list_ex (\<lambda>r. check r = UnconvertedPatch) cs \<and> list_all (\<lambda>r. outcome r = Clear) cs"
proof -
  have danger: "find (\<lambda>r. outcome r = Dangerous) (filter (\<lambda>r. check r = UnconvertedPatch) cs) = None
      \<longleftrightarrow> (\<forall>r \<in> set cs. check r = UnconvertedPatch \<longrightarrow> outcome r \<noteq> Dangerous)"
    by (auto simp: find_None_iff)
  have failed: "failed_in (filter (\<lambda>r. check r = k) cs) = None
      \<longleftrightarrow> (\<forall>r \<in> set cs. check r = k \<longrightarrow> (\<forall>d. outcome r \<noteq> Failed d))" for k
    unfolding failed_in_None by (auto split: check_outcome.splits)
  have kinds: "outcome r = Clear \<longleftrightarrow> outcome r \<noteq> Dangerous \<and> (\<forall>d. outcome r \<noteq> Failed d)" for r
    by (cases "outcome r") auto
  have ids: "check r = RunningProcess \<longleftrightarrow> check r \<noteq> UnconvertedPatch" for r
    by (cases "check r") auto
  have "decision (decide i cs) = Dispatch \<longleftrightarrow>
      find (\<lambda>r. outcome r = Dangerous) (filter (\<lambda>r. check r = UnconvertedPatch) cs) = None
      \<and> \<not> list_ex (\<lambda>r. outcome r = Dangerous) (filter (\<lambda>r. check r = RunningProcess) cs)
      \<and> failed_in (filter (\<lambda>r. check r = UnconvertedPatch) cs) = None
      \<and> filter (\<lambda>r. check r = UnconvertedPatch) cs \<noteq> []
      \<and> failed_in (filter (\<lambda>r. check r = RunningProcess) cs) = None"
    by (simp add: decide_def Let_def hold_def split: option.splits)
  also have "\<dots> \<longleftrightarrow> list_ex (\<lambda>r. check r = UnconvertedPatch) cs
      \<and> list_all (\<lambda>r. outcome r \<noteq> Dangerous \<and> (\<forall>d. outcome r \<noteq> Failed d)) cs"
    unfolding danger failed [of UnconvertedPatch] failed [of RunningProcess, unfolded ids] ids list_ex_iff list_all_iff filter_empty_conv set_filter by blast
  finally show ?thesis unfolding kinds .
qed

section \<open>Triage\<close>

abbreviation label_of :: "agent_report \<Rightarrow> run_label option" where
  "label_of r \<equiv> Option.bind (rep_status r) canonical_status"

abbreviation killed :: "agent_report \<Rightarrow> bool" where
  "killed r \<equiv> is_signalled (rep_status r) (rep_signal r) (rep_agent_rc r)"

abbreviation ghost :: "agent_report \<Rightarrow> bool" where
  "ghost r \<equiv> never_started (rep_agent_rc r) (rep_session r) (rep_turns r)"

definition status_given :: "agent_report \<Rightarrow> ustr" where
  "status_given r = (case rep_status r of Some s \<Rightarrow> s | None \<Rightarrow> [])"

text \<open>The precedence of the documentation: the first rule that applies decides.\<close>

definition triage_rules :: "agent_report \<Rightarrow> (bool \<times> triage_decision) list" where
  "triage_rules r =
     (let fmt = failed_rc (rep_fmt_rc r) \<or> label_of r = Some FmtDirty;
          build = failed_rc (rep_build_rc r) \<or> label_of r = Some BuildFail in
      [(report_is_empty r, GateLocally (ReportUnreadable (lit ''status file is empty''))),
       (label_of r = Some Timeout, Redispatch (lit ''TIMEOUT'')),
       (label_of r = Some TimeoutNoOutput, RaiseForReview (lit ''TIMEOUT-NO-OUTPUT'')),
       (killed r, Killed (rep_signal r) (lit ''SIGNALLED'')),
       (ghost r, RaiseForReview (lit ''AGENT-NEVER-STARTED'')),
       (fmt \<and> \<not> build, FormatAndRecheck),
       (fmt, HoldPatch Unformatted),
       (build, HoldPatch Unbuilt),
       (label_of r \<in> {Some run_label.NoOutput, Some NoTestDb}, RaiseForReview (status_given r)),
       (label_of r = Some UnknownNoBaseline, GateLocally NoBaseline),
       (label_of r \<in> {Some NewTestFailures, Some TestTimeout}
          \<or> failed_rc (rep_test_rc r) \<and> label_of r \<noteq> Some PartialCoverage,
        GateLocally (AgentReportedTestFailure (rep_status r))),
       (is_partial (coverage_of r) \<or> label_of r = Some PartialCoverage, GateLocally (PartialRun (coverage_of r))),
       (True, GateLocally AgentGreen)])"

definition first_rule :: "(bool \<times> 'a) list \<Rightarrow> 'a option" where
  "first_rule rs = map_option snd (find fst rs)"

lemma first_rule_simps [simp]:
  "first_rule [] = None" "first_rule ((b, d) # rs) = (if b then Some d else first_rule rs)"
  by (simp_all add: first_rule_def)

text \<open>
  Triage follows the precedence its documentation lists and always decides: for every report the result is the
  decision of the first rule that applies, so the arm that panics is never reached; with the one exception that a
  failing \<open>test_rc\<close> beside the label \<open>PARTIAL-COVERAGE\<close> is not read as a test failure.
\<close>
theorem triage_follows_its_rules:
  "map_option Decided (first_rule (triage_rules r)) = Some (triage r)"
proof (cases "report_is_empty r")
  case False
  have killed: "killed r" if "label_of r = Some Signalled"
    using that by (simp add: is_signalled_def)
  have green: "green_basis r l = (if is_partial (coverage_of r) \<or> l = Some PartialCoverage then PartialRun (coverage_of r)
      else AgentGreen)" for l
    by (cases "coverage_of r") (simp_all add: green_basis_def)
  show ?thesis
  proof (cases "label_of r")
    case None
    then show ?thesis using False by (simp add: triage_def triage_rules_def Let_def triage_label_def green)
  next
    case (Some l)
    then show ?thesis using False killed
      by (cases l) (simp_all add: triage_def triage_rules_def Let_def triage_label_def green status_given_def)
  qed
qed (simp add: triage_def triage_rules_def Let_def)

section \<open>The guard against the pass\<close>

definition archived :: "agent_report \<Rightarrow> bool" where
  "archived r \<longleftrightarrow> (case classify_report r of FailedRun _ \<Rightarrow> True | _ \<Rightarrow> False)"

definition still_converted :: "triage_result \<Rightarrow> bool" where
  "still_converted t \<longleftrightarrow> (case t of Decided FormatAndRecheck \<Rightarrow> True | Decided (GateLocally _) \<Rightarrow> True | _ \<Rightarrow> False)"

lemma archived_iff: "archived r \<longleftrightarrow> label_of r \<in> Some ` set FAILED_RUN_STATUSES \<or> killed r"
proof (cases "rep_status r")
  case None
  then show ?thesis
    by (auto simp: archived_def classify_report_def classify_artifact_outcome_def entitled_def claims_a_pass_def Let_def)
next
  case (Some s)
  then show ?thesis
    by (cases "canonical_status s")
       (auto simp: archived_def classify_report_def classify_artifact_outcome_def Let_def split: option.splits)
qed

text \<open>C19: The guard and the conversion pass disagree about a patch exactly here: the guard archives, as unconvertible,
  a patch that the pass would still format or gate, if and only if the report carries the label \<open>TEST-TIMEOUT\<close>, no
  sign of a killed or never started run, and no failed build. Whenever the guard archives a patch for any other
  label the pass refuses it too.
\<close>
theorem guard_and_pass_disagree:
  "archived r \<and> still_converted (triage r) \<longleftrightarrow>
     label_of r = Some TestTimeout \<and> \<not> killed r \<and> \<not> ghost r \<and> \<not> failed_rc (rep_build_rc r)"
proof -
  have full: "\<not> report_is_empty r" if "label_of r \<noteq> None \<or> killed r"
    using that by (auto simp: report_is_empty_def is_signalled_def classify_termination_def)
  show ?thesis
  proof (cases "label_of r")
    case None
    then show ?thesis using full by (auto simp: archived_iff still_converted_def triage_def Let_def)
  next
    case (Some l)
    then show ?thesis using full
      by (cases l) (auto simp: archived_iff FAILED_RUN_STATUSES_def still_converted_def triage_def triage_label_def Let_def
          is_signalled_def)
  qed
qed

section \<open>The reader of a report\<close>

text \<open>The pairs a report writes, \<open>None\<close> where the separator is missing, and what a value must be.\<close>

definition line_pairs :: "ustr \<Rightarrow> (ustr \<times> ustr) option list" where
  "line_pairs raw = (let l = trim raw in
     if l = [] \<or> starts_with_str (lit ''#'') l then []
     else if contains_str (lit ''='') l then map (split_once_str (lit ''='')) (split_whitespace l)
     else [split_once_str (lit '':'') l])"

definition trim_pair :: "ustr \<times> ustr \<Rightarrow> ustr \<times> ustr" where
  "trim_pair p = (trim (fst p), trim (snd p))"

definition report_pairs :: "ustr \<Rightarrow> (ustr \<times> ustr) option list" where
  "report_pairs t = map (map_option trim_pair) (concat (map line_pairs (str_lines t)))"

definition file_count :: "ustr \<Rightarrow> nat option" where
  "file_count v = parse_usize (case strip_suffix (lit ''entries'') v of Some c \<Rightarrow> trim c | None \<Rightarrow> v)"

definition flag_value :: "ustr \<Rightarrow> bool option" where
  "flag_value v = map_of [(lit ''true'', True), (lit ''false'', False)] v"

definition value_ok :: "ustr \<times> ustr \<Rightarrow> bool" where
  "value_ok p = (case p of (k, v) \<Rightarrow>
     v \<noteq> [] \<and> (k \<in> lit ` {''build_rc'', ''test_rc'', ''fmt_rc'', ''agent_rc''} \<longrightarrow> parse_i32 v \<noteq> None)
     \<and> (k \<in> lit ` {''test_passed'', ''test_failed'', ''tests_total''} \<longrightarrow> parse_u64 v \<noteq> None)
     \<and> (k = lit ''fmt-files.txt'' \<longrightarrow> file_count v \<noteq> None) \<and> (k = lit ''session_recorded'' \<longrightarrow> flag_value v \<noteq> None)
     \<and> (k = lit ''assistant_turns'' \<longrightarrow> parse_u32 v \<noteq> None))"

definition pair_ok :: "(ustr \<times> ustr) option \<Rightarrow> bool" where
  "pair_ok p = (case p of None \<Rightarrow> False | Some kv \<Rightarrow> value_ok kv)"

definition last_value :: "string \<Rightarrow> (ustr \<times> ustr) option list \<Rightarrow> ustr option" where
  "last_value k ps = map_of (rev (List.map_filter (\<lambda>p. p) ps)) (lit k)"

definition report_of :: "(ustr \<times> ustr) option list \<Rightarrow> agent_report" where
  "report_of ps =
     \<lparr>rep_status = last_value ''status'' ps, rep_build_rc = Option.bind (last_value ''build_rc'' ps) parse_i32,
      rep_test_rc = Option.bind (last_value ''test_rc'' ps) parse_i32,
      rep_fmt_rc = Option.bind (last_value ''fmt_rc'' ps) parse_i32,
      rep_fmt_files = Option.bind (last_value ''fmt-files.txt'' ps) file_count,
      rep_signal = last_value ''signal'' ps, rep_agent_rc = Option.bind (last_value ''agent_rc'' ps) parse_i32,
      rep_passed = Option.bind (last_value ''test_passed'' ps) parse_u64,
      rep_failed = Option.bind (last_value ''test_failed'' ps) parse_u64,
      rep_total = Option.bind (last_value ''tests_total'' ps) parse_u64,
      rep_session = Option.bind (last_value ''session_recorded'' ps) flag_value,
      rep_turns = Option.bind (last_value ''assistant_turns'' ps) parse_u32\<rparr>"

lemma last_value_snoc [simp]:
  "last_value k (ps @ [Some (j, v)]) = (if j = lit k then Some v else last_value k ps)" "last_value k [] = None"
  by (simp_all add: last_value_def List.map_filter_def)

definition KNOWN_KEYS :: "string list" where
  "KNOWN_KEYS = [''status'', ''build_rc'', ''test_rc'', ''fmt_rc'', ''fmt-files.txt'', ''signal'', ''agent_rc'',
     ''test_passed'', ''test_failed'', ''tests_total'', ''session_recorded'', ''assistant_turns'']"

lemma require_Inr [simp]: "require e v = Inr x \<longleftrightarrow> v = Some x"
  by (simp add: require_def split: option.splits)

lemma parse_flag_Inr: "parse_flag k v = Inr b \<longleftrightarrow> flag_value v = Some b"
  by (auto simp: parse_flag_def flag_value_def)

lemmas field_readers = parse_rc_def parse_count_def parse_turns_def parse_fmt_files_def file_count_def [symmetric]
  parse_flag_Inr

lemma set_field_known:
  assumes "s \<in> set KNOWN_KEYS"
  shows "set_field (report_of ps) (lit s) v = Inr r
     \<longleftrightarrow> value_ok (lit s, v) \<and> r = report_of (ps @ [Some (lit s, v)])"
  using assms unfolding KNOWN_KEYS_def list.set insert_iff empty_iff simp_thms
  by (elim disjE) (auto simp: set_field_def value_ok_def report_of_def map_ok_Inr field_readers)

lemma set_field_unknown:
  assumes "k \<notin> lit ` set KNOWN_KEYS"
  shows "set_field (report_of ps) k v = Inr r \<longleftrightarrow> value_ok (k, v) \<and> r = report_of (ps @ [Some (k, v)])"
  using assms by (auto simp: KNOWN_KEYS_def set_field_def value_ok_def report_of_def)

lemma set_field_report:
  "set_field (report_of ps) k v = Inr r \<longleftrightarrow> value_ok (k, v) \<and> r = report_of (ps @ [Some (k, v)])"
proof (cases "k \<in> lit ` set KNOWN_KEYS")
  case True
  then obtain s where "s \<in> set KNOWN_KEYS" "k = lit s" by blast
  then show ?thesis using set_field_known by simp
qed (rule set_field_unknown)

lemma record_tokens_report:
  "record_tokens (report_of ps) ts = Inr r \<longleftrightarrow>
     (let qs = map (map_option trim_pair) (map (split_once_str (lit ''='')) ts) in
      list_all pair_ok qs \<and> r = report_of (ps @ qs))"
proof (induction ts arbitrary: ps)
  case (Cons t ts)
  then show ?case
    by (auto simp: Let_def pair_ok_def trim_pair_def and_then_Inr set_field_report split: option.splits)
qed (auto simp: Let_def)

lemma record_line_report:
  "record_line (report_of ps) l = Inr r \<longleftrightarrow>
     (let qs = map (map_option trim_pair) (line_pairs l) in list_all pair_ok qs \<and> r = report_of (ps @ qs))"
  by (auto simp: record_line_def line_pairs_def record_tokens_report record_pair_def set_field_report Let_def pair_ok_def
      trim_pair_def split: option.splits)

lemma record_lines_report:
  "record_lines n (report_of ps) ls = Inr r \<longleftrightarrow>
     (let qs = map (map_option trim_pair) (concat (map line_pairs ls)) in list_all pair_ok qs \<and> r = report_of (ps @ qs))"
proof (induction ls arbitrary: ps n)
  case (Cons l ls)
  have "record_lines n (report_of ps) (l # ls) = Inr r
      \<longleftrightarrow> (\<exists>r'. record_line (report_of ps) l = Inr r' \<and> record_lines (n + 1) r' ls = Inr r)"
    by (simp split: sum.splits)
  then show ?case using Cons.IH by (auto simp: record_line_report Let_def)
qed (auto simp: Let_def)

lemma report_of_Nil: "report_of [] = empty_report"
  by (simp add: report_of_def empty_report_def)

text \<open>C20: The reader of a report drops no evidence: it accepts a text if and only if every token of it is a pair whose
  value is not empty and, for a key it knows, a value that key can hold; and then each field of the report is the
  value of the last pair with its key, and is absent only if no pair has it. So an exit code that is written is
  never read as missing.
\<close>
theorem report_reader_exact:
  "parse_agent_report t = Inr r \<longleftrightarrow> list_all pair_ok (report_pairs t) \<and> r = report_of (report_pairs t)"
  using record_lines_report [of 1 "[]" "str_lines t" r]
  by (simp add: parse_agent_report_def report_pairs_def report_of_Nil Let_def)

end
