(* ===== verification/Gate_Verdict.thy ===== *)
theory Gate_Verdict
  imports Status_Triage
begin

text \<open>
  Verdicts of gates (\<open>gate_verdict.rs\<close>): a gate that can say it did not measure, the absolute and the differential
  judgement of a test run, and the size of a change read from \<open>git diff --stat\<close>.
\<close>

section \<open>Verdicts\<close>

datatype verdict = Pass | Fail "ustr list" | NotMeasured ustr

definition is_pass :: "verdict \<Rightarrow> bool" where "is_pass v \<longleftrightarrow> v = Pass"

definition is_unmeasured :: "verdict \<Rightarrow> bool" where
  "is_unmeasured v \<longleftrightarrow> (case v of NotMeasured _ \<Rightarrow> True | _ \<Rightarrow> False)"

fun verdict_text :: "verdict \<Rightarrow> ustr" where
  "verdict_text Pass = lit ''PASS''"
| "verdict_text (Fail rs) = lit ''FAIL: '' @ join (lit ''; '') rs"
| "verdict_text (NotMeasured why) = lit ''NOT MEASURED: '' @ why
     @ lit '' -- this is not a pass; the gate produced no usable result''"

text \<open>The names of a \<open>BTreeSet\<close> are a strictly ascending list.\<close>

record test_run =
  exit_code :: i32
  result_lines :: nat
  failures :: "ustr list"
  completed :: bool

definition measured :: "test_run \<Rightarrow> bool" where "measured r \<longleftrightarrow> 0 < result_lines r"

definition incomplete_why :: "test_run \<Rightarrow> ustr option" where
  "incomplete_why r = (if completed r then None
     else Some (lit ''the gate did not emit its completion marker (exit '' @ show_i32 (exit_code r)
       @ lit '') -- the log is incomplete, so its '' @ show_nat (result_lines r) @ lit '' suite(s) and ''
       @ show_nat (length (failures r)) @ lit '' failure(s) are a partial measurement, not a pass or a fail''))"

definition run_summary :: "test_run \<Rightarrow> ustr" where
  "run_summary r = lit ''suites: '' @ show_nat (result_lines r) @ lit ''   failed: '' @ show_nat (length (failures r))"

definition absolute :: "test_run \<Rightarrow> verdict" where
  "absolute r = (case incomplete_why r of
       Some why \<Rightarrow> NotMeasured why
     | None \<Rightarrow>
         if \<not> measured r then NotMeasured (lit ''the gate completed but reported zero suites run (exit ''
           @ show_i32 (exit_code r) @ lit ''): a count of zero failures from a log with zero suites is a contradiction, not a pass -- no test was observed to run (a compile error, a missing binary, a crashed harness)'')
         else if failures r = [] \<and> exit_code r = 0 then Pass
         else Fail (if failures r = [] then [lit ''non-zero exit ('' @ show_i32 (exit_code r) @ lit '') with no named failures'']
           else failures r))"

definition differential :: "test_run \<Rightarrow> test_run \<Rightarrow> verdict" where
  "differential b c = (case incomplete_why b of
       Some why \<Rightarrow> NotMeasured (lit ''the BASELINE: '' @ why)
     | None \<Rightarrow> (case incomplete_why c of
         Some why \<Rightarrow> NotMeasured (lit ''the candidate: '' @ why)
       | None \<Rightarrow>
           if \<not> measured b then NotMeasured (lit ''the BASELINE produced no result lines, so there is nothing to compare against'')
           else if \<not> measured c then NotMeasured (lit ''the candidate produced no result lines (exit ''
             @ show_i32 (exit_code c) @ lit '') -- an empty failure set is not an improvement, it means the suite never ran'')
           else if result_lines c < result_lines b then NotMeasured (lit ''the candidate emitted ''
             @ show_nat (result_lines c) @ lit '' result line(s) against the baseline'' @ [39] @ lit ''s ''
             @ show_nat (result_lines b) @ lit '' -- fewer tests ran, so '' @ [39] @ lit ''no new failures'' @ [39]
             @ lit '' would be measuring less, not improving'')
           else let new = filter (\<lambda>n. n \<notin> set (failures b)) (failures c) in if new = [] then Pass else Fail new))"

section \<open>The size of a change\<close>

record diff_stat =
  files :: nat
  insertions :: nat
  deletions :: nat

definition pr_body_line :: "diff_stat \<Rightarrow> ustr" where
  "pr_body_line s = lit ''Reviewed '' @ show_nat (files s) @ lit '' file(s): '' @ show_nat (insertions s)
     @ lit '' insertion(s), '' @ show_nat (deletions s) @ lit '' deletion(s) (staged view).''"

definition set_stat :: "ustr \<Rightarrow> nat \<Rightarrow> diff_stat \<Rightarrow> diff_stat option" where
  "set_stat w n s =
     (if w \<in> {lit ''files'', lit ''file'', lit ''files,'', lit ''file,''} then Some (s\<lparr>files := n\<rparr>)
      else if w \<in> {lit ''insertions(+)'', lit ''insertions(+),''} then Some (s\<lparr>insertions := n\<rparr>)
      else if w \<in> {lit ''deletions(-)'', lit ''deletions(-),''} then Some (s\<lparr>deletions := n\<rparr>)
      else None)"

text \<open>The loop over \<open>tokens.windows(2)\<close>; the flag is \<open>found\<close>.\<close>

fun stat_pairs :: "ustr list \<Rightarrow> diff_stat \<times> bool \<Rightarrow> diff_stat \<times> bool" where
  "stat_pairs (a # b # ts) (s, found) = stat_pairs (b # ts) (case parse_usize a of
       None \<Rightarrow> (s, found)
     | Some n \<Rightarrow> (case set_stat b n s of None \<Rightarrow> (s, found) | Some s' \<Rightarrow> (s', True)))"
| "stat_pairs _ r = r"

definition parse_diff_stat :: "ustr \<Rightarrow> diff_stat option" where
  "parse_diff_stat out = (case find (contains_str (lit ''changed'')) (rev (str_lines out)) of
       None \<Rightarrow> None
     | Some l \<Rightarrow> (case stat_pairs (split_whitespace l) (\<lparr>files = 0, insertions = 0, deletions = 0\<rparr>, False) of
         (s, found) \<Rightarrow> if found then Some s else None))"

datatype understated = Understated nat nat

fun understated_text :: "understated \<Rightarrow> ustr" where
  "understated_text (Understated declared seen) = lit ''the diff measured '' @ show_nat seen
     @ lit '' insertion(s) but the patch applied as '' @ show_nat declared
     @ lit '' -- the view missed new (untracked) files; measure the staged view (stage all changes, then read the staged diff)''"

definition verify_change_size :: "nat \<Rightarrow> diff_stat \<Rightarrow> understated + unit" where
  "verify_change_size declared s =
     (if insertions s < declared then Inl (Understated declared (insertions s)) else Inr ())"

section \<open>What the verdicts mean\<close>

text \<open>
  A run passes on its own if and only if it was measured and clean: the completion marker is there, a suite
  reported, no test failed by name and the process exited with zero.
\<close>
theorem absolute_pass_exact:
  "absolute r = Pass \<longleftrightarrow> completed r \<and> 0 < result_lines r \<and> failures r = [] \<and> exit_code r = 0"
  by (simp add: absolute_def incomplete_why_def measured_def)

text \<open>
  A candidate passes against its baseline if and only if both runs completed and were measured, the candidate
  reported at least as many suites, and every test it names as failing fails on the baseline too. Its exit status
  is not asked: a candidate that exits with a failure and names no test passes, which the absolute gate refuses.
\<close>
theorem differential_pass_exact:
  "differential b c = Pass \<longleftrightarrow> completed b \<and> completed c \<and> 0 < result_lines b \<and> result_lines b \<le> result_lines c
     \<and> set (failures c) \<subseteq> set (failures b)"
proof -
  have "filter (\<lambda>n. n \<notin> set (failures b)) (failures c) = [] \<longleftrightarrow> set (failures c) \<subseteq> set (failures b)"
    by (auto simp: filter_empty_conv)
  then show ?thesis
    by (auto simp: differential_def incomplete_why_def measured_def Let_def)
qed

text \<open>
  The last line of \<open>git diff --stat\<close>: the words for one file, insertion or deletion are in the singular, and a count
  of zero is left out.
\<close>

definition counted :: "nat \<Rightarrow> string \<Rightarrow> string \<Rightarrow> ustr" where
  "counted n one many = show_nat n @ [32] @ lit (if n = 1 then one else many)"

definition git_summary :: "nat \<Rightarrow> nat \<Rightarrow> nat \<Rightarrow> ustr" where
  "git_summary f i d = [32] @ counted f ''file changed'' ''files changed''
     @ (if i = 0 then [] else lit '', '' @ counted i ''insertion(+)'' ''insertions(+)'')
     @ (if d = 0 then [] else lit '', '' @ counted d ''deletion(-)'' ''deletions(-)'')"

definition word :: "ustr \<Rightarrow> bool" where
  "word w \<longleftrightarrow> w \<noteq> [] \<and> list_all (\<lambda>c. \<not> is_whitespace c) w"

lemma words_from_word: "list_all (\<lambda>c. \<not> is_whitespace c) w \<Longrightarrow> words_from acc (w @ s) = words_from (rev w @ acc) s"
  by (induction w arbitrary: acc) auto

lemma is_whitespace_space: "is_whitespace 32"
  by (simp add: is_whitespace_def)

lemma split_whitespace_simps [simp]:
  "word w \<Longrightarrow> split_whitespace (w @ 32 # s) = w # split_whitespace s"
  "word w \<Longrightarrow> split_whitespace w = [w]"
  "split_whitespace (32 # s) = split_whitespace s"
  using words_from_word [of w "[]" "32 # s"] words_from_word [of w "[]" "[]"]
  by (simp_all add: split_whitespace_def word_def is_whitespace_space)

lemma word_show_nat [simp]: "word (show_nat n)"
  using show_nat_digits [of n] by (auto simp: word_def list_all_iff is_ascii_digit_def is_whitespace_def)

lemma parse_usize_show [simp]: "parse_usize (show_nat (unat (n :: u64))) = Some (unat n)"
  using parse_show_u64 [of n] by (simp add: parse_usize_def show_u64_def)

text \<open>The words of the line.\<close>

definition summary_words :: "nat \<Rightarrow> nat \<Rightarrow> nat \<Rightarrow> ustr list" where
  "summary_words f i d = [show_nat f, lit (if f = 1 then ''file'' else ''files''),
       lit (if i = 0 \<and> d = 0 then ''changed'' else ''changed,'')]
     @ (if i = 0 then [] else [show_nat i, lit (if i = 1 then ''insertion(+)'' else ''insertions(+)'')
          @ (if d = 0 then [] else lit '','')])
     @ (if d = 0 then [] else [show_nat d, lit (if d = 1 then ''deletion(-)'' else ''deletions(-)'')])"

lemma split_whitespace_Nil: "split_whitespace [] = []"
  by (simp add: split_whitespace_def)

lemma split_join_words: "list_all word ws \<Longrightarrow> split_whitespace (join [32] ws) = ws"
  by (induction "[32 :: nat]" ws rule: join.induct) (auto simp: split_whitespace_Nil)

lemma git_summary_join: "git_summary f i d = [32] @ join [32] (summary_words f i d)"
  by (simp add: git_summary_def summary_words_def counted_def lit_def)

lemma words_are_words: "list_all word (summary_words f i d)"
proof -
  have "word (lit s)" if "s \<in> {''file'', ''files'', ''changed'', ''changed,'', ''insertion(+)'', ''insertions(+)'',
      ''insertion(+),'', ''insertions(+),'', ''deletion(-)'', ''deletions(-)''}" for s
    using that by (auto simp: word_def lit_def is_whitespace_def)
  then show ?thesis
    by (simp add: summary_words_def flip: lit_append)
qed

lemma chars_of_join: "list_all word ws \<Longrightarrow> \<forall>c \<in> set (join [32] ws). c = 32 \<or> \<not> is_whitespace c"
  by (induction "[32 :: nat]" ws rule: join.induct) (auto simp: word_def list_all_iff)

lemma one_line: "str_lines (git_summary f i d) = [git_summary f i d]"
proof -
  have "10 \<notin> set (git_summary f i d)"
    using chars_of_join [OF words_are_words, of f i d] by (auto simp: git_summary_join is_whitespace_def)
  then show ?thesis by (simp add: str_lines_def split_char_one git_summary_def)
qed

lemma changed_line: "contains_str (lit ''changed'') (git_summary f i d)"
proof -
  have "\<exists>a b. git_summary f i d = a @ lit ''changed'' @ b"
    by (rule exI [of _ "[32] @ show_nat f @ [32] @ lit (if f = 1 then ''file '' else ''files '')"])
       (simp add: git_summary_def counted_def lit_def)
  then show ?thesis by (simp add: contains_str_iff)
qed

lemma not_numbers:
  "list_all (\<lambda>s. parse_usize (lit s) = None) [''file'', ''files'', ''changed'', ''changed,'', ''insertion(+)'',
     ''insertions(+)'', ''insertion(+),'', ''insertions(+),'']"
  by (simp add: parse_usize_def parse_u64_def lit_def is_ascii_digit_def)

lemma stat_pairs_summary:
  fixes f i d :: u64
  shows "stat_pairs (summary_words (unat f) (unat i) (unat d)) (\<lparr>files = 0, insertions = 0, deletions = 0\<rparr>, False)
     = (\<lparr>files = unat f, insertions = (if i = 1 then 0 else unat i), deletions = (if d = 1 then 0 else unat d)\<rparr>, True)"
proof -
  have eq: "unat x = 0 \<longleftrightarrow> x = 0" "unat x = Suc 0 \<longleftrightarrow> x = 1" for x :: u64
    using word_unat_eq_iff [of x 0] word_unat_eq_iff [of x 1] by simp_all
  note words = summary_words_def set_stat_def not_numbers [simplified] eq parse_usize_show [of 1, simplified]
  show ?thesis
    by (cases "i = 0"; cases "i = 1"; cases "d = 0"; cases "d = 1") (simp_all add: words flip: lit_append)
qed

text \<open>Reading back the summary line that \<open>git diff --stat\<close> prints returns the number of files and, of insertions and
  of deletions, every count but one: a change with exactly one insertion or one deletion, whose word is in the
  singular, is read as having none.
\<close>
theorem diff_stat_loses_one:
  fixes f i d :: u64
  shows "parse_diff_stat (git_summary (unat f) (unat i) (unat d))
     = Some \<lparr>files = unat f, insertions = (if i = 1 then 0 else unat i), deletions = (if d = 1 then 0 else unat d)\<rparr>"
proof -
  have "split_whitespace (git_summary (unat f) (unat i) (unat d)) = summary_words (unat f) (unat i) (unat d)"
    by (simp add: git_summary_join split_join_words words_are_words)
  then show ?thesis by (simp add: parse_diff_stat_def one_line changed_line stat_pairs_summary)
qed

end
