(* ===== verification/Gate_Hold.thy ===== *)
theory Gate_Hold
  imports Status_Triage Issue_Text
begin

text \<open>
  Why the conversion pass holds a patch (\<open>gate_hold.rs\<close>, with \<open>classify_gate\<close> of \<open>execution/patch_pipeline.rs\<close>): the
  classification by exit codes, the lines of cargo's output that tell a compile error from a failed test, the names
  of the failing tests, and their comparison with the recorded baseline.
\<close>

section \<open>Exit codes\<close>

datatype gate_verdict = Green | CompileFailure | TestsDidFail

definition classify_gate :: "i32 \<Rightarrow> i32 \<Rightarrow> gate_verdict" where
  "classify_gate build test = (if build \<noteq> 0 then CompileFailure else if test \<noteq> 0 then TestsDidFail else Green)"

datatype hold_kind = Compile | Tests

fun hold_kind_text :: "hold_kind \<Rightarrow> string" where
  "hold_kind_text Compile = ''build error''"
| "hold_kind_text Tests = ''tests failed''"

definition failure_kind_from_exit_codes :: "i32 \<Rightarrow> i32 \<Rightarrow> hold_kind option" where
  "failure_kind_from_exit_codes build test = (case classify_gate build test of
     Green \<Rightarrow> None | CompileFailure \<Rightarrow> Some Compile | TestsDidFail \<Rightarrow> Some Tests)"

section \<open>Lines of the output\<close>

definition is_compile_error_line :: "ustr \<Rightarrow> bool" where
  "is_compile_error_line l = (let l = trim_start l in
     case strip_prefix (lit ''error['') l of
       Some r \<Rightarrow> (case r of c # _ \<Rightarrow> is_ascii_uppercase c | [] \<Rightarrow> False)
     | None \<Rightarrow> starts_with_str (lit ''error: could not compile'') l)"

definition is_test_failure_line :: "ustr \<Rightarrow> bool" where
  "is_test_failure_line l = (case strip_prefix (lit ''error: '') (trim_start l) of
       None \<Rightarrow> False
     | Some r \<Rightarrow> starts_with_str (lit ''test failed'') r
         \<or> (case split_once_str [32] r of
              None \<Rightarrow> False
            | Some (n, rest) \<Rightarrow> n \<noteq> [] \<and> list_all is_ascii_digit n
                \<and> (starts_with_str (lit ''target failed'') rest \<or> starts_with_str (lit ''targets failed'') rest)))"

definition classify_output :: "ustr \<Rightarrow> hold_kind option" where
  "classify_output out =
     (if list_ex is_compile_error_line (str_lines out) then Some Compile
      else if list_ex is_test_failure_line (str_lines out) then Some Tests else None)"

definition first_compile_error :: "ustr \<Rightarrow> ustr option" where
  "first_compile_error out = find is_compile_error_line (str_lines out)"

definition indent :: "ustr \<Rightarrow> nat" where
  "indent l = byte_len l - byte_len (trim_start l)"

text \<open>The loop of \<open>failing_test_names\<close>: the flag says whether a block is open.\<close>

fun scan_failures :: "bool \<Rightarrow> ustr list \<Rightarrow> ustr list \<Rightarrow> ustr list" where
  "scan_failures open names [] = names"
| "scan_failures open names (l # ls) =
     (if trim_end l = lit ''failures:'' then scan_failures True names ls
      else if \<not> open then scan_failures False names ls
      else if blank l then scan_failures False names ls
      else scan_failures True
        (if 4 \<le> indent l \<and> trim_start l \<notin> set names then names @ [trim_start l] else names) ls)"

definition failing_test_names :: "ustr \<Rightarrow> ustr list" where
  "failing_test_names out = scan_failures False [] (str_lines out)"

section \<open>Holds\<close>

datatype hold_record = BuildError ustr | TestsFailed "ustr list" ustr

definition NO_DISCRIMINATING_LINE :: ustr where
  "NO_DISCRIMINATING_LINE = lit ''no discriminating compile line in output''"

definition NAMED_FAILURE_LIMIT :: nat where "NAMED_FAILURE_LIMIT = 3"

definition hold_of_kind :: "ustr \<Rightarrow> ustr \<Rightarrow> hold_kind \<Rightarrow> hold_record" where
  "hold_of_kind out aggregate k = (case k of
       Compile \<Rightarrow> BuildError (case first_compile_error out of Some l \<Rightarrow> l | None \<Rightarrow> NO_DISCRIMINATING_LINE)
     | Tests \<Rightarrow> TestsFailed (failing_test_names out) aggregate)"

definition hold_from_gate :: "i32 \<Rightarrow> i32 \<Rightarrow> ustr \<Rightarrow> ustr \<Rightarrow> hold_record option" where
  "hold_from_gate build test out aggregate =
     map_option (hold_of_kind out aggregate) (failure_kind_from_exit_codes build test)"

definition hold_reason_from_output :: "ustr \<Rightarrow> ustr \<Rightarrow> hold_record option" where
  "hold_reason_from_output out aggregate = map_option (hold_of_kind out aggregate) (classify_output out)"

definition named_clause :: "ustr list \<Rightarrow> ustr" where
  "named_clause ns = (if ns = [] then lit ''unnamed''
     else join (lit '', '') (take NAMED_FAILURE_LIMIT ns)
       @ (if NAMED_FAILURE_LIMIT < length ns then lit '' +'' @ show_nat (length ns - NAMED_FAILURE_LIMIT) @ lit '' more'' else []))"

fun hold_record_line :: "ustr \<Rightarrow> hold_record \<Rightarrow> ustr" where
  "hold_record_line scope (BuildError d) = lit ''HELD: build error -- '' @ d"
| "hold_record_line scope (TestsFailed ns aggregate) = lit ''HELD: tests failed ('' @ scope @ lit '') -- ''
     @ named_clause ns @ lit '' | '' @ aggregate"

fun names_failures :: "hold_record \<Rightarrow> bool" where
  "names_failures (TestsFailed ns _) \<longleftrightarrow> ns \<noteq> []"
| "names_failures (BuildError _) \<longleftrightarrow> False"

section \<open>The baseline\<close>

type_synonym test_baseline = "ustr list"

definition new_baseline :: "ustr list \<Rightarrow> test_baseline" where
  "new_baseline ns = bs_of_list ns"

datatype baseline_verdict = PreExisting "ustr list" | NewFailures "ustr list" "ustr list"

definition compare_to_baseline :: "ustr list \<Rightarrow> test_baseline \<Rightarrow> baseline_verdict" where
  "compare_to_baseline failing b =
     (let fs = bs_of_list failing; new = filter (\<lambda>n. n \<notin> set b) fs; pre = filter (\<lambda>n. n \<in> set b) fs in
      if new = [] then PreExisting pre else NewFailures new pre)"

fun is_hold :: "baseline_verdict \<Rightarrow> bool" where
  "is_hold (NewFailures _ _) = True"
| "is_hold (PreExisting _) = False"

fun charged :: "baseline_verdict \<Rightarrow> ustr list" where
  "charged (NewFailures new _) = new"
| "charged (PreExisting _) = []"

fun hold_line :: "ustr \<Rightarrow> ustr \<Rightarrow> baseline_verdict \<Rightarrow> ustr option" where
  "hold_line scope aggregate (PreExisting _) = None"
| "hold_line scope aggregate (NewFailures new pre) = Some (lit ''HELD: tests failed ('' @ scope @ lit '') -- ''
     @ named_clause new @ lit '' | '' @ aggregate
     @ (if pre = [] then [] else lit '' ('' @ show_nat (length pre) @ lit '' pre-existing on baseline)''))"

record base_sha =
  actual_sha :: ustr
  recorded_sha :: "ustr option"

definition new_base_sha :: "ustr \<Rightarrow> ustr option \<Rightarrow> ustr + base_sha" where
  "new_base_sha a r = (if blank a then Inl (lit ''the branch'' @ [39] @ lit ''s base sha must be nonempty: a log line that records a base records a real sha; record none rather than empty'')
     else Inr \<lparr>actual_sha = a, recorded_sha = r\<rparr>)"

definition sha_is_stale :: "base_sha \<Rightarrow> bool" where
  "sha_is_stale s = (case recorded_sha s of Some r \<Rightarrow> r \<noteq> actual_sha s | None \<Rightarrow> False)"

definition log_token :: "base_sha \<Rightarrow> ustr" where
  "log_token s = lit ''[base='' @ actual_sha s @ lit '']''"

definition stale_finding :: "base_sha \<Rightarrow> ustr option" where
  "stale_finding s = (case recorded_sha s of
       Some r \<Rightarrow> if r \<noteq> actual_sha s then Some (lit ''STALE_BASE_SHA: log line records base='' @ r
         @ lit '' but the branch was created from '' @ actual_sha s
         @ lit ''; capture the base after the per-patch fetch, or drop it'') else None
     | None \<Rightarrow> None)"

section \<open>What the holds mean\<close>

lemma lines_disjoint: "\<not> (is_compile_error_line l \<and> is_test_failure_line l)"
proof
  assume both: "is_compile_error_line l \<and> is_test_failure_line l"
  then obtain r where r: "trim_start l = lit ''error: '' @ r"
      and t: "starts_with_str (lit ''test failed'') r \<or> (\<exists>n rest. split_once_str [32] r = Some (n, rest)
        \<and> n \<noteq> [] \<and> list_all is_ascii_digit n)"
    by (auto simp: is_test_failure_line_def strip_prefix_Some split: option.splits)
  have "strip_prefix (lit ''error['') (lit ''error: '' @ r) = None"
    by (simp add: strip_prefix_def lit_def)
  then have "starts_with_str (lit (''error: '' @ ''could not compile'')) (lit ''error: '' @ r)"
    using both by (simp add: is_compile_error_line_def r)
  then obtain u where "lit ''error: '' @ r = lit (''error: '' @ ''could not compile'') @ u"
    by (auto simp: starts_with_str_def strip_prefix_Some simp del: append.simps)
  then have c: "r = lit ''could not compile'' @ u"
    by (simp only: lit_append append_assoc same_append_eq)
  then have head: "hd r = 99" by (simp add: lit_def)
  show False
    using t
  proof
    assume "starts_with_str (lit ''test failed'') r"
    then show False using head by (auto simp: starts_with_str_def strip_prefix_Some lit_def)
  next
    assume "\<exists>n rest. split_once_str [32] r = Some (n, rest) \<and> n \<noteq> [] \<and> list_all is_ascii_digit n"
    then obtain n rest where "r = n @ [32] @ rest" "n \<noteq> []" "list_all is_ascii_digit n"
      using split_once_str_Some by blast
    then have "is_ascii_digit (hd r)" by (cases n) auto
    then show False using head by (simp add: is_ascii_digit_def)
  qed
qed

text \<open>
  The failing tests are charged by name: a run is held if and only if it names a failing test the baseline does
  not know, and then the hold names exactly those tests, sorted and once each, with the known failures beside them;
  order and repetition of the names do not matter.
\<close>
theorem baseline_hold_exact:
  "let v = compare_to_baseline failing (new_baseline known) in
     is_hold v = (\<not> set failing \<subseteq> set known)
     \<and> set (charged v) = set failing - set known \<and> sorted_wrt (<) (charged v)
     \<and> (case v of NewFailures new pre \<Rightarrow> set pre = set failing \<inter> set known | PreExisting pre \<Rightarrow> set pre = set failing)"
proof -
  have new: "filter (\<lambda>n. n \<notin> set known) (bs_of_list failing) = [] \<longleftrightarrow> set failing \<subseteq> set known"
    by (auto simp: filter_empty_conv)
  show ?thesis
    using bs_of_list_sorted [of failing]
    by (auto simp: compare_to_baseline_def new_baseline_def Let_def new intro: sorted_wrt_filter)
qed

text \<open>The exit codes decide the kind of a hold, the output only its evidence.\<close>

lemma hold_kind_from_codes:
  "hold_from_gate build test out aggregate = None \<longleftrightarrow> build = 0 \<and> test = 0"
  "hold_from_gate 0 test out aggregate = (if test = 0 then None else Some (TestsFailed (failing_test_names out) aggregate))"
  by (simp_all add: hold_from_gate_def failure_kind_from_exit_codes_def classify_gate_def hold_of_kind_def)

section \<open>The names of the failing tests\<close>

definition test_name :: "ustr \<Rightarrow> bool" where
  "test_name n \<longleftrightarrow> n \<noteq> [] \<and> \<not> is_whitespace (hd n) \<and> \<not> is_whitespace (last n) \<and> 10 \<notin> set n"

definition outside_block :: "ustr \<Rightarrow> bool" where
  "outside_block l \<longleftrightarrow> trim_end l \<noteq> lit ''failures:'' \<and> 10 \<notin> set l \<and> last (0 # l) \<noteq> 13"

definition cargo_output :: "ustr list \<Rightarrow> ustr list \<Rightarrow> ustr list \<Rightarrow> ustr list" where
  "cargo_output before names after =
     before @ [lit ''failures:''] @ map (\<lambda>n. lit ''    '' @ n) names @ [[]] @ after"

lemma scan_outside: "list_all outside_block ls \<Longrightarrow> scan_failures False ns (ls @ rest) = scan_failures False ns rest"
  by (induction ls arbitrary: ns) (auto simp: outside_block_def)

lemma scan_name:
  assumes "test_name n"
  shows "scan_failures True ns ((lit ''    '' @ n) # ls) = scan_failures True (if n \<in> set ns then ns else ns @ [n]) ls"
proof -
  from assms have n: "n \<noteq> []" "\<not> is_whitespace (hd n)" "\<not> is_whitespace (last n)" by (simp_all add: test_name_def)
  have spaces: "lit ''    '' = [32, 32, 32, 32]" by (simp add: lit_def)
  have start: "trim_start (lit ''    '' @ n) = n"
    using trim_start_id [OF n(1,2)] by (simp add: spaces trim_start_def is_whitespace_def)
  have end_: "trim_end (lit ''    '' @ n) = lit ''    '' @ n"
    using n by (intro trim_end_id) simp_all
  have "hd (lit ''    '' @ n) \<noteq> hd (lit ''failures:'')" by (simp add: lit_def)
  then have no: "lit ''    '' @ n \<noteq> lit ''failures:''" by metis
  have "trim (lit ''    '' @ n) = n" using start trim_end_id [OF n(1,3)] by (simp add: trim_def)
  then have "\<not> blank (lit ''    '' @ n)" using n(1) by (simp add: blank_def)
  moreover have "indent (lit ''    '' @ n) = 4"
    unfolding indent_def start by (simp add: byte_len_def spaces len_utf8_def)
  ultimately show ?thesis by (simp add: end_ no start)
qed

lemma scan_names:
  "list_all test_name names \<Longrightarrow> set seen = set ns \<Longrightarrow>
     scan_failures True ns (map (\<lambda>n. lit ''    '' @ n) names @ rest) = scan_failures True (ns @ keep_first seen names) rest"
proof (induction names arbitrary: ns seen)
  case (Cons n names)
  from Cons.prems show ?case
    using Cons.IH [of seen ns] Cons.IH [of "n # seen" "ns @ [n]"]
    by (simp add: scan_name del: scan_failures.simps(2))
qed simp

lemma scan_all_outside: "list_all outside_block ls \<Longrightarrow> scan_failures False ns ls = ns"
  using scan_outside [of ls ns "[]"] by simp

lemma cargo_lines:
  assumes "list_all outside_block before" "list_all test_name names" "list_all outside_block after"
  shows "str_lines (concat (map (\<lambda>l. l @ [10]) (cargo_output before names after))) = cargo_output before names after"
proof (rule str_lines_concat)
  have "last n \<noteq> 13" if "test_name n" for n
    using that by (auto simp: test_name_def is_whitespace_def)
  then show "list_all (\<lambda>l. 10 \<notin> set l \<and> last (0 # l) \<noteq> 13) (cargo_output before names after)"
    using assms by (auto simp: cargo_output_def list_all_iff outside_block_def test_name_def lit_def)
qed

text \<open>The names of the failing tests are read back from cargo's output: when the summary block lists them, each
  indented by four spaces up to a blank line, and no other line opens a block, the reader returns exactly these
  names, in order and once each, whatever the rest of the output says.
\<close>
theorem failing_names_read_back:
  assumes "list_all outside_block before" "list_all test_name names" "list_all outside_block after"
  shows "failing_test_names (concat (map (\<lambda>l. l @ [10]) (cargo_output before names after))) = keep_first [] names"
proof -
  have "trim_end (lit ''failures:'') = lit ''failures:''"
    by (rule trim_end_id) (simp_all add: lit_def is_whitespace_def)
  moreover have "scan_failures True ns ([] # after) = ns" for ns
    using scan_all_outside [OF assms(3)] lit_eq_Nil [of "''failures:''"] by (simp add: trim_end_def eq_commute [of "[]"])
  ultimately have "scan_failures False [] (cargo_output before names after) = keep_first [] names"
    unfolding cargo_output_def
    using scan_names [OF assms(2), of "[]" "[]" "[] # after"] scan_outside [OF assms(1)] by simp
  then show ?thesis by (simp add: failing_test_names_def cargo_lines [OF assms])
qed

theorem failing_names_read_back_witness:
  "failing_test_names (concat (map (\<lambda>l. l @ [10]) (cargo_output [lit ''test a ... FAILED''] [lit ''m::a'', lit ''m::b''] [])))
     = [lit ''m::a'', lit ''m::b'']"
  by (subst failing_names_read_back) (simp_all add: outside_block_def test_name_def lit_def is_whitespace_def trim_end_def)

end
