(* ===== verification/Merge_Gate.thy ===== *)
theory Merge_Gate
  imports Rust_Base Ordered_Map "HOL-Library.Product_Lexorder"
begin

text \<open>
  Two gates of the fleet: the decision to merge a converted patch and the coverage its record must name
  (\<open>merge_gate.rs\<close>), and the admission of a worker on measured throughput with the baselines that show a
  regression (\<open>capability_admission.rs\<close>). Ratios printed with one decimal are not modelled.
\<close>

section \<open>The merge\<close>

datatype gate_result = Passed | GateFailed

datatype ci_status = CiPending | CiPassed | CiFailed | NotRun

fun ci_text :: "ci_status \<Rightarrow> string" where
  "ci_text CiPending = ''pending''"
| "ci_text CiPassed = ''passed''"
| "ci_text CiFailed = ''failed''"
| "ci_text NotRun = ''not-run''"

datatype base_status = BaseGreen | BaseRed "ustr list" | BaseUnknown

datatype merge_decision = LocalGateFailed | BaseBranchRed "ustr list" | CiNotPassed ci_status | Approved

fun merge_line :: "merge_decision \<Rightarrow> ustr" where
  "merge_line LocalGateFailed = lit ''merge refused: local gate failed (pre-filter only '' @ [0x2014] @ lit '' never a merge)''"
| "merge_line (BaseBranchRed js) = lit ''merge refused: target workflow red on base branch (failing: '' @ join (lit '', '') js @ lit '')''"
| "merge_line (CiNotPassed s) = lit ''merge not approved: real CI '' @ lit (ci_text s) @ [32, 0x2014]
     @ lit '' the local gate is a pre-filter, not the gate''"
| "merge_line Approved = lit ''merge approved: local gate, base branch and real CI all passed''"

definition decide_merge :: "gate_result \<Rightarrow> ci_status \<Rightarrow> base_status \<Rightarrow> merge_decision" where
  "decide_merge l ci base =
     (if l = GateFailed then LocalGateFailed
      else case base of BaseRed js \<Rightarrow> BaseBranchRed js
      | _ \<Rightarrow> if ci \<noteq> CiPassed then CiNotPassed ci else Approved)"

record job_coverage =
  checked_jobs :: "ustr list"
  unchecked_jobs :: "ustr list"

definition new_coverage :: "ustr list \<Rightarrow> ustr list \<Rightarrow> job_coverage" where
  "new_coverage jobs locally = \<lparr>checked_jobs = filter (\<lambda>j. j \<in> set locally) jobs, unchecked_jobs = filter (\<lambda>j. j \<notin> set locally) jobs\<rparr>"

definition job_line :: "job_coverage \<Rightarrow> ustr" where
  "job_line c = lit ''local gate covers '' @ show_nat (length (checked_jobs c)) @ lit ''/''
     @ show_nat (length (checked_jobs c) + length (unchecked_jobs c)) @ lit '' CI jobs''"

definition line_with_unchecked :: "job_coverage \<Rightarrow> ustr" where
  "line_with_unchecked c = (if unchecked_jobs c = [] then job_line c
     else job_line c @ lit ''; unchecked: '' @ join (lit '', '') (unchecked_jobs c))"

definition record_names_unchecked :: "ustr \<Rightarrow> job_coverage \<Rightarrow> bool" where
  "record_names_unchecked r c \<longleftrightarrow> list_all (\<lambda>j. contains_str j r) (unchecked_jobs c)"

record pass_rate =
  workflow :: ustr
  branch :: ustr
  passed :: u32
  runs :: u32

definition new_rate :: "ustr \<Rightarrow> ustr \<Rightarrow> pass_rate" where
  "new_rate w b = \<lparr>workflow = w, branch = b, passed = 0, runs = 0\<rparr>"

definition record_run :: "bool \<Rightarrow> pass_rate \<Rightarrow> pass_rate" where
  "record_run ok r = r\<lparr>runs := runs r + 1, passed := (if ok then passed r + 1 else passed r)\<rparr>"

definition all_failing :: "pass_rate \<Rightarrow> bool" where
  "all_failing r \<longleftrightarrow> 0 < runs r \<and> passed r = 0"

section \<open>Admission\<close>

record liveness =
  process_up :: bool
  health_ok :: bool
  props_ok :: bool
  probe_ok :: bool
  registered :: bool
  counters_advancing :: bool

definition all_alive :: "liveness \<Rightarrow> bool" where
  "all_alive l \<longleftrightarrow> process_up l \<and> health_ok l \<and> props_ok l \<and> probe_ok l \<and> registered l \<and> counters_advancing l"

datatype stage = Prefill | Decode

fun stage_label :: "stage \<Rightarrow> string" where
  "stage_label Prefill = ''prefill''"
| "stage_label Decode = ''decode''"

text \<open>A measurement and a floor have the same two rates.\<close>

record rates =
  prefill_rate :: u64
  decode_rate :: u64

definition new_floor :: "u64 \<Rightarrow> u64 \<Rightarrow> rates option" where
  "new_floor p d = (if 0 < p \<and> 0 < d then Some \<lparr>prefill_rate = p, decode_rate = d\<rparr> else None)"

datatype admission = Admitted | NotServing | NoFloor | Unmeasured | BelowFloor stage u64 u64

definition admit :: "liveness \<Rightarrow> rates option \<Rightarrow> rates option \<Rightarrow> admission" where
  "admit l m f =
     (if \<not> all_alive l then NotServing
      else case f of None \<Rightarrow> NoFloor
      | Some f \<Rightarrow> (case m of None \<Rightarrow> Unmeasured
        | Some m \<Rightarrow>
            if prefill_rate m < prefill_rate f then BelowFloor Prefill (prefill_rate m) (prefill_rate f)
            else if decode_rate m < decode_rate f then BelowFloor Decode (decode_rate m) (decode_rate f)
            else Admitted))"

definition diverges :: "bool \<Rightarrow> bool \<Rightarrow> bool" where
  "diverges live capable \<longleftrightarrow> live \<and> \<not> capable"

datatype generation_gpu = Busy "8 word" | IdleDuringGeneration "8 word"

definition gpu_during_generation :: "8 word \<Rightarrow> generation_gpu" where
  "gpu_during_generation p = (if p < 5 then IdleDuringGeneration p else Busy p)"

record baseline =
  model :: ustr
  card :: ustr
  base_rates :: rates

type_synonym baseline_table = "(ustr \<times> ustr, baseline) bmap"

definition record_baseline :: "ustr \<Rightarrow> ustr \<Rightarrow> u64 \<Rightarrow> u64 \<Rightarrow> baseline_table \<Rightarrow> baseline_table" where
  "record_baseline m c p d t =
     bm_insert (m, c) \<lparr>model = m, card = c, base_rates = \<lparr>prefill_rate = p, decode_rate = d\<rparr>\<rparr> t"

definition baseline_for :: "baseline_table \<Rightarrow> ustr \<Rightarrow> ustr \<Rightarrow> baseline option" where
  "baseline_for t m c = bm_get t (m, c)"

datatype deviation = WithinBaseline | Regression stage u64 u64 u64

fun times_slower :: "deviation \<Rightarrow> u64" where
  "times_slower WithinBaseline = 0"
| "times_slower (Regression _ _ _ n) = n"

definition stage_deviation :: "u64 \<Rightarrow> stage \<Rightarrow> u64 \<Rightarrow> u64 \<Rightarrow> deviation option" where
  "stage_deviation least st base got =
     (if base \<le> got then None
      else let n = base div max got 1 in if least \<le> n then Some (Regression st got base n) else None)"

definition worse :: "deviation option \<Rightarrow> deviation option \<Rightarrow> deviation option" where
  "worse worst d = (case d of None \<Rightarrow> worst
     | Some d \<Rightarrow> (case worst of None \<Rightarrow> Some d
       | Some WithinBaseline \<Rightarrow> Some d
       | Some (Regression st got base n) \<Rightarrow> if n < times_slower d then Some d else Some (Regression st got base n)))"

definition deviation_from :: "baseline \<Rightarrow> rates \<Rightarrow> u64 \<Rightarrow> deviation" where
  "deviation_from b m k =
     (let least = max k 2;
          worst = worse (worse None (stage_deviation least Prefill (prefill_rate (base_rates b)) (prefill_rate m)))
            (stage_deviation least Decode (decode_rate (base_rates b)) (decode_rate m))
      in case worst of None \<Rightarrow> WithinBaseline | Some d \<Rightarrow> d)"

section \<open>What the gates guarantee\<close>

text \<open>
  A merge is approved if and only if the local gate and the pull request's own CI passed and the base branch is
  not known to be red: an unknown base branch is approved like a green one, and the record then says that it passed.
\<close>
theorem merge_approval_exact:
  "decide_merge l ci base = Approved \<longleftrightarrow> l = Passed \<and> ci = CiPassed \<and> base \<in> {BaseGreen, BaseUnknown}"
  by (cases l; cases base) (auto simp: decide_merge_def)

text \<open>Every record that carries the coverage line names every job that was not checked.\<close>

lemma contains_join: "j \<in> set js \<Longrightarrow> contains_str j (join sep js)"
proof (induction sep js rule: join.induct)
  case (3 sep x y ys)
  show ?case
  proof (cases "j = x")
    case False
    with 3 have "contains_str j (join sep (y # ys))" by simp
    then obtain a b where "join sep (y # ys) = a @ j @ b" by (auto simp: contains_str_iff)
    then have "join sep (x # y # ys) = (x @ sep @ a) @ j @ b" by simp
    then show ?thesis unfolding contains_str_iff by blast
  next
    case True
    then have "join sep (x # y # ys) = [] @ j @ (sep @ join sep (y # ys))" by simp
    then show ?thesis unfolding contains_str_iff by blast
  qed
qed (auto simp: contains_str_iff intro: exI [of _ "[]"])

text \<open>
  A merge record that carries the coverage line is never silent about a gap: whatever the jobs of the workflow
  and the jobs checked on the host, and whatever stands before and after the line, the record names every job of the
  workflow that was not checked.
\<close>
theorem coverage_line_names_the_gap:
  "record_names_unchecked (before @ line_with_unchecked (new_coverage jobs locally) @ after) (new_coverage jobs locally)"
proof -
  have "contains_str j (before @ line_with_unchecked c @ after)" if mem: "j \<in> set (unchecked_jobs c)" for j c
  proof -
    from mem have "unchecked_jobs c \<noteq> []" by auto
    obtain a b where "join (lit '', '') (unchecked_jobs c) = a @ j @ b"
      using contains_join [OF mem, of "lit '', ''"] unfolding contains_str_iff by blast
    with \<open>unchecked_jobs c \<noteq> []\<close> have "before @ line_with_unchecked c @ after
        = (before @ job_line c @ lit ''; unchecked: '' @ a) @ j @ (b @ after)"
      by (simp add: line_with_unchecked_def)
    then show ?thesis unfolding contains_str_iff by blast
  qed
  then show ?thesis by (simp add: record_names_unchecked_def list_all_iff)
qed

text \<open>
  A worker is admitted if and only if it is alive, was measured, has a floor and meets it in both stages; every
  other combination, a missing floor or measurement included, is refused.
\<close>
theorem admission_exact:
  "admit l m f = Admitted \<longleftrightarrow> all_alive l
     \<and> (case (m, f) of (Some m, Some f) \<Rightarrow> prefill_rate f \<le> prefill_rate m \<and> decode_rate f \<le> decode_rate m | _ \<Rightarrow> False)"
  by (auto simp: admit_def not_less split: option.splits)

text \<open>The factor a stage is slower by, as integers divide, a dead stage counted as one token.\<close>

definition slowdown :: "u64 \<Rightarrow> u64 \<Rightarrow> nat" where
  "slowdown base got = (if base \<le> got then 0 else unat base div max (unat got) 1)"

definition factor :: "deviation option \<Rightarrow> nat" where
  "factor d = (case d of None \<Rightarrow> 0 | Some d \<Rightarrow> unat (times_slower d))"

lemma unat_max: "unat (max a b) = max (unat a) (unat (b :: u64))"
  by (simp add: max_def word_le_nat_alt)

lemma stage_factor:
  assumes "least \<noteq> 0"
  shows "factor (stage_deviation least st base got)
     = (if unat least \<le> slowdown base got then slowdown base got else 0)"
proof -
  have "unat (base div max got 1) = unat base div max (unat got) 1"
    by (simp add: unat_div unat_max)
  moreover have "0 < unat least" using assms by (simp add: unat_gt_0)
  ultimately show ?thesis
    by (simp add: stage_deviation_def slowdown_def factor_def Let_def word_le_nat_alt)
qed

lemma worse_factor: "factor (worse w (stage_deviation least st base got)) = max (factor w) (factor (stage_deviation least st base got))"
  by (auto simp: worse_def stage_deviation_def factor_def Let_def word_less_nat_alt split: option.splits deviation.splits)

text \<open>
  The deviation from the baseline is the worse of the two stages: its factor is the larger of the two slowdowns
  that reach the threshold, the threshold being at least two, and it is zero, no alert, if neither does.
\<close>
theorem deviation_is_the_worse_stage:
  "unat (times_slower (deviation_from b m k)) =
     (let least = max (unat k) 2;
          alarm = (\<lambda>n. if least \<le> n then n else 0)
      in max (alarm (slowdown (prefill_rate (base_rates b)) (prefill_rate m)))
           (alarm (slowdown (decode_rate (base_rates b)) (decode_rate m))))"
proof -
  define least where "least = max k 2"
  have least: "unat least = max (unat k) 2" "least \<noteq> 0"
    by (auto simp: least_def unat_max max_def word_le_nat_alt)
  let ?p = "stage_deviation least Prefill (prefill_rate (base_rates b)) (prefill_rate m)"
  let ?d = "stage_deviation least Decode (decode_rate (base_rates b)) (decode_rate m)"
  have "unat (times_slower (deviation_from b m k)) = factor (worse (worse None ?p) ?d)"
    by (auto simp: deviation_from_def Let_def least_def factor_def split: option.splits)
  also have "\<dots> = max (factor ?p) (factor ?d)"
    by (simp only: worse_factor) (simp add: factor_def)
  finally show ?thesis
    by (simp only: stage_factor [OF least(2)] least(1) Let_def)
qed

end
