(* ===== verification/Pipeline_Topology.thy ===== *)
theory Pipeline_Topology
  imports Task
begin

text \<open>
  The chain from a filed issue to a dispatched agent (\<open>dispatch_pipeline.rs\<close>, first part): the declared steps and
  the audit of their topology, the freshness policy, the ledger of liveness beats and the verdict on one hop. The
  division by the interval of a step panics when that interval is 0; the value \<open>None\<close> is that panic.
\<close>

section \<open>Failures\<close>

definition QUEUE_ARTIFACT :: ustr where "QUEUE_ARTIFACT = lit ''queue.txt''"
definition DEFAULT_INTERVAL_SECS :: u64 where "DEFAULT_INTERVAL_SECS = 600"
definition DEFAULT_MAX_STALE_INTERVALS :: u64 where "DEFAULT_MAX_STALE_INTERVALS = 3"

datatype failure_code = QueueMissing | QueueUnstamped | StampNotRefreshed | ClockRewound | StepNeverBeat | StepSilent
  | CredentialHostNotDurableCode | CredentialOnSharedStorageCode | ProducerNotScheduledCode
  | ProducerHostNotDurableCode | UnknownProducerCode | StepHasNoLog | AdmittedNotSchedulable

fun failure_code_text :: "failure_code \<Rightarrow> string" where
  "failure_code_text QueueMissing = ''QUEUE_MISSING''"
| "failure_code_text QueueUnstamped = ''QUEUE_UNSTAMPED''"
| "failure_code_text StampNotRefreshed = ''STAMP_NOT_REFRESHED''"
| "failure_code_text ClockRewound = ''CLOCK_REWIND''"
| "failure_code_text StepNeverBeat = ''STEP_NEVER_BEAT''"
| "failure_code_text StepSilent = ''STEP_SILENT''"
| "failure_code_text CredentialHostNotDurableCode = ''CREDENTIAL_HOST_NOT_DURABLE''"
| "failure_code_text CredentialOnSharedStorageCode = ''CREDENTIAL_ON_SHARED_STORAGE''"
| "failure_code_text ProducerNotScheduledCode = ''PRODUCER_NOT_SCHEDULED''"
| "failure_code_text ProducerHostNotDurableCode = ''PRODUCER_HOST_NOT_DURABLE''"
| "failure_code_text UnknownProducerCode = ''UNKNOWN_PRODUCER''"
| "failure_code_text StepHasNoLog = ''STEP_HAS_NO_LOG''"
| "failure_code_text AdmittedNotSchedulable = ''ADMITTED_NOT_SCHEDULABLE''"

record liveness_failure =
  failure_code_of :: failure_code
  failure_step :: ustr
  failure_artifact :: "ustr option"
  failure_message :: ustr

definition failure_line :: "liveness_failure \<Rightarrow> ustr" where
  "failure_line f = lit ''LIVENESS FAILURE ['' @ lit (failure_code_text (failure_code_of f)) @ lit '']: step ''
     @ failure_step f @ (case failure_artifact f of Some a \<Rightarrow> lit '' -> '' @ a | None \<Rightarrow> [])
     @ lit '': '' @ failure_message f"

section \<open>Steps\<close>

datatype host_kind = Authenticated | SharedCluster | EphemeralSession

definition allows_credentials :: "host_kind \<Rightarrow> bool" where
  "allows_credentials h \<longleftrightarrow> h \<noteq> SharedCluster"

definition is_durable :: "host_kind \<Rightarrow> bool" where
  "is_durable h \<longleftrightarrow> h \<noteq> EphemeralSession"

fun host_text :: "host_kind \<Rightarrow> string" where
  "host_text Authenticated = ''authenticated''"
| "host_text SharedCluster = ''shared-cluster''"
| "host_text EphemeralSession = ''ephemeral-session''"

datatype credential_requirement = NoCredential | GitHubToken

definition requires_credential :: "credential_requirement \<Rightarrow> bool" where
  "requires_credential c \<longleftrightarrow> c \<noteq> NoCredential"

fun credential_text :: "credential_requirement \<Rightarrow> string" where
  "credential_text NoCredential = ''none''"
| "credential_text GitHubToken = ''gh-token''"

datatype step_schedule = Scheduled u64 | SessionScoped

fun schedule_interval :: "step_schedule \<Rightarrow> u64 option" where
  "schedule_interval (Scheduled i) = Some i"
| "schedule_interval SessionScoped = None"

fun schedule_text :: "step_schedule \<Rightarrow> ustr" where
  "schedule_text (Scheduled i) = lit ''every '' @ show_u64 i @ lit ''s''"
| "schedule_text SessionScoped = lit ''session-scoped''"

record pipeline_step =
  step_name :: ustr
  host :: host_kind
  credential :: credential_requirement
  schedule :: step_schedule
  produces :: "ustr option"
  consumes :: "ustr list"
  step_log :: "ustr option"

section \<open>The topology and its audit\<close>

datatype topology_violation = CredentialOnSharedStorage ustr | CredentialHostNotDurable ustr
  | ProducerNotScheduled ustr ustr | ProducerHostNotDurable ustr ustr | UnknownProducer ustr | NoLog ustr

fun violation_code :: "topology_violation \<Rightarrow> failure_code" where
  "violation_code (CredentialOnSharedStorage s) = CredentialOnSharedStorageCode"
| "violation_code (CredentialHostNotDurable s) = CredentialHostNotDurableCode"
| "violation_code (ProducerNotScheduled s a) = ProducerNotScheduledCode"
| "violation_code (ProducerHostNotDurable s a) = ProducerHostNotDurableCode"
| "violation_code (UnknownProducer a) = UnknownProducerCode"
| "violation_code (NoLog s) = StepHasNoLog"

fun violation_step :: "topology_violation \<Rightarrow> ustr option" where
  "violation_step (CredentialOnSharedStorage s) = Some s"
| "violation_step (CredentialHostNotDurable s) = Some s"
| "violation_step (NoLog s) = Some s"
| "violation_step (ProducerNotScheduled s a) = Some s"
| "violation_step (ProducerHostNotDurable s a) = Some s"
| "violation_step (UnknownProducer a) = None"

fun violation_line :: "topology_violation \<Rightarrow> ustr" where
  "violation_line (CredentialOnSharedStorage s) = lit ''TOPOLOGY DEFECT [CREDENTIAL_ON_SHARED_STORAGE]: step '' @ s
     @ lit '' holds a credential on cluster-shared storage''"
| "violation_line (CredentialHostNotDurable s) = lit ''TOPOLOGY DEFECT [CREDENTIAL_HOST_NOT_DURABLE]: step '' @ s
     @ lit '' runs unattended on a host that dies with its session''"
| "violation_line (ProducerNotScheduled s a) = lit ''TOPOLOGY DEFECT [PRODUCER_NOT_SCHEDULED]: '' @ a
     @ lit '' is consumed but repopulated only by '' @ s @ lit '' running from a session''"
| "violation_line (ProducerHostNotDurable s a) = lit ''TOPOLOGY DEFECT [PRODUCER_HOST_NOT_DURABLE]: '' @ s
     @ lit '' produces '' @ a @ lit '' on a host that dies with its session''"
| "violation_line (UnknownProducer a) = lit ''TOPOLOGY DEFECT [UNKNOWN_PRODUCER]: '' @ a
     @ lit '' is consumed but no step produces it''"
| "violation_line (NoLog s) = lit ''TOPOLOGY DEFECT [STEP_HAS_NO_LOG]: step '' @ s
     @ lit '' writes no log, so its failure would be silent''"

fun violation_artifact :: "topology_violation \<Rightarrow> ustr option" where
  "violation_artifact (ProducerNotScheduled s a) = Some a"
| "violation_artifact (ProducerHostNotDurable s a) = Some a"
| "violation_artifact (UnknownProducer a) = Some a"
| "violation_artifact v = None"

definition violation_failure :: "topology_violation \<Rightarrow> liveness_failure" where
  "violation_failure v = \<lparr>failure_code_of = violation_code v,
     failure_step = (case violation_step v of Some s \<Rightarrow> s | None \<Rightarrow> lit ''pipeline''),
     failure_artifact = violation_artifact v, failure_message = violation_line v\<rparr>"

type_synonym topology = "pipeline_step list"

definition find_step :: "topology \<Rightarrow> ustr \<Rightarrow> pipeline_step option" where
  "find_step t n = find (\<lambda>s. step_name s = n) t"

definition credential_steps :: "topology \<Rightarrow> pipeline_step list" where
  "credential_steps t = filter (\<lambda>s. requires_credential (credential s)) t"

definition producer_of :: "topology \<Rightarrow> ustr \<Rightarrow> pipeline_step option" where
  "producer_of t a = find (\<lambda>s. produces s = Some a) t"

definition consumed_artifacts :: "topology \<Rightarrow> ustr list" where
  "consumed_artifacts t = bs_of_list (concat (map consumes t))"

definition reference_topology :: topology where
  "reference_topology =
    [\<lparr>step_name = lit ''file-issue'', host = Authenticated, credential = GitHubToken, schedule = SessionScoped,
      produces = None, consumes = [], step_log = Some (lit ''~/.autospec/logs/file-issue.log'')\<rparr>,
     \<lparr>step_name = lit ''refresh-queue'', host = Authenticated, credential = GitHubToken,
      schedule = Scheduled DEFAULT_INTERVAL_SECS, produces = Some QUEUE_ARTIFACT, consumes = [],
      step_log = Some (lit ''~/.autospec/logs/refresh-queue.log'')\<rparr>,
     \<lparr>step_name = lit ''topup'', host = Authenticated, credential = GitHubToken,
      schedule = Scheduled DEFAULT_INTERVAL_SECS, produces = Some (lit ''dispatch-request''),
      consumes = [QUEUE_ARTIFACT], step_log = Some (lit ''~/.autospec/logs/topup.log'')\<rparr>,
     \<lparr>step_name = lit ''dispatch-agent'', host = SharedCluster, credential = NoCredential,
      schedule = Scheduled DEFAULT_INTERVAL_SECS, produces = None, consumes = [lit ''dispatch-request''],
      step_log = Some (lit ''~/.autospec/logs/dispatch-agent.log'')\<rparr>]"

definition credential_defects :: "pipeline_step \<Rightarrow> topology_violation list" where
  "credential_defects s = (if \<not> requires_credential (credential s) then []
     else (if \<not> allows_credentials (host s) then [CredentialOnSharedStorage (step_name s)] else [])
        @ (if (case schedule s of Scheduled i \<Rightarrow> True | SessionScoped \<Rightarrow> False) \<and> \<not> is_durable (host s)
           then [CredentialHostNotDurable (step_name s)] else []))"

definition producer_defects :: "topology \<Rightarrow> pipeline_step \<Rightarrow> topology_violation list" where
  "producer_defects t s = (case produces s of None \<Rightarrow> []
     | Some a \<Rightarrow> if a \<notin> set (consumed_artifacts t) then []
       else (if schedule_interval (schedule s) = None then [ProducerNotScheduled (step_name s) a] else [])
          @ (if \<not> is_durable (host s) then [ProducerHostNotDurable (step_name s) a] else []))"

definition step_defects :: "topology \<Rightarrow> pipeline_step \<Rightarrow> topology_violation list" where
  "step_defects t s = credential_defects s @ producer_defects t s
     @ (if step_log s = None then [NoLog (step_name s)] else [])"

definition audit_topology :: "topology \<Rightarrow> topology_violation list" where
  "audit_topology t = concat (map (step_defects t) t)
     @ map UnknownProducer (filter (\<lambda>a. producer_of t a = None) (consumed_artifacts t))"

section \<open>Freshness\<close>

record freshness_policy =
  interval_secs :: u64
  max_intervals :: u64

definition default_freshness :: freshness_policy where
  "default_freshness = \<lparr>interval_secs = DEFAULT_INTERVAL_SECS, max_intervals = DEFAULT_MAX_STALE_INTERVALS\<rparr>"

definition new_freshness :: "u64 \<Rightarrow> u64 \<Rightarrow> freshness_policy option" where
  "new_freshness i m = (if i = 0 \<or> m = 0 then None else Some \<lparr>interval_secs = i, max_intervals = m\<rparr>)"

definition interval_for :: "freshness_policy \<Rightarrow> pipeline_step option \<Rightarrow> u64" where
  "interval_for p s = (case Option.bind s (\<lambda>s. schedule_interval (schedule s)) of
     Some i \<Rightarrow> i | None \<Rightarrow> interval_secs p)"

definition threshold_for :: "freshness_policy \<Rightarrow> pipeline_step option \<Rightarrow> u64" where
  "threshold_for p s = saturating_mul (interval_for p s) (max_intervals p)"

definition missed_intervals :: "freshness_policy \<Rightarrow> u64 \<Rightarrow> pipeline_step option \<Rightarrow> u64 option" where
  "missed_intervals p age s = (if interval_for p s = 0 then None else Some (age div interval_for p s))"

section \<open>Beats\<close>

datatype liveness_verdict = Live u64 | Silent u64 u64 u64 | NeverBeat | ClockRewind u64 | EventDriven "u64 option"

fun hop_failed :: "liveness_verdict \<Rightarrow> bool" where
  "hop_failed (Live a) = False"
| "hop_failed (EventDriven a) = False"
| "hop_failed v = True"

fun hop_line :: "liveness_verdict \<Rightarrow> ustr \<Rightarrow> ustr" where
  "hop_line (Live a) s = lit ''hop '' @ s @ lit '': LIVE last beat '' @ show_u64 a @ lit ''s ago''"
| "hop_line (Silent a m x) s = lit ''hop '' @ s @ lit '': SILENT no beat in '' @ show_u64 m
     @ lit '' intervals (threshold '' @ show_u64 x @ lit '', last beat '' @ show_u64 a @ lit ''s ago)''"
| "hop_line NeverBeat s = lit ''hop '' @ s @ lit '': NEVER BEAT no liveness stamp recorded for this hop''"
| "hop_line (ClockRewind a) s = lit ''hop '' @ s @ lit '': CLOCK REWIND last beat is '' @ show_u64 a
     @ lit ''s in the future; freshness is not evaluable''"
| "hop_line (EventDriven (Some a)) s = lit ''hop '' @ s
     @ lit '': EVENT-DRIVEN beat expected only while a session runs (last beat '' @ show_u64 a @ lit ''s ago)''"
| "hop_line (EventDriven None) s = lit ''hop '' @ s
     @ lit '': EVENT-DRIVEN beat expected only while a session runs (never beaten)''"

fun hop_code :: "liveness_verdict \<Rightarrow> failure_code option" where
  "hop_code (Silent a m x) = Some StepSilent"
| "hop_code NeverBeat = Some StepNeverBeat"
| "hop_code (ClockRewind a) = Some ClockRewound"
| "hop_code v = None"

definition hop_failure :: "liveness_verdict \<Rightarrow> ustr \<Rightarrow> liveness_failure option" where
  "hop_failure v s = map_option (\<lambda>c. \<lparr>failure_code_of = c, failure_step = s, failure_artifact = None,
     failure_message = hop_line v s\<rparr>) (hop_code v)"

type_synonym liveness_ledger = "(ustr, u64) bmap"

definition record_beat :: "ustr \<Rightarrow> u64 \<Rightarrow> liveness_ledger \<Rightarrow> liveness_ledger" where
  "record_beat s at l = bm_insert s (max (case bm_get l s of Some b \<Rightarrow> b | None \<Rightarrow> 0) at) l"

definition last_beat :: "liveness_ledger \<Rightarrow> ustr \<Rightarrow> u64 option" where
  "last_beat l s = bm_get l s"

definition beat_steps :: "liveness_ledger \<Rightarrow> ustr list" where
  "beat_steps l = bm_keys l"

definition assess :: "liveness_ledger \<Rightarrow> pipeline_step \<Rightarrow> freshness_policy \<Rightarrow> u64 \<Rightarrow> liveness_verdict option" where
  "assess l s p now =
     (let beaten = last_beat l (step_name s) in
      if schedule s = SessionScoped then Some (EventDriven (map_option (saturating_sub now) beaten))
      else (case beaten of None \<Rightarrow> Some NeverBeat
        | Some b \<Rightarrow> if now < b then Some (ClockRewind (b - now))
          else if threshold_for p (Some s) < now - b
            then map_option (\<lambda>m. Silent (now - b) m (max_intervals p)) (missed_intervals p (now - b) (Some s))
          else Some (Live (now - b))))"

end
