(* ===== verification/Dispatch_Queue.thy ===== *)
theory Dispatch_Queue
  imports Pipeline_Topology
begin

text \<open>
  The queue artifact and what its consumer concludes from it (\<open>dispatch_pipeline.rs\<close>, second part): \<open>QueueFile\<close> with
  its reader and writer, the reconciliation of admitted and schedulable issues, write surfaces with the check at
  filing time and the waves of disjoint surfaces, notes on landed siblings, and \<open>DispatchPipeline\<close>, whose
  \<open>None\<close> is the division by a zero interval.
\<close>

section \<open>The queue file\<close>

definition STAMP_HEADER :: ustr where "STAMP_HEADER = lit ''# refreshed-at:''"
definition REFRESHER_HEADER :: ustr where "REFRESHER_HEADER = lit ''# refreshed-by:''"

record queue_file =
  queue_entries :: "u64 list"
  refreshed_at :: "u64 option"
  refreshed_by :: "ustr option"
  queue_refused :: "(nat \<times> ustr) list"

definition no_queue :: queue_file where
  "no_queue = \<lparr>queue_entries = [], refreshed_at = None, refreshed_by = None, queue_refused = []\<rparr>"

definition queue_line :: "nat \<times> ustr \<Rightarrow> queue_file \<Rightarrow> queue_file" where
  "queue_line il q = (let t = trim (snd il) in
     case strip_prefix STAMP_HEADER t of
       Some r \<Rightarrow> (case parse_u64 (trim r) of Some n \<Rightarrow> q\<lparr>refreshed_at := Some n\<rparr> | None \<Rightarrow> q)
     | None \<Rightarrow> (case strip_prefix REFRESHER_HEADER t of
         Some r \<Rightarrow> if trim r \<noteq> [] then q\<lparr>refreshed_by := Some (trim r)\<rparr> else q
       | None \<Rightarrow> if t = [] \<or> take 1 t = lit ''#'' then q
         else (case parse_u64 t of
           Some n \<Rightarrow> if n = 0 then q\<lparr>queue_refused := queue_refused q @ [(fst il + 1, t)]\<rparr>
             else q\<lparr>queue_entries := queue_entries q @ [n]\<rparr>
         | None \<Rightarrow> q\<lparr>queue_refused := queue_refused q @ [(fst il + 1, t)]\<rparr>)))"

definition parse_queue :: "ustr \<Rightarrow> queue_file" where
  "parse_queue t = fold queue_line (enumerate 0 (str_lines t)) no_queue"

definition stamp_queue :: "u64 \<Rightarrow> ustr \<Rightarrow> queue_file \<Rightarrow> queue_file" where
  "stamp_queue at by_step q = q\<lparr>refreshed_at := Some at, refreshed_by := Some by_step\<rparr>"

definition render_queue :: "queue_file \<Rightarrow> ustr" where
  "render_queue q = (case refreshed_at q of Some at \<Rightarrow> STAMP_HEADER @ lit '' '' @ show_u64 at @ [10] | None \<Rightarrow> [])
     @ (case refreshed_by q of Some b \<Rightarrow> REFRESHER_HEADER @ lit '' '' @ b @ [10] | None \<Rightarrow> [])
     @ concat (map (\<lambda>n. show_u64 n @ [10]) (queue_entries q))"

definition entry_count :: "queue_file \<Rightarrow> nat" where
  "entry_count q = length (queue_entries q)"

section \<open>Admitted and schedulable issues\<close>

record reconciliation =
  admitted_not_schedulable :: "u64 list"
  schedulable_not_admitted :: "u64 list"
  schedulable :: "u64 list"

definition join_numbers :: "u64 list \<Rightarrow> ustr" where
  "join_numbers ns = join (lit '', '') (map show_u64 ns)"

definition reconcile_queue :: "u64 list \<Rightarrow> u64 list \<Rightarrow> reconciliation" where
  "reconcile_queue as ss = (let a = bs_of_list as; s = bs_of_list ss in
     \<lparr>admitted_not_schedulable = filter (\<lambda>n. n \<notin> set s) a, schedulable_not_admitted = filter (\<lambda>n. n \<notin> set a) s,
      schedulable = filter (\<lambda>n. n \<in> set s) a\<rparr>)"

definition defect_count :: "reconciliation \<Rightarrow> nat" where
  "defect_count r = length (admitted_not_schedulable r)"

definition queue_is_defect :: "reconciliation \<Rightarrow> bool" where
  "queue_is_defect r \<longleftrightarrow> admitted_not_schedulable r \<noteq> []"

definition reconciliation_line :: "reconciliation \<Rightarrow> ustr" where
  "reconciliation_line r =
     (if queue_is_defect r
      then lit ''RECONCILE DEFECT: '' @ show_nat (defect_count r) @ lit '' admitted issue(s) are not schedulable: ''
        @ join_numbers (admitted_not_schedulable r) @ lit ''; the queue lags the tracker '' @ [8212]
        @ lit '' refresh-queue must repopulate it''
      else if schedulable_not_admitted r = [] then lit ''RECONCILE clean: every admitted issue is schedulable''
      else (let n = length (schedulable_not_admitted r) in
        lit ''RECONCILE clean with '' @ show_nat n @ lit '' stale queue ''
        @ lit (if n = 1 then ''entry'' else ''entries'') @ lit '' to clean up: ''
        @ join_numbers (schedulable_not_admitted r)))"

section \<open>Write surfaces\<close>

record issue_surface =
  surface_issue :: u64
  surface_paths :: "ustr list"

definition normalise_names :: "ustr list \<Rightarrow> ustr list" where
  "normalise_names ns = bs_of_list (filter (\<lambda>n. n \<noteq> []) (map trim ns))"

definition new_surface :: "u64 \<Rightarrow> ustr list \<Rightarrow> issue_surface" where
  "new_surface n ps = \<lparr>surface_issue = n, surface_paths = normalise_names ps\<rparr>"

definition surface_entry :: "ustr \<Rightarrow> ustr" where
  "surface_entry t = trim (trim_of (lit ''`'') (trim (trim_start_of (lit ''-'') t)))"

definition unsafe_entry :: "ustr \<Rightarrow> bool" where
  "unsafe_entry e \<longleftrightarrow> e = [] \<or> take 1 e = lit ''/'' \<or> contains_str (lit '' '') e
     \<or> list_ex (\<lambda>s. s = [] \<or> s = lit ''.'' \<or> s = lit ''..'')
         (split_char 47 (case strip_suffix (lit ''/'') e of Some p \<Rightarrow> p | None \<Rightarrow> e))"

definition surface_line :: "ustr \<Rightarrow> bool \<times> ustr list \<Rightarrow> bool \<times> ustr list" where
  "surface_line line st = (let t = trim line in
     if starts_with_str (lit ''## '') t then (trim_end t = lit ''## Files touched'', snd st)
     else if \<not> fst st \<or> t = [] then st
     else if unsafe_entry (surface_entry t) then st
     else (fst st, bs_insert (surface_entry t) (snd st)))"

definition surface_from_body :: "u64 \<Rightarrow> ustr \<Rightarrow> issue_surface option" where
  "surface_from_body n b = (let ps = snd (fold surface_line (str_lines b) (False, [])) in
     if ps = [] then None else Some \<lparr>surface_issue = n, surface_paths = ps\<rparr>)"

definition surfaces_share :: "issue_surface \<Rightarrow> issue_surface \<Rightarrow> ustr list" where
  "surfaces_share a b = shared_entries (surface_paths a) (surface_paths b)"

definition overlaps_with :: "issue_surface \<Rightarrow> issue_surface \<Rightarrow> bool" where
  "overlaps_with a b \<longleftrightarrow> surfaces_share a b \<noteq> []"

record surface_overlap =
  overlap_issue :: u64
  overlap_shared :: "ustr list"

record filing_check =
  filed_issue :: u64
  overlaps :: "surface_overlap list"

definition check_filing :: "issue_surface \<Rightarrow> issue_surface list \<Rightarrow> filing_check" where
  "check_filing c os = \<lparr>filed_issue = surface_issue c,
     overlaps = List.map_filter (\<lambda>s. if surfaces_share c s = [] then None
         else Some \<lparr>overlap_issue = surface_issue s, overlap_shared = surfaces_share c s\<rparr>)
       (filter (\<lambda>s. surface_issue s \<noteq> surface_issue c) os)\<rparr>"

definition filing_clean :: "filing_check \<Rightarrow> bool" where
  "filing_clean c \<longleftrightarrow> overlaps c = []"

definition filing_lines :: "filing_check \<Rightarrow> ustr list" where
  "filing_lines c =
     (if overlaps c = [] then [lit ''WRITE-SURFACE clean: #'' @ show_u64 (filed_issue c)
        @ lit '' declares a surface no open issue shares'']
      else map (\<lambda>s. lit ''WRITE-SURFACE OVERLAP: #'' @ show_u64 (filed_issue c) @ lit '' shares ''
        @ join (lit '', '') (overlap_shared s) @ lit '' with open issue #'' @ show_u64 (overlap_issue s)
        @ [32, 8212] @ lit '' serialise or merge, and name the sibling on the later issue'') (overlaps c))"

section \<open>Waves\<close>

definition declared_surfaces :: "issue_surface list \<Rightarrow> (u64, issue_surface) bmap" where
  "declared_surfaces ss = bm_of_list (map (\<lambda>s. (surface_issue s, s)) ss)"

definition disjoint_from :: "(u64, issue_surface) bmap \<Rightarrow> issue_surface \<Rightarrow> u64 \<Rightarrow> bool" where
  "disjoint_from d c m = (case bm_get d m of Some s \<Rightarrow> \<not> overlaps_with c s | None \<Rightarrow> False)"

definition wave_of :: "(u64, issue_surface) bmap \<Rightarrow> u64 list list \<Rightarrow> u64 \<Rightarrow> nat" where
  "wave_of d ws e = (case bm_get d e of
     Some c \<Rightarrow> length (takeWhile (\<lambda>w. \<not> list_all (disjoint_from d c) w) ws)
   | None \<Rightarrow> length ws)"

definition place_entry :: "(u64, issue_surface) bmap \<Rightarrow> u64 \<Rightarrow> u64 list list \<Rightarrow> u64 list list" where
  "place_entry d e ws = (let i = wave_of d ws e; ws = (if length ws = i then ws @ [[]] else ws) in
     ws[i := ws ! i @ [e]])"

definition plan_waves :: "u64 list \<Rightarrow> issue_surface list \<Rightarrow> u64 list list" where
  "plan_waves es ss = fold (place_entry (declared_surfaces ss)) es []"

definition concurrent_with :: "u64 list list \<Rightarrow> u64 \<Rightarrow> u64 list" where
  "concurrent_with ws e = (case find (\<lambda>w. e \<in> set w) ws of Some w \<Rightarrow> filter (\<lambda>m. m \<noteq> e) w | None \<Rightarrow> [])"

record sibling_landing =
  landed_issue :: u64
  introduced :: "ustr list"
  touched :: "ustr list"

definition new_landing :: "u64 \<Rightarrow> ustr list \<Rightarrow> ustr list \<Rightarrow> sibling_landing" where
  "new_landing n is ts = \<lparr>landed_issue = n, introduced = normalise_names is, touched = normalise_names ts\<rparr>"

definition landing_note :: "sibling_landing \<Rightarrow> u64 \<Rightarrow> ustr" where
  "landing_note s target = lit ''SIBLING LANDED while #'' @ show_u64 target @ lit '' was in flight: #''
     @ show_u64 (landed_issue s) @ lit '' merged, introducing '' @ join (lit '', '') (introduced s) @ lit '' in ''
     @ join (lit '', '') (touched s) @ lit ''. Extend what it added '' @ [8212]
     @ lit '' do not re-implement it or shadow it with parallel types.''"

section \<open>The verdict of the consumer\<close>

datatype dispatch_outcome = Proceed nat u64 | Idle u64 | Hold liveness_failure

definition outcome_held :: "dispatch_outcome \<Rightarrow> bool" where
  "outcome_held o' = (case o' of Hold f \<Rightarrow> True | _ \<Rightarrow> False)"

fun outcome_failure :: "dispatch_outcome \<Rightarrow> liveness_failure option" where
  "outcome_failure (Hold f) = Some f"
| "outcome_failure d = None"

fun outcome_text :: "dispatch_outcome \<Rightarrow> ustr" where
  "outcome_text (Proceed n a) = lit ''DISPATCH queue ready: '' @ show_nat n @ lit '' entries, refreshed ''
     @ show_u64 a @ lit ''s ago''"
| "outcome_text (Idle a) = lit ''DISPATCH queue idle: no new issues were filed, refreshed '' @ show_u64 a
     @ lit ''s ago''"
| "outcome_text (Hold f) = failure_line f"

record hop_status =
  hop_step :: ustr
  hop_text :: ustr
  hop_is_failed :: bool
  hop_verdict :: liveness_verdict

record pipeline_report =
  outcome :: dispatch_outcome
  hops :: "hop_status list"
  topology_violations :: "topology_violation list"

definition report_held :: "pipeline_report \<Rightarrow> bool" where
  "report_held r \<longleftrightarrow> outcome_held (outcome r)"

definition report_healthy :: "pipeline_report \<Rightarrow> bool" where
  "report_healthy r \<longleftrightarrow> \<not> outcome_held (outcome r) \<and> \<not> list_ex hop_is_failed (hops r)
     \<and> topology_violations r = []"

definition report_failures :: "pipeline_report \<Rightarrow> liveness_failure list" where
  "report_failures r = (case outcome_failure (outcome r) of Some f \<Rightarrow> [f] | None \<Rightarrow> [])
     @ List.map_filter (\<lambda>h. hop_failure (hop_verdict h) (hop_step h)) (hops r)
     @ map violation_failure (topology_violations r)"

definition pipeline_lines :: "pipeline_report \<Rightarrow> ustr list" where
  "pipeline_lines r = map violation_line (topology_violations r) @ map hop_text (hops r) @ [outcome_text (outcome r)]"

record dispatch_pipeline =
  topology_of :: topology
  liveness_of :: liveness_ledger
  policy_of :: freshness_policy

definition queue_producer :: "dispatch_pipeline \<Rightarrow> pipeline_step option" where
  "queue_producer p = producer_of (topology_of p) QUEUE_ARTIFACT"

definition hold_queue :: "failure_code \<Rightarrow> ustr \<Rightarrow> ustr \<Rightarrow> dispatch_outcome" where
  "hold_queue c s m = Hold \<lparr>failure_code_of = c, failure_step = s, failure_artifact = Some QUEUE_ARTIFACT,
     failure_message = m\<rparr>"

definition producer_name :: "dispatch_pipeline \<Rightarrow> ustr" where
  "producer_name p = (case queue_producer p of Some s \<Rightarrow> step_name s
     | None \<Rightarrow> QUEUE_ARTIFACT @ lit '' producer (undeclared in topology)'')"

definition stale_message :: "ustr \<Rightarrow> u64 \<Rightarrow> u64 \<Rightarrow> u64 \<Rightarrow> u64 \<Rightarrow> ustr" where
  "stale_message producer missed stamped age threshold = producer @ lit '' has not refreshed '' @ QUEUE_ARTIFACT
     @ lit '' for '' @ show_u64 missed @ lit '' intervals (last stamp '' @ show_u64 stamped @ lit '', '' @ show_u64 age
     @ lit ''s old, threshold '' @ show_u64 threshold @ lit ''s); refusing to read a stale queue as '' @ [39]
     @ lit ''no work'' @ [39]"

definition authorize_queue :: "dispatch_pipeline \<Rightarrow> queue_file option \<Rightarrow> u64 \<Rightarrow> dispatch_outcome option" where
  "authorize_queue p queue now = (let producer = producer_name p in case queue of
     None \<Rightarrow> Some (hold_queue QueueMissing producer (lit ''no '' @ QUEUE_ARTIFACT
       @ lit '' found; it was never written or was removed, so there is nothing to trust''))
   | Some q \<Rightarrow> (case refreshed_at q of
       None \<Rightarrow> Some (hold_queue QueueUnstamped producer (QUEUE_ARTIFACT @ lit '' carries no '' @ STAMP_HEADER
         @ lit '' header; a queue without a stamp cannot be told apart from a frozen one''))
     | Some stamped \<Rightarrow>
       if now < stamped then Some (hold_queue ClockRewound producer (QUEUE_ARTIFACT @ lit '' is stamped ''
         @ show_u64 (stamped - now) @ lit ''s in the future (stamped '' @ show_u64 stamped @ lit '', now ''
         @ show_u64 now @ lit ''); the clock moved and staleness cannot be evaluated''))
       else (let age = now - stamped; threshold = threshold_for (policy_of p) (queue_producer p) in
         if threshold < age
         then map_option (\<lambda>m. hold_queue StampNotRefreshed producer (stale_message producer m stamped age threshold))
           (missed_intervals (policy_of p) age (queue_producer p))
         else if queue_entries q = [] then Some (Idle age)
         else Some (Proceed (length (queue_entries q)) age))))"

definition unscheduled_message :: "reconciliation \<Rightarrow> ustr \<Rightarrow> ustr" where
  "unscheduled_message r step = show_nat (defect_count r) @ lit '' admitted issue(s) are not in the queue: ''
     @ join_numbers (admitted_not_schedulable r) @ lit ''; free capacity over filed work '' @ [8212]
     @ lit '' the queue lags the tracker and '' @ step @ lit '' must repopulate it''"

definition authorize_with_admission ::
  "dispatch_pipeline \<Rightarrow> queue_file option \<Rightarrow> u64 list \<Rightarrow> u64 \<Rightarrow> dispatch_outcome option" where
  "authorize_with_admission p queue admitted now = (case authorize_queue p queue now of
     Some (Idle a) \<Rightarrow>
       (let r = reconcile_queue admitted (case queue of Some q \<Rightarrow> queue_entries q | None \<Rightarrow> []);
            step = (case queue_producer p of Some s \<Rightarrow> step_name s | None \<Rightarrow> lit ''refresh-queue'') in
        if queue_is_defect r then Some (hold_queue AdmittedNotSchedulable step (unscheduled_message r step))
        else Some (Idle a))
   | d \<Rightarrow> d)"

definition hop_status_of :: "dispatch_pipeline \<Rightarrow> u64 \<Rightarrow> pipeline_step \<Rightarrow> hop_status option" where
  "hop_status_of p now s = map_option (\<lambda>v. \<lparr>hop_step = step_name s, hop_text = hop_line v (step_name s),
     hop_is_failed = hop_failed v, hop_verdict = v\<rparr>) (assess (liveness_of p) s (policy_of p) now)"

definition hop_statuses :: "dispatch_pipeline \<Rightarrow> u64 \<Rightarrow> hop_status list option" where
  "hop_statuses p now = those (map (hop_status_of p now) (topology_of p))"

definition report_pipeline :: "dispatch_pipeline \<Rightarrow> queue_file option \<Rightarrow> u64 \<Rightarrow> pipeline_report option" where
  "report_pipeline p queue now = Option.bind (authorize_queue p queue now) (\<lambda>d.
     map_option (\<lambda>hs. \<lparr>outcome = d, hops = hs, topology_violations = audit_topology (topology_of p)\<rparr>)
       (hop_statuses p now))"

end
