(* ===== verification/Entry_Lifecycle.thy ===== *)
theory Entry_Lifecycle
  imports Dispatch_Queue
begin

text \<open>
  The lifecycle of queue entries (\<open>dispatch_pipeline.rs\<close>, third part): \<open>LifecycleLedger\<close> with the operations that
  stamp, dispatch, fail, hold and release an entry, and \<open>DispatchTick\<close>, the join of the queue with the ledger.
  Operations that answer whether they were accepted return the answer beside the ledger. The quoting of \<open>{:?}\<close> is
  an argument.
\<close>

definition DEFAULT_MAX_DISPATCH_ATTEMPTS :: u64 where "DEFAULT_MAX_DISPATCH_ATTEMPTS = 3"

section \<open>The ledger\<close>

datatype entry_state = Queued | Produced | Converted

definition entry_terminal :: "entry_state \<Rightarrow> bool" where
  "entry_terminal s \<longleftrightarrow> s = Converted"

fun entry_state_text :: "entry_state \<Rightarrow> string" where
  "entry_state_text Queued = ''queued''"
| "entry_state_text Produced = ''produced''"
| "entry_state_text Converted = ''converted''"

record entry_record =
  entry_state_of :: entry_state
  held_reason :: "ustr option"
  recorded_at :: u64
  entry_attempts :: u64
  dispatched_at :: "u64 option"

type_synonym lifecycle = "(u64, entry_record) bmap"

definition state_of :: "lifecycle \<Rightarrow> u64 \<Rightarrow> entry_state" where
  "state_of l n = (case bm_get l n of Some r \<Rightarrow> entry_state_of r | None \<Rightarrow> Queued)"

definition record_of :: "lifecycle \<Rightarrow> u64 \<Rightarrow> entry_record option" where
  "record_of l n = bm_get l n"

definition attempts_made :: "lifecycle \<Rightarrow> u64 \<Rightarrow> u64" where
  "attempts_made l n = (case bm_get l n of Some r \<Rightarrow> entry_attempts r | None \<Rightarrow> 0)"

definition in_flight_since :: "lifecycle \<Rightarrow> u64 \<Rightarrow> u64 option" where
  "in_flight_since l n = Option.bind (bm_get l n) dispatched_at"

definition older_than_record :: "lifecycle \<Rightarrow> u64 \<Rightarrow> u64 \<Rightarrow> bool" where
  "older_than_record l n at = (case bm_get l n of Some r \<Rightarrow> at < recorded_at r | None \<Rightarrow> False)"

definition fresh_record :: entry_record where
  "fresh_record = \<lparr>entry_state_of = Queued, held_reason = None, recorded_at = 0, entry_attempts = 0,
     dispatched_at = None\<rparr>"

definition record_or_fresh :: "lifecycle \<Rightarrow> u64 \<Rightarrow> entry_record" where
  "record_or_fresh l n = (case bm_get l n of Some r \<Rightarrow> r | None \<Rightarrow> fresh_record)"

definition record_state :: "u64 \<Rightarrow> entry_state \<Rightarrow> u64 \<Rightarrow> lifecycle \<Rightarrow> bool \<times> lifecycle" where
  "record_state n s at l = (if older_than_record l n at then (False, l)
     else (True, bm_insert n \<lparr>entry_state_of = s, held_reason = None, recorded_at = at, entry_attempts = 0,
       dispatched_at = None\<rparr> l))"

definition record_attempt :: "u64 \<Rightarrow> u64 \<Rightarrow> lifecycle \<Rightarrow> bool \<times> lifecycle" where
  "record_attempt n at l = (let r = record_or_fresh l n in
     if at < recorded_at r then (False, l)
     else (True, bm_insert n (r\<lparr>recorded_at := at, dispatched_at := Some at\<rparr>) l))"

definition record_failed :: "u64 \<Rightarrow> u64 \<Rightarrow> lifecycle \<Rightarrow> u64 option \<times> lifecycle" where
  "record_failed n at l = (let r = record_or_fresh l n in
     if entry_terminal (state_of l n) \<or> at < recorded_at r then (None, l)
     else (Some (saturating_add (entry_attempts r) 1),
       bm_insert n (r\<lparr>recorded_at := at, entry_attempts := saturating_add (entry_attempts r) 1,
         dispatched_at := None\<rparr>) l))"

definition hold_entry :: "u64 \<Rightarrow> ustr \<Rightarrow> u64 \<Rightarrow> lifecycle \<Rightarrow> bool \<times> lifecycle" where
  "hold_entry n reason at l =
     (if blank reason \<or> entry_terminal (state_of l n) \<or> older_than_record l n at then (False, l)
      else (True, bm_insert n \<lparr>entry_state_of = state_of l n, held_reason = Some (trim reason), recorded_at = at,
        entry_attempts = attempts_made l n, dispatched_at = in_flight_since l n\<rparr> l))"

definition release_entry :: "u64 \<Rightarrow> u64 \<Rightarrow> lifecycle \<Rightarrow> bool \<times> lifecycle" where
  "release_entry n at l = (case bm_get l n of
     None \<Rightarrow> (False, l)
   | Some r \<Rightarrow> if entry_terminal (entry_state_of r) \<or> at < recorded_at r then (False, l)
     else (True, bm_insert n (r\<lparr>held_reason := None, recorded_at := at, entry_attempts := 0,
       dispatched_at := None\<rparr>) l))"

definition produced_but_unconverted :: "lifecycle \<Rightarrow> u64 list" where
  "produced_but_unconverted l = map fst (filter (\<lambda>e. entry_state_of (snd e) = Produced) l)"

definition unconverted_count :: "lifecycle \<Rightarrow> nat" where
  "unconverted_count l = length (produced_but_unconverted l)"

section \<open>The tick\<close>

datatype dispatch_action = Dispatch | Convert

fun action_text :: "dispatch_action \<Rightarrow> string" where
  "action_text Dispatch = ''dispatch''"
| "action_text Convert = ''convert''"

record dispatched_entry =
  entry_issue :: u64
  decided_from :: entry_state
  action :: dispatch_action

datatype skip_reason = Held ustr entry_state | AlreadyConverted | InFlight u64 | AttemptBoundExceeded u64 u64

fun skip_state :: "skip_reason \<Rightarrow> entry_state" where
  "skip_state (Held r s) = s"
| "skip_state AlreadyConverted = Converted"
| "skip_state (InFlight d) = Queued"
| "skip_state (AttemptBoundExceeded a b) = Queued"

fun skip_line :: "skip_reason \<Rightarrow> ustr" where
  "skip_line (Held r s) = lit ''held ['' @ lit (entry_state_text s) @ lit '']: '' @ r"
| "skip_line AlreadyConverted = lit ''converted [terminal]: should leave the queue''"
| "skip_line (InFlight d) = lit ''in flight: dispatched at '' @ show_u64 d @ lit '', no outcome recorded '' @ [8212]
     @ lit '' not redispatched''"
| "skip_line (AttemptBoundExceeded a b) = lit ''held [queued]: dispatch bound '' @ [8212, 32] @ show_u64 a
     @ lit '' dispatches with no patch (bound '' @ show_u64 b @ lit ''); held for triage, not redispatched''"

type_synonym skipped_entry = "u64 \<times> skip_reason"

record dispatch_tick =
  dispatched :: "dispatched_entry list"
  skipped :: "skipped_entry list"
  tick_refused :: "(nat \<times> ustr) list"

definition skip_reason_of :: "lifecycle \<Rightarrow> u64 \<Rightarrow> u64 \<Rightarrow> skip_reason option" where
  "skip_reason_of l bound n =
     (if state_of l n = Converted then Some AlreadyConverted
      else (case record_of l n of None \<Rightarrow> None
        | Some r \<Rightarrow> if bound \<le> entry_attempts r then Some (AttemptBoundExceeded (entry_attempts r) bound)
          else (case held_reason r of Some h \<Rightarrow> Some (Held h (state_of l n))
            | None \<Rightarrow> map_option InFlight (dispatched_at r))))"

definition tick_entry :: "lifecycle \<Rightarrow> u64 \<Rightarrow> u64 \<Rightarrow> dispatch_tick \<Rightarrow> dispatch_tick" where
  "tick_entry l bound n t = (case skip_reason_of l bound n of
     Some s \<Rightarrow> t\<lparr>skipped := skipped t @ [(n, s)]\<rparr>
   | None \<Rightarrow> t\<lparr>dispatched := dispatched t @ [\<lparr>entry_issue = n, decided_from = state_of l n,
       action = (if state_of l n = Produced then Convert else Dispatch)\<rparr>]\<rparr>)"

definition run_bounded :: "queue_file \<Rightarrow> lifecycle \<Rightarrow> u64 \<Rightarrow> dispatch_tick" where
  "run_bounded q l bound = (fold (tick_entry l bound) (queue_entries q)
     \<lparr>dispatched = [], skipped = [], tick_refused = queue_refused q\<rparr>)"

definition run_tick :: "queue_file \<Rightarrow> lifecycle \<Rightarrow> dispatch_tick" where
  "run_tick q l = run_bounded q l DEFAULT_MAX_DISPATCH_ATTEMPTS"

definition bound_reason :: "u64 \<Rightarrow> u64 \<Rightarrow> ustr" where
  "bound_reason a b = lit ''dispatch bound: '' @ show_u64 a @ lit '' dispatches with no patch (bound '' @ show_u64 b
     @ lit '') '' @ [8212] @ lit '' held for triage, not redispatched until released''"

definition write_dispatch :: "u64 \<Rightarrow> dispatched_entry \<Rightarrow> nat \<times> lifecycle \<Rightarrow> nat \<times> lifecycle" where
  "write_dispatch at e wl = (if action e = Dispatch
     then (case record_attempt (entry_issue e) at (snd wl) of
       (ok, l) \<Rightarrow> if ok then (fst wl + 1, l) else wl)
     else wl)"

definition write_hold :: "u64 \<Rightarrow> skipped_entry \<Rightarrow> nat \<times> lifecycle \<Rightarrow> nat \<times> lifecycle" where
  "write_hold at e wl = (case snd e of
     AttemptBoundExceeded a b \<Rightarrow> (case hold_entry (fst e) (bound_reason a b) at (snd wl) of
       (ok, l) \<Rightarrow> if ok then (fst wl + 1, l) else wl)
   | _ \<Rightarrow> wl)"

definition apply_to_ledger :: "dispatch_tick \<Rightarrow> u64 \<Rightarrow> lifecycle \<Rightarrow> nat \<times> lifecycle" where
  "apply_to_ledger t at l = fold (write_hold at) (skipped t) (fold (write_dispatch at) (dispatched t) (0, l))"

section \<open>The report of a tick\<close>

definition dispatched_anything :: "dispatch_tick \<Rightarrow> bool" where
  "dispatched_anything t \<longleftrightarrow> dispatched t \<noteq> []"

definition tick_stalled :: "dispatch_tick \<Rightarrow> bool" where
  "tick_stalled t \<longleftrightarrow> dispatched t = [] \<and> (skipped t \<noteq> [] \<or> tick_refused t \<noteq> [])"

definition fresh_count :: "dispatch_tick \<Rightarrow> nat" where
  "fresh_count t = length (filter (\<lambda>e. action e = Dispatch) (dispatched t))"

definition convert_count :: "dispatch_tick \<Rightarrow> nat" where
  "convert_count t = length (filter (\<lambda>e. action e = Convert) (dispatched t))"

definition held_count :: "dispatch_tick \<Rightarrow> nat" where
  "held_count t = length (filter (\<lambda>e. case snd e of Held r s \<Rightarrow> True | _ \<Rightarrow> False) (skipped t))"

definition converted_count :: "dispatch_tick \<Rightarrow> nat" where
  "converted_count t = length (filter (\<lambda>e. case snd e of AlreadyConverted \<Rightarrow> True | _ \<Rightarrow> False) (skipped t))"

definition in_flight_count :: "dispatch_tick \<Rightarrow> nat" where
  "in_flight_count t = length (filter (\<lambda>e. case snd e of InFlight d \<Rightarrow> True | _ \<Rightarrow> False) (skipped t))"

definition over_bound_count :: "dispatch_tick \<Rightarrow> nat" where
  "over_bound_count t = length (filter (\<lambda>e. case snd e of AttemptBoundExceeded a b \<Rightarrow> True | _ \<Rightarrow> False) (skipped t))"

definition skip_categories :: "dispatch_tick \<Rightarrow> ustr" where
  "skip_categories t = join (lit '', '') (map snd (filter (\<lambda>c. 0 < fst c)
     [(held_count t, show_nat (held_count t) @ lit '' held''),
      (converted_count t, show_nat (converted_count t) @ lit '' converted''),
      (in_flight_count t, show_nat (in_flight_count t) @ lit '' in flight''),
      (over_bound_count t, show_nat (over_bound_count t) @ lit '' over dispatch bound'')]))"

definition summary_line :: "dispatch_tick \<Rightarrow> ustr" where
  "summary_line t =
     (if dispatched t = [] \<and> skipped t = [] \<and> tick_refused t = []
      then lit ''dispatch tick: queue empty '' @ [8212] @ lit '' nothing to dispatch''
      else if dispatched t = []
      then lit ''dispatch tick: nothing dispatched '' @ [8212, 32] @ join (lit '', '')
        ((if skipped t \<noteq> [] then [show_nat (length (skipped t)) @ lit '' entries skipped ('' @ skip_categories t
            @ lit '')''] else [])
         @ (if tick_refused t \<noteq> [] then [show_nat (length (tick_refused t)) @ lit '' queue line(s) refused''] else []))
      else (let notable = map snd (filter fst
          [(0 < in_flight_count t, show_nat (in_flight_count t) @ lit '' in flight''),
           (0 < over_bound_count t, show_nat (over_bound_count t) @ lit '' over dispatch bound'')]) in
        lit ''dispatch tick: '' @ show_nat (length (dispatched t)) @ lit '' dispatched ('' @ show_nat (fresh_count t)
        @ lit '' fresh, '' @ show_nat (convert_count t) @ lit '' convert), '' @ show_nat (length (skipped t))
        @ lit '' skipped'' @ (if notable \<noteq> [] then lit '' ('' @ join (lit '', '') notable @ lit '')'' else [])))"

definition tick_lines :: "(ustr \<Rightarrow> ustr) \<Rightarrow> dispatch_tick \<Rightarrow> ustr list" where
  "tick_lines debug t = [summary_line t]
     @ map (\<lambda>e. lit ''#'' @ show_u64 (entry_issue e) @ lit '' '' @ lit (action_text (action e)) @ lit '' [''
         @ lit (entry_state_text (decided_from e)) @ lit '']'') (dispatched t)
     @ map (\<lambda>e. lit ''#'' @ show_u64 (fst e) @ lit '' '' @ skip_line (snd e)) (skipped t)
     @ map (\<lambda>r. lit ''refused queue line '' @ show_nat (fst r) @ lit '': '' @ debug (snd r) @ lit '' '' @ [8212]
         @ lit '' not an issue number'') (tick_refused t)"

end
