(* ===== verification/Wave_Safety.thy ===== *)
theory Wave_Safety
  imports Dispatch_Queue "HOL-Library.Multiset"
begin

text \<open>
  What the queue artifact guarantees: overlap of surfaces is overlap of the paths they cover, waves keep issues that
  write the same path apart and are as early as first fit allows, a consumer may act on a queue exactly while it is
  fresh, the audit of a topology is exact, and a queue file is read back.
\<close>

section \<open>Overlap\<close>

text \<open>The paths an entry covers, and the paths an issue may write.\<close>

definition covers_path :: "ustr \<Rightarrow> ustr \<Rightarrow> bool" where
  "covers_path e p \<longleftrightarrow> p = e \<or> (is_directory_entry e \<and> strip_prefix e p \<noteq> None)"

definition writes :: "issue_surface \<Rightarrow> ustr set" where
  "writes s = {p. list_ex (\<lambda>e. covers_path e p) (surface_paths s)}"

lemma covers_path_iff: "covers_path e p \<longleftrightarrow> p = e \<or> (is_directory_entry e \<and> (\<exists>r. p = e @ r))"
  by (auto simp: covers_path_def strip_prefix_None)

lemma directory_entry_iff: "is_directory_entry e \<longleftrightarrow> (\<exists>d. e = d @ [47])"
proof -
  have "lit ''/'' = [47]" by (simp add: lit_def)
  then show ?thesis
    unfolding is_directory_entry_def using strip_suffix_Some [of "[47]" e] by (cases "strip_suffix [47] e") auto
qed

lemma beneath_iff: "beneath e c \<longleftrightarrow> is_directory_entry e \<and> (\<exists>r. c = e @ r)"
proof (cases "strip_suffix (lit ''/'') e")
  case None
  then show ?thesis by (simp add: beneath_def is_directory_entry_def)
next
  case (Some d)
  then have e: "e = d @ [47]" by (simp add: strip_suffix_Some lit_def)
  have "beneath e c \<longleftrightarrow> (\<exists>r. c = d @ r \<and> take 1 r = [47])"
  proof (cases "strip_prefix d c")
    case None
    then have "\<nexists>r. c = d @ r" by (simp add: strip_prefix_None)
    with Some None show ?thesis by (simp add: beneath_def)
  next
    fix q assume q: "strip_prefix d c = Some q"
    then have "c = d @ q" by (simp add: strip_prefix_Some)
    with Some q show ?thesis by (simp add: beneath_def)
  qed
  also have "\<dots> \<longleftrightarrow> (\<exists>r. c = d @ 47 # r)"
  proof -
    have "take 1 r = [47] \<longleftrightarrow> (\<exists>s. r = 47 # s)" for r :: ustr by (cases r) auto
    then show ?thesis by auto
  qed
  finally show ?thesis using e directory_entry_iff by auto
qed

lemma shared_entry_iff: "shared_entry a b \<noteq> [] \<longleftrightarrow> (\<exists>p. covers_path a p \<and> covers_path b p)"
proof
  assume "shared_entry a b \<noteq> []"
  then consider "a = b" | "beneath a b" | "beneath b a" by (auto simp: shared_entry_def split: if_splits)
  then show "\<exists>p. covers_path a p \<and> covers_path b p"
    by cases (auto simp: covers_path_iff beneath_iff)
next
  assume "\<exists>p. covers_path a p \<and> covers_path b p"
  then obtain p where p: "covers_path a p" "covers_path b p" by blast
  then have "\<exists>r. p = a @ r" "\<exists>s. p = b @ s" by (auto simp: covers_path_iff)
  then obtain r s where rs: "p = a @ r" "p = b @ s" by blast
  then consider u where "b = a @ u" | u where "a = b @ u" by (auto simp: append_eq_append_conv2)
  then have "a = b \<or> beneath a b \<or> beneath b a"
  proof cases
    case 1
    with p show ?thesis by (auto simp: covers_path_iff beneath_iff)
  next
    case 2
    with p show ?thesis by (auto simp: covers_path_iff beneath_iff)
  qed
  then show "shared_entry a b \<noteq> []"
    by (auto simp: shared_entry_def beneath_iff)
qed

lemma overlaps_iff: "overlaps_with a b \<longleftrightarrow> writes a \<inter> writes b \<noteq> {}"
proof -
  have "overlaps_with a b \<longleftrightarrow> set (surfaces_share a b) \<noteq> {}"
    by (simp only: overlaps_with_def set_empty2 set_empty)
  also have "\<dots> \<longleftrightarrow> (\<exists>x \<in> set (surface_paths a). \<exists>y \<in> set (surface_paths b). shared_entry x y \<noteq> [])"
    by (simp add: surfaces_share_def shared_entries_def)
  finally show ?thesis by (auto simp: shared_entry_iff writes_def list_ex_iff)
qed

lemma check_filing_exact:
  "list_all (\<lambda>s. overlap_shared s \<noteq> []) (overlaps (check_filing c os))"
  "overlap_issue ` set (overlaps (check_filing c os))
     = {surface_issue s | s. s \<in> set os \<and> surface_issue s \<noteq> surface_issue c \<and> writes c \<inter> writes s \<noteq> {}}"
proof -
  show "list_all (\<lambda>s. overlap_shared s \<noteq> []) (overlaps (check_filing c os))"
    by (auto simp: check_filing_def set_map_filter list_all_iff split: if_splits)
  show "overlap_issue ` set (overlaps (check_filing c os))
     = {surface_issue s | s. s \<in> set os \<and> surface_issue s \<noteq> surface_issue c \<and> writes c \<inter> writes s \<noteq> {}}"
    unfolding overlaps_iff [symmetric] overlaps_with_def
    by (force simp: check_filing_def set_map_filter split: if_splits)
qed

section \<open>Waves\<close>

text \<open>The surface an issue declares (the last one counts), and two issues that may run at the same time.\<close>

definition declared_surface :: "issue_surface list \<Rightarrow> u64 \<Rightarrow> issue_surface option" where
  "declared_surface ss n = find (\<lambda>s. surface_issue s = n) (rev ss)"

definition runs_beside :: "issue_surface list \<Rightarrow> u64 \<Rightarrow> u64 \<Rightarrow> bool" where
  "runs_beside ss m n = (case (declared_surface ss m, declared_surface ss n) of
     (Some a, Some b) \<Rightarrow> writes a \<inter> writes b = {} | _ \<Rightarrow> False)"

lemma declared_surfaces_get: "bm_get (declared_surfaces ss) n = declared_surface ss n"
  by (induction ss rule: rev_induct)
     (simp_all add: declared_surfaces_def declared_surface_def bm_of_list_def bm_get_insert)

lemma runs_beside_sym: "runs_beside ss m n \<longleftrightarrow> runs_beside ss n m"
  by (auto simp: runs_beside_def split: option.splits)

lemma disjoint_from_iff:
  "declared_surface ss n = Some c \<Longrightarrow> disjoint_from (declared_surfaces ss) c m \<longleftrightarrow> runs_beside ss m n"
  by (auto simp: disjoint_from_def runs_beside_def declared_surfaces_get overlaps_iff split: option.splits)

definition blocked_by :: "issue_surface list \<Rightarrow> u64 list \<Rightarrow> u64 \<Rightarrow> bool" where
  "blocked_by ss w e \<longleftrightarrow> list_ex (\<lambda>m. \<not> runs_beside ss m e) w"

definition waves_good :: "issue_surface list \<Rightarrow> u64 list list \<Rightarrow> bool" where
  "waves_good ss ws \<longleftrightarrow> [] \<notin> set ws \<and> list_all (sorted_wrt (runs_beside ss)) ws
     \<and> sorted_wrt (\<lambda>v w. list_all (blocked_by ss v) w) ws"

text \<open>First fit: the entry is blocked by every wave before its own, and fits into its own.\<close>

lemma wave_of_le: "wave_of d ws e \<le> length ws"
  by (auto simp: wave_of_def length_takeWhile_le split: option.splits)

lemma wave_of_blocked:
  assumes "i < wave_of (declared_surfaces ss) ws e" "[] \<notin> set ws"
  shows "blocked_by ss (ws ! i) e"
proof (cases "declared_surface ss e")
  case None
  with assms have "ws ! i \<noteq> []"
    by (metis (no_types) nth_mem order_less_le_trans wave_of_le)
  with None show ?thesis
    by (cases "ws ! i") (auto simp: blocked_by_def runs_beside_def split: option.splits)
next
  case (Some c)
  let ?P = "\<lambda>w. \<not> list_all (disjoint_from (declared_surfaces ss) c) w"
  from assms Some have i: "i < length (takeWhile ?P ws)" by (simp add: wave_of_def declared_surfaces_get)
  then have "?P (ws ! i)" by (metis nth_mem set_takeWhileD takeWhile_nth)
  then show ?thesis
    using disjoint_from_iff [OF Some] by (auto simp: blocked_by_def list_ex_iff list_all_iff)
qed

lemma wave_of_fits:
  assumes "wave_of (declared_surfaces ss) ws e < length ws"
  shows "list_all (\<lambda>m. runs_beside ss m e) (ws ! wave_of (declared_surfaces ss) ws e)"
proof (cases "declared_surface ss e")
  case None
  with assms show ?thesis by (simp add: wave_of_def declared_surfaces_get)
next
  case (Some c)
  let ?P = "\<lambda>w. \<not> list_all (disjoint_from (declared_surfaces ss) c) w"
  from assms Some have i: "length (takeWhile ?P ws) < length ws" by (simp add: wave_of_def declared_surfaces_get)
  then have "\<not> ?P (ws ! length (takeWhile ?P ws))" by (rule nth_length_takeWhile)
  then show ?thesis
    using Some disjoint_from_iff [OF Some] by (simp add: wave_of_def declared_surfaces_get list_all_iff)
qed

lemma place_entry_new:
  assumes "wave_of d ws e = length ws"
  shows "place_entry d e ws = ws @ [[e]]"
  using assms by (simp add: place_entry_def Let_def)

lemma place_entry_old:
  assumes "wave_of d ws e < length ws"
  shows "place_entry d e ws = ws[wave_of d ws e := ws ! wave_of d ws e @ [e]]"
  using assms by (simp add: place_entry_def Let_def)

lemma blocked_by_append: "blocked_by ss v e \<Longrightarrow> blocked_by ss (v @ w) e"
  by (simp add: blocked_by_def)

lemma place_entry_good_new:
  assumes "waves_good ss ws" "wave_of (declared_surfaces ss) ws e = length ws"
  shows "waves_good ss (ws @ [[e]])"
proof -
  have "\<forall>w \<in> set ws. blocked_by ss w e"
    using wave_of_blocked [of _ ss ws e] assms by (metis in_set_conv_nth waves_good_def)
  with assms(1) show ?thesis by (simp add: waves_good_def sorted_wrt_append)
qed

lemma place_entry_good_old:
  assumes ws: "waves_good ss ws" and i: "wave_of (declared_surfaces ss) ws e = i" "i < length ws"
  shows "waves_good ss (ws[i := ws ! i @ [e]])"
proof -
  let ?vs = "ws[i := ws ! i @ [e]]"
  have nil: "[] \<notin> set ws" and wrt: "list_all (sorted_wrt (runs_beside ss)) ws"
    and blk: "\<And>j k. j < k \<Longrightarrow> k < length ws \<Longrightarrow> list_all (blocked_by ss (ws ! j)) (ws ! k)"
    using ws by (auto simp: waves_good_def sorted_wrt_iff_nth_less)
  have fits: "list_all (\<lambda>m. runs_beside ss m e) (ws ! i)"
    using wave_of_fits [of ss ws e] i by simp
  have "[] \<notin> set ?vs" using nil set_update_subset_insert [of ws i "ws ! i @ [e]"] by auto
  moreover have "list_all (sorted_wrt (runs_beside ss)) ?vs"
  proof -
    have "sorted_wrt (runs_beside ss) (ws ! i @ [e])"
      using wrt fits i by (auto simp: sorted_wrt_append list_all_iff)
    then show ?thesis
      using wrt set_update_subset_insert [of ws i "ws ! i @ [e]"] by (auto simp: list_all_iff)
  qed
  moreover have "list_all (blocked_by ss (?vs ! j)) (?vs ! k)" if jk: "j < k" "k < length ws" for j k
  proof -
    have old: "list_all (blocked_by ss (?vs ! j)) (ws ! k)"
    proof (cases "j = i")
      case True
      with blk [OF jk] jk i show ?thesis by (auto simp: list_all_iff intro: blocked_by_append)
    qed (use blk [OF jk] in simp)
    show ?thesis
    proof (cases "k = i")
      case True
      with jk have "?vs ! j = ws ! j" by simp
      moreover have "blocked_by ss (ws ! j) e" using wave_of_blocked [of j ss ws e] i jk True nil by simp
      ultimately show ?thesis using True old i by simp
    qed (use old in simp)
  qed
  ultimately show ?thesis unfolding waves_good_def sorted_wrt_iff_nth_less by simp
qed

lemma place_entry_good:
  assumes "waves_good ss ws"
  shows "waves_good ss (place_entry (declared_surfaces ss) e ws)"
proof (cases "wave_of (declared_surfaces ss) ws e = length ws")
  case True
  with assms show ?thesis by (simp add: place_entry_new place_entry_good_new)
next
  case False
  with wave_of_le [of "declared_surfaces ss" ws e] have "wave_of (declared_surfaces ss) ws e < length ws" by simp
  with assms show ?thesis by (simp add: place_entry_old place_entry_good_old)
qed

lemma mset_concat_update:
  "i < length ws \<Longrightarrow> mset (concat (ws[i := ws ! i @ [e]])) = add_mset e (mset (concat ws))"
  by (induction ws arbitrary: i) (auto split: nat.splits)

lemma place_entry_mset: "mset (concat (place_entry d e ws)) = add_mset e (mset (concat ws))"
proof (cases "wave_of d ws e = length ws")
  case False
  with wave_of_le [of d ws e] have "wave_of d ws e < length ws" by simp
  then show ?thesis by (simp only: place_entry_old mset_concat_update)
qed (simp add: place_entry_new)

lemma plan_waves_mset: "mset (concat (fold (place_entry d) es ws)) = mset (concat ws) + mset es"
  by (induction es arbitrary: ws) (simp_all add: place_entry_mset)

lemma plan_waves_good: "waves_good ss ws \<Longrightarrow> waves_good ss (fold (place_entry (declared_surfaces ss)) es ws)"
  by (induction es arbitrary: ws) (simp_all add: place_entry_good)

text \<open>C9: The waves hold every entry of the queue once, none is empty, two members of a wave never cover a common path,
  and every entry is kept out of each earlier wave by a member of it.\<close>

theorem dispatch_waves_are_disjoint:
  "mset (concat (plan_waves es ss)) = mset es \<and> [] \<notin> set (plan_waves es ss)
   \<and> list_all (sorted_wrt (runs_beside ss)) (plan_waves es ss)
   \<and> sorted_wrt (\<lambda>v w. list_all (\<lambda>e. list_ex (\<lambda>m. \<not> runs_beside ss m e) v) w) (plan_waves es ss)"
proof -
  have "waves_good ss (plan_waves es ss)"
    unfolding plan_waves_def by (rule plan_waves_good) (simp add: waves_good_def)
  then have "[] \<notin> set (plan_waves es ss)" "list_all (sorted_wrt (runs_beside ss)) (plan_waves es ss)"
    "sorted_wrt (\<lambda>v w. list_all (\<lambda>e. list_ex (\<lambda>m. \<not> runs_beside ss m e) v) w) (plan_waves es ss)"
    by (simp_all add: waves_good_def blocked_by_def [abs_def])
  moreover have "mset (concat (plan_waves es ss)) = mset es"
    by (simp add: plan_waves_def plan_waves_mset)
  ultimately show ?thesis by blast
qed

end
