(* ===== verification/Queue_Safety.thy ===== *)
theory Queue_Safety
  imports Wave_Safety
begin

text \<open>
  What a consumer may conclude from the queue file: the closed form of the reader, the round trip, the exact
  conditions under which a queue counts as fresh, under which a hop counts as live and under which the division of the
  code panics, and the conditions the audit of a topology stands for.
\<close>

section \<open>The reader of the queue\<close>

definition issue_number :: "ustr \<Rightarrow> u64 option" where
  "issue_number t = (case parse_u64 t of Some n \<Rightarrow> if n = 0 then None else Some n | None \<Rightarrow> None)"

definition names_work :: "ustr \<Rightarrow> bool" where
  "names_work t \<longleftrightarrow> t \<noteq> [] \<and> take 1 t \<noteq> lit ''#''"

lemma header_is_comment:
  "strip_prefix STAMP_HEADER t = Some r \<Longrightarrow> \<not> names_work t"
  "strip_prefix REFRESHER_HEADER t = Some r \<Longrightarrow> \<not> names_work t"
  by (auto simp: strip_prefix_Some names_work_def STAMP_HEADER_def REFRESHER_HEADER_def lit_def)

lemma comment_no_number: "\<not> names_work t \<Longrightarrow> issue_number t = None"
  by (cases t) (auto simp: names_work_def issue_number_def parse_u64_def lit_def is_ascii_digit_def)

lemma queue_line_comment:
  assumes "\<not> names_work (trim (snd il))"
  shows "queue_entries (queue_line il q) = queue_entries q" "queue_refused (queue_line il q) = queue_refused q"
proof -
  let ?t = "trim (snd il)"
  have c: "?t = [] \<or> take 1 ?t = lit ''#''" using assms by (auto simp: names_work_def)
  have "queue_entries (queue_line il q) = queue_entries q \<and> queue_refused (queue_line il q) = queue_refused q"
    unfolding queue_line_def Let_def if_P [OF c] by (simp split: option.split)
  then show "queue_entries (queue_line il q) = queue_entries q" "queue_refused (queue_line il q) = queue_refused q"
    by simp_all
qed

lemma queue_line_work:
  assumes "names_work (trim (snd il))"
  shows "queue_line il q = (case issue_number (trim (snd il)) of
      Some n \<Rightarrow> q\<lparr>queue_entries := queue_entries q @ [n]\<rparr>
    | None \<Rightarrow> q\<lparr>queue_refused := queue_refused q @ [(fst il + 1, trim (snd il))]\<rparr>)"
proof -
  let ?t = "trim (snd il)"
  have c: "\<not> (?t = [] \<or> take 1 ?t = lit ''#'')" using assms by (simp add: names_work_def)
  have "strip_prefix STAMP_HEADER ?t = None" "strip_prefix REFRESHER_HEADER ?t = None"
    using header_is_comment [of ?t] assms by fastforce+
  then show ?thesis
    using c by (cases "parse_u64 ?t") (simp_all add: queue_line_def Let_def issue_number_def)
qed

lemma queue_line_reads:
  "queue_entries (queue_line il q)
     = queue_entries q @ (case issue_number (trim (snd il)) of Some n \<Rightarrow> [n] | None \<Rightarrow> [])"
  "queue_refused (queue_line il q)
     = queue_refused q @ (if names_work (trim (snd il)) \<and> issue_number (trim (snd il)) = None
         then [(fst il + 1, trim (snd il))] else [])"
  by (cases "names_work (trim (snd il))"; cases "issue_number (trim (snd il))";
      simp add: queue_line_work queue_line_comment comment_no_number)+

text \<open>Every line that names work is an entry or is refused with its number, in the order of the file.\<close>

lemma queue_lines_read:
  "queue_entries (fold queue_line ils q) = queue_entries q @ List.map_filter (\<lambda>il. issue_number (trim (snd il))) ils"
  "queue_refused (fold queue_line ils q) = queue_refused q
     @ map (\<lambda>il. (fst il + 1, trim (snd il)))
         (filter (\<lambda>il. names_work (trim (snd il)) \<and> issue_number (trim (snd il)) = None) ils)"
  by (induction ils arbitrary: q)
     (simp_all add: queue_line_reads map_filter_simps split: option.split)

lemma map_filter_map: "List.map_filter f (map g xs) = List.map_filter (\<lambda>x. f (g x)) xs"
  by (simp add: map_filter_def comp_def filter_map)

lemma parse_queue_exact:
  "queue_entries (parse_queue t) = List.map_filter issue_number (map trim (str_lines t))"
  "queue_refused (parse_queue t) = map (\<lambda>il. (fst il + 1, trim (snd il)))
     (filter (\<lambda>il. names_work (trim (snd il)) \<and> issue_number (trim (snd il)) = None) (enumerate 0 (str_lines t)))"
proof -
  have "List.map_filter issue_number (map trim (str_lines t))
      = List.map_filter (\<lambda>il. issue_number (trim (snd il))) (enumerate 0 (str_lines t))"
    by (subst map_snd_enumerate [symmetric, of _ 0]) (simp only: map_filter_map)
  then show "queue_entries (parse_queue t) = List.map_filter issue_number (map trim (str_lines t))"
    by (simp add: parse_queue_def queue_lines_read no_queue_def)
qed (simp add: parse_queue_def queue_lines_read no_queue_def)

section \<open>Round trip\<close>

definition clean_text :: "ustr \<Rightarrow> bool" where
  "clean_text s \<longleftrightarrow> s \<noteq> [] \<and> trim s = s \<and> 10 \<notin> set s"

definition whole_line :: "ustr \<Rightarrow> bool" where
  "whole_line l \<longleftrightarrow> 10 \<notin> set l \<and> last (0 # l) \<noteq> 13"

definition queue_lines_of :: "queue_file \<Rightarrow> ustr list" where
  "queue_lines_of q = (case refreshed_at q of Some at \<Rightarrow> [STAMP_HEADER @ lit '' '' @ show_u64 at] | None \<Rightarrow> [])
     @ (case refreshed_by q of Some b \<Rightarrow> [REFRESHER_HEADER @ lit '' '' @ b] | None \<Rightarrow> [])
     @ map show_u64 (queue_entries q)"

lemma render_queue_lines: "render_queue q = concat (map (\<lambda>l. l @ [10]) (queue_lines_of q))"
  by (simp add: render_queue_def queue_lines_of_def comp_def split: option.splits)

lemma show_u64_chars: "c \<in> set (show_u64 n) \<Longrightarrow> is_ascii_digit c"
  using show_nat_digits [of "unat n"] by (simp add: show_u64_def)

lemma show_u64_ends: "show_u64 n \<noteq> []" "is_ascii_digit (hd (show_u64 n))" "is_ascii_digit (last (show_u64 n))"
  using show_u64_chars [of _ n] by (simp_all add: show_u64_def)

lemma digit_no_space: "is_ascii_digit c \<Longrightarrow> \<not> is_whitespace c"
  by (auto simp: is_ascii_digit_def is_whitespace_def)

lemma trim_id: "s \<noteq> [] \<Longrightarrow> \<not> is_whitespace (hd s) \<Longrightarrow> \<not> is_whitespace (last s) \<Longrightarrow> trim s = s"
  by (simp add: trim_def trim_start_id trim_end_id)

lemma trim_show_u64: "trim (show_u64 n) = show_u64 n"
  by (intro trim_id show_u64_ends digit_no_space)

lemma clean_last: "clean_text s \<Longrightarrow> \<not> is_whitespace (last s)"
proof -
  assume "clean_text s"
  then have "s \<noteq> []" "trim_end (trim_start s) = s" by (simp_all add: clean_text_def trim_def)
  then have "rev s = dropWhile is_whitespace (rev (trim_start s))" by (metis rev_rev_ident trim_end_def)
  with hd_dropWhile [of is_whitespace "rev (trim_start s)"] \<open>s \<noteq> []\<close> show ?thesis
    by (metis hd_rev rev_is_Nil_conv)
qed

lemma trim_header:
  assumes "h \<noteq> []" "\<not> is_whitespace (hd h)" "s \<noteq> []" "\<not> is_whitespace (last s)"
  shows "trim (h @ s) = h @ s"
  using assms by (intro trim_id) simp_all

lemma trim_space: "clean_text s \<Longrightarrow> trim (lit '' '' @ s) = s"
  by (simp add: clean_text_def trim_def trim_start_def lit_def is_whitespace_def)

lemma clean_show_u64: "clean_text (show_u64 n)"
  using show_u64_chars [of 10 n] by (auto simp: clean_text_def trim_show_u64 show_u64_ends is_ascii_digit_def)

lemma header_line:
  assumes "clean_text s" "h = STAMP_HEADER \<or> h = REFRESHER_HEADER"
  shows "trim (h @ lit '' '' @ s) = h @ lit '' '' @ s" "whole_line (h @ lit '' '' @ s)"
proof -
  have s: "s \<noteq> []" "\<not> is_whitespace (last s)" "10 \<notin> set s"
    using assms(1) clean_last by (auto simp: clean_text_def)
  have h: "h \<noteq> []" "\<not> is_whitespace (hd h)" "10 \<notin> set h"
    using assms(2) by (auto simp: STAMP_HEADER_def REFRESHER_HEADER_def lit_def is_whitespace_def)
  show "trim (h @ lit '' '' @ s) = h @ lit '' '' @ s"
    using s h by (intro trim_header) (simp_all add: lit_def)
  have "last s \<noteq> 13" using s(2) by (auto simp: is_whitespace_def)
  then show "whole_line (h @ lit '' '' @ s)" using s h by (auto simp: whole_line_def lit_def)
qed

lemma stamp_line: "queue_line (i, STAMP_HEADER @ lit '' '' @ show_u64 n) q = q\<lparr>refreshed_at := Some n\<rparr>"
  by (simp add: queue_line_def header_line(1) clean_show_u64 trim_space del: append_assoc)

lemma refresher_line:
  assumes "clean_text b"
  shows "queue_line (i, REFRESHER_HEADER @ lit '' '' @ b) q = q\<lparr>refreshed_by := Some b\<rparr>"
proof -
  have "strip_prefix STAMP_HEADER (REFRESHER_HEADER @ t) = None" for t
    by (auto simp: strip_prefix_None STAMP_HEADER_def REFRESHER_HEADER_def lit_def)
  moreover have "b \<noteq> []" using assms by (simp add: clean_text_def)
  ultimately show ?thesis
    using assms by (simp add: queue_line_def header_line(1) trim_space)
qed

lemma entry_line: "n \<noteq> 0 \<Longrightarrow> queue_line (i, show_u64 n) q = q\<lparr>queue_entries := queue_entries q @ [n]\<rparr>"
proof -
  assume n: "n \<noteq> 0"
  obtain c t where c: "show_u64 n = c # t" "is_ascii_digit c" using show_u64_ends [of n] by (cases "show_u64 n") auto
  then have "names_work (show_u64 n)" by (auto simp: names_work_def lit_def is_ascii_digit_def)
  moreover have "issue_number (show_u64 n) = Some n" using n by (simp add: issue_number_def)
  ultimately show ?thesis using queue_line_work [of "(i, show_u64 n)" q] by (simp add: trim_show_u64)
qed

lemma show_u64_line: "whole_line (show_u64 n)"
  using clean_show_u64 [of n] clean_last [OF clean_show_u64, of n]
  by (auto simp: whole_line_def clean_text_def is_whitespace_def)

lemma entry_lines: "0 \<notin> set ns \<Longrightarrow> fold queue_line (enumerate i (map show_u64 ns)) q = q\<lparr>queue_entries := queue_entries q @ ns\<rparr>"
  by (induction ns arbitrary: i q) (auto simp: entry_line)

text \<open>A queue whose refresher has a clean name is read back, but for the refused lines, which are not written.\<close>

lemma queue_file_reads_back:
  assumes "0 \<notin> set (queue_entries q)" "pred_option clean_text (refreshed_by q)"
  shows "parse_queue (render_queue q) = q\<lparr>queue_refused := []\<rparr>"
proof -
  have "list_all whole_line (case refreshed_at q of Some at \<Rightarrow> [STAMP_HEADER @ lit '' '' @ show_u64 at] | None \<Rightarrow> [])"
    by (cases "refreshed_at q") (simp_all add: header_line(2) clean_show_u64)
  moreover have "list_all whole_line (case refreshed_by q of Some b \<Rightarrow> [REFRESHER_HEADER @ lit '' '' @ b] | None \<Rightarrow> [])"
    using assms(2) by (cases "refreshed_by q") (simp_all add: header_line(2))
  ultimately have "list_all whole_line (queue_lines_of q)"
    unfolding queue_lines_of_def list_all_append by (simp add: show_u64_line list.pred_map comp_def list.pred_True)
  then have ok: "list_all (\<lambda>l. 10 \<notin> set l \<and> last (0 # l) \<noteq> 13) (queue_lines_of q)"
    by (simp only: whole_line_def [abs_def])
  have read: "parse_queue (render_queue q) = fold queue_line (enumerate 0 (queue_lines_of q)) no_queue"
    unfolding parse_queue_def render_queue_lines str_lines_concat [OF ok] ..
  obtain es at b rs where q: "q = \<lparr>queue_entries = es, refreshed_at = at, refreshed_by = b, queue_refused = rs\<rparr>"
    by (cases q)
  show ?thesis unfolding read using assms
    by (cases at; cases b)
       (simp_all add: q queue_lines_of_def enumerate_append_eq stamp_line refresher_line entry_lines no_queue_def)
qed

section \<open>Freshness\<close>

text \<open>The bound is met in natural numbers: saturation of the product never turns a stale stamp into a fresh one.\<close>

lemma threshold_exact:
  "threshold_for p s < age \<longleftrightarrow> unat (interval_for p s) * unat (max_intervals p) < unat age"
proof -
  have "unat age < 2 ^ 64" using unsigned_less [of age, where ?'a = nat] by simp
  then show ?thesis by (auto simp: threshold_for_def word_less_nat_alt unat_saturating_mul)
qed

lemma unat_age: "b \<le> now \<Longrightarrow> unat (now - b) = unat now - unat b" for b now :: u64
  by (rule unat_sub)

lemma authorize_stamped:
  assumes "refreshed_at q = Some s" "s \<le> now"
  shows "authorize_queue p (Some q) now =
    (if unat (interval_for (policy_of p) (queue_producer p)) * unat (max_intervals (policy_of p)) < unat now - unat s
     then map_option (\<lambda>m. hold_queue StampNotRefreshed (producer_name p) (stale_message (producer_name p) m s (now - s)
         (threshold_for (policy_of p) (queue_producer p)))) (missed_intervals (policy_of p) (now - s) (queue_producer p))
     else Some (if queue_entries q = [] then Idle (now - s) else Proceed (length (queue_entries q)) (now - s)))"
proof -
  have "\<not> now < s" using assms(2) by simp
  then show ?thesis using assms by (simp add: authorize_queue_def Let_def threshold_exact unat_age)
qed

lemma authorize_unstamped:
  assumes "\<nexists>q s. queue = Some q \<and> refreshed_at q = Some s \<and> s \<le> now"
  shows "\<exists>c m. authorize_queue p queue now = Some (hold_queue c (producer_name p) m)"
  using assms by (cases queue) (auto simp: authorize_queue_def Let_def not_le split: option.splits)

definition queue_age_ok :: "dispatch_pipeline \<Rightarrow> u64 \<Rightarrow> u64 \<Rightarrow> bool" where
  "queue_age_ok p s now \<longleftrightarrow> s \<le> now \<and>
     unat now - unat s \<le> unat (interval_for (policy_of p) (queue_producer p)) * unat (max_intervals (policy_of p))"

lemma hold_is_held: "outcome_held (hold_queue c s m)" "hold_queue c s m \<noteq> Idle a" "hold_queue c s m \<noteq> Proceed n a"
  by (simp_all add: outcome_held_def hold_queue_def)

lemma authorize_fresh:
  "authorize_queue p queue now = Some d \<and> \<not> outcome_held d \<longleftrightarrow>
     (\<exists>q s. queue = Some q \<and> refreshed_at q = Some s \<and> queue_age_ok p s now
        \<and> d = (if queue_entries q = [] then Idle (now - s) else Proceed (length (queue_entries q)) (now - s)))"
proof (cases "\<exists>q s. queue = Some q \<and> refreshed_at q = Some s \<and> s \<le> now")
  case True
  then obtain q s where qs: "queue = Some q" "refreshed_at q = Some s" "s \<le> now" by blast
  then show ?thesis
    using authorize_stamped [OF qs(2,3), of p]
    by (auto simp: queue_age_ok_def hold_is_held not_less) (simp_all add: outcome_held_def)
next
  case False
  then have "\<not> (\<exists>q s. queue = Some q \<and> refreshed_at q = Some s \<and> queue_age_ok p s now)"
    by (auto simp: queue_age_ok_def)
  moreover obtain c m where "authorize_queue p queue now = Some (hold_queue c (producer_name p) m)"
    using authorize_unstamped [OF False] by blast
  ultimately show ?thesis using hold_is_held by auto
qed

lemma authorize_panics:
  "authorize_queue p queue now = None \<longleftrightarrow> (\<exists>q s. queue = Some q \<and> refreshed_at q = Some s \<and> s < now
     \<and> interval_for (policy_of p) (queue_producer p) = 0)"
proof (cases "\<exists>q s. queue = Some q \<and> refreshed_at q = Some s \<and> s \<le> now")
  case True
  then obtain q s where qs: "queue = Some q" "refreshed_at q = Some s" "s \<le> now" by blast
  then have "s < now \<longleftrightarrow> 0 < unat now - unat s" by (simp add: word_less_nat_alt)
  then show ?thesis
    using qs authorize_stamped [OF qs(2,3), of p] by (auto simp: missed_intervals_def)
next
  case False
  then show ?thesis using authorize_unstamped [OF False, of p] by (auto dest: less_imp_le)
qed

text \<open>C8: The consumer is let through exactly by a stamped queue that is not from the future and whose age is at most the
  tolerated number of intervals, computed without overflow; it stays idle only over a fresh and empty queue, and with the
  admitted issues known only when none is admitted; and the division panics exactly for a stamp in the past of a
  producer whose interval is 0.\<close>

theorem queue_authority_exact:
  "(authorize_queue p queue now = Some d \<and> \<not> outcome_held d \<longleftrightarrow>
     (\<exists>q s. queue = Some q \<and> refreshed_at q = Some s \<and> s \<le> now
        \<and> unat now - unat s \<le> unat (interval_for (policy_of p) (queue_producer p)) * unat (max_intervals (policy_of p))
        \<and> d = (if queue_entries q = [] then Idle (now - s) else Proceed (length (queue_entries q)) (now - s))))
   \<and> (authorize_with_admission p queue admitted now = Some (Idle a) \<longleftrightarrow>
        authorize_queue p queue now = Some (Idle a) \<and> admitted = [])
   \<and> (authorize_queue p queue now = None \<longleftrightarrow> (\<exists>q s. queue = Some q \<and> refreshed_at q = Some s \<and> s < now
        \<and> interval_for (policy_of p) (queue_producer p) = 0))"
proof -
  have empty: "queue_is_defect (reconcile_queue admitted []) \<longleftrightarrow> admitted \<noteq> []"
    using set_bs_of_list [of admitted] by (simp add: queue_is_defect_def reconcile_queue_def bs_of_list_def flip: set_empty)
  have "authorize_with_admission p queue admitted now = Some (Idle a) \<longleftrightarrow>
      authorize_queue p queue now = Some (Idle a) \<and> admitted = []"
  proof (cases "authorize_queue p queue now = Some (Idle a)")
    case True
    then have "authorize_queue p queue now = Some (Idle a) \<and> \<not> outcome_held (Idle a)" by (simp add: outcome_held_def)
    then obtain q where "queue = Some q" "queue_entries q = []"
      unfolding authorize_fresh by (auto split: if_splits)
    with True empty show ?thesis by (simp add: authorize_with_admission_def Let_def hold_is_held)
  next
    case False
    then show ?thesis
      by (auto simp: authorize_with_admission_def Let_def hold_is_held split: option.splits dispatch_outcome.splits if_splits)
  qed
  from conjI [OF authorize_fresh [unfolded queue_age_ok_def conj_assoc] conjI [OF this authorize_panics]]
  show ?thesis .
qed

text \<open>The verdict on a scheduled hop.\<close>

lemma assess_exact:
  "assess l s p now = Some (Live a) \<longleftrightarrow> schedule s \<noteq> SessionScoped \<and> (\<exists>b. last_beat l (step_name s) = Some b
     \<and> b \<le> now \<and> unat now - unat b \<le> unat (interval_for p (Some s)) * unat (max_intervals p) \<and> a = now - b)"
  "assess l s p now = None \<longleftrightarrow> schedule s = Scheduled 0 \<and> (\<exists>b. last_beat l (step_name s) = Some b \<and> b < now)"
proof -
  show "assess l s p now = Some (Live a) \<longleftrightarrow> schedule s \<noteq> SessionScoped \<and> (\<exists>b. last_beat l (step_name s) = Some b
     \<and> b \<le> now \<and> unat now - unat b \<le> unat (interval_for p (Some s)) * unat (max_intervals p) \<and> a = now - b)"
    by (auto simp: assess_def Let_def threshold_exact unat_age not_less missed_intervals_def split: option.splits)
  have i: "interval_for p (Some s) = 0 \<and> schedule s \<noteq> SessionScoped \<longleftrightarrow> schedule s = Scheduled 0"
    by (cases "schedule s") (auto simp: interval_for_def)
  show "assess l s p now = None \<longleftrightarrow> schedule s = Scheduled 0 \<and> (\<exists>b. last_beat l (step_name s) = Some b \<and> b < now)"
  proof (cases "schedule s = SessionScoped \<or> last_beat l (step_name s) = None")
    case True
    then show ?thesis by (auto simp: assess_def Let_def)
  next
    case False
    then obtain b where b: "last_beat l (step_name s) = Some b" "schedule s \<noteq> SessionScoped" by blast
    have "assess l s p now = None \<longleftrightarrow> \<not> now < b \<and> threshold_for p (Some s) < now - b \<and> interval_for p (Some s) = 0"
      using b by (simp add: assess_def Let_def missed_intervals_def)
    also have "\<dots> \<longleftrightarrow> \<not> now < b \<and> unat now - unat b \<noteq> 0 \<and> interval_for p (Some s) = 0"
      by (auto simp: threshold_exact unat_age not_less)
    also have "\<dots> \<longleftrightarrow> b < now \<and> interval_for p (Some s) = 0"
      by (auto simp: word_less_nat_alt)
    finally show ?thesis using b i by auto
  qed
qed

text \<open>A beat never moves backwards, and later beats of other steps leave it alone.\<close>

lemma record_beat_exact:
  "last_beat (record_beat s at l) t = (if t = s then Some (case last_beat l s of Some b \<Rightarrow> max b at | None \<Rightarrow> at)
     else last_beat l t)"
  by (auto simp: record_beat_def last_beat_def bm_get_insert max_def split: option.split)

section \<open>The audit\<close>

definition sound_step :: "topology \<Rightarrow> pipeline_step \<Rightarrow> bool" where
  "sound_step t s \<longleftrightarrow> step_log s \<noteq> None
     \<and> (credential s = NoCredential \<or> (host s \<noteq> SharedCluster \<and> (schedule s = SessionScoped \<or> host s = Authenticated)))
     \<and> (case produces s of None \<Rightarrow> True | Some a \<Rightarrow> list_ex (\<lambda>u. a \<in> set (consumes u)) t
          \<longrightarrow> schedule s \<noteq> SessionScoped \<and> host s \<noteq> EphemeralSession)"

lemma step_defects_Nil: "step_defects t s = [] \<longleftrightarrow> sound_step t s"
proof -
  have used: "a \<in> set (consumed_artifacts t) \<longleftrightarrow> list_ex (\<lambda>u. a \<in> set (consumes u)) t" for a
    by (auto simp: consumed_artifacts_def list_ex_iff)
  have cred: "credential_defects s = [] \<longleftrightarrow> credential s = NoCredential
      \<or> (host s \<noteq> SharedCluster \<and> (schedule s = SessionScoped \<or> host s = Authenticated))"
    by (cases "schedule s"; cases "host s")
      (simp_all add: credential_defects_def requires_credential_def allows_credentials_def is_durable_def)
  have prod: "producer_defects t s = [] \<longleftrightarrow> (case produces s of None \<Rightarrow> True | Some a \<Rightarrow>
      list_ex (\<lambda>u. a \<in> set (consumes u)) t \<longrightarrow> schedule s \<noteq> SessionScoped \<and> host s \<noteq> EphemeralSession)"
    by (cases "schedule s") (simp_all add: producer_defects_def used is_durable_def split: option.split)
  show ?thesis unfolding step_defects_def sound_step_def cred [symmetric] prod [symmetric] by auto
qed

lemma audit_clean_iff:
  "audit_topology t = [] \<longleftrightarrow> list_all (sound_step t) t
     \<and> (\<Union>s \<in> set t. set (consumes s)) \<subseteq> {a. list_ex (\<lambda>s. produces s = Some a) t}"
  by (simp add: audit_topology_def step_defects_Nil list_all_iff filter_empty_conv producer_of_def find_None_iff
      consumed_artifacts_def list_ex_iff subset_iff) blast

lemma reference_topology_clean: "audit_topology reference_topology = []"
  unfolding audit_clean_iff
  by (simp add: reference_topology_def sound_step_def QUEUE_ARTIFACT_def lit_def)

text \<open>The audit accepts a step whose interval is 0, on which the report of a queue with an old stamp panics.\<close>

definition zero_interval_topology :: topology where
  "zero_interval_topology = map (\<lambda>s. if produces s = Some QUEUE_ARTIFACT then s\<lparr>schedule := Scheduled 0\<rparr> else s)
     reference_topology"

lemma zero_interval_passes_audit:
  "audit_topology zero_interval_topology = []
   \<and> report_pipeline \<lparr>topology_of = zero_interval_topology, liveness_of = [], policy_of = default_freshness\<rparr>
       (Some (stamp_queue 99 [] no_queue)) 100 = None"
proof -
  have "authorize_queue \<lparr>topology_of = zero_interval_topology, liveness_of = [], policy_of = default_freshness\<rparr>
      (Some (stamp_queue 99 [] no_queue)) 100 = None"
    unfolding authorize_panics
    by (simp add: stamp_queue_def queue_producer_def producer_of_def zero_interval_topology_def reference_topology_def
        QUEUE_ARTIFACT_def lit_def interval_for_def)
  moreover have "audit_topology zero_interval_topology = []"
    unfolding audit_clean_iff
    by (simp add: zero_interval_topology_def reference_topology_def sound_step_def QUEUE_ARTIFACT_def lit_def)
  ultimately show ?thesis by (simp add: report_pipeline_def)
qed

end
