(* ===== verification/Pipeline_Safety.thy ===== *)
theory Pipeline_Safety
  imports Entry_Lifecycle Queue_Safety
begin

text \<open>
  What the ticks guarantee: which entries a tick dispatches and which it skips, that an issue gets at most the bound of
  fresh dispatches between two resets of its record when the clock moves forward (an interpretation of
  \<open>guarded_machine\<close>), and how a clock that moved back or a repeated entry escapes that bound.
\<close>

section \<open>One tick\<close>

definition may_run :: "lifecycle \<Rightarrow> u64 \<Rightarrow> u64 \<Rightarrow> bool" where
  "may_run l bound n \<longleftrightarrow> skip_reason_of l bound n = None"

definition tick_action :: "lifecycle \<Rightarrow> u64 \<Rightarrow> dispatched_entry" where
  "tick_action l n = \<lparr>entry_issue = n, decided_from = state_of l n,
     action = (if state_of l n = Produced then Convert else Dispatch)\<rparr>"

lemma may_run_iff: "may_run l bound n \<longleftrightarrow> (case bm_get l n of None \<Rightarrow> True
    | Some r \<Rightarrow> entry_state_of r \<noteq> Converted \<and> entry_attempts r < bound \<and> held_reason r = None \<and> dispatched_at r = None)"
  by (auto simp: may_run_def skip_reason_of_def record_of_def state_of_def not_le split: option.splits)

lemma tick_fold:
  "dispatched (fold (tick_entry l bound) ns t) = dispatched t @ map (tick_action l) (filter (may_run l bound) ns)"
  "skipped (fold (tick_entry l bound) ns t) = skipped t
     @ List.map_filter (\<lambda>n. map_option (Pair n) (skip_reason_of l bound n)) ns"
  "tick_refused (fold (tick_entry l bound) ns t) = tick_refused t"
  by (induction ns arbitrary: t)
     (simp_all add: tick_entry_def may_run_def tick_action_def map_filter_simps split: option.split)

lemma run_bounded_exact:
  "dispatched (run_bounded q l bound) = map (tick_action l) (filter (may_run l bound) (queue_entries q))"
  "skipped (run_bounded q l bound)
     = List.map_filter (\<lambda>n. map_option (Pair n) (skip_reason_of l bound n)) (queue_entries q)"
  "tick_refused (run_bounded q l bound) = queue_refused q"
  by (simp_all add: run_bounded_def tick_fold)

lemma map_fst_skipped:
  "map fst (List.map_filter (\<lambda>n. map_option (Pair n) (skip_reason_of l bound n)) ns) = filter (\<lambda>n. \<not> may_run l bound n) ns"
  by (induction ns) (auto simp: map_filter_simps may_run_def split: option.split)

text \<open>Every entry is dispatched or skipped, in the order of the queue.\<close>

lemma tick_accounts:
  "map entry_issue (dispatched (run_bounded q l bound)) = filter (may_run l bound) (queue_entries q)"
  "map fst (skipped (run_bounded q l bound)) = filter (\<lambda>n. \<not> may_run l bound n) (queue_entries q)"
proof -
  show "map entry_issue (dispatched (run_bounded q l bound)) = filter (may_run l bound) (queue_entries q)"
    by (simp add: run_bounded_exact tick_action_def comp_def)
  show "map fst (skipped (run_bounded q l bound)) = filter (\<lambda>n. \<not> may_run l bound n) (queue_entries q)"
    unfolding run_bounded_exact
    by (rule map_fst_skipped)
qed

lemma skip_counts: "held_count t + converted_count t + in_flight_count t + over_bound_count t = length (skipped t)"
proof -
  have "length (filter (\<lambda>e. case snd e of Held r s \<Rightarrow> True | _ \<Rightarrow> False) es)
      + length (filter (\<lambda>e. case snd e of AlreadyConverted \<Rightarrow> True | _ \<Rightarrow> False) es)
      + length (filter (\<lambda>e. case snd e of InFlight d \<Rightarrow> True | _ \<Rightarrow> False) es)
      + length (filter (\<lambda>e. case snd e of AttemptBoundExceeded a b \<Rightarrow> True | _ \<Rightarrow> False) es) = length es"
    for es :: "skipped_entry list"
    by (induction es) (auto split: skip_reason.splits)
  then show ?thesis by (simp add: held_count_def converted_count_def in_flight_count_def over_bound_count_def)
qed

section \<open>What a tick writes\<close>

lemma record_attempt_get:
  "bm_get (snd (record_attempt n at l)) m = (if m = n \<and> recorded_at (record_or_fresh l n) \<le> at
     then Some (record_or_fresh l n\<lparr>recorded_at := at, dispatched_at := Some at\<rparr>) else bm_get l m)"
  by (auto simp: record_attempt_def Let_def bm_get_insert)

lemma write_dispatch_get:
  "snd (write_dispatch at e wl) = (if action e = Dispatch then snd (record_attempt (entry_issue e) at (snd wl)) else snd wl)"
  by (auto simp: write_dispatch_def record_attempt_def Let_def split: prod.splits)

lemma dispatches_leave:
  "n \<notin> set (map entry_issue es) \<Longrightarrow> bm_get (snd (fold (write_dispatch at) es wl)) n = bm_get (snd wl) n"
  by (induction es arbitrary: wl) (auto simp: write_dispatch_get record_attempt_get)

lemma record_or_fresh_cong: "bm_get l n = bm_get m n \<Longrightarrow> record_or_fresh l n = record_or_fresh m n"
  by (simp add: record_or_fresh_def)

lemma write_dispatch_cong:
  assumes "bm_get (snd v) n = bm_get (snd w) n"
  shows "bm_get (snd (write_dispatch at e v)) n = bm_get (snd (write_dispatch at e w)) n"
  using assms record_or_fresh_cong [OF assms]
  by (cases "n = entry_issue e") (simp_all add: write_dispatch_get record_attempt_get)

text \<open>A distinct list of dispatches writes exactly the records of its fresh ones.\<close>

lemma dispatches_write:
  assumes "distinct (map entry_issue es)" "e \<in> set es"
  shows "bm_get (snd (fold (write_dispatch at) es wl)) (entry_issue e)
    = bm_get (snd (write_dispatch at e wl)) (entry_issue e)"
  using assms
proof (induction es arbitrary: wl)
  case (Cons d es)
  show ?case
  proof (cases "d = e")
    case True
    with Cons.prems show ?thesis by (simp add: dispatches_leave)
  next
    case False
    with Cons.prems have e: "e \<in> set es" "entry_issue e \<noteq> entry_issue d" by (auto simp: image_iff)
    have "bm_get (snd (write_dispatch at d wl)) (entry_issue e) = bm_get (snd wl) (entry_issue e)"
      using e(2) by (simp add: write_dispatch_get record_attempt_get)
    then have "bm_get (snd (write_dispatch at e (write_dispatch at d wl))) (entry_issue e)
        = bm_get (snd (write_dispatch at e wl)) (entry_issue e)"
      by (rule write_dispatch_cong)
    with Cons.IH [of "write_dispatch at d wl"] Cons.prems e show ?thesis by simp
  qed
qed simp

definition last_stamp :: "lifecycle \<Rightarrow> u64 \<Rightarrow> u64" where
  "last_stamp l n = recorded_at (record_or_fresh l n)"

lemma hold_entry_view:
  "attempts_made (snd (hold_entry m r at l)) n = attempts_made l n"
  "in_flight_since (snd (hold_entry m r at l)) n = in_flight_since l n"
  "last_stamp (snd (hold_entry m r at l)) n \<le> max (last_stamp l n) at"
  by (simp_all add: hold_entry_def attempts_made_def in_flight_since_def last_stamp_def record_or_fresh_def bm_get_insert
      max_def not_le less_imp_le split: option.split)

lemma write_hold_get:
  "snd (write_hold at s wl) = (case snd s of
     AttemptBoundExceeded a b \<Rightarrow> snd (hold_entry (fst s) (bound_reason a b) at (snd wl)) | _ \<Rightarrow> snd wl)"
  by (cases "snd s") (auto simp: write_hold_def hold_entry_def)

lemma write_hold_view:
  "attempts_made (snd (write_hold at s wl)) n = attempts_made (snd wl) n"
  "in_flight_since (snd (write_hold at s wl)) n = in_flight_since (snd wl) n"
  "last_stamp (snd (write_hold at s wl)) n \<le> max (last_stamp (snd wl) n) at"
  unfolding write_hold_get by (cases "snd s"; simp add: hold_entry_view)+

lemma holds_view:
  "attempts_made (snd (fold (write_hold at) ss wl)) n = attempts_made (snd wl) n"
  "in_flight_since (snd (fold (write_hold at) ss wl)) n = in_flight_since (snd wl) n"
  "last_stamp (snd (fold (write_hold at) ss wl)) n \<le> max (last_stamp (snd wl) n) at"
proof (induction ss arbitrary: wl)
  case (Cons s ss)
  { case 1 show ?case by (simp add: Cons.IH(1) write_hold_view) }
  { case 2 show ?case by (simp add: Cons.IH(2) write_hold_view) }
  { case (3 wl)
    show ?case using Cons.IH(3) [of "write_hold at s wl"] write_hold_view(3) [of at s wl n]
      by (auto simp: max_def split: if_splits) }
qed simp_all

definition runs_fresh :: "queue_file \<Rightarrow> lifecycle \<Rightarrow> u64 \<Rightarrow> u64 \<Rightarrow> bool" where
  "runs_fresh q l bound n \<longleftrightarrow> n \<in> set (queue_entries q) \<and> may_run l bound n \<and> state_of l n \<noteq> Produced"

definition fresh_runs :: "u64 \<Rightarrow> queue_file \<Rightarrow> lifecycle \<Rightarrow> u64 \<Rightarrow> nat" where
  "fresh_runs n q l bound
     = length (filter (\<lambda>e. entry_issue e = n \<and> action e = Dispatch) (dispatched (run_bounded q l bound)))"

lemma filter_eq_single: "distinct xs \<Longrightarrow> length (filter (\<lambda>x. x = n \<and> P) xs) = (if n \<in> set xs \<and> P then 1 else 0)"
  by (induction xs) auto

lemma fresh_runs_distinct:
  assumes "distinct (queue_entries q)"
  shows "fresh_runs n q l bound = (if runs_fresh q l bound n then 1 else 0)"
proof -
  have "fresh_runs n q l bound = length (filter (\<lambda>m. m = n \<and> may_run l bound n \<and> state_of l n \<noteq> Produced) (queue_entries q))"
    unfolding fresh_runs_def run_bounded_exact filter_map length_map filter_filter
    by (rule arg_cong [where f = length], rule filter_cong) (auto simp: tick_action_def)
  also have "\<dots> = (if runs_fresh q l bound n then 1 else 0)"
    using assms by (simp add: runs_fresh_def filter_eq_single)
  finally show ?thesis .
qed

text \<open>The record of an issue after a tick over distinct entries, on a clock that has not moved back.\<close>

lemma dispatches_view:
  assumes "distinct (queue_entries q)" "last_stamp l n \<le> at"
  shows "bm_get (snd (fold (write_dispatch at) (dispatched (run_bounded q l bound)) (0, l))) n
    = (if runs_fresh q l bound n then Some (record_or_fresh l n\<lparr>recorded_at := at, dispatched_at := Some at\<rparr>) else bm_get l n)"
proof (cases "n \<in> set (queue_entries q) \<and> may_run l bound n")
  case True
  then have e: "tick_action l n \<in> set (dispatched (run_bounded q l bound))" by (simp add: run_bounded_exact)
  have "distinct (map entry_issue (dispatched (run_bounded q l bound)))"
    using assms(1) by (simp add: tick_accounts)
  from dispatches_write [OF this e, of at "(0, l)"] assms(2) True show ?thesis
    by (simp add: write_dispatch_get record_attempt_get tick_action_def runs_fresh_def last_stamp_def)
next
  case False
  then have "n \<notin> set (map entry_issue (dispatched (run_bounded q l bound)))" unfolding tick_accounts by auto
  from dispatches_leave [OF this, of at "(0, l)"] False show ?thesis by (auto simp: runs_fresh_def)
qed

lemma tick_view:
  assumes "distinct (queue_entries q)" "last_stamp l n \<le> at"
  shows "attempts_made (snd (apply_to_ledger (run_bounded q l bound) at l)) n = attempts_made l n"
    "in_flight_since (snd (apply_to_ledger (run_bounded q l bound) at l)) n
       = (if runs_fresh q l bound n then Some at else in_flight_since l n)"
    "last_stamp (snd (apply_to_ledger (run_bounded q l bound) at l)) n \<le> at"
proof -
  let ?m = "snd (fold (write_dispatch at) (dispatched (run_bounded q l bound)) (0, l))"
  note get = dispatches_view [OF assms, of bound]
  have m: "attempts_made ?m n = attempts_made l n"
    "in_flight_since ?m n = (if runs_fresh q l bound n then Some at else in_flight_since l n)" "last_stamp ?m n \<le> at"
    using assms(2) get
    by (simp_all add: attempts_made_def in_flight_since_def last_stamp_def record_or_fresh_def fresh_record_def
        split: option.splits if_splits)
  show "attempts_made (snd (apply_to_ledger (run_bounded q l bound) at l)) n = attempts_made l n"
    "in_flight_since (snd (apply_to_ledger (run_bounded q l bound) at l)) n
       = (if runs_fresh q l bound n then Some at else in_flight_since l n)"
    using m by (simp_all add: apply_to_ledger_def holds_view)
  show "last_stamp (snd (apply_to_ledger (run_bounded q l bound) at l)) n \<le> at"
    unfolding apply_to_ledger_def
    using holds_view(3) [of at "skipped (run_bounded q l bound)" "fold (write_dispatch at) (dispatched (run_bounded q l bound)) (0, l)" n] m(3)
    by (simp add: max_def split: if_splits)
qed

section \<open>Histories\<close>

text \<open>The operations callers apply to the ledger; a tick is made durable at once.\<close>

datatype queue_event = TickEvent queue_file u64 u64 | StampEvent u64 entry_state u64 | FailEvent u64 u64
  | HoldEvent u64 ustr u64 | ReleaseEvent u64 u64

fun event_at :: "queue_event \<Rightarrow> u64" where
  "event_at (TickEvent q bound at) = at"
| "event_at (StampEvent n s at) = at"
| "event_at (FailEvent n at) = at"
| "event_at (HoldEvent n r at) = at"
| "event_at (ReleaseEvent n at) = at"

fun ledger_event :: "queue_event \<Rightarrow> lifecycle \<Rightarrow> lifecycle" where
  "ledger_event (TickEvent q bound at) l = snd (apply_to_ledger (run_bounded q l bound) at l)"
| "ledger_event (StampEvent n s at) l = snd (record_state n s at l)"
| "ledger_event (FailEvent n at) l = snd (record_failed n at l)"
| "ledger_event (HoldEvent n r at) l = snd (hold_entry n r at l)"
| "ledger_event (ReleaseEvent n at) l = snd (release_entry n at l)"

text \<open>The fresh dispatches of one issue since its record was last reset, by an accepted stamp or release.\<close>

fun spent :: "u64 \<Rightarrow> queue_event \<Rightarrow> lifecycle \<Rightarrow> nat \<Rightarrow> nat" where
  "spent n (TickEvent q bound at) l k = k + fresh_runs n q l bound"
| "spent n (StampEvent m s at) l k = (if m = n \<and> fst (record_state m s at l) then 0 else k)"
| "spent n (ReleaseEvent m at) l k = (if m = n \<and> fst (release_entry m at l) then 0 else k)"
| "spent n e l k = k"

text \<open>A scheduler that keeps one bound, whose clock does not move back, and whose queue repeats no issue.\<close>

fun out_of_pace :: "u64 \<Rightarrow> u64 \<Rightarrow> queue_event \<Rightarrow> bool" where
  "out_of_pace b now (TickEvent q bound at) \<longleftrightarrow> at < now \<or> bound \<noteq> b \<or> \<not> distinct (queue_entries q)"
| "out_of_pace b now e \<longleftrightarrow> event_at e < now"

definition paced :: "u64 \<Rightarrow> u64 \<Rightarrow> u64 \<times> lifecycle \<times> nat \<Rightarrow> queue_event \<Rightarrow> unit + u64 \<times> lifecycle \<times> nat" where
  "paced b n w e = (case w of (now, l, k) \<Rightarrow> if out_of_pace b now e then Inl ()
     else Inr (event_at e, ledger_event e l, spent n e l k))"

definition within_budget :: "u64 \<Rightarrow> u64 \<Rightarrow> u64 \<times> lifecycle \<times> nat \<Rightarrow> bool" where
  "within_budget b n w = (case w of (now, l, k) \<Rightarrow> last_stamp l n \<le> now
     \<and> k \<le> unat (attempts_made l n) + (if in_flight_since l n = None then 0 else 1) \<and> k \<le> max 1 (unat b))"

lemma runs_fresh_room:
  assumes "runs_fresh q l b n"
  shows "in_flight_since l n = None" "attempts_made l n = 0 \<or> attempts_made l n < b"
  using assms
  by (auto simp: runs_fresh_def may_run_iff in_flight_since_def attempts_made_def split: option.splits)

lemma tick_within:
  assumes "within_budget b n (now, l, k)" "now \<le> at" "distinct (queue_entries q)"
  shows "within_budget b n (at, snd (apply_to_ledger (run_bounded q l b) at l), k + fresh_runs n q l b)"
proof -
  have "last_stamp l n \<le> at" using assms(1,2) by (auto simp: within_budget_def intro: order_trans)
  note view = tick_view [OF assms(3) this, of b] and fresh = fresh_runs_distinct [OF assms(3), of n l b]
  show ?thesis
  proof (cases "runs_fresh q l b n")
    case True
    note room = runs_fresh_room [OF True]
    have k: "k \<le> unat (attempts_made l n)" using assms(1) room(1) by (simp add: within_budget_def)
    have "unat (attempts_made l n) + 1 \<le> max 1 (unat b)" using room(2) by (auto simp: word_less_nat_alt)
    with k view fresh True show ?thesis by (simp add: within_budget_def)
  next
    case False
    with assms(1) view fresh show ?thesis by (simp add: within_budget_def)
  qed
qed

lemma record_view:
  "last_stamp (bm_insert m r l) n = (if m = n then recorded_at r else last_stamp l n)"
  "attempts_made (bm_insert m r l) n = (if m = n then entry_attempts r else attempts_made l n)"
  "in_flight_since (bm_insert m r l) n = (if m = n then dispatched_at r else in_flight_since l n)"
  by (simp_all add: last_stamp_def record_or_fresh_def attempts_made_def in_flight_since_def bm_get_insert)

lemma stamp_within:
  assumes "within_budget b n (now, l, k)" "now \<le> at"
  shows "within_budget b n (at, snd (record_state m s at l), spent n (StampEvent m s at) l k)"
  using assms by (auto simp: within_budget_def record_state_def record_view)

lemma release_within:
  assumes "within_budget b n (now, l, k)" "now \<le> at"
  shows "within_budget b n (at, snd (release_entry m at l), spent n (ReleaseEvent m at) l k)"
  using assms by (auto simp: within_budget_def release_entry_def record_view split: option.splits)

lemma hold_within:
  assumes "within_budget b n (now, l, k)" "now \<le> at"
  shows "within_budget b n (at, snd (hold_entry m r at l), k)"
  using assms hold_entry_view(3) [of m r at l n]
  by (auto simp: within_budget_def hold_entry_view max_def split: if_splits)

lemma attempts_of_record: "entry_attempts (record_or_fresh l n) = attempts_made l n"
  by (simp add: record_or_fresh_def attempts_made_def fresh_record_def split: option.split)

lemma fail_within:
  assumes "within_budget b n (now, l, k)" "now \<le> at"
  shows "within_budget b n (at, snd (record_failed m at l), k)"
proof -
  have w: "last_stamp l n \<le> at" "k \<le> unat (attempts_made l n) + (if in_flight_since l n = None then 0 else 1)"
    "k \<le> max 1 (unat b)"
    using assms order_trans [of "last_stamp l n" now at] by (simp_all add: within_budget_def)
  moreover have "max 1 (unat b) \<le> 2 ^ 64 - 1"
    using unsigned_less [of b, where ?'a = nat] by simp
  ultimately have k: "k \<le> unat (saturating_add (attempts_made l n) 1)"
    unfolding unat_saturating_add_1 by (auto split: if_splits)
  show ?thesis
    using w k by (auto simp: within_budget_def record_failed_def Let_def record_view attempts_of_record)
qed

interpretation dispatches: guarded_machine "paced b n" "within_budget b n" for b n
proof
  fix w e v assume w: "within_budget b n w" and step: "paced b n w e = Inr v"
  obtain now l k where s: "w = (now, l, k)" by (cases w)
  from step have v: "v = (event_at e, ledger_event e l, spent n e l k)" and ok: "\<not> out_of_pace b now e"
    by (auto simp: paced_def s split: if_splits)
  show "within_budget b n v"
  proof (cases e)
    case (TickEvent q bound at)
    with ok have "bound = b" "now \<le> at" "distinct (queue_entries q)" by (simp_all add: not_less)
    with TickEvent w s tick_within [of b n now l k at q] show ?thesis by (simp add: v)
  qed (use ok w s v stamp_within release_within hold_within fail_within in \<open>simp_all add: not_less\<close>)
qed

text \<open>C6: On a clock that does not move back and with queues that repeat no issue, an issue is freshly dispatched at most
  as often as the bound allows (once for the bound 0, which is not checked for an issue without a record) between two
  resets of its record, whatever runs fail, stamps, holds and releases come between.\<close>

theorem dispatches_are_bounded:
  assumes "run_all (paced bound n) (0, [], 0) events = Inr (now, ledger, k)"
  shows "k \<le> max 1 (unat bound)"
proof -
  have "within_budget bound n (0, [], 0)"
    by (simp add: within_budget_def last_stamp_def record_or_fresh_def fresh_record_def)
  from dispatches.run_good [OF this assms] show ?thesis by (simp add: within_budget_def)
qed

definition one_entry :: "u64 \<Rightarrow> queue_file" where
  "one_entry n = \<lparr>queue_entries = [n], refreshed_at = None, refreshed_by = None, queue_refused = []\<rparr>"

definition failing_history :: "queue_event list" where
  "failing_history = [TickEvent (one_entry 7) 3 10, FailEvent 7 20, TickEvent (one_entry 7) 3 30, FailEvent 7 40,
     TickEvent (one_entry 7) 3 50, FailEvent 7 60, TickEvent (one_entry 7) 3 70]"

definition entry_at :: "u64 \<Rightarrow> u64 \<Rightarrow> u64 option \<Rightarrow> lifecycle" where
  "entry_at at a d = [(7, \<lparr>entry_state_of = Queued, held_reason = None, recorded_at = at, entry_attempts = a,
     dispatched_at = d\<rparr>)]"

lemma first_tick: "paced 3 7 (0, [], 0) (TickEvent (one_entry 7) 3 10) = Inr (10, entry_at 10 0 (Some 10), 1)"
  by (simp add: paced_def one_entry_def fresh_runs_def run_bounded_def tick_entry_def skip_reason_of_def state_of_def
      record_of_def apply_to_ledger_def write_dispatch_def record_attempt_def record_or_fresh_def fresh_record_def entry_at_def)

lemma next_tick:
  assumes "a < 3" "s \<le> at"
  shows "paced 3 7 (s, entry_at s a None, k) (TickEvent (one_entry 7) 3 at) = Inr (at, entry_at at a (Some at), Suc k)"
  using assms by (simp add: paced_def one_entry_def fresh_runs_def run_bounded_def tick_entry_def skip_reason_of_def
      state_of_def record_of_def apply_to_ledger_def write_dispatch_def record_attempt_def record_or_fresh_def entry_at_def
      not_le not_less Let_def)

lemma next_failure:
  assumes "s \<le> at"
  shows "paced 3 7 (s, entry_at s a d, k) (FailEvent 7 at) = Inr (at, entry_at at (saturating_add a 1) None, k)"
  using leD [OF assms] by (simp add: paced_def record_failed_def state_of_def entry_terminal_def record_or_fresh_def entry_at_def
      Let_def)

lemma bounded_tick:
  assumes "s \<le> at"
  shows "\<exists>l. paced 3 7 (s, entry_at s 3 None, k) (TickEvent (one_entry 7) 3 at) = Inr (at, l, k)"
  using assms by (simp add: paced_def one_entry_def fresh_runs_def run_bounded_def tick_entry_def skip_reason_of_def
      state_of_def record_of_def entry_at_def not_less)

lemma failing_history_runs: "\<exists>l. run_all (paced 3 7) (0, [], 0) failing_history = Inr (70, l, 3)"
proof -
  obtain l where l: "paced 3 7 (60, entry_at 60 3 None, 3) (TickEvent (one_entry 7) 3 70) = Inr (70, l, 3)"
    using bounded_tick [of 60 70 3] by auto
  have "run_all (paced 3 7) (0, [], 0) failing_history = Inr (70, l, 3)"
    using l by (simp add: failing_history_def first_tick next_tick next_failure saturating_add_def numeral_3_eq_3 [symmetric])
  then show ?thesis by blast
qed

lemma dispatches_are_bounded_witness: "(3 :: nat) \<le> max 1 (unat (3 :: u64))"
proof -
  obtain l where "run_all (paced 3 7) (0, [], 0) failing_history = Inr (70, l, 3)" using failing_history_runs by blast
  then show ?thesis by (rule dispatches_are_bounded)
qed

section \<open>Outside the bound\<close>

text \<open>All fresh dispatches of an issue in a history, in whatever order the clock is read.\<close>

fun total_fresh :: "u64 \<Rightarrow> queue_event list \<Rightarrow> lifecycle \<Rightarrow> nat" where
  "total_fresh n [] l = 0"
| "total_fresh n (e # es) l = spent n e l 0 + total_fresh n es (ledger_event e l)"

lemma stale_tick:
  "spent 7 (TickEvent (one_entry 7) 3 99) (entry_at 100 0 None) 0 = 1"
  "ledger_event (TickEvent (one_entry 7) 3 99) (entry_at 100 0 None) = entry_at 100 0 None"
  by (simp_all add: one_entry_def fresh_runs_def run_bounded_def tick_entry_def skip_reason_of_def state_of_def
      record_of_def apply_to_ledger_def write_dispatch_def record_attempt_def record_or_fresh_def entry_at_def)

lemma stale_ticks: "total_fresh 7 (replicate k (TickEvent (one_entry 7) 3 99)) (entry_at 100 0 None) = k"
  by (induction k) (simp_all add: stale_tick del: ledger_event.simps spent.simps)

lemma repeated_entry: "fresh_runs 7 (one_entry 7\<lparr>queue_entries := replicate k 7\<rparr>) [] b = k"
  by (simp add: fresh_runs_def run_bounded_exact tick_action_def may_run_iff state_of_def)


text \<open>A run that fails on a produced entry counts against the bound, and the skip then names the wrong state.\<close>

lemma produced_entry_over_bound:
  "(let l = fold ledger_event [StampEvent 7 Produced 10, FailEvent 7 20, FailEvent 7 30, FailEvent 7 40] [] in
     state_of l 7 = Produced \<and> skipped (run_tick (one_entry 7) l) = [(7, AttemptBoundExceeded 3 3)]
     \<and> skip_state (AttemptBoundExceeded 3 3) = Queued)"
  by (simp add: record_state_def record_failed_def older_than_record_def state_of_def record_or_fresh_def Let_def
      entry_terminal_def saturating_add_def run_tick_def run_bounded_def tick_entry_def skip_reason_of_def record_of_def
      one_entry_def DEFAULT_MAX_DISPATCH_ATTEMPTS_def)

text \<open>A later stamp takes a converted entry out of its terminal state.\<close>

lemma converted_entry_reopens:
  "dispatched (run_tick (one_entry 7) (fold ledger_event [StampEvent 7 Converted 10, StampEvent 7 Queued 20] []))
     = [\<lparr>entry_issue = 7, decided_from = Queued, action = Dispatch\<rparr>]"
  by (simp add: record_state_def older_than_record_def run_tick_def run_bounded_def tick_entry_def skip_reason_of_def
      record_of_def state_of_def one_entry_def DEFAULT_MAX_DISPATCH_ATTEMPTS_def)

text \<open>A fresh queue of refused lines only: the tick is stalled, and yet the consumer is told that nothing was filed.\<close>

lemma refused_lines_read_idle:
  assumes "queue_entries q = []" "queue_refused q \<noteq> []" "refreshed_at q = Some s" "s \<le> now"
    "unat now - unat s \<le> unat (interval_for (policy_of p) (queue_producer p)) * unat (max_intervals (policy_of p))"
  shows "tick_stalled (run_tick q l)" "authorize_queue p (Some q) now = Some (Idle (now - s))"
proof -
  show "tick_stalled (run_tick q l)"
    using assms(1,2) by (simp add: tick_stalled_def run_tick_def run_bounded_exact)
  show "authorize_queue p (Some q) now = Some (Idle (now - s))"
    using assms authorize_stamped [OF assms(3,4), of p] by simp
qed

end
