(* ===== verification/Spec2Isabelle.thy ===== *)
theory Spec2Isabelle
  imports Glob_Scope Protocol Conductor_Store Breaker_Safety Dispatch_Eligibility Spec_Order Spec_State
    Issue_Metrics Task_Waves Lease_Compat Claim_Evidence Compat_Dag
    Queue_Input Safety_Policy Spec_Crash
    Fleet_Safety Verdict_Safety Gate_Verdict Gate_Hold Merge_Gate Pipeline_Safety
begin

text \<open>
  Verification of the core logic of autospec.

  The program. autospec turns specifications and issues of a repository into work for agents and
  keeps track of it. The crate \<open>src/crates/autospec-core\<close> holds the decisions, the crate
  \<open>autospec-cli\<close> the command line around them. The parts modelled here are those that decide what
  happens next:

  \<^item> the conductor, a state machine that takes one repository from scan over selection, claim
    and dispatch to retry, retirement or completion, and the governors that stop it on a blocked
    or idle backlog;
  \<^item> the eligibility predicate and the worklist reconciler, which decide what may be
    dispatched, and the withdrawal of issues whose runs stay silent;
  \<^item> the ready queue, which reads the tracker, passes every open issue through the gates of dispatch,
    ranks the ready ones and takes a batch;
  \<^item> the claim safety policy: the rules that read the intent of an issue, the review section in its
    body, and the decision whether it may be claimed;
  \<^item> the dispatch pipeline: the queue artifact and its freshness, the waves of issues with disjoint write
    surfaces, and the lifecycle of queue entries with the bound on dispatches;
  \<^item> the verdicts on runs: the classification of fleet runs and their start failures, the vocabulary of run
    statuses, the triage of a finished run, the guard before a dispatch, the gates before a merge;
  \<^item> the circuit breaker that takes workers out of the routing and brings them back, and the
    fleet of such workers;
  \<^item> the mission protocol: version negotiation, the envelope check and the sequencer that
    applies each message once;
  \<^item> the specs, their execution order, and the state store with its JSON document;
  \<^item> the issue graph with its waves, critical path and metrics, from which issues are planned;
  \<^item> initiatives: identifiers, workspaces, definitions, tasks with their lifecycle and leases, and
    the task graph whose scheduler decides which tasks may be released;
  \<^item> the work protocol with its leases and generations, the comments by which workers claim issues
    and report, and the adapters that carry the older lifecycles and graphs over to tasks;
  \<^item> scope patterns: globs, families of names and scoped identifiers.

  How they meet. The guard before a dispatch and the triage of the conversion pass judge the same labels and are
  proved to disagree on one of them; the tick of the pipeline reads the queue its consumer was let through to. The
  claim safety policy is the safety gate of the ready queue. The reconciler works on the issue record of the ready queue, and the queue asks its
  eligibility predicate and the withdrawal rule; the spec store
  uses the identifier check of the spec model, the JSON reader and the error type; the pattern
  audits use the glob matcher. The task scheduler reads the states and leases of the tasks, the
  capabilities granted in the workspace and the predicted collisions; validation of a task graph
  reads the definition. The adapters are proved against the models on both sides: transitions of
  the work protocol are transitions of tasks, waves of an issue graph are waves of its task graph.
  The conductor, the breaker, the store and the sequencer keep their
  state on their own and are driven by events, so their theorems range over all histories of
  events.

  Shared theories.

  \<^item> \<open>Rust_Base\<close>: strings as lists of scalar values, \<open>Result\<close> as a sum with \<open>and_then\<close> for
    \<open>?\<close>, checked and saturating words, decimal text.
  \<^item> \<open>Ordered_Map\<close>: \<open>BTreeMap\<close> and \<open>BTreeSet\<close>; the locales \<open>keyed_store\<close> and
    \<open>ordered_store\<close> hold the laws the components use, interpreted as \<open>btm\<close>.
  \<^item> \<open>Step_Machine\<close>: the locales \<open>guarded_machine\<close> (every accepted event keeps an invariant)
    and \<open>budgeted_machine\<close> (accepted events of a phase spend a credit), lifted to histories;
    interpreted for the conductor (\<open>conductor\<close>, \<open>retries\<close>), the breaker (\<open>breaker\<close>), the
    spec store (\<open>spec_store\<close>), the task lifecycle (\<open>task_life\<close>) and the comments of an issue
    (\<open>owner_keeps\<close>); \<open>refining_machine\<close> turns histories into paths of an abstract machine
    (\<open>work_as_task\<close>).
  \<^item> \<open>Digraph\<close>: topological orders, chains, cycles and layers; the locale \<open>digraph\<close> proves when peeling
    takes all nodes and that layers measure the longest chains (\<open>issue_dag\<close>, and through \<open>Dfs\<close>).
  \<^item> \<open>Dfs\<close>: the locale \<open>depth_first\<close>, an extension of \<open>digraph\<close> by the contract of a marking depth-first
    sort, proved correct once and interpreted for specs (\<open>spec_sort\<close>) and tasks (\<open>task_sort\<close>).
  \<^item> \<open>Autospec_Error\<close>: \<open>error.rs\<close>.

  Components, with the files under \<open>src/crates/autospec-core/src\<close>.

  \<^item> \<open>Glob\<close> (\<open>glob_scope/glob.rs\<close>): \<open>parse\<close> with its index arithmetic, \<open>match_here\<close> and
    \<open>matches\<close>. The matcher decides the language of a pattern (\<open>glob_lang\<close>), matches stay within
    a path component, the literal prefix is sound; the character after a class is lost.
  \<^item> \<open>Glob_Scope\<close> (\<open>family.rs\<close>, \<open>aggregate.rs\<close>, \<open>scoped_id.rs\<close>): \<open>classify\<close>,
    \<open>audit_pattern\<close>, \<open>suggestion\<close>, \<open>aggregate\<close>, \<open>parse_scoped_id\<close> and the ledger. Audits and
    double counts are exact, keys are read back; a suggestion can lose its intended member and an
    oversized number becomes 0.
  \<^item> \<open>Protocol\<close> (\<open>protocol/mod.rs\<close>, \<open>negotiate.rs\<close>, \<open>sequence.rs\<close>): \<open>negotiate\<close>,
    \<open>check_envelope\<close>, \<open>accept_message\<close>, \<open>resume_from\<close>. The values of \<open>serde_json\<close> are read
    through the record \<open>serde\<close>, an argument of the definitions. Messages are applied exactly once
    and in order, redelivery is idempotent, resuming is a rollback.
  \<^item> \<open>Conductor\<close> and \<open>Conductor_Safety\<close> (\<open>coordination/conductor.rs\<close>,
    \<open>conductor/invariants.rs\<close>, \<open>conductor/normalized.rs\<close>): \<open>conductor_state\<close> has the fields of
    \<open>ConductorState\<close>, \<open>apply_event\<close> is the \<open>match\<close> of \<open>transition\<close>, \<open>validate\<close> runs on every
    result. Retries are bounded, the selection is owned, pausing is undone by resuming, completion
    is final, no valid working state is wedged, the governor seals at the fifth cycle.
  \<^item> \<open>Circuit_Breaker\<close> and \<open>Breaker_Safety\<close> (\<open>circuit_breaker.rs\<close>): one operation per method
    of \<open>WorkerOutcome\<close>, \<open>fleet_tick\<close> for the fleet. The log is a path of legal edges, the
    back-off doubles up to its cap, failures open the circuit; a lost probe wedges a worker and an
    old token opens a fresh request.
  \<^item> \<open>Dispatch_Eligibility\<close> (\<open>coordination/dispatch_eligibility.rs\<close>, \<open>withdrawal.rs\<close>,
    \<open>review_routing.rs\<close>): \<open>reconcile\<close> makes the worklist the eligible issues, is idempotent, and
    fails exactly on stranded issues.
  \<^item> \<open>Spec_Order\<close> (\<open>spec/model.rs\<close>, \<open>graph/order.rs\<close>): identifier checks, the JSON text of a
    spec, and \<open>execution_order\<close>, which is topological and fails exactly on a missing dependency
    or a cycle.
  \<^item> \<open>Json\<close> (\<open>state/json.rs\<close>): the reader over the input that is left, its error messages with
    byte positions, and printed trees (\<open>render\<close>), which it reads back.
  \<^item> \<open>Spec_State\<close> (\<open>state/mod.rs\<close>, \<open>state/parse.rs\<close>): lifecycles, decompositions of parent
    issues, validation, document and reader. Operations are atomic, every store that can arise is
    read back from its document, every document accepted can be written again; two parents can
    come to own one child.
  \<^item> \<open>Disk\<close>, \<open>Spec_Storage\<close>, \<open>Spec_Crash\<close> (\<open>state/storage.rs\<close>, \<open>load_or_default\<close>, \<open>save\<close> and
    \<open>initialize_if_absent\<close> of \<open>state/mod.rs\<close>): the calls of \<open>std::fs\<close> over inodes and directory entries, each of
    which may fail, a record of every disk between two calls, and what a loss of power leaves of it; weakest
    preconditions (\<open>wp\<close>) carry an invariant through all of them. Saves are atomic on a settled disk and
    initialisation overwrites nothing; an initialisation cut off before its last step leaves two names of one
    file, which undoes the atomicity of every later save.

  \<^item> \<open>Issue_Metadata\<close>, \<open>Issue_Dag\<close>, \<open>Issue_Waves\<close>, \<open>Issue_Metrics\<close> (\<open>graph/metadata.rs\<close>,
    \<open>issue_dag.rs\<close>, \<open>metrics.rs\<close>, \<open>optimization.rs\<close>): the adjacency over known identifiers, \<open>waves\<close>,
    \<open>detect_cycle\<close> with its explicit stack, \<open>critical_path_length\<close>, and the integer metrics. Waves are
    the layers of the graph and decide acyclicity, the critical path is a longest chain; the cycle
    search can empty its stack, which the code does not survive.
  \<^item> \<open>Initiative_Ids\<close>, \<open>Workspace\<close> (\<open>initiative/ids.rs\<close>, \<open>repository.rs\<close>, \<open>definition.rs\<close>): identifiers with
    their parsers and derived orders, capabilities and repository records, requirements and their
    gaps. Identifiers read back, validation of a definition is exact.
  \<^item> \<open>Task\<close>, \<open>Task_Safety\<close> (\<open>initiative/roles.rs\<close>, \<open>task.rs\<close>, \<open>collision.rs\<close>, the write surfaces of
    \<open>dispatch_pipeline.rs\<close>): the lifecycle with its leases, separation of duties, predicted collisions.
    A task is verified only through a lease, a run and a review; separation is exact; only tasks not
    yet running can expire.
  \<^item> \<open>Task_Graph\<close>, \<open>Task_Schedule\<close>, \<open>Task_Waves\<close> (\<open>initiative/dag.rs\<close>): validation, order, descendants,
    waves, and \<open>schedule\<close> as a fold over the local state \<open>pass\<close>. Released tasks are safe beside all
    holders, every waiting task is released or held back with a true reason, and a pass makes progress.

  \<^item> \<open>Work_Protocol\<close>, \<open>Work_Safety\<close> (\<open>resilience/work_protocol.rs\<close>, \<open>ids.rs\<close>): stages, leases, receipts
    and reconciliation over the trait \<open>WorkStore\<close>, a record of its methods (\<open>store_api\<close>). The locale
    \<open>work_store\<close> holds the laws of the trait and is interpreted on the in-memory store. SHA-256 is an
    argument. A worker whose lease was taken over never finalises, stages are never skipped; a
    retried attempt never gets the lease.
  \<^item> \<open>Claim\<close>, \<open>Claim_Safety\<close>, \<open>Claim_Evidence\<close> (\<open>claim/mod.rs\<close>): claim leases, the run-state comments with
    their JSON, the comment that owns an issue, executor evidence, closing references and the
    recovery of a claim. Comments read back, the owner is stable, the scan for closing references is
    exact.
  \<^item> \<open>Lease_Compat\<close>, \<open>Compat_Dag\<close> (\<open>initiative/compat_lifecycle.rs\<close>, \<open>compat_lease.rs\<close>, \<open>compat_dag.rs\<close>): the
    adapters, with the refinement of the work protocol into tasks and the agreement of waves.

  \<^item> \<open>Issue_Text\<close>, \<open>Queue_Input\<close>, \<open>Ready_Queue\<close>, \<open>Ready_Graph\<close>, \<open>Ready_Safety\<close> (\<open>coordination/ready_queue.rs\<close>,
    \<open>ready_queue/labels.rs\<close>, \<open>capabilities.rs\<close>): what the queue reads in issue bodies and in the answers of
    GitHub, the gates in the order of the code (\<open>place_issue\<close>), the two graph searches, and the plan. The
    claim safety policy is an argument (\<open>safety\<close>), instantiated in \<open>Safety_Policy\<close>. The ready issues are exactly those that
    pass every gate and share no path with a lower-numbered ready issue, every selected issue is placed
    once, the order is the one of the transitive dependents, and the batch keeps to the worker cap.

  \<^item> \<open>Text_Search\<close>, \<open>Intent_Lint\<close>, \<open>Safety_Review\<close>, \<open>Safety_Section\<close>, \<open>Safety_Policy\<close> (\<open>claim/mod.rs\<close>,
    \<open>claim/intent_scope.rs\<close>): searching in texts, the blocking and ambiguous rules with the prohibitions that
    take them back, \<open>replace_safety_review_section\<close> and \<open>reviewed_body_without_safety_section\<close>, and
    \<open>evaluate_claim_safety_with_trusted_actors\<close>. The Unicode tables of the standard library are an argument
    (\<open>unicode\<close>). The decision is characterised exactly, trust never lifts a block, a written review is read
    back and replaced in place, and what the ready queue lists has passed the review.

  \<^item> \<open>Pipeline_Topology\<close>, \<open>Dispatch_Queue\<close>, \<open>Entry_Lifecycle\<close>, \<open>Wave_Safety\<close>, \<open>Queue_Safety\<close>,
    \<open>Pipeline_Safety\<close> (\<open>dispatch_pipeline.rs\<close>): the declared steps with \<open>audit_topology\<close>, beats and \<open>assess\<close>;
    \<open>parse_queue\<close>, surfaces, \<open>plan_waves\<close>, \<open>authorize_queue\<close>; the ledger of entries and the tick. Surfaces
    overlap exactly when they cover a common path, waves are disjoint, a queue is trusted exactly while it is
    fresh, audits are exact, queue files are read back, and dispatches of an issue are bounded on a clock that
    moves forward (\<open>dispatches\<close>, a guarded machine), which a clock behind the record or a repeated entry
    escapes; a zero interval, which the audit accepts, makes the consumer panic.
  \<^item> \<open>Fleet_Dispatch\<close>, \<open>Fleet_Safety\<close> (\<open>fleet_dispatch.rs\<close>, \<open>fleet_dispatch/never_started.rs\<close>): runs, batches, attempts
    and the reconciler memory, which implements the list of start failures since the last start. Lower case
    and the quoting of \<open>{:?}\<close> are arguments.
  \<^item> \<open>Run_Status\<close>, \<open>Status_Triage\<close>, \<open>Dispatch_Guard\<close>, \<open>Verdict_Safety\<close> (\<open>run_status.rs\<close>, \<open>run_status/evidence.rs\<close>,
    \<open>src/config/run-status-vocabulary.tsv\<close>, \<open>execution/status_triage.rs\<close> and its modules, \<open>dispatch_guard.rs\<close>): the
    vocabulary with its reader, verdicts from exit codes, the reader of agent reports, \<open>triage\<close> and \<open>decide\<close>.
    The vocabulary is read without panic, the report reader is exact, a dispatch needs every check clear.
  \<^item> \<open>Gate_Verdict\<close>, \<open>Gate_Hold\<close>, \<open>Merge_Gate\<close> (\<open>gate_verdict.rs\<close>, \<open>gate_hold.rs\<close>, \<open>classify_gate\<close> of
    \<open>execution/patch_pipeline.rs\<close>, \<open>merge_gate.rs\<close>, \<open>capability_admission.rs\<close>): absolute and differential verdicts, holds
    against a baseline, the merge decision and admission, each characterised exactly; the names of failing tests
    are read back, a change of one line is measured as none.

  Bounds of the model. Some recursions carry a depth that the code does not have: the two
  depth-first \<open>visit\<close> functions get one more than the number of specs or tasks, \<open>descend\<close> one more than
  the number of tasks, \<open>reaches_from\<close> two more than the number of known issues, and \<open>parse_value\<close> one more
  than the length of the input. \<open>execution_order_decides\<close>, \<open>topological_order_decides\<close>,
  \<open>descendants_exact\<close>, \<open>reaches_exact\<close> and \<open>parse_json_decides\<close> show that none is ever used up. All other
  loops are total functions. Machine integers keep their width; \<open>watermark + 1\<close> wraps as in the
  release profile; usize counts of list elements are natural numbers.

  What is not modelled. File I/O other than that of the state document and processes (\<open>execution\<close>,
  \<open>autonomous\<close>), text reports that only print the values of these components, percentages in
  floating point, the generated protocol bindings, the rule sets over source text (\<open>lint\<close>,
  \<open>validation\<close>), the retrieval and evaluation modules, and the command line.
  JSON that \<open>serde\<close> derives is not modelled, nor are ratios in floating point of the merge gate.
\<close>

end
